(* ===== verification/Prelude.thy ===== *)
theory Prelude
  imports Complex_Main "HOL-Library.Multiset" "HOL-Library.Sublist" "HOL-Library.Char_ord"
    "HOL-Library.List_Lexorder" "HOL-Library.Product_Lexorder"
begin

text \<open>
  Shared vocabulary of the development.

  \<^item> \<open>err\<close> has one constructor per kind of error the modelled code throws; \<open>'a res\<close> is the
    value of a call that may throw. \<open>rbind\<close> sequences two such calls: the first error wins, which
    is what a throw (or a rejected promise that is awaited) does in the source.
  \<^item> A SQL table is a list of rows in insertion order. A locale \<open>row_store\<close> states what the
    components rely on when they address a table by its key (read one row, rewrite one row); it is
    interpreted for every table of the registry database.
  \<^item> \<open>js_sort\<close> is the stable sort of a JavaScript array under a comparator.
  \<^item> \<open>invariant_system\<close> lifts a step-wise invariant to every reachable state.
\<close>

section \<open>Errors and results\<close>

named_theorems res_simps \<open>rewriting of results and of guarded calls\<close>
named_theorems op_defs \<open>definitions of the atomic operations\<close>

datatype err =
    ActionableError string
  | InvariantError string
  | OwnerMismatchError bool
  | ExportIdentityMismatchError
  | TypeError string
  | ConstraintError string
  | NoResultError
  | StoppingError
  | MaintenanceError
  | AbortError string
  | DeviceError string
  | FailureError string string bool

type_synonym 'a res = "err + 'a"

text \<open>\<open>errorMessage\<close> of models/describeUnknownError.ts: the message of an error, without its causes.\<close>

fun errorMessage :: "err \<Rightarrow> string" where
  "errorMessage (ActionableError m) = m"
| "errorMessage (InvariantError m) = m"
| "errorMessage (OwnerMismatchError b) = ''Session request belongs to another daemon process generation''"
| "errorMessage ExportIdentityMismatchError =
     ''Session export identity, digest, or liveness owner does not match the request''"
| "errorMessage (TypeError m) = m"
| "errorMessage (ConstraintError m) = m"
| "errorMessage NoResultError = ''no result''"
| "errorMessage StoppingError = ''Session broker is stopping''"
| "errorMessage MaintenanceError = ''Session broker snapshot maintenance is running; retry shortly''"
| "errorMessage (AbortError m) = m"
| "errorMessage (DeviceError m) = m"
| "errorMessage (FailureError c m r) = m"

definition rbind :: "'e + 'a \<Rightarrow> ('a \<Rightarrow> 'e + 'b) \<Rightarrow> 'e + 'b" where
  "rbind m f = (case m of Inl e \<Rightarrow> Inl e | Inr x \<Rightarrow> f x)"

definition ensure :: "bool \<Rightarrow> 'e \<Rightarrow> 'e + unit" where
  "ensure b e = (if b then Inr () else Inl e)"

text \<open>\<open>requireValue\<close> of sqliteStoreHelpers.ts: a missing value is a broken store invariant.\<close>

definition requireValue :: "'a option \<Rightarrow> string \<Rightarrow> 'a res" where
  "requireValue v msg = (case v of None \<Rightarrow> Inl (InvariantError msg) | Some x \<Rightarrow> Inr x)"

lemma rbind_simps [simp, res_simps]:
  "rbind (Inl e) f = Inl e"
  "rbind (Inr x) f = f x"
  by (simp_all add: rbind_def)

lemma rbind_eq_Inr [simp, res_simps]:
  "rbind m f = Inr y \<longleftrightarrow> (\<exists>x. m = Inr x \<and> f x = Inr y)"
  by (cases m) simp_all

lemma rbind_eq_Inl [res_simps]:
  "rbind m f = Inl e \<longleftrightarrow> m = Inl e \<or> (\<exists>x. m = Inr x \<and> f x = Inl e)"
  by (cases m) simp_all

lemma rbind_assoc: "rbind (rbind m f) g = rbind m (\<lambda>x. rbind (f x) g)"
  by (cases m) simp_all

lemma ensure_eq_Inr [simp, res_simps]: "ensure b e = Inr u \<longleftrightarrow> b"
  by (simp add: ensure_def)

lemma ensure_eq_Inl [simp, res_simps]: "ensure b e = Inl e' \<longleftrightarrow> \<not> b \<and> e' = e"
  by (auto simp: ensure_def)

lemma ensure_True [simp]: "ensure True e = Inr ()"
  by (simp add: ensure_def)

lemma ensure_False [simp]: "ensure False e = Inl e"
  by (simp add: ensure_def)

lemma requireValue_simps [simp, res_simps]:
  "requireValue (Some x) msg = Inr x"
  "requireValue None msg = Inl (InvariantError msg)"
  by (simp_all add: requireValue_def)

lemma requireValue_eq_Inr [simp, res_simps]: "requireValue v msg = Inr x \<longleftrightarrow> v = Some x"
  by (cases v) simp_all

section \<open>Strings\<close>

definition is_space :: "char \<Rightarrow> bool" where
  "is_space c \<longleftrightarrow> of_char c \<in> {9, 10, 11, 12, 13, 32, 160 :: nat}"

text \<open>\<open>s.trim().length === 0\<close> of the source, on strings of code units below 256.\<close>

definition blank :: "string \<Rightarrow> bool" where
  "blank s \<longleftrightarrow> list_all is_space s"

definition startsWith :: "string \<Rightarrow> string \<Rightarrow> bool" where
  "startsWith s p \<longleftrightarrow> prefix p s"

lemma blank_Nil [simp]: "blank []"
  by (simp add: blank_def)

section \<open>Sorting under a comparator\<close>

text \<open>
  \<open>Array.prototype.sort\<close> with a comparator is a stable sort. For a consistent comparator every
  stable sort gives the same array, so the model uses stable insertion.
\<close>

type_synonym 'a cmp = "'a \<Rightarrow> 'a \<Rightarrow> int"

fun js_insert :: "'a cmp \<Rightarrow> 'a \<Rightarrow> 'a list \<Rightarrow> 'a list" where
  "js_insert cmp x [] = [x]"
| "js_insert cmp x (y # ys) = (if cmp x y \<le> 0 then x # y # ys else y # js_insert cmp x ys)"

definition js_sort :: "'a cmp \<Rightarrow> 'a list \<Rightarrow> 'a list" where
  "js_sort cmp xs = foldr (js_insert cmp) xs []"

lemma js_sort_simps [simp]:
  "js_sort cmp [] = []"
  "js_sort cmp (x # xs) = js_insert cmp x (js_sort cmp xs)"
  by (simp_all add: js_sort_def)

lemma mset_js_insert [simp]: "mset (js_insert cmp x xs) = add_mset x (mset xs)"
  by (induction xs) auto

lemma mset_js_sort [simp]: "mset (js_sort cmp xs) = mset xs"
  by (induction xs) auto

lemma set_js_sort [simp]: "set (js_sort cmp xs) = set xs"
  by (metis mset_js_sort set_mset_mset)

lemma length_js_sort [simp]: "length (js_sort cmp xs) = length xs"
  by (metis mset_js_sort size_mset)

lemma distinct_js_sort [simp]: "distinct (js_sort cmp xs) = distinct xs"
  by (metis mset_js_sort mset_eq_imp_distinct_iff)

lemma distinct_map_js_sort [simp]: "distinct (map f (js_sort cmp xs)) = distinct (map f xs)"
  by (metis mset_eq_imp_distinct_iff mset_js_sort mset_map)

lemma js_sort_eq_Nil [simp]: "js_sort cmp xs = [] \<longleftrightarrow> xs = []"
  by (metis length_0_conv length_js_sort)

text \<open>
  What ECMA-262 asks of a comparator (\<open>localeCompare\<close> is required to be one): the sign of the
  answer is a total preorder. The laws are the assumptions of a locale; the sorting facts are
  proved once under them.
\<close>

locale comparator =
  fixes cmp :: "'a cmp"
  assumes cmp_total: "cmp x y \<le> 0 \<or> cmp y x \<le> 0"
    and cmp_trans: "cmp x y \<le> 0 \<Longrightarrow> cmp y z \<le> 0 \<Longrightarrow> cmp x z \<le> 0"
begin

lemma sorted_js_insert:
  "sorted_wrt (\<lambda>a b. cmp a b \<le> 0) xs \<Longrightarrow> sorted_wrt (\<lambda>a b. cmp a b \<le> 0) (js_insert cmp x xs)"
proof (induction xs)
  case (Cons y ys)
  have sub: "set (js_insert cmp x ys) = insert x (set ys)"
    by (metis mset_js_insert set_mset_add_mset_insert set_mset_mset)
  show ?case
  proof (cases "cmp x y \<le> 0")
    case True
    with Cons.prems show ?thesis by (auto intro: cmp_trans)
  next
    case False
    then have "cmp y x \<le> 0" using cmp_total by blast
    with False Cons show ?thesis by (simp add: sub)
  qed
qed simp

lemma sorted_js_sort: "sorted_wrt (\<lambda>a b. cmp a b \<le> 0) (js_sort cmp xs)"
  by (induction xs) (auto intro: sorted_js_insert)

lemma cmp_refl: "cmp x x \<le> 0"
  using cmp_total by blast

lemma hd_js_sort_least:
  assumes "js_sort cmp xs = y # ys" and "x \<in> set xs"
  shows "cmp y x \<le> 0"
proof -
  have "x \<in> set (y # ys)" using assms by (metis set_js_sort)
  then show ?thesis
    using sorted_js_sort [of xs] assms(1) cmp_refl by auto
qed

lemma take_js_sort_least:
  assumes "x \<in> set (take n (js_sort cmp xs))" and "y \<in> set (drop n (js_sort cmp xs))"
  shows "cmp x y \<le> 0"
proof -
  have "sorted_wrt (\<lambda>a b. cmp a b \<le> 0) (take n (js_sort cmp xs) @ drop n (js_sort cmp xs))"
    using sorted_js_sort by simp
  then show ?thesis using assms by (auto simp only: sorted_wrt_append)
qed

end

text \<open>
  The numeric comparator \<open>(left, right) => left.f - right.f\<close>: only the sign of the difference
  matters to a sort, and the sign is what the model keeps.
\<close>

definition key_cmp :: "('a \<Rightarrow> 'b::linorder) \<Rightarrow> 'a cmp" where
  "key_cmp f x y = (if f x < f y then - 1 else if f y < f x then 1 else 0)"

lemma key_cmp_le [simp]: "key_cmp f x y \<le> 0 \<longleftrightarrow> f x \<le> f y"
  by (auto simp: key_cmp_def)

lemma key_cmp_eq [simp]: "key_cmp f x y = 0 \<longleftrightarrow> f x = f y"
  by (auto simp: key_cmp_def)

interpretation key: comparator "key_cmp f" for f :: "'a \<Rightarrow> 'b::linorder"
  by (simp add: comparator_def) (auto intro: order_trans)

text \<open>\<open>a || b\<close> on comparator answers: the second comparator breaks the ties of the first.\<close>

definition then_cmp :: "'a cmp \<Rightarrow> 'a cmp \<Rightarrow> 'a cmp" where
  "then_cmp c d x y = (if c x y \<noteq> 0 then c x y else d x y)"

lemma then_cmp_key_le:
  "then_cmp (key_cmp f) d x y \<le> 0 \<longleftrightarrow> f x < f y \<or> f x = f y \<and> d x y \<le> 0"
  by (auto simp: then_cmp_def key_cmp_def)

lemma comparator_key_then:
  assumes "comparator d"
  shows "comparator (then_cmp (key_cmp f) d)"
  using assms unfolding comparator_def then_cmp_key_le
  by (metis less_trans linorder_neqE)

lemma comparator_on_key:
  assumes "comparator d"
  shows "comparator (\<lambda>x y. d (f x) (f y))"
  using assms unfolding comparator_def by blast

section \<open>Tables\<close>

definition update_where :: "('r \<Rightarrow> bool) \<Rightarrow> ('r \<Rightarrow> 'r) \<Rightarrow> 'r list \<Rightarrow> 'r list" where
  "update_where p f t = map (\<lambda>r. if p r then f r else r) t"

definition delete_where :: "('r \<Rightarrow> bool) \<Rightarrow> 'r list \<Rightarrow> 'r list" where
  "delete_where p t = filter (\<lambda>r. \<not> p r) t"

definition get_row :: "('r \<Rightarrow> 'k) \<Rightarrow> 'k \<Rightarrow> 'r list \<Rightarrow> 'r option" where
  "get_row key k t = List.find (\<lambda>r. key r = k) t"

lemma set_delete_where [simp]: "set (delete_where p t) = {r \<in> set t. \<not> p r}"
  by (simp add: delete_where_def)

lemma length_update_where [simp]: "length (update_where p f t) = length t"
  by (simp add: update_where_def)

lemma get_row_SomeD: "get_row key k t = Some r \<Longrightarrow> r \<in> set t \<and> key r = k"
  by (auto simp: get_row_def find_Some_iff)

lemma get_row_None: "get_row key k t = None \<longleftrightarrow> k \<notin> key ` set t"
  by (auto simp: get_row_def find_None_iff)

lemma get_row_in_set:
  "distinct (map key t) \<Longrightarrow> r \<in> set t \<Longrightarrow> get_row key (key r) t = Some r"
  by (induction t) (auto simp: get_row_def)

lemma get_row_append:
  "get_row key k (t @ u) = (case get_row key k t of None \<Rightarrow> get_row key k u | Some r \<Rightarrow> Some r)"
  by (induction t) (auto simp: get_row_def)

lemma get_row_snoc:
  "get_row key k (t @ [r]) =
     (case get_row key k t of None \<Rightarrow> if key r = k then Some r else None | Some r' \<Rightarrow> Some r')"
  by (cases "get_row key k t") (simp_all add: get_row_append get_row_def [of _ _ "[r]"])

lemma get_row_update_key:
  assumes "\<And>r. key (f r) = key r"
  shows "get_row key k (update_where (\<lambda>r. key r = k') f t) =
    (if k = k' then map_option f (get_row key k t) else get_row key k t)"
  by (induction t) (auto simp: get_row_def update_where_def assms)

lemma get_row_delete:
  "distinct (map key t) \<Longrightarrow>
   get_row key k (delete_where p t) =
     (case get_row key k t of None \<Rightarrow> None | Some r \<Rightarrow> if p r then None else Some r)"
proof (induction t)
  case (Cons a t)
  show ?case
  proof (cases "key a = k")
    case True
    with Cons.prems have "k \<notin> key ` set t" by auto
    then have "get_row key k (delete_where p t) = None"
      by (auto simp: get_row_None delete_where_def)
    with True show ?thesis
      by (simp add: get_row_def delete_where_def)
  next
    case False
    with Cons show ?thesis by (simp add: get_row_def delete_where_def)
  qed
qed (simp add: get_row_def delete_where_def)

lemma map_key_update:
  "(\<And>r. key (f r) = key r) \<Longrightarrow> map key (update_where p f t) = map key t"
  by (simp add: update_where_def)

lemma distinct_delete_where: "distinct (map key t) \<Longrightarrow> distinct (map key (delete_where p t))"
  by (simp add: delete_where_def distinct_map_filter)

text \<open>
  A write to the row of one key, as a relation between the table before and after: the row \<open>a\<close> of
  key \<open>k\<close> became \<open>b\<close>, every other row is untouched.
\<close>

definition rewrote :: "('r \<Rightarrow> 'k) \<Rightarrow> 'r \<Rightarrow> 'r \<Rightarrow> 'r list \<Rightarrow> 'r list \<Rightarrow> bool" where
  "rewrote key a b t u \<longleftrightarrow> a \<in> set t \<and> key b = key a \<and> map key u = map key t \<and>
     set u = insert b {r \<in> set t. key r \<noteq> key a}"

lemma rewrote_update_where:
  assumes "distinct (map key t)" and "get_row key k t = Some a" and "key (f a) = k"
  shows "rewrote key a (f a) t (update_where (\<lambda>r. key r = k) f t)"
proof -
  have a: "a \<in> set t" "key a = k" using get_row_SomeD [OF assms(2)] by auto
  have only: "key r = k \<longleftrightarrow> r = a" if "r \<in> set t" for r
    using get_row_in_set [OF assms(1) that] assms(2) a(2) by (metis option.inject)
  then have upd: "update_where (\<lambda>r. key r = k) f t = map (\<lambda>r. if r = a then f a else r) t"
    unfolding update_where_def by (intro map_cong) metis+
  then have "map key (update_where (\<lambda>r. key r = k) f t) = map key t"
    using assms(3) a(2) by simp
  moreover have "set (update_where (\<lambda>r. key r = k) f t) = insert (f a) {r \<in> set t. r \<noteq> a}"
    using a(1) unfolding upd by auto
  moreover have "{r \<in> set t. r \<noteq> a} = {r \<in> set t. key r \<noteq> k}"
    using only by blast
  ultimately show ?thesis using a assms(3) by (simp add: rewrote_def)
qed

lemma rewrote_get:
  assumes "rewrote key a b t u" and "distinct (map key t)"
  shows "get_row key k u = (if k = key a then Some b else get_row key k t)"
proof (cases "k = key a")
  case True
  with assms show ?thesis
    using get_row_in_set [of key u b] by (simp add: rewrote_def)
next
  case False
  show ?thesis
  proof (cases "get_row key k t")
    case None
    then have "k \<notin> key ` set u" using assms(1) by (metis get_row_None rewrote_def set_map)
    then have "get_row key k u = None" by (simp add: get_row_None)
    with None False show ?thesis by simp
  next
    case (Some r)
    with False have "r \<in> set u" "key r = k"
      using assms(1) by (auto simp: rewrote_def dest: get_row_SomeD)
    with Some False assms show ?thesis
      using get_row_in_set [of key u r] by (simp add: rewrote_def)
  qed
qed

text \<open>
  How a component addresses one table of the database: \<open>rows\<close> lists it, \<open>get\<close> reads the row of a
  key, \<open>put\<close> rewrites that row in place. The laws say which rows a rewrite leaves alone.
\<close>

locale row_store =
  fixes rows :: "'d \<Rightarrow> 'r list"
    and key :: "'r \<Rightarrow> 'k"
    and get :: "'d \<Rightarrow> 'k \<Rightarrow> 'r option"
    and put :: "'k \<Rightarrow> ('r \<Rightarrow> 'r) \<Rightarrow> 'd \<Rightarrow> 'd"
  assumes get_rows: "get d k = get_row key k (rows d)"
    and rows_put: "rows (put k f d) = update_where (\<lambda>r. key r = k) f (rows d)"
begin

lemma get_SomeD: "get d k = Some r \<Longrightarrow> r \<in> set (rows d) \<and> key r = k"
  by (auto simp: get_rows dest: get_row_SomeD)

lemma get_key: "get d k = Some r \<Longrightarrow> key r = k"
  by (simp add: get_SomeD)

lemma get_in_rows:
  "distinct (map key (rows d)) \<Longrightarrow> r \<in> set (rows d) \<Longrightarrow> get d (key r) = Some r"
  by (simp add: get_rows get_row_in_set)

lemma get_None: "get d k = None \<longleftrightarrow> k \<notin> key ` set (rows d)"
  by (simp add: get_rows get_row_None)

lemma get_put:
  assumes "\<And>r. key (f r) = key r"
  shows "get (put k' f d) k = (if k = k' then map_option f (get d k) else get d k)"
  by (simp add: get_rows rows_put get_row_update_key assms)

lemma distinct_put:
  assumes "\<And>r. key (f r) = key r"
  shows "distinct (map key (rows (put k f d))) = distinct (map key (rows d))"
  by (simp add: rows_put map_key_update assms)

lemma length_put: "length (rows (put k f d)) = length (rows d)"
  by (simp add: rows_put)

lemma put_cases:
  assumes "r \<in> set (rows (put k f d))"
  obtains r0 where "r0 \<in> set (rows d)" "key r0 = k" "r = f r0"
        | "r \<in> set (rows d)" "key r \<noteq> k"
  using assms by (fastforce simp: rows_put update_where_def)

end

section \<open>Reachable states\<close>

text \<open>A step relation, its start state and an invariant every step keeps.\<close>

locale invariant_system =
  fixes init :: 's
    and step :: "'s \<Rightarrow> 's \<Rightarrow> bool"
    and inv :: "'s \<Rightarrow> bool"
  assumes inv_init: "inv init"
    and inv_step: "inv s \<Longrightarrow> step s t \<Longrightarrow> inv t"
begin

lemma inv_steps: "step\<^sup>*\<^sup>* s t \<Longrightarrow> inv s \<Longrightarrow> inv t"
  by (induction rule: rtranclp_induct) (auto intro: inv_step)

lemma inv_reachable: "step\<^sup>*\<^sup>* init s \<Longrightarrow> inv s"
  using inv_steps inv_init by blast

end

text \<open>
  A measure that no step lowers (a revision, a generation, the set of settled receipts): what held
  of it once holds in every later state.
\<close>

locale monotone_system =
  fixes step :: "'s \<Rightarrow> 's \<Rightarrow> bool"
    and inv :: "'s \<Rightarrow> bool"
    and le :: "'s \<Rightarrow> 's \<Rightarrow> bool"
  assumes mono_step: "inv s \<Longrightarrow> step s t \<Longrightarrow> inv t \<and> le s t"
    and le_refl: "le s s"
    and le_trans: "le s t \<Longrightarrow> le t u \<Longrightarrow> le s u"
begin

lemma mono_steps: "step\<^sup>*\<^sup>* s t \<Longrightarrow> inv s \<Longrightarrow> inv t \<and> le s t"
proof (induction rule: rtranclp_induct)
  case base
  then show ?case by (simp add: le_refl)
next
  case (step t u)
  then show ?case using mono_step [of t u] le_trans by blast
qed

end

end
