(* ===== verification/Json.thy ===== *)
theory Json
  imports Prelude
begin

text \<open>
  JSON values as the broker stores them, and the canonical form behind a request fingerprint
  (src/src/utils/stableStringify.ts). An object is the list of its entries in enumeration order.
  Columns that hold JSON text hold the value itself here: \<open>JSON.parse\<close> of \<open>JSON.stringify\<close> is the
  identity on these values. Numbers are integers (every number the modelled code stores is one).
\<close>

datatype json =
    JNull
  | JBool bool
  | JNum int
  | JStr string
  | JArr "json list"
  | JObj "(string \<times> json) list"

fun field :: "json \<Rightarrow> string \<Rightarrow> json option" where
  "field (JObj kvs) k = map_of kvs k"
| "field _ k = None"

text \<open>\<open>sortValue\<close>: entries sorted by key (code units), recursively; arrays keep their order.\<close>

fun sortValue :: "json \<Rightarrow> json" where
  "sortValue (JArr vs) = JArr (map sortValue vs)"
| "sortValue (JObj kvs) = JObj (sort_key fst (map (\<lambda>(k, v). (k, sortValue v)) kvs))"
| "sortValue v = v"

text \<open>Two values that differ only in the order of object entries, at any depth.\<close>

inductive same_json :: "json \<Rightarrow> json \<Rightarrow> bool" where
  same_refl: "same_json v v"
| same_arr: "list_all2 same_json vs ws \<Longrightarrow> same_json (JArr vs) (JArr ws)"
| same_obj: "mset kvs' = mset lws \<Longrightarrow> list_all2 (rel_prod (=) same_json) kvs kvs' \<Longrightarrow>
    distinct (map fst kvs) \<Longrightarrow> same_json (JObj kvs) (JObj lws)"
monos list_all2_mono prod.rel_mono

lemma sort_key_cong_mset:
  assumes "mset xs = mset ys" "distinct (map fst xs)"
  shows "sort_key fst xs = sort_key fst ys"
proof (rule sort_key_inj_key_eq)
  show "mset xs = mset (sort_key fst ys)" using assms(1) by simp
  show "inj_on fst (set xs)" using assms(2) by (simp add: distinct_map)
  show "sorted (map fst (sort_key fst ys))" by simp
qed

lemma map_entries_cong:
  "list_all2 (rel_prod (=) (\<lambda>v w. f v = f w)) kvs kvs' \<Longrightarrow>
     map (\<lambda>(k, v). (k, f v)) kvs = map (\<lambda>(k, v). (k, f v)) kvs'"
  by (induction rule: list_all2_induct) auto

lemma map_fst_entries [simp]: "map fst (map (\<lambda>(k, v). (k, f v)) kvs) = map fst kvs"
  by (induction kvs) auto

lemma sortValue_same: "same_json v w \<Longrightarrow> sortValue v = sortValue w"
proof (induction rule: same_json.induct)
  case (same_refl v)
  show ?case ..
next
  case (same_arr vs ws)
  then have "list_all2 (\<lambda>v w. sortValue v = sortValue w) vs ws"
    by (rule list_all2_mono) simp
  then have "map sortValue vs = map sortValue ws"
    by (induction rule: list_all2_induct) auto
  then show ?case by simp
next
  case (same_obj kvs' lws kvs)
  let ?g = "\<lambda>(k, v). (k, sortValue v)"
  have "list_all2 (rel_prod (=) (\<lambda>v w. sortValue v = sortValue w)) kvs kvs'"
    using same_obj.IH by (rule list_all2_mono) (auto simp: rel_prod_sel)
  then have eq: "map ?g kvs = map ?g kvs'" by (rule map_entries_cong)
  then have "mset (map ?g kvs) = mset (map ?g lws)"
    using same_obj.hyps(1) by (metis mset_map)
  moreover have "distinct (map fst (map ?g kvs))"
    using same_obj.hyps(2) by (simp only: map_fst_entries)
  ultimately have "sort_key fst (map ?g kvs) = sort_key fst (map ?g lws)"
    by (rule sort_key_cong_mset)
  then show ?case by simp
qed

lemma sortValue_idem: "sortValue (sortValue v) = sortValue v"
proof (induction v)
  case (JArr vs)
  then show ?case by (simp add: comp_def)
next
  case (JObj kvs)
  let ?g = "\<lambda>(k, v). (k, sortValue v)"
  have fixed: "?g x = x" if "x \<in> set (map ?g kvs)" for x
  proof -
    from that obtain k v where "(k, v) \<in> set kvs" "x = (k, sortValue v)" by auto
    with JObj [of "(k, v)" v] show ?thesis by simp
  qed
  have "map ?g (sort_key fst (map ?g kvs)) = sort_key fst (map ?g kvs)"
    by (rule map_idI, rule fixed) (simp only: set_sort)
  then show ?case by (simp only: sortValue.simps sort_key_id_if_sorted sorted_sort_key)
qed simp_all

end
