(* ===== verification/Registry.thy ===== *)
theory Registry
  imports Json
begin

text \<open>
  The host-wide binding registry (src/src/daemon/sessionBroker/registry/bindingRegistry.ts,
  bindingRegistryRows.ts and sqliteBindingRegistry.ts): scopes, device bindings with their
  generation, execution owner and settler, and the journal of unfinished device work.

  \<^item> Every public method that writes runs in one \<open>BEGIN IMMEDIATE\<close> transaction, so it is one
    function from the database to a result and the next database; a throw leaves the database as it
    was (\<open>Inl\<close> carries no database). A refusal that the code returns as a value is an \<open>Inl\<close> inside
    the result, and writes nothing.
  \<^item> \<open>now\<close> is the reading of the clock in that transaction. \<open>live\<close> is the process-liveness probe
    (\<open>isExecOwnerLive\<close>), which asks the operating system, and \<open>key_of\<close> is
    \<open>computeBindingScopeKey\<close> (a SHA-256); both are parameters.
  \<^item> \<open>BindingAssignmentRecord\<close> and \<open>BindingJournalEntry\<close> are the rows; \<open>toExecOwner\<close> and \<open>toSettler\<close>
    read their column groups.
\<close>

section \<open>Data\<close>

datatype platform = Android | Ios | Watchos

datatype scope_state = Valid | Invalidating | Invalidated

datatype invalidation_reason = IncarnationReset | OperatorReset | Abandoned

datatype assignment_state = Provisioning | Ready | Replacing | Settling | CleanupPending

datatype journal_kind = JCreate | JReplace | JRelease

datatype journal_phase = Intent | Deleting | Deleted | Creating | Created | Committed | RolledBack

text \<open>\<open>processGenerationToken?: string | null\<close>: absent, null and a string are three values.\<close>

datatype gen_token = TUndefined | TNull | Token string

record process_identity =
  pi_daemonId :: string
  pi_pid :: int
  pi_token :: gen_token

record exec_owner =
  eo_process :: process_identity
  eo_sessionUuid :: string

record scope_identity =
  si_host :: string
  si_namespace :: string
  si_incarnation :: string

record scope_row =
  sc_key :: string
  sc_host :: string
  sc_namespace :: string
  sc_incarnation :: string
  sc_state :: scope_state
  sc_reason :: "invalidation_reason option"
  sc_created :: int
  sc_acquired :: int
  sc_released :: "int option"
  sc_invalidating_at :: "int option"
  sc_invalidated_at :: "int option"

type_synonym binding_key = "string \<times> int"

record assignment_row =
  as_scope :: string
  as_index :: int
  as_role :: string
  as_platform :: platform
  as_generation :: int
  as_device :: "string option"
  as_device_name :: "string option"
  as_requested :: json
  as_resolved :: "json option"
  as_fingerprint :: "string option"
  as_state :: assignment_state
  as_exec_daemon :: "string option"
  as_exec_pid :: "int option"
  as_exec_token :: "string option"
  as_exec_session :: "string option"
  as_settler_daemon :: "string option"
  as_settler_pid :: "int option"
  as_settler_token :: "string option"
  as_updated :: int

definition as_key :: "assignment_row \<Rightarrow> binding_key" where
  "as_key a = (as_scope a, as_index a)"

record journal_target =
  jt_removalRequested :: bool
  jt_quarantinedAtMs :: "int option"
  jt_newPlatform :: "platform option"
  jt_oldStableId :: "string option"
  jt_oldName :: "string option"
  jt_newName :: "string option"
  jt_newStableId :: "string option"
  jt_requestedSpec :: json
  jt_resolvedSpec :: json
  jt_specFingerprint :: "string option"

text \<open>\<open>Partial<BindingJournalTarget>\<close>: a field that is present overrides.\<close>

record target_patch =
  tp_removalRequested :: "bool option"
  tp_quarantinedAtMs :: "int option option"
  tp_newPlatform :: "platform option option"
  tp_oldStableId :: "string option option"
  tp_oldName :: "string option option"
  tp_newName :: "string option option"
  tp_newStableId :: "string option option"
  tp_requestedSpec :: "json option"
  tp_resolvedSpec :: "json option"
  tp_specFingerprint :: "string option option"

record journal_row =
  jr_id :: int
  jr_scope :: string
  jr_index :: int
  jr_kind :: journal_kind
  jr_phase :: journal_phase
  jr_platform :: platform
  jr_from_generation :: int
  jr_to_generation :: "int option"
  jr_binding_generation :: int
  jr_binding_device :: "string option"
  jr_target :: journal_target
  jr_owner_daemon :: string
  jr_owner_pid :: int
  jr_owner_token :: "string option"
  jr_attempts :: int
  jr_last_error :: "string option"
  jr_next_attempt :: int
  jr_created :: int
  jr_updated :: int

definition jr_key :: "journal_row \<Rightarrow> binding_key" where
  "jr_key j = (jr_scope j, jr_index j)"

text \<open>The registry's tables; \<open>journal_seq\<close> is SQLite's AUTOINCREMENT high-water mark.\<close>

record registry_db =
  scopes :: "scope_row list"
  assignments :: "assignment_row list"
  journal :: "journal_row list"
  journal_seq :: int

record binding_expectation =
  be_generation :: int
  be_device :: "string option"

record binding_commit =
  bc_platform :: "platform option"
  bc_device :: "string option"
  bc_device_name :: "string option"
  bc_requested :: "json option"
  bc_resolved :: "json option"
  bc_fingerprint :: "string option"
  bc_state :: assignment_state

record binding_init =
  bi_role :: string
  bi_platform :: platform
  bi_requested :: "json option"

datatype cas_failure =
    ScopeNotValid "scope_row option"
  | BindingMissing
  | StaleBinding assignment_row
  | DeviceAssignedElsewhere assignment_row
  | BindingInUse exec_owner assignment_row
  | BindingNotReady assignment_row

datatype ensure_scope_result =
    ScopeReady scope_row bool bool
  | ScopeInvalidated scope_row
  | IncarnationConflict scope_row

datatype assignment_change =
    ChangeCommit binding_expectation binding_commit
  | ChangeState binding_expectation assignment_state "process_identity option"

section \<open>Pure helpers\<close>

definition tokenColumn :: "gen_token \<Rightarrow> string option" where
  "tokenColumn t = (case t of Token s \<Rightarrow> Some s | _ \<Rightarrow> None)"

definition FENCING_BINDING_STATES :: "assignment_state list" where
  "FENCING_BINDING_STATES = [Replacing, Settling, CleanupPending]"

definition entersFencingState :: "assignment_state \<Rightarrow> assignment_state \<Rightarrow> bool" where
  "entersFencingState cur nxt \<longleftrightarrow> cur \<noteq> nxt \<and> List.member FENCING_BINDING_STATES nxt"

definition isBindingJournalPhaseOpen :: "journal_phase \<Rightarrow> bool" where
  "isBindingJournalPhaseOpen p \<longleftrightarrow> \<not> List.member [Committed, RolledBack] p"

definition assertValidBindingKey :: "binding_key \<Rightarrow> unit res" where
  "assertValidBindingKey k =
     rbind (ensure (0 \<le> snd k)
       (ActionableError ''Binding index must be a non-negative integer'')) (\<lambda>_.
     ensure (fst k \<noteq> []) (ActionableError ''Binding scope key must not be empty''))"

definition assertSettlerForState ::
  "assignment_state \<Rightarrow> process_identity option \<Rightarrow> process_identity option res" where
  "assertSettlerForState st settler =
     (if st \<noteq> Settling then Inr None
      else case settler of
             None \<Rightarrow> Inl (ActionableError ''Marking a binding settling requires the settling daemon'')
           | Some p \<Rightarrow> Inr (Some p))"

definition bindingMatches :: "assignment_row \<Rightarrow> binding_expectation \<Rightarrow> bool" where
  "bindingMatches a e \<longleftrightarrow> as_generation a = be_generation e \<and> as_device a = be_device e"

definition sameBinding :: "binding_expectation \<Rightarrow> binding_expectation \<Rightarrow> bool" where
  "sameBinding a b \<longleftrightarrow> be_generation a = be_generation b \<and> be_device a = be_device b"

definition scopeAcceptsBindingChange :: "scope_row option \<Rightarrow> bool \<Rightarrow> bool" where
  "scopeAcceptsBindingChange scope journaled \<longleftrightarrow>
     (case scope of None \<Rightarrow> False
      | Some s \<Rightarrow> sc_state s = Valid \<or> (journaled \<and> sc_state s = Invalidating))"

definition toExecOwner :: "assignment_row \<Rightarrow> exec_owner option" where
  "toExecOwner a =
     (case (as_exec_daemon a, as_exec_pid a, as_exec_session a) of
        (Some d, Some p, Some s) \<Rightarrow>
          Some \<lparr>eo_process = \<lparr>pi_daemonId = d, pi_pid = p,
                  pi_token = (case as_exec_token a of None \<Rightarrow> TNull | Some t \<Rightarrow> Token t)\<rparr>,
                eo_sessionUuid = s\<rparr>
      | _ \<Rightarrow> None)"

definition toSettler :: "assignment_row \<Rightarrow> process_identity option" where
  "toSettler a =
     (case (as_settler_daemon a, as_settler_pid a) of
        (Some d, Some p) \<Rightarrow>
          Some \<lparr>pi_daemonId = d, pi_pid = p,
                pi_token = (case as_settler_token a of None \<Rightarrow> TNull | Some t \<Rightarrow> Token t)\<rparr>
      | _ \<Rightarrow> None)"

definition set_settler :: "process_identity option \<Rightarrow> assignment_row \<Rightarrow> assignment_row" where
  "set_settler s a = a\<lparr>as_settler_daemon := map_option pi_daemonId s,
                       as_settler_pid := map_option pi_pid s,
                       as_settler_token := (case s of None \<Rightarrow> None | Some p \<Rightarrow> tokenColumn (pi_token p))\<rparr>"

definition clear_exec :: "assignment_row \<Rightarrow> assignment_row" where
  "clear_exec a = a\<lparr>as_exec_daemon := None, as_exec_pid := None, as_exec_token := None,
                    as_exec_session := None\<rparr>"

definition set_exec :: "exec_owner \<Rightarrow> assignment_row \<Rightarrow> assignment_row" where
  "set_exec w a = a\<lparr>as_exec_daemon := Some (pi_daemonId (eo_process w)),
                    as_exec_pid := Some (pi_pid (eo_process w)),
                    as_exec_token := tokenColumn (pi_token (eo_process w)),
                    as_exec_session := Some (eo_sessionUuid w)\<rparr>"

definition scopeAcceptsSameSessionClaim ::
  "scope_row option \<Rightarrow> assignment_row option \<Rightarrow> string \<Rightarrow> bool" where
  "scopeAcceptsSameSessionClaim scope cur session \<longleftrightarrow>
     (\<exists>s a w. scope = Some s \<and> sc_state s = Invalidating \<and> cur = Some a \<and>
        toExecOwner a = Some w \<and> eo_sessionUuid w = session)"

lemma scopeAcceptsSameSessionClaim_code [code]:
  "scopeAcceptsSameSessionClaim scope cur session \<longleftrightarrow>
     (case (scope, cur) of
        (Some s, Some a) \<Rightarrow> sc_state s = Invalidating \<and>
          (case toExecOwner a of None \<Rightarrow> False | Some w \<Rightarrow> eo_sessionUuid w = session)
      | _ \<Rightarrow> False)"
  by (auto simp: scopeAcceptsSameSessionClaim_def split: option.splits)

definition assertPlatformChangeAllowed :: "assignment_row \<Rightarrow> binding_commit \<Rightarrow> platform res" where
  "assertPlatformChangeAllowed cur nxt =
     (let p = (case bc_platform nxt of None \<Rightarrow> as_platform cur | Some p \<Rightarrow> p) in
      if p \<noteq> as_platform cur \<and> bc_device nxt \<noteq> None
      then Inl (ActionableError ''A binding moves to another platform only with an empty binding'')
      else Inr p)"

definition serializeSpec :: "json option \<Rightarrow> json" where
  "serializeSpec spec = (case spec of None \<Rightarrow> JNull | Some j \<Rightarrow> j)"

definition resolvedColumn :: "json option \<Rightarrow> json option" where
  "resolvedColumn spec = (if spec = None \<or> spec = Some JNull then None else spec)"

definition journalOwnersEqual :: "process_identity \<Rightarrow> process_identity \<Rightarrow> bool" where
  "journalOwnersEqual a b \<longleftrightarrow> pi_daemonId a = pi_daemonId b \<and> pi_pid a = pi_pid b \<and>
     tokenColumn (pi_token a) = tokenColumn (pi_token b)"

definition jr_owner :: "journal_row \<Rightarrow> process_identity" where
  "jr_owner j = \<lparr>pi_daemonId = jr_owner_daemon j, pi_pid = jr_owner_pid j,
                 pi_token = (case jr_owner_token j of None \<Rightarrow> TNull | Some t \<Rightarrow> Token t)\<rparr>"

definition jr_binding :: "journal_row \<Rightarrow> binding_expectation" where
  "jr_binding j = \<lparr>be_generation = jr_binding_generation j, be_device = jr_binding_device j\<rparr>"

definition journalNewStableId :: "journal_row \<Rightarrow> string option" where
  "journalNewStableId j =
     (case jt_newStableId (jr_target j) of None \<Rightarrow> jt_newName (jr_target j) | Some i \<Rightarrow> Some i)"

definition journalCreationPlatform :: "journal_row \<Rightarrow> platform" where
  "journalCreationPlatform j =
     (case jt_newPlatform (jr_target j) of None \<Rightarrow> jr_platform j | Some p \<Rightarrow> p)"

definition orKeep :: "'a \<Rightarrow> 'a option \<Rightarrow> 'a" where
  "orKeep old new = (case new of None \<Rightarrow> old | Some v \<Rightarrow> v)"

definition mergeTarget :: "journal_target \<Rightarrow> target_patch \<Rightarrow> journal_target" where
  "mergeTarget t p = \<lparr>
     jt_removalRequested = orKeep (jt_removalRequested t) (tp_removalRequested p),
     jt_quarantinedAtMs = orKeep (jt_quarantinedAtMs t) (tp_quarantinedAtMs p),
     jt_newPlatform = orKeep (jt_newPlatform t) (tp_newPlatform p),
     jt_oldStableId = orKeep (jt_oldStableId t) (tp_oldStableId p),
     jt_oldName = orKeep (jt_oldName t) (tp_oldName p),
     jt_newName = orKeep (jt_newName t) (tp_newName p),
     jt_newStableId = orKeep (jt_newStableId t) (tp_newStableId p),
     jt_requestedSpec = orKeep (jt_requestedSpec t) (tp_requestedSpec p),
     jt_resolvedSpec = orKeep (jt_resolvedSpec t) (tp_resolvedSpec p),
     jt_specFingerprint = orKeep (jt_specFingerprint t) (tp_specFingerprint p)\<rparr>"

end
