(* ===== verification/BindingRegistry.thy ===== *)
theory BindingRegistry
  imports Registry
begin

text \<open>
  The operations of \<open>SqliteBindingRegistry\<close> (src/src/daemon/sessionBroker/registry/
  sqliteBindingRegistry.ts), each one transaction, over any database that contains the registry's
  tables. The unique indexes, primary and foreign keys and CHECK constraints of the migrations are
  conjuncts of \<open>registry_inv\<close> in RegistryInvariant: every operation keeps them, so SQLite never
  rejects one of these statements.
\<close>

section \<open>Table access\<close>

definition readScope :: "('x) registry_db_scheme \<Rightarrow> string \<Rightarrow> scope_row option" where
  "readScope db k = get_row sc_key k (scopes db)"

definition readAssignment :: "('x) registry_db_scheme \<Rightarrow> binding_key \<Rightarrow> assignment_row option" where
  "readAssignment db k = get_row as_key k (assignments db)"

definition getBindingJournal :: "('x) registry_db_scheme \<Rightarrow> int \<Rightarrow> journal_row option" where
  "getBindingJournal db i = get_row jr_id i (journal db)"

definition put_scope :: "string \<Rightarrow> (scope_row \<Rightarrow> scope_row) \<Rightarrow> ('x) registry_db_scheme \<Rightarrow> 'x registry_db_scheme" where
  "put_scope k f db = db\<lparr>scopes := update_where (\<lambda>r. sc_key r = k) f (scopes db)\<rparr>"

definition put_assignment ::
  "binding_key \<Rightarrow> (assignment_row \<Rightarrow> assignment_row) \<Rightarrow> ('x) registry_db_scheme \<Rightarrow> 'x registry_db_scheme" where
  "put_assignment k f db = db\<lparr>assignments := update_where (\<lambda>r. as_key r = k) f (assignments db)\<rparr>"

definition put_journal ::
  "int \<Rightarrow> (journal_row \<Rightarrow> journal_row) \<Rightarrow> ('x) registry_db_scheme \<Rightarrow> 'x registry_db_scheme" where
  "put_journal i f db = db\<lparr>journal := update_where (\<lambda>r. jr_id r = i) f (journal db)\<rparr>"

text \<open>\<open>executeTakeFirstOrThrow\<close> on the row a statement returned.\<close>

definition orThrow :: "'a option \<Rightarrow> 'a res" where
  "orThrow v = (case v of None \<Rightarrow> Inl NoResultError | Some x \<Rightarrow> Inr x)"

lemma orThrow_simps [simp, res_simps]:
  "orThrow None = Inl NoResultError" "orThrow (Some x) = Inr x"
  by (simp_all add: orThrow_def)

lemma orThrow_eq_Inr [simp, res_simps]: "orThrow v = Inr x \<longleftrightarrow> v = Some x"
  by (cases v) simp_all

interpretation scope_table: row_store scopes sc_key readScope put_scope
  by unfold_locales (simp_all add: readScope_def put_scope_def)

interpretation assignment_table: row_store assignments as_key readAssignment put_assignment
  by unfold_locales (simp_all add: readAssignment_def put_assignment_def)

interpretation journal_table: row_store journal jr_id getBindingJournal put_journal
  by unfold_locales (simp_all add: getBindingJournal_def put_journal_def)

section \<open>Scopes\<close>

definition fresh_scope :: "string \<Rightarrow> scope_identity \<Rightarrow> int \<Rightarrow> scope_row" where
  "fresh_scope k i now = \<lparr>sc_key = k, sc_host = si_host i, sc_namespace = si_namespace i,
     sc_incarnation = si_incarnation i, sc_state = Valid, sc_reason = None, sc_created = now,
     sc_acquired = now, sc_released = None, sc_invalidating_at = None, sc_invalidated_at = None\<rparr>"

definition liveNamespaceRow :: "scope_identity \<Rightarrow> string \<Rightarrow> scope_row \<Rightarrow> bool" where
  "liveNamespaceRow i k s \<longleftrightarrow> sc_host s = si_host i \<and> sc_namespace s = si_namespace i \<and>
     sc_state s \<noteq> Invalidated \<and> sc_key s \<noteq> k"

definition revive :: "int \<Rightarrow> scope_row \<Rightarrow> scope_row" where
  "revive now s = s\<lparr>sc_state := Valid, sc_reason := None, sc_invalidating_at := None,
                    sc_invalidated_at := None, sc_acquired := now\<rparr>"

definition ensureScope ::
  "(scope_identity \<Rightarrow> string) \<Rightarrow> int \<Rightarrow> scope_identity \<Rightarrow> ('x) registry_db_scheme \<Rightarrow>
   (ensure_scope_result \<times> 'x registry_db_scheme) res" where
  "ensureScope key_of now i db =
     (let k = key_of i; existing = readScope db k in
      case existing of
        Some s \<Rightarrow>
          if sc_state s = Valid
          then Inr (ScopeReady (s\<lparr>sc_acquired := now\<rparr>) False False,
                    put_scope k (sc_acquired_update (\<lambda>_. now)) db)
          else if sc_reason s \<noteq> Some Abandoned then Inr (ScopeInvalidated s, db)
          else (case List.find (liveNamespaceRow i k) (scopes db) of
                  Some l \<Rightarrow> Inr (IncarnationConflict l, db)
                | None \<Rightarrow>
                    let db1 = put_scope k (revive now) db in
                    rbind (orThrow (readScope db1 k)) (\<lambda>r. Inr (ScopeReady r False True, db1)))
      | None \<Rightarrow>
          (case List.find (liveNamespaceRow i k) (scopes db) of
             Some l \<Rightarrow> Inr (IncarnationConflict l, db)
           | None \<Rightarrow> let r = fresh_scope k i now in
               Inr (ScopeReady r True False, db\<lparr>scopes := scopes db @ [r]\<rparr>)))"

section \<open>Bindings\<close>

definition fresh_assignment :: "binding_key \<Rightarrow> binding_init \<Rightarrow> int \<Rightarrow> assignment_row" where
  "fresh_assignment k i now = \<lparr>as_scope = fst k, as_index = snd k, as_role = bi_role i,
     as_platform = bi_platform i, as_generation = 0, as_device = None, as_device_name = None,
     as_requested = serializeSpec (bi_requested i), as_resolved = None, as_fingerprint = None,
     as_state = Provisioning, as_exec_daemon = None, as_exec_pid = None, as_exec_token = None,
     as_exec_session = None, as_settler_daemon = None, as_settler_pid = None,
     as_settler_token = None, as_updated = now\<rparr>"

definition initBinding ::
  "int \<Rightarrow> binding_key \<Rightarrow> binding_init \<Rightarrow> ('x) registry_db_scheme \<Rightarrow>
   ((scope_row option + assignment_row \<times> bool) \<times> 'x registry_db_scheme) res" where
  "initBinding now k i db =
     rbind (assertValidBindingKey k) (\<lambda>_.
     (let scope = readScope db (fst k) in
      if (case scope of None \<Rightarrow> True | Some s \<Rightarrow> sc_state s \<noteq> Valid) then Inr (Inl scope, db)
      else case readAssignment db k of
             Some a \<Rightarrow> Inr (Inr (a, False), db)
           | None \<Rightarrow> let r = fresh_assignment k i now in
               Inr (Inr (r, True), db\<lparr>assignments := assignments db @ [r]\<rparr>)))"

definition openAt :: "binding_key \<Rightarrow> journal_row \<Rightarrow> bool" where
  "openAt k j \<longleftrightarrow> jr_key j = k \<and> isBindingJournalPhaseOpen (jr_phase j)"

definition readOpenJournal :: "('x) registry_db_scheme \<Rightarrow> binding_key \<Rightarrow> journal_row option" where
  "readOpenJournal db k = List.find (openAt k) (journal db)"

definition unboundRow :: "binding_key \<Rightarrow> int \<Rightarrow> assignment_row \<Rightarrow> bool" where
  "unboundRow k gen a \<longleftrightarrow> as_key a = k \<and> as_generation a = gen \<and> as_device a = None \<and>
     as_state a = Provisioning \<and> as_exec_daemon a = None \<and> as_exec_pid a = None \<and>
     as_exec_token a = None \<and> as_exec_session a = None"

definition removeUnboundBinding ::
  "binding_key \<Rightarrow> int \<Rightarrow> ('x) registry_db_scheme \<Rightarrow> (bool \<times> 'x registry_db_scheme) res" where
  "removeUnboundBinding k gen db =
     rbind (assertValidBindingKey k) (\<lambda>_.
     if readOpenJournal db k \<noteq> None then Inr (False, db)
     else Inr (list_ex (unboundRow k gen) (assignments db),
               db\<lparr>assignments := delete_where (unboundRow k gen) (assignments db)\<rparr>))"

definition checkBinding ::
  "('x) registry_db_scheme \<Rightarrow> binding_key \<Rightarrow> binding_expectation \<Rightarrow> bool \<Rightarrow> string option \<Rightarrow>
   cas_failure + assignment_row" where
  "checkBinding db k expected journaled claimingSession =
     (let scope = readScope db (fst k); current = readAssignment db k in
      if \<not> scopeAcceptsBindingChange scope journaled \<and>
         \<not> (case claimingSession of None \<Rightarrow> False
            | Some u \<Rightarrow> scopeAcceptsSameSessionClaim scope current u)
      then Inl (ScopeNotValid scope)
      else case current of
             None \<Rightarrow> Inl BindingMissing
           | Some a \<Rightarrow> if bindingMatches a expected then Inr a else Inl (StaleBinding a))"

definition deviceHolder ::
  "('x) registry_db_scheme \<Rightarrow> platform \<Rightarrow> string \<Rightarrow> binding_key \<Rightarrow> assignment_row option" where
  "deviceHolder db p d k =
     List.find (\<lambda>a. as_platform a = p \<and> as_device a = Some d \<and> as_key a \<noteq> k) (assignments db)"

definition commit_columns ::
  "platform \<Rightarrow> binding_commit \<Rightarrow> assignment_row \<Rightarrow> int \<Rightarrow> assignment_row \<Rightarrow> assignment_row" where
  "commit_columns p nxt checked now a =
     (let deviceChanged = bc_device nxt \<noteq> as_device checked \<or> p \<noteq> as_platform checked;
          b = set_settler None
                (a\<lparr>as_generation := as_generation checked + 1, as_platform := p,
                   as_device := bc_device nxt, as_device_name := bc_device_name nxt,
                   as_resolved := resolvedColumn (bc_resolved nxt),
                   as_fingerprint := bc_fingerprint nxt, as_state := bc_state nxt,
                   as_requested := (case bc_requested nxt of None \<Rightarrow> as_requested a
                                    | Some j \<Rightarrow> j),
                   as_updated := now\<rparr>)
      in if deviceChanged then clear_exec b else b)"

definition commitBindingIn ::
  "int \<Rightarrow> binding_key \<Rightarrow> binding_expectation \<Rightarrow> binding_commit \<Rightarrow> bool \<Rightarrow>
   ('x) registry_db_scheme \<Rightarrow> ((cas_failure + assignment_row) \<times> 'x registry_db_scheme) res" where
  "commitBindingIn now k expected nxt journaled db =
     (case checkBinding db k expected journaled None of
        Inl f \<Rightarrow> Inr (Inl f, db)
      | Inr checked \<Rightarrow>
          rbind (assertPlatformChangeAllowed checked nxt) (\<lambda>p.
          case (case bc_device nxt of None \<Rightarrow> None | Some d \<Rightarrow> deviceHolder db p d k) of
            Some h \<Rightarrow> Inr (Inl (DeviceAssignedElsewhere h), db)
          | None \<Rightarrow>
              let db1 = put_assignment k (commit_columns p nxt checked now) db in
              rbind (orThrow (readAssignment db1 k)) (\<lambda>a. Inr (Inr a, db1))))"

definition commitBinding ::
  "int \<Rightarrow> binding_key \<Rightarrow> binding_expectation \<Rightarrow> binding_commit \<Rightarrow> ('x) registry_db_scheme \<Rightarrow>
   ((cas_failure + assignment_row) \<times> 'x registry_db_scheme) res" where
  "commitBinding now k expected nxt db =
     rbind (assertValidBindingKey k) (\<lambda>_. commitBindingIn now k expected nxt False db)"

definition state_columns ::
  "assignment_state \<Rightarrow> int \<Rightarrow> process_identity option \<Rightarrow> int \<Rightarrow> assignment_row \<Rightarrow> assignment_row" where
  "state_columns st gen settler now a =
     set_settler settler (a\<lparr>as_state := st, as_generation := gen, as_updated := now\<rparr>)"

definition updateBindingStateIn ::
  "(process_identity \<Rightarrow> bool) \<Rightarrow> int \<Rightarrow> binding_key \<Rightarrow> binding_expectation \<Rightarrow> assignment_state \<Rightarrow>
   process_identity option \<Rightarrow> bool \<Rightarrow> ('x) registry_db_scheme \<Rightarrow>
   ((cas_failure + assignment_row) \<times> 'x registry_db_scheme) res" where
  "updateBindingStateIn live now k expected st settler journaled db =
     (case checkBinding db k expected journaled None of
        Inl f \<Rightarrow> Inr (Inl f, db)
      | Inr checked \<Rightarrow>
          let proceed =
            (let gen = (if entersFencingState (as_state checked) st then as_generation checked + 1
                        else as_generation checked);
                 db1 = put_assignment k (state_columns st gen settler now) db in
             rbind (orThrow (readAssignment db1 k)) (\<lambda>a. Inr (Inr a, db1)))
          in case toExecOwner checked of
               Some w \<Rightarrow> if st = Replacing \<and> live (eo_process w)
                          then Inr (Inl (BindingInUse w checked), db) else proceed
             | None \<Rightarrow> proceed)"

definition updateBindingState ::
  "(process_identity \<Rightarrow> bool) \<Rightarrow> int \<Rightarrow> binding_key \<Rightarrow> binding_expectation \<Rightarrow> assignment_state \<Rightarrow>
   process_identity option \<Rightarrow> ('x) registry_db_scheme \<Rightarrow>
   ((cas_failure + assignment_row) \<times> 'x registry_db_scheme) res" where
  "updateBindingState live now k expected st settler db =
     rbind (assertValidBindingKey k) (\<lambda>_.
     rbind (assertSettlerForState st settler) (\<lambda>s.
     updateBindingStateIn live now k expected st s False db))"

definition heldByLiveOther ::
  "(process_identity \<Rightarrow> bool) \<Rightarrow> exec_owner \<Rightarrow> string option \<Rightarrow> assignment_row \<Rightarrow> exec_owner option" where
  "heldByLiveOther live owner supersedes a =
     (case toExecOwner a of None \<Rightarrow> None
      | Some w \<Rightarrow> if eo_sessionUuid w \<noteq> eo_sessionUuid owner \<and>
                     Some (eo_sessionUuid w) \<noteq> supersedes \<and> live (eo_process w)
                  then Some w else None)"

definition claim_columns :: "exec_owner \<Rightarrow> int \<Rightarrow> assignment_row \<Rightarrow> assignment_row" where
  "claim_columns owner now a = set_exec owner (a\<lparr>as_updated := now\<rparr>)"

definition claimExecution ::
  "(process_identity \<Rightarrow> bool) \<Rightarrow> int \<Rightarrow> binding_key \<Rightarrow> binding_expectation \<Rightarrow> exec_owner \<Rightarrow>
   string option \<Rightarrow> ('x) registry_db_scheme \<Rightarrow>
   ((cas_failure + assignment_row) \<times> 'x registry_db_scheme) res" where
  "claimExecution live now k expected owner supersedes db =
     rbind (assertValidBindingKey k) (\<lambda>_.
     case checkBinding db k expected False (Some (eo_sessionUuid owner)) of
       Inl f \<Rightarrow> Inr (Inl f, db)
     | Inr checked \<Rightarrow>
         if as_state checked \<noteq> Ready \<or> as_device checked = None
         then Inr (Inl (BindingNotReady checked), db)
         else (case heldByLiveOther live owner supersedes checked of
                 Some w \<Rightarrow> Inr (Inl (BindingInUse w checked), db)
               | None \<Rightarrow>
                   let db1 = put_assignment k (claim_columns owner now) db in
                   rbind (orThrow (readAssignment db1 k)) (\<lambda>a. Inr (Inr a, db1))))"

definition release_columns :: "string \<Rightarrow> int \<Rightarrow> assignment_row \<Rightarrow> assignment_row" where
  "release_columns session now a =
     (if as_exec_session a = Some session then clear_exec (a\<lparr>as_updated := now\<rparr>) else a)"

definition releaseExecution ::
  "int \<Rightarrow> binding_key \<Rightarrow> string \<Rightarrow> ('x) registry_db_scheme \<Rightarrow>
   ((bool \<times> assignment_row option) \<times> 'x registry_db_scheme) res" where
  "releaseExecution now k session db =
     rbind (assertValidBindingKey k) (\<lambda>_.
     case readAssignment db k of
       Some a \<Rightarrow>
         if as_exec_session a = Some session
         then (let db1 = put_assignment k (release_columns session now) db in
               Inr ((True, readAssignment db1 k),
                    put_scope (fst k) (sc_released_update (\<lambda>_. Some now)) db1))
         else Inr ((False, Some a), db)
     | None \<Rightarrow> Inr ((False, None), db))"

definition isSettled :: "(process_identity \<Rightarrow> bool) \<Rightarrow> assignment_row \<Rightarrow> bool" where
  "isSettled live a \<longleftrightarrow>
     (case toSettler a of None \<Rightarrow> True | Some p \<Rightarrow> \<not> live p) \<and>
     (case toExecOwner a of None \<Rightarrow> True | Some w \<Rightarrow> \<not> live (eo_process w))"

definition settlingRows :: "('x) registry_db_scheme \<Rightarrow> string option \<Rightarrow> assignment_row list" where
  "settlingRows db scopeKey =
     sort_key as_key (filter (\<lambda>a. as_state a = Settling \<and>
        (case scopeKey of None \<Rightarrow> True | Some k \<Rightarrow> as_scope a = k)) (assignments db))"

definition settle_columns :: "int \<Rightarrow> int \<Rightarrow> assignment_row \<Rightarrow> assignment_row" where
  "settle_columns gen now a =
     (if as_generation a = gen \<and> as_state a = Settling
      then set_settler None (a\<lparr>as_state := Ready, as_updated := now\<rparr>) else a)"

text \<open>One pass of the loop updates the row only while it is still at the generation and state read.\<close>

definition settle_one ::
  "int \<Rightarrow> assignment_row \<Rightarrow> ('x) registry_db_scheme \<Rightarrow> (assignment_row \<times> 'x registry_db_scheme) res" where
  "settle_one now a db =
     (case readAssignment db (as_key a) of
        Some b \<Rightarrow>
          if as_generation b = as_generation a \<and> as_state b = Settling
          then Inr (settle_columns (as_generation a) now b,
                    put_assignment (as_key a) (settle_columns (as_generation a) now) db)
          else Inl NoResultError
      | None \<Rightarrow> Inl NoResultError)"

fun settle_all ::
  "int \<Rightarrow> assignment_row list \<Rightarrow> ('x) registry_db_scheme \<Rightarrow>
   (assignment_row list \<times> 'x registry_db_scheme) res" where
  "settle_all now [] db = Inr ([], db)"
| "settle_all now (a # as) db =
     rbind (settle_one now a db) (\<lambda>(r, db1).
     rbind (settle_all now as db1) (\<lambda>(rs, db2). Inr (r # rs, db2)))"

definition recoverSettledBindings ::
  "(process_identity \<Rightarrow> bool) \<Rightarrow> int \<Rightarrow> string option \<Rightarrow> ('x) registry_db_scheme \<Rightarrow>
   (assignment_row list \<times> 'x registry_db_scheme) res" where
  "recoverSettledBindings live now scopeKey db =
     settle_all now (filter (isSettled live) (settlingRows db scopeKey)) db"

section \<open>Reads\<close>

definition getScope :: "('x) registry_db_scheme \<Rightarrow> string \<Rightarrow> scope_row option" where
  "getScope db k = readScope db k"

definition getAssignment :: "('x) registry_db_scheme \<Rightarrow> binding_key \<Rightarrow> assignment_row option res" where
  "getAssignment db k = rbind (assertValidBindingKey k) (\<lambda>_. Inr (readAssignment db k))"

definition listAssignments :: "('x) registry_db_scheme \<Rightarrow> string \<Rightarrow> assignment_row list" where
  "listAssignments db scopeKey =
     sort_key as_index (filter (\<lambda>a. as_scope a = scopeKey) (assignments db))"

definition findExecutionAssignments :: "('x) registry_db_scheme \<Rightarrow> string \<Rightarrow> assignment_row list" where
  "findExecutionAssignments db session =
     sort_key as_key (filter (\<lambda>a. as_exec_session a = Some session) (assignments db))"

definition findDeviceHolder ::
  "('x) registry_db_scheme \<Rightarrow> platform \<Rightarrow> string \<Rightarrow> (scope_row \<times> assignment_row) option" where
  "findDeviceHolder db p d =
     (case List.find (\<lambda>a. as_platform a = p \<and> as_device a = Some d) (assignments db) of
        None \<Rightarrow> None
      | Some a \<Rightarrow> (case readScope db (as_scope a) of None \<Rightarrow> None | Some s \<Rightarrow> Some (s, a)))"

definition isDeviceAssignedToValidBinding ::
  "('x) registry_db_scheme \<Rightarrow> platform \<Rightarrow> string \<Rightarrow> bool" where
  "isDeviceAssignedToValidBinding db p d \<longleftrightarrow>
     list_ex (\<lambda>a. as_platform a = p \<and> as_device a = Some d \<and>
       list_ex (\<lambda>s. sc_key s = as_scope a \<and> sc_state s = Valid) (scopes db)) (assignments db)"

record managed_entry =
  me_platform :: platform
  me_device :: string
  me_scope :: string
  me_index :: int
  me_scope_state :: "scope_state option"
  me_session :: "string option"

definition assignedEntries :: "('x) registry_db_scheme \<Rightarrow> managed_entry list" where
  "assignedEntries db =
     concat (map (\<lambda>a. concat (map (\<lambda>s.
       (case as_device a of
          None \<Rightarrow> []
        | Some d \<Rightarrow>
            if sc_key s = as_scope a \<and> (sc_state s \<noteq> Invalidated \<or> sc_reason s = Some Abandoned)
            then [\<lparr>me_platform = as_platform a, me_device = d, me_scope = as_scope a,
                   me_index = as_index a, me_scope_state = Some (sc_state s),
                   me_session = as_exec_session a\<rparr>]
            else [])) (scopes db))) (assignments db))"

fun journalTargets ::
  "(platform \<times> string) list \<Rightarrow> journal_row list \<Rightarrow> managed_entry list" where
  "journalTargets seen [] = []"
| "journalTargets seen (j # js) =
     (case journalNewStableId j of
        None \<Rightarrow> journalTargets seen js
      | Some d \<Rightarrow>
          let p = journalCreationPlatform j in
          if List.member seen (p, d) then journalTargets seen js
          else \<lparr>me_platform = p, me_device = d, me_scope = jr_scope j, me_index = jr_index j,
                me_scope_state = None, me_session = None\<rparr> # journalTargets ((p, d) # seen) js)"

definition journalTargetEntries :: "journal_row list \<Rightarrow> managed_entry list \<Rightarrow> managed_entry list" where
  "journalTargetEntries open_rows known =
     journalTargets (map (\<lambda>e. (me_platform e, me_device e)) known) open_rows"

definition openJournalRows :: "('x) registry_db_scheme \<Rightarrow> journal_row list" where
  "openJournalRows db = filter (isBindingJournalPhaseOpen \<circ> jr_phase) (journal db)"

definition snapshotResources :: "('x) registry_db_scheme \<Rightarrow> managed_entry list \<times> journal_row list" where
  "snapshotResources db =
     (let entries = assignedEntries db; pending = openJournalRows db in
      (entries @ journalTargetEntries pending entries, pending))"

definition listOpenBindingJournal ::
  "('x) registry_db_scheme \<Rightarrow> binding_key option \<Rightarrow> journal_row list" where
  "listOpenBindingJournal db k =
     sort_key (\<lambda>j. (jr_next_attempt j, jr_id j))
       (filter (\<lambda>j. case k of None \<Rightarrow> True | Some k' \<Rightarrow> jr_key j = k') (openJournalRows db))"

section \<open>The binding journal\<close>

record open_journal_input =
  oj_kind :: journal_kind
  oj_phase :: journal_phase
  oj_target :: journal_target
  oj_owner :: process_identity
  oj_assignment :: assignment_change

record advance_journal_input =
  aj_owner :: process_identity
  aj_expectedPhase :: journal_phase
  aj_phase :: journal_phase
  aj_target :: target_patch
  aj_assignment :: "assignment_change option"
  aj_attempt :: "(string \<times> int) option"

datatype open_journal_result =
    JournalOpened journal_row assignment_row
  | JournalAlreadyOpen journal_row
  | OpenRefused cas_failure

datatype advance_journal_result =
    JournalAdvanced journal_row "assignment_row option"
  | JournalConflict "journal_row option"
  | AdvanceRefused cas_failure

definition changeExpected :: "assignment_change \<Rightarrow> binding_expectation" where
  "changeExpected c = (case c of ChangeCommit e _ \<Rightarrow> e | ChangeState e _ _ \<Rightarrow> e)"

definition assertOpenPhase :: "journal_phase \<Rightarrow> unit res" where
  "assertOpenPhase p = ensure (isBindingJournalPhaseOpen p)
     (ActionableError ''A binding journal entry cannot open at this phase'')"

definition applyJournalAssignmentChange ::
  "(process_identity \<Rightarrow> bool) \<Rightarrow> int \<Rightarrow> binding_key \<Rightarrow> assignment_change \<Rightarrow>
   ('x) registry_db_scheme \<Rightarrow> ((cas_failure + assignment_row) \<times> 'x registry_db_scheme) res" where
  "applyJournalAssignmentChange live now k c db =
     (case c of
        ChangeCommit e nxt \<Rightarrow> commitBindingIn now k e nxt True db
      | ChangeState e st settler \<Rightarrow>
          rbind (assertSettlerForState st settler) (\<lambda>s.
          updateBindingStateIn live now k e st s True db))"

definition BINDING_JOURNAL_TERMINAL_RETENTION_MS :: int where
  "BINDING_JOURNAL_TERMINAL_RETENTION_MS = 7 * 24 * 60 * 60 * 1000"

definition pruneJournal :: "int \<Rightarrow> ('x) registry_db_scheme \<Rightarrow> 'x registry_db_scheme" where
  "pruneJournal now db = db\<lparr>journal := delete_where
     (\<lambda>j. \<not> isBindingJournalPhaseOpen (jr_phase j) \<and>
          jr_updated j < now - BINDING_JOURNAL_TERMINAL_RETENTION_MS) (journal db)\<rparr>"

definition fresh_journal ::
  "int \<Rightarrow> binding_key \<Rightarrow> open_journal_input \<Rightarrow> assignment_row \<Rightarrow> int \<Rightarrow> journal_row" where
  "fresh_journal i k inp applied now =
     (let from_gen = be_generation (changeExpected (oj_assignment inp)) in
      \<lparr>jr_id = i, jr_scope = fst k, jr_index = snd k, jr_kind = oj_kind inp,
       jr_phase = oj_phase inp, jr_platform = as_platform applied, jr_from_generation = from_gen,
       jr_to_generation = (if as_generation applied = from_gen then None
                           else Some (as_generation applied)),
       jr_binding_generation = as_generation applied, jr_binding_device = as_device applied,
       jr_target = oj_target inp, jr_owner_daemon = pi_daemonId (oj_owner inp),
       jr_owner_pid = pi_pid (oj_owner inp), jr_owner_token = tokenColumn (pi_token (oj_owner inp)),
       jr_attempts = 0, jr_last_error = None, jr_next_attempt = now, jr_created = now,
       jr_updated = now\<rparr>)"

definition openBindingJournal ::
  "(process_identity \<Rightarrow> bool) \<Rightarrow> int \<Rightarrow> binding_key \<Rightarrow> open_journal_input \<Rightarrow>
   ('x) registry_db_scheme \<Rightarrow> (open_journal_result \<times> 'x registry_db_scheme) res" where
  "openBindingJournal live now k inp db0 =
     rbind (assertValidBindingKey k) (\<lambda>_.
     rbind (assertOpenPhase (oj_phase inp)) (\<lambda>_.
     let db = pruneJournal now db0 in
     case readOpenJournal db k of
       Some j \<Rightarrow> Inr (JournalAlreadyOpen j, db)
     | None \<Rightarrow>
         rbind (applyJournalAssignmentChange live now k (oj_assignment inp) db) (\<lambda>(r, db1).
         case r of
           Inl f \<Rightarrow> Inr (OpenRefused f, db1)
         | Inr applied \<Rightarrow>
             let i = journal_seq db1 + 1; row = fresh_journal i k inp applied now in
             Inr (JournalOpened row applied,
                  db1\<lparr>journal := journal db1 @ [row], journal_seq := i\<rparr>))))"

definition journalAdvanceColumns ::
  "journal_row \<Rightarrow> advance_journal_input \<Rightarrow> assignment_row option \<Rightarrow> int \<Rightarrow> journal_row \<Rightarrow> journal_row" where
  "journalAdvanceColumns entry inp a now j =
     j\<lparr>jr_phase := aj_phase inp,
       jr_target := mergeTarget (jr_target entry) (aj_target inp),
       jr_to_generation :=
         (case a of Some b \<Rightarrow> if as_generation b \<noteq> jr_binding_generation entry
                             then Some (as_generation b) else jr_to_generation entry
          | None \<Rightarrow> jr_to_generation entry),
       jr_binding_generation := (case a of Some b \<Rightarrow> as_generation b | None \<Rightarrow> jr_binding_generation j),
       jr_binding_device := (case a of Some b \<Rightarrow> as_device b | None \<Rightarrow> jr_binding_device j),
       jr_attempts := (case aj_attempt inp of Some _ \<Rightarrow> jr_attempts entry + 1 | None \<Rightarrow> jr_attempts j),
       jr_last_error := (case aj_attempt inp of Some (e, _) \<Rightarrow> Some e | None \<Rightarrow> jr_last_error j),
       jr_next_attempt := (case aj_attempt inp of Some (_, t) \<Rightarrow> t | None \<Rightarrow> jr_next_attempt j),
       jr_updated := now\<rparr>"

definition advanceable :: "journal_row \<Rightarrow> advance_journal_input \<Rightarrow> bool" where
  "advanceable entry inp \<longleftrightarrow> isBindingJournalPhaseOpen (jr_phase entry) \<and>
     jr_phase entry = aj_expectedPhase inp \<and> journalOwnersEqual (jr_owner entry) (aj_owner inp)"

definition finish_advance ::
  "int \<Rightarrow> journal_row \<Rightarrow> advance_journal_input \<Rightarrow> assignment_row option \<Rightarrow>
   ('x) registry_db_scheme \<Rightarrow> (advance_journal_result \<times> 'x registry_db_scheme) res" where
  "finish_advance now entry inp a db =
     (let db1 = put_journal (jr_id entry) (journalAdvanceColumns entry inp a now) db in
      rbind (orThrow (getBindingJournal db1 (jr_id entry))) (\<lambda>j. Inr (JournalAdvanced j a, db1)))"

definition advanceBindingJournal ::
  "(process_identity \<Rightarrow> bool) \<Rightarrow> int \<Rightarrow> int \<Rightarrow> advance_journal_input \<Rightarrow>
   ('x) registry_db_scheme \<Rightarrow> (advance_journal_result \<times> 'x registry_db_scheme) res" where
  "advanceBindingJournal live now i inp db =
     (case getBindingJournal db i of
        None \<Rightarrow> Inr (JournalConflict None, db)
      | Some entry \<Rightarrow>
          if \<not> advanceable entry inp then Inr (JournalConflict (Some entry), db)
          else (case aj_assignment inp of
                  None \<Rightarrow> finish_advance now entry inp None db
                | Some c \<Rightarrow>
                    if \<not> sameBinding (jr_binding entry) (changeExpected c)
                    then Inr (JournalConflict (Some entry), db)
                    else rbind (applyJournalAssignmentChange live now (jr_key entry) c db)
                      (\<lambda>(r, db1). case r of
                           Inl f \<Rightarrow> Inr (AdvanceRefused f, db1)
                         | Inr applied \<Rightarrow> finish_advance now entry inp (Some applied) db1)))"

definition owner_columns :: "process_identity \<Rightarrow> int \<Rightarrow> journal_row \<Rightarrow> journal_row" where
  "owner_columns w now j = j\<lparr>jr_owner_daemon := pi_daemonId w, jr_owner_pid := pi_pid w,
     jr_owner_token := tokenColumn (pi_token w), jr_updated := now\<rparr>"

definition claimBindingJournal ::
  "int \<Rightarrow> int \<Rightarrow> process_identity \<Rightarrow> process_identity \<Rightarrow> ('x) registry_db_scheme \<Rightarrow>
   ((journal_row option + journal_row) \<times> 'x registry_db_scheme) res" where
  "claimBindingJournal now i expected nxt db =
     (case getBindingJournal db i of
        None \<Rightarrow> Inr (Inl None, db)
      | Some entry \<Rightarrow>
          if \<not> isBindingJournalPhaseOpen (jr_phase entry) \<or>
             \<not> journalOwnersEqual (jr_owner entry) expected
          then Inr (Inl (Some entry), db)
          else let db1 = put_journal i (owner_columns nxt now) db in
               rbind (orThrow (getBindingJournal db1 i)) (\<lambda>j. Inr (Inr j, db1)))"

end
