(* ===== verification/Admission.thy ===== *)
theory Admission
  imports Prelude
begin

text \<open>
  The pure admission policy of the session broker (src/src/daemon/sessionBroker/admission.ts).

  \<open>selectAdmission\<close> looks at one snapshot of the device resources and answers what a new session
  request should do: reuse an idle device, wait for one that is being reset, create one, evict the
  oldest idle one, or be refused. \<open>chooseIdleEvictions\<close> is the return-time trimming of the idle
  pool. \<open>localeCompare\<close> depends on the host's collation, so it is the parameter \<open>lc\<close>; what a
  lemma needs of it is the law of ECMA-402, the locale predicate \<open>comparator\<close>.
  Durations are rationals (a percentile may interpolate), counts and orders are integers.
\<close>

section \<open>Data\<close>

datatype resource_state = Reserved | Active | Idle | Resetting | Destroying | Unknown | Destroyed

record broker_limits =
  sessionCap :: "int option"
  totalDeviceCap :: "int option"
  idlePoolCap :: "int option"
  maxConcurrentResetBoots :: "int option"

record resource_view =
  rv_id :: string
  rv_state :: resource_state
  rv_idleOrder :: int
  rv_compatible :: bool
  rv_expectedReadyMs :: "rat option"

record broker_snapshot =
  activeOrAcquiringSessions :: int
  sn_resources :: "resource_view list"
  resetWaitThresholdMs :: "rat option"

datatype refusal_reason = SessionCapReached | TotalDeviceCapReached | TotalDeviceCapExceeded

datatype admission_decision =
    DReuse string
  | DCreate
  | DWait string rat
  | DEvict string
  | DRefuse refusal_reason

section \<open>Validation\<close>

definition RESOURCE_STATES :: "resource_state list" where
  "RESOURCE_STATES = [Reserved, Active, Idle, Resetting, Destroying, Unknown]"

definition assertNonNegativeInteger :: "int \<Rightarrow> string \<Rightarrow> unit res" where
  "assertNonNegativeInteger value name =
     ensure (0 \<le> value)
       (TypeError (name @ '' must be an integer greater than or equal to zero''))"

definition optionally :: "('a \<Rightarrow> unit res) \<Rightarrow> 'a option \<Rightarrow> unit res" where
  "optionally check v = (case v of None \<Rightarrow> Inr () | Some x \<Rightarrow> check x)"

definition validateLimits :: "broker_limits \<Rightarrow> unit res" where
  "validateLimits limits =
     rbind (optionally (\<lambda>v. assertNonNegativeInteger v ''limits.sessionCap'') (sessionCap limits)) (\<lambda>_.
     rbind (optionally (\<lambda>v. assertNonNegativeInteger v ''limits.totalDeviceCap'')
              (totalDeviceCap limits)) (\<lambda>_.
     rbind (optionally (\<lambda>v. assertNonNegativeInteger v ''limits.idlePoolCap'')
              (idlePoolCap limits)) (\<lambda>_.
     optionally (\<lambda>v. ensure (1 \<le> v)
         (TypeError ''limits.maxConcurrentResetBoots must be a positive integer''))
       (maxConcurrentResetBoots limits))))"

definition validateResource :: "resource_view \<Rightarrow> unit res" where
  "validateResource r =
     rbind (ensure (\<not> blank (rv_id r)) (TypeError ''id must be a non-blank string'')) (\<lambda>_.
     rbind (ensure (List.member RESOURCE_STATES (rv_state r)) (TypeError ''state is invalid'')) (\<lambda>_.
     optionally (\<lambda>v. ensure (0 \<le> v) (TypeError ''expectedReadyMs must be nonnegative and finite''))
       (rv_expectedReadyMs r)))"

fun validateResources :: "string list \<Rightarrow> resource_view list \<Rightarrow> unit res" where
  "validateResources ids [] = Inr ()"
| "validateResources ids (r # rs) =
     rbind (validateResource r) (\<lambda>_.
     rbind (ensure (\<not> List.member ids (rv_id r))
       (TypeError ''snapshot.resources contains duplicate id'')) (\<lambda>_.
     validateResources (rv_id r # ids) rs))"

definition validateSnapshot :: "broker_snapshot \<Rightarrow> unit res" where
  "validateSnapshot snapshot =
     rbind (assertNonNegativeInteger (activeOrAcquiringSessions snapshot)
       ''snapshot.activeOrAcquiringSessions'') (\<lambda>_.
     rbind (optionally (\<lambda>v. ensure (0 \<le> v)
         (TypeError ''snapshot.resetWaitThresholdMs must be nonnegative and finite''))
       (resetWaitThresholdMs snapshot)) (\<lambda>_.
     validateResources [] (sn_resources snapshot)))"

section \<open>Selection\<close>

definition compareOldest :: "string cmp \<Rightarrow> resource_view cmp" where
  "compareOldest lc = then_cmp (key_cmp rv_idleOrder) (\<lambda>l r. lc (rv_id l) (rv_id r))"

definition compareNewest :: "string cmp \<Rightarrow> resource_view cmp" where
  "compareNewest lc = then_cmp (key_cmp (\<lambda>r. - rv_idleOrder r)) (\<lambda>l r. lc (rv_id l) (rv_id r))"

definition idleResources :: "string cmp \<Rightarrow> broker_snapshot \<Rightarrow> resource_view list" where
  "idleResources lc snapshot =
     js_sort (compareOldest lc) (filter (\<lambda>r. rv_state r = Idle) (sn_resources snapshot))"

definition head :: "'a list \<Rightarrow> 'a option" where
  "head xs = (case xs of [] \<Rightarrow> None | x # _ \<Rightarrow> Some x)"

definition oldestIdle :: "string cmp \<Rightarrow> broker_snapshot \<Rightarrow> resource_view option" where
  "oldestIdle lc snapshot = head (idleResources lc snapshot)"

definition newestCompatibleIdle :: "string cmp \<Rightarrow> broker_snapshot \<Rightarrow> resource_view option" where
  "newestCompatibleIdle lc snapshot =
     head (js_sort (compareNewest lc) (filter rv_compatible (idleResources lc snapshot)))"

definition reusableIdle ::
  "string cmp \<Rightarrow> broker_snapshot \<Rightarrow> broker_limits \<Rightarrow> resource_view option" where
  "reusableIdle lc snapshot limits =
     (if totalDeviceCap limits = Some 0 then None else newestCompatibleIdle lc snapshot)"

definition waitable :: "rat option \<Rightarrow> resource_view \<Rightarrow> bool" where
  "waitable threshold r \<longleftrightarrow>
     rv_state r = Resetting \<and> rv_compatible r \<and>
     (case threshold of None \<Rightarrow> False | Some t \<Rightarrow>
        0 < t \<and> (case rv_expectedReadyMs r of None \<Rightarrow> False | Some e \<Rightarrow> 0 < e \<and> e \<le> t))"

definition expectedOf :: "resource_view \<Rightarrow> rat" where
  "expectedOf r = (case rv_expectedReadyMs r of None \<Rightarrow> 0 | Some e \<Rightarrow> e)"

definition resettingWait ::
  "string cmp \<Rightarrow> broker_snapshot \<Rightarrow> broker_limits \<Rightarrow> admission_decision option" where
  "resettingWait lc snapshot limits =
     (if totalDeviceCap limits = Some 0 then None
      else (case head (js_sort (then_cmp (key_cmp expectedOf) (\<lambda>l r. lc (rv_id l) (rv_id r)))
                   (filter (waitable (resetWaitThresholdMs snapshot)) (sn_resources snapshot))) of
              None \<Rightarrow> None
            | Some resetting \<Rightarrow>
                (case resetWaitThresholdMs snapshot of
                   None \<Rightarrow> None
                 | Some t \<Rightarrow>
                     (if 0 < t then Some (DWait (rv_id resetting) (min (expectedOf resetting) t))
                      else None))))"

definition evictOldest :: "string cmp \<Rightarrow> broker_snapshot \<Rightarrow> refusal_reason \<Rightarrow> admission_decision" where
  "evictOldest lc snapshot reason =
     (case oldestIdle lc snapshot of Some candidate \<Rightarrow> DEvict (rv_id candidate)
                                   | None \<Rightarrow> DRefuse reason)"

definition totalCapDecision ::
  "string cmp \<Rightarrow> broker_snapshot \<Rightarrow> broker_limits \<Rightarrow> admission_decision" where
  "totalCapDecision lc snapshot limits =
     (let total = int (length (sn_resources snapshot)) in
      case totalDeviceCap limits of
        None \<Rightarrow> DCreate
      | Some cap \<Rightarrow>
          (if cap < total then evictOldest lc snapshot TotalDeviceCapExceeded
           else if total < cap then DCreate
           else evictOldest lc snapshot TotalDeviceCapReached))"

definition selectAdmission ::
  "string cmp \<Rightarrow> broker_snapshot \<Rightarrow> broker_limits \<Rightarrow> admission_decision res" where
  "selectAdmission lc snapshot limits =
     rbind (validateLimits limits) (\<lambda>_.
     rbind (validateSnapshot snapshot) (\<lambda>_.
     Inr (case sessionCap limits of
            Some cap \<Rightarrow>
              (if cap \<le> activeOrAcquiringSessions snapshot then DRefuse SessionCapReached
               else case reusableIdle lc snapshot limits of
                      Some r \<Rightarrow> DReuse (rv_id r)
                    | None \<Rightarrow> (case resettingWait lc snapshot limits of
                                Some d \<Rightarrow> d | None \<Rightarrow> totalCapDecision lc snapshot limits))
          | None \<Rightarrow>
              (case reusableIdle lc snapshot limits of
                 Some r \<Rightarrow> DReuse (rv_id r)
               | None \<Rightarrow> (case resettingWait lc snapshot limits of
                           Some d \<Rightarrow> d | None \<Rightarrow> totalCapDecision lc snapshot limits)))))"

definition evictionQuota :: "broker_snapshot \<Rightarrow> nat \<Rightarrow> broker_limits \<Rightarrow> nat" where
  "evictionQuota snapshot idle limits =
     (let totalExcess = (case totalDeviceCap limits of None \<Rightarrow> 0
                         | Some cap \<Rightarrow> max 0 (int (length (sn_resources snapshot)) - cap));
          idleExcess = (case idlePoolCap limits of None \<Rightarrow> 0
                        | Some cap \<Rightarrow> max 0 (int idle - cap))
      in nat (max totalExcess idleExcess))"

definition chooseIdleEvictions ::
  "string cmp \<Rightarrow> broker_snapshot \<Rightarrow> broker_limits \<Rightarrow> string list res" where
  "chooseIdleEvictions lc snapshot limits =
     rbind (validateLimits limits) (\<lambda>_.
     rbind (validateSnapshot snapshot) (\<lambda>_.
     (let idle = idleResources lc snapshot
      in Inr (map rv_id (take (evictionQuota snapshot (length idle) limits) idle)))))"

section \<open>What validation accepts\<close>

lemma head_simps [simp]: "head [] = None" "head (x # xs) = Some x"
  by (simp_all add: head_def)

lemma head_SomeD: "head xs = Some x \<Longrightarrow> \<exists>ys. xs = x # ys"
  by (cases xs) simp_all

lemma head_None [simp]: "head xs = None \<longleftrightarrow> xs = []"
  by (cases xs) simp_all

lemma optionally_ok [simp]:
  "optionally check v = Inr () \<longleftrightarrow> (\<forall>x. v = Some x \<longrightarrow> check x = Inr ())"
  by (cases v) (simp_all add: optionally_def)

lemma assertNonNegativeInteger_ok [simp]: "assertNonNegativeInteger v n = Inr () \<longleftrightarrow> 0 \<le> v"
  by (simp add: assertNonNegativeInteger_def)

definition limits_ok :: "broker_limits \<Rightarrow> bool" where
  "limits_ok limits \<longleftrightarrow>
     (\<forall>c. sessionCap limits = Some c \<longrightarrow> 0 \<le> c) \<and> (\<forall>c. totalDeviceCap limits = Some c \<longrightarrow> 0 \<le> c) \<and>
     (\<forall>c. idlePoolCap limits = Some c \<longrightarrow> 0 \<le> c) \<and>
     (\<forall>c. maxConcurrentResetBoots limits = Some c \<longrightarrow> 1 \<le> c)"

definition view_ok :: "resource_view \<Rightarrow> bool" where
  "view_ok r \<longleftrightarrow> \<not> blank (rv_id r) \<and> rv_state r \<noteq> Destroyed \<and>
     (\<forall>e. rv_expectedReadyMs r = Some e \<longrightarrow> 0 \<le> e)"

definition snapshot_ok :: "broker_snapshot \<Rightarrow> bool" where
  "snapshot_ok s \<longleftrightarrow> 0 \<le> activeOrAcquiringSessions s \<and>
     (\<forall>t. resetWaitThresholdMs s = Some t \<longrightarrow> 0 \<le> t) \<and>
     (\<forall>r \<in> set (sn_resources s). view_ok r) \<and> distinct (map rv_id (sn_resources s))"

lemma validateLimits_ok: "validateLimits limits = Inr () \<longleftrightarrow> limits_ok limits"
  by (auto simp: validateLimits_def limits_ok_def)

lemma validateResource_ok: "validateResource r = Inr () \<longleftrightarrow> view_ok r"
  by (cases "rv_state r") (auto simp: validateResource_def view_ok_def RESOURCE_STATES_def)

lemma validateResources_ok:
  "validateResources ids rs = Inr () \<longleftrightarrow>
     (\<forall>r \<in> set rs. view_ok r) \<and> distinct (map rv_id rs) \<and> set ids \<inter> rv_id ` set rs = {}"
  by (induction rs arbitrary: ids) (auto simp: validateResource_ok)

lemma validateSnapshot_ok: "validateSnapshot s = Inr () \<longleftrightarrow> snapshot_ok s"
  by (auto simp: validateSnapshot_def snapshot_ok_def validateResources_ok)

section \<open>The contract of an admission decision\<close>

text \<open>
  What each decision promises about the snapshot it was taken from. This is the specification the
  durable store relies on when it reserves the chosen resource in the same transaction.
\<close>

definition newest_compatible :: "broker_snapshot \<Rightarrow> resource_view \<Rightarrow> bool" where
  "newest_compatible s r \<longleftrightarrow> r \<in> set (sn_resources s) \<and> rv_state r = Idle \<and> rv_compatible r \<and>
     (\<forall>r' \<in> set (sn_resources s). rv_state r' = Idle \<and> rv_compatible r' \<longrightarrow>
        rv_idleOrder r' \<le> rv_idleOrder r)"

definition oldest_idle :: "broker_snapshot \<Rightarrow> resource_view \<Rightarrow> bool" where
  "oldest_idle s r \<longleftrightarrow> r \<in> set (sn_resources s) \<and> rv_state r = Idle \<and>
     (\<forall>r' \<in> set (sn_resources s). rv_state r' = Idle \<longrightarrow> rv_idleOrder r \<le> rv_idleOrder r')"

definition no_reuse :: "broker_snapshot \<Rightarrow> broker_limits \<Rightarrow> bool" where
  "no_reuse s l \<longleftrightarrow> totalDeviceCap l = Some 0 \<or>
     (\<forall>r \<in> set (sn_resources s). rv_state r = Idle \<longrightarrow> \<not> rv_compatible r)"

definition at_total_cap :: "broker_snapshot \<Rightarrow> broker_limits \<Rightarrow> bool" where
  "at_total_cap s l \<longleftrightarrow> (\<exists>c. totalDeviceCap l = Some c \<and> c \<le> int (length (sn_resources s)))"

definition below_session_cap :: "broker_snapshot \<Rightarrow> broker_limits \<Rightarrow> bool" where
  "below_session_cap s l \<longleftrightarrow> (\<forall>c. sessionCap l = Some c \<longrightarrow> activeOrAcquiringSessions s < c)"

definition none_idle :: "broker_snapshot \<Rightarrow> bool" where
  "none_idle s \<longleftrightarrow> (\<forall>r \<in> set (sn_resources s). rv_state r \<noteq> Idle)"

fun decision_ok :: "broker_snapshot \<Rightarrow> broker_limits \<Rightarrow> admission_decision \<Rightarrow> bool" where
  "decision_ok s l (DReuse i) \<longleftrightarrow> below_session_cap s l \<and> totalDeviceCap l \<noteq> Some 0 \<and>
     (\<exists>r. rv_id r = i \<and> newest_compatible s r)"
| "decision_ok s l (DWait i w) \<longleftrightarrow> below_session_cap s l \<and> no_reuse s l \<and>
     (\<exists>r \<in> set (sn_resources s). rv_id r = i \<and> rv_state r = Resetting \<and> rv_compatible r \<and>
        rv_expectedReadyMs r = Some w \<and> 0 < w \<and>
        (\<exists>t. resetWaitThresholdMs s = Some t \<and> w \<le> t))"
| "decision_ok s l DCreate \<longleftrightarrow> below_session_cap s l \<and> no_reuse s l \<and> \<not> at_total_cap s l"
| "decision_ok s l (DEvict i) \<longleftrightarrow> below_session_cap s l \<and> no_reuse s l \<and> at_total_cap s l \<and>
     (\<exists>r. rv_id r = i \<and> oldest_idle s r)"
| "decision_ok s l (DRefuse SessionCapReached) \<longleftrightarrow> \<not> below_session_cap s l"
| "decision_ok s l (DRefuse TotalDeviceCapReached) \<longleftrightarrow> below_session_cap s l \<and> none_idle s \<and>
     totalDeviceCap l = Some (int (length (sn_resources s)))"
| "decision_ok s l (DRefuse TotalDeviceCapExceeded) \<longleftrightarrow> below_session_cap s l \<and> none_idle s \<and>
     (\<exists>c. totalDeviceCap l = Some c \<and> c < int (length (sn_resources s)))"

lemma comparator_id: "comparator lc \<Longrightarrow> comparator (\<lambda>l r. lc (rv_id l) (rv_id r))"
  by (rule comparator_on_key)

lemma comparator_compareOldest: "comparator lc \<Longrightarrow> comparator (compareOldest lc)"
  unfolding compareOldest_def by (rule comparator_key_then [OF comparator_id])

lemma comparator_compareNewest: "comparator lc \<Longrightarrow> comparator (compareNewest lc)"
  unfolding compareNewest_def by (rule comparator_key_then [OF comparator_id])

lemma set_idleResources [simp]:
  "set (idleResources lc s) = {r \<in> set (sn_resources s). rv_state r = Idle}"
  by (simp add: idleResources_def)

lemma oldestIdle_Some:
  assumes "comparator lc" and "oldestIdle lc s = Some r"
  shows "oldest_idle s r"
proof -
  from assms(2) obtain rs where rs: "idleResources lc s = r # rs"
    by (auto simp: oldestIdle_def dest: head_SomeD)
  then have mem: "r \<in> set (idleResources lc s)" by simp
  have "rv_idleOrder r \<le> rv_idleOrder r'" if "r' \<in> set (sn_resources s)" "rv_state r' = Idle" for r'
  proof -
    have "compareOldest lc r r' \<le> 0"
      using comparator.hd_js_sort_least [OF comparator_compareOldest [OF assms(1)]] rs that
      by (fastforce simp: idleResources_def)
    then show ?thesis by (auto simp: compareOldest_def then_cmp_key_le)
  qed
  with mem show ?thesis by (auto simp: oldest_idle_def)
qed

lemma oldestIdle_None: "oldestIdle lc s = None \<longleftrightarrow> none_idle s"
  by (auto simp: oldestIdle_def none_idle_def idleResources_def filter_empty_conv)

lemma newestCompatibleIdle_Some:
  assumes "comparator lc" and "newestCompatibleIdle lc s = Some r"
  shows "newest_compatible s r"
proof -
  let ?c = "filter rv_compatible (idleResources lc s)"
  from assms(2) obtain rs where rs: "js_sort (compareNewest lc) ?c = r # rs"
    by (auto simp: newestCompatibleIdle_def dest: head_SomeD)
  then have mem: "r \<in> set ?c" by (metis list.set_intros(1) set_js_sort)
  have "rv_idleOrder r' \<le> rv_idleOrder r" if "r' \<in> set ?c" for r'
  proof -
    have "compareNewest lc r r' \<le> 0"
      using comparator.hd_js_sort_least [OF comparator_compareNewest [OF assms(1)] rs that] .
    then show ?thesis by (auto simp: compareNewest_def then_cmp_key_le)
  qed
  with mem show ?thesis by (auto simp: newest_compatible_def)
qed

lemma newestCompatibleIdle_None:
  "newestCompatibleIdle lc s = None \<longleftrightarrow>
     (\<forall>r \<in> set (sn_resources s). rv_state r = Idle \<longrightarrow> \<not> rv_compatible r)"
  by (auto simp: newestCompatibleIdle_def filter_empty_conv)

lemma reusableIdle_Some:
  "comparator lc \<Longrightarrow> reusableIdle lc s l = Some r \<Longrightarrow>
     totalDeviceCap l \<noteq> Some 0 \<and> newest_compatible s r"
  by (auto simp: reusableIdle_def newestCompatibleIdle_Some split: if_splits)

lemma reusableIdle_None: "reusableIdle lc s l = None \<longleftrightarrow> no_reuse s l"
  by (auto simp: reusableIdle_def no_reuse_def newestCompatibleIdle_None)

lemma resettingWait_Some:
  assumes "resettingWait lc s l = Some d"
  shows "\<exists>r w t. d = DWait (rv_id r) w \<and> r \<in> set (sn_resources s) \<and> rv_state r = Resetting \<and>
    rv_compatible r \<and> rv_expectedReadyMs r = Some w \<and> 0 < w \<and>
    resetWaitThresholdMs s = Some t \<and> w \<le> t"
proof -
  let ?ws = "filter (waitable (resetWaitThresholdMs s)) (sn_resources s)"
  from assms obtain r where
    h: "head (js_sort (then_cmp (key_cmp expectedOf) (\<lambda>l r. lc (rv_id l) (rv_id r))) ?ws) = Some r"
    by (auto simp: resettingWait_def split: if_splits option.splits)
  then have "r \<in> set ?ws"
    by (metis head_SomeD list.set_intros(1) set_js_sort)
  moreover from assms h have "\<exists>t. resetWaitThresholdMs s = Some t \<and> 0 < t \<and>
      d = DWait (rv_id r) (min (expectedOf r) t)"
    by (auto simp: resettingWait_def split: if_splits option.splits)
  ultimately show ?thesis
    by (auto simp: waitable_def expectedOf_def min_def split: option.splits)
qed

lemma evictOldest_cases:
  assumes "comparator lc"
  shows "(\<exists>r. evictOldest lc s reason = DEvict (rv_id r) \<and> oldest_idle s r) \<or>
    evictOldest lc s reason = DRefuse reason \<and> none_idle s"
proof (cases "oldestIdle lc s")
  case None
  then show ?thesis using oldestIdle_None [of lc s] by (simp add: evictOldest_def)
next
  case (Some r)
  then show ?thesis using oldestIdle_Some [OF assms Some] by (auto simp: evictOldest_def)
qed

lemma totalCapDecision_ok:
  assumes lc: "comparator lc" and "below_session_cap s l" "no_reuse s l"
  shows "decision_ok s l (totalCapDecision lc s l)"
proof (cases "totalDeviceCap l")
  case None
  with assms show ?thesis by (simp add: totalCapDecision_def at_total_cap_def)
next
  case (Some c)
  let ?n = "int (length (sn_resources s))"
  consider "c < ?n" | "?n < c" | "?n = c" by linarith
  then show ?thesis
  proof cases
    case 1
    with Some evictOldest_cases [OF lc, of s TotalDeviceCapExceeded] assms show ?thesis
      by (auto simp: totalCapDecision_def at_total_cap_def)
  next
    case 2
    with Some assms show ?thesis by (simp add: totalCapDecision_def at_total_cap_def)
  next
    case 3
    with Some evictOldest_cases [OF lc, of s TotalDeviceCapReached] assms show ?thesis
      by (auto simp: totalCapDecision_def at_total_cap_def)
  qed
qed

definition reuse_wait_or_cap :: "string cmp \<Rightarrow> broker_snapshot \<Rightarrow> broker_limits \<Rightarrow> admission_decision" where
  "reuse_wait_or_cap lc s l =
     (case reusableIdle lc s l of
        Some r \<Rightarrow> DReuse (rv_id r)
      | None \<Rightarrow> (case resettingWait lc s l of Some d \<Rightarrow> d | None \<Rightarrow> totalCapDecision lc s l))"

lemma selectAdmission_alt:
  "selectAdmission lc s l =
     rbind (validateLimits l) (\<lambda>_. rbind (validateSnapshot s) (\<lambda>_.
       Inr (if below_session_cap s l then reuse_wait_or_cap lc s l else DRefuse SessionCapReached)))"
  by (simp add: selectAdmission_def reuse_wait_or_cap_def below_session_cap_def
      split: option.splits)

lemma reuse_wait_or_cap_ok:
  assumes "comparator lc" "below_session_cap s l"
  shows "decision_ok s l (reuse_wait_or_cap lc s l)"
proof (cases "reusableIdle lc s l")
  case (Some r)
  with assms reusableIdle_Some [OF assms(1) Some] show ?thesis
    by (auto simp: reuse_wait_or_cap_def)
next
  case None
  then have nr: "no_reuse s l" by (simp add: reusableIdle_None)
  show ?thesis
  proof (cases "resettingWait lc s l")
    case None
    with \<open>reusableIdle lc s l = None\<close> nr assms show ?thesis
      by (simp add: reuse_wait_or_cap_def totalCapDecision_ok)
  next
    case (Some d)
    with \<open>reusableIdle lc s l = None\<close> nr assms resettingWait_Some [OF Some] show ?thesis
      by (auto simp: reuse_wait_or_cap_def)
  qed
qed

lemma selectAdmission_decision_ok:
  assumes "comparator lc" and "selectAdmission lc s l = Inr d"
  shows "snapshot_ok s \<and> limits_ok l \<and> decision_ok s l d"
proof -
  from assms(2) have "validateLimits l = Inr ()" "validateSnapshot s = Inr ()"
    by (auto simp: selectAdmission_alt)
  then have "snapshot_ok s \<and> limits_ok l"
    by (simp add: validateLimits_ok validateSnapshot_ok)
  moreover from assms(2) have
    "d = (if below_session_cap s l then reuse_wait_or_cap lc s l else DRefuse SessionCapReached)"
    by (auto simp: selectAdmission_alt)
  ultimately show ?thesis using reuse_wait_or_cap_ok [OF assms(1)] by simp
qed

lemma selectAdmission_total:
  "snapshot_ok s \<Longrightarrow> limits_ok l \<Longrightarrow> \<exists>d. selectAdmission lc s l = Inr d"
  by (simp add: selectAdmission_alt validateLimits_ok [THEN iffD2] validateSnapshot_ok [THEN iffD2])

text \<open>Whatever \<open>localeCompare\<close> answers, a reused or evicted resource was idle in the snapshot.\<close>

lemma chosen_idle:
  assumes "selectAdmission lc s l = Inr d" and "d = DReuse i \<or> d = DEvict i"
  shows "\<exists>r\<in>set (sn_resources s). rv_id r = i \<and> rv_state r = Idle"
proof -
  have old: "r \<in> set (idleResources lc s)" if "oldestIdle lc s = Some r" for r
    using that unfolding oldestIdle_def by (metis head_SomeD list.set_intros(1))
  have new: "r \<in> set (idleResources lc s)" if h: "newestCompatibleIdle lc s = Some r" for r
  proof -
    obtain rs where "js_sort (compareNewest lc) (filter rv_compatible (idleResources lc s)) = r # rs"
      using head_SomeD [OF h [unfolded newestCompatibleIdle_def]] by auto
    then have "r \<in> set (filter rv_compatible (idleResources lc s))"
      by (metis list.set_intros(1) set_js_sort)
    then show ?thesis by simp
  qed
  have "d = reuse_wait_or_cap lc s l \<or> d = DRefuse SessionCapReached"
    using assms(1) by (auto simp: selectAdmission_alt split: if_splits)
  then have "\<exists>r. (oldestIdle lc s = Some r \<or> newestCompatibleIdle lc s = Some r) \<and> rv_id r = i"
    using assms(2) resettingWait_Some [of lc s l]
    by (auto simp: reuse_wait_or_cap_def reusableIdle_def totalCapDecision_def evictOldest_def Let_def
        split: option.splits if_splits)
  with old new show ?thesis by fastforce
qed

section \<open>Trimming the idle pool\<close>

definition kept :: "string list \<Rightarrow> resource_view list \<Rightarrow> resource_view list" where
  "kept ids rs = filter (\<lambda>r. rv_id r \<notin> set ids) rs"

lemma length_kept:
  assumes "distinct (map rv_id rs)" and "distinct ids" and "set ids \<subseteq> rv_id ` set rs"
  shows "length (kept ids rs) + length ids = length rs"
proof -
  have "set ids = rv_id ` set (filter (\<lambda>r. rv_id r \<in> set ids) rs)"
    using assms(3) by auto
  moreover have "distinct (map rv_id (filter (\<lambda>r. rv_id r \<in> set ids) rs))"
    using assms(1) by (rule distinct_map_filter)
  ultimately have "length ids = length (filter (\<lambda>r. rv_id r \<in> set ids) rs)"
    using assms(2) by (metis distinct_card length_map list.set_map)
  then show ?thesis
    using sum_length_filter_compl [of "\<lambda>r. rv_id r \<in> set ids" rs] by (simp add: kept_def)
qed

lemma chooseIdleEvictions_ids:
  assumes "chooseIdleEvictions lc s l = Inr ids"
  shows "snapshot_ok s" "limits_ok l"
    "ids = map rv_id (take (evictionQuota s (length (idleResources lc s)) l) (idleResources lc s))"
  using assms validateLimits_ok [of l] validateSnapshot_ok [of s]
  by (auto simp: chooseIdleEvictions_def Let_def)

lemma idle_kept:
  "filter (\<lambda>r. rv_state r = Idle) (kept ids rs) = kept ids (filter (\<lambda>r. rv_state r = Idle) rs)"
  by (simp add: kept_def conj_commute)

lemma evictions_bounds:
  assumes "chooseIdleEvictions lc s l = Inr ids"
  defines "idle \<equiv> filter (\<lambda>r. rv_state r = Idle) (sn_resources s)"
  shows "distinct ids" "set ids \<subseteq> rv_id ` set idle"
    "length (kept ids (sn_resources s)) + length ids = length (sn_resources s)"
    "length (kept ids idle) + length ids = length idle"
    "length ids = min (length idle) (evictionQuota s (length idle) l)"
proof -
  note ids = chooseIdleEvictions_ids [OF assms(1)]
  let ?n = "evictionQuota s (length (idleResources lc s)) l"
  have len: "length (idleResources lc s) = length idle"
    by (simp add: idleResources_def idle_def)
  have dr: "distinct (map rv_id (sn_resources s))" using ids(1) by (simp add: snapshot_ok_def)
  then have di: "distinct (map rv_id idle)" by (simp add: idle_def distinct_map_filter)
  then have "distinct (map rv_id (idleResources lc s))"
    by (simp add: idleResources_def idle_def)
  then show dist: "distinct ids" using ids(3) by (simp add: take_map [symmetric])
  have "set ids \<subseteq> rv_id ` set (idleResources lc s)"
    using ids(3) set_take_subset [of ?n "idleResources lc s"] by auto
  then show sub: "set ids \<subseteq> rv_id ` set idle" by (simp add: idle_def)
  have "set ids \<subseteq> rv_id ` set (sn_resources s)" using sub by (auto simp: idle_def)
  with dr dist show "length (kept ids (sn_resources s)) + length ids = length (sn_resources s)"
    by (rule length_kept)
  show "length (kept ids idle) + length ids = length idle"
    using di dist sub by (rule length_kept)
  show "length ids = min (length idle) (evictionQuota s (length idle) l)"
    using ids(3) len by (simp add: min.commute)
qed

lemma evictionQuota_ge:
  "totalDeviceCap l = Some c \<Longrightarrow> int (length (sn_resources s)) - c \<le> int (evictionQuota s n l)"
  "idlePoolCap l = Some c \<Longrightarrow> int n - c \<le> int (evictionQuota s n l)"
  by (auto simp: evictionQuota_def Let_def split: option.splits)

lemma evictions_enforce_limits:
  assumes "chooseIdleEvictions lc s l = Inr ids"
  defines "rest \<equiv> kept ids (sn_resources s)"
  shows "idlePoolCap l = Some c \<Longrightarrow> int (length (filter (\<lambda>r. rv_state r = Idle) rest)) \<le> c"
    and "totalDeviceCap l = Some c \<Longrightarrow>
      int (length rest) \<le> c \<or> filter (\<lambda>r. rv_state r = Idle) rest = []"
proof -
  let ?idle = "filter (\<lambda>r. rv_state r = Idle) (sn_resources s)"
  note b = evictions_bounds [OF assms(1)]
  have ik: "filter (\<lambda>r. rv_state r = Idle) rest = kept ids ?idle"
    by (simp add: rest_def idle_kept)
  note lim = chooseIdleEvictions_ids(2) [OF assms(1)]
  show "int (length (filter (\<lambda>r. rv_state r = Idle) rest)) \<le> c" if cap: "idlePoolCap l = Some c"
    using b(4,5) evictionQuota_ge(2) [OF cap, of "length ?idle" s] lim cap
    unfolding ik limits_ok_def by auto
  show "int (length rest) \<le> c \<or> filter (\<lambda>r. rv_state r = Idle) rest = []"
    if cap: "totalDeviceCap l = Some c"
  proof (cases "length ids = length ?idle")
    case True
    then have "kept ids ?idle = []" using b(4) by simp
    then show ?thesis using ik by simp
  next
    case False
    then have "length ids = evictionQuota s (length ?idle) l" using b(5) by linarith
    then show ?thesis
      using b(3) evictionQuota_ge(1) [OF cap, of s "length ?idle"] unfolding rest_def by linarith
  qed
qed

lemma evictions_oldest_first:
  assumes "comparator lc" and "chooseIdleEvictions lc s l = Inr ids"
    and "r \<in> set (sn_resources s)" "rv_id r \<in> set ids"
    and "r' \<in> set (sn_resources s)" "rv_state r' = Idle" "rv_id r' \<notin> set ids"
  shows "rv_idleOrder r \<le> rv_idleOrder r'"
proof -
  let ?L = "idleResources lc s"
  let ?n = "evictionQuota s (length ?L) l"
  note ids = chooseIdleEvictions_ids [OF assms(2)]
  have dr: "distinct (map rv_id (sn_resources s))" using ids(1) by (simp add: snapshot_ok_def)
  obtain q where q: "q \<in> set (take ?n ?L)" "rv_id q = rv_id r"
    using assms(4) ids(3) by auto
  have "q \<in> set ?L" using q(1) by (meson in_set_takeD)
  then have "q \<in> set (sn_resources s)" by simp
  then have "q = r" using dr assms(3) q(2) by (metis (no_types, lifting) distinct_map inj_onD)
  have "r' \<in> set ?L" using assms(5,6) by simp
  moreover have "r' \<notin> set (take ?n ?L)" using assms(7) ids(3) by auto
  ultimately have "r' \<in> set (drop ?n ?L)"
    by (metis Un_iff append_take_drop_id set_append)
  then have "compareOldest lc r r' \<le> 0"
    using comparator.take_js_sort_least [OF comparator_compareOldest [OF assms(1)]] q(1) \<open>q = r\<close>
    unfolding idleResources_def by blast
  then show ?thesis by (auto simp: compareOldest_def then_cmp_key_le)
qed

end
