(* ===== verification/Profile.thy ===== *)
theory Profile
  imports Json
begin

text \<open>
  The exact device profile a broker resource stores (src/src/daemon/sessionBroker/profile.ts): the
  schema \<open>exactProfile\<close> as a parser from stored JSON, \<open>nativeProfile\<close>, which revalidates a stored
  resource before platform work, and the two writers of effective Android hardware. A schema keeps
  the declared keys only, so the parser's result is a record; \<open>profileJson\<close> is \<open>JSON.stringify\<close>
  of it, in the schema's key order.
\<close>

section \<open>Schema fields\<close>

definition requiredString :: "json \<Rightarrow> string \<Rightarrow> string option" where
  "requiredString j k = (case field j k of Some (JStr s) \<Rightarrow> if s \<noteq> [] then Some s else None | _ \<Rightarrow> None)"

definition optionalString :: "nat \<Rightarrow> json \<Rightarrow> string \<Rightarrow> string option option" where
  "optionalString least j k =
     (case field j k of None \<Rightarrow> Some None
      | Some (JStr s) \<Rightarrow> if least \<le> length s then Some (Some s) else None
      | _ \<Rightarrow> None)"

definition enumString :: "string list \<Rightarrow> json \<Rightarrow> string \<Rightarrow> string option" where
  "enumString vs j k =
     (case field j k of Some (JStr s) \<Rightarrow> if List.member vs s then Some s else None | _ \<Rightarrow> None)"

definition positiveNumber :: "json \<Rightarrow> string \<Rightarrow> int option" where
  "positiveNumber j k = (case field j k of Some (JNum n) \<Rightarrow> if 0 < n then Some n else None | _ \<Rightarrow> None)"

definition optionalPositive :: "json \<Rightarrow> string \<Rightarrow> int option option" where
  "optionalPositive j k =
     (case field j k of None \<Rightarrow> Some None
      | Some (JNum n) \<Rightarrow> if 0 < n then Some (Some n) else None
      | _ \<Rightarrow> None)"

text \<open>\<open>positive().nullable().optional()\<close>: absent, null or a number.\<close>

definition nullablePositive :: "json \<Rightarrow> string \<Rightarrow> int option option option" where
  "nullablePositive j k =
     (case field j k of None \<Rightarrow> Some None
      | Some JNull \<Rightarrow> Some (Some None)
      | Some (JNum n) \<Rightarrow> if 0 < n then Some (Some (Some n)) else None
      | _ \<Rightarrow> None)"

definition is_digit :: "char \<Rightarrow> bool" where
  "is_digit c \<longleftrightarrow> CHR ''0'' \<le> c \<and> c \<le> CHR ''9''"

text \<open>\<open>/^\d+(?:\.\d+)*$/\<close>: \<open>started\<close> says whether the current group has a digit yet.\<close>

fun versionFrom :: "bool \<Rightarrow> string \<Rightarrow> bool" where
  "versionFrom started [] = started"
| "versionFrom started (c # cs) =
     (if is_digit c then versionFrom True cs
      else c = CHR ''.'' \<and> started \<and> versionFrom False cs)"

definition versionString :: "json \<Rightarrow> string \<Rightarrow> string option" where
  "versionString j k =
     (case field j k of Some (JStr s) \<Rightarrow> if versionFrom False s then Some s else None | _ \<Rightarrow> None)"

section \<open>The profile\<close>

record ios_profile =
  ip_deviceType :: string
  ip_model :: "string option"
  ip_archetype :: string
  ip_family :: string
  ip_variant :: string
  ip_sizeInches :: "string option"
  ip_runtimeId :: string
  ip_osVersion :: string
  ip_compatibility :: string

record android_profile =
  ap_profileId :: string
  ap_archetype :: string
  ap_memoryMb :: "int option"
  ap_ram :: "int option option"
  ap_cores :: "int option option"
  ap_systemImage :: string
  ap_osVersion :: string
  ap_precision :: string
  ap_apiLevel :: int
  ap_abi :: string
  ap_flavor :: string

record watch_profile =
  wp_runtime :: string
  wp_deviceType :: string

datatype native_profile = PIos ios_profile | PAndroid android_profile | PWatch watch_profile

definition variantsOf :: "string \<Rightarrow> string list" where
  "variantsOf family =
     (if family = ''iphone'' then [''standard'', ''pro'', ''pro-max'', ''air'']
      else if family = ''ipad'' then [''standard'', ''mini'', ''air'', ''pro'']
      else if family = ''duo'' then [''duo''] else [])"

text \<open>\<open>iosModelType\<close>: only the iPad case declares (and so keeps) \<open>sizeInches\<close>.\<close>

definition iosModelType :: "json \<Rightarrow> (string \<times> string \<times> string option) option" where
  "iosModelType j =
     Option.bind (enumString [''iphone'', ''ipad'', ''duo''] j ''family'') (\<lambda>f.
     Option.bind (enumString (variantsOf f) j ''variant'') (\<lambda>v.
     if f = ''ipad'' then map_option (\<lambda>s. (f, v, s)) (optionalString 0 j ''sizeInches'')
     else Some (f, v, None)))"

definition iosProfile :: "json \<Rightarrow> ios_profile option" where
  "iosProfile j =
     Option.bind (requiredString j ''simulatorDeviceTypeIdentifier'') (\<lambda>t.
     Option.bind (optionalString 1 j ''modelIdentifier'') (\<lambda>m.
     Option.bind (enumString [''phone'', ''tablet'', ''duo''] j ''archetype'') (\<lambda>a.
     Option.bind (Option.bind (field j ''modelType'') iosModelType) (\<lambda>(f, v, s).
     Option.bind (requiredString j ''runtimeId'') (\<lambda>r.
     Option.bind (versionString j ''osVersion'') (\<lambda>ov.
     Option.bind (enumString [''supported'', ''unknown''] j ''compatibility'') (\<lambda>c.
     Some \<lparr>ip_deviceType = t, ip_model = m, ip_archetype = a, ip_family = f, ip_variant = v,
           ip_sizeInches = s, ip_runtimeId = r, ip_osVersion = ov, ip_compatibility = c\<rparr>)))))))"

definition androidProfile :: "json \<Rightarrow> android_profile option" where
  "androidProfile j =
     Option.bind (requiredString j ''profileId'') (\<lambda>p.
     Option.bind (enumString [''phone'', ''tablet'', ''foldable''] j ''archetype'') (\<lambda>a.
     Option.bind (optionalPositive j ''memoryMb'') (\<lambda>m.
     Option.bind (nullablePositive j ''effectiveRamMb'') (\<lambda>r.
     Option.bind (nullablePositive j ''effectiveCpuCores'') (\<lambda>c.
     Option.bind (requiredString j ''systemImagePackage'') (\<lambda>i.
     Option.bind (versionString j ''osVersion'') (\<lambda>ov.
     Option.bind (enumString [''major'', ''minor'', ''patch''] j ''versionPrecision'') (\<lambda>vp.
     Option.bind (positiveNumber j ''apiLevel'') (\<lambda>l.
     Option.bind (requiredString j ''abi'') (\<lambda>b.
     Option.bind (requiredString j ''flavor'') (\<lambda>fl.
     Some \<lparr>ap_profileId = p, ap_archetype = a, ap_memoryMb = m, ap_ram = r, ap_cores = c,
           ap_systemImage = i, ap_osVersion = ov, ap_precision = vp, ap_apiLevel = l, ap_abi = b,
           ap_flavor = fl\<rparr>)))))))))))"

definition watchProfile :: "json \<Rightarrow> watch_profile option" where
  "watchProfile j =
     Option.bind (requiredString j ''runtime'') (\<lambda>r.
     Option.bind (requiredString j ''deviceType'') (\<lambda>t.
     Some \<lparr>wp_runtime = r, wp_deviceType = t\<rparr>))"

definition exactProfile :: "json \<Rightarrow> native_profile option" where
  "exactProfile j =
     (if field j ''metadataState'' \<noteq> Some (JStr ''current'') then None
      else if field j ''platform'' = Some (JStr ''ios'') then map_option PIos (iosProfile j)
      else if field j ''platform'' = Some (JStr ''android'') then map_option PAndroid (androidProfile j)
      else if field j ''platform'' = Some (JStr ''watchos'') then map_option PWatch (watchProfile j)
      else None)"

section \<open>Writing a profile\<close>

definition entryOf :: "string \<Rightarrow> ('a \<Rightarrow> json) \<Rightarrow> 'a option \<Rightarrow> (string \<times> json) list" where
  "entryOf k f v = (case v of None \<Rightarrow> [] | Some x \<Rightarrow> [(k, f x)])"

definition nullable :: "('a \<Rightarrow> json) \<Rightarrow> 'a option \<Rightarrow> json" where
  "nullable f v = (case v of None \<Rightarrow> JNull | Some x \<Rightarrow> f x)"

definition iosEntries :: "ios_profile \<Rightarrow> (string \<times> json) list" where
  "iosEntries p =
     [(''platform'', JStr ''ios''), (''metadataState'', JStr ''current''),
      (''simulatorDeviceTypeIdentifier'', JStr (ip_deviceType p))] @
     entryOf ''modelIdentifier'' JStr (ip_model p) @
     [(''archetype'', JStr (ip_archetype p)),
      (''modelType'', JObj ([(''family'', JStr (ip_family p)), (''variant'', JStr (ip_variant p))] @
         entryOf ''sizeInches'' JStr (ip_sizeInches p))),
      (''runtimeId'', JStr (ip_runtimeId p)), (''osVersion'', JStr (ip_osVersion p)),
      (''compatibility'', JStr (ip_compatibility p))]"

definition androidEntries :: "android_profile \<Rightarrow> (string \<times> json) list" where
  "androidEntries p =
     [(''platform'', JStr ''android''), (''metadataState'', JStr ''current''),
      (''profileId'', JStr (ap_profileId p)), (''archetype'', JStr (ap_archetype p))] @
     entryOf ''memoryMb'' JNum (ap_memoryMb p) @
     entryOf ''effectiveRamMb'' (nullable JNum) (ap_ram p) @
     entryOf ''effectiveCpuCores'' (nullable JNum) (ap_cores p) @
     [(''systemImagePackage'', JStr (ap_systemImage p)), (''osVersion'', JStr (ap_osVersion p)),
      (''versionPrecision'', JStr (ap_precision p)), (''apiLevel'', JNum (ap_apiLevel p)),
      (''abi'', JStr (ap_abi p)), (''flavor'', JStr (ap_flavor p))]"

definition watchEntries :: "watch_profile \<Rightarrow> (string \<times> json) list" where
  "watchEntries p =
     [(''platform'', JStr ''watchos''), (''metadataState'', JStr ''current''),
      (''runtime'', JStr (wp_runtime p)), (''deviceType'', JStr (wp_deviceType p))]"

definition profileEntries :: "native_profile \<Rightarrow> (string \<times> json) list" where
  "profileEntries p = (case p of PIos i \<Rightarrow> iosEntries i | PAndroid a \<Rightarrow> androidEntries a
     | PWatch w \<Rightarrow> watchEntries w)"

definition profileJson :: "native_profile \<Rightarrow> json" where
  "profileJson p = JObj (profileEntries p)"

section \<open>Stored resources\<close>

definition nativeProfile :: "json \<Rightarrow> native_profile res" where
  "nativeProfile stored =
     (case Option.bind (field stored ''profile'') exactProfile of
        Some p \<Rightarrow> Inr p
      | None \<Rightarrow> Inl (ActionableError ''Stored session device profile is incomplete''))"

definition poolProfile :: "json \<Rightarrow> native_profile res" where
  "poolProfile v = nativeProfile v"

text \<open>Assigning a key of an object: an existing key keeps its place, a new one goes last.\<close>

fun setKey :: "string \<Rightarrow> json \<Rightarrow> (string \<times> json) list \<Rightarrow> (string \<times> json) list" where
  "setKey k v [] = [(k, v)]"
| "setKey k v ((k', v') # kvs) = (if k' = k then (k, v) # kvs else (k', v') # setKey k v kvs)"

definition objectEntries :: "json \<Rightarrow> (string \<times> json) list" where
  "objectEntries j = (case j of JObj kvs \<Rightarrow> kvs | _ \<Rightarrow> [])"

definition flatNull :: "int option option \<Rightarrow> json" where
  "flatNull v = (case v of Some (Some n) \<Rightarrow> JNum n | _ \<Rightarrow> JNull)"

text \<open>\<open>activationHardware\<close>: the new profile column, or \<open>None\<close> when it is left alone.\<close>

definition activationHardware :: "json \<Rightarrow> native_profile option \<Rightarrow> json option res" where
  "activationHardware stored profile =
     (case profile of
        Some (PAndroid a) \<Rightarrow>
          rbind (nativeProfile stored) (\<lambda>p.
          Inr (Some (JObj (setKey ''profile''
            (JObj (setKey ''effectiveCpuCores'' (flatNull (ap_cores a))
               (setKey ''effectiveRamMb'' (flatNull (ap_ram a)) (profileEntries p))))
            (objectEntries stored)))))
      | _ \<Rightarrow> Inr None)"

text \<open>
  \<open>brokerReceiptProfile\<close>: \<open>bound\<close> says the binding has a device, \<open>hardware\<close> is what reading its
  AVD configuration gave (\<open>None\<close> when there is no reader, no file, or the read failed).
\<close>

definition brokerReceiptProfile ::
  "native_profile \<Rightarrow> bool \<Rightarrow> (int option \<times> int option) option \<Rightarrow> native_profile" where
  "brokerReceiptProfile p bound hardware =
     (case p of
        PAndroid a \<Rightarrow>
          (let h = (if bound then hardware else None) in
           PAndroid (a\<lparr>ap_ram := Some (Option.bind h fst), ap_cores := Some (Option.bind h snd)\<rparr>))
      | _ \<Rightarrow> p)"

section \<open>Lemmas\<close>

lemmas schema_defs = requiredString_def optionalString_def enumString_def positiveNumber_def
  optionalPositive_def nullablePositive_def versionString_def

lemma map_of_setKey: "map_of (setKey k v kvs) k' = (if k' = k then Some v else map_of kvs k')"
  by (induction k v kvs rule: setKey.induct) auto

lemma schema_results:
  "requiredString j k = Some s \<Longrightarrow> s \<noteq> []"
  "optionalString n j k = Some (Some s) \<Longrightarrow> n \<le> length s"
  "enumString vs j k = Some s \<Longrightarrow> List.member vs s"
  "positiveNumber j k = Some n' \<Longrightarrow> 0 < n'"
  "optionalPositive j k = Some (Some n') \<Longrightarrow> 0 < n'"
  "nullablePositive j k = Some (Some (Some n')) \<Longrightarrow> 0 < n'"
  "versionString j k = Some s \<Longrightarrow> versionFrom False s"
  by (auto simp: schema_defs split: option.splits json.splits if_splits)

lemma optionalString_nonempty [simp]: "optionalString (Suc 0) j k \<noteq> Some (Some [])"
  using schema_results(2) by fastforce

text \<open>What the schema guarantees of an accepted profile.\<close>

definition ios_ok :: "ios_profile \<Rightarrow> bool" where
  "ios_ok p \<longleftrightarrow> ip_deviceType p \<noteq> [] \<and> ip_model p \<noteq> Some [] \<and>
     List.member [''phone'', ''tablet'', ''duo''] (ip_archetype p) \<and>
     List.member (variantsOf (ip_family p)) (ip_variant p) \<and>
     List.member [''iphone'', ''ipad'', ''duo''] (ip_family p) \<and>
     (ip_family p \<noteq> ''ipad'' \<longrightarrow> ip_sizeInches p = None) \<and> ip_runtimeId p \<noteq> [] \<and>
     versionFrom False (ip_osVersion p) \<and> List.member [''supported'', ''unknown''] (ip_compatibility p)"

definition android_ok :: "android_profile \<Rightarrow> bool" where
  "android_ok p \<longleftrightarrow> ap_profileId p \<noteq> [] \<and>
     List.member [''phone'', ''tablet'', ''foldable''] (ap_archetype p) \<and>
     (\<forall>n. ap_memoryMb p = Some n \<longrightarrow> 0 < n) \<and> (\<forall>n. ap_ram p = Some (Some n) \<longrightarrow> 0 < n) \<and>
     (\<forall>n. ap_cores p = Some (Some n) \<longrightarrow> 0 < n) \<and> ap_systemImage p \<noteq> [] \<and>
     versionFrom False (ap_osVersion p) \<and> List.member [''major'', ''minor'', ''patch''] (ap_precision p) \<and>
     0 < ap_apiLevel p \<and> ap_abi p \<noteq> [] \<and> ap_flavor p \<noteq> []"

lemma iosProfile_ok: "iosProfile j = Some p \<Longrightarrow> ios_ok p"
  unfolding iosProfile_def iosModelType_def ios_ok_def
  by (auto simp: bind_eq_Some_conv schema_results split: if_splits dest: schema_results)

lemma androidProfile_ok: "androidProfile j = Some p \<Longrightarrow> android_ok p"
  unfolding androidProfile_def android_ok_def
  by (auto simp: bind_eq_Some_conv dest: schema_results)

lemma androidProfile_print: "android_ok p \<Longrightarrow> androidProfile (JObj (androidEntries p)) = Some p"
  by (cases p; cases "ap_memoryMb p"; cases "ap_ram p"; cases "ap_cores p")
     (simp_all add: androidProfile_def androidEntries_def entryOf_def schema_defs nullable_def
       android_ok_def split: option.splits)

lemma iosProfile_print: "ios_ok p \<Longrightarrow> iosProfile (JObj (iosEntries p)) = Some p"
  by (cases p; cases "ip_model p"; cases "ip_sizeInches p")
     (auto simp: iosProfile_def iosModelType_def iosEntries_def entryOf_def schema_defs ios_ok_def Suc_le_eq
       split: option.splits)

definition watch_ok :: "watch_profile \<Rightarrow> bool" where
  "watch_ok p \<longleftrightarrow> wp_runtime p \<noteq> [] \<and> wp_deviceType p \<noteq> []"

lemma watchProfile_ok: "watchProfile j = Some p \<Longrightarrow> watch_ok p"
  by (auto simp: watchProfile_def watch_ok_def bind_eq_Some_conv dest: schema_results)

lemma watchProfile_print: "watch_ok p \<Longrightarrow> watchProfile (JObj (watchEntries p)) = Some p"
  by (cases p) (simp add: watchProfile_def watchEntries_def schema_defs watch_ok_def)

definition profile_ok :: "native_profile \<Rightarrow> bool" where
  "profile_ok p = (case p of PIos i \<Rightarrow> ios_ok i | PAndroid a \<Rightarrow> android_ok a | PWatch w \<Rightarrow> watch_ok w)"

lemma exactProfile_ok: "exactProfile j = Some p \<Longrightarrow> profile_ok p"
  by (auto simp: exactProfile_def profile_ok_def iosProfile_ok androidProfile_ok watchProfile_ok
      split: if_splits)

lemma profileEntries_tags:
  "map_of (iosEntries i) ''metadataState'' = Some (JStr ''current'')"
  "map_of (iosEntries i) ''platform'' = Some (JStr ''ios'')"
  "map_of (androidEntries a) ''metadataState'' = Some (JStr ''current'')"
  "map_of (androidEntries a) ''platform'' = Some (JStr ''android'')"
  "map_of (watchEntries w) ''metadataState'' = Some (JStr ''current'')"
  "map_of (watchEntries w) ''platform'' = Some (JStr ''watchos'')"
  by (simp_all add: iosEntries_def androidEntries_def watchEntries_def)

lemma exactProfile_print: "profile_ok p \<Longrightarrow> exactProfile (profileJson p) = Some p"
  by (cases p) (simp_all add: exactProfile_def profileJson_def profileEntries_def profile_ok_def
      profileEntries_tags iosProfile_print androidProfile_print watchProfile_print)

text \<open>A parser reads an object only through its fields.\<close>

lemma exactProfile_cong:
  assumes "\<And>k. field j k = field j' k"
  shows "exactProfile j = exactProfile j'"
  by (simp add: exactProfile_def iosProfile_def androidProfile_def watchProfile_def schema_defs assms)

definition withHardware :: "native_profile \<Rightarrow> android_profile \<Rightarrow> native_profile" where
  "withHardware p hw =
     (case p of PAndroid a \<Rightarrow> PAndroid (a\<lparr>ap_ram := Some (Option.bind (ap_ram hw) id),
                                      ap_cores := Some (Option.bind (ap_cores hw) id)\<rparr>)
      | _ \<Rightarrow> p)"

lemma androidEntries_hardware:
  "map_of (setKey ''effectiveCpuCores'' (flatNull (ap_cores hw))
     (setKey ''effectiveRamMb'' (flatNull (ap_ram hw)) (androidEntries a))) =
   map_of (androidEntries (a\<lparr>ap_ram := Some (Option.bind (ap_ram hw) id),
                             ap_cores := Some (Option.bind (ap_cores hw) id)\<rparr>))"
  by (rule ext) (auto simp: map_of_setKey androidEntries_def entryOf_def flatNull_def nullable_def
      split: option.splits)

lemma hardware_ignored:
  "exactProfile (JObj (setKey ''effectiveCpuCores'' c (setKey ''effectiveRamMb'' r (iosEntries i)))) =
     exactProfile (JObj (iosEntries i))"
  "exactProfile (JObj (setKey ''effectiveCpuCores'' c (setKey ''effectiveRamMb'' r (watchEntries w)))) =
     exactProfile (JObj (watchEntries w))"
  by (simp_all add: exactProfile_def map_of_setKey profileEntries_tags iosProfile_def watchProfile_def
      schema_defs)

lemma activation_profile:
  assumes "profile_ok p" and "android_ok hw"
  shows "exactProfile (JObj (setKey ''effectiveCpuCores'' (flatNull (ap_cores hw))
     (setKey ''effectiveRamMb'' (flatNull (ap_ram hw)) (profileEntries p)))) = Some (withHardware p hw)"
proof (cases p)
  case (PAndroid a)
  let ?a = "a\<lparr>ap_ram := Some (Option.bind (ap_ram hw) id), ap_cores := Some (Option.bind (ap_cores hw) id)\<rparr>"
  have "android_ok ?a"
    using assms PAndroid by (auto simp: profile_ok_def android_ok_def bind_eq_Some_conv)
  then have "exactProfile (profileJson (PAndroid ?a)) = Some (PAndroid ?a)"
    by (simp add: exactProfile_print profile_ok_def)
  moreover have "exactProfile (JObj (setKey ''effectiveCpuCores'' (flatNull (ap_cores hw))
     (setKey ''effectiveRamMb'' (flatNull (ap_ram hw)) (profileEntries p)))) =
     exactProfile (profileJson (PAndroid ?a))"
    by (rule exactProfile_cong)
       (simp add: PAndroid profileJson_def profileEntries_def androidEntries_hardware)
  ultimately show ?thesis by (simp add: PAndroid withHardware_def)
next
  case (PIos i)
  with assms exactProfile_print [of p] show ?thesis
    by (simp add: profileEntries_def hardware_ignored withHardware_def profileJson_def)
next
  case (PWatch w)
  with assms exactProfile_print [of p] show ?thesis
    by (simp add: profileEntries_def hardware_ignored withHardware_def profileJson_def)
qed

text \<open>
  Recording the launch hardware never changes the configured identity: the rewritten column parses
  to the stored profile with only the two effective-hardware fields replaced.
\<close>

lemma activationHardware_roundtrip:
  assumes "nativeProfile stored = Inr p" and "android_ok hw"
  shows "\<exists>j. activationHardware stored (Some (PAndroid hw)) = Inr (Some j) \<and>
     nativeProfile j = Inr (withHardware p hw)"
proof -
  have "profile_ok p"
    using assms(1) exactProfile_ok
    by (auto simp: nativeProfile_def bind_eq_Some_conv split: option.splits)
  from activation_profile [OF this assms(2)] show ?thesis
    using assms(1) by (simp add: activationHardware_def nativeProfile_def [of "JObj kvs" for kvs]
        map_of_setKey)
qed

lemma nativeProfile_ok: "nativeProfile stored = Inr p \<Longrightarrow> profile_ok p"
  using exactProfile_ok by (auto simp: nativeProfile_def bind_eq_Some_conv split: option.splits)

end
