(* ===== verification/Timing.thy ===== *)
theory Timing
  imports Profile
begin

text \<open>
  Acquisition and reset timings of a request (src/src/devices/sessionBrokerResult.ts,
  src/src/daemon/sessionBroker/timingRecorder.ts and timingSchema.ts). Clock readings are integers
  (milliseconds), durations rationals. The timing column holds the JSON of a typed value, so the
  column is that value and \<open>parseTimingReceipt\<close> is its validation: a negative duration (a clock that
  went back), a negative reuse count or an unreadable profile column makes the whole receipt unread.
\<close>

section \<open>Data\<close>

datatype admission_kind = AReuse | ACreate | AEvictThenCreate | AWait

datatype acquisition_outcome = AqPending | AqReady | AqFailed

record acquisition_timing =
  aq_admission :: admission_kind
  aq_reuseCount :: int
  aq_outcome :: acquisition_outcome
  aq_startedAtMs :: int
  aq_completedAtMs :: "int option"
  aq_queueMs :: rat
  aq_admissionWaitMs :: rat
  aq_createMs :: "rat option"
  aq_bootMs :: "rat option"
  aq_automationReadyMs :: "rat option"
  aq_totalMs :: rat

datatype reset_mode = KeepBooted | Minimal | Erase | Snapshot | WipeData | NoReset

datatype reset_outcome = OClean | OPending | ODestroyed | OFallback reset_mode

record reset_timing =
  rt_mode :: reset_mode
  rt_outcome :: reset_outcome
  rt_retired :: "bool option"
  rt_phases :: "(string \<times> rat) list"
  rt_fallbackReason :: "string option"
  rt_reuseCount :: int
  rt_startedAtMs :: int
  rt_completedAtMs :: "int option"
  rt_totalMs :: rat

record session_timing =
  ti_acquisition :: "acquisition_timing option"
  ti_reset :: "reset_timing option"

record preparation_timing =
  pt_createMs :: "rat option"
  pt_bootMs :: "rat option"
  pt_automationReadyMs :: "rat option"

text \<open>The native reset's answer: a bare word, or a whole outcome with its phases.\<close>

record reset_report =
  rr_outcome :: reset_outcome
  rr_mode :: reset_mode
  rr_phases :: "(string \<times> rat) list"
  rr_fallbackReason :: "string option"

datatype reset_result = ResetClean | ResetPending | ResetReport reset_report

section \<open>The schema\<close>

definition optionalDuration :: "rat option \<Rightarrow> bool" where
  "optionalDuration d \<longleftrightarrow> (case d of None \<Rightarrow> True | Some v \<Rightarrow> 0 \<le> v)"

definition acquisition_valid :: "acquisition_timing \<Rightarrow> bool" where
  "acquisition_valid t \<longleftrightarrow> 0 \<le> aq_reuseCount t \<and> 0 \<le> aq_queueMs t \<and> 0 \<le> aq_admissionWaitMs t \<and>
     optionalDuration (aq_createMs t) \<and> optionalDuration (aq_bootMs t) \<and>
     optionalDuration (aq_automationReadyMs t) \<and> 0 \<le> aq_totalMs t"

definition reset_valid :: "reset_timing \<Rightarrow> bool" where
  "reset_valid t \<longleftrightarrow> rt_outcome t \<noteq> OFallback NoReset \<and> list_all (\<lambda>(_, d). 0 \<le> d) (rt_phases t) \<and>
     0 \<le> rt_reuseCount t \<and> 0 \<le> rt_totalMs t"

definition timing_valid :: "session_timing \<Rightarrow> bool" where
  "timing_valid t \<longleftrightarrow>
     (case ti_acquisition t of None \<Rightarrow> True | Some a \<Rightarrow> acquisition_valid a) \<and>
     (case ti_reset t of None \<Rightarrow> True | Some r \<Rightarrow> reset_valid r)"

definition parseTimingReceipt ::
  "session_timing \<Rightarrow> json option \<Rightarrow> (session_timing \<times> native_profile option) option" where
  "parseTimingReceipt t profile =
     (if \<not> timing_valid t then None
      else case profile of
             None \<Rightarrow> Some (t, None)
           | Some j \<Rightarrow> map_option (\<lambda>p. (t, Some p)) (exactProfile j))"

section \<open>Recording an acquisition\<close>

datatype pending_kind = KCreate | KReuse | KEvict | KWait

record timing_columns =
  tc_timing :: session_timing
  tc_profile :: json
  tc_updated :: int

definition admissionOf :: "pending_kind \<Rightarrow> admission_kind" where
  "admissionOf k = (case k of KCreate \<Rightarrow> ACreate | KReuse \<Rightarrow> AReuse | KEvict \<Rightarrow> AEvictThenCreate
     | KWait \<Rightarrow> AWait)"

definition ms :: "int \<Rightarrow> rat" where
  "ms t = of_int t"

text \<open>\<open>reused\<close>: a reused device was neither created nor booted.\<close>

definition reused :: "bool \<Rightarrow> acquisition_timing \<Rightarrow> acquisition_timing" where
  "reused b t = (if b then t\<lparr>aq_createMs := Some 0, aq_bootMs := Some 0\<rparr> else t)"

definition timingProfile :: "pending_kind \<Rightarrow> json \<Rightarrow> json \<Rightarrow> json res" where
  "timingProfile kind resourceProfile creationProfile =
     rbind (nativeProfile (if kind = KEvict then creationProfile else resourceProfile))
       (\<lambda>p. Inr (profileJson p))"

definition continuedAcquisitionTiming ::
  "acquisition_timing \<Rightarrow> session_timing \<Rightarrow> int \<Rightarrow> json \<Rightarrow> pending_kind \<Rightarrow> int \<Rightarrow> json \<Rightarrow>
   timing_columns option res" where
  "continuedAcquisitionTiming previous timing reuseCount resourceProfile kind now creationProfile =
     (if kind = KWait \<or>
         (aq_admission previous \<noteq> AWait \<and> aq_admission previous \<noteq> AReuse \<and>
          (kind \<noteq> KReuse \<or> aq_admission previous \<noteq> AEvictThenCreate))
      then Inr None
      else
        let acquisition = reused (kind = KReuse) (previous\<lparr>aq_admission := admissionOf kind,
              aq_reuseCount := (if kind = KReuse then reuseCount else 0),
              aq_admissionWaitMs := ms (now - aq_startedAtMs previous),
              aq_totalMs := ms (now - aq_startedAtMs previous)\<rparr>) in
        rbind (timingProfile kind resourceProfile creationProfile) (\<lambda>p.
        Inr (Some \<lparr>tc_timing = timing\<lparr>ti_acquisition := Some acquisition\<rparr>, tc_profile = p,
                   tc_updated = now\<rparr>)))"

definition pendingAcquisitionTiming ::
  "int option \<Rightarrow> session_timing option \<Rightarrow> int \<Rightarrow> json \<Rightarrow> pending_kind \<Rightarrow> int \<Rightarrow> json \<Rightarrow>
   timing_columns option res" where
  "pendingAcquisitionTiming startedAt timing reuseCount resourceProfile kind now creationProfile =
     (case startedAt of
        None \<Rightarrow> Inr None
      | Some started \<Rightarrow>
          (case Option.bind timing ti_acquisition of
             Some previous \<Rightarrow>
               continuedAcquisitionTiming previous (the timing) reuseCount resourceProfile kind now
                 creationProfile
           | None \<Rightarrow>
               let acquisition = reused (kind = KReuse)
                     \<lparr>aq_admission = admissionOf kind,
                      aq_reuseCount = (if kind = KReuse then reuseCount else 0),
                      aq_outcome = AqPending, aq_startedAtMs = started, aq_completedAtMs = None,
                      aq_queueMs = 0, aq_admissionWaitMs = ms (now - started), aq_createMs = None,
                      aq_bootMs = None, aq_automationReadyMs = None,
                      aq_totalMs = ms (now - started)\<rparr> in
               rbind (timingProfile kind resourceProfile creationProfile) (\<lambda>p.
               Inr (Some \<lparr>tc_timing = \<lparr>ti_acquisition = Some acquisition, ti_reset = None\<rparr>,
                          tc_profile = p, tc_updated = now\<rparr>))))"

definition overriding :: "'a option \<Rightarrow> 'a option \<Rightarrow> 'a option" where
  "overriding new old = (case new of None \<Rightarrow> old | Some v \<Rightarrow> Some v)"

definition completedAcquisitionTiming ::
  "session_timing option \<Rightarrow> int \<Rightarrow> json \<Rightarrow> preparation_timing option \<Rightarrow> int \<Rightarrow>
   timing_columns option res" where
  "completedAcquisitionTiming timing reuseCount resourceProfile phases now =
     (case Option.bind timing ti_acquisition of
        None \<Rightarrow> Inr None
      | Some previous \<Rightarrow>
          let spread = (case phases of None \<Rightarrow> previous
                | Some f \<Rightarrow> previous\<lparr>aq_createMs := overriding (pt_createMs f) (aq_createMs previous),
                    aq_bootMs := overriding (pt_bootMs f) (aq_bootMs previous),
                    aq_automationReadyMs := overriding (pt_automationReadyMs f)
                      (aq_automationReadyMs previous)\<rparr>);
              acquisition = (reused (aq_admission previous = AReuse) spread)\<lparr>
                aq_reuseCount := reuseCount, aq_outcome := AqReady, aq_completedAtMs := Some now,
                aq_totalMs := ms (now - aq_startedAtMs previous)\<rparr> in
          rbind (nativeProfile resourceProfile) (\<lambda>p.
          Inr (Some \<lparr>tc_timing = (the timing)\<lparr>ti_acquisition := Some acquisition\<rparr>,
                     tc_profile = profileJson p, tc_updated = now\<rparr>)))"

section \<open>Recording a reset\<close>

definition initialResetTiming :: "int \<Rightarrow> int \<Rightarrow> reset_timing" where
  "initialResetTiming reuseCount now =
     \<lparr>rt_mode = NoReset, rt_outcome = OPending, rt_retired = None, rt_phases = [],
      rt_fallbackReason = None, rt_reuseCount = reuseCount, rt_startedAtMs = now,
      rt_completedAtMs = None, rt_totalMs = 0\<rparr>"

text \<open>Object spread of phase durations: a phase of the report overrides one of the same name.\<close>

fun setPhase :: "string \<times> rat \<Rightarrow> (string \<times> rat) list \<Rightarrow> (string \<times> rat) list" where
  "setPhase (k, v) [] = [(k, v)]"
| "setPhase (k, v) ((k', v') # ps) = (if k' = k then (k, v) # ps else (k', v') # setPhase (k, v) ps)"

definition mergePhases :: "(string \<times> rat) list \<Rightarrow> (string \<times> rat) list \<Rightarrow> (string \<times> rat) list" where
  "mergePhases old new = fold setPhase new old"

definition mergeResetTiming :: "reset_timing \<Rightarrow> reset_result \<Rightarrow> reset_timing" where
  "mergeResetTiming t r =
     (case r of
        ResetClean \<Rightarrow> t\<lparr>rt_outcome := OClean\<rparr>
      | ResetPending \<Rightarrow> t\<lparr>rt_outcome := OPending\<rparr>
      | ResetReport rep \<Rightarrow>
          t\<lparr>rt_outcome := rr_outcome rep, rt_mode := rr_mode rep,
            rt_phases := mergePhases (rt_phases t) (rr_phases rep),
            rt_fallbackReason := overriding (rr_fallbackReason rep) (rt_fallbackReason t)\<rparr>)"

text \<open>\<open>report\<close> is the reset carried by a \<open>ResetFailureError\<close>, \<open>None\<close> for any other error.\<close>

definition failedResetTiming :: "reset_timing \<Rightarrow> reset_result option \<Rightarrow> string \<Rightarrow> reset_timing" where
  "failedResetTiming t report msg =
     (case report of None \<Rightarrow> t | Some r \<Rightarrow> mergeResetTiming t r)
       \<lparr>rt_outcome := OPending, rt_fallbackReason := Some msg\<rparr>"

definition destroyedResetTiming :: "reset_timing \<Rightarrow> int \<Rightarrow> reset_timing" where
  "destroyedResetTiming t now =
     t\<lparr>rt_outcome := ODestroyed, rt_retired := Some True, rt_completedAtMs := Some now,
       rt_totalMs := ms (now - rt_startedAtMs t)\<rparr>"

section \<open>Lemmas\<close>

lemma ms_nonneg [simp]: "0 \<le> ms t \<longleftrightarrow> 0 \<le> t"
  by (simp add: ms_def)

lemma reused_valid: "acquisition_valid t \<Longrightarrow> acquisition_valid (reused b t)"
  by (simp add: reused_def acquisition_valid_def optionalDuration_def)

lemma reused_simps [simp]:
  "aq_admission (reused b t) = aq_admission t" "aq_outcome (reused b t) = aq_outcome t"
  "aq_startedAtMs (reused b t) = aq_startedAtMs t"
  by (simp_all add: reused_def)

text \<open>A pending acquisition written under a clock that has not gone back is readable again.\<close>

lemma pendingAcquisitionTiming_valid:
  assumes "pendingAcquisitionTiming (Some started) timing n stored kind now created = Inr (Some c)"
    and "started \<le> now" and "0 \<le> n"
    and "\<And>t. timing = Some t \<Longrightarrow> timing_valid t \<and>
           (\<forall>a. ti_acquisition t = Some a \<longrightarrow> aq_startedAtMs a \<le> now)"
  shows "\<exists>p. parseTimingReceipt (tc_timing c) (Some (tc_profile c)) = Some (tc_timing c, Some p)"
proof -
  have rt: "exactProfile (profileJson p) = Some p" if "nativeProfile j = Inr p" for j p
    using nativeProfile_ok [OF that] by (rule exactProfile_print)
  show ?thesis
  proof (cases "Option.bind timing ti_acquisition")
    case None
    then show ?thesis
      using assms(1-3) rt
      by (auto simp: pendingAcquisitionTiming_def Let_def timingProfile_def parseTimingReceipt_def
          timing_valid_def intro!: reused_valid)
         (auto simp: acquisition_valid_def optionalDuration_def)
  next
    case (Some a)
    then obtain t where t: "timing = Some t" "ti_acquisition t = Some a"
      by (auto simp: bind_eq_Some_conv)
    then show ?thesis
      using assms rt Some
      by (auto simp: pendingAcquisitionTiming_def continuedAcquisitionTiming_def Let_def
          timingProfile_def parseTimingReceipt_def timing_valid_def split: if_splits
          intro!: reused_valid)
         (auto simp: acquisition_valid_def optionalDuration_def)
  qed
qed

lemma completedAcquisitionTiming_ready:
  assumes "completedAcquisitionTiming (Some t) n stored phases now = Inr (Some c)"
  shows "\<exists>a. ti_acquisition (tc_timing c) = Some a \<and> aq_outcome a = AqReady \<and>
     aq_completedAtMs a = Some now \<and> ti_reset (tc_timing c) = ti_reset t \<and>
     (\<forall>p. ti_acquisition t = Some p \<and> aq_admission p = AReuse \<longrightarrow>
        aq_createMs a = Some 0 \<and> aq_bootMs a = Some 0)"
  using assms
  by (auto simp: completedAcquisitionTiming_def Let_def reused_def split: option.splits)

end
