(* ===== verification/Store.thy ===== *)
theory Store
  imports BindingRegistry Admission Timing
begin

text \<open>
  The durable receipt and reservation store of the session broker
  (src/src/daemon/sessionBroker/sqliteStore.ts with sqliteReceipts.ts, sqliteRecords.ts,
  sqliteAdmissions.ts, sqliteStoreHelpers.ts, sqliteTimingStore.ts and store.ts). Its tables live in
  the registry's own database, so the state extends \<open>registry_db\<close>; every write is one transaction.

  \<^item> A \<open>BrokerRequestRecord\<close> is its row; \<open>receiptTiming\<close> and \<open>receiptProfile\<close> are the parsed timing
    columns of \<open>requestRecord\<close>. The owner column's \<open>restartHandoff\<close> mark is a field of its own.
  \<^item> \<open>matches\<close> and \<open>resolveCreation\<close> of an admission input are the pure callbacks of the caller; both
    may throw, so they return results. \<open>sha\<close> is SHA-256 of the JSON text of a value, \<open>live\<close> the
    process probe, \<open>lc\<close> \<open>localeCompare\<close>, \<open>newId\<close> the id the generator answers.
  \<^item> UNIQUE columns the code does not check beforehand (a session id, a new resource id) are checked
    where SQLite checks them, and a violation is a \<open>ConstraintError\<close> that aborts the transaction.
\<close>

section \<open>Tables\<close>

datatype request_state = Acquiring | RActive | Releasing | Released | Failed

record request_row =
  rq_id :: string
  rq_fingerprint :: string
  rq_parameters :: json
  rq_owner :: process_identity
  rq_handoff :: bool
  rq_state :: request_state
  rq_resource :: "string option"
  rq_session :: "string option"
  rq_error :: "string option"
  rq_code :: "string option"
  rq_retryable :: "bool option"
  rq_terminal :: "int option"
  rq_timing :: "session_timing option"
  rq_timing_profile :: "json option"
  rq_timing_at :: "int option"

record resource_row =
  rs_index :: int
  rs_id :: string
  rs_scope :: string
  rs_profile :: json
  rs_state :: resource_state
  rs_request :: "string option"
  rs_revision :: int
  rs_idle_order :: int
  rs_reuse :: int

record export_row =
  ex_prepare :: string
  ex_request :: string
  ex_digest :: string
  ex_created :: int
  ex_acknowledged :: "int option"

record broker_db = registry_db +
  requests :: "request_row list"
  resources :: "resource_row list"
  resource_seq :: int
  exports :: "export_row list"

type_synonym ticket = "string \<times> int"
type_synonym export_identity = "string \<times> string"

definition readRequest :: "broker_db \<Rightarrow> string \<Rightarrow> request_row option" where
  "readRequest db k = get_row rq_id k (requests db)"

definition readResource :: "broker_db \<Rightarrow> string \<Rightarrow> resource_row option" where
  "readResource db k = get_row rs_id k (resources db)"

definition readExport :: "broker_db \<Rightarrow> string \<Rightarrow> export_row option" where
  "readExport db k = get_row ex_prepare k (exports db)"

definition put_request :: "string \<Rightarrow> (request_row \<Rightarrow> request_row) \<Rightarrow> broker_db \<Rightarrow> broker_db" where
  "put_request k f db = db\<lparr>requests := update_where (\<lambda>r. rq_id r = k) f (requests db)\<rparr>"

definition put_resource :: "string \<Rightarrow> (resource_row \<Rightarrow> resource_row) \<Rightarrow> broker_db \<Rightarrow> broker_db" where
  "put_resource k f db = db\<lparr>resources := update_where (\<lambda>r. rs_id r = k) f (resources db)\<rparr>"

definition put_export :: "string \<Rightarrow> (export_row \<Rightarrow> export_row) \<Rightarrow> broker_db \<Rightarrow> broker_db" where
  "put_export k f db = db\<lparr>exports := update_where (\<lambda>r. ex_prepare r = k) f (exports db)\<rparr>"

interpretation request_table: row_store requests rq_id readRequest put_request
  by unfold_locales (simp_all add: readRequest_def put_request_def)

interpretation resource_table: row_store resources rs_id readResource put_resource
  by unfold_locales (simp_all add: readResource_def put_resource_def)

interpretation export_table: row_store exports ex_prepare readExport put_export
  by unfold_locales (simp_all add: readExport_def put_export_def)

definition getSession :: "broker_db \<Rightarrow> string \<Rightarrow> request_row option" where
  "getSession db s = List.find (\<lambda>r. rq_session r = Some s) (requests db)"

definition requestReceipt :: "request_row \<Rightarrow> (session_timing \<times> native_profile option) option" where
  "requestReceipt r = Option.bind (rq_timing r) (\<lambda>t. parseTimingReceipt t (rq_timing_profile r))"

definition receiptTiming :: "request_row \<Rightarrow> session_timing option" where
  "receiptTiming r = map_option fst (requestReceipt r)"

definition receiptProfile :: "request_row \<Rightarrow> native_profile option" where
  "receiptProfile r = Option.bind (requestReceipt r) snd"

section \<open>Helpers\<close>

definition isTerminalState :: "request_state \<Rightarrow> bool" where
  "isTerminalState s \<longleftrightarrow> s = Released \<or> s = Failed"

definition sameProcess :: "process_identity \<Rightarrow> process_identity \<Rightarrow> bool" where
  "sameProcess l r \<longleftrightarrow> pi_daemonId l = pi_daemonId r \<and> pi_pid l = pi_pid r \<and> pi_token l = pi_token r"

definition truthy :: "string option \<Rightarrow> bool" where
  "truthy s \<longleftrightarrow> s \<noteq> None \<and> s \<noteq> Some []"

definition ownsReadyBinding :: "assignment_row option \<Rightarrow> string \<Rightarrow> process_identity \<Rightarrow> bool" where
  "ownsReadyBinding binding session owner \<longleftrightarrow>
     (case binding of None \<Rightarrow> False
      | Some b \<Rightarrow> truthy (as_device b) \<and> as_state b = Ready \<and> as_exec_session b = Some session \<and>
          as_exec_daemon b = Some (pi_daemonId owner) \<and> as_exec_pid b = Some (pi_pid owner) \<and>
          as_exec_token b = tokenColumn (pi_token owner))"

definition destructionTicket :: "resource_row \<Rightarrow> ticket" where
  "destructionTicket r = (rs_id r, rs_revision r)"

definition drainableIdle :: "resource_row \<Rightarrow> ticket list option \<Rightarrow> bool" where
  "drainableIdle r observed \<longleftrightarrow> rs_state r = Idle \<and>
     (case observed of None \<Rightarrow> True
      | Some ts \<Rightarrow> list_ex (\<lambda>(i, v). i = rs_id r \<and> v = rs_revision r) ts)"

definition binding_of :: "resource_row \<Rightarrow> binding_key" where
  "binding_of r = (rs_scope r, rs_index r)"

definition openJournal :: "broker_db \<Rightarrow> resource_row \<Rightarrow> journal_row option" where
  "openJournal db r = readOpenJournal db (binding_of r)"

definition physicalWorkPending :: "broker_db \<Rightarrow> resource_row \<Rightarrow> bool" where
  "physicalWorkPending db r \<longleftrightarrow>
     (case readAssignment db (binding_of r) of None \<Rightarrow> False
      | Some a \<Rightarrow> truthy (as_device a) \<or> truthy (as_exec_session a) \<or> as_state a = Settling \<or>
          as_state a = CleanupPending) \<or> openJournal db r \<noteq> None"

text \<open>\<open>ORDER BY allocation_index\<close>.\<close>

definition readResources :: "broker_db \<Rightarrow> bool \<Rightarrow> resource_row list" where
  "readResources db liveOnly =
     sort_key rs_index (filter (\<lambda>r. liveOnly \<longrightarrow> rs_state r \<noteq> Destroyed) (resources db))"

definition ownedRequest :: "broker_db \<Rightarrow> string \<Rightarrow> process_identity \<Rightarrow> request_row res" where
  "ownedRequest db k owner =
     rbind (requireValue (readRequest db k) ''Unknown session request'') (\<lambda>r.
     if sameProcess (rq_owner r) owner then Inr r else Inl (OwnerMismatchError (rq_handoff r)))"

definition ownedResource :: "broker_db \<Rightarrow> request_row \<Rightarrow> resource_row res" where
  "ownedResource db q =
     rbind (requireValue (rq_resource q) ''Request has no device reservation'') (\<lambda>k.
     rbind (requireValue (readResource db k) ''Request resource disappeared'') (\<lambda>r.
     if rs_request r = Some (rq_id q) then Inr r
     else Inl (InvariantError ''Session request no longer owns this device reservation'')))"

text \<open>\<open>updateResource\<close>: the changed columns and the revision after the one that was read.\<close>

definition updateResource ::
  "resource_row \<Rightarrow> (resource_row \<Rightarrow> resource_row) \<Rightarrow> broker_db \<Rightarrow> (resource_row \<times> broker_db) res" where
  "updateResource r f db =
     (let db1 = put_resource (rs_id r) (\<lambda>x. (f x)\<lparr>rs_revision := rs_revision r + 1\<rparr>) db in
      rbind (orThrow (readResource db1 (rs_id r))) (\<lambda>r1. Inr (r1, db1)))"

text \<open>\<open>updateRequest\<close>: entering a terminal state also stamps \<open>terminal_at_ms\<close>.\<close>

definition request_columns ::
  "int \<Rightarrow> request_state option \<Rightarrow> (request_row \<Rightarrow> request_row) \<Rightarrow> request_row \<Rightarrow> request_row" where
  "request_columns now st f r =
     (case st of None \<Rightarrow> f r
      | Some s \<Rightarrow> (f r)\<lparr>rq_state := s,
                       rq_terminal := (if isTerminalState s then Some now else rq_terminal (f r))\<rparr>)"

definition updateRequest ::
  "int \<Rightarrow> string \<Rightarrow> request_state option \<Rightarrow> (request_row \<Rightarrow> request_row) \<Rightarrow> broker_db \<Rightarrow>
   (request_row \<times> broker_db) res" where
  "updateRequest now k st f db =
     (let db1 = put_request k (request_columns now st f) db in
      rbind (orThrow (readRequest db1 k)) (\<lambda>r. Inr (r, db1)))"

definition timing_set :: "timing_columns option \<Rightarrow> request_row \<Rightarrow> request_row" where
  "timing_set c r =
     (case c of None \<Rightarrow> r
      | Some t \<Rightarrow> r\<lparr>rq_timing := Some (tc_timing t), rq_timing_profile := Some (tc_profile t),
                    rq_timing_at := Some (tc_updated t)\<rparr>)"

definition failure_set ::
  "string option \<Rightarrow> string option \<Rightarrow> bool option \<Rightarrow> request_row \<Rightarrow> request_row" where
  "failure_set e c rt r = r\<lparr>rq_error := e, rq_code := c, rq_retryable := rt\<rparr>"

section \<open>Identity of a request\<close>

definition SESSION_REQUEST_ABANDONED_CODE :: string where
  "SESSION_REQUEST_ABANDONED_CODE = ''session_request_abandoned''"

definition SESSION_REQUEST_ABANDONED_MESSAGE :: string where
  "SESSION_REQUEST_ABANDONED_MESSAGE = ''Session request was abandoned by its liveness owner''"

definition ABANDONED_REQUEST_PARAMETERS :: json where
  "ABANDONED_REQUEST_PARAMETERS = JObj [(''internalReceipt'', JStr SESSION_REQUEST_ABANDONED_CODE)]"

definition sessionRequestFingerprint :: "(json \<Rightarrow> string) \<Rightarrow> json \<Rightarrow> string \<Rightarrow> string" where
  "sessionRequestFingerprint sha parameters token =
     sha (sortValue (JObj [(''config'', parameters), (''livenessOwnerToken'', JStr token)]))"

definition abandonedRequestIdentity :: "(json \<Rightarrow> string) \<Rightarrow> string \<Rightarrow> string \<times> json" where
  "abandonedRequestIdentity sha token =
     (sessionRequestFingerprint sha ABANDONED_REQUEST_PARAMETERS token, ABANDONED_REQUEST_PARAMETERS)"

definition SESSION_OWNER_EXITED_CODE :: string where
  "SESSION_OWNER_EXITED_CODE = ''session_owner_exited''"

definition SESSION_OWNER_EXITED_MESSAGE :: string where
  "SESSION_OWNER_EXITED_MESSAGE =
     ''Session owner exited before relinquishing its device; cleanup remains owned by the broker''"

section \<open>Receipts: exports and retention\<close>

definition linkExport ::
  "string \<Rightarrow> export_identity option \<Rightarrow> int \<Rightarrow> broker_db \<Rightarrow> broker_db res" where
  "linkExport requestId identity now db =
     (case identity of
        None \<Rightarrow> Inr db
      | Some (prepareId, digest) \<Rightarrow>
          (case filter (\<lambda>e. ex_request e = requestId \<or> ex_prepare e = prepareId) (exports db) of
             [] \<Rightarrow> Inr (db\<lparr>exports := exports db @ [\<lparr>ex_prepare = prepareId, ex_request = requestId,
                     ex_digest = digest, ex_created = now, ex_acknowledged = None\<rparr>]\<rparr>)
           | [e] \<Rightarrow> if ex_request e = requestId \<and> ex_prepare e = prepareId \<and> ex_digest e = digest
                    then Inr db else Inl ExportIdentityMismatchError
           | _ \<Rightarrow> Inl ExportIdentityMismatchError))"

definition linkRequestExport ::
  "string \<Rightarrow> string \<Rightarrow> export_identity \<Rightarrow> int \<Rightarrow> broker_db \<Rightarrow> broker_db res" where
  "linkRequestExport requestId fingerprint identity now db =
     (case readRequest db requestId of
        None \<Rightarrow> Inl ExportIdentityMismatchError
      | Some r \<Rightarrow> if rq_fingerprint r \<noteq> fingerprint then Inl ExportIdentityMismatchError
                  else linkExport requestId (Some identity) now db)"

definition acknowledgeExport :: "string \<Rightarrow> int \<Rightarrow> broker_db \<Rightarrow> export_row option \<times> broker_db" where
  "acknowledgeExport prepareId now db =
     (let db1 = put_export prepareId (\<lambda>e. if ex_acknowledged e = None
                  then e\<lparr>ex_acknowledged := Some now\<rparr> else e) db in
      (readExport db1 prepareId, db1))"

definition unreferencedTombstone :: "broker_db \<Rightarrow> string option \<Rightarrow> resource_row \<Rightarrow> bool" where
  "unreferencedTombstone db only r \<longleftrightarrow> rs_state r = Destroyed \<and> rs_request r = None \<and>
     (case only of None \<Rightarrow> True | Some k \<Rightarrow> rs_id r = k) \<and>
     \<not> list_ex (\<lambda>q. rq_resource q = Some (rs_id r)) (requests db)"

definition deleteUnreferencedTombstones :: "string option \<Rightarrow> broker_db \<Rightarrow> broker_db" where
  "deleteUnreferencedTombstones only db =
     db\<lparr>resources := delete_where (unreferencedTombstone db only) (resources db)\<rparr>"

definition stamp_terminal :: "int \<Rightarrow> request_row \<Rightarrow> request_row" where
  "stamp_terminal now r =
     (if isTerminalState (rq_state r) \<and> rq_terminal r = None then r\<lparr>rq_terminal := Some now\<rparr> else r)"

definition prunable :: "broker_db \<Rightarrow> int \<Rightarrow> int \<Rightarrow> int \<Rightarrow> request_row \<Rightarrow> bool" where
  "prunable db now retention exportRetention r \<longleftrightarrow> isTerminalState (rq_state r) \<and>
     (case rq_terminal r of None \<Rightarrow> False | Some t \<Rightarrow> t \<le> now - retention) \<and>
     \<not> list_ex (\<lambda>e. ex_request e = rq_id r \<and> ex_acknowledged e = None \<and>
         ex_created e > now - exportRetention) (exports db) \<and>
     \<not> list_ex (\<lambda>s. rs_request s = Some (rq_id r) \<and> rs_state s \<noteq> Destroyed) (resources db)"

definition expiredReceipts :: "broker_db \<Rightarrow> int \<Rightarrow> int \<Rightarrow> int \<Rightarrow> nat \<Rightarrow> string list" where
  "expiredReceipts db now retention exportRetention limit =
     map rq_id (take limit (sort_key (\<lambda>r. (the (rq_terminal r), rq_id r))
       (filter (prunable db now retention exportRetention) (requests db))))"

definition forget_receipts :: "string list \<Rightarrow> broker_db \<Rightarrow> broker_db" where
  "forget_receipts ids db =
     db\<lparr>resources := update_where (\<lambda>s. \<exists>k\<in>set ids. rs_request s = Some k) (rs_request_update (\<lambda>_. None))
          (resources db),
        exports := delete_where (\<lambda>e. List.member ids (ex_request e)) (exports db),
        requests := delete_where (\<lambda>r. List.member ids (rq_id r)) (requests db)\<rparr>"

definition pruneTerminalRequests ::
  "int \<Rightarrow> int \<Rightarrow> int \<Rightarrow> int \<Rightarrow> broker_db \<Rightarrow> (int \<times> broker_db) res" where
  "pruneTerminalRequests now retention limit exportRetention db =
     rbind (ensure (0 \<le> retention \<and> 0 \<le> exportRetention \<and> 1 \<le> limit)
       (ActionableError ''Receipt retention needs a non-negative window and a positive limit'')) (\<lambda>_.
     let db1 = db\<lparr>requests := map (stamp_terminal now) (requests db)\<rparr>;
         ids = expiredReceipts db1 now retention exportRetention (nat limit) in
     Inr (int (length ids),
          deleteUnreferencedTombstones None (if ids = [] then db1 else forget_receipts ids db1)))"

section \<open>Admission\<close>

definition countSessionAdmissions :: "broker_db \<Rightarrow> string \<Rightarrow> int" where
  "countSessionAdmissions db k =
     int (length (filter (\<lambda>q. rq_state q \<noteq> Released \<and> rq_id q \<noteq> k \<and>
       (rq_state q \<noteq> Failed \<or>
        list_ex (\<lambda>s. rq_resource q = Some (rs_id s) \<and> rs_request s = Some (rq_id q) \<and>
           rs_state s \<noteq> Destroyed) (resources db))) (requests db)))"

definition occupiedView :: "resource_row \<Rightarrow> resource_view" where
  "occupiedView r = \<lparr>rv_id = rs_id r, rv_state = rs_state r, rv_idleOrder = rs_idle_order r,
     rv_compatible = False, rv_expectedReadyMs = None\<rparr>"

definition occupiedResources :: "resource_row list \<Rightarrow> resource_view list" where
  "occupiedResources rs = map occupiedView (filter (\<lambda>r. rs_state r \<noteq> Destroyed) rs)"

record reset_readiness =
  ri_thresholdMs :: rat
  ri_expectedReadyMs :: "string \<Rightarrow> rat option"
  ri_canWait :: "string \<Rightarrow> bool"

record admission_input =
  ai_requestId :: string
  ai_fingerprint :: string
  ai_parameters :: json
  ai_owner :: process_identity
  ai_export :: "export_identity option"
  ai_limits :: broker_limits
  ai_startedAtMs :: "int option"
  ai_readiness :: "reset_readiness option"
  ai_matches :: "json \<Rightarrow> bool res"
  ai_resolveCreation :: "json res"

datatype broker_admission =
    BExisting request_row
  | BWait request_row string rat
  | BCreate request_row resource_row
  | BReuse request_row resource_row
  | BEvict request_row resource_row
  | BRefused request_row refusal_reason

definition expectedReady :: "reset_readiness option \<Rightarrow> string \<Rightarrow> rat option" where
  "expectedReady ri k =
     (case ri of None \<Rightarrow> None
      | Some i \<Rightarrow> if \<not> ri_canWait i k then None else ri_expectedReadyMs i k)"

definition compatibleView :: "admission_input \<Rightarrow> resource_row \<Rightarrow> resource_view res" where
  "compatibleView inp r =
     rbind (if rs_state r = Idle \<or> rs_state r = Resetting then ai_matches inp (rs_profile r)
            else Inr False) (\<lambda>m.
     Inr ((occupiedView r)\<lparr>rv_compatible := m,
            rv_expectedReadyMs := expectedReady (ai_readiness inp) (rs_id r)\<rparr>))"

fun rmap :: "('a \<Rightarrow> 'b res) \<Rightarrow> 'a list \<Rightarrow> 'b list res" where
  "rmap f [] = Inr []"
| "rmap f (x # xs) = rbind (f x) (\<lambda>y. rbind (rmap f xs) (\<lambda>ys. Inr (y # ys)))"

definition reserveDecision ::
  "string cmp \<Rightarrow> string \<Rightarrow> admission_input \<Rightarrow> broker_db \<Rightarrow> admission_decision res" where
  "reserveDecision lc requestId inp db =
     rbind (rmap (compatibleView inp) (readResources db True)) (\<lambda>views.
     selectAdmission lc \<lparr>activeOrAcquiringSessions = countSessionAdmissions db requestId,
         sn_resources = views, resetWaitThresholdMs = map_option ri_thresholdMs (ai_readiness inp)\<rparr>
       (ai_limits inp))"

definition fresh_resource :: "int \<Rightarrow> string \<Rightarrow> string \<Rightarrow> json \<Rightarrow> string \<Rightarrow> resource_row" where
  "fresh_resource i k scope profile q = \<lparr>rs_index = i, rs_id = k, rs_scope = scope,
     rs_profile = profile, rs_state = Reserved, rs_request = Some q, rs_revision = 1,
     rs_idle_order = 0, rs_reuse = 0\<rparr>"

definition insertResource ::
  "string \<Rightarrow> string \<Rightarrow> json \<Rightarrow> string \<Rightarrow> broker_db \<Rightarrow> (resource_row \<times> broker_db) res" where
  "insertResource newId scope profile q db =
     (if readResource db newId \<noteq> None then Inl (ConstraintError ''session_broker_resources.resource_id'')
      else let r = fresh_resource (resource_seq db + 1) newId scope profile q in
           Inr (r, db\<lparr>resources := resources db @ [r], resource_seq := resource_seq db + 1\<rparr>))"

definition finish_reserve ::
  "int \<Rightarrow> admission_input \<Rightarrow> request_row \<Rightarrow> pending_kind \<Rightarrow> json \<Rightarrow> resource_row \<Rightarrow> broker_db \<Rightarrow>
   (request_row \<times> broker_db) res" where
  "finish_reserve now inp q kind creation r db =
     rbind (pendingAcquisitionTiming (ai_startedAtMs inp) (receiptTiming q) (rs_reuse r)
              (rs_profile r) kind now creation) (\<lambda>c.
     updateRequest now (rq_id q) None
       (\<lambda>x. timing_set c (x\<lparr>rq_resource := Some (rs_id r)\<rparr>)) db)"

definition reserve ::
  "string cmp \<Rightarrow> int \<Rightarrow> string \<Rightarrow> string \<Rightarrow> request_row \<Rightarrow> admission_input \<Rightarrow> broker_db \<Rightarrow>
   (broker_admission \<times> broker_db) res" where
  "reserve lc now newId scope q inp db =
     rbind (reserveDecision lc (rq_id q) inp db) (\<lambda>decision.
     case decision of
       DWait k wait \<Rightarrow>
         rbind (requireValue (List.find (\<lambda>r. rs_id r = k) (readResources db True))
           ''Waiting resource disappeared'') (\<lambda>r.
         rbind (pendingAcquisitionTiming (ai_startedAtMs inp) (receiptTiming q) (rs_reuse r)
           (rs_profile r) KWait now JNull) (\<lambda>c.
         rbind (updateRequest now (rq_id q) None (timing_set c) db) (\<lambda>(q1, db1).
         Inr (BWait q1 k wait, db1))))
     | DRefuse reason \<Rightarrow>
         rbind (updateRequest now (rq_id q) (Some Failed)
           (failure_set (Some (case reason of SessionCapReached \<Rightarrow> ''session-cap-reached''
                                | TotalDeviceCapReached \<Rightarrow> ''total-device-cap-reached''
                                | TotalDeviceCapExceeded \<Rightarrow> ''total-device-cap-exceeded''))
              (Some ''capacity_exhausted'') (Some True)) db) (\<lambda>(q1, db1).
         Inr (BRefused q1 reason, db1))
     | DReuse k \<Rightarrow>
         rbind (requireValue (List.find (\<lambda>r. rs_id r = k) (readResources db True))
           ''Admission resource disappeared'') (\<lambda>r.
         rbind (updateResource r (\<lambda>x. x\<lparr>rs_state := Reserved, rs_request := Some (rq_id q),
                                    rs_reuse := rs_reuse r + 1\<rparr>) db) (\<lambda>(r1, db1).
         rbind (finish_reserve now inp q KReuse JNull r1 db1) (\<lambda>(q1, db2).
         Inr (BReuse q1 r1, db2))))
     | DEvict k \<Rightarrow>
         rbind (ai_resolveCreation inp) (\<lambda>creation.
         rbind (requireValue (List.find (\<lambda>r. rs_id r = k) (readResources db True))
           ''Admission resource disappeared'') (\<lambda>r.
         rbind (updateResource r (\<lambda>x. x\<lparr>rs_state := Destroying, rs_request := Some (rq_id q),
                                    rs_reuse := rs_reuse r\<rparr>) db) (\<lambda>(r1, db1).
         rbind (finish_reserve now inp q KEvict creation r1 db1) (\<lambda>(q1, db2).
         Inr (BEvict q1 r1, db2)))))
     | DCreate \<Rightarrow>
         rbind (ai_resolveCreation inp) (\<lambda>creation.
         rbind (insertResource newId scope creation (rq_id q) db) (\<lambda>(r1, db1).
         rbind (finish_reserve now inp q KCreate creation r1 db1) (\<lambda>(q1, db2).
         Inr (BCreate q1 r1, db2)))))"


definition fresh_request ::
  "string \<Rightarrow> string \<Rightarrow> json \<Rightarrow> process_identity \<Rightarrow> request_state \<Rightarrow> request_row" where
  "fresh_request k fingerprint parameters owner st = \<lparr>rq_id = k, rq_fingerprint = fingerprint,
     rq_parameters = parameters, rq_owner = owner, rq_handoff = False, rq_state = st,
     rq_resource = None, rq_session = None, rq_error = None, rq_code = None, rq_retryable = None,
     rq_terminal = None, rq_timing = None, rq_timing_profile = None, rq_timing_at = None\<rparr>"

definition insertRequest :: "request_row \<Rightarrow> broker_db \<Rightarrow> broker_db" where
  "insertRequest r db = db\<lparr>requests := requests db @ [r]\<rparr>"

definition assertIdentity :: "admission_input \<Rightarrow> unit res" where
  "assertIdentity inp = ensure (\<not> blank (ai_requestId inp) \<and> \<not> blank (ai_fingerprint inp))
     (ActionableError ''Session request identity and fingerprint must be non-empty'')"

definition recordPreAdmissionFailure ::
  "int \<Rightarrow> admission_input \<Rightarrow> string \<times> string \<times> bool \<Rightarrow> broker_db \<Rightarrow> (request_row \<times> broker_db) res" where
  "recordPreAdmissionFailure now inp failure db =
     rbind (assertIdentity inp) (\<lambda>_.
     case readRequest db (ai_requestId inp) of
       Some previous \<Rightarrow>
         if rq_fingerprint previous \<noteq> ai_fingerprint inp
         then Inl (ActionableError ''Session request identity was already used with different parameters'')
         else rbind (linkExport (ai_requestId inp) (ai_export inp) now db) (\<lambda>db1. Inr (previous, db1))
     | None \<Rightarrow>
         let (code, message, retryable) = failure;
             row = failure_set (Some message) (Some code) (Some retryable)
               ((fresh_request (ai_requestId inp) (ai_fingerprint inp) (ai_parameters inp)
                  (ai_owner inp) Failed)\<lparr>rq_terminal := Some now\<rparr>) in
         rbind (linkExport (ai_requestId inp) (ai_export inp) now (insertRequest row db)) (\<lambda>db1.
         Inr (row, db1)))"

definition admit ::
  "string cmp \<Rightarrow> int \<Rightarrow> string \<Rightarrow> string \<Rightarrow> admission_input \<Rightarrow> broker_db \<Rightarrow>
   (broker_admission \<times> broker_db) res" where
  "admit lc now newId scope inp db =
     rbind (assertIdentity inp) (\<lambda>_.
     case readRequest db (ai_requestId inp) of
       Some previous \<Rightarrow>
         if rq_fingerprint previous \<noteq> ai_fingerprint inp
         then Inl (ActionableError ''Session request identity was already used with different parameters'')
         else rbind (linkExport (ai_requestId inp) (ai_export inp) now db) (\<lambda>db1.
              Inr (BExisting previous, db1))
     | None \<Rightarrow>
         let row = fresh_request (ai_requestId inp) (ai_fingerprint inp) (ai_parameters inp)
                     (ai_owner inp) Acquiring in
         rbind (linkExport (ai_requestId inp) (ai_export inp) now (insertRequest row db)) (\<lambda>db1.
         reserve lc now newId scope row inp db1))"

definition continueAdmission ::
  "string cmp \<Rightarrow> int \<Rightarrow> string \<Rightarrow> string \<Rightarrow> admission_input \<Rightarrow> broker_db \<Rightarrow>
   (broker_admission \<times> broker_db) res" where
  "continueAdmission lc now newId scope inp db =
     rbind (ownedRequest db (ai_requestId inp) (ai_owner inp)) (\<lambda>q.
     if rq_fingerprint q \<noteq> ai_fingerprint inp \<or> rq_state q \<noteq> Acquiring
     then Inl (ActionableError ''Cannot continue a changed or terminal session request'')
     else case rq_resource q of
            None \<Rightarrow> reserve lc now newId scope q inp db
          | Some k \<Rightarrow>
              rbind (requireValue (readResource db k) ''Admission resource disappeared'') (\<lambda>r.
              if rs_state r \<noteq> Destroyed \<or> rs_request r \<noteq> Some (rq_id q)
              then Inl (ActionableError
                ''Admission must wait for confirmed eviction before reserving another device'')
              else reserve lc now newId scope q inp db))"

section \<open>The life of a session\<close>

definition currentDestructionTicket :: "broker_db \<Rightarrow> request_row \<Rightarrow> ticket option" where
  "currentDestructionTicket db q =
     (if \<not> truthy (rq_resource q) then None
      else case readResource db (the (rq_resource q)) of
             None \<Rightarrow> None
           | Some r \<Rightarrow> if rs_request r = Some (rq_id q) \<and> rs_state r = Destroying
                       then Some (destructionTicket r) else None)"

text \<open>
  How a request that ends gives up its device: the owned resource, unless already gone, is made
  \<open>destroying\<close> (\<open>keep\<close> tells when a resource already destroying keeps its revision).
\<close>

definition relinquish ::
  "(resource_row \<Rightarrow> bool) \<Rightarrow> request_row \<Rightarrow> broker_db \<Rightarrow> (ticket option \<times> broker_db) res" where
  "relinquish keep q db =
     (if \<not> truthy (rq_resource q) then Inr (None, db)
      else rbind (ownedResource db q) (\<lambda>r.
        if rs_state r = Destroyed then Inr (None, db)
        else if keep r then Inr (Some (destructionTicket r), db)
        else rbind (updateResource r (rs_state_update (\<lambda>_. Destroying)) db) (\<lambda>(r1, db1).
             Inr (Some (destructionTicket r1), db1))))"

definition abandon ::
  "(json \<Rightarrow> string) \<Rightarrow> int \<Rightarrow> string \<Rightarrow> process_identity \<Rightarrow> string \<Rightarrow> broker_db \<Rightarrow>
   ((request_row \<times> ticket option) \<times> broker_db) res" where
  "abandon sha now k owner token db =
     rbind (ensure (\<not> blank k \<and> token \<noteq> [])
       (ActionableError ''Session request identity and liveness owner token are required'')) (\<lambda>_.
     case readRequest db k of
       None \<Rightarrow>
         let (fingerprint, parameters) = abandonedRequestIdentity sha token;
             row = failure_set (Some SESSION_REQUEST_ABANDONED_MESSAGE)
               (Some SESSION_REQUEST_ABANDONED_CODE) (Some False)
               ((fresh_request k fingerprint parameters owner Failed)\<lparr>rq_terminal := Some now\<rparr>) in
         Inr ((row, None), insertRequest row db)
     | Some previous \<Rightarrow>
         if rq_fingerprint previous \<noteq> sessionRequestFingerprint sha (rq_parameters previous) token
         then Inl (ActionableError ''Session request belongs to another liveness owner'')
         else if isTerminalState (rq_state previous)
         then Inr ((previous, currentDestructionTicket db previous), db)
         else if \<not> sameProcess (rq_owner previous) owner
         then Inl (OwnerMismatchError (rq_handoff previous))
         else rbind (relinquish (\<lambda>r. rs_state r = Destroying) previous db) (\<lambda>(ticket, db1).
              rbind (updateRequest now k (Some Failed)
                (failure_set (Some SESSION_REQUEST_ABANDONED_MESSAGE)
                   (Some SESSION_REQUEST_ABANDONED_CODE) (Some False)) db1) (\<lambda>(q, db2).
              Inr ((q, ticket), db2))))"

definition activate ::
  "int \<Rightarrow> string \<Rightarrow> process_identity \<Rightarrow> string \<Rightarrow> preparation_timing option \<Rightarrow> native_profile option \<Rightarrow>
   broker_db \<Rightarrow> (request_row \<times> broker_db) res" where
  "activate now k owner session phases profile db =
     rbind (ensure (\<not> blank session)
       (ActionableError ''A prepared session must have a non-empty session UUID'')) (\<lambda>_.
     rbind (ownedRequest db k owner) (\<lambda>q.
     if rq_state q = RActive \<and> rq_session q = Some session then Inr (q, db)
     else rbind (ownedResource db q) (\<lambda>r.
       if rq_state q \<noteq> Acquiring \<or> rs_state r \<noteq> Reserved
       then Inl (ActionableError ''Only the current acquiring request can activate a reservation'')
       else if \<not> ownsReadyBinding (readAssignment db (binding_of r)) session owner
       then Inl (ActionableError ''Prepared session does not own the current physical device binding'')
       else rbind (activationHardware (rs_profile r) profile) (\<lambda>hw.
            rbind (updateResource r (\<lambda>x. x\<lparr>rs_state := Active,
                     rs_profile := (case hw of None \<Rightarrow> rs_profile x | Some j \<Rightarrow> j)\<rparr>) db) (\<lambda>(_, db1).
            rbind (completedAcquisitionTiming (receiptTiming q) (rs_reuse r) (rs_profile r) phases now)
              (\<lambda>c.
            rbind (ensure (\<not> list_ex (\<lambda>p. rq_session p = Some session \<and> rq_id p \<noteq> k) (requests db1))
              (ConstraintError ''session_broker_requests.session_id'')) (\<lambda>_.
            updateRequest now k (Some RActive)
              (\<lambda>x. timing_set c (x\<lparr>rq_session := Some session\<rparr>)) db1)))))))"

definition beginRelease ::
  "int \<Rightarrow> string \<Rightarrow> process_identity \<Rightarrow> broker_db \<Rightarrow> (request_row option \<times> broker_db) res" where
  "beginRelease now session owner db =
     (case getSession db session of
        None \<Rightarrow> Inr (None, db)
      | Some row \<Rightarrow>
          if isTerminalState (rq_state row) then Inr (Some row, db)
          else rbind (ownedRequest db (rq_id row) owner) (\<lambda>q.
            if rq_state q \<noteq> RActive then Inr (Some q, db)
            else rbind (ownedResource db q) (\<lambda>r.
              if rs_state r \<noteq> Active
              then Inl (ActionableError ''Active session lost its resource ownership'')
              else rbind (updateResource r (rs_state_update (\<lambda>_. Resetting)) db) (\<lambda>(_, db1).
                   rbind (updateRequest now (rq_id q) (Some Releasing) (\<lambda>x. x) db1) (\<lambda>(q1, db2).
                   Inr (Some q1, db2))))))"

definition returning_columns ::
  "string option \<Rightarrow> string option \<Rightarrow> resource_row \<Rightarrow> resource_row \<Rightarrow> resource_row" where
  "returning_columns resourceId requestId r x =
     (if Some (rs_id r) = resourceId \<and> truthy requestId
      then x\<lparr>rs_state := Destroying, rs_request := requestId\<rparr> else x\<lparr>rs_state := Destroying\<rparr>)"

fun retireAll ::
  "(resource_row \<Rightarrow> resource_row \<Rightarrow> resource_row) \<Rightarrow> resource_row list \<Rightarrow> broker_db \<Rightarrow>
   (ticket list \<times> broker_db) res" where
  "retireAll f [] db = Inr ([], db)"
| "retireAll f (r # rs) db =
     rbind (updateResource r (f r) db) (\<lambda>(r1, db1).
     rbind (retireAll f rs db1) (\<lambda>(ts, db2). Inr (destructionTicket r1 # ts, db2)))"

definition trimIdle ::
  "string cmp \<Rightarrow> broker_limits \<Rightarrow> string option \<Rightarrow> string option \<Rightarrow> broker_db \<Rightarrow>
   (ticket list \<times> broker_db) res" where
  "trimIdle lc limits resourceId requestId db =
     (let rows = readResources db True in
      rbind (chooseIdleEvictions lc \<lparr>activeOrAcquiringSessions = 0,
               sn_resources = occupiedResources rows, resetWaitThresholdMs = None\<rparr> limits)
        (\<lambda>selected.
      rbind (rmap (\<lambda>k. requireValue (List.find (\<lambda>r. rs_id r = k) rows) ''Idle resource disappeared'')
               selected) (\<lambda>chosen.
      retireAll (returning_columns resourceId requestId) chosen db)))"

definition nextIdleOrder :: "broker_db \<Rightarrow> int" where
  "nextIdleOrder db = foldl (\<lambda>latest r. max latest (rs_idle_order r)) 0 (readResources db True) + 1"

definition cleanBinding :: "broker_db \<Rightarrow> resource_row \<Rightarrow> bool" where
  "cleanBinding db r \<longleftrightarrow>
     (case readAssignment db (binding_of r) of None \<Rightarrow> False
      | Some b \<Rightarrow> truthy (as_device b) \<and> as_state b = Ready \<and> \<not> truthy (as_exec_session b)) \<and>
     openJournal db r = None"

definition completeCleanRelease ::
  "string cmp \<Rightarrow> int \<Rightarrow> string \<Rightarrow> process_identity \<Rightarrow> broker_limits \<Rightarrow> broker_db \<Rightarrow>
   (ticket list \<times> broker_db) res" where
  "completeCleanRelease lc now k owner limits db =
     rbind (ownedRequest db k owner) (\<lambda>q.
     if rq_state q = Released then Inr ([], db)
     else rbind (ownedResource db q) (\<lambda>r.
       if rq_state q \<noteq> Releasing \<or> rs_state r \<noteq> Resetting
       then Inl (InvariantError ''Only a joined, resetting session can return a clean device'')
       else if \<not> cleanBinding db r
       then Inl (InvariantError ''Physical device still has execution or journal work; it cannot enter the idle pool'')
       else rbind (updateResource r (\<lambda>x. x\<lparr>rs_state := Idle, rs_request := None,
                     rs_idle_order := nextIdleOrder db\<rparr>) db) (\<lambda>(_, db1).
            rbind (updateRequest now k (Some Released) (\<lambda>x. x) db1) (\<lambda>(_, db2).
            trimIdle lc limits (Some (rs_id r)) (Some k) db2))))"

definition failWhere ::
  "int \<Rightarrow> string \<Rightarrow> process_identity \<Rightarrow> string \<Rightarrow> string \<Rightarrow> bool \<Rightarrow> request_state option \<Rightarrow>
   broker_db \<Rightarrow> (ticket option \<times> broker_db) res" where
  "failWhere now k owner error code retryable onlyFrom db =
     rbind (ownedRequest db k owner) (\<lambda>q.
     if isTerminalState (rq_state q) \<or> (case onlyFrom of None \<Rightarrow> False | Some s \<Rightarrow> rq_state q \<noteq> s)
     then Inr (None, db)
     else rbind (relinquish (\<lambda>_. False) q db) (\<lambda>(ticket, db1).
          rbind (updateRequest now k (Some Failed)
            (failure_set (Some error) (Some code) (Some retryable)) db1) (\<lambda>(_, db2).
          Inr (ticket, db2))))"

definition fail ::
  "int \<Rightarrow> string \<Rightarrow> process_identity \<Rightarrow> string \<Rightarrow> string \<Rightarrow> bool \<Rightarrow> broker_db \<Rightarrow>
   (ticket option \<times> broker_db) res" where
  "fail now k owner error code retryable db = failWhere now k owner error code retryable None db"

definition failInterruptedAcquisition ::
  "int \<Rightarrow> string \<Rightarrow> process_identity \<Rightarrow> string \<Rightarrow> broker_db \<Rightarrow> (ticket option \<times> broker_db) res" where
  "failInterruptedAcquisition now k owner error db =
     failWhere now k owner error ''session_preparation_failed'' False (Some Acquiring) db"

definition releaseByDestruction ::
  "string \<Rightarrow> process_identity \<Rightarrow> broker_db \<Rightarrow> (ticket option \<times> broker_db) res" where
  "releaseByDestruction k owner db =
     rbind (ownedRequest db k owner) (\<lambda>q.
     if isTerminalState (rq_state q) then Inr (None, db)
     else if rq_state q \<noteq> Releasing
     then Inl (ActionableError ''Session must relinquish its execution before destruction'')
     else rbind (ownedResource db q) (\<lambda>r.
       if rs_state r = Destroying then Inr (Some (destructionTicket r), db)
       else rbind (updateResource r (rs_state_update (\<lambda>_. Destroying)) db) (\<lambda>(r1, db1).
            Inr (Some (destructionTicket r1), db1))))"

definition drainIdle :: "ticket list option \<Rightarrow> broker_db \<Rightarrow> (ticket list \<times> broker_db) res" where
  "drainIdle observed db =
     retireAll (\<lambda>_. rs_state_update (\<lambda>_. Destroying))
       (filter (\<lambda>r. drainableIdle r observed) (readResources db True)) db"

definition settleRequestAfterDestruction ::
  "int \<Rightarrow> resource_row \<Rightarrow> broker_db \<Rightarrow> broker_db res" where
  "settleRequestAfterDestruction now r db =
     rbind (requireValue (rs_request r) ''No request'') (\<lambda>k.
     case readRequest db k of
       None \<Rightarrow> Inr db
     | Some q \<Rightarrow>
         if rq_resource q \<noteq> Some (rs_id r) then Inr db
         else if rq_state q = Releasing
         then rbind (updateRequest now k (Some Released) (\<lambda>x. x) db) (\<lambda>(_, db1). Inr db1)
         else if rq_state q = Failed then Inr (put_request k (rq_terminal_update (\<lambda>_. Some now)) db)
         else Inr db)"

text \<open>\<open>SqliteBrokerTimingStore.confirmDestroyed\<close>.\<close>

definition destroyed_columns :: "int \<Rightarrow> request_row \<Rightarrow> reset_timing \<Rightarrow> request_row \<Rightarrow> request_row" where
  "destroyed_columns now q rt x = x\<lparr>rq_timing := Some ((the (receiptTiming q))\<lparr>ti_reset :=
     Some (destroyedResetTiming rt now)\<rparr>), rq_timing_at := Some now\<rparr>"

definition timingDestroyed :: "int \<Rightarrow> string option \<Rightarrow> broker_db \<Rightarrow> broker_db" where
  "timingDestroyed now requestId db =
     (if \<not> truthy requestId then db
      else case readRequest db (the requestId) of
             None \<Rightarrow> db
           | Some q \<Rightarrow>
               (case Option.bind (receiptTiming q) ti_reset of
                  None \<Rightarrow> db
                | Some rt \<Rightarrow>
                    if rt_outcome rt = ODestroyed then db
                    else put_request (rq_id q) (destroyed_columns now q rt) db))"

definition confirmDestroyed :: "int \<Rightarrow> ticket \<Rightarrow> broker_db \<Rightarrow> (bool \<times> broker_db) res" where
  "confirmDestroyed now t db =
     (case readResource db (fst t) of
        None \<Rightarrow> Inr (False, db)
      | Some r \<Rightarrow>
          if rs_revision r \<noteq> snd t then Inr (False, db)
          else if rs_state r = Destroyed then Inr (True, db)
          else if rs_state r \<noteq> Destroying then Inr (False, db)
          else if physicalWorkPending db r then Inr (False, db)
          else
            let db1 = put_resource (rs_id r) (rs_state_update (\<lambda>_. Destroyed)) db in
            rbind (if truthy (rs_request r) then settleRequestAfterDestruction now r db1
                   else Inr (deleteUnreferencedTombstones (Some (rs_id r)) db1)) (\<lambda>db2.
            Inr (True, timingDestroyed now (rs_request r) db2)))"

definition recoverRequest ::
  "(process_identity \<Rightarrow> bool) \<Rightarrow> int \<Rightarrow> string \<Rightarrow> process_identity \<Rightarrow> broker_db \<Rightarrow>
   (ticket option \<times> broker_db) res" where
  "recoverRequest live now k owner db =
     rbind (requireValue (readRequest db k) ''Unknown session request'') (\<lambda>q.
     if sameProcess (rq_owner q) owner \<or> live (rq_owner q) then Inr (None, db)
     else if isTerminalState (rq_state q) then Inr (None, db)
     else
       rbind (relinquish (\<lambda>r. rq_state q = Releasing \<and> rs_state r = Destroying) q db)
         (\<lambda>(ticket, db1).
       let rel = rq_state q = Releasing in
       rbind (updateRequest now k (Some (if rel then Releasing else Failed))
         (\<lambda>x. x\<lparr>rq_owner := owner, rq_handoff := False,
                rq_error := (if rel then None else Some SESSION_OWNER_EXITED_MESSAGE),
                rq_code := (if rel then None else Some SESSION_OWNER_EXITED_CODE)\<rparr>) db1) (\<lambda>(_, db2).
       Inr (ticket, db2))))"

definition relinquishForRestart ::
  "int \<Rightarrow> string \<Rightarrow> process_identity \<Rightarrow> broker_db \<Rightarrow> (request_row \<times> broker_db) res" where
  "relinquishForRestart now k owner db =
     rbind (ownedRequest db k owner) (\<lambda>q.
     if rq_state q \<noteq> RActive \<or> rq_handoff q then Inr (q, db)
     else updateRequest now k None (\<lambda>x. x\<lparr>rq_owner := rq_owner q, rq_handoff := True\<rparr>) db)"

datatype handoff_result = Adopted | HandoffPending | NotHandoff

definition adoptRestartHandoff ::
  "(process_identity \<Rightarrow> bool) \<Rightarrow> int \<Rightarrow> string \<Rightarrow> process_identity \<Rightarrow> broker_db \<Rightarrow>
   (handoff_result \<times> broker_db) res" where
  "adoptRestartHandoff live now k owner db =
     rbind (requireValue (readRequest db k) ''Unknown session request'') (\<lambda>q.
     if \<not> rq_handoff q \<or> rq_state q \<noteq> RActive \<or> \<not> truthy (rq_session q) then Inr (NotHandoff, db)
     else if sameProcess (rq_owner q) owner then Inr (Adopted, db)
     else if live (rq_owner q) then Inr (HandoffPending, db)
     else rbind (ownedResource db q) (\<lambda>r.
       if rs_state r \<noteq> Active \<or>
          \<not> ownsReadyBinding (readAssignment db (binding_of r)) (the (rq_session q)) owner
       then Inr (HandoffPending, db)
       else rbind (updateRequest now k None (\<lambda>x. x\<lparr>rq_owner := owner, rq_handoff := False\<rparr>) db)
              (\<lambda>(_, db1). Inr (Adopted, db1))))"

section \<open>Timing writes and reads\<close>

definition finalResetTiming :: "int \<Rightarrow> broker_db \<Rightarrow> request_row \<Rightarrow> reset_timing option \<Rightarrow> reset_timing option" where
  "finalResetTiming now db q t =
     (case t of
        None \<Rightarrow> None
      | Some rt \<Rightarrow>
          (case (if truthy (rq_resource q) then readResource db (the (rq_resource q)) else None) of
             None \<Rightarrow> Some rt
           | Some r \<Rightarrow> if rs_request r = Some (rq_id q) \<and> rs_state r = Destroyed
                       then Some (destroyedResetTiming rt now) else Some rt))"

definition record_columns ::
  "int \<Rightarrow> broker_db \<Rightarrow> request_row \<Rightarrow> session_timing \<Rightarrow> native_profile option \<Rightarrow> request_row \<Rightarrow> request_row" where
  "record_columns now db q t profile x = x\<lparr>
     rq_timing := Some \<lparr>ti_acquisition = overriding (ti_acquisition t)
                          (Option.bind (receiptTiming q) ti_acquisition),
                        ti_reset = overriding (finalResetTiming now db q (ti_reset t))
                          (Option.bind (receiptTiming q) ti_reset)\<rparr>,
     rq_timing_profile := (case profile of None \<Rightarrow> rq_timing_profile x
                           | Some p \<Rightarrow> Some (profileJson p)),
     rq_timing_at := Some now\<rparr>"

text \<open>A failed acquisition is recorded only on a failed receipt that was never ready.\<close>

definition lateFailure :: "request_row \<Rightarrow> session_timing \<Rightarrow> bool" where
  "lateFailure q t \<longleftrightarrow>
     (case ti_acquisition t of None \<Rightarrow> False | Some a \<Rightarrow> aq_outcome a = AqFailed) \<and>
     (rq_state q \<noteq> Failed \<or>
      (case Option.bind (receiptTiming q) ti_acquisition of None \<Rightarrow> False
       | Some a \<Rightarrow> aq_outcome a = AqReady))"

definition recordTiming ::
  "int \<Rightarrow> string \<Rightarrow> session_timing \<Rightarrow> native_profile option \<Rightarrow> broker_db \<Rightarrow> broker_db" where
  "recordTiming now k t profile db =
     (case readRequest db k of
        None \<Rightarrow> db
      | Some q \<Rightarrow> if lateFailure q t then db
                  else put_request k (record_columns now db q t profile) db)"

definition timingSamples :: "broker_db \<Rightarrow> int \<Rightarrow> int \<Rightarrow> nat \<Rightarrow> (native_profile \<times> session_timing) list" where
  "timingSamples db since until limit =
     concat (map (\<lambda>r. case requestReceipt r of Some (t, Some p) \<Rightarrow> [(p, t)] | _ \<Rightarrow> [])
       (take limit (sort_key (\<lambda>r. (- the (rq_timing_at r), rq_id r))
          (filter (\<lambda>r. (case rq_timing_at r of None \<Rightarrow> False | Some t \<Rightarrow> since \<le> t \<and> t \<le> until) \<and>
                       rq_timing r \<noteq> None \<and> rq_timing_profile r \<noteq> None) (requests db)))))"

definition listResources :: "broker_db \<Rightarrow> string option \<Rightarrow> resource_row list" where
  "listResources db k =
     (case k of None \<Rightarrow> readResources db False
      | Some i \<Rightarrow> (case readResource db i of None \<Rightarrow> [] | Some r \<Rightarrow> [r]))"

definition getResource :: "broker_db \<Rightarrow> string \<Rightarrow> resource_row option" where
  "getResource db k = head (listResources db (Some k))"

definition listLiveResources :: "broker_db \<Rightarrow> resource_row list" where
  "listLiveResources db = readResources db True"

definition listRecoverableRequests :: "broker_db \<Rightarrow> request_row list" where
  "listRecoverableRequests db =
     filter (\<lambda>q. List.member [Acquiring, RActive, Releasing] (rq_state q) \<or>
       (rq_state q = Failed \<and> rq_code q = Some SESSION_REQUEST_ABANDONED_CODE \<and>
        rq_session q \<noteq> None \<and>
        list_ex (\<lambda>s. rq_resource q = Some (rs_id s) \<and> rs_state s \<noteq> Destroyed) (resources db)))
     (requests db)"

end
