(* ===== verification/RegistryInvariant.thy ===== *)
theory RegistryInvariant
  imports BindingRegistry
begin

text \<open>
  The invariant of the binding registry and the step relation of its transactions.
  \<open>registry_inv\<close> collects the schema's constraints (keys, unique indexes, foreign keys, CHECKs) and
  what the code keeps beyond them: execution and settler columns come in whole groups, a settler is
  recorded only while settling, and the binding an open journal entry expects is never ahead of the
  binding row, and is the row's own binding whenever the generations agree.
\<close>

section \<open>The invariant\<close>

definition assignment_ok :: "assignment_row \<Rightarrow> bool" where
  "assignment_ok a \<longleftrightarrow> 0 \<le> as_index a \<and> as_scope a \<noteq> [] \<and> 0 \<le> as_generation a \<and>
     (as_exec_daemon a = None \<longleftrightarrow> as_exec_session a = None) \<and>
     (as_exec_pid a = None \<longleftrightarrow> as_exec_session a = None) \<and>
     (as_exec_session a = None \<longrightarrow> as_exec_token a = None) \<and>
     (as_settler_pid a = None \<longleftrightarrow> as_settler_daemon a = None) \<and>
     (as_settler_daemon a = None \<longrightarrow> as_settler_token a = None) \<and>
     (as_settler_daemon a \<noteq> None \<longrightarrow> as_state a = Settling)"

definition journal_ok :: "journal_row \<Rightarrow> bool" where
  "journal_ok j \<longleftrightarrow> 0 \<le> jr_index j \<and> 0 \<le> jr_attempts j \<and>
     jr_from_generation j \<le> jr_binding_generation j \<and>
     jr_to_generation j = (if jr_binding_generation j = jr_from_generation j then None
                           else Some (jr_binding_generation j))"

definition scope_keyed :: "(scope_identity \<Rightarrow> string) \<Rightarrow> scope_row \<Rightarrow> bool" where
  "scope_keyed key_of s \<longleftrightarrow> sc_key s = key_of \<lparr>si_host = sc_host s, si_namespace = sc_namespace s,
     si_incarnation = sc_incarnation s\<rparr>"

definition one_live_scope :: "scope_row list \<Rightarrow> bool" where
  "one_live_scope t \<longleftrightarrow> (\<forall>s\<in>set t. \<forall>u\<in>set t. sc_state s \<noteq> Invalidated \<and> sc_state u \<noteq> Invalidated \<and>
     sc_host s = sc_host u \<and> sc_namespace s = sc_namespace u \<longrightarrow> sc_key s = sc_key u)"

definition device_exclusive :: "assignment_row list \<Rightarrow> bool" where
  "device_exclusive t \<longleftrightarrow> (\<forall>a\<in>set t. \<forall>b\<in>set t. as_device a \<noteq> None \<and> as_device a = as_device b \<and>
     as_platform a = as_platform b \<longrightarrow> as_key a = as_key b)"

definition one_open_entry :: "journal_row list \<Rightarrow> bool" where
  "one_open_entry t \<longleftrightarrow> (\<forall>i\<in>set t. \<forall>j\<in>set t. isBindingJournalPhaseOpen (jr_phase i) \<and>
     isBindingJournalPhaseOpen (jr_phase j) \<and> jr_key i = jr_key j \<longrightarrow> jr_id i = jr_id j)"

definition tracks :: "assignment_row list \<Rightarrow> journal_row \<Rightarrow> bool" where
  "tracks t j \<longleftrightarrow> (case get_row as_key (jr_key j) t of None \<Rightarrow> False
     | Some a \<Rightarrow> jr_binding_generation j \<le> as_generation a \<and>
         (jr_binding_generation j = as_generation a \<longrightarrow> jr_binding_device j = as_device a))"

definition scopes_inv :: "(scope_identity \<Rightarrow> string) \<Rightarrow> scope_row list \<Rightarrow> bool" where
  "scopes_inv key_of t \<longleftrightarrow> distinct (map sc_key t) \<and> list_all (scope_keyed key_of) t \<and> one_live_scope t"

definition assignments_inv :: "string set \<Rightarrow> assignment_row list \<Rightarrow> bool" where
  "assignments_inv ks t \<longleftrightarrow> distinct (map as_key t) \<and> list_all assignment_ok t \<and>
     device_exclusive t \<and> as_scope ` set t \<subseteq> ks"

definition journal_inv :: "string set \<Rightarrow> int \<Rightarrow> journal_row list \<Rightarrow> bool" where
  "journal_inv ks m t \<longleftrightarrow> distinct (map jr_id t) \<and> list_all journal_ok t \<and> one_open_entry t \<and>
     list_all (\<lambda>j. jr_id j \<le> m) t \<and> jr_scope ` set t \<subseteq> ks"

definition tracking :: "assignment_row list \<Rightarrow> journal_row list \<Rightarrow> bool" where
  "tracking t js \<longleftrightarrow> list_all (\<lambda>j. isBindingJournalPhaseOpen (jr_phase j) \<longrightarrow> tracks t j) js"

definition registry_inv :: "(scope_identity \<Rightarrow> string) \<Rightarrow> ('x) registry_db_scheme \<Rightarrow> bool" where
  "registry_inv key_of db \<longleftrightarrow> scopes_inv key_of (scopes db) \<and>
     assignments_inv (sc_key ` set (scopes db)) (assignments db) \<and>
     journal_inv (sc_key ` set (scopes db)) (journal_seq db) (journal db) \<and>
     tracking (assignments db) (journal db)"

text \<open>What a rewrite of a binding row must keep: its key, and the binding unless the generation grows.\<close>

definition row_advances :: "assignment_row \<Rightarrow> assignment_row \<Rightarrow> bool" where
  "row_advances a b \<longleftrightarrow> as_scope b = as_scope a \<and> as_index b = as_index a \<and>
     as_generation a \<le> as_generation b \<and>
     (as_generation b = as_generation a \<longrightarrow> as_device b = as_device a \<and> as_platform b = as_platform a)"

lemma row_advances_refl [simp]: "row_advances a a"
  by (simp add: row_advances_def)

lemma row_advances_trans: "row_advances a b \<Longrightarrow> row_advances b c \<Longrightarrow> row_advances a c"
  by (auto simp: row_advances_def)

lemma row_advances_key: "row_advances a b \<Longrightarrow> as_key b = as_key a"
  by (simp add: row_advances_def as_key_def)

section \<open>Rewriting one row\<close>

lemma assignments_inv_rewrite:
  assumes inv: "assignments_inv ks t" and rw: "rewrote as_key a b t u"
    and ok: "assignment_ok b"
    and free: "\<And>c. c \<in> set t \<Longrightarrow> as_device c = as_device b \<Longrightarrow> as_platform c = as_platform b \<Longrightarrow>
                 as_device b \<noteq> None \<Longrightarrow> as_key c = as_key a"
  shows "assignments_inv ks u"
proof -
  have u: "set u = insert b {r \<in> set t. as_key r \<noteq> as_key a}" and kb: "as_key b = as_key a"
    and m: "map as_key u = map as_key t" and at: "a \<in> set t"
    using rw by (auto simp: rewrote_def)
  have "device_exclusive u"
    unfolding device_exclusive_def
  proof (intro ballI impI)
    fix c e assume "c \<in> set u" "e \<in> set u"
      and *: "as_device c \<noteq> None \<and> as_device c = as_device e \<and> as_platform c = as_platform e"
    then consider "c = b" "e = b" | "c = b" "e \<in> set t" | "e = b" "c \<in> set t"
      | "c \<in> set t" "e \<in> set t" unfolding u by blast
    then show "as_key c = as_key e"
    proof cases
      case 2 with * free [of e] kb show ?thesis by metis
    next
      case 3 with * free [of c] kb show ?thesis by metis
    next
      case 4 with * inv show ?thesis
        unfolding assignments_inv_def device_exclusive_def by blast
    qed simp
  qed
  moreover have "as_scope b = as_scope a" using kb by (simp add: as_key_def)
  ultimately show ?thesis
    using inv ok at unfolding assignments_inv_def list_all_iff m u by auto
qed

lemma assignments_inv_rewrite_same_device:
  assumes "assignments_inv ks t" and "rewrote as_key a b t u" and "assignment_ok b"
    and "as_device b = as_device a" and "as_platform b = as_platform a"
  shows "assignments_inv ks u"
proof (rule assignments_inv_rewrite [OF assms(1-3)])
  fix c assume "c \<in> set t" "as_device c = as_device b" "as_platform c = as_platform b"
    "as_device b \<noteq> None"
  moreover have "a \<in> set t" using assms(2) by (simp add: rewrote_def)
  ultimately show "as_key c = as_key a"
    using assms(1,4,5) unfolding assignments_inv_def device_exclusive_def by metis
qed

lemma tracks_cong:
  "jr_key i = jr_key j \<Longrightarrow> jr_binding_generation i = jr_binding_generation j \<Longrightarrow>
   jr_binding_device i = jr_binding_device j \<Longrightarrow> tracks t i = tracks t j"
  unfolding tracks_def by (simp split: option.splits)

lemma tracks_rewrite:
  assumes "tracks t j" and "rewrote as_key a b t u" and "distinct (map as_key t)"
    and "row_advances a b"
  shows "tracks u j"
proof -
  have "get_row as_key (as_key a) t = Some a"
    using assms(2,3) by (simp add: rewrote_def get_row_in_set)
  with assms(1,4) show ?thesis
    by (auto simp: tracks_def rewrote_get [OF assms(2,3)] row_advances_def split: option.splits)
qed

lemma tracking_rewrite:
  assumes "tracking t js" and "rewrote as_key a b t u" and "distinct (map as_key t)"
    and "row_advances a b"
  shows "tracking u js"
  using assms by (auto simp: tracking_def list_all_iff intro: tracks_rewrite)

text \<open>Writing an admissible row over the row of a binding keeps the whole invariant.\<close>

definition admissible_write ::
  "('x) registry_db_scheme \<Rightarrow> binding_key \<Rightarrow> assignment_row \<Rightarrow> assignment_row \<Rightarrow> bool" where
  "admissible_write db k a b \<longleftrightarrow> row_advances a b \<and> assignment_ok b \<and>
     ((as_device b = as_device a \<and> as_platform b = as_platform a) \<or>
      (\<forall>d. as_device b = Some d \<longrightarrow> deviceHolder db (as_platform b) d k = None))"

lemma deviceHolder_None:
  "deviceHolder db p d k = None \<longleftrightarrow>
     (\<forall>a\<in>set (assignments db). as_platform a = p \<and> as_device a = Some d \<longrightarrow> as_key a = k)"
  by (auto simp: deviceHolder_def find_None_iff)

lemma registry_inv_put_assignment:
  assumes inv: "registry_inv key_of db" and row: "readAssignment db k = Some a"
    and adm: "admissible_write db k a (f a)"
  shows "registry_inv key_of (put_assignment k f db)"
proof -
  have d: "distinct (map as_key (assignments db))"
    using inv by (simp add: registry_inv_def assignments_inv_def)
  have k: "as_key a = k" "a \<in> set (assignments db)"
    using assignment_table.get_SomeD [OF row] by auto
  have "rewrote as_key a (f a) (assignments db) (assignments (put_assignment k f db))"
    unfolding put_assignment_def
    using rewrote_update_where [OF d, of k a f] row adm k row_advances_key [of a "f a"]
    by (simp add: readAssignment_def admissible_write_def)
  note rw = this
  have "assignments_inv (sc_key ` set (scopes db)) (assignments (put_assignment k f db))"
  proof (cases "as_device (f a) = as_device a \<and> as_platform (f a) = as_platform a")
    case True
    with inv adm rw show ?thesis
      by (auto simp: registry_inv_def admissible_write_def intro: assignments_inv_rewrite_same_device)
  next
    case False
    with adm have "\<forall>x. as_device (f a) = Some x \<longrightarrow> deviceHolder db (as_platform (f a)) x k = None"
      by (auto simp: admissible_write_def)
    then have "as_key c = as_key a" if "c \<in> set (assignments db)" "as_device c = as_device (f a)"
      "as_platform c = as_platform (f a)" "as_device (f a) \<noteq> None" for c
      using that k(1) by (cases "as_device (f a)") (auto simp: deviceHolder_None)
    then show ?thesis
      using inv adm by (intro assignments_inv_rewrite [OF _ rw])
        (simp_all add: registry_inv_def admissible_write_def)
  qed
  moreover have "tracking (assignments (put_assignment k f db)) (journal db)"
    using tracking_rewrite [OF _ rw d] inv adm
    by (simp add: registry_inv_def admissible_write_def)
  ultimately show ?thesis
    using inv by (simp add: registry_inv_def put_assignment_def)
qed


section \<open>Operations on one binding\<close>

text \<open>
  The outcome of an operation on the row of \<open>k\<close>: a refusal that writes nothing, or one admissible
  rewrite of that row, which is also the row returned.
\<close>

definition binding_outcome ::
  "binding_key \<Rightarrow> ('x) registry_db_scheme \<Rightarrow> (cas_failure + assignment_row) \<times> 'x registry_db_scheme \<Rightarrow> bool" where
  "binding_outcome k db out \<longleftrightarrow>
     (case fst out of
        Inl _ \<Rightarrow> snd out = db
      | Inr b \<Rightarrow> (\<exists>a f. readAssignment db k = Some a \<and> b = f a \<and> admissible_write db k a (f a) \<and>
                     snd out = put_assignment k f db))"

lemma binding_outcome_inv:
  assumes "binding_outcome k db (r, db')" and "registry_inv key_of db"
  shows "registry_inv key_of db'"
proof (cases r)
  case (Inr b)
  with assms(1) obtain a f where "readAssignment db k = Some a" "admissible_write db k a (f a)"
    "db' = put_assignment k f db" by (auto simp: binding_outcome_def)
  then show ?thesis using registry_inv_put_assignment [OF assms(2)] by simp
qed (use assms in \<open>simp add: binding_outcome_def\<close>)

lemma checkBinding_Inr:
  "checkBinding db k e journaled session = Inr a \<Longrightarrow>
     readAssignment db k = Some a \<and> bindingMatches a e"
  by (auto simp: checkBinding_def Let_def split: if_splits option.splits)

lemma inv_assignment_ok:
  "registry_inv key_of db \<Longrightarrow> readAssignment db k = Some a \<Longrightarrow> assignment_ok a \<and> as_key a = k"
  by (drule assignment_table.get_SomeD)
     (simp add: registry_inv_def assignments_inv_def list_all_iff)

lemma read_put_assignment_row:
  assumes "readAssignment db k = Some a" and "as_key (f a) = k"
  shows "readAssignment (put_assignment k f db) k = Some (f a)"
proof -
  have "get_row as_key k t = Some a \<Longrightarrow>
     get_row as_key k (update_where (\<lambda>r. as_key r = k) f t) = Some (f a)" for t
    using assms(2) by (induction t) (auto simp: get_row_def update_where_def split: if_splits)
  with assms(1) show ?thesis
    by (simp add: readAssignment_def put_assignment_def)
qed

lemma set_settler_simps [simp]:
  "as_scope (set_settler p a) = as_scope a" "as_index (set_settler p a) = as_index a"
  "as_generation (set_settler p a) = as_generation a" "as_device (set_settler p a) = as_device a"
  "as_platform (set_settler p a) = as_platform a" "as_state (set_settler p a) = as_state a"
  "as_exec_daemon (set_settler p a) = as_exec_daemon a" "as_exec_pid (set_settler p a) = as_exec_pid a"
  "as_exec_token (set_settler p a) = as_exec_token a" "as_exec_session (set_settler p a) = as_exec_session a"
  "as_settler_daemon (set_settler p a) = map_option pi_daemonId p"
  "as_settler_pid (set_settler p a) = map_option pi_pid p"
  "as_settler_token (set_settler p a) = (case p of None \<Rightarrow> None | Some q \<Rightarrow> tokenColumn (pi_token q))"
  by (simp_all add: set_settler_def)

lemma clear_exec_simps [simp]:
  "as_scope (clear_exec a) = as_scope a" "as_index (clear_exec a) = as_index a"
  "as_generation (clear_exec a) = as_generation a" "as_device (clear_exec a) = as_device a"
  "as_platform (clear_exec a) = as_platform a" "as_state (clear_exec a) = as_state a"
  "as_exec_daemon (clear_exec a) = None" "as_exec_pid (clear_exec a) = None"
  "as_exec_token (clear_exec a) = None" "as_exec_session (clear_exec a) = None"
  "as_settler_daemon (clear_exec a) = as_settler_daemon a"
  "as_settler_pid (clear_exec a) = as_settler_pid a"
  "as_settler_token (clear_exec a) = as_settler_token a"
  by (simp_all add: clear_exec_def)

lemma set_exec_simps [simp]:
  "as_scope (set_exec w a) = as_scope a" "as_index (set_exec w a) = as_index a"
  "as_generation (set_exec w a) = as_generation a" "as_device (set_exec w a) = as_device a"
  "as_platform (set_exec w a) = as_platform a" "as_state (set_exec w a) = as_state a"
  "as_exec_daemon (set_exec w a) = Some (pi_daemonId (eo_process w))"
  "as_exec_pid (set_exec w a) = Some (pi_pid (eo_process w))"
  "as_exec_token (set_exec w a) = tokenColumn (pi_token (eo_process w))"
  "as_exec_session (set_exec w a) = Some (eo_sessionUuid w)"
  "as_settler_daemon (set_exec w a) = as_settler_daemon a"
  "as_settler_pid (set_exec w a) = as_settler_pid a"
  "as_settler_token (set_exec w a) = as_settler_token a"
  by (simp_all add: set_exec_def)

lemma commit_columns_admissible:
  assumes "assignment_ok a" and "assertPlatformChangeAllowed a nxt = Inr p"
    and "\<And>d. bc_device nxt = Some d \<Longrightarrow> deviceHolder db p d k = None"
  shows "admissible_write db k a (commit_columns p nxt a now a)"
  using assms
  by (auto simp: admissible_write_def commit_columns_def row_advances_def assignment_ok_def Let_def)

lemma state_columns_admissible:
  assumes "assignment_ok a" and "assertSettlerForState st settler0 = Inr settler"
  shows "admissible_write db k a
     (state_columns st (if entersFencingState (as_state a) st then as_generation a + 1
                        else as_generation a) settler now a)"
  using assms
  by (auto simp: admissible_write_def state_columns_def row_advances_def assignment_ok_def
        assertSettlerForState_def split: if_splits option.splits)

lemma claim_columns_admissible:
  "assignment_ok a \<Longrightarrow> admissible_write db k a (claim_columns owner now a)"
  by (auto simp: admissible_write_def claim_columns_def row_advances_def assignment_ok_def)

lemma release_columns_admissible:
  "assignment_ok a \<Longrightarrow> admissible_write db k a (release_columns session now a)"
  by (auto simp: admissible_write_def release_columns_def row_advances_def assignment_ok_def)

lemma settle_columns_admissible:
  "assignment_ok a \<Longrightarrow> admissible_write db k a (settle_columns gen now a)"
  by (auto simp: admissible_write_def settle_columns_def row_advances_def assignment_ok_def)

lemma admissible_key: "admissible_write db k a b \<Longrightarrow> as_key b = as_key a"
  by (simp add: admissible_write_def row_advances_key)

text \<open>A write of admissible columns after a read of the row: the row is found and returned.\<close>

lemma written_back:
  assumes "registry_inv key_of db" and "readAssignment db k = Some a"
    and "admissible_write db k a (f a)"
    and "rbind (orThrow (readAssignment (put_assignment k f db) k))
           (\<lambda>b. Inr (Inr b, put_assignment k f db)) = Inr out"
  shows "binding_outcome k db out"
  using assms read_put_assignment_row [of db k a f] admissible_key [OF assms(3)]
    inv_assignment_ok [OF assms(1,2)]
  by (auto simp: binding_outcome_def)

lemma commitBindingIn_outcome:
  assumes inv: "registry_inv key_of db"
    and run: "commitBindingIn now k e nxt journaled db = Inr out"
  shows "binding_outcome k db out"
proof (cases "checkBinding db k e journaled None")
  case (Inl f)
  with run show ?thesis by (auto simp: commitBindingIn_def binding_outcome_def)
next
  case (Inr a)
  then have a: "readAssignment db k = Some a" by (simp add: checkBinding_Inr)
  obtain p where p: "assertPlatformChangeAllowed a nxt = Inr p"
    using run Inr by (auto simp: commitBindingIn_def)
  show ?thesis
  proof (cases "case bc_device nxt of None \<Rightarrow> None | Some d \<Rightarrow> deviceHolder db p d k")
    case None
    then have "\<And>d. bc_device nxt = Some d \<Longrightarrow> deviceHolder db p d k = None" by simp
    from commit_columns_admissible [OF _ p this] inv_assignment_ok [OF inv a]
    have adm: "admissible_write db k a (commit_columns p nxt a now a)" by blast
    show ?thesis
      using run Inr p None
      by (intro written_back [where f = "commit_columns p nxt a now", OF inv a adm])
         (simp add: commitBindingIn_def Let_def)
  next
    case (Some h)
    with run Inr p show ?thesis by (auto simp: commitBindingIn_def binding_outcome_def)
  qed
qed

lemma updateBindingStateIn_outcome:
  assumes inv: "registry_inv key_of db"
    and settler: "assertSettlerForState st s0 = Inr s"
    and run: "updateBindingStateIn live now k e st s journaled db = Inr out"
  shows "binding_outcome k db out"
proof (cases "checkBinding db k e journaled None")
  case (Inl f)
  with run show ?thesis by (auto simp: updateBindingStateIn_def binding_outcome_def)
next
  case (Inr a)
  then have a: "readAssignment db k = Some a" by (simp add: checkBinding_Inr)
  note adm = state_columns_admissible [OF conjunct1 [OF inv_assignment_ok [OF inv a]] settler,
      of db k now]
  show ?thesis
  proof (cases "\<exists>w. toExecOwner a = Some w \<and> st = Replacing \<and> live (eo_process w)")
    case True
    with run Inr show ?thesis by (auto simp: updateBindingStateIn_def binding_outcome_def)
  next
    case False
    with run Inr show ?thesis
      by (intro written_back [where f = "state_columns st (if entersFencingState (as_state a) st
             then as_generation a + 1 else as_generation a) s now", OF inv a adm])
         (auto simp: updateBindingStateIn_def Let_def split: option.splits if_splits)
  qed
qed

lemma claimExecution_outcome:
  assumes inv: "registry_inv key_of db"
    and run: "claimExecution live now k e owner supersedes db = Inr out"
  shows "binding_outcome k db out"
proof (cases "checkBinding db k e False (Some (eo_sessionUuid owner))")
  case (Inl f)
  with run show ?thesis by (auto simp: claimExecution_def binding_outcome_def)
next
  case (Inr a)
  then have a: "readAssignment db k = Some a" by (simp add: checkBinding_Inr)
  note adm = claim_columns_admissible [OF conjunct1 [OF inv_assignment_ok [OF inv a]],
      of db k owner now]
  show ?thesis
  proof (cases "as_state a \<noteq> Ready \<or> as_device a = None \<or>
                heldByLiveOther live owner supersedes a \<noteq> None")
    case True
    with run Inr show ?thesis
      by (auto simp: claimExecution_def binding_outcome_def split: option.splits if_splits)
  next
    case False
    with run Inr show ?thesis
      by (intro written_back [where f = "claim_columns owner now", OF inv a adm])
         (auto simp: claimExecution_def Let_def split: option.splits if_splits)
  qed
qed

lemma applyJournalAssignmentChange_outcome:
  assumes "registry_inv key_of db" and "applyJournalAssignmentChange live now k c db = Inr out"
  shows "binding_outcome k db out"
proof (cases c)
  case (ChangeCommit e nxt)
  with assms show ?thesis
    by (auto simp: applyJournalAssignmentChange_def intro: commitBindingIn_outcome)
next
  case (ChangeState e st s0)
  with assms obtain s where "assertSettlerForState st s0 = Inr s"
    "updateBindingStateIn live now k e st s True db = Inr out"
    by (auto simp: applyJournalAssignmentChange_def)
  then show ?thesis by (rule updateBindingStateIn_outcome [OF assms(1)])
qed


section \<open>Operations on scopes\<close>

lemma registry_inv_scopes:
  assumes "registry_inv key_of db" and "scopes_inv key_of t"
    and "sc_key ` set (scopes db) \<subseteq> sc_key ` set t"
  shows "registry_inv key_of (db\<lparr>scopes := t\<rparr>)"
  using assms unfolding registry_inv_def assignments_inv_def journal_inv_def
  by (simp add: order_trans [OF _ assms(3)])

definition scope_touch :: "(scope_row \<Rightarrow> scope_row) \<Rightarrow> bool" where
  "scope_touch f \<longleftrightarrow> (\<forall>s. sc_key (f s) = sc_key s \<and> sc_host (f s) = sc_host s \<and>
     sc_namespace (f s) = sc_namespace s \<and> sc_incarnation (f s) = sc_incarnation s \<and>
     sc_state (f s) = sc_state s)"

lemma scope_touch_simps [simp]:
  "scope_touch (sc_acquired_update g)" "scope_touch (sc_released_update h)"
  by (simp_all add: scope_touch_def)

lemma scopes_inv_map:
  assumes "scopes_inv key_of t" and "scope_touch g"
  shows "scopes_inv key_of (map g t) \<and> sc_key ` set (map g t) = sc_key ` set t"
proof -
  have g: "sc_key (g s) = sc_key s" "sc_host (g s) = sc_host s"
    "sc_namespace (g s) = sc_namespace s" "sc_incarnation (g s) = sc_incarnation s"
    "sc_state (g s) = sc_state s" for s
    using assms(2) by (simp_all add: scope_touch_def)
  have m: "map sc_key (map g t) = map sc_key t" by (simp add: g)
  have "one_live_scope (map g t) = one_live_scope t"
    by (simp add: one_live_scope_def g)
  moreover have "list_all (scope_keyed key_of) (map g t) = list_all (scope_keyed key_of) t"
    by (simp add: scope_keyed_def list_all_iff g)
  ultimately show ?thesis
    using assms(1) unfolding scopes_inv_def m by (simp add: image_image g)
qed

lemma registry_inv_touch:
  assumes "registry_inv key_of db" and "scope_touch f"
  shows "registry_inv key_of (put_scope k f db)"
proof -
  have "scope_touch (\<lambda>r. if sc_key r = k then f r else r)"
    using assms(2) by (simp add: scope_touch_def)
  from scopes_inv_map [OF _ this, of key_of "scopes db"] assms(1) show ?thesis
    unfolding put_scope_def update_where_def
    by (intro registry_inv_scopes [OF assms(1)]) (simp_all add: registry_inv_def)
qed

lemma no_live_namespace:
  "List.find (liveNamespaceRow i k) t = None \<longleftrightarrow>
     (\<forall>s\<in>set t. sc_host s = si_host i \<and> sc_namespace s = si_namespace i \<and>
        sc_state s \<noteq> Invalidated \<longrightarrow> sc_key s = k)"
  by (auto simp: find_None_iff liveNamespaceRow_def)

lemma one_live_scope_insert:
  assumes "one_live_scope t" and "set u \<subseteq> insert s (set t)"
    and "\<And>r. r \<in> set t \<Longrightarrow> sc_host r = sc_host s \<Longrightarrow> sc_namespace r = sc_namespace s \<Longrightarrow>
           sc_state r \<noteq> Invalidated \<Longrightarrow> sc_key r = sc_key s"
  shows "one_live_scope u"
  unfolding one_live_scope_def
proof (intro ballI impI)
  fix a b assume ab: "a \<in> set u" "b \<in> set u"
    and *: "sc_state a \<noteq> Invalidated \<and> sc_state b \<noteq> Invalidated \<and> sc_host a = sc_host b \<and>
            sc_namespace a = sc_namespace b"
  then consider "a = s" "b = s" | "a = s" "b \<in> set t" | "b = s" "a \<in> set t"
    | "a \<in> set t" "b \<in> set t" using assms(2) by blast
  then show "sc_key a = sc_key b"
  proof cases
    case 2 with * assms(3) [of b] show ?thesis by metis
  next
    case 3 with * assms(3) [of a] show ?thesis by metis
  next
    case 4 with * assms(1) show ?thesis unfolding one_live_scope_def by blast
  qed simp
qed

lemma ensureScope_cases:
  assumes "ensureScope key_of now i db = Inr (r, db')"
  obtains (same) "db' = db"
    | (touched) "db' = put_scope (key_of i) (sc_acquired_update (\<lambda>_. now)) db"
    | (created) "List.find (liveNamespaceRow i (key_of i)) (scopes db) = None"
        "readScope db (key_of i) = None"
        "db' = db\<lparr>scopes := scopes db @ [fresh_scope (key_of i) i now]\<rparr>"
    | (revived) s where "List.find (liveNamespaceRow i (key_of i)) (scopes db) = None"
        "readScope db (key_of i) = Some s" "db' = put_scope (key_of i) (revive now) db"
proof (cases "readScope db (key_of i)")
  case None
  then have "db' = db \<or> List.find (liveNamespaceRow i (key_of i)) (scopes db) = None \<and>
     db' = db\<lparr>scopes := scopes db @ [fresh_scope (key_of i) i now]\<rparr>"
    using assms unfolding ensureScope_def Let_def None
    by (cases "List.find (liveNamespaceRow i (key_of i)) (scopes db)") simp_all
  then show ?thesis using same created None by (elim disjE conjE) auto
next
  case (Some s)
  have "db' = db \<or> db' = put_scope (key_of i) (sc_acquired_update (\<lambda>_. now)) db \<or>
     List.find (liveNamespaceRow i (key_of i)) (scopes db) = None \<and>
     db' = put_scope (key_of i) (revive now) db"
    using assms unfolding ensureScope_def Let_def Some
    by (cases "List.find (liveNamespaceRow i (key_of i)) (scopes db)")
       (auto split: if_splits)
  then show ?thesis using same touched revived Some by (elim disjE conjE) auto
qed

lemma ensureScope_inv:
  assumes inv: "registry_inv key_of db" and inj: "inj key_of"
    and run: "ensureScope key_of now i db = Inr (r, db')"
  shows "registry_inv key_of db'"
  using run
proof (cases rule: ensureScope_cases)
  case same
  then show ?thesis by (simp add: inv)
next
  case touched
  then show ?thesis by (simp add: registry_inv_touch inv)
next
  case created
  let ?s = "fresh_scope (key_of i) i now"
  have "one_live_scope (scopes db @ [?s])"
    by (rule one_live_scope_insert [of "scopes db" _ ?s])
       (use inv created(1) in \<open>auto simp: registry_inv_def scopes_inv_def no_live_namespace
          fresh_scope_def\<close>)
  moreover have "sc_key ?s \<notin> sc_key ` set (scopes db)"
    using created(2) by (simp add: scope_table.get_None fresh_scope_def)
  moreover have "scope_keyed key_of ?s" by (cases i) (simp add: scope_keyed_def fresh_scope_def)
  ultimately have "scopes_inv key_of (scopes db @ [?s])"
    using inv by (simp add: registry_inv_def scopes_inv_def)
  then show ?thesis
    unfolding created(3) by (intro registry_inv_scopes [OF inv]) auto
next
  case (revived s)
  have s: "s \<in> set (scopes db)" "sc_key s = key_of i"
    using scope_table.get_SomeD [OF revived(2)] by auto
  have keyed: "scope_keyed key_of s"
    using inv s by (simp add: registry_inv_def scopes_inv_def list_all_iff)
  then have ident: "sc_host s = si_host i" "sc_namespace s = si_namespace i"
    using s(2) injD [OF inj, of "\<lparr>si_host = sc_host s, si_namespace = sc_namespace s,
        si_incarnation = sc_incarnation s\<rparr>" i] by (auto simp: scope_keyed_def)
  let ?u = "update_where (\<lambda>r. sc_key r = key_of i) (revive now) (scopes db)"
  have d: "distinct (map sc_key (scopes db))"
    using inv by (simp add: registry_inv_def scopes_inv_def)
  have rw: "rewrote sc_key s (revive now s) (scopes db) ?u"
    using rewrote_update_where [OF d, of "key_of i" s "revive now"] revived(2) s
    by (simp add: readScope_def revive_def)
  then have u: "set ?u = insert (revive now s) {r \<in> set (scopes db). sc_key r \<noteq> sc_key s}"
    and m: "map sc_key ?u = map sc_key (scopes db)" by (simp_all add: rewrote_def)
  have "one_live_scope ?u"
    by (rule one_live_scope_insert [of "scopes db" _ "revive now s"])
       (use inv revived(1) ident s u in \<open>auto simp: registry_inv_def scopes_inv_def
          no_live_namespace revive_def\<close>)
  then have "scopes_inv key_of ?u"
    using inv d m keyed
    by (simp add: registry_inv_def scopes_inv_def list_all_iff u scope_keyed_def revive_def)
  moreover have "sc_key ` set (scopes db) \<subseteq> sc_key ` set ?u"
    using m by (metis set_map subset_refl)
  ultimately show ?thesis
    unfolding revived(3) put_scope_def by (intro registry_inv_scopes [OF inv])
qed

section \<open>Creating, removing, releasing and settling bindings\<close>

lemma fresh_assignment_simps [simp]:
  "as_key (fresh_assignment k i now) = k" "as_scope (fresh_assignment k i now) = fst k"
  "as_device (fresh_assignment k i now) = None"
  by (simp_all add: fresh_assignment_def as_key_def)

lemma fresh_assignment_ok:
  "assertValidBindingKey k = Inr u \<Longrightarrow> assignment_ok (fresh_assignment k i now)"
  by (simp add: assertValidBindingKey_def assignment_ok_def fresh_assignment_def)

lemma tracking_append:
  assumes "tracking t js"
  shows "tracking (t @ [r]) js"
  using assms by (auto simp: tracking_def tracks_def list_all_iff get_row_snoc split: option.splits)

lemma initBinding_inv:
  assumes inv: "registry_inv key_of db" and run: "initBinding now k i db = Inr (r, db')"
  shows "registry_inv key_of db'"
proof -
  obtain u where ok: "assertValidBindingKey k = Inr u"
    using run by (auto simp: initBinding_def)
  consider (same) "db' = db"
    | (new) s where "readScope db (fst k) = Some s" "readAssignment db k = None"
        "db' = db\<lparr>assignments := assignments db @ [fresh_assignment k i now]\<rparr>"
    using run ok by (auto simp: initBinding_def Let_def split: option.splits if_splits)
  then show ?thesis
  proof cases
    case new
    have "fst k \<in> sc_key ` set (scopes db)"
      using scope_table.get_SomeD [OF new(1)] by force
    moreover have "k \<notin> as_key ` set (assignments db)"
      using new(2) by (simp add: assignment_table.get_None)
    moreover have "device_exclusive (assignments db @ [fresh_assignment k i now])"
      using inv by (auto simp: registry_inv_def assignments_inv_def device_exclusive_def)
    ultimately show ?thesis
      using inv fresh_assignment_ok [OF ok]
      unfolding new(3) by (simp add: registry_inv_def assignments_inv_def tracking_append)
  qed (simp add: inv)
qed

lemma readOpenJournal_None:
  "readOpenJournal db k = None \<longleftrightarrow>
     (\<forall>j\<in>set (journal db). jr_key j = k \<longrightarrow> \<not> isBindingJournalPhaseOpen (jr_phase j))"
  by (auto simp: readOpenJournal_def openAt_def find_None_iff)

lemma assignments_inv_delete: "assignments_inv ks t \<Longrightarrow> assignments_inv ks (delete_where p t)"
  by (auto simp: assignments_inv_def distinct_delete_where device_exclusive_def list_all_iff)

lemma removeUnboundBinding_inv:
  assumes inv: "registry_inv key_of db" and run: "removeUnboundBinding k gen db = Inr (r, db')"
  shows "registry_inv key_of db'"
proof (cases "readOpenJournal db k")
  case None
  then have db': "db' = db\<lparr>assignments := delete_where (unboundRow k gen) (assignments db)\<rparr>"
    using run by (auto simp: removeUnboundBinding_def)
  have d: "distinct (map as_key (assignments db))"
    using inv by (simp add: registry_inv_def assignments_inv_def)
  have keep: "tracks (delete_where (unboundRow k gen) (assignments db)) j"
    if j: "j \<in> set (journal db)" "isBindingJournalPhaseOpen (jr_phase j)" for j
  proof -
    have tr: "tracks (assignments db) j"
      using inv j by (simp add: registry_inv_def tracking_def list_all_iff)
    have "jr_key j \<noteq> k" using None j by (auto simp: readOpenJournal_None)
    then have "\<not> unboundRow k gen a" if "get_row as_key (jr_key j) (assignments db) = Some a" for a
      using get_row_SomeD [OF that] by (simp add: unboundRow_def)
    with tr show ?thesis
      unfolding tracks_def get_row_delete [OF d] by (auto split: option.splits)
  qed
  then have "tracking (delete_where (unboundRow k gen) (assignments db)) (journal db)"
    by (simp add: tracking_def list_all_iff)
  then show ?thesis
    using inv unfolding db' by (simp add: registry_inv_def assignments_inv_delete)
next
  case (Some j)
  then show ?thesis using inv run by (auto simp: removeUnboundBinding_def)
qed

lemma releaseExecution_inv:
  assumes inv: "registry_inv key_of db" and run: "releaseExecution now k u db = Inr (r, db')"
  shows "registry_inv key_of db'"
proof -
  consider (same) "db' = db"
    | (rel) a where "readAssignment db k = Some a"
        "db' = put_scope (fst k) (sc_released_update (\<lambda>_. Some now))
                 (put_assignment k (release_columns u now) db)"
    using run by (auto simp: releaseExecution_def Let_def split: option.splits if_splits)
  then show ?thesis
  proof cases
    case rel
    have "admissible_write db k a (release_columns u now a)"
      using inv_assignment_ok [OF inv rel(1)] by (simp add: release_columns_admissible)
    from registry_inv_put_assignment [where f = "release_columns u now", OF inv rel(1) this]
    show ?thesis unfolding rel(2) by (rule registry_inv_touch) simp
  qed (simp add: inv)
qed

lemma settle_one_inv:
  assumes inv: "registry_inv key_of db" and run: "settle_one now a db = Inr (r, db')"
  shows "registry_inv key_of db'"
proof -
  obtain b where b: "readAssignment db (as_key a) = Some b"
    and db': "db' = put_assignment (as_key a) (settle_columns (as_generation a) now) db"
    using run by (auto simp: settle_one_def split: option.splits if_splits)
  show ?thesis
    unfolding db' using inv_assignment_ok [OF inv b]
    by (intro registry_inv_put_assignment [OF inv b]) (simp add: settle_columns_admissible)
qed

lemma settle_all_inv:
  "settle_all now rows db = Inr (r, db') \<Longrightarrow> registry_inv key_of db \<Longrightarrow> registry_inv key_of db'"
proof (induction rows arbitrary: db r)
  case (Cons a rows)
  then obtain r1 db1 rs where "settle_one now a db = Inr (r1, db1)"
    "settle_all now rows db1 = Inr (rs, db')" by auto
  with Cons show ?case using settle_one_inv by blast
qed simp

section \<open>The journal\<close>

lemma pruneJournal_simps [simp]:
  "scopes (pruneJournal now db) = scopes db" "assignments (pruneJournal now db) = assignments db"
  "journal_seq (pruneJournal now db) = journal_seq db"
  "readAssignment (pruneJournal now db) k = readAssignment db k"
  "readScope (pruneJournal now db) s = readScope db s"
  by (simp_all add: pruneJournal_def readAssignment_def readScope_def)

lemma one_open_entry_subset: "one_open_entry t \<Longrightarrow> set u \<subseteq> set t \<Longrightarrow> one_open_entry u"
  unfolding one_open_entry_def by blast

lemma journal_inv_delete: "journal_inv ks m t \<Longrightarrow> journal_inv ks m (delete_where p t)"
  using one_open_entry_subset [of t "delete_where p t"]
  by (auto simp: journal_inv_def distinct_delete_where list_all_iff)

lemma pruneJournal_inv: "registry_inv key_of db \<Longrightarrow> registry_inv key_of (pruneJournal now db)"
  by (simp add: registry_inv_def pruneJournal_def journal_inv_delete tracking_def list_all_iff)

lemma journal_inv_append:
  assumes inv: "registry_inv key_of db" and none: "readOpenJournal db (jr_key j) = None"
    and id: "jr_id j = journal_seq db + 1" and ok: "journal_ok j"
    and tr: "tracks (assignments db) j"
  shows "registry_inv key_of (db\<lparr>journal := journal db @ [j], journal_seq := jr_id j\<rparr>)"
proof -
  have fresh: "jr_id r < jr_id j" if "r \<in> set (journal db)" for r
    using inv id that by (auto simp: registry_inv_def journal_inv_def list_all_iff)
  obtain a where "get_row as_key (jr_key j) (assignments db) = Some a"
    using tr by (auto simp: tracks_def split: option.splits)
  then have "a \<in> set (assignments db)" "as_scope a = jr_scope j"
    by (auto simp: as_key_def jr_key_def dest: get_row_SomeD)
  then have "jr_scope j \<in> sc_key ` set (scopes db)"
    using inv unfolding registry_inv_def assignments_inv_def by force
  moreover have "one_open_entry (journal db @ [j])"
  proof -
    have old: "one_open_entry (journal db)" using inv by (simp add: registry_inv_def journal_inv_def)
    have new: "jr_key i \<noteq> jr_key j"
      if "i \<in> set (journal db)" "isBindingJournalPhaseOpen (jr_phase i)" for i
      using none that by (auto simp: readOpenJournal_None)
    show ?thesis
      unfolding one_open_entry_def
    proof (intro ballI impI)
      fix a b assume "a \<in> set (journal db @ [j])" "b \<in> set (journal db @ [j])"
        and *: "isBindingJournalPhaseOpen (jr_phase a) \<and> isBindingJournalPhaseOpen (jr_phase b) \<and>
          jr_key a = jr_key b"
      then consider "a = j" "b = j" | "a \<in> set (journal db)" "b \<in> set (journal db)"
        using new [of a] new [of b] by (simp, metis)
      then show "jr_id a = jr_id b"
        using old * unfolding one_open_entry_def by cases blast+
    qed
  qed
  moreover have "jr_id j \<notin> jr_id ` set (journal db)" using fresh by fastforce
  moreover have "list_all (\<lambda>r. jr_id r \<le> jr_id j) (journal db)"
    using fresh by (auto simp: list_all_iff intro: less_imp_le)
  ultimately show ?thesis
    using inv ok tr by (simp add: registry_inv_def journal_inv_def tracking_def)
qed

lemma journal_inv_rewrite:
  assumes inv: "registry_inv key_of db" and e: "getBindingJournal db i = Some e"
    and op: "isBindingJournalPhaseOpen (jr_phase e)"
    and keep: "jr_id (f e) = jr_id e" "jr_key (f e) = jr_key e" and ok: "journal_ok (f e)"
    and tr: "isBindingJournalPhaseOpen (jr_phase (f e)) \<Longrightarrow> tracks (assignments db) (f e)"
  shows "registry_inv key_of (put_journal i f db)"
proof -
  let ?u = "update_where (\<lambda>r. jr_id r = i) f (journal db)"
  have d: "distinct (map jr_id (journal db))"
    using inv by (simp add: registry_inv_def journal_inv_def)
  have e': "e \<in> set (journal db)" "jr_id e = i" using journal_table.get_SomeD [OF e] by auto
  have "rewrote jr_id e (f e) (journal db) ?u"
    using rewrote_update_where [OF d, of i e f] e e' keep by (simp add: getBindingJournal_def)
  then have u: "set ?u = insert (f e) {r \<in> set (journal db). jr_id r \<noteq> jr_id e}"
    and m: "map jr_id ?u = map jr_id (journal db)" by (simp_all add: rewrote_def)
  have "one_open_entry ?u"
    unfolding one_open_entry_def
  proof (intro ballI impI)
    fix a b assume "a \<in> set ?u" "b \<in> set ?u" and *: "isBindingJournalPhaseOpen (jr_phase a) \<and>
      isBindingJournalPhaseOpen (jr_phase b) \<and> jr_key a = jr_key b"
    then obtain a' b' where "a' \<in> set (journal db)" "b' \<in> set (journal db)"
      "jr_id a' = jr_id a" "jr_key a' = jr_key a" "isBindingJournalPhaseOpen (jr_phase a')"
      "jr_id b' = jr_id b" "jr_key b' = jr_key b" "isBindingJournalPhaseOpen (jr_phase b')"
      unfolding u using e' op keep by (metis (no_types, lifting) insertE mem_Collect_eq)
    with * inv show "jr_id a = jr_id b"
      unfolding registry_inv_def journal_inv_def one_open_entry_def by metis
  qed
  moreover have "jr_scope (f e) = jr_scope e" using keep by (simp add: jr_key_def)
  ultimately show ?thesis
    using inv ok tr e' keep
    unfolding registry_inv_def journal_inv_def put_journal_def tracking_def
    by (simp add: m list_all_iff u) blast
qed


text \<open>What an applied journal change leaves alone, and what the entry may record afterwards.\<close>

lemma put_assignment_simps [simp]:
  "scopes (put_assignment k f db) = scopes db" "journal (put_assignment k f db) = journal db"
  "journal_seq (put_assignment k f db) = journal_seq db"
  "readScope (put_assignment k f db) s = readScope db s"
  "getBindingJournal (put_assignment k f db) i = getBindingJournal db i"
  "readOpenJournal (put_assignment k f db) k' = readOpenJournal db k'"
  by (simp_all add: put_assignment_def readScope_def getBindingJournal_def readOpenJournal_def)

lemma binding_outcome_row:
  assumes "binding_outcome k db (Inr b, db')" and "registry_inv key_of db"
  shows "readAssignment db' k = Some b \<and> journal db' = journal db \<and>
     journal_seq db' = journal_seq db \<and> scopes db' = scopes db \<and>
     (\<exists>a. readAssignment db k = Some a \<and> row_advances a b)"
proof -
  obtain a f where a: "readAssignment db k = Some a" "b = f a" "admissible_write db k a (f a)"
    "db' = put_assignment k f db" using assms(1) by (auto simp: binding_outcome_def)
  have "as_key (f a) = k"
    using admissible_key [OF a(3)] inv_assignment_ok [OF assms(2) a(1)] by simp
  then show ?thesis
    using a read_put_assignment_row [OF a(1)] by (auto simp: admissible_write_def)
qed

lemma applied_generation:
  assumes "applyJournalAssignmentChange live now k c db = Inr (Inr b, db')"
    and "registry_inv key_of db"
  shows "be_generation (changeExpected c) \<le> as_generation b"
proof -
  have "binding_outcome k db (Inr b, db')"
    by (rule applyJournalAssignmentChange_outcome [OF assms(2,1)])
  from binding_outcome_row [OF this assms(2)] obtain a where
    a: "readAssignment db k = Some a" "row_advances a b" by blast
  have "\<exists>r. checkBinding db k (changeExpected c) True None = Inr r"
    using assms(1)
    by (cases "checkBinding db k (changeExpected c) True None"; cases c)
       (auto simp: applyJournalAssignmentChange_def changeExpected_def commitBindingIn_def
        updateBindingStateIn_def)
  then obtain r where "readAssignment db k = Some r" "bindingMatches r (changeExpected c)"
    by (auto dest: checkBinding_Inr)
  with a show ?thesis by (simp add: bindingMatches_def row_advances_def)
qed

lemma fresh_journal_simps [simp]:
  "jr_id (fresh_journal i k inp a now) = i" "jr_key (fresh_journal i k inp a now) = k"
  "jr_phase (fresh_journal i k inp a now) = oj_phase inp"
  "jr_binding_generation (fresh_journal i k inp a now) = as_generation a"
  "jr_binding_device (fresh_journal i k inp a now) = as_device a"
  by (simp_all add: fresh_journal_def jr_key_def Let_def)

lemma openBindingJournal_cases:
  assumes "openBindingJournal live now k inp db = Inr (r, db')" and "registry_inv key_of db"
  obtains (refused) "db' = pruneJournal now db" "\<forall>j a. r \<noteq> JournalOpened j a"
    | (opened) b db1 where "isBindingJournalPhaseOpen (oj_phase inp)"
        "readOpenJournal (pruneJournal now db) k = None" "0 \<le> snd k"
        "applyJournalAssignmentChange live now k (oj_assignment inp) (pruneJournal now db) =
           Inr (Inr b, db1)"
        "r = JournalOpened (fresh_journal (journal_seq db1 + 1) k inp b now) b"
        "db' = db1\<lparr>journal := journal db1 @ [fresh_journal (journal_seq db1 + 1) k inp b now],
                   journal_seq := journal_seq db1 + 1\<rparr>"
proof (cases "readOpenJournal (pruneJournal now db) k")
  case None
  from assms(1) None obtain q db1 where q:
    "applyJournalAssignmentChange live now k (oj_assignment inp) (pruneJournal now db) = Inr (q, db1)"
    and ok: "isBindingJournalPhaseOpen (oj_phase inp)" "0 \<le> snd k"
    by (auto simp: openBindingJournal_def assertOpenPhase_def assertValidBindingKey_def)
  have keep: "q = Inl f \<Longrightarrow> db1 = pruneJournal now db" for f
    using applyJournalAssignmentChange_outcome [OF pruneJournal_inv [OF assms(2)] q]
    by (simp add: binding_outcome_def)
  show ?thesis
  proof (cases q)
    case (Inl f)
    then show ?thesis
      using assms(1) None q ok keep refused
      by (auto simp: openBindingJournal_def assertOpenPhase_def Let_def)
  next
    case (Inr b)
    show ?thesis
      using assms(1) None q ok Inr
      by (intro opened [of b db1]) (simp_all add: openBindingJournal_def assertOpenPhase_def Let_def)
  qed
next
  case (Some j)
  then show ?thesis
    using assms(1) refused by (auto simp: openBindingJournal_def Let_def)
qed

lemma openBindingJournal_inv:
  assumes inv: "registry_inv key_of db" and run: "openBindingJournal live now k inp db = Inr (r, db')"
  shows "registry_inv key_of db'"
  using run inv
proof (cases rule: openBindingJournal_cases)
  case refused
  then show ?thesis by (simp add: pruneJournal_inv inv)
next
  case (opened b db1)
  let ?j = "fresh_journal (journal_seq db1 + 1) k inp b now"
  note inv0 = pruneJournal_inv [OF inv, of now]
  have out: "binding_outcome k (pruneJournal now db) (Inr b, db1)"
    by (rule applyJournalAssignmentChange_outcome [OF inv0 opened(4)])
  note row = binding_outcome_row [OF out inv0]
  have "be_generation (changeExpected (oj_assignment inp)) \<le> as_generation b"
    by (rule applied_generation [OF opened(4) inv0])
  then have ok: "journal_ok ?j"
    using opened(3) by (simp add: journal_ok_def fresh_journal_def Let_def)
  have tr: "tracks (assignments db1) ?j"
    using row by (simp add: tracks_def readAssignment_def)
  have none: "readOpenJournal db1 (jr_key ?j) = None"
    using row opened(2) by (simp add: readOpenJournal_def)
  from journal_inv_append [OF binding_outcome_inv [OF out inv0] none _ ok tr]
  show ?thesis unfolding opened(6) by simp
qed

lemma journalAdvanceColumns_simps [simp]:
  "jr_id (journalAdvanceColumns e inp a now j) = jr_id j"
  "jr_key (journalAdvanceColumns e inp a now j) = jr_key j"
  "jr_phase (journalAdvanceColumns e inp a now j) = aj_phase inp"
  "jr_binding_generation (journalAdvanceColumns e inp a now j) =
     (case a of Some b \<Rightarrow> as_generation b | None \<Rightarrow> jr_binding_generation j)"
  "jr_binding_device (journalAdvanceColumns e inp a now j) =
     (case a of Some b \<Rightarrow> as_device b | None \<Rightarrow> jr_binding_device j)"
  by (simp_all add: journalAdvanceColumns_def jr_key_def)

lemma journalAdvanceColumns_ok:
  assumes "journal_ok e"
    and "\<And>b. a = Some b \<Longrightarrow> jr_binding_generation e \<le> as_generation b"
  shows "journal_ok (journalAdvanceColumns e inp a now e)"
  using assms
  by (auto simp: journal_ok_def journalAdvanceColumns_def split: option.splits)

lemma inv_journal_ok:
  "registry_inv key_of db \<Longrightarrow> getBindingJournal db i = Some e \<Longrightarrow>
     journal_ok e \<and> jr_id e = i \<and>
     (isBindingJournalPhaseOpen (jr_phase e) \<longrightarrow> tracks (assignments db) e)"
  by (drule journal_table.get_SomeD)
     (simp add: registry_inv_def journal_inv_def tracking_def list_all_iff)

lemma finish_advance_inv:
  assumes inv: "registry_inv key_of db" and e: "getBindingJournal db i = Some e"
    and op: "isBindingJournalPhaseOpen (jr_phase e)"
    and ap: "\<And>b. a = Some b \<Longrightarrow> jr_binding_generation e \<le> as_generation b \<and>
                 readAssignment db (jr_key e) = Some b"
    and run: "finish_advance now e inp a db = Inr (r, db')"
  shows "registry_inv key_of db'"
proof -
  have i: "jr_id e = i" using inv_journal_ok [OF inv e] by simp
  have "tracks (assignments db) (journalAdvanceColumns e inp a now e)"
  proof (cases a)
    case None
    with inv_journal_ok [OF inv e] op show ?thesis by (auto simp: tracks_def split: option.splits)
  next
    case (Some b)
    with ap show ?thesis by (simp add: tracks_def readAssignment_def)
  qed
  moreover have "journal_ok (journalAdvanceColumns e inp a now e)"
    using inv_journal_ok [OF inv e] ap by (intro journalAdvanceColumns_ok) auto
  ultimately have "registry_inv key_of (put_journal i (journalAdvanceColumns e inp a now) db)"
    by (intro journal_inv_rewrite [OF inv e op]) simp_all
  with run i show ?thesis by (auto simp: finish_advance_def Let_def)
qed

lemma advanceBindingJournal_cases:
  assumes "advanceBindingJournal live now i inp db = Inr (r, db')" and "registry_inv key_of db"
  obtains (refused) "db' = db" "\<forall>j a. r \<noteq> JournalAdvanced j a"
    | (phase) e where "getBindingJournal db i = Some e" "advanceable e inp"
        "finish_advance now e inp None db = Inr (r, db')"
    | (changed) e c b db1 where "getBindingJournal db i = Some e" "advanceable e inp"
        "aj_assignment inp = Some c" "sameBinding (jr_binding e) (changeExpected c)"
        "applyJournalAssignmentChange live now (jr_key e) c db = Inr (Inr b, db1)"
        "finish_advance now e inp (Some b) db1 = Inr (r, db')"
proof (cases "getBindingJournal db i")
  case None
  then show ?thesis using assms(1) refused by (auto simp: advanceBindingJournal_def)
next
  case (Some e)
  show ?thesis
  proof (cases "advanceable e inp")
    case False
    then show ?thesis using assms(1) Some refused by (auto simp: advanceBindingJournal_def)
  next
    case adv: True
    show ?thesis
    proof (cases "aj_assignment inp")
      case None
      then show ?thesis using assms(1) Some adv phase by (auto simp: advanceBindingJournal_def)
    next
      case c: (Some c)
      show ?thesis
      proof (cases "sameBinding (jr_binding e) (changeExpected c)")
        case False
        then show ?thesis
          using assms(1) Some adv c refused by (auto simp: advanceBindingJournal_def)
      next
        case same: True
        then obtain q db1 where
          q: "applyJournalAssignmentChange live now (jr_key e) c db = Inr (q, db1)"
          using assms(1) Some adv c by (auto simp: advanceBindingJournal_def)
        show ?thesis
        proof (cases q)
          case (Inl f)
          then have "db1 = db"
            using applyJournalAssignmentChange_outcome [OF assms(2) q]
            by (simp add: binding_outcome_def)
          with Inl show ?thesis
            using assms(1) Some adv c same q refused by (auto simp: advanceBindingJournal_def)
        next
          case (Inr b)
          then show ?thesis
            using assms(1) Some adv c same q
            by (intro changed [of e c b db1]) (simp_all add: advanceBindingJournal_def)
        qed
      qed
    qed
  qed
qed

lemma advanceBindingJournal_inv:
  assumes inv: "registry_inv key_of db"
    and run: "advanceBindingJournal live now i inp db = Inr (r, db')"
  shows "registry_inv key_of db'"
  using run inv
proof (cases rule: advanceBindingJournal_cases)
  case refused
  then show ?thesis by (simp add: inv)
next
  case (phase e)
  then have "isBindingJournalPhaseOpen (jr_phase e)" unfolding advanceable_def by blast
  from finish_advance_inv [OF inv phase(1) this _ phase(3)] show ?thesis by simp
next
  case (changed e c b db1)
  have out: "binding_outcome (jr_key e) db (Inr b, db1)"
    by (rule applyJournalAssignmentChange_outcome [OF inv changed(5)])
  note row = binding_outcome_row [OF out inv]
  have "jr_binding_generation e \<le> as_generation b"
    using applied_generation [OF changed(5) inv] changed(4)
    by (simp add: sameBinding_def jr_binding_def)
  then show ?thesis
    using row changed
    by (intro finish_advance_inv [OF binding_outcome_inv [OF out inv] _ _ _ changed(6), of i])
       (auto simp: advanceable_def getBindingJournal_def)
qed

lemma claimBindingJournal_inv:
  assumes inv: "registry_inv key_of db" and run: "claimBindingJournal now i x y db = Inr (r, db')"
  shows "registry_inv key_of db'"
proof -
  consider "db' = db" | e where "getBindingJournal db i = Some e"
      "isBindingJournalPhaseOpen (jr_phase e)" "db' = put_journal i (owner_columns y now) db"
    using run by (auto simp: claimBindingJournal_def Let_def split: option.splits if_splits)
  then show ?thesis
  proof cases
    case 2
    have "tracks (assignments db) (owner_columns y now e) = tracks (assignments db) e"
      by (rule tracks_cong) (simp_all add: owner_columns_def jr_key_def)
    with inv_journal_ok [OF inv 2(1)] 2(2) show ?thesis
      unfolding 2(3)
      by (intro journal_inv_rewrite [OF inv 2(1,2)])
         (simp_all add: owner_columns_def journal_ok_def jr_key_def)
  qed (simp add: inv)
qed

end
