(* ===== verification/RegistrySteps.thy ===== *)
theory RegistrySteps
  imports RegistryInvariant
begin

text \<open>
  The registry as a transition system: one rule per write transaction of \<open>SqliteBindingRegistry\<close>,
  with any clock reading, any liveness answer and any caller, so a run is any serial order of the
  transactions of any number of processes (\<open>BEGIN IMMEDIATE\<close> serialises them). The invariant holds
  in every reachable database; while a binding row exists its generation never goes back and the
  device changes only together with the generation; a terminal journal entry never changes.
\<close>

inductive registry_step ::
  "(scope_identity \<Rightarrow> string) \<Rightarrow> ('x) registry_db_scheme \<Rightarrow> ('x) registry_db_scheme \<Rightarrow> bool"
  for key_of where
  ensureScope: "ensureScope key_of now i db = Inr (r, db') \<Longrightarrow> registry_step key_of db db'"
| initBinding: "initBinding now k i db = Inr (r, db') \<Longrightarrow> registry_step key_of db db'"
| removeUnboundBinding: "removeUnboundBinding k g db = Inr (r, db') \<Longrightarrow> registry_step key_of db db'"
| commitBinding: "commitBinding now k e nxt db = Inr (r, db') \<Longrightarrow> registry_step key_of db db'"
| updateBindingState:
    "updateBindingState live now k e st s db = Inr (r, db') \<Longrightarrow> registry_step key_of db db'"
| claimExecution:
    "claimExecution live now k e w sps db = Inr (r, db') \<Longrightarrow> registry_step key_of db db'"
| releaseExecution: "releaseExecution now k u db = Inr (r, db') \<Longrightarrow> registry_step key_of db db'"
| recoverSettledBindings:
    "recoverSettledBindings live now sk db = Inr (r, db') \<Longrightarrow> registry_step key_of db db'"
| openBindingJournal:
    "openBindingJournal live now k inp db = Inr (r, db') \<Longrightarrow> registry_step key_of db db'"
| advanceBindingJournal:
    "advanceBindingJournal live now i adv db = Inr (r, db') \<Longrightarrow> registry_step key_of db db'"
| claimBindingJournal:
    "claimBindingJournal now i x y db = Inr (r, db') \<Longrightarrow> registry_step key_of db db'"

lemma commitBinding_outcome:
  "registry_inv key_of db \<Longrightarrow> commitBinding now k e nxt db = Inr out \<Longrightarrow> binding_outcome k db out"
  by (auto simp: commitBinding_def intro: commitBindingIn_outcome)

lemma updateBindingState_outcome:
  "registry_inv key_of db \<Longrightarrow> updateBindingState live now k e st s db = Inr out \<Longrightarrow>
     binding_outcome k db out"
  by (auto simp: updateBindingState_def intro: updateBindingStateIn_outcome)

lemma registry_step_inv:
  assumes "registry_step key_of db db'" and "registry_inv key_of db" and "inj key_of"
  shows "registry_inv key_of db'"
  using assms
proof (induction rule: registry_step.induct)
  case (commitBinding now k e nxt db r db')
  then show ?case using commitBinding_outcome binding_outcome_inv by blast
next
  case (updateBindingState live now k e st s db r db')
  then show ?case using updateBindingState_outcome binding_outcome_inv by blast
next
  case (claimExecution live now k e w sps db r db')
  then show ?case using claimExecution_outcome binding_outcome_inv by blast
next
  case (recoverSettledBindings live now sk db r db')
  then show ?case using settle_all_inv by (auto simp: recoverSettledBindings_def)
qed (auto intro: ensureScope_inv initBinding_inv removeUnboundBinding_inv releaseExecution_inv
       openBindingJournal_inv advanceBindingJournal_inv claimBindingJournal_inv)

section \<open>How a step treats a binding row and a journal entry\<close>

text \<open>Every row that survives a step advances; only an unbound provisioning row can disappear.\<close>

definition rows_advance :: "('x) registry_db_scheme \<Rightarrow> 'x registry_db_scheme \<Rightarrow> bool" where
  "rows_advance db db' \<longleftrightarrow> (\<forall>k a. readAssignment db k = Some a \<longrightarrow>
     (case readAssignment db' k of
        None \<Rightarrow> as_device a = None \<and> as_state a = Provisioning \<and> toExecOwner a = None \<and>
                readOpenJournal db k = None
      | Some b \<Rightarrow> row_advances a b))"

definition rows_survive :: "('x) registry_db_scheme \<Rightarrow> 'x registry_db_scheme \<Rightarrow> bool" where
  "rows_survive db db' \<longleftrightarrow> (\<forall>k a. readAssignment db k = Some a \<longrightarrow>
     (\<exists>b. readAssignment db' k = Some b \<and> row_advances a b))"

lemma rows_survive_advance: "rows_survive db db' \<Longrightarrow> rows_advance db db'"
  unfolding rows_survive_def rows_advance_def by (metis (no_types, lifting) option.simps(5))

lemma rows_survive_trans:
  "rows_survive db1 db2 \<Longrightarrow> rows_survive db2 db3 \<Longrightarrow> rows_survive db1 db3"
  unfolding rows_survive_def using row_advances_trans by blast

lemma rows_survive_same: "assignments db' = assignments db \<Longrightarrow> rows_survive db db'"
  by (simp add: rows_survive_def readAssignment_def)

lemma read_put_assignment:
  assumes inv: "registry_inv key_of db" and a: "readAssignment db k = Some a"
    and key: "as_key (f a) = k"
  shows "readAssignment (put_assignment k f db) k' =
    (if k' = k then Some (f a) else readAssignment db k')"
proof -
  have d: "distinct (map as_key (assignments db))"
    using inv by (simp add: registry_inv_def assignments_inv_def)
  have k: "as_key a = k" using assignment_table.get_SomeD [OF a] by simp
  have rw: "rewrote as_key a (f a) (assignments db) (assignments (put_assignment k f db))"
    unfolding put_assignment_def
    using rewrote_update_where [OF d, of k a f] a k key by (simp add: readAssignment_def)
  show ?thesis
    using rewrote_get [OF rw d, of k'] k by (simp add: readAssignment_def)
qed

lemma rows_survive_put:
  assumes inv: "registry_inv key_of db" and a: "readAssignment db k = Some a"
    and adm: "admissible_write db k a (f a)"
  shows "rows_survive db (put_assignment k f db)"
proof -
  have "as_key (f a) = k"
    using admissible_key [OF adm] assignment_table.get_SomeD [OF a] by simp
  note rd = read_put_assignment [where f = f, OF inv a this]
  have "row_advances a (f a)" using adm by (simp add: admissible_write_def)
  then show ?thesis using a unfolding rows_survive_def rd by auto
qed

lemma binding_outcome_survive:
  assumes "binding_outcome k db (r, db')" and "registry_inv key_of db"
  shows "rows_survive db db'"
proof (cases r)
  case (Inl f)
  with assms show ?thesis by (simp add: binding_outcome_def rows_survive_same)
next
  case (Inr b)
  with assms(1) obtain a f where "readAssignment db k = Some a" "admissible_write db k a (f a)"
    "db' = put_assignment k f db" by (auto simp: binding_outcome_def)
  then show ?thesis using rows_survive_put [OF assms(2)] by simp
qed

lemma settle_one_survive:
  assumes inv: "registry_inv key_of db" and run: "settle_one now a db = Inr (r, db')"
  shows "rows_survive db db'"
proof -
  obtain b where b: "readAssignment db (as_key a) = Some b"
    and db': "db' = put_assignment (as_key a) (settle_columns (as_generation a) now) db"
    using run by (auto simp: settle_one_def split: option.splits if_splits)
  show ?thesis
    unfolding db' using inv_assignment_ok [OF inv b]
    by (intro rows_survive_put [OF inv b]) (simp add: settle_columns_admissible)
qed

lemma settle_all_survive:
  "settle_all now rows db = Inr (r, db') \<Longrightarrow> registry_inv key_of db \<Longrightarrow> rows_survive db db'"
proof (induction rows arbitrary: db r)
  case (Cons a rows)
  then obtain r1 db1 rs where one: "settle_one now a db = Inr (r1, db1)"
    and rest: "settle_all now rows db1 = Inr (rs, db')" by auto
  have "rows_survive db1 db'"
    by (rule Cons.IH [OF rest settle_one_inv [OF Cons.prems(2) one]])
  with settle_one_survive [OF Cons.prems(2) one] show ?case by (rule rows_survive_trans)
qed (simp add: rows_survive_same)

lemma put_scope_simps [simp]:
  "assignments (put_scope k f db) = assignments db" "journal (put_scope k f db) = journal db"
  "readAssignment (put_scope k f db) b = readAssignment db b"
  by (simp_all add: put_scope_def readAssignment_def)

lemma put_journal_simps [simp]:
  "assignments (put_journal i f db) = assignments db" "scopes (put_journal i f db) = scopes db"
  by (simp_all add: put_journal_def)

lemma finish_advance_db:
  "finish_advance now e inp a db = Inr (r, db') \<Longrightarrow>
     db' = put_journal (jr_id e) (journalAdvanceColumns e inp a now) db \<and>
     (\<exists>j. getBindingJournal db' (jr_id e) = Some j \<and> r = JournalAdvanced j a)"
  by (auto simp: finish_advance_def Let_def)

lemma initBinding_survive: "initBinding now k i db = Inr (r, db') \<Longrightarrow> rows_survive db db'"
  by (auto simp: initBinding_def Let_def rows_survive_def readAssignment_def get_row_snoc
      split: option.splits if_splits)

lemma releaseExecution_survive:
  assumes inv: "registry_inv key_of db" and run: "releaseExecution now k u db = Inr (r, db')"
  shows "rows_survive db db'"
proof (cases "assignments db' = assignments db")
  case False
  then obtain a where a: "readAssignment db k = Some a"
    and db': "assignments db' = assignments (put_assignment k (release_columns u now) db)"
    using run by (auto simp: releaseExecution_def Let_def split: option.splits if_splits)
  have "rows_survive db (put_assignment k (release_columns u now) db)"
    using inv_assignment_ok [OF inv a]
    by (intro rows_survive_put [OF inv a]) (simp add: release_columns_admissible)
  then show ?thesis using db' by (simp add: rows_survive_def readAssignment_def)
qed (rule rows_survive_same)

lemma removeUnbound_advance:
  assumes inv: "registry_inv key_of db" and run: "removeUnboundBinding k g db = Inr (r, db')"
  shows "rows_advance db db'"
proof (cases "readOpenJournal db k")
  case None
  then have db': "assignments db' = delete_where (unboundRow k g) (assignments db)"
    using run by (auto simp: removeUnboundBinding_def)
  have d: "distinct (map as_key (assignments db))"
    using inv by (simp add: registry_inv_def assignments_inv_def)
  show ?thesis
    unfolding rows_advance_def readAssignment_def db' get_row_delete [OF d]
    using None by (auto simp: unboundRow_def toExecOwner_def dest: get_row_SomeD)
next
  case (Some j)
  then show ?thesis
    using run by (auto simp: removeUnboundBinding_def intro: rows_survive_advance rows_survive_same)
qed

lemma openBindingJournal_survive:
  assumes inv: "registry_inv key_of db" and run: "openBindingJournal live now k inp db = Inr (r, db')"
  shows "rows_survive db db'"
  using run inv
proof (cases rule: openBindingJournal_cases)
  case refused
  then show ?thesis by (simp add: rows_survive_same)
next
  case (opened b db1)
  have "rows_survive (pruneJournal now db) db1"
    using applyJournalAssignmentChange_outcome [OF pruneJournal_inv [OF inv] opened(4)]
      binding_outcome_survive pruneJournal_inv [OF inv] by blast
  then show ?thesis
    unfolding opened(6) by (simp add: rows_survive_def readAssignment_def)
qed

lemma advanceBindingJournal_survive:
  assumes inv: "registry_inv key_of db"
    and run: "advanceBindingJournal live now i inp db = Inr (r, db')"
  shows "rows_survive db db'"
  using run inv
proof (cases rule: advanceBindingJournal_cases)
  case (changed e c b db1)
  have "rows_survive db db1"
    using applyJournalAssignmentChange_outcome [OF inv changed(5)]
      binding_outcome_survive inv by blast
  with finish_advance_db [OF changed(6)] show ?thesis
    by (simp add: rows_survive_def readAssignment_def)
qed (auto dest!: finish_advance_db intro: rows_survive_same)

lemma ensureScope_survive:
  "ensureScope key_of now i db = Inr (r, db') \<Longrightarrow> rows_survive db db'"
  by (erule ensureScope_cases) (auto intro: rows_survive_same)

lemma claimBindingJournal_survive:
  "claimBindingJournal now i x y db = Inr (r, db') \<Longrightarrow> rows_survive db db'"
  by (rule rows_survive_same)
     (auto simp: claimBindingJournal_def Let_def split: option.splits if_splits)

lemma registry_step_advance:
  assumes "registry_step key_of db db'" and "registry_inv key_of db"
  shows "rows_advance db db'"
  using assms
proof (induction rule: registry_step.induct)
  case (commitBinding now k e nxt db r db')
  then show ?case
    using commitBinding_outcome binding_outcome_survive rows_survive_advance by blast
next
  case (updateBindingState live now k e st s db r db')
  then show ?case
    using updateBindingState_outcome binding_outcome_survive rows_survive_advance by blast
next
  case (claimExecution live now k e w sps db r db')
  then show ?case
    using claimExecution_outcome binding_outcome_survive rows_survive_advance by blast
next
  case (recoverSettledBindings live now sk db r db')
  then show ?case
    unfolding recoverSettledBindings_def using settle_all_survive rows_survive_advance by blast
qed (auto intro: rows_survive_advance ensureScope_survive initBinding_survive
       releaseExecution_survive openBindingJournal_survive advanceBindingJournal_survive
       claimBindingJournal_survive removeUnbound_advance)


section \<open>Journal entries over time\<close>

text \<open>
  An entry keeps its identity, its binding generation and attempt count never go back, a terminal
  entry never changes again, and an id once used and pruned is never used for another entry.
\<close>

definition entry_advances :: "journal_row \<Rightarrow> journal_row \<Rightarrow> bool" where
  "entry_advances e f \<longleftrightarrow> jr_key f = jr_key e \<and> jr_kind f = jr_kind e \<and>
     jr_platform f = jr_platform e \<and> jr_from_generation f = jr_from_generation e \<and>
     jr_created f = jr_created e \<and> jr_binding_generation e \<le> jr_binding_generation f \<and>
     jr_attempts e \<le> jr_attempts f \<and> (\<not> isBindingJournalPhaseOpen (jr_phase e) \<longrightarrow> f = e)"

lemma entry_advances_refl [simp]: "entry_advances e e"
  by (simp add: entry_advances_def)

lemma entry_advances_trans: "entry_advances a b \<Longrightarrow> entry_advances b c \<Longrightarrow> entry_advances a c"
  unfolding entry_advances_def by auto

definition journal_le :: "('x) registry_db_scheme \<Rightarrow> 'x registry_db_scheme \<Rightarrow> bool" where
  "journal_le db db' \<longleftrightarrow> journal_seq db \<le> journal_seq db' \<and>
     (\<forall>i f. i \<le> journal_seq db \<and> getBindingJournal db' i = Some f \<longrightarrow>
        (\<exists>e. getBindingJournal db i = Some e \<and> entry_advances e f))"

lemma journal_le_refl: "journal_le db db"
  by (simp add: journal_le_def)

lemma journal_le_trans: "journal_le a b \<Longrightarrow> journal_le b c \<Longrightarrow> journal_le a c"
  unfolding journal_le_def by (meson entry_advances_trans order_trans)

lemma journal_le_same:
  "journal db' = journal db \<Longrightarrow> journal_seq db' = journal_seq db \<Longrightarrow> journal_le db db'"
  by (simp add: journal_le_def getBindingJournal_def)

lemma journal_le_prune:
  assumes "registry_inv key_of db"
  shows "journal_le db (pruneJournal now db)"
proof -
  have "distinct (map jr_id (journal db))"
    using assms by (simp add: registry_inv_def journal_inv_def)
  from get_row_delete [OF this] show ?thesis
    by (auto simp: journal_le_def getBindingJournal_def pruneJournal_def
        split: option.splits if_splits)
qed

lemma journal_le_append:
  assumes "jr_id j = journal_seq db + 1"
  shows "journal_le db (db\<lparr>journal := journal db @ [j], journal_seq := jr_id j\<rparr>)"
  using assms
  by (auto simp: journal_le_def getBindingJournal_def get_row_snoc split: option.splits if_splits)

lemma journal_le_put:
  assumes inv: "registry_inv key_of db" and e: "getBindingJournal db i = Some e"
    and adv: "entry_advances e (f e)" and id: "jr_id (f e) = jr_id e"
  shows "journal_le db (put_journal i f db)"
proof -
  have d: "distinct (map jr_id (journal db))"
    using inv by (simp add: registry_inv_def journal_inv_def)
  have i: "jr_id e = i" using journal_table.get_SomeD [OF e] by simp
  have rw: "rewrote jr_id e (f e) (journal db) (journal (put_journal i f db))"
    unfolding put_journal_def
    using rewrote_update_where [OF d, of i e f] e i id by (simp add: getBindingJournal_def)
  have "getBindingJournal (put_journal i f db) i' =
     (if i' = i then Some (f e) else getBindingJournal db i')" for i'
    using rewrote_get [OF rw d, of i'] i by (simp add: getBindingJournal_def)
  moreover have "journal_seq (put_journal i f db) = journal_seq db" by (simp add: put_journal_def)
  ultimately show ?thesis using e adv by (auto simp: journal_le_def split: if_splits)
qed

lemma finish_advance_le:
  assumes inv: "registry_inv key_of db" and e: "getBindingJournal db i = Some e"
    and op: "isBindingJournalPhaseOpen (jr_phase e)"
    and ap: "\<And>b. a = Some b \<Longrightarrow> jr_binding_generation e \<le> as_generation b"
    and run: "finish_advance now e inp a db = Inr (r, db')"
  shows "journal_le db db'"
proof -
  have "entry_advances e (journalAdvanceColumns e inp a now e)"
    using op ap
    by (auto simp: entry_advances_def journalAdvanceColumns_def jr_key_def split: option.splits)
  from journal_le_put [where f = "journalAdvanceColumns e inp a now", OF inv e this] show ?thesis
    using finish_advance_db [OF run] journal_table.get_SomeD [OF e] by simp
qed

lemma binding_outcome_journal:
  "binding_outcome k db (r, db') \<Longrightarrow> journal_le db db'"
  by (rule journal_le_same) (auto simp: binding_outcome_def split: sum.splits)

lemma advanceBindingJournal_le:
  assumes inv: "registry_inv key_of db"
    and run: "advanceBindingJournal live now i inp db = Inr (r, db')"
  shows "journal_le db db'"
  using run inv
proof (cases rule: advanceBindingJournal_cases)
  case refused
  then show ?thesis by (simp add: journal_le_refl)
next
  case (phase e)
  then have "isBindingJournalPhaseOpen (jr_phase e)" unfolding advanceable_def by blast
  from finish_advance_le [OF inv phase(1) this _ phase(3)] show ?thesis by simp
next
  case (changed e c b db1)
  then have op: "isBindingJournalPhaseOpen (jr_phase e)" unfolding advanceable_def by blast
  have out: "binding_outcome (jr_key e) db (Inr b, db1)"
    by (rule applyJournalAssignmentChange_outcome [OF inv changed(5)])
  have "jr_binding_generation e \<le> as_generation b"
    using applied_generation [OF changed(5) inv] changed(4)
    by (simp add: sameBinding_def jr_binding_def)
  moreover have "getBindingJournal db1 i = Some e"
    using binding_outcome_row [OF out inv] changed(1) by (simp add: getBindingJournal_def)
  ultimately have "journal_le db1 db'"
    using finish_advance_le [OF binding_outcome_inv [OF out inv] _ op _ changed(6)] by simp
  with binding_outcome_journal [OF out] show ?thesis by (rule journal_le_trans)
qed

lemma openBindingJournal_le:
  assumes inv: "registry_inv key_of db" and run: "openBindingJournal live now k inp db = Inr (r, db')"
  shows "journal_le db db'"
  using run inv
proof (cases rule: openBindingJournal_cases)
  case refused
  then show ?thesis by (simp add: journal_le_prune [OF inv])
next
  case (opened b db1)
  have "binding_outcome k (pruneJournal now db) (Inr b, db1)"
    by (rule applyJournalAssignmentChange_outcome [OF pruneJournal_inv [OF inv] opened(4)])
  from journal_le_trans [OF journal_le_prune [OF inv] binding_outcome_journal [OF this]]
  have "journal_le db db1" .
  moreover have "journal_le db1 db'"
    unfolding opened(6)
    using journal_le_append [of "fresh_journal (journal_seq db1 + 1) k inp b now" db1] by simp
  ultimately show ?thesis by (rule journal_le_trans)
qed

lemma claimBindingJournal_le:
  assumes inv: "registry_inv key_of db" and run: "claimBindingJournal now i x y db = Inr (r, db')"
  shows "journal_le db db'"
proof -
  consider "db' = db" | e where "getBindingJournal db i = Some e"
      "isBindingJournalPhaseOpen (jr_phase e)" "db' = put_journal i (owner_columns y now) db"
    using run by (auto simp: claimBindingJournal_def Let_def split: option.splits if_splits)
  then show ?thesis
  proof cases
    case 2
    then show ?thesis
      by (auto intro!: journal_le_put [OF inv] simp: entry_advances_def owner_columns_def jr_key_def)
  qed (simp add: journal_le_refl)
qed

lemma settle_all_journal:
  "settle_all now rows db = Inr (r, db') \<Longrightarrow> journal_le db db'"
proof (induction rows arbitrary: db r)
  case (Cons a rows)
  then obtain r1 db1 rs where one: "settle_one now a db = Inr (r1, db1)"
    and rest: "settle_all now rows db1 = Inr (rs, db')" by auto
  have "journal_le db db1"
    using one by (intro journal_le_same) (auto simp: settle_one_def split: option.splits if_splits)
  with Cons.IH [OF rest] show ?case using journal_le_trans by blast
qed (simp add: journal_le_refl)

lemma registry_step_journal:
  assumes "registry_step key_of db db'" and "registry_inv key_of db"
  shows "journal_le db db'"
  using assms
proof (induction rule: registry_step.induct)
  case (ensureScope now i db r db')
  from ensureScope.hyps show ?case
    by (cases rule: ensureScope_cases) (auto intro: journal_le_same simp: put_scope_def)
next
  case (commitBinding now k e nxt db r db')
  then show ?case using commitBinding_outcome binding_outcome_journal by blast
next
  case (updateBindingState live now k e st s db r db')
  then show ?case using updateBindingState_outcome binding_outcome_journal by blast
next
  case (claimExecution live now k e w sps db r db')
  then show ?case using claimExecution_outcome binding_outcome_journal by blast
next
  case (recoverSettledBindings live now sk db r db')
  then show ?case unfolding recoverSettledBindings_def using settle_all_journal by blast
next
  case (initBinding now k i db r db')
  then show ?case
    by (intro journal_le_same) (auto simp: initBinding_def Let_def split: option.splits if_splits)
next
  case (removeUnboundBinding k g db r db')
  then show ?case
    by (intro journal_le_same) (auto simp: removeUnboundBinding_def split: if_splits)
next
  case (releaseExecution now k u db r db')
  then show ?case
    by (intro journal_le_same)
       (auto simp: releaseExecution_def Let_def put_scope_def split: option.splits if_splits)
qed (auto intro: openBindingJournal_le advanceBindingJournal_le claimBindingJournal_le)

section \<open>Runs\<close>

definition empty_registry :: registry_db where
  "empty_registry = \<lparr>scopes = [], assignments = [], journal = [], journal_seq = 0\<rparr>"

lemma empty_registry_inv: "registry_inv key_of empty_registry"
  by (simp add: empty_registry_def registry_inv_def scopes_inv_def assignments_inv_def
      journal_inv_def tracking_def one_live_scope_def device_exclusive_def one_open_entry_def)

definition safe_registry :: "(scope_identity \<Rightarrow> string) \<Rightarrow> ('x) registry_db_scheme \<Rightarrow> bool" where
  "safe_registry key_of db \<longleftrightarrow> (inj key_of \<longrightarrow> registry_inv key_of db)"

interpretation registry_runs:
  invariant_system empty_registry "registry_step key_of" "safe_registry key_of"
  for key_of :: "scope_identity \<Rightarrow> string"
  by unfold_locales
     (auto simp: safe_registry_def empty_registry_inv intro: registry_step_inv)

text \<open>A step during which the binding \<open>k\<close> exists before and after.\<close>

definition kept_step ::
  "(scope_identity \<Rightarrow> string) \<Rightarrow> binding_key \<Rightarrow> ('x) registry_db_scheme \<Rightarrow> 'x registry_db_scheme \<Rightarrow> bool" where
  "kept_step key_of k db db' \<longleftrightarrow> registry_step key_of db db' \<and> readAssignment db' k \<noteq> None"

definition binding_le :: "binding_key \<Rightarrow> ('x) registry_db_scheme \<Rightarrow> 'x registry_db_scheme \<Rightarrow> bool" where
  "binding_le k db db' \<longleftrightarrow>
     (case readAssignment db k of
        None \<Rightarrow> readAssignment db' k = None
      | Some a \<Rightarrow> (case readAssignment db' k of None \<Rightarrow> False | Some b \<Rightarrow> row_advances a b))"

lemma kept_step_le:
  assumes "kept_step key_of k db db'" and "registry_inv key_of db" and "readAssignment db k \<noteq> None"
  shows "binding_le k db db'"
proof -
  have "rows_advance db db'"
    using assms(1,2) registry_step_advance by (auto simp: kept_step_def)
  moreover obtain a b where "readAssignment db k = Some a" "readAssignment db' k = Some b"
    using assms(1,3) by (auto simp: kept_step_def)
  ultimately show ?thesis
    unfolding rows_advance_def binding_le_def by (metis option.simps(5))
qed

interpretation binding_runs:
  monotone_system "kept_step key_of k"
    "\<lambda>db. inj key_of \<and> registry_inv key_of db \<and> readAssignment db k \<noteq> None" "binding_le k"
  for key_of :: "scope_identity \<Rightarrow> string" and k :: binding_key
proof unfold_locales
  fix s t :: "'a registry_db_scheme"
  assume "inj key_of \<and> registry_inv key_of s \<and> readAssignment s k \<noteq> None"
    and "kept_step key_of k s t"
  then show "(inj key_of \<and> registry_inv key_of t \<and> readAssignment t k \<noteq> None) \<and> binding_le k s t"
    using kept_step_le registry_step_inv unfolding kept_step_def by blast
next
  fix s t u :: "'a registry_db_scheme"
  show "binding_le k s s" by (simp add: binding_le_def split: option.splits)
  show "binding_le k s t \<Longrightarrow> binding_le k t u \<Longrightarrow> binding_le k s u"
    by (auto simp: binding_le_def intro: row_advances_trans split: option.splits)
qed

interpretation journal_runs:
  monotone_system "registry_step key_of" "\<lambda>db. inj key_of \<and> registry_inv key_of db" journal_le
  for key_of :: "scope_identity \<Rightarrow> string"
  by unfold_locales
     (auto intro: registry_step_inv registry_step_journal journal_le_refl journal_le_trans)

end
