(* ===== verification/StoreInvariant.thy ===== *)
theory StoreInvariant
  imports Store RegistrySteps
begin

text \<open>
  The invariant of the broker store. A resource that is reserved, active or resetting belongs to
  exactly the request that is acquiring, active or releasing it; an idle resource belongs to nobody;
  an unfinished request holds the resource it names. Rows are keyed, session ids are unique, an
  export names an existing receipt.
\<close>

section \<open>The invariant\<close>

fun pair_ok :: "request_state \<Rightarrow> resource_state \<Rightarrow> bool" where
  "pair_ok q Reserved = (q = Acquiring)"
| "pair_ok q Active = (q = RActive)"
| "pair_ok q Resetting = (q = Releasing)"
| "pair_ok q Destroying = (q \<noteq> RActive)"
| "pair_ok q _ = False"

definition links :: "request_row \<Rightarrow> resource_row \<Rightarrow> bool" where
  "links q s \<longleftrightarrow> rq_resource q = Some (rs_id s) \<and> pair_ok (rq_state q) (rs_state s)"

definition resource_ok :: "request_row list \<Rightarrow> resource_row \<Rightarrow> bool" where
  "resource_ok R s \<longleftrightarrow> 0 < rs_revision s \<and> 0 \<le> rs_reuse s \<and> rs_id s \<noteq> [] \<and> rs_state s \<noteq> Unknown \<and>
     (case rs_request s of
        None \<Rightarrow> rs_state s = Idle \<or> rs_state s = Destroying \<or> rs_state s = Destroyed
      | Some k \<Rightarrow> rs_state s \<noteq> Idle \<and>
          (case get_row rq_id k R of None \<Rightarrow> False
           | Some q \<Rightarrow> rs_state s = Destroyed \<or> links q s))"

definition holds_resource :: "resource_row list \<Rightarrow> request_row \<Rightarrow> bool" where
  "holds_resource S q \<longleftrightarrow>
     (case rq_resource q of None \<Rightarrow> False
      | Some k \<Rightarrow> (case get_row rs_id k S of None \<Rightarrow> False
          | Some s \<Rightarrow> rs_request s = Some (rq_id q) \<and>
              (pair_ok (rq_state q) (rs_state s) \<or> rq_state q = Acquiring \<and> rs_state s = Destroyed)))"

definition request_ok :: "resource_row list \<Rightarrow> request_row \<Rightarrow> bool" where
  "request_ok S q \<longleftrightarrow> rq_id q \<noteq> [] \<and>
     (\<not> isTerminalState (rq_state q) \<longrightarrow> rq_terminal q = None \<and>
        (rq_state q = Acquiring \<and> rq_resource q = None \<or> holds_resource S q)) \<and>
     (rq_state q = Acquiring \<longrightarrow> rq_session q = None) \<and>
     (rq_state q = RActive \<or> rq_state q = Releasing \<longrightarrow> rq_session q \<noteq> None)"

definition tables_inv :: "request_row list \<Rightarrow> resource_row list \<Rightarrow> bool" where
  "tables_inv R S \<longleftrightarrow> distinct (map rq_id R) \<and> distinct (map rs_id S) \<and>
     list_all (request_ok S) R \<and> list_all (resource_ok R) S"

definition sessions_unique :: "request_row list \<Rightarrow> bool" where
  "sessions_unique R \<longleftrightarrow> (\<forall>p\<in>set R. \<forall>q\<in>set R. rq_session p \<noteq> None \<and> rq_session p = rq_session q \<longrightarrow>
     rq_id p = rq_id q)"

definition index_inv :: "int \<Rightarrow> resource_row list \<Rightarrow> bool" where
  "index_inv m S \<longleftrightarrow> distinct (map rs_index S) \<and> list_all (\<lambda>s. rs_index s \<le> m) S"

definition exports_inv :: "string set \<Rightarrow> export_row list \<Rightarrow> bool" where
  "exports_inv ks E \<longleftrightarrow> distinct (map ex_prepare E) \<and> distinct (map ex_request E) \<and>
     ex_request ` set E \<subseteq> ks"

definition broker_inv :: "broker_db \<Rightarrow> bool" where
  "broker_inv db \<longleftrightarrow> tables_inv (requests db) (resources db) \<and> sessions_unique (requests db) \<and>
     index_inv (resource_seq db) (resources db) \<and>
     exports_inv (rq_id ` set (requests db)) (exports db)"

section \<open>Framing: what a write to one pair of rows leaves intact\<close>

lemma rewrote_refl: "a \<in> set t \<Longrightarrow> distinct (map key t) \<Longrightarrow> rewrote key a a t t"
  by (auto simp: rewrote_def distinct_map inj_on_def)

lemma resource_frame:
  assumes "resource_ok R t" and rw: "rewrote rq_id q q' R R'" and d: "distinct (map rq_id R)"
    and keep: "rs_request t = Some (rq_id q) \<Longrightarrow> rs_state t = Destroyed \<or> links q' t"
  shows "resource_ok R' t"
  using assms(1) keep unfolding resource_ok_def rewrote_get [OF rw d]
  by (auto split: option.splits)

lemma request_frame:
  assumes "request_ok S p" and rw: "rewrote rs_id s s' S S'" and d: "distinct (map rs_id S)"
    and keep: "rs_request s \<noteq> Some (rq_id p)"
  shows "request_ok S' p"
proof -
  have "get_row rs_id (rs_id s) S = Some s"
    using rw d by (auto simp: rewrote_def intro: get_row_in_set)
  then show ?thesis
    using assms(1) keep unfolding request_ok_def holds_resource_def rewrote_get [OF rw d]
    by (auto split: option.splits)
qed

text \<open>Rewriting a request and the one resource it may own.\<close>

lemma tables_inv_pair:
  assumes inv: "tables_inv R S"
    and rq: "rewrote rq_id q q' R R'" and rs: "rewrote rs_id s s' S S'"
    and own: "rs_request s = None \<or> rs_request s = Some (rq_id q)"
    and other: "\<And>t. t \<in> set S \<Longrightarrow> rs_request t = Some (rq_id q) \<Longrightarrow> rs_id t \<noteq> rs_id s \<Longrightarrow>
                  rs_state t = Destroyed"
    and newq: "request_ok S' q'" and news: "resource_ok R' s'"
  shows "tables_inv R' S'"
proof -
  have d: "distinct (map rq_id R)" "distinct (map rs_id S)"
    and okq: "\<And>p. p \<in> set R \<Longrightarrow> request_ok S p" and oks: "\<And>t. t \<in> set S \<Longrightarrow> resource_ok R t"
    using inv by (auto simp: tables_inv_def list_all_iff)
  have m: "map rq_id R' = map rq_id R" "map rs_id S' = map rs_id S"
    and uR: "set R' = insert q' {r \<in> set R. rq_id r \<noteq> rq_id q}"
    and uS: "set S' = insert s' {r \<in> set S. rs_id r \<noteq> rs_id s}"
    using rq rs by (simp_all add: rewrote_def)
  have "request_ok S' p" if "p \<in> set R'" for p
  proof (cases "p = q'")
    case False
    with that uR have "p \<in> set R" "rq_id p \<noteq> rq_id q" by auto
    with own show ?thesis by (intro request_frame [OF okq rs d(2)]) auto
  qed (simp add: newq)
  moreover have "resource_ok R' t" if "t \<in> set S'" for t
  proof (cases "t = s'")
    case False
    with that uS have "t \<in> set S" "rs_id t \<noteq> rs_id s" by auto
    with other show ?thesis by (intro resource_frame [OF oks rq d(1)]) auto
  qed (simp add: news)
  ultimately show ?thesis using d by (simp add: tables_inv_def m list_all_iff)
qed

lemma sessions_unique_rewrite:
  assumes "sessions_unique R" and rq: "rewrote rq_id q q' R R'"
    and fresh: "rq_session q' = rq_session q \<or>
      (\<forall>p\<in>set R. rq_session p = rq_session q' \<longrightarrow> rq_id p = rq_id q)"
  shows "sessions_unique R'"
  unfolding sessions_unique_def
proof (intro ballI impI)
  have uR: "set R' = insert q' {r \<in> set R. rq_id r \<noteq> rq_id q}" and k: "rq_id q' = rq_id q"
    and q: "q \<in> set R" using rq by (simp_all add: rewrote_def)
  have solo: "rq_id p = rq_id q" if "p \<in> set R" "rq_session p = rq_session q'" "rq_session p \<noteq> None" for p
    using fresh that assms(1) q unfolding sessions_unique_def by metis
  fix a b assume ab: "a \<in> set R'" "b \<in> set R'"
    and s: "rq_session a \<noteq> None \<and> rq_session a = rq_session b"
  then consider "a = q'" "b = q'" | "a = q'" "b \<in> set R" | "b = q'" "a \<in> set R"
    | "a \<in> set R" "b \<in> set R" unfolding uR by blast
  then show "rq_id a = rq_id b"
  proof cases
    case 2 with s solo [of b] k show ?thesis by metis
  next
    case 3 with s solo [of a] k show ?thesis by metis
  next
    case 4 with s assms(1) show ?thesis unfolding sessions_unique_def by blast
  qed simp
qed

section \<open>Writes to the database\<close>

lemma broker_inv_distinct:
  assumes "broker_inv db"
  shows "distinct (map rq_id (requests db))" "distinct (map rs_id (resources db))"
    "distinct (map rs_index (resources db))"
  using assms by (simp_all add: broker_inv_def tables_inv_def index_inv_def)

lemma broker_inv_request:
  "broker_inv db \<Longrightarrow> readRequest db k = Some q \<Longrightarrow> request_ok (resources db) q \<and> rq_id q = k"
  by (drule request_table.get_SomeD) (simp add: broker_inv_def tables_inv_def list_all_iff)

lemma broker_inv_resource:
  "broker_inv db \<Longrightarrow> readResource db r = Some s \<Longrightarrow> resource_ok (requests db) s \<and> rs_id s = r"
  by (drule resource_table.get_SomeD) (simp add: broker_inv_def tables_inv_def list_all_iff)

lemma put_request_rewrote:
  assumes "broker_inv db" and "readRequest db k = Some q" and "rq_id (f q) = k"
  shows "rewrote rq_id q (f q) (requests db) (requests (put_request k f db))"
  using rewrote_update_where [OF broker_inv_distinct(1) [OF assms(1)], of k q f] assms
  by (simp add: readRequest_def put_request_def)

lemma put_resource_rewrote:
  assumes "broker_inv db" and "readResource db r = Some s" and "rs_id (g s) = r"
  shows "rewrote rs_id s (g s) (resources db) (resources (put_resource r g db))"
  using rewrote_update_where [OF broker_inv_distinct(2) [OF assms(1)], of r s g] assms
  by (simp add: readResource_def put_resource_def)

lemma store_put_simps [simp]:
  "requests (put_resource r g db) = requests db" "resource_seq (put_resource r g db) = resource_seq db"
  "exports (put_resource r g db) = exports db"
  "resources (put_request k f db) = resources db" "resource_seq (put_request k f db) = resource_seq db"
  "exports (put_request k f db) = exports db"
  "assignments (put_resource r g db) = assignments db" "assignments (put_request k f db) = assignments db"
  "journal (put_resource r g db) = journal db" "journal (put_request k f db) = journal db"
  "readRequest (put_resource r g db) x = readRequest db x"
  "readResource (put_request k f db) y = readResource db y"
  by (simp_all add: put_resource_def put_request_def readRequest_def readResource_def)

lemma read_put_request:
  assumes "broker_inv db" and "readRequest db k = Some q" and "rq_id (f q) = k"
  shows "readRequest (put_request k f db) x = (if x = k then Some (f q) else readRequest db x)"
  using rewrote_get [OF put_request_rewrote [where f = f, OF assms] broker_inv_distinct(1) [OF assms(1)], of x]
    broker_inv_request [OF assms(1,2)] by (simp add: readRequest_def)

lemma read_put_resource:
  assumes "broker_inv db" and "readResource db r = Some s" and "rs_id (g s) = r"
  shows "readResource (put_resource r g db) y = (if y = r then Some (g s) else readResource db y)"
  using rewrote_get [OF put_resource_rewrote [where g = g, OF assms] broker_inv_distinct(2) [OF assms(1)], of y]
    broker_inv_resource [OF assms(1,2)] by (simp add: readResource_def)

lemma index_inv_put:
  assumes inv: "broker_inv db" and s: "readResource db r = Some s"
    and g: "rs_index (g s) = rs_index s"
  shows "index_inv (resource_seq db) (resources (put_resource r g db))"
proof -
  have only: "x = s" if "x \<in> set (resources db)" "rs_id x = r" for x
    using resource_table.get_in_rows [OF broker_inv_distinct(2) [OF inv] that(1)] that(2) s by simp
  have m: "map rs_index (resources (put_resource r g db)) = map rs_index (resources db)"
    unfolding put_resource_def update_where_def by (auto dest: only simp: g)
  have "list_all (\<lambda>i. i \<le> resource_seq db) (map rs_index (resources (put_resource r g db)))"
    unfolding m using inv by (simp add: broker_inv_def index_inv_def list_all_iff)
  then have "list_all (\<lambda>s. rs_index s \<le> resource_seq db) (resources (put_resource r g db))"
    by (simp add: list_all_iff)
  then show ?thesis
    using inv m by (simp add: broker_inv_def index_inv_def)
qed

text \<open>
  When may \<open>q\<close> take over the resource \<open>r\<close>: it names no other resource, or the one it names is gone.
\<close>

definition free_for :: "broker_db \<Rightarrow> request_row \<Rightarrow> string \<Rightarrow> bool" where
  "free_for db q r \<longleftrightarrow> rq_resource q = None \<or> rq_resource q = Some r \<or>
     (\<exists>s0. readResource db (the (rq_resource q)) = Some s0 \<and> rs_state s0 = Destroyed)"

lemma free_for_other:
  assumes inv: "broker_inv db" and q: "readRequest db k = Some q" and free: "free_for db q r"
    and t: "t \<in> set (resources db)" "rs_request t = Some (rq_id q)" "rs_id t \<noteq> r"
  shows "rs_state t = Destroyed"
proof (rule ccontr)
  assume nd: "rs_state t \<noteq> Destroyed"
  have k: "rq_id q = k" using broker_inv_request [OF inv q] by simp
  have "resource_ok (requests db) t"
    using inv t(1) by (simp add: broker_inv_def tables_inv_def list_all_iff)
  then have "links q t"
    using t(2) q k nd by (simp add: resource_ok_def readRequest_def)
  then have "rq_resource q = Some (rs_id t)" by (simp add: links_def)
  moreover have "readResource db (rs_id t) = Some t"
    by (rule resource_table.get_in_rows [OF broker_inv_distinct(2) [OF inv] t(1)])
  ultimately show False using free t(3) nd by (simp add: free_for_def)
qed

definition pair_valid :: "request_row \<Rightarrow> resource_row \<Rightarrow> bool" where
  "pair_valid q s \<longleftrightarrow> rq_id q \<noteq> [] \<and> rs_id s \<noteq> [] \<and> 0 < rs_revision s \<and> 0 \<le> rs_reuse s \<and>
     (case rs_request s of
        None \<Rightarrow> rs_state s = Idle \<or> rs_state s = Destroying \<or> rs_state s = Destroyed
      | Some k \<Rightarrow> k = rq_id q \<and> (rs_state s = Destroyed \<or> links q s)) \<and>
     (\<not> isTerminalState (rq_state q) \<longrightarrow> rq_terminal q = None \<and> rq_resource q = Some (rs_id s) \<and>
        rs_request s = Some (rq_id q) \<and>
        (pair_ok (rq_state q) (rs_state s) \<or> rq_state q = Acquiring \<and> rs_state s = Destroyed)) \<and>
     (rq_state q = Acquiring \<longrightarrow> rq_session q = None) \<and>
     (rq_state q = RActive \<or> rq_state q = Releasing \<longrightarrow> rq_session q \<noteq> None)"

lemma pair_valid_resource:
  "pair_valid q s \<Longrightarrow> get_row rq_id (rq_id q) R = Some q \<Longrightarrow> resource_ok R s"
  by (cases "rs_state s") (auto simp: pair_valid_def resource_ok_def links_def split: option.splits)

lemma pair_valid_request:
  "pair_valid q s \<Longrightarrow> get_row rs_id (rs_id s) S = Some s \<Longrightarrow> request_ok S q"
  by (auto simp: pair_valid_def request_ok_def holds_resource_def)

definition session_free :: "broker_db \<Rightarrow> request_row \<Rightarrow> request_row \<Rightarrow> bool" where
  "session_free db q q' \<longleftrightarrow> rq_session q' = rq_session q \<or>
     (\<forall>p\<in>set (requests db). rq_session p = rq_session q' \<longrightarrow> rq_id p = rq_id q)"

lemma exports_inv_put [simp]:
  "broker_inv db \<Longrightarrow> rewrote rq_id q q' (requests db) R' \<Longrightarrow> exports_inv (rq_id ` set R') (exports db)"
proof -
  assume inv: "broker_inv db" and "rewrote rq_id q q' (requests db) R'"
  then have "map rq_id R' = map rq_id (requests db)" by (simp add: rewrote_def)
  then have "rq_id ` set R' = rq_id ` set (requests db)" by (metis set_map)
  with inv show ?thesis by (simp add: broker_inv_def)
qed

lemma broker_inv_pair:
  assumes inv: "broker_inv db" and q: "readRequest db k = Some q" and s: "readResource db r = Some s"
    and own: "rs_request s = None \<or> rs_request s = Some k" and free: "free_for db q r"
    and f: "rq_id (f q) = k" "session_free db q (f q)"
    and g: "rs_id (g s) = r" "rs_index (g s) = rs_index s" and new: "pair_valid (f q) (g s)"
  shows "broker_inv (put_request k f (put_resource r g db))"
proof -
  let ?S = "resources (put_resource r g db)" and ?R = "requests (put_request k f db)"
  have rq: "rewrote rq_id q (f q) (requests db) ?R" by (rule put_request_rewrote [where f = f, OF inv q f(1)])
  have rs: "rewrote rs_id s (g s) (resources db) ?S" by (rule put_resource_rewrote [where g = g, OF inv s g(1)])
  have ks: "rq_id q = k" "rs_id s = r"
    using broker_inv_request [OF inv q] broker_inv_resource [OF inv s] by auto
  have gs: "get_row rs_id (rs_id (g s)) ?S = Some (g s)"
    using rewrote_get [OF rs broker_inv_distinct(2) [OF inv]] g(1) ks by simp
  have gq: "get_row rq_id (rq_id (f q)) ?R = Some (f q)"
    using rewrote_get [OF rq broker_inv_distinct(1) [OF inv]] f(1) ks by simp
  have "tables_inv ?R ?S"
  proof (rule tables_inv_pair [OF _ rq rs])
    show "tables_inv (requests db) (resources db)" using inv by (simp add: broker_inv_def)
    show "rs_request s = None \<or> rs_request s = Some (rq_id q)" using own ks by simp
    show "rs_state t = Destroyed" if "t \<in> set (resources db)" "rs_request t = Some (rq_id q)"
      "rs_id t \<noteq> rs_id s" for t
      using free_for_other [OF inv q free] that ks by simp
    show "request_ok ?S (f q)" by (rule pair_valid_request [OF new gs])
    show "resource_ok ?R (g s)" by (rule pair_valid_resource [OF new gq])
  qed
  moreover have "sessions_unique ?R"
    using inv f(2)
    by (intro sessions_unique_rewrite [OF _ rq]) (simp_all add: broker_inv_def session_free_def)
  moreover have "index_inv (resource_seq db) ?S" by (rule index_inv_put [where g = g, OF inv s g(2)])
  moreover have "exports_inv (rq_id ` set ?R) (exports db)"
    by (rule exports_inv_put [OF inv rq])
  moreover have "requests (put_request k f (put_resource r g db)) = ?R"
    by (simp add: put_request_def)
  ultimately show ?thesis by (simp add: broker_inv_def)
qed

text \<open>Rewriting only a request, or only a resource that belongs to no request.\<close>

lemma broker_inv_put_request:
  assumes inv: "broker_inv db" and q: "readRequest db k = Some q"
    and f: "rq_id (f q) = k" "session_free db q (f q)" "request_ok (resources db) (f q)"
    and keep: "\<And>t. t \<in> set (resources db) \<Longrightarrow> rs_request t = Some k \<Longrightarrow>
                 rs_state t = Destroyed \<or> links (f q) t"
  shows "broker_inv (put_request k f db)"
proof -
  let ?R = "requests (put_request k f db)"
  have rq: "rewrote rq_id q (f q) (requests db) ?R" by (rule put_request_rewrote [where f = f, OF inv q f(1)])
  have k: "rq_id q = k" using broker_inv_request [OF inv q] by simp
  note d = broker_inv_distinct [OF inv]
  have "list_all (resource_ok ?R) (resources db)"
    unfolding list_all_iff
  proof
    fix t assume t: "t \<in> set (resources db)"
    then have "resource_ok (requests db) t"
      using inv by (simp add: broker_inv_def tables_inv_def list_all_iff)
    then show "resource_ok ?R t"
      using keep [OF t] k by (intro resource_frame [OF _ rq d(1)]) auto
  qed
  moreover have "list_all (request_ok (resources db)) ?R"
    using inv f(3) rq by (auto simp: broker_inv_def tables_inv_def list_all_iff rewrote_def)
  moreover have "distinct (map rq_id ?R)" using rq d by (simp add: rewrote_def)
  moreover have "sessions_unique ?R"
    using inv f(2)
    by (intro sessions_unique_rewrite [OF _ rq]) (simp_all add: broker_inv_def session_free_def)
  moreover have "exports_inv (rq_id ` set ?R) (exports db)"
    by (rule exports_inv_put [OF inv rq])
  ultimately show ?thesis using inv d by (simp add: broker_inv_def tables_inv_def)
qed

text \<open>Columns the invariant does not look at.\<close>

definition same_lease :: "request_row \<Rightarrow> request_row \<Rightarrow> bool" where
  "same_lease q q' \<longleftrightarrow> rq_id q' = rq_id q \<and> rq_state q' = rq_state q \<and> rq_resource q' = rq_resource q \<and>
     rq_session q' = rq_session q \<and> (\<not> isTerminalState (rq_state q) \<longrightarrow> rq_terminal q' = rq_terminal q)"

lemma broker_inv_same_lease:
  assumes inv: "broker_inv db" and q: "readRequest db k = Some q" and same: "same_lease q (f q)"
  shows "broker_inv (put_request k f db)"
proof (rule broker_inv_put_request [OF inv q])
  note ok = broker_inv_request [OF inv q]
  show "rq_id (f q) = k" using same ok by (simp add: same_lease_def)
  show "session_free db q (f q)" using same by (simp add: same_lease_def session_free_def)
  have "holds_resource (resources db) (f q) = holds_resource (resources db) q"
    using same by (simp add: same_lease_def holds_resource_def split: option.splits)
  then show "request_ok (resources db) (f q)"
    using ok same unfolding request_ok_def same_lease_def by metis
  fix t assume t: "t \<in> set (resources db)" "rs_request t = Some k"
  then have "resource_ok (requests db) t"
    using inv by (simp add: broker_inv_def tables_inv_def list_all_iff)
  with t q same show "rs_state t = Destroyed \<or> links (f q) t"
    by (auto simp: resource_ok_def readRequest_def links_def same_lease_def)
qed

lemma broker_inv_put_resource:
  assumes inv: "broker_inv db" and s: "readResource db r = Some s"
    and g: "rs_id (g s) = r" "rs_index (g s) = rs_index s" "resource_ok (requests db) (g s)"
    and own: "rs_request s = None"
  shows "broker_inv (put_resource r g db)"
proof -
  let ?S = "resources (put_resource r g db)"
  have rs: "rewrote rs_id s (g s) (resources db) ?S" by (rule put_resource_rewrote [where g = g, OF inv s g(1)])
  note d = broker_inv_distinct [OF inv]
  have "list_all (request_ok ?S) (requests db)"
    using inv own
    by (auto simp: broker_inv_def tables_inv_def list_all_iff intro: request_frame [OF _ rs d(2)])
  moreover have "list_all (resource_ok (requests db)) ?S"
    using inv g(3) rs by (auto simp: broker_inv_def tables_inv_def list_all_iff rewrote_def)
  moreover have "distinct (map rs_id ?S)" using rs d by (simp add: rewrote_def)
  moreover have "index_inv (resource_seq db) ?S" by (rule index_inv_put [where g = g, OF inv s g(2)])
  ultimately show ?thesis using inv by (simp add: broker_inv_def tables_inv_def)
qed

end
