(* ===== verification/StoreOps.thy ===== *)
theory StoreOps
  imports StoreInvariant
begin

text \<open>
  Every operation of the broker store keeps \<open>broker_inv\<close> and only moves rows forward: a terminal
  receipt keeps its answer, a request state never goes back, a resource keeps its place and its
  revision never decreases, and under one revision a resource can only go from destroying to
  destroyed. The registry's tables are never written by the store.
\<close>

section \<open>Moving forward\<close>

fun rank :: "request_state \<Rightarrow> nat" where
  "rank Acquiring = 0" | "rank RActive = 1" | "rank Releasing = 2" | "rank Released = 3"
| "rank Failed = 3"

definition request_advances :: "request_row \<Rightarrow> request_row \<Rightarrow> bool" where
  "request_advances q q' \<longleftrightarrow> rq_id q' = rq_id q \<and> rq_fingerprint q' = rq_fingerprint q \<and>
     rq_parameters q' = rq_parameters q \<and> rank (rq_state q) \<le> rank (rq_state q') \<and>
     (rq_session q \<noteq> None \<longrightarrow> rq_session q' = rq_session q) \<and>
     (isTerminalState (rq_state q) \<longrightarrow> rq_state q' = rq_state q \<and> rq_resource q' = rq_resource q \<and>
        rq_session q' = rq_session q \<and> rq_error q' = rq_error q \<and> rq_code q' = rq_code q \<and>
        rq_retryable q' = rq_retryable q \<and> rq_owner q' = rq_owner q)"

definition resource_advances :: "resource_row \<Rightarrow> resource_row \<Rightarrow> bool" where
  "resource_advances s s' \<longleftrightarrow> rs_id s' = rs_id s \<and> rs_index s' = rs_index s \<and>
     rs_scope s' = rs_scope s \<and> rs_revision s \<le> rs_revision s' \<and>
     (rs_state s = Destroyed \<longrightarrow> rs_state s' = Destroyed \<and> rs_revision s' = rs_revision s) \<and>
     (rs_revision s' = rs_revision s \<longrightarrow>
        (rs_state s' = rs_state s \<or> rs_state s = Destroying \<and> rs_state s' = Destroyed) \<and>
        (rs_request s' = rs_request s \<or> rs_state s' = Destroyed) \<and>
        rs_profile s' = rs_profile s \<and> rs_idle_order s' = rs_idle_order s \<and> rs_reuse s' = rs_reuse s)"

lemma request_advances_refl [simp]: "request_advances q q"
  by (simp add: request_advances_def)

lemma resource_advances_refl [simp]: "resource_advances s s"
  by (simp add: resource_advances_def)

lemma isTerminal_rank: "isTerminalState s \<longleftrightarrow> rank s = 3"
  by (cases s) (simp_all add: isTerminalState_def)

lemma request_advances_trans: "request_advances a b \<Longrightarrow> request_advances b c \<Longrightarrow> request_advances a c"
  unfolding request_advances_def by auto

lemma resource_advances_trans:
  "resource_advances a b \<Longrightarrow> resource_advances b c \<Longrightarrow> resource_advances a c"
  unfolding resource_advances_def by auto

definition same_registry :: "broker_db \<Rightarrow> broker_db \<Rightarrow> bool" where
  "same_registry db db' \<longleftrightarrow> scopes db' = scopes db \<and> assignments db' = assignments db \<and>
     journal db' = journal db \<and> journal_seq db' = journal_seq db"

text \<open>\<open>survives\<close>: every row is still there, and has moved forward.\<close>

definition survives :: "broker_db \<Rightarrow> broker_db \<Rightarrow> bool" where
  "survives db db' \<longleftrightarrow> same_registry db db' \<and>
     (\<forall>k q. readRequest db k = Some q \<longrightarrow> (\<exists>q'. readRequest db' k = Some q' \<and> request_advances q q')) \<and>
     (\<forall>r s. readResource db r = Some s \<longrightarrow> (\<exists>s'. readResource db' r = Some s' \<and> resource_advances s s'))"

text \<open>\<open>forward\<close>: a row may also be gone, a receipt once terminal and a resource once retired.\<close>

definition forward :: "broker_db \<Rightarrow> broker_db \<Rightarrow> bool" where
  "forward db db' \<longleftrightarrow> same_registry db db' \<and>
     (\<forall>k q. readRequest db k = Some q \<longrightarrow>
        (case readRequest db' k of None \<Rightarrow> isTerminalState (rq_state q)
         | Some q' \<Rightarrow> request_advances q q')) \<and>
     (\<forall>r s. readResource db r = Some s \<longrightarrow>
        (case readResource db' r of None \<Rightarrow> rs_state s = Destroying \<or> rs_state s = Destroyed
         | Some s' \<Rightarrow> resource_advances s s'))"

lemma survives_refl [simp]: "survives db db"
  by (simp add: survives_def same_registry_def)

lemma survives_trans: "survives a b \<Longrightarrow> survives b c \<Longrightarrow> survives a c"
  unfolding survives_def
  by (intro conjI allI impI)
     (simp add: same_registry_def, blast intro: request_advances_trans,
      blast intro: resource_advances_trans)

lemma survives_forward:
  assumes "survives db db'"
  shows "forward db db'"
proof -
  have "case readRequest db' k of None \<Rightarrow> isTerminalState (rq_state q) | Some q' \<Rightarrow> request_advances q q'"
    if "readRequest db k = Some q" for k q
    using assms that unfolding survives_def by fastforce
  moreover have "case readResource db' r of None \<Rightarrow> rs_state s = Destroying \<or> rs_state s = Destroyed
      | Some s' \<Rightarrow> resource_advances s s'" if "readResource db r = Some s" for r s
    using assms that unfolding survives_def by fastforce
  ultimately show ?thesis using assms by (simp add: forward_def survives_def)
qed

section \<open>Writes that are steps\<close>

definition step_ok :: "broker_db \<Rightarrow> broker_db \<Rightarrow> bool" where
  "step_ok db db' \<longleftrightarrow> broker_inv db' \<and> survives db db'"

lemma step_ok_refl: "broker_inv db \<Longrightarrow> step_ok db db"
  by (simp add: step_ok_def)

lemma step_ok_trans: "step_ok a b \<Longrightarrow> step_ok b c \<Longrightarrow> step_ok a c"
  unfolding step_ok_def using survives_trans by blast

lemma put_registry [simp]:
  "same_registry db (put_request k f db)" "same_registry db (put_resource r g db)"
  "same_registry db (put_request k f (put_resource r g db))"
  "same_registry db (put_export e h db)"
  by (simp_all add: same_registry_def put_request_def put_resource_def put_export_def)

lemma put_request_id [simp]: "put_request k (\<lambda>x. x) db = db"
  by (simp add: put_request_def update_where_def)

lemma pair_step:
  assumes "broker_inv db" and "readRequest db k = Some q" and "readResource db r = Some s"
    and "rs_request s = None \<or> rs_request s = Some k" and "free_for db q r"
    and "session_free db q (f q)" and "pair_valid (f q) (g s)"
    and "request_advances q (f q)" and "resource_advances s (g s)"
  shows "step_ok db (put_request k f (put_resource r g db))"
proof -
  have k: "rq_id (f q) = k" and r: "rs_id (g s) = r" "rs_index (g s) = rs_index s"
    using assms(8,9) broker_inv_request [OF assms(1,2)] broker_inv_resource [OF assms(1,3)]
    by (auto simp: request_advances_def resource_advances_def)
  have inv: "broker_inv (put_request k f (put_resource r g db))"
    by (rule broker_inv_pair [where f = f and g = g, OF assms(1-5) k assms(6) r assms(7)])
  have R: "readRequest (put_request k f (put_resource r g db)) x =
     (if x = k then Some (f q) else readRequest db x)" for x
    using read_put_request [where f = f, OF assms(1,2) k, of x]
    by (simp add: readRequest_def put_request_def)
  have S: "readResource (put_request k f (put_resource r g db)) y =
     (if y = r then Some (g s) else readResource db y)" for y
    using read_put_resource [where g = g, OF assms(1,3) r(1), of y] by simp
  show ?thesis
    unfolding step_ok_def survives_def R S
    using inv assms(2,3,8,9) by auto
qed

lemma lease_step:
  assumes "broker_inv db" and "readRequest db k = Some q" and "same_lease q (f q)"
    and "request_advances q (f q)"
  shows "step_ok db (put_request k f db)"
proof -
  have k: "rq_id (f q) = k"
    using assms(3) broker_inv_request [OF assms(1,2)] by (simp add: same_lease_def)
  have inv: "broker_inv (put_request k f db)"
    by (rule broker_inv_same_lease [where f = f, OF assms(1-3)])
  have "readRequest (put_request k f db) x = (if x = k then Some (f q) else readRequest db x)" for x
    by (rule read_put_request [where f = f, OF assms(1,2) k])
  then show ?thesis
    unfolding step_ok_def survives_def using inv assms(2,4) by auto
qed

text \<open>A request that holds no live resource ends or is rewritten alone.\<close>

lemma loose_step:
  assumes "broker_inv db" and "readRequest db k = Some q" and "free_for db q []"
    and "session_free db q (f q)" and "request_ok (resources db) (f q)" and "request_advances q (f q)"
  shows "step_ok db (put_request k f db)"
proof -
  have kq: "rq_id q = k" using broker_inv_request [OF assms(1,2)] by simp
  have k: "rq_id (f q) = k" using assms(6) kq by (simp add: request_advances_def)
  have "rs_state t = Destroyed" if "t \<in> set (resources db)" "rs_request t = Some k" for t
  proof (rule free_for_other [OF assms(1,2,3) that(1)])
    show "rs_request t = Some (rq_id q)" using that(2) kq by simp
    show "rs_id t \<noteq> []"
      using assms(1) that(1)
      by (auto simp: broker_inv_def tables_inv_def list_all_iff resource_ok_def)
  qed
  then have inv: "broker_inv (put_request k f db)"
    by (intro broker_inv_put_request [where f = f, OF assms(1,2) k assms(4,5)]) simp
  have "readRequest (put_request k f db) x = (if x = k then Some (f q) else readRequest db x)" for x
    by (rule read_put_request [where f = f, OF assms(1,2) k])
  then show ?thesis
    unfolding step_ok_def survives_def using inv assms(2,6) by auto
qed

lemma pool_step:
  assumes "broker_inv db" and "readResource db r = Some s" and "rs_request s = None"
    and "resource_ok (requests db) (g s)" and "resource_advances s (g s)"
  shows "step_ok db (put_resource r g db)"
proof -
  have r: "rs_id (g s) = r" "rs_index (g s) = rs_index s"
    using assms(5) broker_inv_resource [OF assms(1,2)] by (auto simp: resource_advances_def)
  have inv: "broker_inv (put_resource r g db)"
    by (rule broker_inv_put_resource [where g = g, OF assms(1,2) r assms(4,3)])
  have "readResource (put_resource r g db) y = (if y = r then Some (g s) else readResource db y)" for y
    by (rule read_put_resource [where g = g, OF assms(1,2) r(1)])
  then show ?thesis
    unfolding step_ok_def survives_def using inv assms(2,5) by auto
qed

section \<open>Reading before writing\<close>

lemma ownedRequest_Inr:
  "ownedRequest db k owner = Inr q \<Longrightarrow> readRequest db k = Some q \<and> sameProcess (rq_owner q) owner"
  by (auto simp: ownedRequest_def split: if_splits)

lemma ownedResource_Inr:
  "ownedResource db q = Inr r \<Longrightarrow>
     rq_resource q = Some (rs_id r) \<and> readResource db (rs_id r) = Some r \<and> rs_request r = Some (rq_id q)"
  by (auto simp: ownedResource_def split: if_splits dest: resource_table.get_key)

lemma updateResource_eq:
  assumes "readResource db (rs_id r) = Some r" and "\<And>x. rs_id (f x) = rs_id x"
  shows "updateResource r f db = Inr ((f r)\<lparr>rs_revision := rs_revision r + 1\<rparr>,
     put_resource (rs_id r) (\<lambda>x. (f x)\<lparr>rs_revision := rs_revision r + 1\<rparr>) db)"
  using assms
  by (simp add: updateResource_def Let_def resource_table.get_put)

lemma updateRequest_eq:
  assumes "readRequest db k = Some q" and "\<And>x. rq_id (request_columns now st f x) = rq_id x"
  shows "updateRequest now k st f db =
     Inr (request_columns now st f q, put_request k (request_columns now st f) db)"
  using assms
  by (simp add: updateRequest_def Let_def request_table.get_put)

lemma request_columns_None [simp]: "request_columns now None f = f"
  by (rule ext) (simp add: request_columns_def)

lemma request_columns_simps [simp]:
  "request_columns now None f x = f x"
  "rq_id (request_columns now (Some s) f x) = rq_id (f x)"
  "rq_state (request_columns now (Some s) f x) = s"
  "rq_resource (request_columns now (Some s) f x) = rq_resource (f x)"
  "rq_session (request_columns now (Some s) f x) = rq_session (f x)"
  "rq_fingerprint (request_columns now (Some s) f x) = rq_fingerprint (f x)"
  "rq_parameters (request_columns now (Some s) f x) = rq_parameters (f x)"
  "rq_owner (request_columns now (Some s) f x) = rq_owner (f x)"
  "rq_error (request_columns now (Some s) f x) = rq_error (f x)"
  "rq_code (request_columns now (Some s) f x) = rq_code (f x)"
  "rq_retryable (request_columns now (Some s) f x) = rq_retryable (f x)"
  "rq_terminal (request_columns now (Some s) f x) =
     (if isTerminalState s then Some now else rq_terminal (f x))"
  by (simp_all add: request_columns_def)

lemma failure_set_simps [simp]:
  "rq_id (failure_set e c t x) = rq_id x" "rq_resource (failure_set e c t x) = rq_resource x"
  "rq_session (failure_set e c t x) = rq_session x" "rq_state (failure_set e c t x) = rq_state x"
  "rq_fingerprint (failure_set e c t x) = rq_fingerprint x"
  "rq_parameters (failure_set e c t x) = rq_parameters x" "rq_terminal (failure_set e c t x) = rq_terminal x"
  "rq_owner (failure_set e c t x) = rq_owner x" "rq_error (failure_set e c t x) = e"
  "rq_code (failure_set e c t x) = c" "rq_retryable (failure_set e c t x) = t"
  by (simp_all add: failure_set_def)

lemma timing_set_simps [simp]:
  "rq_id (timing_set c x) = rq_id x" "rq_resource (timing_set c x) = rq_resource x"
  "rq_session (timing_set c x) = rq_session x" "rq_state (timing_set c x) = rq_state x"
  "rq_fingerprint (timing_set c x) = rq_fingerprint x"
  "rq_parameters (timing_set c x) = rq_parameters x" "rq_terminal (timing_set c x) = rq_terminal x"
  "rq_owner (timing_set c x) = rq_owner x" "rq_error (timing_set c x) = rq_error x"
  "rq_code (timing_set c x) = rq_code x" "rq_retryable (timing_set c x) = rq_retryable x"
  by (simp_all add: timing_set_def split: option.splits)

lemma terminal_simps [simp]:
  "isTerminalState Released" "isTerminalState Failed" "\<not> isTerminalState Acquiring"
  "\<not> isTerminalState RActive" "\<not> isTerminalState Releasing"
  by (simp_all add: isTerminalState_def)

text \<open>The pair of rows an unfinished request and its resource form.\<close>

lemma held_pair:
  assumes inv: "broker_inv db" and q: "readRequest db k = Some q" and s: "readResource db r = Some s"
    and own: "rs_request s = Some k" "rq_resource q = Some r" and live: "\<not> isTerminalState (rq_state q)"
  shows "rq_id q = k" "rs_id s = r" "k \<noteq> []" "r \<noteq> []" "0 < rs_revision s" "0 \<le> rs_reuse s"
    "rq_terminal q = None" "rq_state q = Acquiring \<Longrightarrow> rq_session q = None"
    "rq_state q = RActive \<or> rq_state q = Releasing \<Longrightarrow> rq_session q \<noteq> None"
    "pair_ok (rq_state q) (rs_state s) \<or> rq_state q = Acquiring \<and> rs_state s = Destroyed"
    "free_for db q r"
proof -
  note rq = broker_inv_request [OF inv q] and rs = broker_inv_resource [OF inv s]
  show ks: "rq_id q = k" "rs_id s = r" using rq rs by auto
  show "k \<noteq> []" using rq ks by (auto simp: request_ok_def)
  show "r \<noteq> []" "0 < rs_revision s" "0 \<le> rs_reuse s" using rs ks by (auto simp: resource_ok_def)
  show "rq_terminal q = None" "rq_state q = Acquiring \<Longrightarrow> rq_session q = None"
    "rq_state q = RActive \<or> rq_state q = Releasing \<Longrightarrow> rq_session q \<noteq> None"
    using rq live by (auto simp: request_ok_def)
  have "holds_resource (resources db) q" using rq live own by (auto simp: request_ok_def)
  then show "pair_ok (rq_state q) (rs_state s) \<or> rq_state q = Acquiring \<and> rs_state s = Destroyed"
    using s own by (simp add: holds_resource_def readResource_def)
  show "free_for db q r" using own by (simp add: free_for_def)
qed

end
