(* ===== verification/StoreSteps.thy ===== *)
theory StoreSteps
  imports StoreOps
begin

text \<open>
  The broker store as a transition system. Every transaction of \<open>SqliteSessionBrokerStore\<close> is a
  step that keeps the invariant and moves the store forward; together with the registry's
  transactions they are the steps of one database.
\<close>

section \<open>Ending a request\<close>

lemma put_resource_id [simp]: "put_resource r (\<lambda>x. x) db = db"
  by (simp add: put_resource_def update_where_def)

lemma relinquish_cases:
  assumes "relinquish keep q db = Inr (t, db1)"
  obtains (none) "\<not> truthy (rq_resource q)" "t = None" "db1 = db"
    | (gone) s where "rq_resource q = Some (rs_id s)" "readResource db (rs_id s) = Some s"
        "rs_request s = Some (rq_id q)" "rs_state s = Destroyed" "t = None" "db1 = db"
    | (kept) s where "rq_resource q = Some (rs_id s)" "readResource db (rs_id s) = Some s"
        "rs_request s = Some (rq_id q)" "rs_state s \<noteq> Destroyed" "keep s"
        "t = Some (destructionTicket s)" "db1 = db"
    | (retired) s where "rq_resource q = Some (rs_id s)" "readResource db (rs_id s) = Some s"
        "rs_request s = Some (rq_id q)" "rs_state s \<noteq> Destroyed" "\<not> keep s"
        "t = Some (rs_id s, rs_revision s + 1)"
        "db1 = put_resource (rs_id s)
           (\<lambda>x. (x\<lparr>rs_state := Destroying\<rparr>)\<lparr>rs_revision := rs_revision s + 1\<rparr>) db"
proof (cases "truthy (rq_resource q)")
  case False
  then show ?thesis using assms none by (simp add: relinquish_def)
next
  case True
  then obtain s where s: "ownedResource db q = Inr s"
    using assms by (auto simp: relinquish_def)
  note o = ownedResource_Inr [OF s]
  have upd: "updateResource s (rs_state_update (\<lambda>_. Destroying)) db =
     Inr ((s\<lparr>rs_state := Destroying\<rparr>)\<lparr>rs_revision := rs_revision s + 1\<rparr>,
       put_resource (rs_id s) (\<lambda>x. (x\<lparr>rs_state := Destroying\<rparr>)\<lparr>rs_revision := rs_revision s + 1\<rparr>) db)"
    using o by (intro updateResource_eq) simp_all
  consider "rs_state s = Destroyed" | "rs_state s \<noteq> Destroyed" "keep s"
    | "rs_state s \<noteq> Destroyed" "\<not> keep s" by blast
  then show ?thesis
  proof cases
    case 1
    then show ?thesis using assms True s o by (intro gone [of s]) (simp_all add: relinquish_def)
  next
    case 2
    then show ?thesis using assms True s o by (intro kept [of s]) (simp_all add: relinquish_def)
  next
    case 3
    then show ?thesis
      using assms True s o upd
      by (intro retired [of s]) (auto simp add: relinquish_def destructionTicket_def)
  qed
qed

definition ends :: "request_row \<Rightarrow> request_row \<Rightarrow> bool" where
  "ends q q' \<longleftrightarrow> request_advances q q' \<and> rq_resource q' = rq_resource q \<and>
     rq_session q' = rq_session q \<and>
     (rq_state q' = Failed \<or> rq_state q = Releasing \<and> rq_state q' = Releasing \<and> rq_terminal q' = None)"

lemma ends_pair:
  assumes inv: "broker_inv db" and q: "readRequest db k = Some q"
    and s: "readResource db r = Some s" "rq_resource q = Some r" "rs_request s = Some k"
    and live: "\<not> isTerminalState (rq_state q)" and e: "ends q (F q)"
    and g: "resource_advances s (g s)" "rs_state (g s) = Destroying" "rs_request (g s) = Some k"
      "0 \<le> rs_reuse (g s)"
  shows "step_ok db (put_request k F (put_resource r g db))"
proof (rule pair_step [where f = F and g = g, OF inv q s(1)])
  note h = held_pair [OF inv q s(1) s(3) s(2) live]
  show "rs_request s = None \<or> rs_request s = Some k" using s(3) by simp
  show "free_for db q r" by (rule h(11))
  show "session_free db q (F q)" using e by (simp add: ends_def session_free_def)
  show "request_advances q (F q)" using e by (simp add: ends_def)
  show "resource_advances s (g s)" by (rule g(1))
  show "pair_valid (F q) (g s)"
    using h e g s(2) unfolding pair_valid_def ends_def links_def request_advances_def
      resource_advances_def by auto
qed

lemma end_request:
  assumes inv: "broker_inv db" and q: "readRequest db k = Some q"
    and live: "\<not> isTerminalState (rq_state q)" and run: "relinquish keep q db = Inr (t, db1)"
    and keep: "\<And>r. keep r \<Longrightarrow> rs_state r = Destroying" and e: "ends q (F q)"
  shows "step_ok db (put_request k F db1)"
proof -
  note ok = broker_inv_request [OF inv q]
  have loose: "step_ok db (put_request k F db)" if "free_for db q []" "rq_state q = Acquiring"
    using that e ok
    by (intro loose_step [where f = F, OF inv q])
       (auto simp: ends_def session_free_def request_ok_def request_advances_def)
  show ?thesis
    using run
  proof (cases rule: relinquish_cases)
    case none
    have "rq_resource q \<noteq> Some []"
    proof
      assume "rq_resource q = Some []"
      then obtain s where "readResource db [] = Some s"
        using ok live
        by (auto simp: request_ok_def holds_resource_def readResource_def split: option.splits)
      then show False using broker_inv_resource [OF inv] by (auto simp: resource_ok_def)
    qed
    with none have nr: "rq_resource q = None" by (auto simp: truthy_def)
    then have "rq_state q = Acquiring"
      using ok live by (auto simp: request_ok_def holds_resource_def)
    with nr none loose show ?thesis by (simp add: free_for_def)
  next
    case (gone s)
    then have "rs_request s = Some k" using ok by simp
    from held_pair(10) [OF inv q gone(2) this gone(1) live] gone(4)
    have "rq_state q = Acquiring" by simp
    then show ?thesis using gone loose by (simp add: free_for_def)
  next
    case (kept s)
    have k: "rs_request s = Some k" using kept(3) ok by simp
    from ends_pair [where F = F and g = "\<lambda>x. x", OF inv q kept(2,1) k live e] keep [OF kept(5)]
    show ?thesis
      using kept(7) held_pair(6) [OF inv q kept(2) k kept(1) live] k by simp
  next
    case (retired s)
    have k: "rs_request s = Some k" using retired(3) ok by simp
    note h = held_pair [OF inv q retired(2) k retired(1) live]
    show ?thesis
      unfolding retired(7)
      by (rule ends_pair [where F = F, OF inv q retired(2,1) k live e])
         (use h retired(4) k in \<open>auto simp: resource_advances_def\<close>)
  qed
qed

lemma relinquish_keeps_request:
  "relinquish keep q db = Inr (t, db1) \<Longrightarrow> readRequest db1 k = readRequest db k"
  by (erule relinquish_cases) simp_all

lemma ends_failed:
  assumes "\<not> isTerminalState (rq_state q)"
  shows "ends q (request_columns now (Some Failed) (failure_set e c t) q)"
  using assms by (cases "rq_state q") (simp_all add: ends_def request_advances_def)

lemma failWhere_step:
  assumes inv: "broker_inv db" and run: "failWhere now k owner e c t only db = Inr (r, db')"
  shows "step_ok db db'"
proof -
  obtain q where q: "readRequest db k = Some q"
    using run ownedRequest_Inr by (fastforce simp: failWhere_def)
  consider "db' = db" | tk db1 q2 where "\<not> isTerminalState (rq_state q)"
      "relinquish (\<lambda>_. False) q db = Inr (tk, db1)"
      "updateRequest now k (Some Failed) (failure_set (Some e) (Some c) (Some t)) db1 = Inr (q2, db')"
    using run q by (auto simp: failWhere_def ownedRequest_def split: if_splits)
  then show ?thesis
  proof cases
    case 2
    have "readRequest db1 k = Some q" using relinquish_keeps_request [OF 2(2)] q by simp
    from updateRequest_eq [OF this] 2(3)
    have db': "db' = put_request k (request_columns now (Some Failed)
        (failure_set (Some e) (Some c) (Some t))) db1" by simp
    show ?thesis unfolding db' by (rule end_request [OF inv q 2(1,2)]) (simp_all add: ends_failed 2(1))
  qed (simp add: step_ok_refl inv)
qed

lemma recoverRequest_step:
  assumes inv: "broker_inv db" and run: "recoverRequest live now k owner db = Inr (r, db')"
  shows "step_ok db db'"
proof -
  obtain q where q: "readRequest db k = Some q" using run by (auto simp: recoverRequest_def)
  let ?rel = "rq_state q = Releasing"
  let ?F = "request_columns now (Some (if ?rel then Releasing else Failed))
     (\<lambda>x. x\<lparr>rq_owner := owner, rq_handoff := False,
            rq_error := (if ?rel then None else Some SESSION_OWNER_EXITED_MESSAGE),
            rq_code := (if ?rel then None else Some SESSION_OWNER_EXITED_CODE)\<rparr>)"
  consider "db' = db" | tk db1 q2 where "\<not> isTerminalState (rq_state q)"
      "relinquish (\<lambda>r. ?rel \<and> rs_state r = Destroying) q db = Inr (tk, db1)"
      "updateRequest now k (Some (if ?rel then Releasing else Failed))
         (\<lambda>x. x\<lparr>rq_owner := owner, rq_handoff := False,
            rq_error := (if ?rel then None else Some SESSION_OWNER_EXITED_MESSAGE),
            rq_code := (if ?rel then None else Some SESSION_OWNER_EXITED_CODE)\<rparr>) db1 = Inr (q2, db')"
    using run q by (auto simp: recoverRequest_def Let_def split: if_splits)
  then show ?thesis
  proof cases
    case 2
    have "readRequest db1 k = Some q" using relinquish_keeps_request [OF 2(2)] q by simp
    from updateRequest_eq [OF this] 2(3) have db': "db' = put_request k ?F db1" by simp
    have "rq_terminal q = None" using broker_inv_request [OF inv q] 2(1) by (simp add: request_ok_def)
    then have "ends q (?F q)"
      using 2(1) by (cases "rq_state q") (simp_all add: ends_def request_advances_def)
    then show ?thesis unfolding db' by (intro end_request [OF inv q 2(1,2)]) simp
  qed (simp add: step_ok_refl inv)
qed

section \<open>New receipts and exports\<close>

definition new_receipt :: "request_row \<Rightarrow> bool" where
  "new_receipt q \<longleftrightarrow> rq_id q \<noteq> [] \<and> rq_resource q = None \<and> rq_session q = None \<and>
     (rq_state q = Failed \<or> rq_state q = Acquiring \<and> rq_terminal q = None)"

lemma insertRequest_step:
  assumes inv: "broker_inv db" and new: "new_receipt q" and fresh: "readRequest db (rq_id q) = None"
  shows "step_ok db (insertRequest q db)"
proof -
  have notin: "rq_id q \<notin> rq_id ` set (requests db)"
    using fresh by (simp add: request_table.get_None)
  have "resource_ok (requests db @ [q]) s" if "resource_ok (requests db) s" for s
    using that by (auto simp: resource_ok_def get_row_snoc split: option.splits)
  moreover have "request_ok (resources db) q" using new by (auto simp: new_receipt_def request_ok_def)
  moreover have "sessions_unique (requests db @ [q])"
  proof -
    have u: "sessions_unique (requests db)" and n: "rq_session q = None"
      using inv new by (simp_all add: broker_inv_def new_receipt_def)
    show ?thesis
      unfolding sessions_unique_def
    proof (intro ballI impI)
      fix a b assume "a \<in> set (requests db @ [q])" "b \<in> set (requests db @ [q])"
        and s: "rq_session a \<noteq> None \<and> rq_session a = rq_session b"
      with n have "a \<in> set (requests db)" "b \<in> set (requests db)" by auto
      with u s show "rq_id a = rq_id b" unfolding sessions_unique_def by blast
    qed
  qed
  ultimately have "broker_inv (insertRequest q db)"
    using inv notin unfolding broker_inv_def tables_inv_def insertRequest_def list_all_iff exports_inv_def
    by (simp add: subset_insertI2)
  moreover have "survives db (insertRequest q db)"
    by (auto simp: survives_def same_registry_def insertRequest_def readRequest_def readResource_def
        get_row_snoc)
  ultimately show ?thesis by (simp add: step_ok_def)
qed

lemma exports_step:
  assumes "broker_inv db" and "exports_inv (rq_id ` set (requests db)) E"
  shows "step_ok db (db\<lparr>exports := E\<rparr>)"
  using assms
  by (simp add: step_ok_def broker_inv_def survives_def same_registry_def readRequest_def
      readResource_def)

lemma linkExport_step:
  assumes inv: "broker_inv db" and k: "readRequest db k \<noteq> None"
    and run: "linkExport k identity now db = Inr db'"
  shows "step_ok db db'"
proof (cases "db' = db")
  case False
  then obtain p d where none: "filter (\<lambda>e. ex_request e = k \<or> ex_prepare e = p) (exports db) = []"
    and db': "db' = db\<lparr>exports := exports db @ [\<lparr>ex_prepare = p, ex_request = k, ex_digest = d,
                  ex_created = now, ex_acknowledged = None\<rparr>]\<rparr>"
    using run by (auto simp: linkExport_def split: option.splits list.splits if_splits)
  have "k \<in> rq_id ` set (requests db)" using k by (simp add: request_table.get_None)
  then have "exports_inv (rq_id ` set (requests db)) (exports db @ [\<lparr>ex_prepare = p, ex_request = k,
      ex_digest = d, ex_created = now, ex_acknowledged = None\<rparr>])"
    using inv none by (auto simp: broker_inv_def exports_inv_def filter_empty_conv)
  then show ?thesis unfolding db' by (rule exports_step [OF inv])
qed (simp add: step_ok_refl inv)

lemma acknowledgeExport_step:
  assumes inv: "broker_inv db" and run: "acknowledgeExport p now db = (r, db')"
  shows "step_ok db db'"
proof -
  let ?f = "\<lambda>e. if ex_acknowledged e = None then e\<lparr>ex_acknowledged := Some now\<rparr> else e"
  let ?E = "update_where (\<lambda>e. ex_prepare e = p) ?f (exports db)"
  have m: "map ex_prepare ?E = map ex_prepare (exports db)" "map ex_request ?E = map ex_request (exports db)"
    by (simp_all add: map_key_update)
  have "exports_inv (rq_id ` set (requests db)) ?E"
    using inv unfolding broker_inv_def exports_inv_def m
    by (metis list.set_map m(2))
  from exports_step [OF inv this] show ?thesis
    using run by (auto simp: acknowledgeExport_def Let_def put_export_def)
qed

lemma readRequest_insert [simp]:
  "readRequest db (rq_id q) = None \<Longrightarrow> readRequest (insertRequest q db) (rq_id q) = Some q"
  by (simp add: insertRequest_def readRequest_def get_row_snoc)

lemma linkExport_keeps:
  "linkExport k identity now db = Inr db' \<Longrightarrow> requests db' = requests db \<and> resources db' = resources db"
  by (auto simp: linkExport_def split: option.splits list.splits if_splits)

lemma recordPreAdmissionFailure_step:
  assumes inv: "broker_inv db" and run: "recordPreAdmissionFailure now inp failure db = Inr (r, db')"
  shows "step_ok db db'"
proof (cases "readRequest db (ai_requestId inp)")
  case (Some q)
  then show ?thesis
    using run by (auto simp: recordPreAdmissionFailure_def split: if_splits intro: linkExport_step [OF inv])
next
  case None
  obtain c m t where f: "failure = (c, m, t)" by (cases failure)
  let ?q = "failure_set (Some m) (Some c) (Some t) ((fresh_request (ai_requestId inp) (ai_fingerprint inp)
     (ai_parameters inp) (ai_owner inp) Failed)\<lparr>rq_terminal := Some now\<rparr>)"
  have id: "rq_id ?q = ai_requestId inp" by (simp add: fresh_request_def)
  have link: "linkExport (ai_requestId inp) (ai_export inp) now (insertRequest ?q db) = Inr db'"
    and id': "\<not> blank (ai_requestId inp)"
    using run None f by (auto simp: recordPreAdmissionFailure_def assertIdentity_def Let_def)
  have "new_receipt ?q" using id' by (auto simp: new_receipt_def fresh_request_def blank_def)
  from insertRequest_step [OF inv this] None id have st: "step_ok db (insertRequest ?q db)" by simp
  have "step_ok (insertRequest ?q db) db'"
    using st None id readRequest_insert [of db ?q]
    by (intro linkExport_step [OF _ _ link]) (simp_all add: step_ok_def)
  with st show ?thesis by (rule step_ok_trans)
qed

lemma linkRequestExport_step:
  "broker_inv db \<Longrightarrow> linkRequestExport k fp i now db = Inr db' \<Longrightarrow> step_ok db db'"
  by (auto simp: linkRequestExport_def split: option.splits if_splits intro: linkExport_step)

section \<open>Abandoning, activating and releasing\<close>

lemma abandon_step:
  assumes inv: "broker_inv db" and run: "abandon sha now k owner token db = Inr (r, db')"
  shows "step_ok db db'"
proof (cases "readRequest db k")
  case None
  let ?q = "failure_set (Some SESSION_REQUEST_ABANDONED_MESSAGE) (Some SESSION_REQUEST_ABANDONED_CODE)
     (Some False) ((fresh_request k (fst (abandonedRequestIdentity sha token))
        (snd (abandonedRequestIdentity sha token)) owner Failed)\<lparr>rq_terminal := Some now\<rparr>)"
  have db': "db' = insertRequest ?q db" and nb: "\<not> blank k"
    using run None by (auto simp: abandon_def split_beta Let_def)
  have "new_receipt ?q" using nb by (auto simp: new_receipt_def fresh_request_def blank_def)
  moreover have "rq_id ?q = k" by (simp add: fresh_request_def)
  ultimately show ?thesis unfolding db' using None by (intro insertRequest_step [OF inv]) simp_all
next
  case (Some q)
  let ?fs = "failure_set (Some SESSION_REQUEST_ABANDONED_MESSAGE) (Some SESSION_REQUEST_ABANDONED_CODE)
     (Some False)"
  consider "db' = db" | tk db1 q2 where "\<not> isTerminalState (rq_state q)"
      "relinquish (\<lambda>r. rs_state r = Destroying) q db = Inr (tk, db1)"
      "updateRequest now k (Some Failed) ?fs db1 = Inr (q2, db')"
    using run Some by (auto simp: abandon_def split: if_splits)
  then show ?thesis
  proof cases
    case 2
    have "readRequest db1 k = Some q" using relinquish_keeps_request [OF 2(2)] Some by simp
    from updateRequest_eq [OF this] 2(3)
    have db': "db' = put_request k (request_columns now (Some Failed) ?fs) db1" by simp
    show ?thesis
      unfolding db' by (rule end_request [OF inv Some 2(1,2)]) (simp_all add: ends_failed 2(1))
  qed (simp add: step_ok_refl inv)
qed

text \<open>An owned request and its resource, rewritten together by \<open>updateResource\<close> and \<open>updateRequest\<close>.\<close>

lemma owned_pair_step:
  assumes inv: "broker_inv db" and q: "readRequest db k = Some q" and s: "ownedResource db q = Inr s"
    and live: "\<not> isTerminalState (rq_state q)"
    and g: "\<And>x. rs_id (g x) = rs_id x" "rs_index (g s) = rs_index s" "rs_scope (g s) = rs_scope s"
      "0 \<le> rs_reuse (g s)" "rs_state s \<noteq> Destroyed"
    and f: "\<And>x. rq_id (request_columns now st f x) = rq_id x"
    and adv: "request_advances q (request_columns now st f q)"
      "session_free db q (request_columns now st f q)"
    and new: "pair_valid (request_columns now st f q) ((g s)\<lparr>rs_revision := rs_revision s + 1\<rparr>)"
    and r1: "updateResource s g db = Inr (s1, db1)"
    and r2: "updateRequest now k st f db1 = Inr (q1, db2)"
  shows "step_ok db db2 \<and> db2 = put_request k (request_columns now st f)
      (put_resource (rs_id s) (\<lambda>x. (g x)\<lparr>rs_revision := rs_revision s + 1\<rparr>) db)"
proof -
  note o = ownedResource_Inr [OF s]
  have kq: "rq_id q = k" using broker_inv_request [OF inv q] by simp
  have db1: "db1 = put_resource (rs_id s) (\<lambda>x. (g x)\<lparr>rs_revision := rs_revision s + 1\<rparr>) db"
    using r1 updateResource_eq [where f = g, of db s] o g(1) by simp
  have "readRequest db1 k = Some q" using q db1 by simp
  from updateRequest_eq [OF this f] r2
  have db2: "db2 = put_request k (request_columns now st f) db1" by simp
  show ?thesis
    unfolding db2 db1
  proof (intro conjI refl pair_step [where f = "request_columns now st f", OF inv q])
    show "readResource db (rs_id s) = Some s" using o by simp
    show "rs_request s = None \<or> rs_request s = Some k" using o kq by simp
    show "free_for db q (rs_id s)" using o by (simp add: free_for_def)
  qed (use adv new g in \<open>auto simp: resource_advances_def\<close>)
qed

lemma activate_step:
  assumes inv: "broker_inv db" and run: "activate now k owner u ph pr db = Inr (r, db')"
  shows "step_ok db db'"
proof -
  obtain q where q: "readRequest db k = Some q"
    using run ownedRequest_Inr by (fastforce simp: activate_def)
  show ?thesis
  proof (cases "rq_state q = RActive \<and> rq_session q = Some u")
    case True
    then have "db' = db" using run q by (auto simp: activate_def ownedRequest_def split: if_splits)
    then show ?thesis by (simp add: step_ok_refl inv)
  next
    case False
    then obtain s hw s1 db1 c where s: "ownedResource db q = Inr s"
      and st: "rq_state q = Acquiring" "rs_state s = Reserved"
      and r1: "updateResource s (\<lambda>x. x\<lparr>rs_state := Active,
            rs_profile := (case hw of None \<Rightarrow> rs_profile x | Some j \<Rightarrow> j)\<rparr>) db = Inr (s1, db1)"
      and un: "\<not> list_ex (\<lambda>p. rq_session p = Some u \<and> rq_id p \<noteq> k) (requests db1)"
      and r2: "updateRequest now k (Some RActive) (\<lambda>x. timing_set c (x\<lparr>rq_session := Some u\<rparr>)) db1 =
            Inr (r, db')"
      using run q by (auto simp: activate_def ownedRequest_def split: if_splits)
    note o = ownedResource_Inr [OF s]
    have kq: "rq_id q = k" using broker_inv_request [OF inv q] by simp
    have sk: "rs_request s = Some k" and live: "\<not> isTerminalState (rq_state q)" using o kq st by simp_all
    note h = held_pair [OF inv q conjunct1 [OF conjunct2 [OF o]] sk conjunct1 [OF o] live]
    have "db1 = put_resource (rs_id s) (\<lambda>x. (x\<lparr>rs_state := Active,
            rs_profile := (case hw of None \<Rightarrow> rs_profile x | Some j \<Rightarrow> j)\<rparr>)
            \<lparr>rs_revision := rs_revision s + 1\<rparr>) db"
      using r1 updateResource_eq [where f = "\<lambda>x. x\<lparr>rs_state := Active,
            rs_profile := (case hw of None \<Rightarrow> rs_profile x | Some j \<Rightarrow> j)\<rparr>", of db s] o by simp
    then have un': "\<forall>p\<in>set (requests db). rq_session p = Some u \<longrightarrow> rq_id p = k"
      using un by (auto simp: list_ex_iff)
    show ?thesis
      by (rule conjunct1 [OF owned_pair_step [OF inv q s live _ _ _ _ _ _ _ _ _ r1 r2]])
         (use h o st un' sk in \<open>auto simp: pair_valid_def links_def request_advances_def session_free_def\<close>)
  qed
qed

lemma getSession_request:
  "broker_inv db \<Longrightarrow> getSession db u = Some q \<Longrightarrow> readRequest db (rq_id q) = Some q \<and> rq_session q = Some u"
  using request_table.get_in_rows [OF broker_inv_distinct(1)]
  by (auto simp: getSession_def find_Some_iff)

lemma beginRelease_step:
  assumes inv: "broker_inv db" and run: "beginRelease now u owner db = Inr (r, db')"
  shows "step_ok db db'"
proof (cases "db' = db")
  case False
  then obtain q where gq: "getSession db u = Some q"
    using run by (auto simp: beginRelease_def split: option.splits)
  then have q: "readRequest db (rq_id q) = Some q" using getSession_request [OF inv] by blast
  obtain s s1 db1 q1 where s: "ownedResource db q = Inr s"
    and st: "rq_state q = RActive" "rs_state s = Active"
    and r1: "updateResource s (rs_state_update (\<lambda>_. Resetting)) db = Inr (s1, db1)"
    and r2: "updateRequest now (rq_id q) (Some Releasing) (\<lambda>x. x) db1 = Inr (q1, db')"
    using run gq q False by (auto simp: beginRelease_def ownedRequest_def split: if_splits)
  note o = ownedResource_Inr [OF s]
  have live: "\<not> isTerminalState (rq_state q)" using st by simp
  have sk: "rs_request s = Some (rq_id q)" using o by simp
  note h = held_pair [OF inv q conjunct1 [OF conjunct2 [OF o]] sk conjunct1 [OF o] live]
  show ?thesis
    by (rule conjunct1 [OF owned_pair_step [OF inv q s live _ _ _ _ _ _ _ _ _ r1 r2]])
       (use h o st in \<open>auto simp: pair_valid_def links_def request_advances_def session_free_def\<close>)
qed (simp add: step_ok_refl inv)

lemma releaseByDestruction_step:
  assumes inv: "broker_inv db" and run: "releaseByDestruction k owner db = Inr (r, db')"
  shows "step_ok db db'"
proof (cases "db' = db")
  case False
  obtain q where q: "readRequest db k = Some q"
    using run ownedRequest_Inr by (fastforce simp: releaseByDestruction_def)
  obtain s s1 where s: "ownedResource db q = Inr s" and st: "rq_state q = Releasing" "rs_state s \<noteq> Destroying"
    and r1: "updateResource s (rs_state_update (\<lambda>_. Destroying)) db = Inr (s1, db')"
    using run q False by (auto simp: releaseByDestruction_def ownedRequest_def split: if_splits)
  note o = ownedResource_Inr [OF s]
  have live: "\<not> isTerminalState (rq_state q)" using st by simp
  have sk: "rs_request s = Some k" using o broker_inv_request [OF inv q] by simp
  note h = held_pair [OF inv q conjunct1 [OF conjunct2 [OF o]] sk conjunct1 [OF o] live]
  have nd: "rs_state s \<noteq> Destroyed" using h(10) st by auto
  have db': "db' = put_request k (\<lambda>x. x) (put_resource (rs_id s)
      (\<lambda>x. (x\<lparr>rs_state := Destroying\<rparr>)\<lparr>rs_revision := rs_revision s + 1\<rparr>) db)"
    using r1 updateResource_eq [where f = "rs_state_update (\<lambda>_. Destroying)", of db s] o by simp
  show ?thesis
    unfolding db'
    by (rule ends_pair [where F = "\<lambda>x. x", OF inv q conjunct1 [OF conjunct2 [OF o]] conjunct1 [OF o] sk live])
       (use h st sk nd in \<open>auto simp: ends_def resource_advances_def\<close>)
qed (simp add: step_ok_refl inv)

section \<open>Retiring idle devices\<close>

text \<open>What retiring one idle row may write: destroying, charged to nobody or to a released receipt.\<close>

definition retires :: "broker_db \<Rightarrow> resource_row \<Rightarrow> resource_row \<Rightarrow> bool" where
  "retires db r r' \<longleftrightarrow> r' = r\<lparr>rs_state := Destroying\<rparr> \<or>
     (\<exists>k q. r' = r\<lparr>rs_state := Destroying, rs_request := Some k\<rparr> \<and> readRequest db k = Some q \<and>
        rq_state q = Released \<and> rq_resource q = Some (rs_id r))"

lemma idle_row:
  assumes "broker_inv db" and "readResource db k = Some r" and "rs_state r = Idle"
  shows "rs_request r = None \<and> 0 < rs_revision r \<and> 0 \<le> rs_reuse r \<and> rs_id r \<noteq> []"
  using broker_inv_resource [OF assms(1,2)] assms(3) by (auto simp: resource_ok_def split: option.splits)

lemma retire_one:
  assumes inv: "broker_inv db" and r: "readResource db (rs_id r) = Some r" "rs_state r = Idle"
    and f: "\<And>x. rs_id (f r x) = rs_id x" "retires db r (f r r)"
  shows "updateResource r (f r) db = Inr ((f r r)\<lparr>rs_revision := rs_revision r + 1\<rparr>,
       put_resource (rs_id r) (\<lambda>x. (f r x)\<lparr>rs_revision := rs_revision r + 1\<rparr>) db)"
    and "step_ok db (put_resource (rs_id r) (\<lambda>x. (f r x)\<lparr>rs_revision := rs_revision r + 1\<rparr>) db)"
proof -
  show "updateResource r (f r) db = Inr ((f r r)\<lparr>rs_revision := rs_revision r + 1\<rparr>,
       put_resource (rs_id r) (\<lambda>x. (f r x)\<lparr>rs_revision := rs_revision r + 1\<rparr>) db)"
    using r(1) f(1) by (rule updateResource_eq)
  note i = idle_row [OF inv r]
  show "step_ok db (put_resource (rs_id r) (\<lambda>x. (f r x)\<lparr>rs_revision := rs_revision r + 1\<rparr>) db)"
    by (rule pool_step [OF inv r(1)])
       (use i f(2) r in \<open>auto simp: retires_def resource_ok_def links_def resource_advances_def readRequest_def\<close>)
qed

lemma retires_requests: "requests db' = requests db \<Longrightarrow> retires db' r r' = retires db r r'"
  by (simp add: retires_def readRequest_def)

lemma retireAll_total:
  assumes "broker_inv db" and "distinct (map rs_id rs)"
    and "\<And>r. r \<in> set rs \<Longrightarrow> readResource db (rs_id r) = Some r \<and> rs_state r = Idle \<and> retires db r (f r r)"
    and f: "\<And>r x. rs_id (f r x) = rs_id x"
  shows "\<exists>db'. retireAll f rs db = Inr (map (\<lambda>r. (rs_id r, rs_revision r + 1)) rs, db') \<and>
     step_ok db db' \<and> requests db' = requests db \<and>
     (\<forall>k. k \<notin> rs_id ` set rs \<longrightarrow> readResource db' k = readResource db k) \<and>
     (\<forall>r\<in>set rs. readResource db' (rs_id r) = Some ((f r r)\<lparr>rs_revision := rs_revision r + 1\<rparr>))"
  using assms(1-3)
proof (induction rs arbitrary: db)
  case Nil
  then show ?case by (simp add: step_ok_refl)
next
  case (Cons r rs)
  let ?db1 = "put_resource (rs_id r) (\<lambda>x. (f r x)\<lparr>rs_revision := rs_revision r + 1\<rparr>) db"
  have r: "readResource db (rs_id r) = Some r" "rs_state r = Idle" "retires db r (f r r)"
    using Cons.prems(3) [of r] by auto
  note one = retire_one [where f = f, OF Cons.prems(1) r(1,2) f r(3)]
  have inv1: "broker_inv ?db1" using one(2) by (simp add: step_ok_def)
  have rd: "readResource ?db1 k =
      (if k = rs_id r then Some ((f r r)\<lparr>rs_revision := rs_revision r + 1\<rparr>) else readResource db k)" for k
    by (rule read_put_resource [where g = "\<lambda>x. (f r x)\<lparr>rs_revision := rs_revision r + 1\<rparr>",
          OF Cons.prems(1) r(1)]) (simp add: f)
  have fresh: "rs_id r \<notin> rs_id ` set rs" using Cons.prems(2) by auto
  have "\<exists>db'. retireAll f rs ?db1 = Inr (map (\<lambda>r. (rs_id r, rs_revision r + 1)) rs, db') \<and>
     step_ok ?db1 db' \<and> requests db' = requests ?db1 \<and>
     (\<forall>k. k \<notin> rs_id ` set rs \<longrightarrow> readResource db' k = readResource ?db1 k) \<and>
     (\<forall>r\<in>set rs. readResource db' (rs_id r) = Some ((f r r)\<lparr>rs_revision := rs_revision r + 1\<rparr>))"
  proof (rule Cons.IH [OF inv1])
    show "distinct (map rs_id rs)" using Cons.prems(2) by simp
    fix x assume x: "x \<in> set rs"
    then have "rs_id x \<noteq> rs_id r" using fresh by (metis imageI)
    then show "readResource ?db1 (rs_id x) = Some x \<and> rs_state x = Idle \<and> retires ?db1 x (f x x)"
      using Cons.prems(3) [of x] x rd retires_requests [of ?db1 db] by simp
  qed
  then obtain db' where db': "retireAll f rs ?db1 = Inr (map (\<lambda>r. (rs_id r, rs_revision r + 1)) rs, db')"
    "step_ok ?db1 db'" "requests db' = requests ?db1"
    "\<forall>k. k \<notin> rs_id ` set rs \<longrightarrow> readResource db' k = readResource ?db1 k"
    "\<forall>r\<in>set rs. readResource db' (rs_id r) = Some ((f r r)\<lparr>rs_revision := rs_revision r + 1\<rparr>)"
    by blast
  have "retireAll f (r # rs) db = Inr (map (\<lambda>r. (rs_id r, rs_revision r + 1)) (r # rs), db')"
    using one(1) db'(1) f by (simp add: destructionTicket_def)
  moreover have "step_ok db db'" using one(2) db'(2) by (rule step_ok_trans)
  moreover have "readResource db' k = readResource db k" if "k \<notin> rs_id ` set (r # rs)" for k
    using db'(4) that rd by simp
  moreover have "readResource db' (rs_id r) = Some ((f r r)\<lparr>rs_revision := rs_revision r + 1\<rparr>)"
    using db'(4) fresh rd by simp
  ultimately show ?case using db'(3,5) by (intro exI [of _ db']) simp
qed

lemma set_readResources:
  "set (readResources db live) = {r \<in> set (resources db). live \<longrightarrow> rs_state r \<noteq> Destroyed}"
  by (simp add: readResources_def)

lemma readResources_row:
  "broker_inv db \<Longrightarrow> r \<in> set (readResources db live) \<Longrightarrow> readResource db (rs_id r) = Some r"
  using resource_table.get_in_rows [OF broker_inv_distinct(2)] by (auto simp: set_readResources)

lemma distinct_readResources:
  assumes "broker_inv db"
  shows "distinct (map rs_id (readResources db live))"
proof -
  have "mset (map rs_id (readResources db live)) =
      mset (map rs_id (filter (\<lambda>r. live \<longrightarrow> rs_state r \<noteq> Destroyed) (resources db)))"
    by (simp add: readResources_def)
  moreover have "distinct (map rs_id (filter (\<lambda>r. live \<longrightarrow> rs_state r \<noteq> Destroyed) (resources db)))"
    using broker_inv_distinct(2) [OF assms] by (rule distinct_map_filter)
  ultimately show ?thesis by (metis mset_eq_imp_distinct_iff)
qed

lemma drainIdle_total:
  fixes observed
  assumes inv: "broker_inv db"
  defines "rows \<equiv> filter (\<lambda>r. drainableIdle r observed) (readResources db True)"
  shows "\<exists>db'. drainIdle observed db = Inr (map (\<lambda>r. (rs_id r, rs_revision r + 1)) rows, db') \<and>
     step_ok db db' \<and> requests db' = requests db \<and>
     (\<forall>k. k \<notin> rs_id ` set rows \<longrightarrow> readResource db' k = readResource db k) \<and>
     (\<forall>r\<in>set rows. readResource db' (rs_id r) =
        Some (r\<lparr>rs_state := Destroying, rs_revision := rs_revision r + 1\<rparr>))"
proof -
  have "distinct (map rs_id rows)"
    using distinct_readResources [OF inv] by (simp add: rows_def distinct_map_filter)
  moreover have "readResource db (rs_id r) = Some r \<and> rs_state r = Idle \<and>
      retires db r (rs_state_update (\<lambda>_. Destroying) r)" if "r \<in> set rows" for r
    using that readResources_row [OF inv] by (auto simp: rows_def drainableIdle_def retires_def)
  ultimately show ?thesis
    using retireAll_total [OF inv, of rows "\<lambda>_. rs_state_update (\<lambda>_. Destroying)"]
    by (simp add: drainIdle_def rows_def)
qed

lemma drainIdle_step:
  "broker_inv db \<Longrightarrow> drainIdle observed db = Inr (ts, db') \<Longrightarrow> step_ok db db'"
  using drainIdle_total [of db observed] by auto

lemma rmap_requireValue:
  "rmap (\<lambda>k. requireValue (h k) m) ks = Inr rs \<longleftrightarrow> map h ks = map Some rs"
  by (induction ks arbitrary: rs) (auto simp: Cons_eq_map_conv map_eq_Cons_conv)

lemma trimIdle_rows:
  assumes inv: "broker_inv db" and run: "trimIdle lc limits ri rq db = Inr (ts, db')"
  obtains chosen where "retireAll (returning_columns ri rq) chosen db = Inr (ts, db')"
    "distinct (map rs_id chosen)"
    "\<And>r. r \<in> set chosen \<Longrightarrow> readResource db (rs_id r) = Some r \<and> rs_state r = Idle"
    "chooseIdleEvictions lc \<lparr>activeOrAcquiringSessions = 0,
       sn_resources = occupiedResources (readResources db True), resetWaitThresholdMs = None\<rparr> limits =
       Inr (map rs_id chosen)"
proof -
  let ?s = "\<lparr>activeOrAcquiringSessions = 0,
       sn_resources = occupiedResources (readResources db True), resetWaitThresholdMs = None\<rparr>"
  obtain ids chosen where ids: "chooseIdleEvictions lc ?s limits = Inr ids"
    and rm: "rmap (\<lambda>k. requireValue (List.find (\<lambda>r. rs_id r = k) (readResources db True))
        ''Idle resource disappeared'') ids = Inr chosen"
    and ret: "retireAll (returning_columns ri rq) chosen db = Inr (ts, db')"
    using run by (auto simp: trimIdle_def Let_def)
  have f: "map (\<lambda>k. List.find (\<lambda>r. rs_id r = k) (readResources db True)) ids = map Some chosen"
    using rm by (simp add: rmap_requireValue)
  have ch: "rs_id r \<in> set ids \<and> r \<in> set (readResources db True)" if "r \<in> set chosen" for r
  proof -
    have "Some r \<in> set (map (\<lambda>k. List.find (\<lambda>r. rs_id r = k) (readResources db True)) ids)"
      using f that by simp
    then show ?thesis by (auto simp: find_Some_iff eq_commute [of "Some r"])
  qed
  have "map rs_id chosen = ids"
  proof -
    have "ids = map rs_id cs" if "map (\<lambda>k. List.find (\<lambda>r. rs_id r = k) (readResources db True)) ids =
        map Some cs" for cs
      using that by (induction ids arbitrary: cs) (auto simp: Cons_eq_map_conv find_Some_iff)
    with f show ?thesis by simp
  qed
  note b = evictions_bounds [OF ids]
  have idle: "rs_state r = Idle" if "r \<in> set chosen" for r
  proof -
    have "rs_id r \<in> rv_id ` set (filter (\<lambda>v. rv_state v = Idle) (sn_resources ?s))"
      using ch [OF that] b(2) by blast
    then obtain r' where "r' \<in> set (readResources db True)" "rs_id r' = rs_id r" "rs_state r' = Idle"
      by (auto simp: occupiedResources_def occupiedView_def)
    then show ?thesis
      using ch [OF that] readResources_row [OF inv] by (metis option.inject)
  qed
  show ?thesis
  proof (rule that [OF ret])
    show "distinct (map rs_id chosen)" using b(1) \<open>map rs_id chosen = ids\<close> by simp
    show "readResource db (rs_id r) = Some r \<and> rs_state r = Idle" if "r \<in> set chosen" for r
      using ch [OF that] idle [OF that] readResources_row [OF inv] by blast
    show "chooseIdleEvictions lc ?s limits = Inr (map rs_id chosen)"
      using ids \<open>map rs_id chosen = ids\<close> by simp
  qed
qed

lemma trimIdle_step:
  assumes inv: "broker_inv db" and run: "trimIdle lc limits (Some r) (Some k) db = Inr (ts, db')"
    and q: "readRequest db k = Some q" "rq_state q = Released" "rq_resource q = Some r"
  shows "step_ok db db'"
proof -
  obtain chosen where ch: "retireAll (returning_columns (Some r) (Some k)) chosen db = Inr (ts, db')"
    "distinct (map rs_id chosen)"
    "\<And>r. r \<in> set chosen \<Longrightarrow> readResource db (rs_id r) = Some r \<and> rs_state r = Idle"
    using trimIdle_rows [OF inv run] by metis
  have "retires db x (returning_columns (Some r) (Some k) x x)" for x
    using q by (auto simp: retires_def returning_columns_def)
  with retireAll_total [OF inv ch(2), of "returning_columns (Some r) (Some k)"] ch show ?thesis
    by (auto simp: returning_columns_def)
qed

lemma completeCleanRelease_cases:
  assumes inv: "broker_inv db" and run: "completeCleanRelease lc now k owner limits db = Inr (ts, db')"
  obtains (again) q where "readRequest db k = Some q" "rq_state q = Released" "ts = []" "db' = db"
    | (returned) q s db2 where "readRequest db k = Some q" "rq_state q = Releasing"
        "sameProcess (rq_owner q) owner" "rq_resource q = Some (rs_id s)"
        "readResource db (rs_id s) = Some s" "rs_request s = Some k" "rs_state s = Resetting"
        "cleanBinding db s" "step_ok db db2"
        "db2 = put_request k (request_columns now (Some Released) (\<lambda>x. x))
           (put_resource (rs_id s) (\<lambda>x. (x\<lparr>rs_state := Idle, rs_request := None,
              rs_idle_order := nextIdleOrder db\<rparr>)\<lparr>rs_revision := rs_revision s + 1\<rparr>) db)"
        "trimIdle lc limits (Some (rs_id s)) (Some k) db2 = Inr (ts, db')"
proof -
  obtain q where q: "readRequest db k = Some q" and own: "sameProcess (rq_owner q) owner"
    using run ownedRequest_Inr by (fastforce simp: completeCleanRelease_def)
  show ?thesis
  proof (cases "rq_state q = Released")
    case True
    then have "ts = [] \<and> db' = db" using run q own by (simp add: completeCleanRelease_def ownedRequest_def)
    with again [OF q True] show ?thesis by simp
  next
    case False
    then obtain s s1 db1 q1 db2 where s: "ownedResource db q = Inr s"
      and st: "rq_state q = Releasing" "rs_state s = Resetting" and cl: "cleanBinding db s"
      and r1: "updateResource s (\<lambda>x. x\<lparr>rs_state := Idle, rs_request := None,
                 rs_idle_order := nextIdleOrder db\<rparr>) db = Inr (s1, db1)"
      and r2: "updateRequest now k (Some Released) (\<lambda>x. x) db1 = Inr (q1, db2)"
      and tr: "trimIdle lc limits (Some (rs_id s)) (Some k) db2 = Inr (ts, db')"
      using run q own by (auto simp: completeCleanRelease_def ownedRequest_def split: if_splits)
    note o = ownedResource_Inr [OF s]
    have live: "\<not> isTerminalState (rq_state q)" using st by simp
    have sk: "rs_request s = Some k" using o broker_inv_request [OF inv q] by simp
    note h = held_pair [OF inv q conjunct1 [OF conjunct2 [OF o]] sk conjunct1 [OF o] live]
    have "step_ok db db2 \<and> db2 = put_request k (request_columns now (Some Released) (\<lambda>x. x))
           (put_resource (rs_id s) (\<lambda>x. (x\<lparr>rs_state := Idle, rs_request := None,
              rs_idle_order := nextIdleOrder db\<rparr>)\<lparr>rs_revision := rs_revision s + 1\<rparr>) db)"
      by (rule owned_pair_step [OF inv q s live _ _ _ _ _ _ _ _ _ r1 r2])
         (use h o st in \<open>auto simp: pair_valid_def links_def request_advances_def session_free_def\<close>)
    then show ?thesis using returned [OF q st(1) own _ _ sk st(2) cl _ _ tr] o by blast
  qed
qed

lemma completeCleanRelease_step:
  assumes inv: "broker_inv db" and run: "completeCleanRelease lc now k owner limits db = Inr (ts, db')"
  shows "step_ok db db'"
  using inv run
proof (cases rule: completeCleanRelease_cases)
  case (again q)
  then show ?thesis by (simp add: step_ok_refl inv)
next
  case (returned q s db2)
  have kq: "rq_id q = k" using broker_inv_request [OF inv returned(1)] by simp
  have "readRequest db2 k = Some (request_columns now (Some Released) (\<lambda>x. x) q)"
    unfolding returned(10)
    using read_put_request [where f = "request_columns now (Some Released) (\<lambda>x. x)", OF inv returned(1), of k] kq
    by (simp add: readRequest_def put_request_def)
  then have "step_ok db2 db'"
    using returned(4,9)
    by (intro trimIdle_step [where q = "request_columns now (Some Released) (\<lambda>x. x) q", OF _ returned(11)])
       (simp_all add: step_ok_def)
  with returned(9) show ?thesis by (rule step_ok_trans)
qed

section \<open>Hand-over and timing\<close>

lemma updateRequest_lease:
  assumes inv: "broker_inv db" and q: "readRequest db k = Some q"
    and f: "\<And>x. rq_id (f x) = rq_id x" "same_lease q (f q)" "request_advances q (f q)"
    and run: "updateRequest now k None f db = Inr (r, db')"
  shows "step_ok db db'"
proof -
  have "db' = put_request k f db"
    using run updateRequest_eq [where f = f and st = None, OF q] f(1) by simp
  then show ?thesis using lease_step [where f = f, OF inv q f(2,3)] by simp
qed

lemma relinquishForRestart_step:
  assumes inv: "broker_inv db" and run: "relinquishForRestart now k owner db = Inr (r, db')"
  shows "step_ok db db'"
proof (cases "db' = db")
  case False
  then obtain q where q: "readRequest db k = Some q" and st: "rq_state q = RActive"
    and u: "updateRequest now k None (\<lambda>x. x\<lparr>rq_owner := rq_owner q, rq_handoff := True\<rparr>) db = Inr (r, db')"
    using run by (auto simp: relinquishForRestart_def ownedRequest_def split: if_splits)
  show ?thesis
    by (rule updateRequest_lease [OF inv q _ _ _ u])
       (use st in \<open>auto simp: same_lease_def request_advances_def\<close>)
qed (simp add: step_ok_refl inv)

lemma adoptRestartHandoff_step:
  assumes inv: "broker_inv db" and run: "adoptRestartHandoff live now k owner db = Inr (r, db')"
  shows "step_ok db db'"
proof (cases "db' = db")
  case False
  then obtain q q1 where q: "readRequest db k = Some q" and st: "rq_state q = RActive"
    and u: "updateRequest now k None (\<lambda>x. x\<lparr>rq_owner := owner, rq_handoff := False\<rparr>) db = Inr (q1, db')"
    using run by (auto simp: adoptRestartHandoff_def split: if_splits)
  show ?thesis
    by (rule updateRequest_lease [OF inv q _ _ _ u])
       (use st in \<open>auto simp: same_lease_def request_advances_def\<close>)
qed (simp add: step_ok_refl inv)

lemma recordTiming_step:
  assumes inv: "broker_inv db"
  shows "step_ok db (recordTiming now k t p db)"
proof (cases "readRequest db k")
  case None
  then show ?thesis using inv by (simp add: recordTiming_def step_ok_refl)
next
  case (Some q)
  have "step_ok db (put_request k (record_columns now db q t p) db)"
    by (rule lease_step [OF inv Some])
       (simp_all add: record_columns_def same_lease_def request_advances_def)
  with Some inv show ?thesis by (simp add: recordTiming_def step_ok_refl)
qed

lemma timingDestroyed_step:
  assumes inv: "broker_inv db"
  shows "step_ok db (timingDestroyed now k db)"
proof (cases "if truthy k then readRequest db (the k) else None")
  case None
  then show ?thesis using inv by (auto simp: timingDestroyed_def step_ok_refl split: if_splits)
next
  case (Some q)
  then have k: "truthy k" "readRequest db (the k) = Some q" by (auto split: if_splits)
  then have q: "readRequest db (rq_id q) = Some q" using request_table.get_key [OF k(2)] by simp
  have "step_ok db (put_request (rq_id q) (destroyed_columns now q rt) db)" for rt
    by (rule lease_step [OF inv q])
       (simp_all add: destroyed_columns_def same_lease_def request_advances_def)
  with k inv show ?thesis
    by (auto simp: timingDestroyed_def step_ok_refl split: option.splits)
qed

end
