(* ===== verification/StoreRetention.thy ===== *)
theory StoreRetention
  imports StoreSteps
begin

text \<open>
  Confirmed destruction and receipt retention: the two places where the store forgets rows. A
  resource row disappears only as an unreferenced tombstone, a receipt only once it is terminal,
  past its window, acknowledged or past the export window, and without a live device.
\<close>

section \<open>Deleting tombstones\<close>

lemma delete_reads:
  assumes "broker_inv db"
  shows "readResource (deleteUnreferencedTombstones only db) r =
      (case readResource db r of None \<Rightarrow> None
       | Some s \<Rightarrow> if unreferencedTombstone db only s then None else Some s)"
    and "readRequest (deleteUnreferencedTombstones only db) k = readRequest db k"
    and "same_registry db (deleteUnreferencedTombstones only db)"
  using get_row_delete [OF broker_inv_distinct(2) [OF assms]]
  by (simp_all add: deleteUnreferencedTombstones_def readResource_def readRequest_def same_registry_def)

lemma delete_inv:
  assumes inv: "broker_inv db"
  shows "broker_inv (deleteUnreferencedTombstones only db)"
proof -
  let ?S = "delete_where (unreferencedTombstone db only) (resources db)"
  note d = broker_inv_distinct [OF inv]
  have "request_ok ?S q" if "q \<in> set (requests db)" for q
  proof -
    have ok: "request_ok (resources db) q"
      using inv that by (simp add: broker_inv_def tables_inv_def list_all_iff)
    have "holds_resource ?S q" if "holds_resource (resources db) q"
      using that unfolding holds_resource_def get_row_delete [OF d(2)]
      by (auto simp: unreferencedTombstone_def split: option.splits)
    with ok show ?thesis by (auto simp: request_ok_def)
  qed
  moreover have "distinct (map rs_id ?S)" "distinct (map rs_index ?S)"
    using d by (simp_all add: distinct_delete_where)
  ultimately show ?thesis
    using inv
    by (auto simp: broker_inv_def tables_inv_def index_inv_def deleteUnreferencedTombstones_def
        list_all_iff)
qed

lemma forward_delete:
  assumes "survives db db1" and inv: "broker_inv db1"
    and retired: "\<And>r s s'. readResource db r = Some s \<Longrightarrow> readResource db1 r = Some s' \<Longrightarrow>
       unreferencedTombstone db1 only s' \<Longrightarrow> rs_state s = Destroying \<or> rs_state s = Destroyed"
  shows "forward db (deleteUnreferencedTombstones only db1)"
proof -
  let ?db' = "deleteUnreferencedTombstones only db1"
  have "case readRequest ?db' k of None \<Rightarrow> isTerminalState (rq_state q) | Some q' \<Rightarrow> request_advances q q'"
    if q: "readRequest db k = Some q" for k q
  proof -
    obtain q' where "readRequest db1 k = Some q'" "request_advances q q'"
      using assms(1) q unfolding survives_def by blast
    then show ?thesis by (simp add: delete_reads [OF inv])
  qed
  moreover have "case readResource ?db' r of None \<Rightarrow> rs_state s = Destroying \<or> rs_state s = Destroyed
      | Some s' \<Rightarrow> resource_advances s s'" if s: "readResource db r = Some s" for r s
  proof -
    obtain s' where "readResource db1 r = Some s'" "resource_advances s s'"
      using assms(1) s unfolding survives_def by blast
    then show ?thesis using retired [OF s] by (simp add: delete_reads [OF inv])
  qed
  moreover have "same_registry db ?db'"
    using assms(1) delete_reads(3) [OF inv, of only] by (simp add: survives_def same_registry_def)
  ultimately show ?thesis by (simp add: forward_def)
qed

section \<open>Confirmed destruction\<close>

definition confirmed :: "int \<Rightarrow> request_row \<Rightarrow> request_row" where
  "confirmed now q =
     (if rq_state q = Releasing then request_columns now (Some Released) (\<lambda>x. x) q
      else if rq_state q = Failed then q\<lparr>rq_terminal := Some now\<rparr> else q)"

lemma put_request_same_row:
  assumes "readRequest db k = Some q" and "f q = g q" and "distinct (map rq_id (requests db))"
  shows "put_request k f db = put_request k g db"
proof -
  have "r = q" if "r \<in> set (requests db)" "rq_id r = k" for r
    using request_table.get_in_rows [OF assms(3) that(1)] that(2) assms(1) by simp
  then have "update_where (\<lambda>r. rq_id r = k) f (requests db) = update_where (\<lambda>r. rq_id r = k) g (requests db)"
    unfolding update_where_def using assms(2) by (intro map_cong) metis+
  then show ?thesis by (simp add: put_request_def)
qed

lemma confirmDestroyed_cases:
  assumes inv: "broker_inv db" and run: "confirmDestroyed now t db = Inr (b, db')"
  obtains (refused) "\<not> b" "db' = db"
    | (already) s where "readResource db (fst t) = Some s" "rs_revision s = snd t"
        "rs_state s = Destroyed" "b" "db' = db"
    | (settled) s q k where "readResource db (fst t) = Some s" "rs_revision s = snd t"
        "rs_state s = Destroying" "\<not> physicalWorkPending db s" "b" "rs_request s = Some k"
        "readRequest db k = Some q" "rq_resource q = Some (rs_id s)" "rq_state q \<noteq> RActive"
        "db' = timingDestroyed now (Some k) (put_request k (confirmed now)
           (put_resource (rs_id s) (rs_state_update (\<lambda>_. Destroyed)) db))"
    | (dropped) s where "readResource db (fst t) = Some s" "rs_revision s = snd t"
        "rs_state s = Destroying" "\<not> physicalWorkPending db s" "b" "rs_request s = None"
        "db' = deleteUnreferencedTombstones (Some (rs_id s))
           (put_resource (rs_id s) (rs_state_update (\<lambda>_. Destroyed)) db)"
proof (cases "readResource db (fst t)")
  case None
  then show ?thesis using run refused by (auto simp: confirmDestroyed_def)
next
  case (Some s)
  let ?act = "rs_revision s = snd t \<and> rs_state s = Destroying \<and> \<not> physicalWorkPending db s"
  show ?thesis
  proof (cases ?act)
    case False
    then show ?thesis
      using run Some refused already [OF Some]
      by (cases "rs_revision s = snd t"; cases "rs_state s = Destroyed"; cases "rs_state s = Destroying")
         (auto simp: confirmDestroyed_def)
  next
    case act: True
    let ?db1 = "put_resource (rs_id s) (rs_state_update (\<lambda>_. Destroyed)) db"
    have ok: "resource_ok (requests db) s" "rs_id s = fst t" using broker_inv_resource [OF inv Some] by auto
    show ?thesis
    proof (cases "rs_request s")
      case None
      show ?thesis
        using run Some act None
        by (intro dropped [OF Some _ _ _ _ None])
           (auto simp: confirmDestroyed_def truthy_def timingDestroyed_def Let_def)
    next
      case k: (Some k)
      obtain q where q: "readRequest db k = Some q" and l: "links q s"
        using ok act k by (auto simp: resource_ok_def readRequest_def split: option.splits)
      have ne: "k \<noteq> []" using broker_inv_request [OF inv q] by (auto simp: request_ok_def)
      have lq: "rq_resource q = Some (rs_id s)" "rq_state q \<noteq> RActive"
        using l act by (auto simp: links_def)
      have q1: "readRequest ?db1 k = Some q" using q by simp
      have s1: "readResource db (rs_id s) = Some s" using Some ok by simp
      have inv1: "put_request k (confirmed now) ?db1 =
          (if rq_state q = Releasing then put_request k (request_columns now (Some Released) (\<lambda>x. x)) ?db1
           else if rq_state q = Failed then put_request k (rq_terminal_update (\<lambda>_. Some now)) ?db1 else ?db1)"
        using broker_inv_distinct(1) [OF inv]
          put_request_same_row [OF q1, of "confirmed now" "request_columns now (Some Released) (\<lambda>x. x)"]
          put_request_same_row [OF q1, of "confirmed now" "rq_terminal_update (\<lambda>_. Some now)"]
          put_request_same_row [OF q1, of "confirmed now" "\<lambda>x. x"]
        by (simp add: confirmed_def)
      have set: "settleRequestAfterDestruction now s ?db1 = Inr (put_request k (confirmed now) ?db1)"
        using k q1 lq inv1 updateRequest_eq [where f = "\<lambda>x. x" and st = "Some Released", OF q1]
        by (auto simp: settleRequestAfterDestruction_def)
      have "truthy (rs_request s)" using k ne by (simp add: truthy_def)
      then show ?thesis
        using run Some act k set
        by (intro settled [OF Some _ _ _ _ k q lq]) (auto simp: confirmDestroyed_def Let_def)
    qed
  qed
qed

lemma confirmDestroyed_forward:
  assumes inv: "broker_inv db" and run: "confirmDestroyed now t db = Inr (b, db')"
  shows "broker_inv db' \<and> forward db db'"
  using inv run
proof (cases rule: confirmDestroyed_cases)
  case refused
  then show ?thesis by (simp add: inv survives_forward)
next
  case (already s)
  then show ?thesis by (simp add: inv survives_forward)
next
  case (settled s q k)
  let ?db2 = "put_request k (confirmed now) (put_resource (rs_id s) (rs_state_update (\<lambda>_. Destroyed)) db)"
  have s: "readResource db (rs_id s) = Some s" "resource_ok (requests db) s"
    using settled(1) broker_inv_resource [OF inv settled(1)] by auto
  have rq: "request_ok (resources db) q" "rq_id q = k" using broker_inv_request [OF inv settled(7)] by auto
  have "step_ok db ?db2"
  proof (rule pair_step [where f = "confirmed now", OF inv settled(7) s(1)])
    show "free_for db q (rs_id s)" using settled by (simp add: free_for_def)
    show "pair_valid (confirmed now q) (rs_state_update (\<lambda>_. Destroyed) s)"
      using s(2) rq settled(3,6,8,9)
      by (cases "rq_state q") (auto simp: pair_valid_def confirmed_def resource_ok_def request_ok_def)
    show "request_advances q (confirmed now q)"
      by (cases "rq_state q") (auto simp: confirmed_def request_advances_def)
    show "session_free db q (confirmed now q)"
      by (simp add: confirmed_def session_free_def)
  qed (use settled in \<open>auto simp: resource_advances_def\<close>)
  then have "step_ok db (timingDestroyed now (Some k) ?db2)"
    using timingDestroyed_step step_ok_trans by (auto simp: step_ok_def)
  then show ?thesis unfolding settled(10) by (simp add: step_ok_def survives_forward)
next
  case (dropped s)
  let ?db1 = "put_resource (rs_id s) (rs_state_update (\<lambda>_. Destroyed)) db"
  have s: "readResource db (rs_id s) = Some s" "resource_ok (requests db) s"
    using dropped(1) broker_inv_resource [OF inv dropped(1)] by auto
  have st: "step_ok db ?db1"
    by (rule pool_step [OF inv s(1) dropped(6)])
       (use s(2) dropped in \<open>auto simp: resource_ok_def resource_advances_def\<close>)
  then have inv1: "broker_inv ?db1" by (simp add: step_ok_def)
  have "forward db db'"
    unfolding dropped(7)
  proof (rule forward_delete [OF _ inv1])
    show "survives db ?db1" using st by (simp add: step_ok_def)
    fix r x x' assume "readResource db r = Some x" "readResource ?db1 r = Some x'"
      "unreferencedTombstone ?db1 (Some (rs_id s)) x'"
    then have "x = s"
      using s(1) resource_table.get_key [of db r x] resource_table.get_key [of ?db1 r x']
      by (auto simp: unreferencedTombstone_def)
    then show "rs_state x = Destroying \<or> rs_state x = Destroyed" using dropped(3) by simp
  qed
  with delete_inv [OF inv1] show ?thesis unfolding dropped(7) by simp
qed


section \<open>Receipt retention\<close>

lemma get_row_map:
  assumes "\<And>r. key (f r) = key r"
  shows "get_row key k (map f t) = map_option f (get_row key k t)"
  using assms by (induction t) (auto simp: get_row_def)

lemma stamp_simps [simp]:
  "rq_id (stamp_terminal now q) = rq_id q" "rq_state (stamp_terminal now q) = rq_state q"
  "rq_resource (stamp_terminal now q) = rq_resource q" "rq_session (stamp_terminal now q) = rq_session q"
  "rq_fingerprint (stamp_terminal now q) = rq_fingerprint q"
  "rq_parameters (stamp_terminal now q) = rq_parameters q" "rq_error (stamp_terminal now q) = rq_error q"
  "rq_code (stamp_terminal now q) = rq_code q" "rq_retryable (stamp_terminal now q) = rq_retryable q"
  "rq_owner (stamp_terminal now q) = rq_owner q"
  "\<not> isTerminalState (rq_state q) \<Longrightarrow> stamp_terminal now q = q"
  by (simp_all add: stamp_terminal_def)

definition stamped :: "int \<Rightarrow> broker_db \<Rightarrow> broker_db" where
  "stamped now db = db\<lparr>requests := map (stamp_terminal now) (requests db)\<rparr>"

lemma stamped_reads [simp]:
  "readRequest (stamped now db) k = map_option (stamp_terminal now) (readRequest db k)"
  "readResource (stamped now db) r = readResource db r" "resources (stamped now db) = resources db"
  "exports (stamped now db) = exports db" "resource_seq (stamped now db) = resource_seq db"
  by (simp_all add: stamped_def readRequest_def readResource_def get_row_map)

lemma stamped_step:
  assumes inv: "broker_inv db"
  shows "step_ok db (stamped now db)"
proof -
  let ?R = "map (stamp_terminal now) (requests db)"
  have "request_ok (resources db) (stamp_terminal now q) = request_ok (resources db) q" for q
    by (cases "isTerminalState (rq_state q)") (auto simp: request_ok_def)
  moreover have "links (stamp_terminal now q) s = links q s" for q s
    by (simp add: links_def)
  then have "resource_ok ?R s = resource_ok (requests db) s" for s
    by (simp add: resource_ok_def get_row_map split: option.splits)
  moreover have "map rq_id ?R = map rq_id (requests db)" by simp
  moreover have "sessions_unique ?R = sessions_unique (requests db)"
    by (simp add: sessions_unique_def)
  ultimately have "broker_inv (stamped now db)"
    using inv by (simp add: broker_inv_def tables_inv_def stamped_def list_all_iff image_image comp_def)
  moreover have "survives db (stamped now db)"
    by (auto simp: survives_def request_advances_def) (simp add: same_registry_def stamped_def)
  ultimately show ?thesis by (simp add: step_ok_def)
qed

lemma expired_prunable:
  assumes "k \<in> set (expiredReceipts db now ret eret cnt)" and "distinct (map rq_id (requests db))"
  shows "\<exists>q. readRequest db k = Some q \<and> prunable db now ret eret q"
proof -
  let ?L = "sort_key (\<lambda>r. (the (rq_terminal r), rq_id r))
     (filter (prunable db now ret eret) (requests db))"
  obtain q where "q \<in> set (take cnt ?L)" "rq_id q = k"
    using assms(1) by (auto simp: expiredReceipts_def)
  then have "q \<in> set ?L" by (meson in_set_takeD)
  then have "q \<in> set (requests db)" "prunable db now ret eret q" by simp_all
  then show ?thesis
    using request_table.get_in_rows [OF assms(2), of q] \<open>rq_id q = k\<close> by auto
qed

lemma forget_inv:
  assumes inv: "broker_inv db"
    and ids: "\<And>k. k \<in> set ids \<Longrightarrow> \<exists>q. readRequest db k = Some q \<and> isTerminalState (rq_state q) \<and>
       (\<forall>s\<in>set (resources db). rs_request s = Some k \<longrightarrow> rs_state s = Destroyed)"
  shows "broker_inv (forget_receipts ids db)"
proof -
  let ?g = "\<lambda>s. if \<exists>k\<in>set ids. rs_request s = Some k then s\<lparr>rs_request := None\<rparr> else s"
  let ?S = "map ?g (resources db)" and ?R = "delete_where (\<lambda>r. List.member ids (rq_id r)) (requests db)"
  let ?E = "delete_where (\<lambda>e. List.member ids (ex_request e)) (exports db)"
  note d = broker_inv_distinct [OF inv]
  have S: "resources (forget_receipts ids db) = ?S"
    by (simp add: forget_receipts_def update_where_def)
  have m: "map rs_id ?S = map rs_id (resources db)" "map rs_index ?S = map rs_index (resources db)"
    by simp_all
  have getS: "get_row rs_id r ?S = map_option ?g (get_row rs_id r (resources db))" for r
    by (rule get_row_map) simp
  have getR: "get_row rq_id k ?R =
      (case get_row rq_id k (requests db) of None \<Rightarrow> None | Some q \<Rightarrow>
         if rq_id q \<in> set ids then None else Some q)" for k
    using get_row_delete [OF d(1), of k "\<lambda>r. List.member ids (rq_id r)"]
    by (simp split: option.splits)
  have rq: "request_ok ?S q" if "q \<in> set ?R" for q
  proof -
    have ok: "request_ok (resources db) q" and n: "rq_id q \<notin> set ids"
      using inv that by (simp_all add: broker_inv_def tables_inv_def list_all_iff)
    have "holds_resource ?S q" if "holds_resource (resources db) q"
      using that n unfolding holds_resource_def getS by (auto split: option.splits)
    with ok show ?thesis by (auto simp: request_ok_def)
  qed
  have rs: "resource_ok ?R (?g s)" if s: "s \<in> set (resources db)" for s
  proof -
    have ok: "resource_ok (requests db) s"
      using inv s by (simp add: broker_inv_def tables_inv_def list_all_iff)
    show ?thesis
    proof (cases "\<exists>k\<in>set ids. rs_request s = Some k")
      case True
      then have "rs_state s = Destroyed" using ids s by blast
      with True ok show ?thesis by (simp add: resource_ok_def)
    next
      case False
      then show ?thesis
        using ok unfolding resource_ok_def getR
        by (auto split: option.splits dest: get_row_SomeD)
    qed
  qed
  have "list_all (request_ok ?S) ?R" unfolding list_all_iff using rq by blast
  moreover have "list_all (resource_ok ?R) ?S"
    unfolding list_all_iff set_map using rs by (intro ballI) (erule imageE, simp only:)
  ultimately have "tables_inv ?R ?S"
    unfolding tables_inv_def m using d distinct_delete_where by blast
  moreover have "sessions_unique ?R"
    using inv unfolding broker_inv_def sessions_unique_def by auto
  moreover have "index_inv (resource_seq db) ?S"
    using inv unfolding broker_inv_def index_inv_def m by (auto simp: list_all_iff)
  moreover have "exports_inv (rq_id ` set ?R) ?E"
    using inv by (auto simp: broker_inv_def exports_inv_def distinct_delete_where)
  moreover have "requests (forget_receipts ids db) = ?R" "exports (forget_receipts ids db) = ?E"
    "resource_seq (forget_receipts ids db) = resource_seq db"
    by (simp_all add: forget_receipts_def)
  ultimately show ?thesis unfolding broker_inv_def S by simp
qed


lemma forget_reads:
  assumes "broker_inv db"
  shows "readRequest (forget_receipts ids db) k = (if k \<in> set ids then None else readRequest db k)"
    and "readResource (forget_receipts ids db) r = map_option
      (\<lambda>s. if \<exists>k\<in>set ids. rs_request s = Some k then s\<lparr>rs_request := None\<rparr> else s) (readResource db r)"
    and "same_registry db (forget_receipts ids db)"
proof -
  show "same_registry db (forget_receipts ids db)" by (simp add: same_registry_def forget_receipts_def)
  show "readResource (forget_receipts ids db) r = map_option
      (\<lambda>s. if \<exists>k\<in>set ids. rs_request s = Some k then s\<lparr>rs_request := None\<rparr> else s) (readResource db r)"
    unfolding forget_receipts_def readResource_def update_where_def
    by (simp add: get_row_map)
  have "rq_id q = k" if "get_row rq_id k (requests db) = Some q" for q
    using get_row_SomeD [OF that] by simp
  then show "readRequest (forget_receipts ids db) k = (if k \<in> set ids then None else readRequest db k)"
    using get_row_delete [OF broker_inv_distinct(1) [OF assms], of k "\<lambda>r. List.member ids (rq_id r)"]
    by (auto simp: forget_receipts_def readRequest_def split: option.splits)
qed

lemma pruneTerminalRequests_cases:
  assumes "pruneTerminalRequests now ret cnt eret db = Inr (n, db')"
  obtains "0 \<le> ret" "0 \<le> eret" "1 \<le> cnt"
    "n = int (length (expiredReceipts (stamped now db) now ret eret (nat cnt)))"
    "db' = deleteUnreferencedTombstones None
       (forget_receipts (expiredReceipts (stamped now db) now ret eret (nat cnt)) (stamped now db))"
proof -
  have nil: "forget_receipts [] x = x" for x
    by (simp add: forget_receipts_def update_where_def delete_where_def)
  show ?thesis
    using assms that nil by (auto simp: pruneTerminalRequests_def stamped_def Let_def split: if_splits)
qed

lemma pruneTerminalRequests_forward:
  assumes inv: "broker_inv db" and run: "pruneTerminalRequests now ret cnt eret db = Inr (n, db')"
  shows "broker_inv db' \<and> forward db db'"
proof -
  let ?db1 = "stamped now db"
  let ?ids = "expiredReceipts ?db1 now ret eret (nat cnt)"
  let ?db2 = "forget_receipts ?ids ?db1"
  have db': "db' = deleteUnreferencedTombstones None ?db2"
    using run by (rule pruneTerminalRequests_cases)
  have st: "step_ok db ?db1" by (rule stamped_step [OF inv])
  then have inv1: "broker_inv ?db1" by (simp add: step_ok_def)
  have ids: "\<exists>q. readRequest ?db1 k = Some q \<and> isTerminalState (rq_state q) \<and>
       (\<forall>s\<in>set (resources ?db1). rs_request s = Some k \<longrightarrow> rs_state s = Destroyed)"
    if "k \<in> set ?ids" for k
    using expired_prunable [OF that broker_inv_distinct(1) [OF inv1]] request_table.get_key [of ?db1 k]
    unfolding prunable_def list_ex_iff by blast
  have inv2: "broker_inv ?db2" by (rule forget_inv [OF inv1 ids])
  note rd = forget_reads [OF inv1, of ?ids]
  have "case readRequest db' k of None \<Rightarrow> isTerminalState (rq_state q) | Some q' \<Rightarrow> request_advances q q'"
    if q: "readRequest db k = Some q" for k q
  proof (cases "k \<in> set ?ids")
    case True
    then show ?thesis using ids [OF True] q by (simp add: db' delete_reads [OF inv2] rd)
  next
    case False
    then show ?thesis using q by (simp add: db' delete_reads [OF inv2] rd request_advances_def)
  qed
  moreover have "case readResource db' r of None \<Rightarrow> rs_state s = Destroying \<or> rs_state s = Destroyed
      | Some s' \<Rightarrow> resource_advances s s'" if s: "readResource db r = Some s" for r s
  proof -
    have "rs_state s = Destroyed" if "k \<in> set ?ids" "rs_request s = Some k" for k
      using ids [OF that(1)] that(2) resource_table.get_SomeD [OF s] by auto
    then show ?thesis
      using s by (auto simp: db' delete_reads [OF inv2] rd unreferencedTombstone_def resource_advances_def)
  qed
  moreover have "same_registry db db'"
    using st rd(3) delete_reads(3) [OF inv2, of None]
    by (simp add: db' step_ok_def survives_def same_registry_def)
  ultimately show ?thesis using delete_inv [OF inv2] db' by (simp add: forward_def)
qed

end
