(* ===== verification/StoreAdmission.thy ===== *)
theory StoreAdmission
  imports StoreRetention
begin

text \<open>
  Reservation: the admission decision is taken on the inventory read in the same transaction that
  writes the reservation, so the chosen idle device is still idle when it is taken.
\<close>

section \<open>The snapshot a decision is taken from\<close>

definition view_of :: "resource_row \<Rightarrow> resource_view \<Rightarrow> bool" where
  "view_of r v \<longleftrightarrow> rv_id v = rs_id r \<and> rv_state v = rs_state r \<and> rv_idleOrder v = rs_idle_order r"

lemma compatibleView_of: "compatibleView inp r = Inr v \<Longrightarrow> view_of r v"
  by (auto simp: compatibleView_def view_of_def occupiedView_def)

lemma rmap_views: "rmap (compatibleView inp) rs = Inr vs \<Longrightarrow> list_all2 view_of rs vs"
  by (induction rs arbitrary: vs) (auto intro: compatibleView_of)

lemma list_all2_view_mem: "list_all2 view_of rs vs \<Longrightarrow> v \<in> set vs \<Longrightarrow> \<exists>r\<in>set rs. view_of r v"
  by (induction rule: list_all2_induct) auto

text \<open>The live row found under an id.\<close>

lemma find_live:
  assumes "broker_inv db" and "List.find (\<lambda>r. rs_id r = k) (readResources db True) = Some r"
  shows "readResource db k = Some r \<and> rs_id r = k \<and> rs_state r \<noteq> Destroyed"
proof -
  have "r \<in> set (readResources db True)" "rs_id r = k"
    using assms(2) by (auto simp: find_Some_iff)
  then show ?thesis using readResources_row [OF assms(1)] by (auto simp: set_readResources)
qed

lemma chosen_row_idle:
  assumes inv: "broker_inv db" and dec: "reserveDecision lc k inp db = Inr d"
    and d: "d = DReuse i \<or> d = DEvict i"
    and row: "List.find (\<lambda>r. rs_id r = i) (readResources db True) = Some r"
  shows "readResource db i = Some r \<and> rs_id r = i \<and> rs_state r = Idle"
proof -
  obtain vs where vs: "rmap (compatibleView inp) (readResources db True) = Inr vs"
    and sel: "selectAdmission lc \<lparr>activeOrAcquiringSessions = countSessionAdmissions db k,
         sn_resources = vs, resetWaitThresholdMs = map_option ri_thresholdMs (ai_readiness inp)\<rparr>
         (ai_limits inp) = Inr d"
    using dec by (auto simp: reserveDecision_def)
  obtain v where v: "v \<in> set vs" "rv_id v = i" "rv_state v = Idle"
    using chosen_idle [OF sel d] by auto
  obtain r' where r': "r' \<in> set (readResources db True)" "view_of r' v"
    using list_all2_view_mem [OF rmap_views [OF vs] v(1)] by blast
  then have "readResource db i = Some r'"
    using readResources_row [OF inv r'(1)] v(2) by (simp add: view_of_def)
  then show ?thesis using find_live [OF inv row] r'(2) v(3) by (simp add: view_of_def)
qed

section \<open>Creating a resource for a request\<close>

definition unattached :: "broker_db \<Rightarrow> request_row \<Rightarrow> bool" where
  "unattached db q \<longleftrightarrow> rq_resource q = None \<or>
     (\<exists>s0. readResource db (the (rq_resource q)) = Some s0 \<and> rs_state s0 = Destroyed)"

lemma unattached_free: "unattached db q \<Longrightarrow> free_for db q r"
  by (auto simp: unattached_def free_for_def)

lemma create_step:
  assumes inv: "broker_inv db" and q: "readRequest db k = Some q" and free: "unattached db q"
    and fresh: "readResource db (rs_id s) = None" and idx: "rs_index s = resource_seq db + 1"
    and f: "request_advances q (f q)" "rq_session (f q) = rq_session q"
    and new: "pair_valid (f q) s"
  shows "step_ok db (put_request k f (db\<lparr>resources := resources db @ [s],
           resource_seq := resource_seq db + 1\<rparr>))"
proof -
  let ?S = "resources db @ [s]" and ?R = "requests (put_request k f db)"
  let ?db' = "put_request k f (db\<lparr>resources := ?S, resource_seq := resource_seq db + 1\<rparr>)"
  have kq: "rq_id q = k" using broker_inv_request [OF inv q] by simp
  have kf: "rq_id (f q) = k" using f(1) kq by (simp add: request_advances_def)
  have rq: "rewrote rq_id q (f q) (requests db) ?R" by (rule put_request_rewrote [where f = f, OF inv q kf])
  note d = broker_inv_distinct [OF inv]
  have notin: "rs_id s \<notin> rs_id ` set (resources db)" using fresh by (simp add: resource_table.get_None)
  have gq: "get_row rq_id (rq_id (f q)) ?R = Some (f q)" using rewrote_get [OF rq d(1)] kf kq by simp
  have gs: "get_row rs_id (rs_id s) ?S = Some s" using fresh by (simp add: get_row_snoc readResource_def)
  have keep: "request_ok ?S p" if "request_ok (resources db) p" for p
    using that by (auto simp: request_ok_def holds_resource_def get_row_snoc split: option.splits)
  have "list_all (request_ok ?S) ?R"
    using inv keep pair_valid_request [OF new gs] rq
    by (auto simp: broker_inv_def tables_inv_def list_all_iff rewrote_def)
  moreover have "resource_ok ?R t" if "t \<in> set ?S" for t
  proof (cases "t = s")
    case True
    then show ?thesis using pair_valid_resource [OF new gq] by simp
  next
    case False
    then have t: "t \<in> set (resources db)" "rs_id t \<noteq> rs_id s" using that notin by (auto simp: image_iff)
    have "resource_ok (requests db) t"
      using inv t by (simp add: broker_inv_def tables_inv_def list_all_iff)
    then show ?thesis
      using free_for_other [OF inv q unattached_free [OF free] t(1) _ t(2)]
      by (intro resource_frame [OF _ rq d(1)]) auto
  qed
  moreover have "distinct (map rs_id ?S)" using d notin by simp
  moreover have "distinct (map rq_id ?R)" using rq d by (simp add: rewrote_def)
  ultimately have "tables_inv ?R ?S" by (simp add: tables_inv_def list_all_iff)
  moreover have "sessions_unique ?R"
    using inv f(2) by (intro sessions_unique_rewrite [OF _ rq]) (simp_all add: broker_inv_def)
  moreover have "index_inv (resource_seq db + 1) ?S"
    using inv idx by (auto simp: broker_inv_def index_inv_def list_all_iff)
  moreover have "exports_inv (rq_id ` set ?R) (exports db)" by (rule exports_inv_put [OF inv rq])
  moreover have "requests ?db' = ?R" "resources ?db' = ?S" "exports ?db' = exports db"
    "resource_seq ?db' = resource_seq db + 1"
    by (simp_all add: put_request_def)
  ultimately have "broker_inv ?db'" unfolding broker_inv_def by simp
  moreover have "readRequest ?db' x = (if x = k then Some (f q) else readRequest db x)" for x
    using read_put_request [where f = f, OF inv q kf, of x] by (simp add: readRequest_def put_request_def)
  moreover have "readResource ?db' r = (if r = rs_id s then Some s else readResource db r)" for r
    using fresh by (auto simp: readResource_def put_request_def get_row_snoc split: option.splits)
  moreover have "same_registry db ?db'" by (simp add: same_registry_def put_request_def)
  ultimately show ?thesis
    unfolding step_ok_def survives_def using f(1) q fresh by auto
qed

section \<open>Reserving\<close>

lemma finish_reserve_eq:
  assumes "finish_reserve now inp q kind c r db = Inr (q1, db')" and "readRequest db (rq_id q) = Some x"
  shows "\<exists>t. db' = put_request (rq_id q) (\<lambda>x. timing_set t (x\<lparr>rq_resource := Some (rs_id r)\<rparr>)) db \<and>
     q1 = timing_set t (x\<lparr>rq_resource := Some (rs_id r)\<rparr>)"
proof -
  obtain t where "updateRequest now (rq_id q) None (\<lambda>x. timing_set t (x\<lparr>rq_resource := Some (rs_id r)\<rparr>)) db =
      Inr (q1, db')"
    using assms(1) by (auto simp: finish_reserve_def)
  then show ?thesis
    using updateRequest_eq [where st = None and f = "\<lambda>x. timing_set t (x\<lparr>rq_resource := Some (rs_id r)\<rparr>)",
        OF assms(2)] by auto
qed

text \<open>Taking an idle row: reuse reserves it, eviction starts its destruction.\<close>

lemma take_idle:
  assumes inv: "broker_inv db" and q: "readRequest db (rq_id q) = Some q" "rq_state q = Acquiring"
    and free: "unattached db q" and r: "readResource db (rs_id r) = Some r" "rs_state r = Idle"
    and st: "st = Reserved \<or> st = Destroying" and n: "0 \<le> n"
    and u: "updateResource r (\<lambda>x. x\<lparr>rs_state := st, rs_request := Some (rq_id q), rs_reuse := n\<rparr>) db =
       Inr (r1, db1)"
    and fin: "finish_reserve now inp q kind c r1 db1 = Inr (q1, db2)"
  shows "step_ok db db2 \<and> q1 = the (readRequest db2 (rq_id q)) \<and> readRequest db2 (rq_id q) = Some q1 \<and>
     r1 = r\<lparr>rs_state := st, rs_request := Some (rq_id q), rs_reuse := n, rs_revision := rs_revision r + 1\<rparr> \<and>
     readResource db2 (rs_id r) = Some r1 \<and> rq_state q1 = Acquiring \<and> rq_resource q1 = Some (rs_id r) \<and>
     resource_seq db2 = resource_seq db \<and> length (resources db2) = length (resources db)"
proof -
  let ?g = "\<lambda>x. (x\<lparr>rs_state := st, rs_request := Some (rq_id q), rs_reuse := n\<rparr>)
      \<lparr>rs_revision := rs_revision r + 1\<rparr>"
  have e: "r1 = ?g r" "db1 = put_resource (rs_id r) ?g db"
    using u updateResource_eq [where f = "\<lambda>x. x\<lparr>rs_state := st, rs_request := Some (rq_id q), rs_reuse := n\<rparr>",
        OF r(1)] by auto
  have q1: "readRequest db1 (rq_id q) = Some q" using q e by simp
  obtain t where t: "db2 = put_request (rq_id q) (\<lambda>x. timing_set t (x\<lparr>rq_resource := Some (rs_id r1)\<rparr>)) db1"
    "q1 = timing_set t (q\<lparr>rq_resource := Some (rs_id r1)\<rparr>)"
    using finish_reserve_eq [OF fin q1] by blast
  let ?f = "\<lambda>x. timing_set t (x\<lparr>rq_resource := Some (rs_id r1)\<rparr>)"
  note i = idle_row [OF inv r]
  have ok: "request_ok (resources db) q" using broker_inv_request [OF inv q(1)] by simp
  have "step_ok db (put_request (rq_id q) ?f (put_resource (rs_id r) ?g db))"
  proof (rule pair_step [where f = ?f and g = ?g, OF inv q(1) r(1)])
    show "pair_valid (?f q) (?g r)"
      using i ok q(2) st n e by (auto simp: pair_valid_def links_def request_ok_def)
    show "resource_advances r (?g r)" using r(2) by (simp add: resource_advances_def)
    show "request_advances q (?f q)" using q(2) by (simp add: request_advances_def)
  qed (use i unattached_free [OF free] in \<open>auto simp: session_free_def\<close>)
  then have "step_ok db db2" using t e by simp
  moreover have "readRequest db2 (rq_id q) = Some q1"
    using q1 t by (simp add: request_table.get_put)
  moreover have "readResource db2 (rs_id r) = Some r1"
    using t(1) e r(1) by (simp add: resource_table.get_put)
  moreover have "length (resources db2) = length (resources db)"
    using t e by (simp add: resource_table.length_put)
  ultimately show ?thesis using t e q(2) by simp
qed

lemma reserve_step:
  assumes inv: "broker_inv db" and q: "readRequest db (rq_id q) = Some q" "rq_state q = Acquiring"
    and free: "unattached db q" and newId: "newId \<noteq> []"
    and run: "reserve lc now newId scope q inp db = Inr (a, db')"
  shows "step_ok db db'"
proof -
  obtain d where dec: "reserveDecision lc (rq_id q) inp db = Inr d"
    using run by (auto simp: reserve_def)
  have ok: "request_ok (resources db) q" using broker_inv_request [OF inv q(1)] by simp
  show ?thesis
  proof (cases d)
    case (DReuse i)
    then obtain r r1 db1 q1 where row: "List.find (\<lambda>r. rs_id r = i) (readResources db True) = Some r"
      and u: "updateResource r (\<lambda>x. x\<lparr>rs_state := Reserved, rs_request := Some (rq_id q),
                rs_reuse := rs_reuse r + 1\<rparr>) db = Inr (r1, db1)"
      and fin: "finish_reserve now inp q KReuse JNull r1 db1 = Inr (q1, db')"
      using run dec by (auto simp: reserve_def)
    have c: "readResource db (rs_id r) = Some r" "rs_state r = Idle"
      using chosen_row_idle [OF inv dec _ row] DReuse by auto
    have "0 \<le> rs_reuse r + 1" using idle_row [OF inv c] by simp
    from take_idle [OF inv q free c _ this u fin] show ?thesis by simp
  next
    case (DEvict i)
    then obtain cr r r1 db1 q1 where row: "List.find (\<lambda>r. rs_id r = i) (readResources db True) = Some r"
      and u: "updateResource r (\<lambda>x. x\<lparr>rs_state := Destroying, rs_request := Some (rq_id q),
                rs_reuse := rs_reuse r\<rparr>) db = Inr (r1, db1)"
      and fin: "finish_reserve now inp q KEvict cr r1 db1 = Inr (q1, db')"
      using run dec by (auto simp: reserve_def)
    have c: "readResource db (rs_id r) = Some r" "rs_state r = Idle"
      using chosen_row_idle [OF inv dec _ row] DEvict by auto
    have "0 \<le> rs_reuse r" using idle_row [OF inv c] by simp
    from take_idle [OF inv q free c _ this u fin] show ?thesis by simp
  next
    case DCreate
    then obtain cr r1 db1 q1 where ins: "insertResource newId scope cr (rq_id q) db = Inr (r1, db1)"
      and fin: "finish_reserve now inp q KCreate cr r1 db1 = Inr (q1, db')"
      using run dec by (auto simp: reserve_def)
    then have r1: "r1 = fresh_resource (resource_seq db + 1) newId scope cr (rq_id q)"
      and db1: "db1 = db\<lparr>resources := resources db @ [r1], resource_seq := resource_seq db + 1\<rparr>"
      and fr: "readResource db newId = None"
      by (auto simp: insertResource_def Let_def split: if_splits)
    have "readRequest db1 (rq_id q) = Some q" using q db1 by (simp add: readRequest_def)
    from finish_reserve_eq [OF fin this] obtain t where
      t: "db' = put_request (rq_id q) (\<lambda>x. timing_set t (x\<lparr>rq_resource := Some (rs_id r1)\<rparr>)) db1" by blast
    show ?thesis
      unfolding t db1
      by (rule create_step [OF inv q(1) free])
         (use fr ok q(2) newId in \<open>auto simp: r1 fresh_resource_def request_advances_def pair_valid_def
            links_def request_ok_def\<close>)
  next
    case (DWait i w)
    then obtain c q1 where u: "updateRequest now (rq_id q) None (timing_set c) db = Inr (q1, db')"
      using run dec by (auto simp: reserve_def)
    show ?thesis
      by (rule updateRequest_lease [OF inv q(1) _ _ _ u])
         (simp_all add: same_lease_def request_advances_def)
  next
    case (DRefuse reason)
    then obtain e q1 where u: "updateRequest now (rq_id q) (Some Failed)
        (failure_set (Some e) (Some ''capacity_exhausted'') (Some True)) db = Inr (q1, db')"
      using run dec by (auto simp: reserve_def)
    then have db': "db' = put_request (rq_id q) (request_columns now (Some Failed)
        (failure_set (Some e) (Some ''capacity_exhausted'') (Some True))) db"
      using updateRequest_eq [OF q(1)] by simp
    show ?thesis
      unfolding db'
      by (rule loose_step [OF inv q(1) unattached_free [OF free]])
         (use ok q(2) in \<open>auto simp: session_free_def request_ok_def request_advances_def\<close>)
  qed
qed

lemma admit_step:
  assumes inv: "broker_inv db" and newId: "newId \<noteq> []"
    and run: "admit lc now newId scope inp db = Inr (a, db')"
  shows "step_ok db db'"
proof (cases "readRequest db (ai_requestId inp)")
  case (Some q)
  then show ?thesis
    using run by (auto simp: admit_def split: if_splits intro: linkExport_step [OF inv])
next
  case None
  let ?q = "fresh_request (ai_requestId inp) (ai_fingerprint inp) (ai_parameters inp) (ai_owner inp) Acquiring"
  have id: "rq_id ?q = ai_requestId inp" by (simp add: fresh_request_def)
  obtain db1 where link: "linkExport (ai_requestId inp) (ai_export inp) now (insertRequest ?q db) = Inr db1"
    and res: "reserve lc now newId scope ?q inp db1 = Inr (a, db')" and nb: "\<not> blank (ai_requestId inp)"
    using run None by (auto simp: admit_def assertIdentity_def Let_def)
  have "new_receipt ?q" using nb by (auto simp: new_receipt_def fresh_request_def blank_def)
  from insertRequest_step [OF inv this] None id have s1: "step_ok db (insertRequest ?q db)" by simp
  have s2: "step_ok (insertRequest ?q db) db1"
    using s1 None id readRequest_insert [of db ?q]
    by (intro linkExport_step [OF _ _ link]) (simp_all add: step_ok_def)
  have "readRequest db1 (rq_id ?q) = Some ?q"
    using linkExport_keeps [OF link] readRequest_insert [of db ?q] None id by (simp add: readRequest_def)
  then have "step_ok db1 db'"
    using s2 newId
    by (intro reserve_step [OF _ _ _ _ _ res]) (simp_all add: step_ok_def unattached_def fresh_request_def)
  with s1 s2 show ?thesis using step_ok_trans by blast
qed

lemma continueAdmission_step:
  assumes inv: "broker_inv db" and newId: "newId \<noteq> []"
    and run: "continueAdmission lc now newId scope inp db = Inr (a, db')"
  shows "step_ok db db'"
proof -
  obtain q where q: "readRequest db (ai_requestId inp) = Some q" and st: "rq_state q = Acquiring"
    and un: "unattached db q" and res: "reserve lc now newId scope q inp db = Inr (a, db')"
    using run
    by (auto simp: continueAdmission_def ownedRequest_def unattached_def split: if_splits option.splits)
  then have "readRequest db (rq_id q) = Some q" using broker_inv_request [OF inv q] by simp
  from reserve_step [OF inv this st un newId res] show ?thesis .
qed

end
