(* ===== verification/BrokerSystem.thy ===== *)
theory BrokerSystem
  imports StoreAdmission
begin

text \<open>
  The whole database: the registry's transactions and the store's transactions, in any serial order,
  by any number of processes with any clock, liveness answer and caller. The combined invariant holds
  in every reachable database; while a receipt or a resource row exists it only moves forward.
\<close>

section \<open>Steps\<close>

inductive store_step :: "broker_db \<Rightarrow> broker_db \<Rightarrow> bool" where
  recordPreAdmissionFailure:
    "recordPreAdmissionFailure now inp f db = Inr (r, db') \<Longrightarrow> store_step db db'"
| admit: "newId \<noteq> [] \<Longrightarrow> admit lc now newId scope inp db = Inr (a, db') \<Longrightarrow> store_step db db'"
| continueAdmission:
    "newId \<noteq> [] \<Longrightarrow> continueAdmission lc now newId scope inp db = Inr (a, db') \<Longrightarrow> store_step db db'"
| abandon: "abandon sha now k owner token db = Inr (r, db') \<Longrightarrow> store_step db db'"
| activate: "activate now k owner u ph pr db = Inr (r, db') \<Longrightarrow> store_step db db'"
| beginRelease: "beginRelease now u owner db = Inr (r, db') \<Longrightarrow> store_step db db'"
| completeCleanRelease:
    "completeCleanRelease lc now k owner limits db = Inr (ts, db') \<Longrightarrow> store_step db db'"
| fail: "fail now k owner e c t db = Inr (tk, db') \<Longrightarrow> store_step db db'"
| failInterruptedAcquisition:
    "failInterruptedAcquisition now k owner e db = Inr (tk, db') \<Longrightarrow> store_step db db'"
| releaseByDestruction: "releaseByDestruction k owner db = Inr (tk, db') \<Longrightarrow> store_step db db'"
| drainIdle: "drainIdle observed db = Inr (ts, db') \<Longrightarrow> store_step db db'"
| confirmDestroyed: "confirmDestroyed now t db = Inr (b, db') \<Longrightarrow> store_step db db'"
| recoverRequest: "recoverRequest live now k owner db = Inr (tk, db') \<Longrightarrow> store_step db db'"
| relinquishForRestart: "relinquishForRestart now k owner db = Inr (r, db') \<Longrightarrow> store_step db db'"
| adoptRestartHandoff: "adoptRestartHandoff live now k owner db = Inr (h, db') \<Longrightarrow> store_step db db'"
| linkRequestExport: "linkRequestExport k fp i now db = Inr db' \<Longrightarrow> store_step db db'"
| acknowledgeExport: "acknowledgeExport p now db = (e, db') \<Longrightarrow> store_step db db'"
| recordTiming: "recordTiming now k t p db = db' \<Longrightarrow> store_step db db'"
| pruneTerminalRequests:
    "pruneTerminalRequests now ret cnt eret db = Inr (n, db') \<Longrightarrow> store_step db db'"

lemma step_ok_forward: "step_ok db db' \<Longrightarrow> broker_inv db' \<and> forward db db'"
  by (simp add: step_ok_def survives_forward)

lemma store_step_forward:
  assumes "store_step db db'" and "broker_inv db"
  shows "broker_inv db' \<and> forward db db'"
  using assms
proof (induction rule: store_step.induct)
  case (confirmDestroyed now t db b db')
  then show ?case by (intro confirmDestroyed_forward)
next
  case (pruneTerminalRequests now ret cnt eret db n db')
  then show ?case by (intro pruneTerminalRequests_forward)
next
  case (fail now k owner e c t db tk db')
  then show ?case by (intro step_ok_forward) (auto simp: fail_def intro: failWhere_step)
next
  case (failInterruptedAcquisition now k owner e db tk db')
  then show ?case
    by (intro step_ok_forward) (auto simp: failInterruptedAcquisition_def intro: failWhere_step)
next
  case (recordTiming now k t p db db')
  then show ?case using step_ok_forward recordTiming_step by blast
qed (auto intro!: step_ok_forward intro: recordPreAdmissionFailure_step admit_step
       continueAdmission_step abandon_step activate_step beginRelease_step completeCleanRelease_step
       releaseByDestruction_step drainIdle_step recoverRequest_step relinquishForRestart_step
       adoptRestartHandoff_step linkRequestExport_step acknowledgeExport_step)

text \<open>The registry's transactions leave the store's tables alone.\<close>

definition same_store :: "broker_db \<Rightarrow> broker_db \<Rightarrow> bool" where
  "same_store db db' \<longleftrightarrow> requests db' = requests db \<and> resources db' = resources db \<and>
     resource_seq db' = resource_seq db \<and> exports db' = exports db"

lemma same_store_refl [simp]: "same_store db db"
  by (simp add: same_store_def)

lemma same_store_trans: "same_store a b \<Longrightarrow> same_store b c \<Longrightarrow> same_store a c"
  by (simp add: same_store_def)

lemma same_store_puts [simp]:
  "same_store db (put_assignment k f db)" "same_store db (put_scope s g db)"
  "same_store db (put_journal i h db)" "same_store db (pruneJournal now db)"
  "same_store db (db\<lparr>scopes := sc\<rparr>)" "same_store db (db\<lparr>assignments := t\<rparr>)"
  by (simp_all add: same_store_def put_assignment_def put_scope_def put_journal_def pruneJournal_def)

lemma binding_outcome_store: "binding_outcome k db (r, db') \<Longrightarrow> same_store db db'"
  by (auto simp: binding_outcome_def split: sum.splits)

lemma settle_all_store: "settle_all now rows db = Inr (r, db') \<Longrightarrow> same_store db db'"
proof (induction rows arbitrary: db r)
  case (Cons a rows)
  then obtain r1 db1 rs where one: "settle_one now a db = Inr (r1, db1)"
    and rest: "settle_all now rows db1 = Inr (rs, db')" by auto
  have "same_store db db1"
    using one by (auto simp: settle_one_def split: option.splits if_splits)
  with Cons.IH [OF rest] show ?case using same_store_trans by blast
qed simp

lemma registry_step_store:
  fixes db :: broker_db
  assumes "registry_step key_of db db'" and "registry_inv key_of db"
  shows "same_store db db'"
  using assms
proof (induction rule: registry_step.induct)
  case (ensureScope now i db r db')
  from ensureScope.hyps show ?case by (cases rule: ensureScope_cases) auto
next
  case (initBinding now k i db r db')
  then show ?case by (auto simp: initBinding_def Let_def split: option.splits if_splits)
next
  case (removeUnboundBinding k g db r db')
  then show ?case by (auto simp: removeUnboundBinding_def split: if_splits)
next
  case (commitBinding now k e nxt db r db')
  then show ?case using commitBinding_outcome binding_outcome_store by blast
next
  case (updateBindingState live now k e st s db r db')
  then show ?case using updateBindingState_outcome binding_outcome_store by blast
next
  case (claimExecution live now k e w sps db r db')
  then show ?case using claimExecution_outcome binding_outcome_store by blast
next
  case (releaseExecution now k u db r db')
  then show ?case
    by (auto simp: releaseExecution_def Let_def split: option.splits if_splits)
       (simp add: same_store_def put_scope_def put_assignment_def)
next
  case (recoverSettledBindings live now sk db r db')
  then show ?case unfolding recoverSettledBindings_def using settle_all_store by blast
next
  case (openBindingJournal live now k inp db r db')
  from openBindingJournal.hyps openBindingJournal.prems show ?case
  proof (cases rule: openBindingJournal_cases)
    case (opened b db1)
    have "same_store (pruneJournal now db) db1"
      using applyJournalAssignmentChange_outcome [OF pruneJournal_inv [OF openBindingJournal.prems] opened(4)]
        binding_outcome_store by blast
    then show ?thesis unfolding opened(6) by (simp add: same_store_def pruneJournal_def)
  qed simp
next
  case (advanceBindingJournal live now i adv db r db')
  from advanceBindingJournal.hyps advanceBindingJournal.prems show ?case
  proof (cases rule: advanceBindingJournal_cases)
    case (phase e)
    then show ?thesis using finish_advance_db [OF phase(3)] by simp
  next
    case (changed e c b db1)
    have "same_store db db1"
      using applyJournalAssignmentChange_outcome [OF advanceBindingJournal.prems changed(5)]
        binding_outcome_store by blast
    moreover have "same_store db1 db'" using finish_advance_db [OF changed(6)] by simp
    ultimately show ?thesis by (rule same_store_trans)
  qed simp
next
  case (claimBindingJournal now i x y db r db')
  then show ?case
    by (auto simp: claimBindingJournal_def Let_def split: option.splits if_splits)
qed

section \<open>The combined system\<close>

definition broker_step :: "(scope_identity \<Rightarrow> string) \<Rightarrow> broker_db \<Rightarrow> broker_db \<Rightarrow> bool" where
  "broker_step key_of db db' \<longleftrightarrow> registry_step key_of db db' \<or> store_step db db'"

definition system_inv :: "(scope_identity \<Rightarrow> string) \<Rightarrow> broker_db \<Rightarrow> bool" where
  "system_inv key_of db \<longleftrightarrow> registry_inv key_of db \<and> broker_inv db"

lemma registry_inv_same: "same_registry db db' \<Longrightarrow> registry_inv key_of db' = registry_inv key_of db"
  by (simp add: same_registry_def registry_inv_def)

lemma broker_inv_same: "same_store db db' \<Longrightarrow> broker_inv db' = broker_inv db"
  by (simp add: same_store_def broker_inv_def)

lemma same_store_reads:
  "same_store db db' \<Longrightarrow> readRequest db' k = readRequest db k \<and> readResource db' r = readResource db r"
  by (simp add: same_store_def readRequest_def readResource_def)

lemma broker_step_inv:
  assumes "broker_step key_of db db'" and "system_inv key_of db" and "inj key_of"
  shows "system_inv key_of db'"
  using assms(1) unfolding broker_step_def
proof
  assume r: "registry_step key_of db db'"
  then have "same_store db db'" "registry_inv key_of db'"
    using registry_step_store registry_step_inv assms(2,3) by (auto simp: system_inv_def)
  then show ?thesis using broker_inv_same assms(2) by (simp add: system_inv_def)
next
  assume s: "store_step db db'"
  then have f: "broker_inv db' \<and> forward db db'"
    using store_step_forward assms(2) by (simp add: system_inv_def)
  then have "same_registry db db'" by (simp add: forward_def)
  then show ?thesis using registry_inv_same f assms(2) by (simp add: system_inv_def)
qed

definition rows_forward :: "broker_db \<Rightarrow> broker_db \<Rightarrow> bool" where
  "rows_forward db db' \<longleftrightarrow>
     (\<forall>k q q'. readRequest db k = Some q \<and> readRequest db' k = Some q' \<longrightarrow> request_advances q q') \<and>
     (\<forall>r s s'. readResource db r = Some s \<and> readResource db' r = Some s' \<longrightarrow> resource_advances s s')"

lemma broker_step_rows:
  assumes "broker_step key_of db db'" and "system_inv key_of db"
  shows "rows_forward db db'"
  using assms(1) unfolding broker_step_def
proof
  assume r: "registry_step key_of db db'"
  then have "same_store db db'" using registry_step_store assms(2) by (auto simp: system_inv_def)
  then show ?thesis using same_store_reads by (auto simp: rows_forward_def)
next
  assume s: "store_step db db'"
  then have f: "forward db db'" using store_step_forward assms(2) by (simp add: system_inv_def)
  then show ?thesis
    unfolding forward_def rows_forward_def by (metis (no_types, lifting) option.simps(5))
qed

definition empty_db :: broker_db where
  "empty_db = \<lparr>scopes = [], assignments = [], journal = [], journal_seq = 0, requests = [],
     resources = [], resource_seq = 0, exports = []\<rparr>"

lemma empty_db_inv: "system_inv key_of empty_db"
  by (simp add: system_inv_def empty_db_def registry_inv_def scopes_inv_def assignments_inv_def
      journal_inv_def tracking_def one_live_scope_def device_exclusive_def one_open_entry_def
      broker_inv_def tables_inv_def sessions_unique_def index_inv_def exports_inv_def)

definition safe_system :: "(scope_identity \<Rightarrow> string) \<Rightarrow> broker_db \<Rightarrow> bool" where
  "safe_system key_of db \<longleftrightarrow> (inj key_of \<longrightarrow> system_inv key_of db)"

interpretation broker_runs:
  invariant_system empty_db "broker_step key_of" "safe_system key_of"
  for key_of :: "scope_identity \<Rightarrow> string"
  by unfold_locales (auto simp: safe_system_def empty_db_inv intro: broker_step_inv)

text \<open>Runs during which one receipt, or one resource row, is never removed.\<close>

definition receipt_step :: "(scope_identity \<Rightarrow> string) \<Rightarrow> string \<Rightarrow> broker_db \<Rightarrow> broker_db \<Rightarrow> bool" where
  "receipt_step key_of k db db' \<longleftrightarrow> broker_step key_of db db' \<and> readRequest db' k \<noteq> None"

definition receipt_le :: "string \<Rightarrow> broker_db \<Rightarrow> broker_db \<Rightarrow> bool" where
  "receipt_le k db db' \<longleftrightarrow>
     (case readRequest db k of
        None \<Rightarrow> readRequest db' k = None
      | Some q \<Rightarrow> (case readRequest db' k of None \<Rightarrow> False | Some q' \<Rightarrow> request_advances q q'))"

definition resource_step :: "(scope_identity \<Rightarrow> string) \<Rightarrow> string \<Rightarrow> broker_db \<Rightarrow> broker_db \<Rightarrow> bool" where
  "resource_step key_of r db db' \<longleftrightarrow> broker_step key_of db db' \<and> readResource db' r \<noteq> None"

definition resource_le :: "string \<Rightarrow> broker_db \<Rightarrow> broker_db \<Rightarrow> bool" where
  "resource_le r db db' \<longleftrightarrow>
     (case readResource db r of
        None \<Rightarrow> readResource db' r = None
      | Some s \<Rightarrow> (case readResource db' r of None \<Rightarrow> False | Some s' \<Rightarrow> resource_advances s s'))"

interpretation receipt_runs:
  monotone_system "receipt_step key_of k"
    "\<lambda>db. inj key_of \<and> system_inv key_of db \<and> readRequest db k \<noteq> None" "receipt_le k"
  for key_of :: "scope_identity \<Rightarrow> string" and k :: string
proof unfold_locales
  fix s t assume "inj key_of \<and> system_inv key_of s \<and> readRequest s k \<noteq> None" "receipt_step key_of k s t"
  then show "(inj key_of \<and> system_inv key_of t \<and> readRequest t k \<noteq> None) \<and> receipt_le k s t"
    using broker_step_inv broker_step_rows
    by (fastforce simp: receipt_step_def receipt_le_def rows_forward_def)
next
  fix s t u
  show "receipt_le k s s" by (simp add: receipt_le_def split: option.splits)
  show "receipt_le k s t \<Longrightarrow> receipt_le k t u \<Longrightarrow> receipt_le k s u"
    by (auto simp: receipt_le_def intro: request_advances_trans split: option.splits)
qed

interpretation resource_runs:
  monotone_system "resource_step key_of r"
    "\<lambda>db. inj key_of \<and> system_inv key_of db \<and> readResource db r \<noteq> None" "resource_le r"
  for key_of :: "scope_identity \<Rightarrow> string" and r :: string
proof unfold_locales
  fix s t assume "inj key_of \<and> system_inv key_of s \<and> readResource s r \<noteq> None" "resource_step key_of r s t"
  then show "(inj key_of \<and> system_inv key_of t \<and> readResource t r \<noteq> None) \<and> resource_le r s t"
    using broker_step_inv broker_step_rows
    by (fastforce simp: resource_step_def resource_le_def rows_forward_def)
next
  fix s t u
  show "resource_le r s s" by (simp add: resource_le_def split: option.splits)
  show "resource_le r s t \<Longrightarrow> resource_le r t u \<Longrightarrow> resource_le r s u"
    by (auto simp: resource_le_def intro: resource_advances_trans split: option.splits)
qed

end
