(* ===== verification/Scenario.thy ===== *)
theory Scenario
  imports BrokerSystem
begin

text \<open>
  A concrete run of the whole system, executed transaction by transaction: a scope is created, a
  request is admitted and reserves a new resource, its binding gets a device and an execution owner,
  the session becomes active, is released clean into the idle pool, drained and confirmed destroyed.
  The scope key is an injective plain encoding (the code hashes the same fields), the locale order
  is the order of character codes. The states of this run are the inputs of the witnesses.
\<close>

section \<open>Parameters of the run\<close>

fun plain_part :: "string \<Rightarrow> string" where
  "plain_part [] = ''.''"
| "plain_part (c # cs) = CHR ''-'' # c # plain_part cs"

definition plain_scope_key :: "scope_identity \<Rightarrow> string" where
  "plain_scope_key i = plain_part (si_host i) @ plain_part (si_namespace i) @ plain_part (si_incarnation i)"

lemma plain_part_inj: "plain_part a @ r = plain_part b @ r' \<Longrightarrow> a = b \<and> r = r'"
  by (induction a arbitrary: b; case_tac b) auto

lemma inj_plain_scope_key: "inj plain_scope_key"
proof (rule injI)
  fix x y assume "plain_scope_key x = plain_scope_key y"
  then show "x = y"
    unfolding plain_scope_key_def using plain_part_inj [of _ "[]" _ "[]"]
    by (intro scope_identity.equality) (auto dest!: plain_part_inj)
qed

definition demo_process :: process_identity where
  "demo_process = \<lparr>pi_daemonId = ''d1'', pi_pid = 41, pi_token = Token ''t''\<rparr>"

definition demo_limits :: broker_limits where
  "demo_limits = \<lparr>sessionCap = Some 2, totalDeviceCap = Some 2, idlePoolCap = Some 1,
     maxConcurrentResetBoots = None\<rparr>"

definition demo_identity :: scope_identity where
  "demo_identity = \<lparr>si_host = ''h'', si_namespace = ''n'', si_incarnation = ''i''\<rparr>"

definition demo_scope :: string where
  "demo_scope = plain_scope_key demo_identity"

definition demo_avd :: native_profile where
  "demo_avd = PAndroid \<lparr>ap_profileId = ''pixel_8'', ap_archetype = ''phone'', ap_memoryMb = None,
     ap_ram = None, ap_cores = None, ap_systemImage = ''android-35'', ap_osVersion = ''15'',
     ap_precision = ''major'', ap_apiLevel = 35, ap_abi = ''arm64-v8a'', ap_flavor = ''google_apis''\<rparr>"

definition demo_creation :: json where
  "demo_creation = JObj [(''platform'', JStr ''android''), (''profile'', profileJson demo_avd)]"

definition demo_input :: "string \<Rightarrow> admission_input" where
  "demo_input k = \<lparr>ai_requestId = k, ai_fingerprint = ''f'' @ k, ai_parameters = JNull,
     ai_owner = demo_process, ai_export = None, ai_limits = demo_limits, ai_startedAtMs = None,
     ai_readiness = None, ai_matches = (\<lambda>_. Inr True), ai_resolveCreation = Inr demo_creation\<rparr>"

definition plain_compare :: "string cmp" where
  "plain_compare = key_cmp (\<lambda>s. s)"

definition db_of :: "('a \<times> broker_db) res \<Rightarrow> broker_db" where
  "db_of r = (case r of Inr (_, d) \<Rightarrow> d | Inl _ \<Rightarrow> empty_db)"

definition ok :: "'a res \<Rightarrow> bool" where
  "ok r = (case r of Inr _ \<Rightarrow> True | Inl _ \<Rightarrow> False)"

lemma run_step: "ok r \<Longrightarrow> (\<And>a. r = Inr (a, db_of r) \<Longrightarrow> P) \<Longrightarrow> P"
  by (auto simp: ok_def db_of_def split: sum.splits)

definition accepted :: "(('f + 'a) \<times> broker_db) res \<Rightarrow> bool" where
  "accepted r = (case r of Inr (Inr _, _) \<Rightarrow> True | _ \<Rightarrow> False)"

lemma accepted_run: "accepted r \<Longrightarrow> \<exists>c. r = Inr (Inr c, db_of r)"
  by (auto simp: accepted_def db_of_def split: sum.splits)

lemma ok_run: "ok r \<Longrightarrow> \<exists>a. r = Inr (a, db_of r)"
  by (auto simp: ok_def db_of_def split: sum.splits)

lemma reached_inv: "(broker_step plain_scope_key)\<^sup>*\<^sup>* empty_db d \<Longrightarrow> system_inv plain_scope_key d"
  using broker_runs.inv_reachable inj_plain_scope_key by (auto simp: safe_system_def)

lemma reached_registry: "(broker_step plain_scope_key)\<^sup>*\<^sup>* empty_db d \<Longrightarrow> registry_inv plain_scope_key d"
  using reached_inv by (auto simp: system_inv_def)

lemma reached_broker: "(broker_step plain_scope_key)\<^sup>*\<^sup>* empty_db d \<Longrightarrow> broker_inv d"
  using reached_inv by (auto simp: system_inv_def)

section \<open>The run\<close>

definition demo1 :: broker_db where
  "demo1 = db_of (ensureScope plain_scope_key 100 demo_identity empty_db)"

definition demo2 :: broker_db where
  "demo2 = db_of (admit plain_compare 101 ''r1'' demo_scope (demo_input ''q1'') demo1)"


definition demo_binding :: binding_key where
  "demo_binding = (demo_scope, 1)"

definition demo_commit :: "string option \<Rightarrow> assignment_state \<Rightarrow> binding_commit" where
  "demo_commit d st = \<lparr>bc_platform = None, bc_device = d, bc_device_name = None, bc_requested = None,
     bc_resolved = None, bc_fingerprint = None, bc_state = st\<rparr>"

definition demo_exec :: exec_owner where
  "demo_exec = \<lparr>eo_process = demo_process, eo_sessionUuid = ''s1''\<rparr>"

definition demo3 :: broker_db where
  "demo3 = db_of (initBinding 102 demo_binding
     \<lparr>bi_role = ''r'', bi_platform = Android, bi_requested = None\<rparr> demo2)"

definition demo4 :: broker_db where
  "demo4 = db_of (commitBinding 103 demo_binding \<lparr>be_generation = 0, be_device = None\<rparr>
     (demo_commit (Some ''emulator-5554'') Ready) demo3)"

definition demo5 :: broker_db where
  "demo5 = db_of (claimExecution (\<lambda>_. True) 104 demo_binding
     \<lparr>be_generation = 1, be_device = Some ''emulator-5554''\<rparr> demo_exec None demo4)"

definition demo6 :: broker_db where
  "demo6 = db_of (activate 105 ''q1'' demo_process ''s1'' None None demo5)"

definition demo7 :: broker_db where
  "demo7 = db_of (beginRelease 106 ''s1'' demo_process demo6)"

definition demo8 :: broker_db where
  "demo8 = db_of (releaseExecution 107 demo_binding ''s1'' demo7)"

definition demo9 :: broker_db where
  "demo9 = db_of (completeCleanRelease plain_compare 108 ''q1'' demo_process demo_limits demo8)"

definition demo10 :: broker_db where
  "demo10 = db_of (drainIdle None demo9)"

definition demo11 :: broker_db where
  "demo11 = db_of (commitBinding 109 demo_binding
     \<lparr>be_generation = 1, be_device = Some ''emulator-5554''\<rparr> (demo_commit None Provisioning) demo10)"

definition demo12 :: broker_db where
  "demo12 = db_of (confirmDestroyed 110 (''r1'', 5) demo11)"

text \<open>Every transaction of the run commits.\<close>

lemma demo_ok1: "ok (ensureScope plain_scope_key 100 demo_identity empty_db)"
  by code_simp

lemma demo_ok2: "ok (admit plain_compare 101 ''r1'' demo_scope (demo_input ''q1'') demo1)"
  by code_simp

lemma demo_ok3: "ok (initBinding 102 demo_binding
     \<lparr>bi_role = ''r'', bi_platform = Android, bi_requested = None\<rparr> demo2)"
  by code_simp

lemma demo_ok4: "ok (commitBinding 103 demo_binding \<lparr>be_generation = 0, be_device = None\<rparr>
     (demo_commit (Some ''emulator-5554'') Ready) demo3)"
  by code_simp

lemma demo_ok5: "ok (claimExecution (\<lambda>_. True) 104 demo_binding
     \<lparr>be_generation = 1, be_device = Some ''emulator-5554''\<rparr> demo_exec None demo4)"
  by code_simp

lemma demo_ok6: "ok (activate 105 ''q1'' demo_process ''s1'' None None demo5)"
  by code_simp

lemma demo_ok7: "ok (beginRelease 106 ''s1'' demo_process demo6)"
  by code_simp

lemma demo_ok8: "ok (releaseExecution 107 demo_binding ''s1'' demo7)"
  by code_simp

lemma demo_ok9: "ok (completeCleanRelease plain_compare 108 ''q1'' demo_process demo_limits demo8)"
  by code_simp

lemma demo_ok10: "ok (drainIdle None demo9)"
  by code_simp

lemma demo_ok11: "ok (commitBinding 109 demo_binding
     \<lparr>be_generation = 1, be_device = Some ''emulator-5554''\<rparr> (demo_commit None Provisioning) demo10)"
  by code_simp

lemma demo_ok12: "ok (confirmDestroyed 110 (''r1'', 5) demo11)"
  by code_simp

lemma demo_step1: "broker_step plain_scope_key empty_db demo1"
  unfolding demo1_def by (rule run_step [OF demo_ok1]) (auto simp: broker_step_def intro: registry_step.ensureScope)

lemma demo_step2: "broker_step plain_scope_key demo1 demo2"
  unfolding demo2_def by (rule run_step [OF demo_ok2]) (auto simp: broker_step_def intro: store_step.admit)

lemma demo_step3: "broker_step plain_scope_key demo2 demo3"
  unfolding demo3_def by (rule run_step [OF demo_ok3]) (auto simp: broker_step_def intro: registry_step.initBinding)

lemma demo_step4: "broker_step plain_scope_key demo3 demo4"
  unfolding demo4_def by (rule run_step [OF demo_ok4]) (auto simp: broker_step_def intro: registry_step.commitBinding)

lemma demo_step5: "broker_step plain_scope_key demo4 demo5"
  unfolding demo5_def by (rule run_step [OF demo_ok5]) (auto simp: broker_step_def intro: registry_step.claimExecution)

lemma demo_step6: "broker_step plain_scope_key demo5 demo6"
  unfolding demo6_def by (rule run_step [OF demo_ok6]) (auto simp: broker_step_def intro: store_step.activate)

lemma demo_step7: "broker_step plain_scope_key demo6 demo7"
  unfolding demo7_def by (rule run_step [OF demo_ok7]) (auto simp: broker_step_def intro: store_step.beginRelease)

lemma demo_step8: "broker_step plain_scope_key demo7 demo8"
  unfolding demo8_def by (rule run_step [OF demo_ok8]) (auto simp: broker_step_def intro: registry_step.releaseExecution)

lemma demo_step9: "broker_step plain_scope_key demo8 demo9"
  unfolding demo9_def by (rule run_step [OF demo_ok9]) (auto simp: broker_step_def intro: store_step.completeCleanRelease)

lemma demo_step10: "broker_step plain_scope_key demo9 demo10"
  unfolding demo10_def by (rule run_step [OF demo_ok10]) (auto simp: broker_step_def intro: store_step.drainIdle)

lemma demo_step11: "broker_step plain_scope_key demo10 demo11"
  unfolding demo11_def by (rule run_step [OF demo_ok11]) (auto simp: broker_step_def intro: registry_step.commitBinding)

lemma demo_step12: "broker_step plain_scope_key demo11 demo12"
  unfolding demo12_def by (rule run_step [OF demo_ok12]) (auto simp: broker_step_def intro: store_step.confirmDestroyed)

lemma demo_reach1: "(broker_step plain_scope_key)\<^sup>*\<^sup>* empty_db demo1"
  using demo_step1 by simp

lemma demo_reach2: "(broker_step plain_scope_key)\<^sup>*\<^sup>* empty_db demo2"
  using demo_reach1 demo_step2 by (rule rtranclp.rtrancl_into_rtrancl)

lemma demo_reach3: "(broker_step plain_scope_key)\<^sup>*\<^sup>* empty_db demo3"
  using demo_reach2 demo_step3 by (rule rtranclp.rtrancl_into_rtrancl)

lemma demo_reach4: "(broker_step plain_scope_key)\<^sup>*\<^sup>* empty_db demo4"
  using demo_reach3 demo_step4 by (rule rtranclp.rtrancl_into_rtrancl)

lemma demo_reach5: "(broker_step plain_scope_key)\<^sup>*\<^sup>* empty_db demo5"
  using demo_reach4 demo_step5 by (rule rtranclp.rtrancl_into_rtrancl)

lemma demo_reach6: "(broker_step plain_scope_key)\<^sup>*\<^sup>* empty_db demo6"
  using demo_reach5 demo_step6 by (rule rtranclp.rtrancl_into_rtrancl)

lemma demo_reach7: "(broker_step plain_scope_key)\<^sup>*\<^sup>* empty_db demo7"
  using demo_reach6 demo_step7 by (rule rtranclp.rtrancl_into_rtrancl)

lemma demo_reach8: "(broker_step plain_scope_key)\<^sup>*\<^sup>* empty_db demo8"
  using demo_reach7 demo_step8 by (rule rtranclp.rtrancl_into_rtrancl)

lemma demo_reach9: "(broker_step plain_scope_key)\<^sup>*\<^sup>* empty_db demo9"
  using demo_reach8 demo_step9 by (rule rtranclp.rtrancl_into_rtrancl)

lemma demo_reach10: "(broker_step plain_scope_key)\<^sup>*\<^sup>* empty_db demo10"
  using demo_reach9 demo_step10 by (rule rtranclp.rtrancl_into_rtrancl)

lemma demo_reach11: "(broker_step plain_scope_key)\<^sup>*\<^sup>* empty_db demo11"
  using demo_reach10 demo_step11 by (rule rtranclp.rtrancl_into_rtrancl)

lemma demo_reach12: "(broker_step plain_scope_key)\<^sup>*\<^sup>* empty_db demo12"
  using demo_reach11 demo_step12 by (rule rtranclp.rtrancl_into_rtrancl)

section \<open>Branches of the run\<close>

text \<open>From the bound device of \<open>demo4\<close>: a daemon marks it settling; another journals its replacement.\<close>

definition demo_expectation :: binding_expectation where
  "demo_expectation = \<lparr>be_generation = 1, be_device = Some ''emulator-5554''\<rparr>"

definition demo_settling :: broker_db where
  "demo_settling = db_of (updateBindingState (\<lambda>_. True) 104 demo_binding demo_expectation Settling
     (Some demo_process) demo4)"

definition demo_target :: journal_target where
  "demo_target = \<lparr>jt_removalRequested = True, jt_quarantinedAtMs = None, jt_newPlatform = None,
     jt_oldStableId = Some ''emulator-5554'', jt_oldName = None, jt_newName = Some ''pixel'',
     jt_newStableId = None, jt_requestedSpec = JNull, jt_resolvedSpec = JNull,
     jt_specFingerprint = None\<rparr>"

definition demo_open :: open_journal_input where
  "demo_open = \<lparr>oj_kind = JReplace, oj_phase = Intent, oj_target = demo_target,
     oj_owner = demo_process, oj_assignment = ChangeState demo_expectation Replacing None\<rparr>"

definition demo_journal :: broker_db where
  "demo_journal = db_of (openBindingJournal (\<lambda>_. True) 104 demo_binding demo_open demo4)"

lemma demo_settling_ok: "ok (updateBindingState (\<lambda>_. True) 104 demo_binding demo_expectation Settling
     (Some demo_process) demo4)"
  by code_simp

lemma demo_journal_ok: "ok (openBindingJournal (\<lambda>_. True) 104 demo_binding demo_open demo4)"
  by code_simp

lemma demo_settling_step: "broker_step plain_scope_key demo4 demo_settling"
  unfolding demo_settling_def by (rule run_step [OF demo_settling_ok])
    (auto simp: broker_step_def intro: registry_step.updateBindingState)

lemma demo_journal_step: "broker_step plain_scope_key demo4 demo_journal"
  unfolding demo_journal_def by (rule run_step [OF demo_journal_ok])
    (auto simp: broker_step_def intro: registry_step.openBindingJournal)

lemma demo_settling_reach: "(broker_step plain_scope_key)\<^sup>*\<^sup>* empty_db demo_settling"
  using demo_reach4 demo_settling_step by (rule rtranclp.rtrancl_into_rtrancl)

lemma demo_journal_reach: "(broker_step plain_scope_key)\<^sup>*\<^sup>* empty_db demo_journal"
  using demo_reach4 demo_journal_step by (rule rtranclp.rtrancl_into_rtrancl)

lemma demo_bound: "readAssignment demo4 demo_binding \<noteq> None" "readAssignment demo5 demo_binding \<noteq> None"
  "readAssignment demo_settling demo_binding \<noteq> None"
  by code_simp+

end
