(* ===== verification/RegistryTheorems.thy ===== *)
theory RegistryTheorems
  imports Scenario
begin

text \<open>
  What the registry promises its callers: a compare-and-set that succeeds saw the current binding,
  a refused one wrote nothing, a device is held once, an execution owner is displaced only when it
  is gone, settled bindings come back, journal entries that ended stay ended.
\<close>

section \<open>Compare-and-set\<close>

text \<open>\<open>binding_written db db' k c\<close>: the row of \<open>k\<close> is now \<open>c\<close>, nothing else of the registry changed.\<close>

definition binding_written ::
  "('x) registry_db_scheme \<Rightarrow> 'x registry_db_scheme \<Rightarrow> binding_key \<Rightarrow> assignment_row \<Rightarrow> bool" where
  "binding_written db db' k c \<longleftrightarrow> readAssignment db' k = Some c \<and>
     (\<forall>x. x \<noteq> k \<longrightarrow> readAssignment db' x = readAssignment db x) \<and>
     scopes db' = scopes db \<and> journal db' = journal db \<and> journal_seq db' = journal_seq db"

lemma binding_written_put:
  assumes "registry_inv key_of db" and "readAssignment db k = Some a" and "as_key (f a) = k"
  shows "binding_written db (put_assignment k f db) k (f a)"
  using read_put_assignment [where f = f, OF assms]
  by (auto simp: binding_written_def put_assignment_def)

lemma checkBinding_stale:
  assumes "readScope db (fst k) = Some s" and "sc_state s = Valid"
    and "readAssignment db k = Some a" and "\<not> bindingMatches a e"
  shows "checkBinding db k e journaled u = Inl (StaleBinding a)"
  using assms by (simp add: checkBinding_def scopeAcceptsBindingChange_def Let_def)

lemma checkBinding_accepted:
  assumes "checkBinding db k e journaled None = Inr a"
  shows "readAssignment db k = Some a \<and> bindingMatches a e \<and>
     scopeAcceptsBindingChange (readScope db (fst k)) journaled"
  using assms by (auto simp: checkBinding_def Let_def split: if_splits option.splits)

lemma commitBindingIn_success:
  assumes "commitBindingIn now k e nxt journaled db = Inr (Inr c, db')"
  obtains a p where "checkBinding db k e journaled None = Inr a"
    "assertPlatformChangeAllowed a nxt = Inr p"
    "\<And>d. bc_device nxt = Some d \<Longrightarrow> deviceHolder db p d k = None"
    "db' = put_assignment k (commit_columns p nxt a now) db" "readAssignment db' k = Some c"
proof -
  obtain a where a: "checkBinding db k e journaled None = Inr a"
    using assms by (cases "checkBinding db k e journaled None") (auto simp: commitBindingIn_def)
  obtain p where p: "assertPlatformChangeAllowed a nxt = Inr p"
    using assms a by (auto simp: commitBindingIn_def)
  show thesis
  proof (cases "case bc_device nxt of None \<Rightarrow> None | Some d \<Rightarrow> deviceHolder db p d k")
    case None
    then have "\<And>d. bc_device nxt = Some d \<Longrightarrow> deviceHolder db p d k = None" by simp
    then show thesis
      using assms a p None by (intro that [OF a p]) (auto simp: commitBindingIn_def Let_def)
  qed (use assms a p in \<open>auto simp: commitBindingIn_def\<close>)
qed

lemma commitBinding_effect:
  assumes inv: "registry_inv key_of db" and run: "commitBinding now k e nxt db = Inr (Inr c, db')"
  shows "(\<exists>a. readAssignment db k = Some a \<and> bindingMatches a e \<and>
            as_generation c = as_generation a + 1 \<and>
            (as_device c \<noteq> as_device a \<or> as_platform c \<noteq> as_platform a \<longrightarrow> toExecOwner c = None)) \<and>
     as_device c = bc_device nxt \<and> as_state c = bc_state nxt \<and> toSettler c = None \<and>
     binding_written db db' k c"
proof -
  have run': "commitBindingIn now k e nxt False db = Inr (Inr c, db')"
    using run by (simp add: commitBinding_def)
  obtain a p where a: "checkBinding db k e False None = Inr a"
    and p: "assertPlatformChangeAllowed a nxt = Inr p"
    and free: "\<And>d. bc_device nxt = Some d \<Longrightarrow> deviceHolder db p d k = None"
    and db': "db' = put_assignment k (commit_columns p nxt a now) db"
    and c: "readAssignment db' k = Some c"
    using commitBindingIn_success [OF run'] by metis
  note acc = checkBinding_accepted [OF a]
  have ok: "assignment_ok a" "as_key a = k" using inv_assignment_ok [OF inv conjunct1 [OF acc]] by simp_all
  have key: "as_key (commit_columns p nxt a now a) = k"
    using admissible_key [OF commit_columns_admissible [OF ok(1) p free]] ok(2) by simp
  have written: "binding_written db db' k (commit_columns p nxt a now a)"
    unfolding db' using binding_written_put [where f = "commit_columns p nxt a now", OF inv conjunct1 [OF acc] key] .
  then have "c = commit_columns p nxt a now a" using c by (simp add: binding_written_def)
  moreover have "toSettler (commit_columns p nxt a now a) = None"
    "as_generation (commit_columns p nxt a now a) = as_generation a + 1"
    "as_device (commit_columns p nxt a now a) = bc_device nxt"
    "as_state (commit_columns p nxt a now a) = bc_state nxt"
    "bc_device nxt \<noteq> as_device a \<or> as_platform (commit_columns p nxt a now a) \<noteq> as_platform a \<longrightarrow>
       toExecOwner (commit_columns p nxt a now a) = None"
    by (auto simp: commit_columns_def Let_def toSettler_def toExecOwner_def split: option.splits)
  ultimately show ?thesis using acc written by auto
qed

lemma valid_key [simp]: "assertValidBindingKey k = Inr () \<longleftrightarrow> 0 \<le> snd k \<and> fst k \<noteq> []"
  by (simp add: assertValidBindingKey_def)

text \<open>
  C16: Optimistic concurrency of bindings: a commit that succeeds saw exactly the expected generation and
  device in the row, moves the generation by one, installs the requested device and state, clears the
  settler and (when the device or the platform changed) the execution owner, and writes no row but the
  binding's own; the same expectation tried again on the new database, with any new contents, is
  refused as stale, answers the row just committed and changes nothing.
\<close>

theorem commitBinding_applies_once:
  assumes "registry_inv key_of db" and "commitBinding now k e nxt db = Inr (Inr c, db')"
  shows "(\<exists>a. readAssignment db k = Some a \<and> bindingMatches a e \<and>
            as_generation c = as_generation a + 1 \<and>
            (as_device c \<noteq> as_device a \<or> as_platform c \<noteq> as_platform a \<longrightarrow> toExecOwner c = None)) \<and>
     as_device c = bc_device nxt \<and> as_state c = bc_state nxt \<and> toSettler c = None \<and>
     binding_written db db' k c \<and>
     commitBinding now2 k e nxt2 db' = Inr (Inl (StaleBinding c), db')"
proof -
  note eff = commitBinding_effect [OF assms]
  have run: "commitBindingIn now k e nxt False db = Inr (Inr c, db')" and k: "assertValidBindingKey k = Inr ()"
    using assms(2) by (auto simp: commitBinding_def)
  obtain a p where a: "checkBinding db k e False None = Inr a"
    and db': "db' = put_assignment k (commit_columns p nxt a now) db"
    using commitBindingIn_success [OF run] by metis
  obtain s where s: "readScope db (fst k) = Some s" "sc_state s = Valid"
    using checkBinding_accepted [OF a]
    by (auto simp: scopeAcceptsBindingChange_def split: option.splits)
  have rd: "readAssignment db' k = Some c" using eff by (simp add: binding_written_def)
  have "\<not> bindingMatches c e" using eff by (auto simp: bindingMatches_def)
  then have "checkBinding db' k e False None = Inl (StaleBinding c)"
    using rd s db' by (intro checkBinding_stale [of _ _ s]) simp_all
  then have "commitBinding now2 k e nxt2 db' = Inr (Inl (StaleBinding c), db')"
    using k by (simp add: commitBinding_def commitBindingIn_def)
  with eff show ?thesis by blast
qed

theorem commitBinding_applies_once_witness:
  "\<exists>c. commitBinding 103 demo_binding \<lparr>be_generation = 0, be_device = None\<rparr>
       (demo_commit (Some ''emulator-5554'') Ready) demo3 = Inr (Inr c, demo4) \<and>
     as_device c = Some ''emulator-5554'' \<and> readAssignment demo4 demo_binding = Some c \<and>
     commitBinding 104 demo_binding \<lparr>be_generation = 0, be_device = None\<rparr>
       (demo_commit (Some ''emulator-5556'') Ready) demo4 = Inr (Inl (StaleBinding c), demo4)"
proof -
  let ?run = "commitBinding 103 demo_binding \<lparr>be_generation = 0, be_device = None\<rparr>
    (demo_commit (Some ''emulator-5554'') Ready) demo3"
  have "accepted ?run" by code_simp
  then obtain c where c: "?run = Inr (Inr c, demo4)"
    using accepted_run unfolding demo4_def by blast
  from commitBinding_applies_once [OF reached_registry [OF demo_reach3] c]
  have "as_device c = Some ''emulator-5554'' \<and> readAssignment demo4 demo_binding = Some c \<and>
     commitBinding 104 demo_binding \<lparr>be_generation = 0, be_device = None\<rparr>
       (demo_commit (Some ''emulator-5556'') Ready) demo4 = Inr (Inl (StaleBinding c), demo4)"
    by (simp add: demo_commit_def binding_written_def)
  then show ?thesis using c by blast
qed

section \<open>Execution ownership\<close>

lemma claimExecution_success:
  assumes "claimExecution live now k e w sps db = Inr (Inr c, db')"
  obtains a where "readAssignment db k = Some a" "bindingMatches a e" "as_state a = Ready"
    "as_device a \<noteq> None" "heldByLiveOther live w sps a = None"
    "db' = put_assignment k (claim_columns w now) db" "readAssignment db' k = Some c"
proof -
  obtain a where a: "checkBinding db k e False (Some (eo_sessionUuid w)) = Inr a"
    using assms
    by (cases "checkBinding db k e False (Some (eo_sessionUuid w))") (auto simp: claimExecution_def)
  then have "readAssignment db k = Some a \<and> bindingMatches a e" by (rule checkBinding_Inr)
  then show thesis
    using assms a that [of a]
    by (auto simp: claimExecution_def Let_def split: if_splits option.splits)
qed

lemma toExecOwner_claimed:
  "toExecOwner (claim_columns w now a) = Some (w\<lparr>eo_process := (eo_process w)\<lparr>pi_token :=
     (case tokenColumn (pi_token (eo_process w)) of None \<Rightarrow> TNull | Some t \<Rightarrow> Token t)\<rparr>\<rparr>)"
  by (simp add: toExecOwner_def claim_columns_def set_exec_def)

text \<open>
  C17: Claiming execution succeeds only on a ready, bound device at the expected generation
  whose recorded owner is absent, dead, the same session or the superseded session; afterwards
  the row names the claimant, the binding is the same and no other row changed.
\<close>

theorem claimExecution_exclusive:
  assumes "registry_inv key_of db" and "claimExecution live now k e w sps db = Inr (Inr c, db')"
  shows "\<exists>a. readAssignment db k = Some a \<and> bindingMatches a e \<and> as_state a = Ready \<and>
     (\<forall>v. toExecOwner a = Some v \<longrightarrow> eo_sessionUuid v = eo_sessionUuid w \<or>
        sps = Some (eo_sessionUuid v) \<or> \<not> live (eo_process v)) \<and>
     bindingMatches c e \<and> as_device c \<noteq> None \<and> as_state c = Ready \<and>
     (\<exists>v. toExecOwner c = Some v \<and> eo_sessionUuid v = eo_sessionUuid w \<and>
        journalOwnersEqual (eo_process v) (eo_process w)) \<and>
     binding_written db db' k c"
proof -
  obtain a where a: "readAssignment db k = Some a" "bindingMatches a e" "as_state a = Ready"
    "as_device a \<noteq> None" "heldByLiveOther live w sps a = None"
    and db': "db' = put_assignment k (claim_columns w now) db" "readAssignment db' k = Some c"
    using claimExecution_success [OF assms(2)] by metis
  have "as_key (claim_columns w now a) = k"
    using inv_assignment_ok [OF assms(1) a(1)] by (simp add: claim_columns_def as_key_def)
  from binding_written_put [where f = "claim_columns w now", OF assms(1) a(1) this]
  have written: "binding_written db db' k (claim_columns w now a)" unfolding db'(1) .
  then have c: "c = claim_columns w now a" using db'(2) by (simp add: binding_written_def)
  have own: "eo_sessionUuid v = eo_sessionUuid w \<or> sps = Some (eo_sessionUuid v) \<or> \<not> live (eo_process v)"
    if "toExecOwner a = Some v" for v
    using a(5) that by (auto simp: heldByLiveOther_def split: if_splits)
  have new: "bindingMatches c e" "as_device c \<noteq> None" "as_state c = Ready"
    using a by (simp_all add: c claim_columns_def bindingMatches_def)
  have now: "\<exists>v. toExecOwner c = Some v \<and> eo_sessionUuid v = eo_sessionUuid w \<and>
      journalOwnersEqual (eo_process v) (eo_process w)"
    unfolding c toExecOwner_claimed
    by (auto simp: journalOwnersEqual_def tokenColumn_def split: gen_token.splits)
  show ?thesis using a own new now written c by blast
qed

theorem claimExecution_exclusive_witness:
  "\<exists>c. claimExecution (\<lambda>_. True) 104 demo_binding
       \<lparr>be_generation = 1, be_device = Some ''emulator-5554''\<rparr> demo_exec None demo4 = Inr (Inr c, demo5) \<and>
     as_state c = Ready \<and> readAssignment demo5 demo_binding = Some c"
proof -
  let ?run = "claimExecution (\<lambda>_. True) 104 demo_binding
    \<lparr>be_generation = 1, be_device = Some ''emulator-5554''\<rparr> demo_exec None demo4"
  have "accepted ?run" by code_simp
  then obtain c where c: "?run = Inr (Inr c, demo5)"
    using accepted_run unfolding demo5_def by blast
  from claimExecution_exclusive [OF reached_registry [OF demo_reach4] c]
  have "as_state c = Ready \<and> readAssignment demo5 demo_binding = Some c"
    by (auto simp: binding_written_def)
  then show ?thesis using c by blast
qed

section \<open>Recovering settled bindings\<close>

definition settled_row :: "int \<Rightarrow> assignment_row \<Rightarrow> assignment_row" where
  "settled_row now a = settle_columns (as_generation a) now a"

lemma settled_row_simps [simp]: "as_key (settled_row now a) = as_key a"
  by (simp add: settled_row_def settle_columns_def as_key_def)

lemma settle_all_total:
  assumes "registry_inv key_of db" and "distinct (map as_key rows)"
    and "\<forall>a\<in>set rows. readAssignment db (as_key a) = Some a \<and> as_state a = Settling"
  shows "\<exists>db'. settle_all now rows db = Inr (map (settled_row now) rows, db') \<and> registry_inv key_of db' \<and>
     (\<forall>k. readAssignment db' k =
        map_option (\<lambda>a. if a \<in> set rows then settled_row now a else a) (readAssignment db k))"
  using assms
proof (induction rows arbitrary: db)
  case Nil
  then show ?case by (simp add: option.map_ident)
next
  case (Cons a rows)
  have a: "readAssignment db (as_key a) = Some a" "as_state a = Settling" using Cons.prems by simp_all
  have d: "distinct (map as_key rows)" and new: "as_key a \<notin> as_key ` set rows"
    using Cons.prems(2) by simp_all
  let ?f = "settle_columns (as_generation a) now"
  let ?db = "put_assignment (as_key a) ?f db"
  have one: "settle_one now a db = Inr (settled_row now a, ?db)"
    using a by (simp add: settle_one_def settled_row_def)
  have inv: "registry_inv key_of ?db" by (rule settle_one_inv [OF Cons.prems(1) one])
  have reads: "readAssignment ?db k = (if k = as_key a then Some (settled_row now a) else readAssignment db k)" for k
    using read_put_assignment [where f = ?f, OF Cons.prems(1) a(1)] by (simp add: settled_row_def [symmetric])
  have rest: "\<forall>b\<in>set rows. readAssignment ?db (as_key b) = Some b \<and> as_state b = Settling"
  proof
    fix b assume b: "b \<in> set rows"
    then have "as_key b \<in> as_key ` set rows" by (rule imageI)
    with new have "as_key b \<noteq> as_key a" by metis
    then have "readAssignment ?db (as_key b) = readAssignment db (as_key b)" using reads by simp
    then show "readAssignment ?db (as_key b) = Some b \<and> as_state b = Settling"
      using Cons.prems(3) b by simp
  qed
  obtain db' where db': "settle_all now rows ?db = Inr (map (settled_row now) rows, db')"
    "registry_inv key_of db'"
    "\<forall>k. readAssignment db' k =
        map_option (\<lambda>b. if b \<in> set rows then settled_row now b else b) (readAssignment ?db k)"
    using Cons.IH [OF inv d rest] by blast
  have fresh: "settled_row now a \<notin> set rows"
    using new imageI [of "settled_row now a" "set rows" as_key] settled_row_simps by metis
  have "readAssignment db' k =
     map_option (\<lambda>b. if b \<in> set (a # rows) then settled_row now b else b) (readAssignment db k)" for k
  proof (cases "k = as_key a")
    case False
    have "readAssignment db' k = map_option (\<lambda>b. if b \<in> set rows then settled_row now b else b)
        (readAssignment db k)" using spec [OF db'(3), of k] reads [of k] False by simp
    moreover have "b \<noteq> a" if "readAssignment db k = Some b" for b
      using that False assignment_table.get_key by blast
    ultimately show ?thesis by (cases "readAssignment db k") simp_all
  next
    case True
    then show ?thesis using spec [OF db'(3), of k] reads [of k] a fresh by simp
  qed
  then show ?case using one db'(1,2) by simp
qed

definition settled_rows ::
  "(process_identity \<Rightarrow> bool) \<Rightarrow> string option \<Rightarrow> ('x) registry_db_scheme \<Rightarrow> assignment_row list" where
  "settled_rows live sk db = filter (isSettled live) (settlingRows db sk)"

lemma settled_rows_distinct:
  assumes "registry_inv key_of db"
  shows "distinct (map as_key (settled_rows live sk db))"
proof -
  have d: "distinct (map as_key (assignments db))"
    using assms by (simp add: registry_inv_def assignments_inv_def)
  have "mset (map as_key (settlingRows db sk)) = mset (map as_key (filter (\<lambda>a. as_state a = Settling \<and>
        (case sk of None \<Rightarrow> True | Some k \<Rightarrow> as_scope a = k)) (assignments db)))"
    by (simp add: settlingRows_def)
  moreover have "distinct (map as_key (filter (\<lambda>a. as_state a = Settling \<and>
        (case sk of None \<Rightarrow> True | Some k \<Rightarrow> as_scope a = k)) (assignments db)))"
    using d by (rule distinct_map_filter)
  ultimately have "distinct (map as_key (settlingRows db sk))" by (metis mset_eq_imp_distinct_iff)
  then show ?thesis unfolding settled_rows_def by (rule distinct_map_filter)
qed

lemma settled_rows_iff:
  "a \<in> set (settled_rows live sk db) \<longleftrightarrow> a \<in> set (assignments db) \<and> as_state a = Settling \<and>
     isSettled live a \<and> (case sk of None \<Rightarrow> True | Some s \<Rightarrow> as_scope a = s)"
  by (auto simp: settled_rows_def settlingRows_def)

lemma recoverSettled_effect:
  assumes inv: "registry_inv key_of db"
  shows "\<exists>db'. recoverSettledBindings live now sk db =
       Inr (map (settled_row now) (settled_rows live sk db), db') \<and> registry_inv key_of db' \<and>
     (\<forall>k. readAssignment db' k = map_option
        (\<lambda>a. if a \<in> set (settled_rows live sk db) then settled_row now a else a) (readAssignment db k))"
proof -
  have d: "distinct (map as_key (assignments db))"
    using inv by (simp add: registry_inv_def assignments_inv_def)
  have "\<forall>a\<in>set (settled_rows live sk db). readAssignment db (as_key a) = Some a \<and> as_state a = Settling"
    using assignment_table.get_in_rows [OF d] by (simp add: settled_rows_iff)
  from settle_all_total [OF inv settled_rows_distinct [OF inv] this]
  show ?thesis unfolding recoverSettledBindings_def settled_rows_def .
qed

text \<open>
  C23: Recovery always commits: every settling binding (of the asked scope) whose settler and
  execution owner are both gone becomes ready with the same generation, device and owner and is
  reported; every other row is untouched.
\<close>

theorem recoverSettledBindings_complete:
  assumes "registry_inv key_of db"
  shows "\<exists>rows db'. recoverSettledBindings live now sk db = Inr (rows, db') \<and>
     (\<forall>k a. readAssignment db k = Some a \<longrightarrow>
        (if as_state a = Settling \<and> isSettled live a \<and> (case sk of None \<Rightarrow> True | Some s \<Rightarrow> as_scope a = s)
         then \<exists>b. readAssignment db' k = Some b \<and> b \<in> set rows \<and> as_state b = Ready \<and> toSettler b = None \<and>
                as_generation b = as_generation a \<and> as_device b = as_device a \<and> toExecOwner b = toExecOwner a
         else readAssignment db' k = Some a))"
proof -
  obtain db' where run: "recoverSettledBindings live now sk db =
      Inr (map (settled_row now) (settled_rows live sk db), db')"
    and reads: "\<And>k. readAssignment db' k = map_option
        (\<lambda>a. if a \<in> set (settled_rows live sk db) then settled_row now a else a) (readAssignment db k)"
    using recoverSettled_effect [OF assms] by metis
  have row: "as_state (settled_row now a) = Ready \<and> toSettler (settled_row now a) = None \<and>
      as_generation (settled_row now a) = as_generation a \<and> as_device (settled_row now a) = as_device a \<and>
      toExecOwner (settled_row now a) = toExecOwner a" if "as_state a = Settling" for a
    using that by (auto simp: settled_row_def settle_columns_def set_settler_def toSettler_def toExecOwner_def
        split: option.splits)
  show ?thesis
  proof (intro exI conjI allI impI)
    show "recoverSettledBindings live now sk db =
      Inr (map (settled_row now) (settled_rows live sk db), db')" by (rule run)
    fix k a assume a: "readAssignment db k = Some a"
    then have "a \<in> set (assignments db)" using assignment_table.get_SomeD by blast
    then show "if as_state a = Settling \<and> isSettled live a \<and> (case sk of None \<Rightarrow> True | Some s \<Rightarrow> as_scope a = s)
         then \<exists>b. readAssignment db' k = Some b \<and> b \<in> set (map (settled_row now) (settled_rows live sk db)) \<and>
                as_state b = Ready \<and> toSettler b = None \<and>
                as_generation b = as_generation a \<and> as_device b = as_device a \<and> toExecOwner b = toExecOwner a
         else readAssignment db' k = Some a"
      using reads [of k] a row [of a] by (auto simp: settled_rows_iff)
  qed
qed

theorem recoverSettledBindings_complete_witness:
  "\<exists>rows db' b. recoverSettledBindings (\<lambda>_. False) 106 None demo_settling = Inr (rows, db') \<and>
     readAssignment db' demo_binding = Some b \<and> b \<in> set rows \<and> as_state b = Ready"
proof -
  have st: "case readAssignment demo_settling demo_binding of None \<Rightarrow> False
     | Some a \<Rightarrow> as_state a = Settling \<and> isSettled (\<lambda>_. False) a" by code_simp
  then obtain a where a: "readAssignment demo_settling demo_binding = Some a" "as_state a = Settling"
    "isSettled (\<lambda>_. False) a" by (auto split: option.splits)
  show ?thesis
    using recoverSettledBindings_complete [OF reached_registry [OF demo_settling_reach],
        of "\<lambda>_. False" 106 None] a by fastforce
qed

section \<open>The snapshot of managed devices\<close>

definition scope_entry :: "scope_row list \<Rightarrow> assignment_row \<Rightarrow> managed_entry list" where
  "scope_entry sc a =
     (case (as_device a, get_row sc_key (as_scope a) sc) of
        (Some d, Some s) \<Rightarrow>
          if sc_state s \<noteq> Invalidated \<or> sc_reason s = Some Abandoned
          then [\<lparr>me_platform = as_platform a, me_device = d, me_scope = as_scope a,
                 me_index = as_index a, me_scope_state = Some (sc_state s),
                 me_session = as_exec_session a\<rparr>] else []
      | _ \<Rightarrow> [])"

lemma join_on_key:
  "distinct (map key t) \<Longrightarrow> concat (map (\<lambda>s. if key s = k \<and> P s then [g s] else []) t) =
     (case get_row key k t of None \<Rightarrow> [] | Some s \<Rightarrow> if P s then [g s] else [])"
proof (induction t)
  case (Cons s t)
  have "key x \<noteq> k" if "key s = k" "x \<in> set t" for x
    using Cons.prems that imageI [OF that(2), of key] by (metis distinct.simps(2) list.set_map list.simps(9))
  then have "concat (map (\<lambda>s. if key s = k \<and> P s then [g s] else []) t) = []" if "key s = k"
    using that by (auto simp: concat_eq_Nil_conv)
  note none = this
  show ?case
  proof (cases "key s = k")
    case True
    then show ?thesis using none by (simp add: get_row_def)
  next
    case False
    then show ?thesis using Cons.IH Cons.prems by (simp add: get_row_def)
  qed
qed (simp add: get_row_def)

lemma assignedEntries_join:
  assumes "distinct (map sc_key (scopes db))"
  shows "assignedEntries db = concat (map (scope_entry (scopes db)) (assignments db))"
proof -
  have "concat (map (\<lambda>s. case as_device a of None \<Rightarrow> []
        | Some d \<Rightarrow>
            if sc_key s = as_scope a \<and> (sc_state s \<noteq> Invalidated \<or> sc_reason s = Some Abandoned)
            then [\<lparr>me_platform = as_platform a, me_device = d, me_scope = as_scope a,
                   me_index = as_index a, me_scope_state = Some (sc_state s),
                   me_session = as_exec_session a\<rparr>] else []) (scopes db)) = scope_entry (scopes db) a" for a
    by (cases "as_device a")
       (simp_all add: scope_entry_def join_on_key [OF assms] split: option.split)
  then show ?thesis unfolding assignedEntries_def by simp
qed

abbreviation entry_device :: "managed_entry \<Rightarrow> platform \<times> string" where
  "entry_device e \<equiv> (me_platform e, me_device e)"

lemma scope_entry_device:
  "e \<in> set (scope_entry sc a) \<Longrightarrow> as_device a = Some (me_device e) \<and> me_platform e = as_platform a"
  by (auto simp: scope_entry_def split: option.splits if_splits)

lemma assigned_distinct:
  assumes "distinct (map as_key t)" and "device_exclusive t"
  shows "distinct (map entry_device (concat (map (scope_entry sc) t)))"
  using assms
proof (induction t)
  case (Cons a t)
  have ex: "device_exclusive t" using Cons.prems(2) unfolding device_exclusive_def by (meson list.set_intros(2))
  have one: "distinct (map entry_device (scope_entry sc a))"
    by (auto simp: scope_entry_def split: option.split)
  have "entry_device e \<noteq> entry_device f"
    if e: "e \<in> set (scope_entry sc a)" and f: "f \<in> set (scope_entry sc b)" and b: "b \<in> set t" for e f b
  proof
    assume "entry_device e = entry_device f"
    then have "as_device a = as_device b" "as_platform a = as_platform b" "as_device a \<noteq> None"
      using scope_entry_device [OF e] scope_entry_device [OF f] by auto
    then have "as_key a = as_key b" using Cons.prems(2) b unfolding device_exclusive_def
      by (meson list.set_intros)
    moreover have "as_key b \<in> as_key ` set t" using b by (rule imageI)
    ultimately show False using Cons.prems(1) by simp
  qed
  then have "entry_device ` set (scope_entry sc a) \<inter>
      entry_device ` (\<Union>b\<in>set t. set (scope_entry sc b)) = {}" by blast
  moreover have "distinct (map entry_device (concat (map (scope_entry sc) t)))"
    using Cons.IH [OF _ ex] Cons.prems(1) by simp
  ultimately show ?case using one by simp
qed simp

lemma journalTargets_device:
  "e \<in> set (journalTargets seen js) \<Longrightarrow> entry_device e \<notin> set seen"
  by (induction seen js rule: journalTargets.induct)
     (auto simp: Let_def split: option.splits if_splits)

lemma journalTargets_distinct: "distinct (map entry_device (journalTargets seen js))"
  by (induction seen js rule: journalTargets.induct)
     (auto simp: Let_def split: option.splits dest: journalTargets_device)

lemma journalTargets_cover:
  "j \<in> set js \<Longrightarrow> journalNewStableId j = Some d \<Longrightarrow>
     (journalCreationPlatform j, d) \<in> set seen \<union> entry_device ` set (journalTargets seen js)"
proof (induction seen js rule: journalTargets.induct)
  case (2 seen i js)
  then show ?case by (cases "journalNewStableId i") (auto simp: Let_def)
qed simp

lemma distinct_map_append:
  assumes "distinct (map f xs)" and "distinct (map f ys)" and "\<And>y. y \<in> set ys \<Longrightarrow> f y \<notin> set (map f xs)"
  shows "distinct (map f (xs @ ys))"
proof -
  have "set (map f xs) \<inter> set (map f ys) = {}"
  proof (rule ccontr)
    assume "set (map f xs) \<inter> set (map f ys) \<noteq> {}"
    then obtain z where z: "z \<in> set (map f xs)" "z \<in> set (map f ys)" by blast
    then obtain y where "y \<in> set ys" "z = f y" by auto
    with z(1) assms(3) show False by blast
  qed
  with assms(1,2) show ?thesis by simp
qed

text \<open>
  The snapshot the reconciler works from lists every device bound in a scope that is not
  permanently invalidated and every device an open journal entry may be creating, and names no
  device twice.
\<close>

theorem snapshotResources_complete:
  assumes "registry_inv key_of db" and "snapshotResources db = (entries, pending)"
  shows "distinct (map (\<lambda>e. (me_platform e, me_device e)) entries) \<and>
     (\<forall>k a d s. readAssignment db k = Some a \<and> as_device a = Some d \<and> readScope db (fst k) = Some s \<and>
        (sc_state s = Invalidated \<longrightarrow> sc_reason s = Some Abandoned) \<longrightarrow>
        (\<exists>e\<in>set entries. me_platform e = as_platform a \<and> me_device e = d \<and> me_session e = as_exec_session a \<and>
           (me_scope e, me_index e) = k)) \<and>
     (\<forall>i j d. getBindingJournal db i = Some j \<and> isBindingJournalPhaseOpen (jr_phase j) \<and>
        journalNewStableId j = Some d \<longrightarrow>
        (\<exists>e\<in>set entries. me_platform e = journalCreationPlatform j \<and> me_device e = d))"
proof -
  have ds: "distinct (map sc_key (scopes db))" and da: "distinct (map as_key (assignments db))"
    and ex: "device_exclusive (assignments db)"
    using assms(1) by (simp_all add: registry_inv_def scopes_inv_def assignments_inv_def)
  let ?A = "concat (map (scope_entry (scopes db)) (assignments db))"
  let ?J = "journalTargets (map entry_device ?A) (openJournalRows db)"
  have en: "?A @ ?J = entries"
    using assms(2) unfolding snapshotResources_def journalTargetEntries_def Let_def assignedEntries_join [OF ds]
    by (metis prod.inject)
  have 1: "distinct (map entry_device entries)"
    unfolding en [symmetric]
    by (rule distinct_map_append [OF assigned_distinct [OF da ex] journalTargets_distinct])
       (rule journalTargets_device)
  have 2: "\<exists>e\<in>set entries. me_platform e = as_platform a \<and> me_device e = d \<and>
      me_session e = as_exec_session a \<and> (me_scope e, me_index e) = k"
    if "readAssignment db k = Some a" "as_device a = Some d" "readScope db (fst k) = Some s"
      "sc_state s = Invalidated \<longrightarrow> sc_reason s = Some Abandoned" for k a d s
  proof -
    have a: "a \<in> set (assignments db)" "as_key a = k"
      using assignment_table.get_SomeD [OF that(1)] by simp_all
    then have "get_row sc_key (as_scope a) (scopes db) = Some s"
      using that(3) by (auto simp: readScope_def as_key_def)
    then have "\<lparr>me_platform = as_platform a, me_device = d, me_scope = as_scope a,
        me_index = as_index a, me_scope_state = Some (sc_state s),
        me_session = as_exec_session a\<rparr> \<in> set (scope_entry (scopes db) a)"
      using that(2,4) by (auto simp: scope_entry_def)
    then have "\<exists>e\<in>set (scope_entry (scopes db) a). me_platform e = as_platform a \<and> me_device e = d \<and>
      me_session e = as_exec_session a \<and> (me_scope e, me_index e) = k"
      using a(2) by (auto simp: as_key_def intro!: bexI)
    then show ?thesis unfolding en [symmetric] using a(1) by auto
  qed
  have 3: "\<exists>e\<in>set entries. me_platform e = journalCreationPlatform j \<and> me_device e = d"
    if "getBindingJournal db i = Some j" "isBindingJournalPhaseOpen (jr_phase j)"
      "journalNewStableId j = Some d" for i j d
  proof -
    have "j \<in> set (openJournalRows db)"
      using that(1,2) journal_table.get_SomeD [OF that(1)] by (simp add: openJournalRows_def)
    from journalTargets_cover [OF this that(3), of "map entry_device ?A"]
    show ?thesis unfolding en [symmetric] by force
  qed
  from 1 2 3 show ?thesis by blast
qed

theorem snapshotResources_complete_witness:
  "\<exists>e\<in>set (fst (snapshotResources demo_journal)). me_platform e = Android \<and> me_device e = ''pixel''"
proof -
  have st: "case getBindingJournal demo_journal 1 of None \<Rightarrow> False
     | Some j \<Rightarrow> isBindingJournalPhaseOpen (jr_phase j) \<and> journalNewStableId j = Some ''pixel'' \<and>
         journalCreationPlatform j = Android" by code_simp
  then obtain j where j: "getBindingJournal demo_journal 1 = Some j" "isBindingJournalPhaseOpen (jr_phase j)"
    "journalNewStableId j = Some ''pixel''" "journalCreationPlatform j = Android"
    by (auto split: option.splits)
  have "snapshotResources demo_journal = (fst (snapshotResources demo_journal), snd (snapshotResources demo_journal))"
    by simp
  note all = snapshotResources_complete [OF reached_registry [OF demo_journal_reach] this]
  show ?thesis
    using all [THEN conjunct2, THEN conjunct2, rule_format, of 1 j "''pixel''"] j by simp
qed

section \<open>Runs of the whole system\<close>

lemma store_step_registry:
  "store_step db db' \<Longrightarrow> system_inv key_of db \<Longrightarrow> same_registry db db'"
  using store_step_forward by (auto simp: system_inv_def forward_def)

text \<open>A step of the system after which the binding \<open>k\<close> still exists.\<close>

definition binding_step :: "(scope_identity \<Rightarrow> string) \<Rightarrow> binding_key \<Rightarrow> broker_db \<Rightarrow> broker_db \<Rightarrow> bool" where
  "binding_step key_of k db db' \<longleftrightarrow> broker_step key_of db db' \<and> readAssignment db' k \<noteq> None"

lemma binding_step_le:
  assumes "binding_step key_of k db db'" and "system_inv key_of db" and "readAssignment db k \<noteq> None"
  shows "binding_le k db db'"
proof (cases "registry_step key_of db db'")
  case True
  then have "kept_step key_of k db db'" using assms(1) by (simp add: binding_step_def kept_step_def)
  moreover have "registry_inv key_of db" using assms(2) by (simp add: system_inv_def)
  ultimately show ?thesis using assms(3) by (rule kept_step_le)
next
  case False
  then have "same_registry db db'"
    using assms store_step_registry by (auto simp: binding_step_def broker_step_def)
  then show ?thesis by (simp add: same_registry_def binding_le_def readAssignment_def split: option.splits)
qed

interpretation lease_runs:
  monotone_system "binding_step key_of k"
    "\<lambda>db. inj key_of \<and> system_inv key_of db \<and> readAssignment db k \<noteq> None" "binding_le k"
  for key_of :: "scope_identity \<Rightarrow> string" and k :: binding_key
proof unfold_locales
  fix s t assume "inj key_of \<and> system_inv key_of s \<and> readAssignment s k \<noteq> None" "binding_step key_of k s t"
  then show "(inj key_of \<and> system_inv key_of t \<and> readAssignment t k \<noteq> None) \<and> binding_le k s t"
    using binding_step_le broker_step_inv unfolding binding_step_def by blast
next
  fix s t u :: broker_db
  show "binding_le k s s" by (simp add: binding_le_def split: option.splits)
  show "binding_le k s t \<Longrightarrow> binding_le k t u \<Longrightarrow> binding_le k s u"
    by (auto simp: binding_le_def intro: row_advances_trans split: option.splits)
qed

interpretation entry_runs:
  monotone_system "broker_step key_of" "\<lambda>db. inj key_of \<and> system_inv key_of db" journal_le
  for key_of :: "scope_identity \<Rightarrow> string"
proof unfold_locales
  fix s t assume a: "inj key_of \<and> system_inv key_of s" "broker_step key_of s t"
  have "journal_le s t"
  proof (cases "registry_step key_of s t")
    case True
    then show ?thesis using a registry_step_journal by (auto simp: system_inv_def)
  next
    case False
    then have "same_registry s t" using a store_step_registry by (auto simp: broker_step_def)
    then show ?thesis by (intro journal_le_same) (simp_all add: same_registry_def)
  qed
  then show "(inj key_of \<and> system_inv key_of t) \<and> journal_le s t" using a broker_step_inv by blast
qed (auto intro: journal_le_refl journal_le_trans)

text \<open>
  C8: While a binding row exists its generation never goes back, whatever transactions any
  process runs, and as long as the generation is the same so are the device and the platform: a
  reader that finds its generation again has missed no rebinding.
\<close>

theorem generation_fence:
  assumes "inj key_of" and "system_inv key_of db" and "(binding_step key_of k)\<^sup>*\<^sup>* db db'"
    and "readAssignment db k = Some a" and "readAssignment db' k = Some b"
  shows "as_generation a \<le> as_generation b \<and>
     (as_generation b = as_generation a \<longrightarrow> as_device b = as_device a \<and> as_platform b = as_platform a)"
  using lease_runs.mono_steps [OF assms(3)] assms
  by (simp add: binding_le_def row_advances_def)

theorem generation_fence_witness:
  "\<exists>a b. readAssignment demo4 demo_binding = Some a \<and> readAssignment demo5 demo_binding = Some b \<and>
     as_generation a \<le> as_generation b"
proof -
  have step: "(binding_step plain_scope_key demo_binding)\<^sup>*\<^sup>* demo4 demo5"
    using demo_step5 demo_bound(2) by (auto simp: binding_step_def)
  show ?thesis
    using generation_fence [OF inj_plain_scope_key reached_inv [OF demo_reach4] step] demo_bound
    by blast
qed

text \<open>
  C19: A journal id is never reused: an entry read later under an id already handed out is the
  same entry, with the same binding and kind, generation and attempts that only grew, and it is
  unchanged if it had ended.
\<close>

theorem journal_entry_final:
  assumes "inj key_of" and "system_inv key_of db" and "(broker_step key_of)\<^sup>*\<^sup>* db db'"
    and "i \<le> journal_seq db" and "getBindingJournal db' i = Some f"
  shows "\<exists>e. getBindingJournal db i = Some e \<and> jr_key f = jr_key e \<and> jr_kind f = jr_kind e \<and>
     jr_binding_generation e \<le> jr_binding_generation f \<and> jr_attempts e \<le> jr_attempts f \<and>
     (isBindingJournalPhaseOpen (jr_phase e) \<or> f = e)"
  using entry_runs.mono_steps [OF assms(3)] assms unfolding journal_le_def entry_advances_def by blast

definition demo_rollback :: advance_journal_input where
  "demo_rollback = \<lparr>aj_owner = demo_process, aj_expectedPhase = Intent, aj_phase = RolledBack,
     aj_target = \<lparr>tp_removalRequested = None, tp_quarantinedAtMs = None, tp_newPlatform = None,
       tp_oldStableId = None, tp_oldName = None, tp_newName = None, tp_newStableId = None,
       tp_requestedSpec = None, tp_resolvedSpec = None, tp_specFingerprint = None\<rparr>,
     aj_assignment = None, aj_attempt = None\<rparr>"

definition demo_closed :: broker_db where
  "demo_closed = db_of (advanceBindingJournal (\<lambda>_. True) 105 1 demo_rollback demo_journal)"

lemma demo_closed_step: "broker_step plain_scope_key demo_journal demo_closed"
proof -
  have "ok (advanceBindingJournal (\<lambda>_. True) 105 1 demo_rollback demo_journal)" by code_simp
  then show ?thesis
    unfolding demo_closed_def
    by (rule run_step) (auto simp: broker_step_def intro: registry_step.advanceBindingJournal)
qed

theorem journal_entry_final_witness:
  "\<exists>e f. getBindingJournal demo_journal 1 = Some e \<and> getBindingJournal demo_closed 1 = Some f \<and>
     jr_phase f = RolledBack \<and> jr_key f = jr_key e"
proof -
  have "journal_seq demo_journal = 1" by code_simp
  then have i: "1 \<le> journal_seq demo_journal" by simp
  have "case getBindingJournal demo_closed 1 of None \<Rightarrow> False | Some f \<Rightarrow> jr_phase f = RolledBack"
    by code_simp
  then obtain f where f: "getBindingJournal demo_closed 1 = Some f" "jr_phase f = RolledBack"
    by (auto split: option.splits)
  have "(broker_step plain_scope_key)\<^sup>*\<^sup>* demo_journal demo_closed" using demo_closed_step by simp
  from journal_entry_final [OF inj_plain_scope_key reached_inv [OF demo_journal_reach] this i f(1)] f
  show ?thesis by blast
qed

text \<open>
  C2: In every reachable database one physical device is held by at most one binding.
\<close>

theorem device_held_once:
  assumes "inj key_of" and "(broker_step key_of)\<^sup>*\<^sup>* empty_db db"
    and "readAssignment db k = Some a" and "readAssignment db l = Some b"
    and "as_device a = Some d" and "as_device b = Some d" and "as_platform a = as_platform b"
  shows "k = l"
proof -
  have "device_exclusive (assignments db)"
    using broker_runs.inv_reachable [OF assms(2)] assms(1)
    by (simp add: safe_system_def system_inv_def registry_inv_def assignments_inv_def)
  moreover have "a \<in> set (assignments db)" "b \<in> set (assignments db)" "as_key a = k" "as_key b = l"
    using assignment_table.get_SomeD [OF assms(3)] assignment_table.get_SomeD [OF assms(4)] by simp_all
  ultimately show ?thesis using assms(5-7) unfolding device_exclusive_def by (metis option.distinct(1))
qed

theorem device_held_once_witness:
  "\<exists>a. readAssignment demo4 demo_binding = Some a \<and> as_device a = Some ''emulator-5554'' \<and>
     (\<forall>l b. readAssignment demo4 l = Some b \<and> as_device b = Some ''emulator-5554'' \<and>
        as_platform a = as_platform b \<longrightarrow> demo_binding = l)"
proof -
  have "case readAssignment demo4 demo_binding of None \<Rightarrow> False
     | Some a \<Rightarrow> as_device a = Some ''emulator-5554''" by code_simp
  then obtain a where a: "readAssignment demo4 demo_binding = Some a" "as_device a = Some ''emulator-5554''"
    by (auto split: option.splits)
  from device_held_once [OF inj_plain_scope_key demo_reach4 a(1) _ a(2)] a
  show ?thesis by blast
qed

text \<open>
  C18: In every reachable database an open journal entry belongs to an existing binding that has
  not gone behind it, names the bound device while the generations agree, and is the only open
  entry of that binding.
\<close>

theorem open_entry_tracks_binding:
  assumes "inj key_of" and "(broker_step key_of)\<^sup>*\<^sup>* empty_db db"
    and "getBindingJournal db i = Some j" and "isBindingJournalPhaseOpen (jr_phase j)"
  shows "(\<exists>a. readAssignment db (jr_key j) = Some a \<and> jr_binding_generation j \<le> as_generation a \<and>
       (jr_binding_generation j = as_generation a \<longrightarrow> jr_binding_device j = as_device a)) \<and>
     (\<forall>i' j'. getBindingJournal db i' = Some j' \<and> isBindingJournalPhaseOpen (jr_phase j') \<and>
        jr_key j' = jr_key j \<longrightarrow> i' = i)"
proof -
  have inv: "registry_inv key_of db"
    using broker_runs.inv_reachable [OF assms(2)] assms(1) by (simp add: safe_system_def system_inv_def)
  have j: "j \<in> set (journal db)" "jr_id j = i" using journal_table.get_SomeD [OF assms(3)] by simp_all
  have "tracks (assignments db) j"
    using inv j(1) assms(4) by (simp add: registry_inv_def tracking_def list_all_iff)
  then have 1: "\<exists>a. readAssignment db (jr_key j) = Some a \<and> jr_binding_generation j \<le> as_generation a \<and>
       (jr_binding_generation j = as_generation a \<longrightarrow> jr_binding_device j = as_device a)"
    by (simp add: tracks_def readAssignment_def split: option.splits)
  have ex: "one_open_entry (journal db)" using inv by (simp add: registry_inv_def journal_inv_def)
  have "i' = i" if "getBindingJournal db i' = Some j'" "isBindingJournalPhaseOpen (jr_phase j')"
      "jr_key j' = jr_key j" for i' j'
    using ex journal_table.get_SomeD [OF that(1)] that(2,3) j assms(4) unfolding one_open_entry_def by blast
  with 1 show ?thesis by blast
qed
theorem open_entry_tracks_binding_witness:
  "\<exists>j a. getBindingJournal demo_journal 1 = Some j \<and> readAssignment demo_journal (jr_key j) = Some a \<and>
     jr_binding_generation j \<le> as_generation a"
proof -
  have "case getBindingJournal demo_journal 1 of None \<Rightarrow> False
     | Some j \<Rightarrow> isBindingJournalPhaseOpen (jr_phase j)" by code_simp
  then obtain j where j: "getBindingJournal demo_journal 1 = Some j" "isBindingJournalPhaseOpen (jr_phase j)"
    by (auto split: option.splits)
  from open_entry_tracks_binding [OF inj_plain_scope_key demo_journal_reach j] j
  show ?thesis by blast
qed

section \<open>Revival of an abandoned scope\<close>

text \<open>
  An abandoned incarnation is revivable again once the newer incarnation of its namespace has itself
  been invalidated: nothing records that the newer one existed.
\<close>

definition demo_returning :: broker_db where
  "demo_returning = db_of (ensureScope plain_scope_key 100 demo_identity empty_db)"

definition demo_succeeded :: broker_db where
  "demo_succeeded = demo_returning\<lparr>scopes :=
     [(the (readScope demo_returning demo_scope))\<lparr>sc_state := Invalidated, sc_reason := Some Abandoned\<rparr>,
      (the (readScope demo_returning demo_scope))\<lparr>sc_key := ''next'', sc_incarnation := ''next'', sc_created := 200,
        sc_state := Invalidated, sc_reason := Some OperatorReset\<rparr>]\<rparr>"

lemma abandoned_scope_revived_after_newer:
  "case ensureScope plain_scope_key 300 demo_identity demo_succeeded of
     Inr (ScopeReady s created revived, db) \<Rightarrow> \<not> created \<and> revived \<and> sc_state s = Valid | _ \<Rightarrow> False"
  by code_simp

end
