(* ===== verification/BrokerTheorems.thy ===== *)
theory BrokerTheorems
  imports Scenario
begin

text \<open>
  What the broker store promises: a device reservation has one owner, receipts and destruction
  tickets are final, destruction is confirmed only when no physical work is left, and only clean
  devices become idle.
\<close>

section \<open>Leases\<close>

lemma reached_broker_inv:
  assumes "inj key_of" and "(broker_step key_of)\<^sup>*\<^sup>* empty_db db"
  shows "broker_inv db"
  using broker_runs.inv_reachable [OF assms(2)] assms(1) by (simp add: safe_system_def system_inv_def)

lemma unfinished_holds:
  assumes inv: "broker_inv db" and p: "readRequest db k = Some p" "\<not> isTerminalState (rq_state p)"
    and r: "rq_resource p = Some r"
  shows "\<exists>s. readResource db r = Some s \<and> rs_request s = Some k \<and> rs_id s = r \<and>
     (pair_ok (rq_state p) (rs_state s) \<or> rq_state p = Acquiring \<and> rs_state s = Destroyed)"
proof -
  have "request_ok (resources db) p \<and> rq_id p = k" using broker_inv_request [OF inv p(1)] .
  then have "holds_resource (resources db) p" "rq_id p = k" using p(2) r by (auto simp: request_ok_def)
  then show ?thesis
    using r by (auto simp: holds_resource_def readResource_def split: option.splits dest: get_row_SomeD)
qed

text \<open>
  C1: In every reachable database two unfinished requests never hold the same device resource,
  and the resource an unfinished request names is charged to it.
\<close>

theorem lease_exclusive:
  assumes "inj key_of" and "(broker_step key_of)\<^sup>*\<^sup>* empty_db db"
    and "readRequest db k = Some p" and "\<not> isTerminalState (rq_state p)" and "rq_resource p = Some r"
    and "readRequest db l = Some q" and "\<not> isTerminalState (rq_state q)" and "rq_resource q = Some r"
  shows "k = l \<and> (\<exists>s. readResource db r = Some s \<and> rs_request s = Some k)"
  using unfinished_holds [OF reached_broker_inv [OF assms(1,2)] assms(3,4,5)]
    unfinished_holds [OF reached_broker_inv [OF assms(1,2)] assms(6,7,8)] by auto

theorem lease_exclusive_witness:
  "\<exists>p. readRequest demo6 ''q1'' = Some p \<and> rq_state p = RActive \<and> rq_resource p = Some ''r1'' \<and>
     (\<forall>l q. readRequest demo6 l = Some q \<and> \<not> isTerminalState (rq_state q) \<and>
        rq_resource q = Some ''r1'' \<longrightarrow> ''q1'' = l)"
proof -
  have "case readRequest demo6 ''q1'' of None \<Rightarrow> False
     | Some p \<Rightarrow> rq_state p = RActive \<and> rq_resource p = Some ''r1''" by code_simp
  then obtain p where p: "readRequest demo6 ''q1'' = Some p" "rq_state p = RActive"
    "rq_resource p = Some ''r1''" by (auto split: option.splits)
  have nt: "\<not> isTerminalState (rq_state p)" using p(2) by simp
  from lease_exclusive [OF inj_plain_scope_key demo_reach6 p(1) nt p(3)] p
  show ?thesis by blast
qed

fun lease_state :: "resource_state \<Rightarrow> request_state option" where
  "lease_state Reserved = Some Acquiring"
| "lease_state Active = Some RActive"
| "lease_state Resetting = Some Releasing"
| "lease_state _ = None"

text \<open>
  C7: In every reachable database an idle resource belongs to nobody, and a reserved, active or
  resetting one belongs to an existing request in the corresponding state (acquiring, active,
  releasing) that names it.
\<close>

theorem resource_has_its_request:
  assumes "inj key_of" and "(broker_step key_of)\<^sup>*\<^sup>* empty_db db" and "readResource db r = Some s"
  shows "(rs_state s = Idle \<longrightarrow> rs_request s = None) \<and>
     (\<forall>st. lease_state (rs_state s) = Some st \<longrightarrow>
        (\<exists>k q. rs_request s = Some k \<and> readRequest db k = Some q \<and> rq_state q = st \<and> rq_resource q = Some r))"
proof -
  have "resource_ok (requests db) s \<and> rs_id s = r"
    by (rule broker_inv_resource [OF reached_broker_inv [OF assms(1,2)] assms(3)])
  then show ?thesis
    by (cases "rs_state s") (auto simp: resource_ok_def links_def readRequest_def split: option.splits)
qed

theorem resource_has_its_request_witness:
  "\<exists>s k q. readResource demo6 ''r1'' = Some s \<and> rs_state s = Active \<and> rs_request s = Some k \<and>
     readRequest demo6 k = Some q \<and> rq_state q = RActive \<and> rq_resource q = Some ''r1''"
proof -
  have "case readResource demo6 ''r1'' of None \<Rightarrow> False | Some s \<Rightarrow> rs_state s = Active" by code_simp
  then obtain s where s: "readResource demo6 ''r1'' = Some s" "rs_state s = Active"
    by (auto split: option.splits)
  from resource_has_its_request [OF inj_plain_scope_key demo_reach6 s(1)] s
  show ?thesis by simp
qed

section \<open>Receipts and tickets are final\<close>

text \<open>
  C13: As long as a receipt is retained, no transaction of any process changes its fingerprint,
  parameters or session id once set, and a terminal receipt keeps its outcome: state, error,
  code, retry hint, device, session and owner.
\<close>

theorem receipt_final:
  assumes "inj key_of" and "system_inv key_of db" and "(receipt_step key_of k)\<^sup>*\<^sup>* db db'"
    and "readRequest db k = Some q" and "readRequest db' k = Some q'"
  shows "rq_fingerprint q' = rq_fingerprint q \<and> rq_parameters q' = rq_parameters q \<and>
     (rq_session q \<noteq> None \<longrightarrow> rq_session q' = rq_session q) \<and>
     (isTerminalState (rq_state q) \<longrightarrow> rq_state q' = rq_state q \<and> rq_error q' = rq_error q \<and>
        rq_code q' = rq_code q \<and> rq_retryable q' = rq_retryable q \<and> rq_resource q' = rq_resource q \<and>
        rq_session q' = rq_session q \<and> rq_owner q' = rq_owner q)"
  using receipt_runs.mono_steps [OF assms(3)] assms
  by (simp add: receipt_le_def request_advances_def)

theorem receipt_final_witness:
  "\<exists>q q'. readRequest demo9 ''q1'' = Some q \<and> rq_state q = Released \<and>
     readRequest demo12 ''q1'' = Some q' \<and> rq_state q' = Released \<and> rq_session q' = rq_session q"
proof -
  have "readRequest demo10 ''q1'' \<noteq> None" "readRequest demo11 ''q1'' \<noteq> None" "readRequest demo12 ''q1'' \<noteq> None"
    by code_simp+
  then have "receipt_step plain_scope_key ''q1'' demo9 demo10" "receipt_step plain_scope_key ''q1'' demo10 demo11"
    "receipt_step plain_scope_key ''q1'' demo11 demo12"
    using demo_step10 demo_step11 demo_step12 by (simp_all add: receipt_step_def)
  then have run: "(receipt_step plain_scope_key ''q1'')\<^sup>*\<^sup>* demo9 demo12" by (meson converse_rtranclp_into_rtranclp rtranclp.rtrancl_refl)
  have "case readRequest demo9 ''q1'' of None \<Rightarrow> False | Some q \<Rightarrow> rq_state q = Released" by code_simp
  then obtain q where q: "readRequest demo9 ''q1'' = Some q" "rq_state q = Released"
    by (auto split: option.splits)
  obtain q' where q': "readRequest demo12 ''q1'' = Some q'"
    using \<open>readRequest demo12 ''q1'' \<noteq> None\<close> by blast
  from receipt_final [OF inj_plain_scope_key reached_inv [OF demo_reach9] run q(1) q'] q q'
  show ?thesis by simp
qed

text \<open>
  C10: A destruction ticket is fenced by the revision it was issued at: if destroying under it
  is confirmed later, the resource was already being destroyed when the ticket was read, and
  nobody reserved or returned it in between.
\<close>

theorem ticket_fence:
  assumes "inj key_of" and "system_inv key_of db" and "(resource_step key_of r)\<^sup>*\<^sup>* db db'"
    and "readResource db r = Some s" and "confirmDestroyed now (r, rs_revision s) db' = Inr (True, db'')"
  shows "(rs_state s = Destroying \<or> rs_state s = Destroyed) \<and>
     (\<exists>s'. readResource db' r = Some s' \<and> rs_revision s' = rs_revision s \<and>
        (rs_state s' = Destroying \<or> rs_state s' = Destroyed))"
proof -
  have run: "system_inv key_of db' \<and> resource_le r db db'"
    using resource_runs.mono_steps [OF assms(3)] assms(1,2,4) by simp
  then obtain s' where s': "readResource db' r = Some s'" "resource_advances s s'"
    using assms(4) by (auto simp: resource_le_def split: option.splits)
  have inv: "broker_inv db'" using run by (simp add: system_inv_def)
  from inv assms(5) have "rs_revision s' = rs_revision s \<and> (rs_state s' = Destroying \<or> rs_state s' = Destroyed)"
    by (cases rule: confirmDestroyed_cases) (use s' in auto)
  then show ?thesis using s' by (auto simp: resource_advances_def)
qed

theorem ticket_fence_witness:
  "\<exists>s b. readResource demo10 ''r1'' = Some s \<and>
     confirmDestroyed 110 (''r1'', rs_revision s) demo11 = Inr (True, b) \<and> rs_state s = Destroying"
proof -
  have "readResource demo11 ''r1'' \<noteq> None" by code_simp
  then have run: "(resource_step plain_scope_key ''r1'')\<^sup>*\<^sup>* demo10 demo11"
    using demo_step11 by (auto simp: resource_step_def)
  have "case readResource demo10 ''r1'' of None \<Rightarrow> False
     | Some s \<Rightarrow> rs_revision s = 5 \<and> rs_state s \<noteq> Destroyed" by code_simp
  then obtain s where s: "readResource demo10 ''r1'' = Some s" "rs_revision s = 5" "rs_state s \<noteq> Destroyed"
    by (auto split: option.splits)
  have "case confirmDestroyed 110 (''r1'', 5) demo11 of Inr (True, _) \<Rightarrow> True | _ \<Rightarrow> False" by code_simp
  then obtain b where b: "confirmDestroyed 110 (''r1'', rs_revision s) demo11 = Inr (True, b)"
    using s(2) by (auto split: sum.splits bool.splits)
  from ticket_fence [OF inj_plain_scope_key reached_inv [OF demo_reach10] run s(1) b] s b
  show ?thesis by blast
qed

section \<open>Destruction\<close>

text \<open>
  C9: Destruction is confirmed only for a resource being destroyed at the ticket's revision
  whose binding holds no device, no execution owner, no settling or cleanup state and no open
  journal entry; afterwards the row is a tombstone or gone, and a releasing request is released.
\<close>

theorem confirmDestroyed_safe:
  assumes "broker_inv db" and "confirmDestroyed now t db = Inr (True, db')"
    and "readResource db (fst t) = Some s" and "rs_state s \<noteq> Destroyed"
  shows "rs_state s = Destroying \<and> rs_revision s = snd t \<and> openJournal db s = None \<and>
     (\<forall>a. readAssignment db (binding_of s) = Some a \<longrightarrow> \<not> truthy (as_device a) \<and> \<not> truthy (as_exec_session a) \<and>
        as_state a \<noteq> Settling \<and> as_state a \<noteq> CleanupPending) \<and>
     (readResource db' (fst t) = None \<or> (\<exists>s'. readResource db' (fst t) = Some s' \<and> rs_state s' = Destroyed)) \<and>
     (\<forall>k q. rs_request s = Some k \<and> readRequest db k = Some q \<longrightarrow>
        (\<exists>q'. readRequest db' k = Some q' \<and>
           rq_state q' = (if rq_state q = Releasing then Released else rq_state q)))"
proof -
  have id: "rs_id s = fst t" using broker_inv_resource [OF assms(1,3)] by simp
  have gone: "readResource (put_resource (rs_id s) (rs_state_update (\<lambda>_. Destroyed)) db) (fst t) =
      Some (s\<lparr>rs_state := Destroyed\<rparr>)"
    using read_put_resource [where g = "rs_state_update (\<lambda>_. Destroyed)", OF assms(1,3)] id by simp
  have inv': "broker_inv db' \<and> forward db db'" by (rule confirmDestroyed_forward [OF assms(1,2)])
  from assms(1,2) show ?thesis
  proof (cases rule: confirmDestroyed_cases)
    case (settled s1 q k)
    have s1: "s1 = s" using settled(1) assms(3) by simp
    have td: "readResource (timingDestroyed now x d) y = readResource d y" for x d y
      by (simp add: timingDestroyed_def split: option.splits)
    have rd: "readResource db' (fst t) = Some (s\<lparr>rs_state := Destroyed\<rparr>)"
      using gone settled(10) s1 by (simp add: td)
    have tq: "\<exists>q'. readRequest (timingDestroyed now x d) k = Some q' \<and> rq_state q' = rq_state q0"
      if "readRequest d k = Some q0" for x d q0
      using that
      by (auto simp: timingDestroyed_def destroyed_columns_def request_table.get_put split: option.splits
          dest: request_table.get_key)
    have q0: "readRequest (put_request k (confirmed now)
        (put_resource (rs_id s) (rs_state_update (\<lambda>_. Destroyed)) db)) k = Some (confirmed now q)"
      using settled(7) by (simp add: request_table.get_put confirmed_def)
    have "rq_state (confirmed now q) = (if rq_state q = Releasing then Released else rq_state q)"
      by (simp add: confirmed_def)
    then have "\<exists>q'. readRequest db' k = Some q' \<and>
        rq_state q' = (if rq_state q = Releasing then Released else rq_state q)"
      using tq [OF q0] settled(10) s1 by fastforce
    then show ?thesis
      using settled s1 rd by (auto simp: physicalWorkPending_def split: option.splits)
  next
    case (dropped s1)
    have s1: "s1 = s" using dropped(1) assms(3) by simp
    have inv1: "broker_inv (put_resource (rs_id s) (rs_state_update (\<lambda>_. Destroyed)) db)"
      using pool_step [of db "rs_id s" s "rs_state_update (\<lambda>_. Destroyed)"] assms(1,3) id dropped(3,6) s1
        broker_inv_resource [OF assms(1,3)]
      by (auto simp: step_ok_def resource_ok_def resource_advances_def)
    show ?thesis
      using dropped s1 gone delete_reads [OF inv1]
      by (auto simp: physicalWorkPending_def split: option.splits)
  qed (use assms(3,4) in auto)
qed

theorem confirmDestroyed_safe_witness:
  "\<exists>s. readResource demo11 ''r1'' = Some s \<and> rs_state s = Destroying \<and> openJournal demo11 s = None \<and>
     confirmDestroyed 110 (''r1'', 5) demo11 = Inr (True, demo12)"
proof -
  have "case readResource demo11 ''r1'' of None \<Rightarrow> False | Some s \<Rightarrow> rs_state s \<noteq> Destroyed" by code_simp
  then obtain s where s: "readResource demo11 (fst (''r1'', 5 :: int)) = Some s" "rs_state s \<noteq> Destroyed"
    by (auto split: option.splits)
  have "case confirmDestroyed 110 (''r1'', 5) demo11 of Inr (True, _) \<Rightarrow> True | _ \<Rightarrow> False" by code_simp
  then have run: "confirmDestroyed 110 (''r1'', 5) demo11 = Inr (True, demo12)"
    unfolding demo12_def db_of_def by (auto split: sum.splits bool.splits)
  from confirmDestroyed_safe [OF reached_broker [OF demo_reach11] run s] s run
  show ?thesis by simp
qed

section \<open>Clean release\<close>

definition retired_or_same :: "ticket list \<Rightarrow> broker_db \<Rightarrow> broker_db \<Rightarrow> string \<Rightarrow> bool" where
  "retired_or_same ts db db' x \<longleftrightarrow> readResource db' x = readResource db x \<or>
     (\<exists>s s'. readResource db x = Some s \<and> rs_state s = Idle \<and> readResource db' x = Some s' \<and>
        rs_state s' = Destroying \<and> rs_revision s' = rs_revision s + 1 \<and> (x, rs_revision s') \<in> set ts)"

lemma trimIdle_effect:
  assumes inv: "broker_inv db" and run: "trimIdle lc limits (Some r) (Some k) db = Inr (ts, db')"
    and q: "readRequest db k = Some q" "rq_state q = Released" "rq_resource q = Some r"
  shows "requests db' = requests db \<and> retired_or_same ts db db' x"
proof -
  let ?f = "returning_columns (Some r) (Some k)"
  obtain chosen where ch: "retireAll ?f chosen db = Inr (ts, db')" "distinct (map rs_id chosen)"
    "\<And>r. r \<in> set chosen \<Longrightarrow> readResource db (rs_id r) = Some r \<and> rs_state r = Idle"
    using trimIdle_rows [OF inv run] by metis
  have ret: "retires db x (?f x x)" for x using q by (auto simp: retires_def returning_columns_def)
  have st: "rs_state (?f s s) = Destroying" "rs_id (?f s x) = rs_id x" for s x
    by (simp_all add: returning_columns_def)
  from retireAll_total [OF inv ch(2), of ?f] ch(3) ret st(2) obtain db2 where db2:
    "retireAll ?f chosen db = Inr (map (\<lambda>r. (rs_id r, rs_revision r + 1)) chosen, db2)"
    "requests db2 = requests db"
    "\<forall>x. x \<notin> rs_id ` set chosen \<longrightarrow> readResource db2 x = readResource db x"
    "\<forall>s\<in>set chosen. readResource db2 (rs_id s) = Some ((?f s s)\<lparr>rs_revision := rs_revision s + 1\<rparr>)"
    by auto
  have e: "db2 = db'" "ts = map (\<lambda>r. (rs_id r, rs_revision r + 1)) chosen" using ch(1) db2(1) by auto
  have "retired_or_same ts db db' x"
  proof (cases "x \<in> rs_id ` set chosen")
    case True
    then obtain s where s: "s \<in> set chosen" "x = rs_id s" by blast
    then show ?thesis using ch(3) [OF s(1)] db2(4) st e by (auto simp: retired_or_same_def)
  qed (use db2(3) e in \<open>simp add: retired_or_same_def\<close>)
  then show ?thesis using db2(2) e by simp
qed

text \<open>
  C11: A release that commits had a releasing request, owned by the caller, on a resetting
  resource whose binding is ready, bound, unowned and without open journal work; the request
  becomes released and the resource becomes the newest idle one, or is retired at once with a
  ticket for its new revision.
\<close>

theorem clean_release_only_clean:
  assumes "broker_inv db" and "completeCleanRelease lc now k owner limits db = Inr (ts, db')"
    and "readRequest db k = Some q" and "rq_state q \<noteq> Released"
  shows "\<exists>s s'. rq_state q = Releasing \<and> sameProcess (rq_owner q) owner \<and> rq_resource q = Some (rs_id s) \<and>
     readResource db (rs_id s) = Some s \<and> rs_state s = Resetting \<and> cleanBinding db s \<and>
     (\<exists>q'. readRequest db' k = Some q' \<and> rq_state q' = Released \<and> rq_terminal q' = Some now) \<and>
     readResource db' (rs_id s) = Some s' \<and>
     (rs_state s' = Idle \<and> rs_request s' = None \<and> rs_idle_order s' = nextIdleOrder db \<or>
      rs_state s' = Destroying \<and> (rs_id s, rs_revision s') \<in> set ts)"
  using assms(1,2)
proof (cases rule: completeCleanRelease_cases)
  case (again q1)
  then show ?thesis using assms(3,4) by simp
next
  case (returned q1 s db2)
  have q1: "q1 = q" using returned(1) assms(3) by simp
  let ?s = "(s\<lparr>rs_state := Idle, rs_request := None, rs_idle_order := nextIdleOrder db\<rparr>)
      \<lparr>rs_revision := rs_revision s + 1\<rparr>"
  let ?q = "request_columns now (Some Released) (\<lambda>x. x) q"
  have kq: "rq_id q = k" using broker_inv_request [OF assms(1,3)] by simp
  have q2: "readRequest db2 k = Some ?q"
    unfolding returned(10)
    using read_put_request [where f = "request_columns now (Some Released) (\<lambda>x. x)", OF assms(1,3), of k] kq
    by (simp add: readRequest_def put_request_def)
  have s2: "readResource db2 (rs_id s) = Some ?s"
    unfolding returned(10) using returned(5) by (simp add: resource_table.get_put)
  have inv2: "broker_inv db2" using returned(9) by (simp add: step_ok_def)
  have fin: "requests db' = requests db2" "retired_or_same ts db2 db' (rs_id s)"
    using trimIdle_effect [OF inv2 returned(11) q2] returned(4) q1 by simp_all
  have "readRequest db' k = Some ?q" using fin(1) q2 by (simp add: readRequest_def)
  moreover have "\<exists>s'. readResource db' (rs_id s) = Some s' \<and>
     (rs_state s' = Idle \<and> rs_request s' = None \<and> rs_idle_order s' = nextIdleOrder db \<or>
      rs_state s' = Destroying \<and> (rs_id s, rs_revision s') \<in> set ts)"
    using fin(2) s2 by (auto simp: retired_or_same_def)
  ultimately show ?thesis using returned q1 by auto
qed

theorem clean_release_only_clean_witness:
  "\<exists>s s' ts. completeCleanRelease plain_compare 108 ''q1'' demo_process demo_limits demo8 = Inr (ts, demo9) \<and>
     readResource demo8 ''r1'' = Some s \<and> cleanBinding demo8 s \<and> readResource demo9 ''r1'' = Some s' \<and>
     (rs_state s' = Idle \<or> rs_state s' = Destroying)"
proof -
  have "case readRequest demo8 ''q1'' of None \<Rightarrow> False
     | Some q \<Rightarrow> rq_state q = Releasing \<and> rq_resource q = Some ''r1''" by code_simp
  then obtain q where q: "readRequest demo8 ''q1'' = Some q" "rq_state q \<noteq> Released" "rq_resource q = Some ''r1''"
    by (auto split: option.splits)
  obtain ts where run: "completeCleanRelease plain_compare 108 ''q1'' demo_process demo_limits demo8 = Inr (ts, demo9)"
    using ok_run [OF demo_ok9] unfolding demo9_def by blast
  from clean_release_only_clean [OF reached_broker [OF demo_reach8] run q(1,2)] q(3) run
  show ?thesis by (metis option.inject)
qed
end
