(* ===== verification/AdmissionTheorems.thy ===== *)
theory AdmissionTheorems
  imports BrokerTheorems
begin

text \<open>
  What admission promises: the policy decides every valid snapshot and justifies its decision, the
  idle pool is trimmed to its caps oldest first, a retried admission is answered from the receipt,
  and the store carries the policy's decision out on the rows it was taken from.
\<close>

section \<open>Admission\<close>

lemma comparator_plain: "comparator plain_compare"
  unfolding plain_compare_def by (rule key.comparator_axioms)

definition demo_snapshot :: broker_snapshot where
  "demo_snapshot = \<lparr>activeOrAcquiringSessions = 1,
     sn_resources = [\<lparr>rv_id = ''a'', rv_state = Idle, rv_idleOrder = 3, rv_compatible = True, rv_expectedReadyMs = None\<rparr>,
       \<lparr>rv_id = ''b'', rv_state = Idle, rv_idleOrder = 5, rv_compatible = False, rv_expectedReadyMs = None\<rparr>,
       \<lparr>rv_id = ''c'', rv_state = Active, rv_idleOrder = 0, rv_compatible = False, rv_expectedReadyMs = None\<rparr>],
     resetWaitThresholdMs = None\<rparr>"



text \<open>
  Return-time trimming evicts distinct idle devices, leaves at most idlePoolCap idle and at
  most totalDeviceCap in total unless no idle device is left, and evicts oldest first.
\<close>

theorem chooseIdleEvictions_enforces:
  assumes "comparator lc" and "chooseIdleEvictions lc s l = Inr ids"
  shows "distinct ids \<and> (\<forall>i\<in>set ids. \<exists>r\<in>set (sn_resources s). rv_id r = i \<and> rv_state r = Idle) \<and>
     (\<forall>c. idlePoolCap l = Some c \<longrightarrow>
        int (length (filter (\<lambda>r. rv_state r = Idle) (kept ids (sn_resources s)))) \<le> c) \<and>
     (\<forall>c. totalDeviceCap l = Some c \<longrightarrow> int (length (kept ids (sn_resources s))) \<le> c \<or>
        filter (\<lambda>r. rv_state r = Idle) (kept ids (sn_resources s)) = []) \<and>
     (\<forall>r\<in>set (sn_resources s). \<forall>r'\<in>set (sn_resources s). rv_id r \<in> set ids \<and> rv_state r' = Idle \<and>
        rv_id r' \<notin> set ids \<longrightarrow> rv_idleOrder r \<le> rv_idleOrder r')"
proof -
  have "\<forall>i\<in>set ids. \<exists>r\<in>set (sn_resources s). rv_id r = i \<and> rv_state r = Idle"
    using evictions_bounds(2) [OF assms(2)] by auto
  then show ?thesis
    using evictions_bounds(1) [OF assms(2)] evictions_enforce_limits [OF assms(2)]
      evictions_oldest_first [OF assms] by blast
qed

theorem chooseIdleEvictions_enforces_witness:
  "chooseIdleEvictions plain_compare demo_snapshot demo_limits = Inr [''a''] \<and>
     length (filter (\<lambda>r. rv_state r = Idle) (kept [''a''] (sn_resources demo_snapshot))) \<le> 1"
proof -
  have run: "chooseIdleEvictions plain_compare demo_snapshot demo_limits = Inr [''a'']" by code_simp
  have "idlePoolCap demo_limits = Some 1" by (simp add: demo_limits_def)
  then show ?thesis using chooseIdleEvictions_enforces [OF comparator_plain run] run by force
qed

lemma exports_updateResource: "updateResource r f db = Inr (r1, db1) \<Longrightarrow> exports db1 = exports db"
  by (auto simp: updateResource_def Let_def)

lemma exports_updateRequest: "updateRequest now k st f db = Inr (q, db1) \<Longrightarrow> exports db1 = exports db"
  by (auto simp: updateRequest_def Let_def)

lemma exports_finish_reserve: "finish_reserve now inp q kind c r db = Inr (q1, db1) \<Longrightarrow> exports db1 = exports db"
  by (auto simp: finish_reserve_def dest: exports_updateRequest)

text \<open>The five outcomes of a reservation.\<close>

lemma reserve_cases:
  assumes "reserve lc now newId scope q inp db = Inr (a, db')"
  obtains (reuse) i r r1 db1 q1 where "reserveDecision lc (rq_id q) inp db = Inr (DReuse i)"
      "List.find (\<lambda>r. rs_id r = i) (readResources db True) = Some r"
      "updateResource r (\<lambda>x. x\<lparr>rs_state := Reserved, rs_request := Some (rq_id q),
         rs_reuse := rs_reuse r + 1\<rparr>) db = Inr (r1, db1)"
      "finish_reserve now inp q KReuse JNull r1 db1 = Inr (q1, db')" "a = BReuse q1 r1"
    | (evict) c i r r1 db1 q1 where "reserveDecision lc (rq_id q) inp db = Inr (DEvict i)"
      "List.find (\<lambda>r. rs_id r = i) (readResources db True) = Some r"
      "updateResource r (\<lambda>x. x\<lparr>rs_state := Destroying, rs_request := Some (rq_id q),
         rs_reuse := rs_reuse r\<rparr>) db = Inr (r1, db1)"
      "finish_reserve now inp q KEvict c r1 db1 = Inr (q1, db')" "a = BEvict q1 r1"
    | (create) c r1 db1 q1 where "reserveDecision lc (rq_id q) inp db = Inr DCreate"
      "ai_resolveCreation inp = Inr c" "insertResource newId scope c (rq_id q) db = Inr (r1, db1)"
      "finish_reserve now inp q KCreate c r1 db1 = Inr (q1, db')" "a = BCreate q1 r1"
    | (wait) i w c q1 where "reserveDecision lc (rq_id q) inp db = Inr (DWait i w)"
      "updateRequest now (rq_id q) None (timing_set c) db = Inr (q1, db')" "a = BWait q1 i w"
    | (refuse) x e q1 where "reserveDecision lc (rq_id q) inp db = Inr (DRefuse x)"
      "updateRequest now (rq_id q) (Some Failed)
         (failure_set (Some e) (Some ''capacity_exhausted'') (Some True)) db = Inr (q1, db')"
      "a = BRefused q1 x"
proof -
  obtain d where d: "reserveDecision lc (rq_id q) inp db = Inr d"
    using assms by (auto simp: reserve_def)
  show thesis
  proof (cases d)
    case (DReuse i) then show ?thesis using assms d reuse by (auto simp: reserve_def)
  next
    case (DEvict i) then show ?thesis using assms d evict by (auto simp: reserve_def)
  next
    case DCreate then show ?thesis using assms d create by (auto simp: reserve_def)
  next
    case (DWait i w) then show ?thesis using assms d wait by (auto simp: reserve_def)
  next
    case (DRefuse x) then show ?thesis using assms d refuse by (auto simp: reserve_def)
  qed
qed

lemma reserve_exports:
  assumes "reserve lc now newId scope q inp db = Inr (a, db')"
  shows "exports db' = exports db"
  using assms
proof (cases rule: reserve_cases)
  case (create c r1 db1 q1)
  then have "exports db1 = exports db" by (auto simp: insertResource_def Let_def split: if_splits)
  with create show ?thesis by (auto dest: exports_finish_reserve)
qed (auto dest!: exports_finish_reserve exports_updateRequest exports_updateResource)

lemma linkExport_idem:
  assumes "linkExport k e now db = Inr db1" and "exports db2 = exports db1"
    and "distinct (map ex_prepare (exports db))" and "distinct (map ex_request (exports db))"
  shows "linkExport k e now2 db2 = Inr db2"
proof (cases e)
  case None
  then show ?thesis by (simp add: linkExport_def)
next
  case (Some i)
  obtain p d where i: "i = (p, d)" by (cases i)
  let ?P = "\<lambda>e. ex_request e = k \<or> ex_prepare e = p"
  show ?thesis
  proof (cases "filter ?P (exports db)")
    case Nil
    then have ex: "exports db1 = exports db @ [\<lparr>ex_prepare = p, ex_request = k, ex_digest = d,
        ex_created = now, ex_acknowledged = None\<rparr>]"
      using assms(1) Some i by (auto simp: linkExport_def)
    then have "filter ?P (exports db2) = [\<lparr>ex_prepare = p, ex_request = k, ex_digest = d,
        ex_created = now, ex_acknowledged = None\<rparr>]" using assms(2) Nil by simp
    then show ?thesis using Some i by (simp add: linkExport_def)
  next
    case (Cons x xs)
    then have "xs = []" "db1 = db" "ex_request x = k \<and> ex_prepare x = p \<and> ex_digest x = d"
      using assms(1) Some i by (auto simp: linkExport_def split: list.splits if_splits)
    then show ?thesis using Some i assms(2) Cons by (simp add: linkExport_def)
  qed
qed

lemma admit_row:
  assumes inv: "broker_inv db" and newId: "newId \<noteq> []"
    and run: "admit lc now newId scope inp db = Inr (a, db')"
  shows "\<exists>q. readRequest db' (ai_requestId inp) = Some q \<and> rq_fingerprint q = ai_fingerprint inp"
proof (cases "readRequest db (ai_requestId inp)")
  case (Some q)
  then have "readRequest db' (ai_requestId inp) = Some q \<and> rq_fingerprint q = ai_fingerprint inp"
    using run linkExport_keeps by (fastforce simp: admit_def readRequest_def split: if_splits)
  then show ?thesis by blast
next
  case None
  let ?q = "fresh_request (ai_requestId inp) (ai_fingerprint inp) (ai_parameters inp) (ai_owner inp) Acquiring"
  have id: "rq_id ?q = ai_requestId inp" by (simp add: fresh_request_def)
  obtain db1 where link: "linkExport (ai_requestId inp) (ai_export inp) now (insertRequest ?q db) = Inr db1"
    and res: "reserve lc now newId scope ?q inp db1 = Inr (a, db')" and nb: "\<not> blank (ai_requestId inp)"
    using run None by (auto simp: admit_def assertIdentity_def Let_def)
  have "new_receipt ?q" using nb by (auto simp: new_receipt_def fresh_request_def blank_def)
  from insertRequest_step [OF inv this] None id have s1: "step_ok db (insertRequest ?q db)" by simp
  have s2: "step_ok (insertRequest ?q db) db1"
    using s1 None id readRequest_insert [of db ?q]
    by (intro linkExport_step [OF _ _ link]) (simp_all add: step_ok_def)
  have q1: "readRequest db1 (rq_id ?q) = Some ?q"
    using linkExport_keeps [OF link] readRequest_insert [of db ?q] None id by (simp add: readRequest_def)
  then have "step_ok db1 db'"
    using s2 newId
    by (intro reserve_step [OF _ _ _ _ _ res]) (simp_all add: step_ok_def unattached_def fresh_request_def)
  then obtain q where "readRequest db' (rq_id ?q) = Some q" "request_advances ?q q"
    using q1 unfolding step_ok_def survives_def by blast
  then show ?thesis by (simp add: request_advances_def fresh_request_def)
qed

lemma admit_again:
  assumes inv: "broker_inv db" and newId: "newId \<noteq> []"
    and run: "admit lc now newId scope inp db = Inr (a, db')"
  shows "\<exists>q. readRequest db' (ai_requestId inp) = Some q \<and>
     admit lc2 now2 newId2 scope2 inp db' = Inr (BExisting q, db')"
proof -
  obtain q where q: "readRequest db' (ai_requestId inp) = Some q" "rq_fingerprint q = ai_fingerprint inp"
    using admit_row [OF assms] by blast
  have ok: "assertIdentity inp = Inr ()" using run by (auto simp: admit_def)
  have ex: "exports_inv (rq_id ` set (requests db)) (exports db)" using inv by (simp add: broker_inv_def)
  have "linkExport (ai_requestId inp) (ai_export inp) now2 db' = Inr db'"
  proof (cases "readRequest db (ai_requestId inp)")
    case (Some p)
    then have "linkExport (ai_requestId inp) (ai_export inp) now db = Inr db'"
      using run by (auto simp: admit_def split: if_splits)
    then show ?thesis using ex by (intro linkExport_idem) (auto simp: exports_inv_def)
  next
    case None
    then obtain r db1 where "linkExport (ai_requestId inp) (ai_export inp) now (insertRequest r db) = Inr db1"
      "reserve lc now newId scope r inp db1 = Inr (a, db')"
      using run by (auto simp: admit_def Let_def)
    then show ?thesis
      using ex reserve_exports
      by (intro linkExport_idem [of _ _ now "insertRequest r db" db1]) (auto simp: exports_inv_def insertRequest_def)
  qed
  then show ?thesis using q ok by (simp add: admit_def)
qed

text \<open>
  C14: A retried admission with the same identity answers the stored receipt and changes
  nothing, whatever the clock, id source or locale; the same request id with another fingerprint
  is rejected.
\<close>

theorem admit_replayable:
  assumes "broker_inv db" and "newId \<noteq> []" and "admit lc now newId scope inp db = Inr (a, db')"
  shows "\<exists>q. readRequest db' (ai_requestId inp) = Some q \<and>
     (\<forall>lc2 now2 newId2 scope2. admit lc2 now2 newId2 scope2 inp db' = Inr (BExisting q, db')) \<and>
     (\<forall>lc2 now2 newId2 scope2 other. ai_requestId other = ai_requestId inp \<and>
        ai_fingerprint other \<noteq> ai_fingerprint inp \<and> \<not> blank (ai_fingerprint other) \<longrightarrow>
        admit lc2 now2 newId2 scope2 other db' =
          Inl (ActionableError ''Session request identity was already used with different parameters''))"
proof -
  obtain q where q: "readRequest db' (ai_requestId inp) = Some q" "rq_fingerprint q = ai_fingerprint inp"
    using admit_row [OF assms] by blast
  have nb: "\<not> blank (ai_requestId inp)" using assms(3) by (auto simp: admit_def assertIdentity_def)
  have "admit lc2 now2 newId2 scope2 inp db' = Inr (BExisting q, db')" for lc2 now2 newId2 scope2
    using admit_again [OF assms, of lc2 now2 newId2 scope2] q(1) by auto
  moreover have "admit lc2 now2 newId2 scope2 other db' =
      Inl (ActionableError ''Session request identity was already used with different parameters'')"
    if "ai_requestId other = ai_requestId inp \<and> ai_fingerprint other \<noteq> ai_fingerprint inp \<and>
      \<not> blank (ai_fingerprint other)" for lc2 now2 newId2 scope2 other
    using that q nb by (auto simp: admit_def assertIdentity_def)
  ultimately show ?thesis using q(1) by blast
qed

theorem admit_replayable_witness:
  "\<exists>a q. admit plain_compare 101 ''r1'' demo_scope (demo_input ''q1'') demo1 = Inr (a, demo2) \<and>
     admit plain_compare 150 ''r9'' demo_scope (demo_input ''q1'') demo2 = Inr (BExisting q, demo2)"
proof -
  obtain a where run: "admit plain_compare 101 ''r1'' demo_scope (demo_input ''q1'') demo1 = Inr (a, demo2)"
    using ok_run [OF demo_ok2] unfolding demo2_def by blast
  from admit_replayable [OF reached_broker [OF demo_reach1] _ run] run show ?thesis by blast
qed

lemma view_compatible:
  assumes "rmap (compatibleView inp) rs = Inr vs" and "v \<in> set vs"
  shows "\<exists>r\<in>set rs. view_of r v \<and> (rv_state v = Idle \<and> rv_compatible v \<longrightarrow> ai_matches inp (rs_profile r) = Inr True)"
  using assms
proof (induction rs arbitrary: vs)
  case (Cons r rs)
  then obtain w ws where w: "compatibleView inp r = Inr w" "rmap (compatibleView inp) rs = Inr ws" "vs = w # ws"
    by auto
  have "view_of r w \<and> (rv_state w = Idle \<and> rv_compatible w \<longrightarrow> ai_matches inp (rs_profile r) = Inr True)"
    using w(1) by (auto simp: compatibleView_def view_of_def occupiedView_def split: if_splits)
  with Cons.IH [OF w(2)] Cons.prems(2) w(3) show ?case by auto
qed simp

lemma rmap_length: "rmap f xs = Inr ys \<Longrightarrow> length ys = length xs"
  by (induction xs arbitrary: ys) auto

lemma decision_sound:
  assumes "comparator lc" and "reserveDecision lc k inp db = Inr d"
  shows "\<exists>vs. rmap (compatibleView inp) (readResources db True) = Inr vs \<and>
    decision_ok \<lparr>activeOrAcquiringSessions = countSessionAdmissions db k, sn_resources = vs,
       resetWaitThresholdMs = map_option ri_thresholdMs (ai_readiness inp)\<rparr> (ai_limits inp) d"
  using assms(2) selectAdmission_decision_ok [OF assms(1)] by (auto simp: reserveDecision_def)

text \<open>What a fresh admission does before it reserves: the receipt is inserted and its export linked.\<close>

lemma admit_fresh:
  assumes inv: "broker_inv db" and new: "readRequest db (ai_requestId inp) = None"
    and run: "admit lc now newId scope inp db = Inr (a, db')"
  obtains q db1 where "rq_id q = ai_requestId inp" "rq_state q = Acquiring" "rq_resource q = None"
    "readRequest db1 (rq_id q) = Some q" "broker_inv db1" "resources db1 = resources db"
    "resource_seq db1 = resource_seq db"
    "countSessionAdmissions db1 (ai_requestId inp) = countSessionAdmissions db (ai_requestId inp)"
    "reserve lc now newId scope q inp db1 = Inr (a, db')"
proof -
  let ?q = "fresh_request (ai_requestId inp) (ai_fingerprint inp) (ai_parameters inp) (ai_owner inp) Acquiring"
  have id: "rq_id ?q = ai_requestId inp" by (simp add: fresh_request_def)
  obtain db1 where link: "linkExport (ai_requestId inp) (ai_export inp) now (insertRequest ?q db) = Inr db1"
    and res: "reserve lc now newId scope ?q inp db1 = Inr (a, db')" and nb: "\<not> blank (ai_requestId inp)"
    using run new by (auto simp: admit_def assertIdentity_def Let_def)
  have "new_receipt ?q" using nb by (auto simp: new_receipt_def fresh_request_def blank_def)
  from insertRequest_step [OF inv this] new id have s1: "step_ok db (insertRequest ?q db)" by simp
  have s2: "step_ok (insertRequest ?q db) db1"
    using s1 new id readRequest_insert [of db ?q]
    by (intro linkExport_step [OF _ _ link]) (simp_all add: step_ok_def)
  have keep: "requests db1 = requests db @ [?q]" "resources db1 = resources db"
    using linkExport_keeps [OF link] by (simp_all add: insertRequest_def)
  have "resource_seq db1 = resource_seq db"
    using link by (auto simp: linkExport_def insertRequest_def split: option.splits list.splits if_splits)
  moreover have "readRequest db1 (rq_id ?q) = Some ?q"
    using linkExport_keeps [OF link] readRequest_insert [of db ?q] new id by (simp add: readRequest_def)
  moreover have "countSessionAdmissions db1 (ai_requestId inp) = countSessionAdmissions db (ai_requestId inp)"
    using keep id by (simp add: countSessionAdmissions_def)
  ultimately show thesis
    using that [of ?q db1] s2 keep(2) res id by (simp add: step_ok_def fresh_request_def)
qed

definition session_room :: "broker_db \<Rightarrow> admission_input \<Rightarrow> bool" where
  "session_room db inp \<longleftrightarrow> (\<forall>c. sessionCap (ai_limits inp) = Some c \<longrightarrow>
     countSessionAdmissions db (ai_requestId inp) < c)"

lemma reserve_reuse:
  assumes lc: "comparator lc" and inv: "broker_inv db"
    and q: "readRequest db (rq_id q) = Some q" "rq_state q = Acquiring" "rq_resource q = None"
    and run: "reserve lc now newId scope q inp db = Inr (BReuse q1 s, db')"
  shows "\<exists>s0. readResource db (rs_id s) = Some s0 \<and> rs_state s0 = Idle \<and>
     ai_matches inp (rs_profile s0) = Inr True \<and>
     s = s0\<lparr>rs_state := Reserved, rs_request := Some (rq_id q), rs_reuse := rs_reuse s0 + 1,
            rs_revision := rs_revision s0 + 1\<rparr> \<and>
     readResource db' (rs_id s) = Some s \<and> readRequest db' (rq_id q) = Some q1 \<and>
     rq_resource q1 = Some (rs_id s) \<and> rq_state q1 = Acquiring"
  using run
proof (cases rule: reserve_cases)
  case (reuse i r r1 db1 q2)
  note c = chosen_row_idle [OF inv reuse(1) _ reuse(2)]
  then have r: "readResource db (rs_id r) = Some r" "rs_state r = Idle" "rs_id r = i" by auto
  have n: "0 \<le> rs_reuse r + 1" using idle_row [OF inv r(1,2)] by simp
  have un: "unattached db q" using q(3) by (simp add: unattached_def)
  note t = take_idle [OF inv q(1,2) un r(1,2) _ n reuse(3,4)]
  obtain vs where vs: "rmap (compatibleView inp) (readResources db True) = Inr vs"
    "\<exists>v. rv_id v = i \<and> v \<in> set vs \<and> rv_state v = Idle \<and> rv_compatible v"
    using decision_sound [OF lc reuse(1)] by (auto simp: newest_compatible_def)
  then obtain v where v: "v \<in> set vs" "rv_id v = i" "rv_state v = Idle \<and> rv_compatible v" by blast
  from view_compatible [OF vs(1) v(1)] obtain r' where r': "r' \<in> set (readResources db True)"
    "view_of r' v" "ai_matches inp (rs_profile r') = Inr True" using v(3) by blast
  have "r' = r"
    using readResources_row [OF inv r'(1)] r'(2) v(2) r(1,3) by (simp add: view_of_def)
  then have m: "ai_matches inp (rs_profile r) = Inr True" using r'(3) by simp
  have e: "q1 = q2" "s = r1" using reuse(5) by simp_all
  have t1: "r1 = r\<lparr>rs_state := Reserved, rs_request := Some (rq_id q), rs_reuse := rs_reuse r + 1,
      rs_revision := rs_revision r + 1\<rparr>" and t2: "readResource db' (rs_id r) = Some r1"
    and t3: "readRequest db' (rq_id q) = Some q2" "rq_resource q2 = Some (rs_id r)" "rq_state q2 = Acquiring"
    using t by blast+
  have id: "rs_id s = rs_id r" unfolding e t1 by simp
  show ?thesis
    unfolding id using r(1,2) m t1 t2 t3 unfolding e by blast
qed auto

lemma reserve_create:
  assumes lc: "comparator lc" and inv: "broker_inv db"
    and q: "readRequest db (rq_id q) = Some q"
    and run: "reserve lc now newId scope q inp db = Inr (BCreate q1 s, db')"
  shows "readResource db newId = None \<and> s = fresh_resource (resource_seq db + 1) newId scope (rs_profile s) (rq_id q) \<and>
     ai_resolveCreation inp = Inr (rs_profile s) \<and> resources db' = resources db @ [s] \<and>
     (\<forall>c. totalDeviceCap (ai_limits inp) = Some c \<longrightarrow> int (length (readResources db' True)) \<le> c)"
  using run
proof (cases rule: reserve_cases)
  case (create c r1 db1 q2)
  then have r1: "r1 = fresh_resource (resource_seq db + 1) newId scope c (rq_id q)"
    and db1: "db1 = db\<lparr>resources := resources db @ [r1], resource_seq := resource_seq db + 1\<rparr>"
    and fr: "readResource db newId = None"
    by (auto simp: insertResource_def Let_def split: if_splits)
  have "readRequest db1 (rq_id q) = Some q" using q db1 by (simp add: readRequest_def)
  from finish_reserve_eq [OF create(4) this] have rs: "resources db' = resources db @ [r1]"
    using db1 by auto
  have len: "length (readResources db' True) = Suc (length (readResources db True))"
    by (simp add: readResources_def rs r1 fresh_resource_def)
  have "int (length (readResources db True)) < cap" if "totalDeviceCap (ai_limits inp) = Some cap" for cap
  proof -
    obtain vs where vs: "rmap (compatibleView inp) (readResources db True) = Inr vs"
      "decision_ok \<lparr>activeOrAcquiringSessions = countSessionAdmissions db (rq_id q), sn_resources = vs,
         resetWaitThresholdMs = map_option ri_thresholdMs (ai_readiness inp)\<rparr> (ai_limits inp) DCreate"
      using decision_sound [OF lc create(1)] by blast
    then show ?thesis using that rmap_length [OF vs(1)] by (simp add: at_total_cap_def)
  qed
  then have "int (length (readResources db' True)) \<le> cap" if "totalDeviceCap (ai_limits inp) = Some cap" for cap
    using that len by force
  moreover have "s = r1" using create(5) by simp
  moreover have "rs_profile r1 = c" by (simp add: r1 fresh_resource_def)
  ultimately show ?thesis using r1 fr rs create(2) by auto
qed auto

lemma reserve_room:
  assumes "comparator lc" and "reserve lc now newId scope q inp db = Inr (a, db')"
    and "\<forall>q1 x. a \<noteq> BRefused q1 x" and "sessionCap (ai_limits inp) = Some c"
  shows "countSessionAdmissions db (rq_id q) < c"
  using assms(2)
  by (cases rule: reserve_cases)
     (use assms(3,4) in \<open>auto dest!: decision_sound [OF assms(1)] simp: below_session_cap_def\<close>)

text \<open>
  C15: When admission decides to create, the session cap had room, the new resource is a fresh
  reserved row of this request, and the number of live resources afterwards is within the total
  device cap.
\<close>

theorem admission_within_caps:
  assumes "comparator lc" and "broker_inv db" and "readRequest db (ai_requestId inp) = None"
    and "admit lc now newId scope inp db = Inr (BCreate q s, db')"
  shows "session_room db inp \<and> rs_state s = Reserved \<and> rs_request s = Some (ai_requestId inp) \<and>
     readResource db (rs_id s) = None \<and> resources db' = resources db @ [s] \<and>
     (\<forall>c. totalDeviceCap (ai_limits inp) = Some c \<longrightarrow> int (length (readResources db' True)) \<le> c)"
proof -
  obtain p db1 where p: "rq_id p = ai_requestId inp" "readRequest db1 (rq_id p) = Some p" "broker_inv db1"
    "resources db1 = resources db"
    "countSessionAdmissions db1 (ai_requestId inp) = countSessionAdmissions db (ai_requestId inp)"
    "reserve lc now newId scope p inp db1 = Inr (BCreate q s, db')"
    using admit_fresh [OF assms(2-4)] by metis
  have "session_room db inp"
    using reserve_room [OF assms(1) p(6)] p(1,5) by (simp add: session_room_def)
  moreover have "s = fresh_resource (resource_seq db1 + 1) newId scope (rs_profile s) (rq_id p)"
    and c: "readResource db1 newId = None \<and> resources db' = resources db1 @ [s] \<and>
     (\<forall>c. totalDeviceCap (ai_limits inp) = Some c \<longrightarrow> int (length (readResources db' True)) \<le> c)"
    using reserve_create [OF assms(1) p(3,2,6)] by auto
  then have "rs_state s = Reserved" "rs_request s = Some (rq_id p)" "rs_id s = newId"
    by (metis (no_types, lifting) fresh_resource_def resource_row.select_convs)+
  ultimately show ?thesis using c p by (simp add: readResource_def)
qed

theorem admission_within_caps_witness:
  "\<exists>q s. admit plain_compare 101 ''r1'' demo_scope (demo_input ''q1'') demo1 = Inr (BCreate q s, demo2) \<and>
     rs_state s = Reserved \<and> int (length (readResources demo2 True)) \<le> 2"
proof -
  have "case admit plain_compare 101 ''r1'' demo_scope (demo_input ''q1'') demo1 of
     Inr (BCreate _ _, _) \<Rightarrow> True | _ \<Rightarrow> False" by code_simp
  then obtain q s where run: "admit plain_compare 101 ''r1'' demo_scope (demo_input ''q1'') demo1 =
      Inr (BCreate q s, demo2)"
    unfolding demo2_def db_of_def by (auto split: sum.splits broker_admission.splits)
  have new: "readRequest demo1 (ai_requestId (demo_input ''q1'')) = None" by code_simp
  have "totalDeviceCap (ai_limits (demo_input ''q1'')) = Some 2" by (simp add: demo_input_def demo_limits_def)
  with admission_within_caps [OF comparator_plain reached_broker [OF demo_reach1] new run] run
  show ?thesis by blast
qed

text \<open>
  When admission decides to reuse, the row was idle and matches the request; it is now
  reserved for this request with one more reuse and a new revision, and the receipt names it.
\<close>

theorem admission_reuses_matching_idle:
  assumes "comparator lc" and "broker_inv db" and "readRequest db (ai_requestId inp) = None"
    and "admit lc now newId scope inp db = Inr (BReuse q s, db')"
  shows "session_room db inp \<and> (\<exists>s0. readResource db (rs_id s) = Some s0 \<and> rs_state s0 = Idle \<and>
     ai_matches inp (rs_profile s0) = Inr True \<and>
     s = s0\<lparr>rs_state := Reserved, rs_request := Some (ai_requestId inp), rs_reuse := rs_reuse s0 + 1,
            rs_revision := rs_revision s0 + 1\<rparr> \<and>
     readResource db' (rs_id s) = Some s \<and> readRequest db' (ai_requestId inp) = Some q \<and>
     rq_resource q = Some (rs_id s) \<and> rq_state q = Acquiring)"
proof -
  obtain p db1 where p: "rq_id p = ai_requestId inp" "rq_state p = Acquiring" "rq_resource p = None"
    "readRequest db1 (rq_id p) = Some p" "broker_inv db1" "resources db1 = resources db"
    "countSessionAdmissions db1 (ai_requestId inp) = countSessionAdmissions db (ai_requestId inp)"
    "reserve lc now newId scope p inp db1 = Inr (BReuse q s, db')"
    using admit_fresh [OF assms(2-4)] by metis
  have "session_room db inp"
    using reserve_room [OF assms(1) p(8)] p(1,7) by (simp add: session_room_def)
  then show ?thesis
    using reserve_reuse [OF assms(1) p(5,4,2,3,8)] p(1,6) by (simp add: readResource_def)
qed

theorem admission_reuses_matching_idle_witness:
  "\<exists>q s d. admit plain_compare 120 ''r2'' demo_scope (demo_input ''q2'') demo9 = Inr (BReuse q s, d) \<and>
     rs_request s = Some ''q2'' \<and> readResource d (rs_id s) = Some s"
proof -
  have "case admit plain_compare 120 ''r2'' demo_scope (demo_input ''q2'') demo9 of
     Inr (BReuse _ _, _) \<Rightarrow> True | _ \<Rightarrow> False" by code_simp
  then obtain q s d where run: "admit plain_compare 120 ''r2'' demo_scope (demo_input ''q2'') demo9 =
      Inr (BReuse q s, d)"
    by (auto split: sum.splits broker_admission.splits)
  have new: "readRequest demo9 (ai_requestId (demo_input ''q2'')) = None" by code_simp
  from admission_reuses_matching_idle [OF comparator_plain reached_broker [OF demo_reach9] new run] run
  show ?thesis by (auto simp: demo_input_def)
qed
end
