(* ===== verification/RequestTheorems.thy ===== *)
theory RequestTheorems
  imports AdmissionTheorems
begin

text \<open>
  Requests and processes: abandoned and foreign requests cannot acquire, draining and retention are
  exact, recovery acts only for dead owners, a hand-over needs the binding; request identity and the
  stored device profile round-trip.
\<close>

section \<open>Requests that may no longer acquire\<close>

text \<open>
  C25: A request abandoned before it was ever admitted never acquires a device while its receipt is
  retained. In every later database in which the receipt was there all along, it is still failed with the
  code of the abandonment and the fingerprint of the abandoning owner; an ordinary admission under its
  id, which has another fingerprint, is refused as a changed request, one with the very same fingerprint
  either throws or answers the abandoned receipt and touches no receipt or resource; and continuing the
  admission or activating a session for it is refused.
\<close>

theorem abandoned_never_acquires:
  assumes "inj key_of" and "system_inv key_of db" and "readRequest db k = None"
    and "abandon sha now k owner token db = Inr ((q, t), db1)" and "(receipt_step key_of k)\<^sup>*\<^sup>* db1 db2"
  shows "\<exists>p. readRequest db2 k = Some p \<and> rq_state p = Failed \<and> rq_code p = Some SESSION_REQUEST_ABANDONED_CODE \<and>
     rq_fingerprint p = fst (abandonedRequestIdentity sha token) \<and>
     (\<forall>lc now2 newId scope inp. ai_requestId inp = k \<longrightarrow>
        (ai_fingerprint inp \<noteq> rq_fingerprint p \<longrightarrow> admit lc now2 newId scope inp db2 =
           Inl (if blank k \<or> blank (ai_fingerprint inp)
                then ActionableError ''Session request identity and fingerprint must be non-empty''
                else ActionableError ''Session request identity was already used with different parameters'')) \<and>
        (\<forall>a db3. admit lc now2 newId scope inp db2 = Inr (a, db3) \<longrightarrow>
           a = BExisting p \<and> resources db3 = resources db2 \<and> requests db3 = requests db2) \<and>
        (\<exists>e. continueAdmission lc now2 newId scope inp db2 = Inl e)) \<and>
     (\<forall>now2 w u ph pr. \<exists>e. activate now2 k w u ph pr db2 = Inl e)"
proof -
  have st: "store_step db db1" using assms(4) by (rule store_step.abandon)
  then have step: "broker_step key_of db db1" by (simp add: broker_step_def)
  have inv1: "system_inv key_of db1" by (rule broker_step_inv [OF step assms(2,1)])
  have q: "readRequest db1 k = Some q" "rq_state q = Failed" "rq_code q = Some SESSION_REQUEST_ABANDONED_CODE"
    "rq_fingerprint q = fst (abandonedRequestIdentity sha token)"
    using assms(3,4) readRequest_insert
    by (auto simp: abandon_def abandonedRequestIdentity_def Let_def failure_set_def fresh_request_def
        insertRequest_def readRequest_def get_row_snoc)
  have "receipt_le k db1 db2" using receipt_runs.mono_steps [OF assms(5)] assms(1) inv1 q(1) by simp
  then obtain p where p: "readRequest db2 k = Some p" "request_advances q p"
    using q(1) by (auto simp: receipt_le_def split: option.splits)
  then have failed: "rq_state p = Failed" "rq_code p = Some SESSION_REQUEST_ABANDONED_CODE"
    "rq_fingerprint p = fst (abandonedRequestIdentity sha token)"
    using q by (simp_all add: request_advances_def)
  have refused: "admit lc now2 newId scope inp db2 =
           Inl (if blank k \<or> blank (ai_fingerprint inp)
                then ActionableError ''Session request identity and fingerprint must be non-empty''
                else ActionableError ''Session request identity was already used with different parameters'')"
    if "ai_requestId inp = k" "ai_fingerprint inp \<noteq> rq_fingerprint p" for lc now2 newId scope inp
    using that p(1) by (auto simp: admit_def assertIdentity_def ensure_def)
  have replayed: "a = BExisting p \<and> resources db3 = resources db2 \<and> requests db3 = requests db2"
    if "ai_requestId inp = k" "admit lc now2 newId scope inp db2 = Inr (a, db3)" for lc now2 newId scope inp a db3
  proof -
    have "a = BExisting p \<and> linkExport k (ai_export inp) now2 db2 = Inr db3"
      using that p(1) by (auto simp: admit_def split: if_splits)
    then show ?thesis using linkExport_keeps by blast
  qed
  have stopped: "\<exists>e. continueAdmission lc now2 newId scope inp db2 = Inl e"
    if "ai_requestId inp = k" for lc now2 newId scope inp
    using that p(1) failed(1) by (auto simp: continueAdmission_def ownedRequest_def)
  have inactive: "\<exists>e. activate now2 k w u ph pr db2 = Inl e" for now2 w u ph pr
    using p(1) failed(1) by (auto simp: activate_def ownedRequest_def ensure_def rbind_def split: sum.split)
  show ?thesis
    using p(1) failed refused replayed stopped inactive by blast
qed

theorem abandoned_never_acquires_witness:
  "\<exists>q t d p. abandon (\<lambda>_. ''h'') 101 ''q7'' demo_process ''t'' demo1 = Inr ((q, t), d) \<and>
     readRequest d ''q7'' = Some p \<and> rq_state p = Failed \<and>
     admit plain_compare 102 ''r1'' demo_scope (demo_input ''q7'') d =
       Inl (ActionableError ''Session request identity was already used with different parameters'')"
proof -
  have new: "readRequest demo1 ''q7'' = None" by code_simp
  let ?d = "db_of (abandon (\<lambda>_. ''h'') 101 ''q7'' demo_process ''t'' demo1)"
  have "ok (abandon (\<lambda>_. ''h'') 101 ''q7'' demo_process ''t'' demo1)" by code_simp
  then obtain q t where ab: "abandon (\<lambda>_. ''h'') 101 ''q7'' demo_process ''t'' demo1 = Inr ((q, t), ?d)"
    using ok_run by (metis (no_types, lifting) surj_pair)
  have "ai_requestId (demo_input ''q7'') = ''q7''" "ai_fingerprint (demo_input ''q7'') = ''fq7''"
    by (simp_all add: demo_input_def)
  moreover have "fst (abandonedRequestIdentity (\<lambda>_. ''h'') ''t'') = ''h''" "\<not> blank ''q7''" "\<not> blank ''fq7''" by code_simp+
  ultimately show ?thesis
    using ab abandoned_never_acquires [OF inj_plain_scope_key reached_inv [OF demo_reach1] new ab rtranclp.rtrancl_refl]
    by fastforce
qed

text \<open>
  C26: Every owner-only transition called by another process than the recorded owner is refused
  with the owner mismatch error: activation, continuing an admission, beginning a release and completing
  a clean one, release by destruction, every form of failing, handing over for a restart and abandoning.
  Beginning a release and abandoning answer a receipt that is already terminal without asking who owns
  it, and abandoning first asks for the liveness owner's fingerprint.
\<close>

theorem foreign_process_refused:
  assumes "readRequest db k = Some q" and "\<not> sameProcess (rq_owner q) owner"
  shows "activate now k owner session phases profile db =
           (if blank session then Inl (ActionableError ''A prepared session must have a non-empty session UUID'')
            else Inl (OwnerMismatchError (rq_handoff q))) \<and>
     continueAdmission lc now newId scope (inp\<lparr>ai_requestId := k, ai_owner := owner\<rparr>) db =
       Inl (OwnerMismatchError (rq_handoff q)) \<and>
     (getSession db u = Some q \<and> \<not> isTerminalState (rq_state q) \<longrightarrow>
        beginRelease now u owner db = Inl (OwnerMismatchError (rq_handoff q))) \<and>
     completeCleanRelease lc now k owner limits db = Inl (OwnerMismatchError (rq_handoff q)) \<and>
     fail now k owner e c rt db = Inl (OwnerMismatchError (rq_handoff q)) \<and>
     failInterruptedAcquisition now k owner e db = Inl (OwnerMismatchError (rq_handoff q)) \<and>
     releaseByDestruction k owner db = Inl (OwnerMismatchError (rq_handoff q)) \<and>
     relinquishForRestart now k owner db = Inl (OwnerMismatchError (rq_handoff q)) \<and>
     (\<not> blank k \<and> token \<noteq> [] \<and> \<not> isTerminalState (rq_state q) \<longrightarrow>
        abandon sha now k owner token db =
          (if rq_fingerprint q = sessionRequestFingerprint sha (rq_parameters q) token
           then Inl (OwnerMismatchError (rq_handoff q))
           else Inl (ActionableError ''Session request belongs to another liveness owner'')))"
  using assms request_table.get_key [OF assms(1)]
  by (auto simp: activate_def continueAdmission_def beginRelease_def abandon_def completeCleanRelease_def fail_def
      failInterruptedAcquisition_def failWhere_def releaseByDestruction_def relinquishForRestart_def
      ownedRequest_def ensure_def)

definition other_process :: process_identity where
  "other_process = \<lparr>pi_daemonId = ''d2'', pi_pid = 42, pi_token = Token ''u''\<rparr>"

theorem foreign_process_refused_witness:
  "\<exists>q. readRequest demo6 ''q1'' = Some q \<and> getSession demo6 ''s1'' = Some q \<and>
     releaseByDestruction ''q1'' other_process demo6 = Inl (OwnerMismatchError (rq_handoff q)) \<and>
     beginRelease 110 ''s1'' other_process demo6 = Inl (OwnerMismatchError (rq_handoff q))"
proof -
  have "case readRequest demo6 ''q1'' of None \<Rightarrow> False | Some q \<Rightarrow> \<not> sameProcess (rq_owner q) other_process \<and>
      \<not> isTerminalState (rq_state q)"
    by code_simp
  then obtain q where q: "readRequest demo6 ''q1'' = Some q" "\<not> sameProcess (rq_owner q) other_process"
    "\<not> isTerminalState (rq_state q)"
    by (auto split: option.splits)
  have "map_option rq_id (getSession demo6 ''s1'') = Some ''q1''" by code_simp
  then obtain p where p: "getSession demo6 ''s1'' = Some p" "rq_id p = ''q1''" by blast
  have "distinct (map rq_id (requests demo6))" by code_simp
  then have "readRequest demo6 (rq_id p) = Some p"
    using p(1) by (auto simp: getSession_def find_Some_iff intro!: request_table.get_in_rows)
  then have "getSession demo6 ''s1'' = Some q" using p q(1) by simp
  then show ?thesis using foreign_process_refused [OF q(1,2)] q by blast
qed

section \<open>The idle pool and retention\<close>

text \<open>
  Draining commits and retires exactly the idle resources (those still at an observed
  revision, if revisions were given), each with a ticket for its new revision; nothing else
  changes.
\<close>

theorem drainIdle_exact:
  assumes "broker_inv db"
  shows "\<exists>ts db'. drainIdle observed db = Inr (ts, db') \<and> requests db' = requests db \<and>
     (\<forall>r s. readResource db r = Some s \<longrightarrow>
        (if drainableIdle s observed
         then readResource db' r = Some (s\<lparr>rs_state := Destroying, rs_revision := rs_revision s + 1\<rparr>) \<and>
              (r, rs_revision s + 1) \<in> set ts
         else readResource db' r = Some s))"
proof -
  let ?rows = "filter (\<lambda>r. drainableIdle r observed) (readResources db True)"
  obtain db' where db': "drainIdle observed db = Inr (map (\<lambda>r. (rs_id r, rs_revision r + 1)) ?rows, db')"
    "requests db' = requests db"
    "\<forall>k. k \<notin> rs_id ` set ?rows \<longrightarrow> readResource db' k = readResource db k"
    "\<forall>r\<in>set ?rows. readResource db' (rs_id r) = Some (r\<lparr>rs_state := Destroying, rs_revision := rs_revision r + 1\<rparr>)"
    using drainIdle_total [OF assms, of observed] by blast
  have mem: "s \<in> set ?rows \<longleftrightarrow> drainableIdle s observed" if "readResource db r = Some s" for r s
    using resource_table.get_SomeD [OF that] by (auto simp: set_readResources drainableIdle_def)
  have "if drainableIdle s observed
         then readResource db' r = Some (s\<lparr>rs_state := Destroying, rs_revision := rs_revision s + 1\<rparr>) \<and>
              (r, rs_revision s + 1) \<in> set (map (\<lambda>r. (rs_id r, rs_revision r + 1)) ?rows)
         else readResource db' r = Some s" if s: "readResource db r = Some s" for r s
  proof (cases "drainableIdle s observed")
    case True
    then have "s \<in> set ?rows" using mem [OF s] by simp
    then show ?thesis using db'(4) resource_table.get_key [OF s] True by auto
  next
    case False
    have "r \<notin> rs_id ` set ?rows"
    proof
      assume "r \<in> rs_id ` set ?rows"
      then obtain x where x: "x \<in> set ?rows" "rs_id x = r" by blast
      then have "readResource db r = Some x" using readResources_row [OF assms] by auto
      then show False using s False x by auto
    qed
    then show ?thesis using db'(3) s False by simp
  qed
  then show ?thesis using db'(1,2) by blast
qed

theorem drainIdle_exact_witness:
  "\<exists>ts d s. drainIdle None demo9 = Inr (ts, d) \<and> readResource demo9 ''r1'' = Some s \<and>
     (''r1'', rs_revision s + 1) \<in> set ts"
proof -
  have "case readResource demo9 ''r1'' of None \<Rightarrow> False | Some s \<Rightarrow> drainableIdle s None" by code_simp
  then obtain s where s: "readResource demo9 ''r1'' = Some s" "drainableIdle s None"
    by (auto split: option.splits)
  from drainIdle_exact [OF reached_broker [OF demo_reach9], of None] s show ?thesis by metis
qed

text \<open>
  Retention forgets only terminal receipts older than the window, without an unacknowledged
  recent export and without a live resource, at most the given number; an unfinished receipt is
  never touched.
\<close>

theorem prune_forgets_only_expired:
  assumes "broker_inv db" and "pruneTerminalRequests now ret cnt eret db = Inr (n, db')"
    and "readRequest db k = Some q"
  shows "(readRequest db' k = None \<longrightarrow> isTerminalState (rq_state q) \<and>
       (\<forall>t. rq_terminal q = Some t \<longrightarrow> t \<le> now - ret) \<and>
       (\<forall>e\<in>set (exports db). ex_request e = k \<longrightarrow> ex_acknowledged e \<noteq> None \<or> ex_created e \<le> now - eret) \<and>
       (\<forall>r s. readResource db r = Some s \<and> rs_request s = Some k \<longrightarrow> rs_state s = Destroyed)) \<and>
     (\<not> isTerminalState (rq_state q) \<longrightarrow> readRequest db' k = Some q) \<and> n \<le> cnt"
proof -
  let ?db1 = "stamped now db"
  let ?ids = "expiredReceipts ?db1 now ret eret (nat cnt)"
  obtain db': "n = int (length ?ids)" "1 \<le> cnt"
    "db' = deleteUnreferencedTombstones None (forget_receipts ?ids ?db1)"
    using pruneTerminalRequests_cases [OF assms(2)] by metis
  have inv1: "broker_inv ?db1" using stamped_step [OF assms(1)] by (simp add: step_ok_def)
  have ids: "\<exists>q. readRequest ?db1 k = Some q \<and> prunable ?db1 now ret eret q" if "k \<in> set ?ids" for k
    by (rule expired_prunable [OF that broker_inv_distinct(1) [OF inv1]])
  have inv2: "broker_inv (forget_receipts ?ids ?db1)"
  proof (rule forget_inv [OF inv1])
    fix k assume "k \<in> set ?ids"
    then show "\<exists>q. readRequest ?db1 k = Some q \<and> isTerminalState (rq_state q) \<and>
       (\<forall>s\<in>set (resources ?db1). rs_request s = Some k \<longrightarrow> rs_state s = Destroyed)"
      using ids request_table.get_key [of ?db1 k] unfolding prunable_def list_ex_iff by blast
  qed
  have rd: "readRequest db' k = (if k \<in> set ?ids then None else Some (stamp_terminal now q))"
    unfolding db'(3) using delete_reads(2) [OF inv2] forget_reads(1) [OF inv1] assms(3) by simp
  have "prunable ?db1 now ret eret (stamp_terminal now q)" if "k \<in> set ?ids"
    using ids [OF that] assms(3) by simp
  then have old: "isTerminalState (rq_state q) \<and> (\<forall>t. rq_terminal q = Some t \<longrightarrow> t \<le> now - ret) \<and>
       (\<forall>e\<in>set (exports db). ex_request e = k \<longrightarrow> ex_acknowledged e \<noteq> None \<or> ex_created e \<le> now - eret) \<and>
       (\<forall>s\<in>set (resources db). rs_request s = Some k \<longrightarrow> rs_state s = Destroyed)" if "k \<in> set ?ids"
    using that request_table.get_key [OF assms(3)]
    by (auto simp: prunable_def list_ex_iff stamp_terminal_def not_less split: option.splits if_splits)
  have "n \<le> cnt" unfolding db'(1) using db'(2) by (simp add: expiredReceipts_def)
  moreover have "\<not> isTerminalState (rq_state q) \<longrightarrow> readRequest db' k = Some q"
    using rd old by (auto simp: stamp_terminal_def)
  ultimately show ?thesis
    using rd old resource_table.get_SomeD by (auto split: if_splits)
qed

theorem prune_forgets_only_expired_witness:
  "\<exists>n d q. pruneTerminalRequests 200 0 10 0 demo12 = Inr (n, d) \<and> readRequest d ''q1'' = None \<and>
     readRequest demo12 ''q1'' = Some q \<and> isTerminalState (rq_state q) \<and> n \<le> 10"
proof -
  let ?d = "db_of (pruneTerminalRequests 200 0 10 0 demo12)"
  have "ok (pruneTerminalRequests 200 0 10 0 demo12)" by code_simp
  then obtain n where run: "pruneTerminalRequests 200 0 10 0 demo12 = Inr (n, ?d)" using ok_run by blast
  have gone: "readRequest ?d ''q1'' = None" by code_simp
  have "readRequest demo12 ''q1'' \<noteq> None" by code_simp
  then obtain q where q: "readRequest demo12 ''q1'' = Some q" by blast
  from prune_forgets_only_expired [OF reached_broker [OF demo_reach12] run q] gone q run
  show ?thesis by blast
qed

section \<open>Owners that exit and owners that hand over\<close>

lemma relinquish_kept_rows:
  assumes "relinquish keep q db = Inr (t, db1)"
  shows "requests db1 = requests db"
  using assms by (cases rule: relinquish_cases) simp_all

text \<open>
  C24: Recovery changes a request only when its owner is a dead other process and it is
  unfinished; then the caller owns it, it is failed (or stays releasing), and its remaining
  device is being destroyed under the returned ticket.
\<close>

theorem recovery_only_of_the_dead:
  assumes "broker_inv db" and "recoverRequest live now k owner db = Inr (t, db')"
    and "readRequest db k = Some q"
  shows "(db' = db \<and> t = None) \<or>
     (\<not> live (rq_owner q) \<and> \<not> sameProcess (rq_owner q) owner \<and> \<not> isTerminalState (rq_state q) \<and>
      (\<exists>q'. readRequest db' k = Some q' \<and> rq_owner q' = owner \<and> \<not> rq_handoff q' \<and>
         rq_state q' = (if rq_state q = Releasing then Releasing else Failed)) \<and>
      (\<forall>r s. rq_resource q = Some r \<and> readResource db r = Some s \<and> rs_state s \<noteq> Destroyed \<longrightarrow>
         (\<exists>s'. readResource db' r = Some s' \<and> rs_state s' = Destroying \<and> t = Some (r, rs_revision s'))))"
proof (cases "sameProcess (rq_owner q) owner \<or> live (rq_owner q) \<or> isTerminalState (rq_state q)")
  case True
  then have "recoverRequest live now k owner db = Inr (None, db)"
    using assms(3) by (auto simp: recoverRequest_def)
  then show ?thesis using assms(2) by simp
next
  case act: False
  let ?rel = "rq_state q = Releasing"
  let ?f = "\<lambda>x. x\<lparr>rq_owner := owner, rq_handoff := False,
                rq_error := (if ?rel then None else Some SESSION_OWNER_EXITED_MESSAGE),
                rq_code := (if ?rel then None else Some SESSION_OWNER_EXITED_CODE)\<rparr>"
  have kq: "rq_id q = k" using broker_inv_request [OF assms(1,3)] by simp
  obtain db1 q2 where rel: "relinquish (\<lambda>r. ?rel \<and> rs_state r = Destroying) q db = Inr (t, db1)"
    and up: "updateRequest now k (Some (if ?rel then Releasing else Failed)) ?f db1 = Inr (q2, db')"
    using assms(2,3) act by (auto simp: recoverRequest_def Let_def)
  have q1: "readRequest db1 k = Some q"
    using relinquish_kept_rows [OF rel] assms(3) by (simp add: readRequest_def)
  have db': "q2 = request_columns now (Some (if ?rel then Releasing else Failed)) ?f q"
    "db' = put_request k (request_columns now (Some (if ?rel then Releasing else Failed)) ?f) db1"
    using updateRequest_eq [where f = ?f and st = "Some (if ?rel then Releasing else Failed)", OF q1] up by auto
  have new: "readRequest db' k = Some (request_columns now (Some (if ?rel then Releasing else Failed)) ?f q)"
    unfolding db'(2) using q1 by (simp add: request_table.get_put)
  have "\<exists>s'. readResource db' r = Some s' \<and> rs_state s' = Destroying \<and> t = Some (r, rs_revision s')"
    if "rq_resource q = Some r" "readResource db r = Some s" "rs_state s \<noteq> Destroyed" for r s
  proof -
    have r: "rs_id s = r" "r \<noteq> []" using broker_inv_resource [OF assms(1) that(2)] by (auto simp: resource_ok_def)
    from rel show ?thesis
    proof (cases rule: relinquish_cases)
      case none
      then show ?thesis using that(1) r(2) by (simp add: truthy_def)
    next
      case (gone s1)
      then show ?thesis using that by simp
    next
      case (kept s1)
      then show ?thesis using that db'(2) by (auto simp: destructionTicket_def)
    next
      case (retired s1)
      then have "s1 = s" "rs_id s1 = r" using that by auto
      then show ?thesis using retired that(2) db'(2) by (simp add: resource_table.get_put)
    qed
  qed
  then show ?thesis using act new by (intro disjI2) (auto simp: request_columns_def)
qed

theorem recovery_only_of_the_dead_witness:
  "\<exists>t d q q'. recoverRequest (\<lambda>_. False) 120 ''q1'' other_process demo6 = Inr (t, d) \<and>
     readRequest demo6 ''q1'' = Some q \<and> rq_state q = RActive \<and>
     readRequest d ''q1'' = Some q' \<and> rq_state q' = Failed"
proof -
  let ?run = "recoverRequest (\<lambda>_. False) 120 ''q1'' other_process demo6"
  have "ok ?run" by code_simp
  then obtain t where run: "?run = Inr (t, db_of ?run)" using ok_run by blast
  have "case readRequest demo6 ''q1'' of None \<Rightarrow> False | Some q \<Rightarrow> rq_state q = RActive" by code_simp
  then obtain q where q: "readRequest demo6 ''q1'' = Some q" "rq_state q = RActive" by (auto split: option.splits)
  have "case ?run of Inr (Some _, _) \<Rightarrow> True | _ \<Rightarrow> False" by code_simp
  then have "t \<noteq> None" by (subst (asm) run) (auto split: option.splits)
  with recovery_only_of_the_dead [OF reached_broker [OF demo_reach6] run q(1)] q run
  show ?thesis by auto
qed

text \<open>
  Adopting a restart hand-over changes the request only when it was handed over, is active,
  its old owner is dead and the binding already names the adopting process for the session; only
  the owner columns change.
\<close>

theorem handoff_needs_the_binding:
  assumes "adoptRestartHandoff live now k owner db = Inr (h, db')" and "readRequest db k = Some q"
  shows "(h \<noteq> Adopted \<longrightarrow> db' = db) \<and>
     (h = Adopted \<and> db' \<noteq> db \<longrightarrow> rq_handoff q \<and> rq_state q = RActive \<and> \<not> live (rq_owner q) \<and>
        (\<exists>s u. ownedResource db q = Inr s \<and> rs_state s = Active \<and> rq_session q = Some u \<and>
           ownsReadyBinding (readAssignment db (binding_of s)) u owner) \<and>
        db' = put_request k (\<lambda>x. x\<lparr>rq_owner := owner, rq_handoff := False\<rparr>) db)"
proof -
  have up: "updateRequest now k None (\<lambda>x. x\<lparr>rq_owner := owner, rq_handoff := False\<rparr>) db =
      Inr (q\<lparr>rq_owner := owner, rq_handoff := False\<rparr>, put_request k (\<lambda>x. x\<lparr>rq_owner := owner, rq_handoff := False\<rparr>) db)"
    using updateRequest_eq [where st = None and f = "\<lambda>x. x\<lparr>rq_owner := owner, rq_handoff := False\<rparr>",
        OF assms(2)] by simp
  show ?thesis
    using assms up by (auto simp: adoptRestartHandoff_def truthy_def split: if_splits)
qed

definition demo_handed :: broker_db where
  "demo_handed = db_of (claimExecution (\<lambda>_. False) 107 demo_binding demo_expectation
     \<lparr>eo_process = other_process, eo_sessionUuid = ''s1''\<rparr> None
     (db_of (relinquishForRestart 106 ''q1'' demo_process demo6)))"

theorem handoff_needs_the_binding_witness:
  "\<exists>d q. adoptRestartHandoff (\<lambda>_. False) 108 ''q1'' other_process demo_handed = Inr (Adopted, d) \<and>
     readRequest demo_handed ''q1'' = Some q \<and> rq_handoff q \<and> d \<noteq> demo_handed"
proof -
  let ?run = "adoptRestartHandoff (\<lambda>_. False) 108 ''q1'' other_process demo_handed"
  have "ok ?run" by code_simp
  then obtain h where run: "?run = Inr (h, db_of ?run)" using ok_run by blast
  have "case ?run of Inr (h, _) \<Rightarrow> h = Adopted | _ \<Rightarrow> False" by code_simp
  then have h: "h = Adopted" by (subst (asm) run) simp
  have ne: "map rq_handoff (requests (db_of ?run)) \<noteq> map rq_handoff (requests demo_handed)" by code_simp
  have "readRequest demo_handed ''q1'' \<noteq> None" by code_simp
  then obtain q where q: "readRequest demo_handed ''q1'' = Some q" by blast
  have d: "db_of ?run \<noteq> demo_handed" using ne by metis
  with handoff_needs_the_binding [OF run q] h have "rq_handoff q" by blast
  with run h q d show ?thesis by metis
qed

section \<open>Identity and profiles\<close>

text \<open>
  The request fingerprint does not depend on the order of object keys at any depth of the
  parameters.
\<close>

theorem fingerprint_canonical:
  assumes "same_json p p'"
  shows "sessionRequestFingerprint sha p token = sessionRequestFingerprint sha p' token"
  using sortValue_same [OF assms] by (simp add: sessionRequestFingerprint_def)

definition demo_digest :: "json \<Rightarrow> string" where
  "demo_digest j = (case field j ''config'' of
     Some (JObj ((k, _) # _)) \<Rightarrow> k | _ \<Rightarrow> [])"

theorem fingerprint_canonical_witness:
  "sessionRequestFingerprint demo_digest (JObj [(''a'', JNum 1), (''b'', JNull)]) ''t'' =
   sessionRequestFingerprint demo_digest (JObj [(''b'', JNull), (''a'', JNum 1)]) ''t''"
proof -
  have "same_json (JObj [(''a'', JNum 1), (''b'', JNull)]) (JObj [(''b'', JNull), (''a'', JNum 1)])"
    by (rule same_obj [where kvs' = "[(''a'', JNum 1), (''b'', JNull)]"]) (auto intro: same_refl)
  then show ?thesis by (rule fingerprint_canonical)
qed

text \<open>
  Printing a well-formed profile and parsing it again gives the same profile, also inside a
  stored resource; every parsed profile is such a profile.
\<close>

theorem profile_roundtrip:
  assumes "profile_ok p"
  shows "exactProfile (profileJson p) = Some p \<and>
     nativeProfile (JObj [(''profile'', profileJson p)]) = Inr p \<and>
     (\<forall>j. exactProfile j = Some q \<longrightarrow> exactProfile (profileJson q) = Some q)"
  using exactProfile_print [OF assms] exactProfile_print exactProfile_ok
  by (auto simp: nativeProfile_def)

definition demo_profile :: android_profile where
  "demo_profile = \<lparr>ap_profileId = ''pixel_9'', ap_archetype = ''phone'', ap_memoryMb = Some 4096, ap_ram = Some None,
     ap_cores = Some (Some 4), ap_systemImage = ''img'', ap_osVersion = ''15'', ap_precision = ''major'',
     ap_apiLevel = 35, ap_abi = ''arm64-v8a'', ap_flavor = ''google_apis''\<rparr>"

lemma demo_profile_ok: "profile_ok (PAndroid demo_profile)" "android_ok demo_profile"
  by (simp_all add: profile_ok_def android_ok_def demo_profile_def is_digit_def)

theorem profile_roundtrip_witness:
  "exactProfile (profileJson (PAndroid demo_profile)) = Some (PAndroid demo_profile)"
  using profile_roundtrip [OF demo_profile_ok(1)] by blast

text \<open>
  Recording the effective hardware at activation changes exactly the two hardware fields of
  an Android profile, leaves other profiles and every other stored key as they were, and the
  result parses again.
\<close>

theorem activation_keeps_profile:
  assumes "nativeProfile stored = Inr p" and "android_ok hw"
  shows "\<exists>j. activationHardware stored (Some (PAndroid hw)) = Inr (Some j) \<and>
     nativeProfile j = Inr (withHardware p hw) \<and>
     (\<forall>k. k \<noteq> ''profile'' \<longrightarrow> field j k = field stored k)"
proof -
  obtain j where j: "activationHardware stored (Some (PAndroid hw)) = Inr (Some j)"
    "nativeProfile j = Inr (withHardware p hw)" using activationHardware_roundtrip [OF assms] by blast
  have "field j k = field stored k" if "k \<noteq> ''profile''" for k
    using j(1) assms(1) that
    by (cases stored) (auto simp: activationHardware_def map_of_setKey objectEntries_def)
  with j show ?thesis by blast
qed

theorem activation_keeps_profile_witness:
  "\<exists>j. activationHardware (JObj [(''profile'', profileJson (PAndroid demo_profile))]) (Some (PAndroid demo_profile)) =
     Inr (Some j) \<and> nativeProfile j = Inr (withHardware (PAndroid demo_profile) demo_profile)"
proof -
  have "nativeProfile (JObj [(''profile'', profileJson (PAndroid demo_profile))]) = Inr (PAndroid demo_profile)"
    using exactProfile_print [OF demo_profile_ok(1)] by (simp add: nativeProfile_def)
  from activation_keeps_profile [OF this demo_profile_ok(2)] show ?thesis by blast
qed
end
