(* ===== verification/TimingStats.thy ===== *)
theory TimingStats
  imports Store
begin

text \<open>
  Percentile statistics over stored timing receipts (src/src/utils/percentile.ts and
  src/src/daemon/sessionBroker/timingStats.ts).

  \<^item> Durations are rationals. A read outside an array is \<open>None\<close>, the source's \<open>undefined\<close>, and so is
    arithmetic on it (\<open>NaN\<close>); the lemmas show that the statistics never contain one.
  \<^item> A \<open>Record<string, number[]>\<close> is an association list in insertion order, which is the order of
    \<open>Object.entries\<close> for phase names that are not array indices.
  \<^item> The window and the limit are JavaScript numbers: \<open>None\<close> stands for NaN and the infinities.
\<close>

section \<open>Percentiles\<close>

definition elem_at :: "'a list \<Rightarrow> int \<Rightarrow> 'a option" where
  "elem_at xs i = (if 0 \<le> i \<and> i < int (length xs) then Some (xs ! nat i) else None)"

definition rankOf :: "rat list \<Rightarrow> rat \<Rightarrow> rat" where
  "rankOf xs p = p / 100 * (of_nat (length xs) - 1)"

definition computePercentile :: "rat list \<Rightarrow> rat \<Rightarrow> rat option" where
  "computePercentile xs p =
     (if xs = [] then Some 0
      else
        let index = rankOf xs p;
            lower = \<lfloor>index\<rfloor>;
            upper = \<lceil>index\<rceil> in
        if lower = upper then elem_at xs lower
        else case (elem_at xs lower, elem_at xs upper) of
               (Some l, Some u) \<Rightarrow> Some (l + (u - l) * (index - of_int lower))
             | _ \<Rightarrow> None)"

section \<open>Grouping\<close>

type_synonym timing_sample = "native_profile \<times> session_timing"
type_synonym phase_values = "(string \<times> rat list) list"

record phase_stats =
  ps_count :: nat
  ps_p50 :: "rat option"
  ps_p90 :: "rat option"

record stats_group =
  sg_profile :: native_profile
  sg_acquisitions :: nat
  sg_resets :: nat
  sg_reuseHitRate :: rat
  sg_fallbackRate :: rat
  sg_retirements :: nat
  sg_acquisitionPhases :: "(string \<times> phase_stats) list"
  sg_resetPhases :: "(string \<times> phase_stats) list"

record broker_stats =
  bs_sinceMs :: rat
  bs_untilMs :: int
  bs_limit :: nat
  bs_truncated :: bool
  bs_groups :: "stats_group list"

text \<open>A \<open>Map<string, T[]>\<close> keyed in insertion order: append one value under a key.\<close>

fun push_under :: "'k \<Rightarrow> 'v \<Rightarrow> ('k \<times> 'v list) list \<Rightarrow> ('k \<times> 'v list) list" where
  "push_under k v [] = [(k, [v])]"
| "push_under k v ((k', vs) # m) =
     (if k' = k then (k', vs @ [v]) # m else (k', vs) # push_under k v m)"

definition group_samples :: "timing_sample list \<Rightarrow> (json \<times> timing_sample list) list" where
  "group_samples samples = fold (\<lambda>s. push_under (profileJson (fst s)) s) samples []"

definition inWindow :: "rat \<Rightarrow> int \<Rightarrow> int option \<Rightarrow> bool" where
  "inWindow since until t0 =
     (case t0 of None \<Rightarrow> False | Some t \<Rightarrow> since \<le> of_int t \<and> t \<le> until)"

definition acquisitionsIn :: "rat \<Rightarrow> int \<Rightarrow> timing_sample list \<Rightarrow> acquisition_timing list" where
  "acquisitionsIn since until samples =
     concat (map (\<lambda>s. case ti_acquisition (snd s) of
       Some a \<Rightarrow> if aq_outcome a = AqReady \<and> inWindow since until (aq_completedAtMs a) then [a] else []
     | None \<Rightarrow> []) samples)"

definition resetsIn :: "rat \<Rightarrow> int \<Rightarrow> timing_sample list \<Rightarrow> reset_timing list" where
  "resetsIn since until samples =
     concat (map (\<lambda>s. case ti_reset (snd s) of
       Some r \<Rightarrow> if inWindow since until (rt_completedAtMs r) then [r] else []
     | None \<Rightarrow> []) samples)"

definition add_phase :: "string \<times> rat option \<Rightarrow> phase_values \<Rightarrow> phase_values" where
  "add_phase e values =
     (case snd e of None \<Rightarrow> values
      | Some d \<Rightarrow> if 0 \<le> d then push_under (fst e) d values else values)"

definition acquisitionPhases :: "acquisition_timing \<Rightarrow> (string \<times> rat option) list" where
  "acquisitionPhases a =
     [(''queueMs'', Some (aq_queueMs a)), (''admissionWaitMs'', Some (aq_admissionWaitMs a)),
      (''createMs'', aq_createMs a), (''bootMs'', aq_bootMs a),
      (''automationReadyMs'', aq_automationReadyMs a), (''totalMs'', Some (aq_totalMs a))]"

definition resetPhases :: "reset_timing \<Rightarrow> (string \<times> rat option) list" where
  "resetPhases r = map (\<lambda>(k, d). (k, Some d)) (rt_phases r) @ [(''totalMs'', Some (rt_totalMs r))]"

definition collect :: "('a \<Rightarrow> (string \<times> rat option) list) \<Rightarrow> 'a list \<Rightarrow> phase_values" where
  "collect phases xs = fold add_phase (concat (map phases xs)) []"

definition phase_stats_of :: "rat list \<Rightarrow> phase_stats" where
  "phase_stats_of durations =
     (let sorted_durations = js_sort (key_cmp (\<lambda>d. d)) durations in
      \<lparr>ps_count = length sorted_durations, ps_p50 = computePercentile sorted_durations 50,
       ps_p90 = computePercentile sorted_durations 90\<rparr>)"

definition summarize :: "phase_values \<Rightarrow> (string \<times> phase_stats) list" where
  "summarize values = map (\<lambda>(k, ds). (k, phase_stats_of ds)) values"

definition rate :: "('a \<Rightarrow> bool) \<Rightarrow> 'a list \<Rightarrow> rat" where
  "rate P xs = (if xs = [] then 0 else of_nat (length (filter P xs)) / of_nat (length xs))"

definition isFallback :: "reset_outcome \<Rightarrow> bool" where
  "isFallback o' = (case o' of OFallback _ \<Rightarrow> True | _ \<Rightarrow> False)"

definition retirement :: "rat \<Rightarrow> int \<Rightarrow> timing_sample \<Rightarrow> bool" where
  "retirement since until s =
     (case ti_reset (snd s) of None \<Rightarrow> False
      | Some r \<Rightarrow> (rt_retired r = Some True \<or> rt_outcome r = ODestroyed) \<and>
          inWindow since until (Some (case rt_completedAtMs r of Some t \<Rightarrow> t | None \<Rightarrow> rt_startedAtMs r)))"

definition stats_of_group :: "rat \<Rightarrow> int \<Rightarrow> timing_sample list \<Rightarrow> stats_group" where
  "stats_of_group since until samples =
     (let acquisitions = acquisitionsIn since until samples;
          resets = resetsIn since until samples in
      \<lparr>sg_profile = fst (hd samples),
       sg_acquisitions = length acquisitions,
       sg_resets = length resets,
       sg_reuseHitRate = rate (\<lambda>a. aq_admission a = AReuse) acquisitions,
       sg_fallbackRate = rate (\<lambda>r. isFallback (rt_outcome r)) resets,
       sg_retirements = length (filter (retirement since until) samples),
       sg_acquisitionPhases = summarize (collect acquisitionPhases acquisitions),
       sg_resetPhases = summarize (collect resetPhases resets)\<rparr>)"

definition aggregateBrokerTimings :: "timing_sample list \<Rightarrow> rat \<Rightarrow> int \<Rightarrow> stats_group list" where
  "aggregateBrokerTimings samples since until =
     filter (\<lambda>g. 0 < sg_acquisitions g \<or> 0 < sg_resets g \<or> 0 < sg_retirements g)
       (map (\<lambda>(_, ss). stats_of_group since until ss) (group_samples samples))"

section \<open>Reading the statistics\<close>

definition RECEIPT_RETENTION_MS :: rat where
  "RECEIPT_RETENTION_MS = 30 * 24 * 60 * 60 * 1000"

definition isInteger :: "rat option \<Rightarrow> bool" where
  "isInteger n = (case n of None \<Rightarrow> False | Some r \<Rightarrow> of_int \<lfloor>r\<rfloor> = r)"

definition stats_arguments_ok :: "rat option \<Rightarrow> rat option \<Rightarrow> bool" where
  "stats_arguments_ok windowMs limit \<longleftrightarrow>
     windowMs \<noteq> None \<and> 0 \<le> the windowMs \<and> the windowMs \<le> RECEIPT_RETENTION_MS \<and>
     isInteger limit \<and> 1 \<le> the limit \<and> the limit \<le> 10000"

text \<open>
  \<open>samplesOf\<close> is the store's \<open>timingSamples\<close>, or its composition with \<open>successfulTimingSample\<close>. Its
  integer column is compared with the possibly fractional lower bound, hence the ceiling.
\<close>

definition readBrokerTimingStats ::
  "(int \<Rightarrow> int \<Rightarrow> nat \<Rightarrow> timing_sample list) \<Rightarrow> int \<Rightarrow> rat option \<Rightarrow> rat option \<Rightarrow> broker_stats res" where
  "readBrokerTimingStats samplesOf now windowMs limit =
     (if \<not> stats_arguments_ok windowMs limit
      then Inl (ActionableError ''Broker stats needs a window of 0 to 30 days and a limit of 1 to 10000'')
      else
        let n = nat \<lfloor>the limit\<rfloor>;
            since = of_int now - the windowMs;
            samples = samplesOf \<lceil>since\<rceil> now (n + 1) in
        Inr \<lparr>bs_sinceMs = since, bs_untilMs = now, bs_limit = n, bs_truncated = n < length samples,
             bs_groups = aggregateBrokerTimings (take n samples) since now\<rparr>)"

section \<open>Percentiles lie between the extremes\<close>

lemma elem_at_Some [simp]:
  "elem_at xs i = Some x \<longleftrightarrow> 0 \<le> i \<and> i < int (length xs) \<and> x = xs ! nat i"
  by (auto simp: elem_at_def)

lemma rankOf_bounds:
  assumes "0 \<le> p" "p \<le> 100" "xs \<noteq> []"
  shows "0 \<le> rankOf xs p" "rankOf xs p \<le> of_nat (length xs) - 1"
proof -
  have l: "1 \<le> length xs" using assms(3) by (simp add: Suc_leI)
  then have n: "0 \<le> (of_nat (length xs) :: rat) - 1"
    using of_nat_mono [OF l, where 'a = rat] by simp
  show "0 \<le> rankOf xs p" using n assms by (simp add: rankOf_def)
  show "rankOf xs p \<le> of_nat (length xs) - 1"
    using mult_right_mono [of "p / 100" 1, OF _ n] assms by (simp add: rankOf_def)
qed

lemma rankOf_mono: "p \<le> q \<Longrightarrow> xs \<noteq> [] \<Longrightarrow> rankOf xs p \<le> rankOf xs q"
  using rankOf_bounds(1) [of 100 xs] by (simp add: rankOf_def mult_right_mono)

lemma interpolation_between:
  fixes l u t :: rat
  assumes "l \<le> u" "0 \<le> t" "t \<le> 1"
  shows "l \<le> l + (u - l) * t" "l + (u - l) * t \<le> u"
proof -
  show "l \<le> l + (u - l) * t" using assms by simp
  have "(u - l) * t \<le> u - l" using mult_left_le [of t "u - l"] assms by simp
  then show "l + (u - l) * t \<le> u" by simp
qed

lemma rank_range:
  fixes i :: rat
  assumes "0 \<le> i" "i \<le> of_nat n - 1"
  shows "0 \<le> \<lfloor>i\<rfloor>" "\<lfloor>i\<rfloor> \<le> \<lceil>i\<rceil>" "\<lceil>i\<rceil> < int n" "0 \<le> \<lceil>i\<rceil>" "nat \<lceil>i\<rceil> < n" "\<lfloor>i\<rfloor> < int n"
proof -
  have "\<lceil>i\<rceil> \<le> int n - 1"
    unfolding ceiling_le_iff using assms(2) by simp
  then show c: "\<lceil>i\<rceil> < int n" by simp
  show f: "0 \<le> \<lfloor>i\<rfloor>" "\<lfloor>i\<rfloor> \<le> \<lceil>i\<rceil>"
    using assms(1) by (simp_all add: floor_le_ceiling)
  then show "0 \<le> \<lceil>i\<rceil>" by simp
  with c f show "nat \<lceil>i\<rceil> < n" "\<lfloor>i\<rfloor> < int n" by linarith+
qed

text \<open>The percentile as a function of the position: linear between neighbouring ranks.\<close>

definition interpolate :: "rat list \<Rightarrow> rat \<Rightarrow> rat" where
  "interpolate xs i = xs ! nat \<lfloor>i\<rfloor> + (xs ! nat \<lceil>i\<rceil> - xs ! nat \<lfloor>i\<rfloor>) * (i - of_int \<lfloor>i\<rfloor>)"

lemma computePercentile_interpolate:
  assumes "0 \<le> p" "p \<le> 100" "xs \<noteq> []"
  shows "computePercentile xs p = Some (interpolate xs (rankOf xs p))"
  using assms(3) rank_range [OF rankOf_bounds [OF assms]]
  by (auto simp: computePercentile_def interpolate_def Let_def elem_at_def)

lemma interpolate_bounds:
  assumes "sorted xs" "0 \<le> i" "i \<le> of_nat (length xs) - 1"
  shows "xs ! nat \<lfloor>i\<rfloor> \<le> interpolate xs i" "interpolate xs i \<le> xs ! nat \<lceil>i\<rceil>"
proof -
  have lu: "xs ! nat \<lfloor>i\<rfloor> \<le> xs ! nat \<lceil>i\<rceil>"
    using assms(1) rank_range [OF assms(2,3)] by (intro sorted_nth_mono nat_mono)
  have t: "0 \<le> i - of_int \<lfloor>i\<rfloor>" "i - of_int \<lfloor>i\<rfloor> \<le> 1"
    using of_int_floor_le [of i] floor_correct [of i] by linarith+
  show "xs ! nat \<lfloor>i\<rfloor> \<le> interpolate xs i" "interpolate xs i \<le> xs ! nat \<lceil>i\<rceil>"
    using interpolation_between [OF lu t] by (simp_all add: interpolate_def)
qed

lemma interpolate_mono:
  assumes "sorted xs" "0 \<le> i" "i \<le> j" "j \<le> of_nat (length xs) - 1"
  shows "interpolate xs i \<le> interpolate xs j"
proof (cases "\<lceil>i\<rceil> \<le> \<lfloor>j\<rfloor>")
  case True
  have "nat \<lfloor>j\<rfloor> < length xs"
    using rank_range [of j "length xs"] assms by linarith
  then have "xs ! nat \<lceil>i\<rceil> \<le> xs ! nat \<lfloor>j\<rfloor>"
    using True assms(1) by (intro sorted_nth_mono nat_mono)
  then show ?thesis
    using interpolate_bounds(2) [of xs i] interpolate_bounds(1) [of xs j] assms by auto
next
  case False
  then have f: "\<lfloor>j\<rfloor> = \<lfloor>i\<rfloor>" and c: "\<lceil>j\<rceil> = \<lceil>i\<rceil>"
    using assms(3) by linarith+
  have "0 \<le> xs ! nat \<lceil>i\<rceil> - xs ! nat \<lfloor>i\<rfloor>"
    using interpolate_bounds [of xs i] assms by auto
  then show ?thesis
    using assms(3) by (auto simp: interpolate_def f c intro!: mult_left_mono)
qed

lemma percentile_between:
  assumes "sorted xs" "xs \<noteq> []" "0 \<le> p" "p \<le> 100"
  shows "\<exists>v. computePercentile xs p = Some v \<and> hd xs \<le> v \<and> v \<le> last xs"
proof -
  note i = rankOf_bounds [OF assms(3,4,2)]
  have "nat \<lfloor>rankOf xs p\<rfloor> < length xs" "nat \<lceil>rankOf xs p\<rceil> \<le> length xs - 1"
    using rank_range [OF i] by linarith+
  then have "hd xs \<le> xs ! nat \<lfloor>rankOf xs p\<rfloor>" "xs ! nat \<lceil>rankOf xs p\<rceil> \<le> last xs"
    using assms(1,2) by (auto simp: hd_conv_nth last_conv_nth intro!: sorted_nth_mono)
  then show ?thesis
    using interpolate_bounds [OF assms(1) i] assms by (auto simp: computePercentile_interpolate)
qed

lemma percentile_mono:
  assumes "sorted xs" "xs \<noteq> []" "0 \<le> p" "p \<le> q" "q \<le> 100"
    and "computePercentile xs p = Some v" "computePercentile xs q = Some w"
  shows "v \<le> w"
proof -
  have "interpolate xs (rankOf xs p) \<le> interpolate xs (rankOf xs q)"
    using assms by (intro interpolate_mono rankOf_mono rankOf_bounds) auto
  then show ?thesis using assms by (simp add: computePercentile_interpolate)
qed

section \<open>What the statistics contain\<close>

lemma keys_push_under: "map fst (push_under k v m) = (if k \<in> set (map fst m) then map fst m else map fst m @ [k])"
  by (induction k v m rule: push_under.induct) auto

lemma distinct_push_under: "distinct (map fst m) \<Longrightarrow> distinct (map fst (push_under k v m))"
  by (simp add: keys_push_under)

lemma push_under_values:
  "(k', vs) \<in> set (push_under k v m) \<Longrightarrow>
     (k', vs) \<in> set m \<or> k' = k \<and> (vs = [v] \<or> (\<exists>ws. (k, ws) \<in> set m \<and> vs = ws @ [v]))"
  by (induction k v m rule: push_under.induct) (auto split: if_splits)

lemma mset_push_under: "mset (concat (map snd (push_under k v m))) = add_mset v (mset (concat (map snd m)))"
  by (induction k v m rule: push_under.induct) auto

text \<open>Every list filed under a key is non-empty and made of what was pushed.\<close>

definition filed :: "('k \<Rightarrow> 'v \<Rightarrow> bool) \<Rightarrow> ('k \<times> 'v list) list \<Rightarrow> bool" where
  "filed P m \<longleftrightarrow> distinct (map fst m) \<and> (\<forall>(k, vs) \<in> set m. vs \<noteq> [] \<and> list_all (P k) vs)"

lemma filed_Nil [simp]: "filed P []"
  by (simp add: filed_def)

lemma filed_push_under: "filed P m \<Longrightarrow> P k v \<Longrightarrow> filed P (push_under k v m)"
  unfolding filed_def by (auto simp: distinct_push_under dest!: push_under_values)

lemma filed_group_samples: "filed (\<lambda>k s. k = profileJson (fst s)) (group_samples samples)"
proof -
  have "filed (\<lambda>k s. k = profileJson (fst s)) (fold (\<lambda>s. push_under (profileJson (fst s)) s) samples m)"
    if "filed (\<lambda>k s. k = profileJson (fst s)) m" for m
    using that by (induction samples arbitrary: m) (auto intro: filed_push_under)
  then show ?thesis by (simp add: group_samples_def)
qed

lemma mset_group_samples: "mset (concat (map snd (group_samples samples))) = mset samples"
proof -
  have "mset (concat (map snd (fold (\<lambda>s. push_under (profileJson (fst s)) s) samples m))) =
    mset samples + mset (concat (map snd m))" for m
    by (induction samples arbitrary: m) (simp_all add: mset_push_under)
  then show ?thesis by (simp add: group_samples_def)
qed

lemma filed_collect: "filed (\<lambda>_ d. 0 \<le> d) (collect phases xs)"
proof -
  have "filed (\<lambda>_ d. 0 \<le> d) (fold add_phase es m)" if "filed (\<lambda>_ d. 0 \<le> d) m" for es m
    using that
    by (induction es arbitrary: m) (auto simp: add_phase_def intro: filed_push_under split: option.splits)
  then show ?thesis by (simp add: collect_def)
qed

definition phase_ok :: "phase_stats \<Rightarrow> bool" where
  "phase_ok s \<longleftrightarrow> 0 < ps_count s \<and> ps_p50 s \<noteq> None \<and> ps_p90 s \<noteq> None \<and>
     0 \<le> the (ps_p50 s) \<and> the (ps_p50 s) \<le> the (ps_p90 s)"

definition stats_ok :: "(string \<times> phase_stats) list \<Rightarrow> bool" where
  "stats_ok ps \<longleftrightarrow> distinct (map fst ps) \<and> list_all (\<lambda>e. phase_ok (snd e)) ps"

lemma sorted_js_sort_id: "sorted (js_sort (key_cmp (\<lambda>d. d)) (ds :: rat list))"
  using key.sorted_js_sort [of "\<lambda>d. d" ds] by simp

lemma phase_stats_of_ok:
  assumes "ds \<noteq> []" and "list_all ((\<le>) 0) ds"
  shows "phase_ok (phase_stats_of ds)"
proof -
  define xs where "xs = js_sort (key_cmp (\<lambda>d. d)) ds"
  have ne: "xs \<noteq> []" and so: "sorted xs" using assms by (simp_all add: xs_def sorted_js_sort_id)
  have "hd xs \<in> set ds" using ne by (metis hd_in_set set_js_sort xs_def)
  then have h: "0 \<le> hd xs" using assms(2) by (simp add: list_all_iff)
  obtain v w where vw: "computePercentile xs 50 = Some v" "computePercentile xs 90 = Some w" "hd xs \<le> v"
    using percentile_between [OF so ne, of 50] percentile_between [OF so ne, of 90] by auto
  then have "v \<le> w" using percentile_mono [OF so ne, of 50 90 v w] by simp
  then show ?thesis
    using vw h ne by (simp add: phase_ok_def phase_stats_of_def Let_def flip: xs_def)
qed

lemma summarize_ok: "filed (\<lambda>_ d. 0 \<le> d) values \<Longrightarrow> stats_ok (summarize values)"
  by (auto simp: stats_ok_def filed_def summarize_def list_all_iff comp_def case_prod_beta
      intro!: phase_stats_of_ok)

lemma rate_bounds: "0 \<le> rate P xs" "rate P xs \<le> 1"
  by (simp_all add: rate_def divide_le_eq)

lemma rate_zero: "rate P xs = 0 \<longleftrightarrow> filter P xs = []"
  by (auto simp: rate_def filter_empty_conv)

lemma stats_of_group_ok:
  "stats_ok (sg_acquisitionPhases (stats_of_group since until ss))"
  "stats_ok (sg_resetPhases (stats_of_group since until ss))"
  "sg_reuseHitRate (stats_of_group since until ss) \<in> {0..1}"
  "sg_fallbackRate (stats_of_group since until ss) \<in> {0..1}"
  by (simp_all add: stats_of_group_def Let_def summarize_ok filed_collect rate_bounds)

lemma sum_list_positive: "sum_list (map f (filter (\<lambda>x. 0 < f x \<or> P x) xs)) = (sum_list (map f xs) :: nat)"
  by (induction xs) auto

lemma length_concat_groups:
  "length (f (concat yss)) = sum_list (map (\<lambda>ys. length (f ys)) yss)"
  if "f [] = []" "\<And>xs ys. f (xs @ ys) = f xs @ f ys"
  using that by (induction yss) simp_all

lemma acquisitionsIn_append:
  "acquisitionsIn since until (xs @ ys) = acquisitionsIn since until xs @ acquisitionsIn since until ys"
  "acquisitionsIn since until [] = []"
  by (simp_all add: acquisitionsIn_def)

lemma mset_acquisitions_sum:
  "mset (acquisitionsIn since until xs) =
   \<Sum>\<^sub># (image_mset (\<lambda>s. mset (acquisitionsIn since until [s])) (mset xs))"
  by (induction xs) (simp_all add: acquisitionsIn_def)

lemma mset_acquisitionsIn:
  "mset xs = mset ys \<Longrightarrow> mset (acquisitionsIn since until xs) = mset (acquisitionsIn since until ys)"
  by (metis mset_acquisitions_sum)

lemma aggregate_total:
  "sum_list (map sg_acquisitions (aggregateBrokerTimings samples since until)) =
   length (acquisitionsIn since until samples)"
proof -
  let ?g = "\<lambda>ss. stats_of_group since until ss" and ?gs = "group_samples samples"
  have "sum_list (map sg_acquisitions (aggregateBrokerTimings samples since until)) =
    sum_list (map (\<lambda>e. sg_acquisitions (?g (snd e))) ?gs)"
    unfolding aggregateBrokerTimings_def
    by (subst sum_list_positive) (simp add: case_prod_beta comp_def)
  also have "\<dots> = sum_list (map (\<lambda>ss. length (acquisitionsIn since until ss)) (map snd ?gs))"
    by (simp add: stats_of_group_def Let_def comp_def)
  also have "\<dots> = length (acquisitionsIn since until (concat (map snd ?gs)))"
    by (rule length_concat_groups [symmetric]) (rule acquisitionsIn_append)+
  also have "\<dots> = length (acquisitionsIn since until samples)"
    using mset_acquisitionsIn [OF mset_group_samples] mset_eq_length by blast
  finally show ?thesis .
qed

lemma distinct_groups:
  "distinct (map (\<lambda>g. profileJson (sg_profile g)) (aggregateBrokerTimings samples since until))"
proof -
  let ?gs = "group_samples samples"
  have f: "filed (\<lambda>k s. k = profileJson (fst s)) ?gs" by (rule filed_group_samples)
  have "profileJson (sg_profile (stats_of_group since until (snd e))) = fst e" if "e \<in> set ?gs" for e
  proof -
    have "snd e \<noteq> []" "list_all (\<lambda>s. fst e = profileJson (fst s)) (snd e)"
      using f that by (auto simp: filed_def)
    then show ?thesis
      by (cases "snd e") (simp_all add: stats_of_group_def Let_def)
  qed
  then have "map (\<lambda>g. profileJson (sg_profile g)) (map (\<lambda>(_, ss). stats_of_group since until ss) ?gs) =
    map fst ?gs"
    by (auto simp: case_prod_beta)
  then have "distinct (map (\<lambda>g. profileJson (sg_profile g)) (map (\<lambda>(_, ss). stats_of_group since until ss) ?gs))"
    using f unfolding filed_def by metis
  then show ?thesis
    unfolding aggregateBrokerTimings_def by (rule distinct_map_filter)
qed

section \<open>Properties\<close>

definition group_ok :: "stats_group \<Rightarrow> bool" where
  "group_ok g \<longleftrightarrow> stats_ok (sg_acquisitionPhases g) \<and> stats_ok (sg_resetPhases g) \<and>
     0 \<le> sg_reuseHitRate g \<and> sg_reuseHitRate g \<le> 1 \<and> 0 \<le> sg_fallbackRate g \<and> sg_fallbackRate g \<le> 1"

lemma aggregate_ok: "g \<in> set (aggregateBrokerTimings samples since until) \<Longrightarrow> group_ok g"
  using stats_of_group_ok by (auto simp: aggregateBrokerTimings_def group_ok_def)

text \<open>The receipts with a timing in a window, as the store selects them, and whether one parses.\<close>

definition storedTimings :: "broker_db \<Rightarrow> int \<Rightarrow> int \<Rightarrow> request_row list" where
  "storedTimings db since until =
     filter (\<lambda>r. (case rq_timing_at r of None \<Rightarrow> False | Some t \<Rightarrow> since \<le> t \<and> t \<le> until) \<and>
       rq_timing r \<noteq> None \<and> rq_timing_profile r \<noteq> None) (requests db)"

definition readable :: "request_row \<Rightarrow> bool" where
  "readable r \<longleftrightarrow> (\<exists>t p. requestReceipt r = Some (t, Some p))"

lemma length_parsed:
  fixes parse :: "'a \<Rightarrow> 'b list"
  assumes "\<And>r. length (parse r) \<le> 1"
  shows "length (concat (map parse rs)) \<le> length rs"
proof (induction rs)
  case (Cons r rs)
  then show ?case using assms [of r] by simp
qed simp

lemma length_all_parsed:
  fixes parse :: "'a \<Rightarrow> 'b list"
  shows "\<forall>r\<in>set rs. length (parse r) = 1 \<Longrightarrow> length (concat (map parse rs)) = length rs"
  by (induction rs) simp_all

lemma timingSamples_length:
  "length (timingSamples db since until m) \<le> length (storedTimings db since until)"
  "list_all readable (storedTimings db since until) \<Longrightarrow>
     length (timingSamples db since until m) = min m (length (storedTimings db since until))"
proof -
  let ?parse = "\<lambda>r. case requestReceipt r of Some (t, Some p) \<Rightarrow> [(p, t)] | _ \<Rightarrow> []"
  let ?rows = "take m (sort_key (\<lambda>r. (- the (rq_timing_at r), rq_id r)) (storedTimings db since until))"
  have samples: "timingSamples db since until m = concat (map ?parse ?rows)"
    by (simp add: timingSamples_def storedTimings_def)
  have "length (?parse r) \<le> 1" for r by (simp split: option.split)
  then have "length (concat (map ?parse ?rows)) \<le> length ?rows" by (rule length_parsed)
  then show "length (timingSamples db since until m) \<le> length (storedTimings db since until)"
    unfolding samples by simp
  assume "list_all readable (storedTimings db since until)"
  then have "\<forall>r\<in>set ?rows. length (?parse r) = 1"
    by (fastforce simp: list_all_iff readable_def dest: in_set_takeD)
  then have "length (concat (map ?parse ?rows)) = length ?rows"
    by (rule length_all_parsed)
  then show "length (timingSamples db since until m) = min m (length (storedTimings db since until))"
    unfolding samples by simp
qed

text \<open>
  C28: The timing statistics the broker reports are real: the window and the limit were valid and at most
  limit samples are summarised; the truncation flag says exactly whether the store returned more than
  limit samples, so it is set only when more receipts of the window are stored, and whenever more are
  stored and all of them parse (the store drops receipts it cannot parse after it has applied its
  limit, so with damaged ones the flag may stay unset); every ready acquisition of the samples is counted
  in exactly one profile group, the groups have distinct profiles, both rates lie between 0 and 1, and
  every reported phase has at least one duration and percentiles that are numbers with 0 <= p50 <= p90.
\<close>

theorem timing_stats_sound:
  assumes "readBrokerTimingStats (timingSamples db) now windowMs limit = Inr s"
  shows "\<exists>n since samples. limit = Some (of_nat n) \<and> 1 \<le> n \<and> n \<le> 10000 \<and>
    0 \<le> the windowMs \<and> the windowMs \<le> RECEIPT_RETENTION_MS \<and> since = of_int now - the windowMs \<and>
    samples = timingSamples db \<lceil>since\<rceil> now (n + 1) \<and>
    (bs_truncated s \<longleftrightarrow> n < length samples) \<and>
    (bs_truncated s \<longrightarrow> n < length (storedTimings db \<lceil>since\<rceil> now)) \<and>
    (list_all readable (storedTimings db \<lceil>since\<rceil> now) \<longrightarrow>
       (bs_truncated s \<longleftrightarrow> n < length (storedTimings db \<lceil>since\<rceil> now))) \<and>
    sum_list (map sg_acquisitions (bs_groups s)) = length (acquisitionsIn since now (take n samples)) \<and>
    distinct (map (\<lambda>g. profileJson (sg_profile g)) (bs_groups s)) \<and>
    list_all group_ok (bs_groups s)"
proof -
  have ok: "stats_arguments_ok windowMs limit" using assms by (auto simp: readBrokerTimingStats_def split: if_splits)
  then obtain l where l: "limit = Some l" "of_int \<lfloor>l\<rfloor> = l" "1 \<le> l" "l \<le> 10000"
    by (auto simp: stats_arguments_ok_def isInteger_def split: option.splits)
  then obtain z where z: "l = of_int z" by metis
  with l have f: "1 \<le> z" "z \<le> 10000" by simp_all
  then have n: "limit = Some (of_nat (nat \<lfloor>l\<rfloor>))" "1 \<le> nat \<lfloor>l\<rfloor>" "nat \<lfloor>l\<rfloor> \<le> 10000"
    using l(1) z by simp_all
  let ?since = "of_int now - the windowMs"
  let ?samples = "timingSamples db \<lceil>?since\<rceil> now (nat \<lfloor>l\<rfloor> + 1)"
  have s: "0 \<le> the windowMs" "the windowMs \<le> RECEIPT_RETENTION_MS" "bs_truncated s \<longleftrightarrow> nat \<lfloor>l\<rfloor> < length ?samples"
    "bs_groups s = aggregateBrokerTimings (take (nat \<lfloor>l\<rfloor>) ?samples) ?since now"
    using assms ok l(1) by (auto simp: readBrokerTimingStats_def stats_arguments_ok_def Let_def)
  have more: "bs_truncated s \<longrightarrow> nat \<lfloor>l\<rfloor> < length (storedTimings db \<lceil>?since\<rceil> now)"
    using s(3) timingSamples_length(1) by (meson less_le_trans)
  have exact: "list_all readable (storedTimings db \<lceil>?since\<rceil> now) \<longrightarrow>
     (bs_truncated s \<longleftrightarrow> nat \<lfloor>l\<rfloor> < length (storedTimings db \<lceil>?since\<rceil> now))"
    using s(3) timingSamples_length(2) [of db "\<lceil>?since\<rceil>" now "nat \<lfloor>l\<rfloor> + 1"] by auto
  show ?thesis
    using n s more exact aggregate_total distinct_groups aggregate_ok
    by (intro exI [of _ "nat \<lfloor>l\<rfloor>"] exI [of _ ?since] exI [of _ ?samples]) (simp add: list_all_iff)
qed

definition demo_receipt :: "string \<Rightarrow> admission_kind \<Rightarrow> rat \<Rightarrow> request_row" where
  "demo_receipt k kind d = (fresh_request k ''f'' JNull \<lparr>pi_daemonId = ''d'', pi_pid = 1, pi_token = Token ''t''\<rparr> Released)
     \<lparr>rq_timing := Some \<lparr>ti_acquisition = Some \<lparr>aq_admission = kind, aq_reuseCount = 0, aq_outcome = AqReady,
        aq_startedAtMs = 10, aq_completedAtMs = Some 20, aq_queueMs = 0, aq_admissionWaitMs = 0, aq_createMs = None,
        aq_bootMs = None, aq_automationReadyMs = None, aq_totalMs = d\<rparr>, ti_reset = None\<rparr>,
      rq_timing_profile := Some (profileJson (PWatch \<lparr>wp_runtime = ''r'', wp_deviceType = ''w''\<rparr>)),
      rq_timing_at := Some 20\<rparr>"

definition demo_receipts :: broker_db where
  "demo_receipts = \<lparr>scopes = [], assignments = [], journal = [], journal_seq = 0,
     requests = [demo_receipt ''q1'' AReuse 3, demo_receipt ''q2'' ACreate 7],
     resources = [], resource_seq = 0, exports = []\<rparr>"

definition demo_stats :: broker_stats where
  "demo_stats = (case readBrokerTimingStats (timingSamples demo_receipts) 50 (Some 100) (Some 5) of Inr s \<Rightarrow> s)"

theorem timing_stats_sound_witness:
  "sum_list (map sg_acquisitions (bs_groups demo_stats)) = 2 \<and>
   map sg_reuseHitRate (bs_groups demo_stats) = [1 / 2] \<and>
   map (\<lambda>g. map_option ps_p50 (map_of (sg_acquisitionPhases g) ''totalMs'')) (bs_groups demo_stats) =
     [Some (Some 5)] \<and>
   \<not> bs_truncated demo_stats \<and> list_all group_ok (bs_groups demo_stats)"
proof -
  have "readBrokerTimingStats (timingSamples demo_receipts) 50 (Some 100) (Some 5) = Inr demo_stats" by code_simp
  from timing_stats_sound [OF this] have "list_all group_ok (bs_groups demo_stats)" by blast
  moreover have "sum_list (map sg_acquisitions (bs_groups demo_stats)) = 2" by code_simp
  moreover have "map sg_reuseHitRate (bs_groups demo_stats) = [1 / 2]" by code_simp
  moreover have "map (\<lambda>g. map_option ps_p50 (map_of (sg_acquisitionPhases g) ''totalMs'')) (bs_groups demo_stats) =
     [Some (Some 5)]" by code_simp
  moreover have "\<not> bs_truncated demo_stats" by code_simp
  ultimately show ?thesis by blast
qed

end
