(* ===== verification/ResetReadiness.thy ===== *)
theory ResetReadiness
  imports TimingStats AdmissionTheorems
begin

text \<open>
  Waiting for a simulator whose reset is under way (src/src/daemon/sessionBroker/resetReadiness.ts).

  \<^item> \<open>readiness\<close> is the in-memory state of \<open>ResetReadiness\<close>: the resets that run and who waits for
    which resource. The estimate of \<open>readSnapshot\<close> is taken from one state of the store and one
    reading of the clock.
  \<^item> While \<open>continueAfterWait\<close> is suspended the rest of the daemon runs: \<open>pause\<close> says what the world
    (store, clock, readiness, abort signal) looks like when the timer, a notification or the abort
    signal ends a wait of at most the given length. \<open>Some e\<close> is the error of an aborted wait.
\<close>

section \<open>State\<close>

record readiness =
  rd_active :: "string set"
  rd_waiters :: "(string \<times> string) list"

definition setResetActive :: "string \<Rightarrow> bool \<Rightarrow> readiness \<Rightarrow> readiness" where
  "setResetActive k active rd =
     (if active then rd\<lparr>rd_active := insert k (rd_active rd)\<rparr>
      else rd\<lparr>rd_active := rd_active rd - {k}\<rparr>)"

definition releaseWait :: "string \<Rightarrow> readiness \<Rightarrow> readiness" where
  "releaseWait q rd = rd\<lparr>rd_waiters := filter (\<lambda>e. fst e \<noteq> q) (rd_waiters rd)\<rparr>"

definition reserveWait :: "string \<Rightarrow> string \<Rightarrow> readiness \<Rightarrow> readiness" where
  "reserveWait q k rd = rd\<lparr>rd_waiters := filter (\<lambda>e. fst e \<noteq> q) (rd_waiters rd) @ [(q, k)]\<rparr>"

definition canWait :: "readiness \<Rightarrow> string \<Rightarrow> bool" where
  "canWait rd k \<longleftrightarrow> k \<in> rd_active rd \<and> \<not> List.member (map snd (rd_waiters rd)) k"

section \<open>Estimates\<close>

definition successfulTimingSample :: "timing_sample \<Rightarrow> timing_sample" where
  "successfulTimingSample s = (fst s,
     \<lparr>ti_acquisition = (case ti_acquisition (snd s) of None \<Rightarrow> None
        | Some a \<Rightarrow> if aq_admission a = AReuse then None else Some a),
      ti_reset = (case ti_reset (snd s) of None \<Rightarrow> None
        | Some r \<Rightarrow> if rt_outcome r = OClean \<or> isFallback (rt_outcome r) then Some r else None)\<rparr>)"

definition phase_p50 :: "(string \<times> phase_stats) list \<Rightarrow> string \<Rightarrow> rat option" where
  "phase_p50 ps k = Option.bind (map_of ps k) ps_p50"

definition phase_p90 :: "(string \<times> phase_stats) list \<Rightarrow> string \<Rightarrow> rat option" where
  "phase_p90 ps k = Option.bind (map_of ps k) ps_p90"

definition orZero :: "rat option \<Rightarrow> rat" where
  "orZero v = (case v of None \<Rightarrow> 0 | Some x \<Rightarrow> x)"

definition coldCreateMs :: "stats_group \<Rightarrow> rat \<Rightarrow> rat" where
  "coldCreateMs g createAndBootMs =
     max (createAndBootMs + orZero (phase_p50 (sg_acquisitionPhases g) ''automationReadyMs''))
         (orZero (phase_p50 (sg_acquisitionPhases g) ''totalMs''))"

definition phaseEstimate :: "stats_group option \<Rightarrow> (rat \<times> rat) option" where
  "phaseEstimate g0 =
     Option.bind g0 (\<lambda>g.
     case (phase_p90 (sg_resetPhases g) ''totalMs'', phase_p50 (sg_acquisitionPhases g) ''createMs'',
           phase_p50 (sg_acquisitionPhases g) ''bootMs'') of
       (Some resetMs, Some createMs, Some bootMs) \<Rightarrow>
         if createMs + bootMs \<le> 0 then None else Some (resetMs, coldCreateMs g (createMs + bootMs))
     | _ \<Rightarrow> None)"

definition remainingMs :: "broker_db \<Rightarrow> int \<Rightarrow> resource_row \<Rightarrow> rat \<Rightarrow> rat option" where
  "remainingMs db now r resetMs =
     (case Option.bind (if truthy (rs_request r) then readRequest db (the (rs_request r)) else None)
             (\<lambda>q. Option.bind (receiptTiming q) ti_reset) of
        None \<Rightarrow> None
      | Some reset \<Rightarrow>
          if rt_outcome reset \<noteq> OPending then None
          else let remaining = resetMs - ms (now - rt_startedAtMs reset) in
               if remaining < 0 then None else Some remaining)"

definition isAndroid :: "native_profile \<Rightarrow> bool" where
  "isAndroid p = (case p of PAndroid _ \<Rightarrow> True | _ \<Rightarrow> False)"

text \<open>
  The filter of \<open>readSnapshot\<close>: an error of the profile match or of the profile itself is thrown.
  A survivor is kept with its profile.
\<close>

fun waitCandidates ::
  "readiness \<Rightarrow> (json \<Rightarrow> bool res) \<Rightarrow> resource_row list \<Rightarrow> (resource_row \<times> native_profile) list res" where
  "waitCandidates rd matches [] = Inr []"
| "waitCandidates rd matches (r # rs) =
     (if rs_state r \<noteq> Resetting \<or> \<not> canWait rd (rs_id r) then waitCandidates rd matches rs
      else rbind (matches (rs_profile r)) (\<lambda>m.
        if \<not> m then waitCandidates rd matches rs
        else rbind (nativeProfile (rs_profile r)) (\<lambda>p.
          rbind (waitCandidates rd matches rs) (\<lambda>more.
          Inr (if isAndroid p then more else (r, p) # more)))))"

definition groupOf :: "broker_stats \<Rightarrow> native_profile \<Rightarrow> stats_group option" where
  "groupOf stats p = List.find (\<lambda>g. profileJson (sg_profile g) = profileJson p) (bs_groups stats)"

definition estimateOf ::
  "broker_db \<Rightarrow> int \<Rightarrow> broker_stats \<Rightarrow> resource_row \<times> native_profile \<Rightarrow> (string \<times> rat \<times> rat) option" where
  "estimateOf db now stats c =
     Option.bind (phaseEstimate (groupOf stats (snd c))) (\<lambda>(resetMs, thresholdMs).
     map_option (\<lambda>remaining. (rs_id (fst c), remaining, thresholdMs))
       (remainingMs db now (fst c) resetMs))"

definition readSnapshot ::
  "broker_db \<Rightarrow> int \<Rightarrow> readiness \<Rightarrow> (json \<Rightarrow> bool res) \<Rightarrow> reset_readiness option res" where
  "readSnapshot db now rd matches =
     rbind (waitCandidates rd matches (listLiveResources db)) (\<lambda>candidates.
     if candidates = [] then Inr None
     else rbind (readBrokerTimingStats
            (\<lambda>since until limit. map successfulTimingSample (timingSamples db since until limit))
            now (Some (24 * 60 * 60 * 1000)) (Some 5000)) (\<lambda>stats.
       case List.map_filter (estimateOf db now stats) candidates of
         [] \<Rightarrow> Inr None
       | e # es \<Rightarrow> Inr (Some
           \<lparr>ri_thresholdMs = fold (\<lambda>(_, _, t) least. min least t) es (snd (snd e)),
            ri_expectedReadyMs = map_of (map (\<lambda>(k, remaining, _). (k, remaining)) (rev (e # es))),
            ri_canWait = canWait rd\<rparr>)))"

text \<open>\<open>snapshot\<close>: an estimate that cannot be made is no reason to refuse an admission.\<close>

definition snapshot ::
  "broker_db \<Rightarrow> int \<Rightarrow> readiness \<Rightarrow> (json \<Rightarrow> bool res) \<Rightarrow> reset_readiness option" where
  "snapshot db now rd matches = (case readSnapshot db now rd matches of Inl _ \<Rightarrow> None | Inr s \<Rightarrow> s)"

section \<open>Waiting\<close>

record world =
  wd_db :: broker_db
  wd_now :: int
  wd_readiness :: readiness
  wd_aborted :: "err option"

type_synonym pause = "rat \<Rightarrow> world \<Rightarrow> err option \<times> world"

definition resetRuns :: "world \<Rightarrow> string \<Rightarrow> bool" where
  "resetRuns w k \<longleftrightarrow>
     (case getResource (wd_db w) k of None \<Rightarrow> False | Some r \<Rightarrow> rs_state r = Resetting) \<and>
     k \<in> rd_active (wd_readiness w)"

definition wait :: "pause \<Rightarrow> string \<Rightarrow> rat \<Rightarrow> world \<Rightarrow> err option \<times> world" where
  "wait pause k waitMs w = (if resetRuns w k then pause waitMs w else (None, w))"

definition DEFAULT_PROVISION_DEVICE_TIMEOUT_MS :: rat where
  "DEFAULT_PROVISION_DEVICE_TIMEOUT_MS = 8 * 60 * 1000"

definition deadlineOf :: "admission_input \<Rightarrow> rat option \<Rightarrow> world \<Rightarrow> rat" where
  "deadlineOf inp timeout w =
     ms (case ai_startedAtMs inp of Some s \<Rightarrow> s | None \<Rightarrow> wd_now w) +
     (case timeout of Some t \<Rightarrow> t | None \<Rightarrow> DEFAULT_PROVISION_DEVICE_TIMEOUT_MS)"

definition cappedWait :: "rat \<Rightarrow> rat \<Rightarrow> world \<Rightarrow> rat" where
  "cappedWait waitMs deadline w = max 0 (min waitMs (deadline - ms (wd_now w)))"

definition waitForReset ::
  "pause \<Rightarrow> admission_input \<Rightarrow> string \<Rightarrow> rat \<Rightarrow> rat \<Rightarrow> world \<Rightarrow> err option \<times> world" where
  "waitForReset pause inp k waitMs deadline w =
     (let extension = (case ai_readiness inp of None \<Rightarrow> 0 | Some i \<Rightarrow> ri_thresholdMs i);
          (e1, w1) = wait pause k (cappedWait waitMs deadline w) w in
      if e1 \<noteq> None then (e1, w1)
      else if 0 < extension \<and> resetRuns w1 k \<and> ms (wd_now w1) < deadline
      then wait pause k (cappedWait extension deadline w1) w1
      else (None, w1))"

definition deadlineFailure :: err where
  "deadlineFailure = FailureError ''session_preparation_failed''
     ''Session preparation deadline expired waiting for a resetting simulator'' True"

definition continueAfterWait ::
  "string cmp \<Rightarrow> string \<Rightarrow> string \<Rightarrow> pause \<Rightarrow> broker_admission \<Rightarrow> admission_input \<Rightarrow> rat option \<Rightarrow> world \<Rightarrow>
   (broker_admission \<times> rat option) res \<times> world" where
  "continueAfterWait lc newId scope pause admission inp timeout w =
     (case admission of
        BWait q k waitMs \<Rightarrow>
          let deadline = deadlineOf inp timeout w;
              (e, w1) = waitForReset pause inp k waitMs deadline w;
              w2 = w1\<lparr>wd_readiness := releaseWait (ai_requestId inp) (wd_readiness w1)\<rparr>;
              remaining = deadline - ms (wd_now w2) in
          if e \<noteq> None then (Inl (the e), w2)
          else if wd_aborted w2 \<noteq> None then (Inl (the (wd_aborted w2)), w2)
          else if remaining \<le> 0 then (Inl deadlineFailure, w2)
          else (case continueAdmission lc (wd_now w2) newId scope (inp\<lparr>ai_readiness := None\<rparr>) (wd_db w2) of
                  Inl e \<Rightarrow> (Inl e, w2)
                | Inr (a, db) \<Rightarrow> (Inr (a, Some remaining), w2\<lparr>wd_db := db\<rparr>))
      | _ \<Rightarrow> (Inr (admission, timeout), w))"

section \<open>One waiter per reset\<close>

text \<open>
  The steps of the in-memory state. A wait is reserved inside the admission transaction, when the
  decision taken from this very state is to wait.
\<close>

inductive readiness_step :: "readiness \<Rightarrow> readiness \<Rightarrow> bool" where
  active: "readiness_step rd (setResetActive k b rd)"
| release: "readiness_step rd (releaseWait q rd)"
| reserve: "\<lbrakk>comparator lc; ai_readiness inp = Some i; ri_canWait i = canWait rd;
    reserveDecision lc q inp db = Inr (DWait k waitMs)\<rbrakk> \<Longrightarrow> readiness_step rd (reserveWait q k rd)"

definition readiness_inv :: "readiness \<Rightarrow> bool" where
  "readiness_inv rd \<longleftrightarrow> distinct (map fst (rd_waiters rd)) \<and> distinct (map snd (rd_waiters rd))"

lemma expectedReady_canWait: "expectedReady (Some i) k = Some w \<Longrightarrow> ri_canWait i k"
  by (auto simp: expectedReady_def split: if_splits)

lemma compatibleView_readiness:
  "rmap (compatibleView inp) rs = Inr vs \<Longrightarrow> v \<in> set vs \<Longrightarrow>
     rv_expectedReadyMs v = expectedReady (ai_readiness inp) (rv_id v)"
  by (induction rs arbitrary: vs) (auto simp: compatibleView_def occupiedView_def)

lemma wait_decision_canWait:
  assumes "comparator lc" "ai_readiness inp = Some i" "reserveDecision lc q inp db = Inr (DWait k waitMs)"
  shows "ri_canWait i k"
proof -
  obtain vs v where "rmap (compatibleView inp) (readResources db True) = Inr vs" "v \<in> set vs"
    "rv_id v = k" "rv_expectedReadyMs v = Some waitMs"
    using decision_sound [OF assms(1,3)] by auto
  then show ?thesis
    using compatibleView_readiness assms(2) by (metis expectedReady_canWait)
qed

lemma readiness_inv_step:
  assumes "readiness_inv rd" "readiness_step rd rd'"
  shows "readiness_inv rd'"
  using assms(2)
proof cases
  case (reserve lc inp i q db k waitMs)
  then have "canWait rd k" using wait_decision_canWait by metis
  then show ?thesis
    using reserve(1) assms(1) by (auto simp: readiness_inv_def reserveWait_def canWait_def distinct_map_filter)
qed (use assms(1) in \<open>auto simp: readiness_inv_def setResetActive_def releaseWait_def distinct_map_filter\<close>)

interpretation readiness_runs:
  invariant_system "\<lparr>rd_active = {}, rd_waiters = []\<rparr>" readiness_step readiness_inv
proof unfold_locales
  show "readiness_inv \<lparr>rd_active = {}, rd_waiters = []\<rparr>" by (simp add: readiness_inv_def)
qed (rule readiness_inv_step)

section \<open>What an estimate promises\<close>

lemma waitCandidates_sound:
  "waitCandidates rd matches rs = Inr cs \<Longrightarrow> (r, p) \<in> set cs \<Longrightarrow>
     r \<in> set rs \<and> rs_state r = Resetting \<and> canWait rd (rs_id r) \<and> matches (rs_profile r) = Inr True \<and>
     nativeProfile (rs_profile r) = Inr p \<and> \<not> isAndroid p"
  by (induction rs arbitrary: cs) (auto split: if_splits)

lemma remainingMs_bounds: "remainingMs db now r resetMs = Some d \<Longrightarrow> 0 \<le> d"
  by (auto simp: remainingMs_def Let_def split: option.splits if_splits)

lemma phaseEstimate_positive:
  assumes "phaseEstimate (Some g) = Some (resetMs, thresholdMs)" and "stats_ok (sg_acquisitionPhases g)"
  shows "0 < thresholdMs"
proof -
  have nonneg: "0 \<le> orZero (phase_p50 (sg_acquisitionPhases g) k)" for k
    using assms(2)
    by (auto simp: orZero_def phase_p50_def stats_ok_def list_all_iff phase_ok_def bind_eq_Some_conv
        dest!: map_of_SomeD split: option.splits)
  show ?thesis
    using assms(1) nonneg [of "''automationReadyMs''"]
    by (auto simp: phaseEstimate_def coldCreateMs_def split: option.splits if_splits)
qed

lemma fold_min_least:
  fixes x :: rat
  shows "fold (\<lambda>(_, _, t) least. min least t) es x \<le> x \<and>
    (\<forall>(k, d, t) \<in> set es. fold (\<lambda>(_, _, t) least. min least t) es x \<le> t)"
  by (induction es arbitrary: x) (force simp: min_le_iff_disj)+

lemma fold_min_positive:
  fixes x :: rat
  shows "0 < x \<Longrightarrow> (\<forall>(k, d, t) \<in> set es. 0 < t) \<Longrightarrow> 0 < fold (\<lambda>(_, _, t) least. min least t) es x"
  by (induction es arbitrary: x) auto

section \<open>Waiting respects the deadline\<close>

lemma wait_clock:
  assumes "\<And>d v. wd_now v \<le> wd_now (snd (pause d v))"
  shows "wd_now w \<le> wd_now (snd (wait pause k d w))"
  using assms by (simp add: wait_def)

lemma waitForReset_clock:
  assumes "\<And>d v. wd_now v \<le> wd_now (snd (pause d v))"
  shows "wd_now w \<le> wd_now (snd (waitForReset pause inp k d deadline w))"
proof -
  obtain e1 w1 where w1: "wait pause k (cappedWait d deadline w) w = (e1, w1)" by (metis surj_pair)
  have "wd_now w \<le> wd_now w1"
    using wait_clock [of pause w k "cappedWait d deadline w", OF assms] by (simp add: w1)
  moreover have "wd_now w1 \<le> wd_now (snd (wait pause k x w1))" for x
    by (rule wait_clock) (rule assms)
  ultimately show ?thesis
    by (auto simp: waitForReset_def Let_def w1 intro: order_trans)
qed

text \<open>What the rest of the host may have done to the database while a request waited.\<close>

definition paused :: "pause \<Rightarrow> broker_db \<Rightarrow> broker_db \<Rightarrow> bool" where
  "paused pause db db' \<longleftrightarrow> (\<exists>d v. db = wd_db v \<and> db' = wd_db (snd (pause d v)))"

lemma wait_paused: "(paused pause)\<^sup>*\<^sup>* (wd_db w) (wd_db (snd (wait pause k d w)))"
proof -
  have "paused pause (wd_db w) (wd_db (snd (pause d w)))" unfolding paused_def by blast
  then show ?thesis by (auto simp: wait_def)
qed

lemma waitForReset_paused: "(paused pause)\<^sup>*\<^sup>* (wd_db w) (wd_db (snd (waitForReset pause inp k d deadline w)))"
proof -
  obtain e1 w1 where w1: "wait pause k (cappedWait d deadline w) w = (e1, w1)" by (metis surj_pair)
  have "(paused pause)\<^sup>*\<^sup>* (wd_db w) (wd_db w1)"
    using wait_paused [of pause w k "cappedWait d deadline w"] by (simp add: w1)
  then show ?thesis
    using wait_paused [of pause w1] by (auto simp: waitForReset_def Let_def w1 intro: rtranclp_trans)
qed

definition budgetOf :: "rat option \<Rightarrow> rat" where
  "budgetOf timeout = (case timeout of Some t \<Rightarrow> t | None \<Rightarrow> DEFAULT_PROVISION_DEVICE_TIMEOUT_MS)"

lemma deadlineOf_budget:
  assumes "\<And>s. ai_startedAtMs inp = Some s \<Longrightarrow> s \<le> wd_now w"
  shows "deadlineOf inp timeout w - ms (wd_now w) \<le> budgetOf timeout"
  using assms by (auto simp: deadlineOf_def budgetOf_def ms_def split: option.splits)

section \<open>Properties\<close>

text \<open>
  In every reachable state of the readiness bookkeeping a resetting simulator has at most one
  waiting request: the wait that an admission reserves was offered by canWait in the same state, and
  every later admission sees the resource taken until the waiter lets go.
\<close>

theorem one_waiter_per_reset:
  assumes "readiness_step\<^sup>*\<^sup>* \<lparr>rd_active = {}, rd_waiters = []\<rparr> rd"
    and "(q1, k) \<in> set (rd_waiters rd)" and "(q2, k) \<in> set (rd_waiters rd)"
  shows "q1 = q2"
proof -
  have "distinct (map snd (rd_waiters rd))"
    using readiness_runs.inv_reachable [OF assms(1)] by (simp add: readiness_inv_def)
  then show ?thesis
    using assms(2,3) unfolding distinct_map by (metis inj_onD prod.inject snd_conv)
qed

definition demo_readiness :: readiness where
  "demo_readiness = setResetActive ''r1'' True \<lparr>rd_active = {}, rd_waiters = []\<rparr>"

definition demo_wait_input :: admission_input where
  "demo_wait_input = (demo_input ''q2'')\<lparr>ai_readiness :=
     Some \<lparr>ri_thresholdMs = 1000, ri_expectedReadyMs = (\<lambda>k. if k = ''r1'' then Some 500 else None),
           ri_canWait = canWait demo_readiness\<rparr>\<rparr>"

lemma demo_wait_decision:
  "reserveDecision plain_compare ''q2'' demo_wait_input demo7 = Inr (DWait ''r1'' 500)"
  by code_simp

lemma demo_readiness_reach:
  "readiness_step\<^sup>*\<^sup>* \<lparr>rd_active = {}, rd_waiters = []\<rparr> (reserveWait ''q2'' ''r1'' demo_readiness)"
proof -
  have "readiness_step \<lparr>rd_active = {}, rd_waiters = []\<rparr> demo_readiness"
    unfolding demo_readiness_def by (rule readiness_step.active)
  moreover have "readiness_step demo_readiness (reserveWait ''q2'' ''r1'' demo_readiness)"
    by (rule readiness_step.reserve [OF _ _ _ demo_wait_decision])
       (simp add: plain_compare_def demo_wait_input_def key.comparator_axioms)+
  ultimately show ?thesis by auto
qed

theorem one_waiter_per_reset_witness:
  "(''q2'', ''r1'') \<in> set (rd_waiters (reserveWait ''q2'' ''r1'' demo_readiness)) \<and>
   {q. (q, ''r1'') \<in> set (rd_waiters (reserveWait ''q2'' ''r1'' demo_readiness))} = {''q2''}"
proof -
  have m: "(''q2'', ''r1'') \<in> set (rd_waiters (reserveWait ''q2'' ''r1'' demo_readiness))"
    by (simp add: reserveWait_def)
  show ?thesis using m one_waiter_per_reset [OF demo_readiness_reach _ m] by blast
qed

text \<open>
  C27: A request that waited for a resetting simulator never outlives its preparation budget: under a
  clock that does not go back, the admission it continues with carries exactly the time left before the
  deadline, which is positive and no more than the budget it started with; every path, errors and
  aborts included, gives the wait reservation up. It writes to the store in one way only, by a continued
  admission that succeeds: on every error the database has changed by nothing but what the rest of the
  host did during the waits (\<open>paused\<close>), and on success by that and then by the continued admission.
\<close>

theorem continueAfterWait_deadline:
  assumes run: "continueAfterWait lc newId scope pause (BWait q k waitMs) inp timeout w = (res, w')"
    and clock: "\<And>d v. wd_now v \<le> wd_now (snd (pause d v))"
    and started: "\<And>s. ai_startedAtMs inp = Some s \<Longrightarrow> s \<le> wd_now w"
  shows "ai_requestId inp \<notin> fst ` set (rd_waiters (wd_readiness w')) \<and>
    (\<forall>x. res = Inl x \<longrightarrow> (paused pause)\<^sup>*\<^sup>* (wd_db w) (wd_db w')) \<and>
    (\<forall>a left. res = Inr (a, left) \<longrightarrow>
      (\<exists>t db. left = Some t \<and> 0 < t \<and> t \<le> budgetOf timeout \<and> t = deadlineOf inp timeout w - ms (wd_now w') \<and>
        (paused pause)\<^sup>*\<^sup>* (wd_db w) db \<and>
        continueAdmission lc (wd_now w') newId scope (inp\<lparr>ai_readiness := None\<rparr>) db = Inr (a, wd_db w')))"
proof -
  define D where "D = deadlineOf inp timeout w"
  obtain e w1 where wr: "waitForReset pause inp k waitMs D w = (e, w1)" by (metis surj_pair)
  have "wd_now w \<le> wd_now (snd (waitForReset pause inp k waitMs D w))"
    by (rule waitForReset_clock) (rule clock)
  then have c: "wd_now w \<le> wd_now w1" by (simp add: wr)
  have p: "(paused pause)\<^sup>*\<^sup>* (wd_db w) (wd_db w1)"
    using waitForReset_paused [of pause w inp k waitMs D] by (simp add: wr)
  have b: "D - ms (wd_now w) \<le> budgetOf timeout"
    unfolding D_def by (rule deadlineOf_budget) (rule started)
  note r = run [unfolded continueAfterWait_def broker_admission.case Let_def D_def [symmetric] wr prod.case]
  have gone: "ai_requestId inp \<notin> fst ` set (rd_waiters (wd_readiness w'))"
    using r by (auto simp: releaseWait_def split: if_splits sum.splits)
  have failed: "(paused pause)\<^sup>*\<^sup>* (wd_db w) (wd_db w')" if "res = Inl x" for x
    using that r p by (auto split: if_splits sum.splits)
  have "\<exists>t db. left = Some t \<and> 0 < t \<and> t \<le> budgetOf timeout \<and> t = deadlineOf inp timeout w - ms (wd_now w') \<and>
        (paused pause)\<^sup>*\<^sup>* (wd_db w) db \<and>
        continueAdmission lc (wd_now w') newId scope (inp\<lparr>ai_readiness := None\<rparr>) db = Inr (a, wd_db w')"
    if "res = Inr (a, left)" for a left
    using that r c b p by (auto simp: D_def [symmetric] ms_def split: if_splits sum.splits)
  then show ?thesis using gone failed by blast
qed

definition demo_pause :: pause where
  "demo_pause d w = (None, w\<lparr>wd_now := wd_now w + 400\<rparr>)"

definition demo_world :: world where
  "demo_world = \<lparr>wd_db = db_of (admit plain_compare 107 ''r9'' demo_scope demo_wait_input demo7),
     wd_now = 107, wd_readiness = reserveWait ''q2'' ''r1'' demo_readiness, wd_aborted = None\<rparr>"

definition demo_continued :: "(broker_admission \<times> rat option) res \<times> world" where
  "demo_continued = continueAfterWait plain_compare ''r2'' demo_scope demo_pause
     (BWait (the (readRequest (wd_db demo_world) ''q2'')) ''r1'' 500) demo_wait_input (Some 5000) demo_world"

definition left_of :: "(broker_admission \<times> rat option) res \<Rightarrow> rat option" where
  "left_of r = (case r of Inr (BCreate _ _, t) \<Rightarrow> t | _ \<Rightarrow> None)"

theorem continueAfterWait_deadline_witness:
  "left_of (fst demo_continued) = Some 4200 \<and>
   ''q2'' \<notin> fst ` set (rd_waiters (wd_readiness (snd demo_continued)))"
proof
  show "left_of (fst demo_continued) = Some 4200" by code_simp
  have id: "ai_requestId demo_wait_input = ''q2''"
    by (simp add: demo_wait_input_def demo_input_def)
  show "''q2'' \<notin> fst ` set (rd_waiters (wd_readiness (snd demo_continued)))"
    unfolding id [symmetric] demo_continued_def
    by (rule continueAfterWait_deadline [OF prod.collapse [symmetric], THEN conjunct1])
       (simp_all add: demo_pause_def demo_wait_input_def demo_input_def demo_world_def)
qed

end
