(* ===== verification/DeviceClaims.thy ===== *)
theory DeviceClaims
  imports Prelude
begin

text \<open>
  The host-wide table of device claims (src/src/daemon/sessionBroker/registry/sqliteDeviceClaims.ts)
  and how a daemon takes a claim in it (\<open>acquire\<close> of src/src/daemon/deviceClaims.ts).

  \<^item> A claim is its row: an optional field of \<open>DeviceClaim\<close> is a nullable column. The primary key is
    the pair of platform and device.
  \<^item> Every store operation is one statement or one write transaction. Between the read and the
    compare-and-set of an attempt other daemons run: \<open>others n\<close> is what they make of the table in the
    n-th attempt. \<open>different\<close> is the process-generation probe (the recorded token names another process
    than the PID's present one), \<open>live\<close> the caller's liveness judgement; it may throw.
\<close>

section \<open>The table\<close>

datatype claim_kind = Allocation | Forward | Slot

record device_claim =
  dc_platform :: string
  dc_deviceId :: string
  dc_kind :: claim_kind
  dc_daemonSessionId :: "string option"
  dc_pid :: int
  dc_ownerToken :: string
  dc_generationToken :: "string option"
  dc_sessionUuid :: "string option"
  dc_metadata :: "string option"
  dc_claimedAtMs :: int
  dc_updatedAtMs :: int

type_synonym claim_table = "device_claim list"
type_synonym claim_key = "string \<times> string"

definition claim_key :: "device_claim \<Rightarrow> claim_key" where
  "claim_key c = (dc_platform c, dc_deviceId c)"

definition sameClaimOwner :: "device_claim \<Rightarrow> device_claim \<Rightarrow> bool" where
  "sameClaimOwner c d \<longleftrightarrow> dc_pid c = dc_pid d \<and> dc_ownerToken c = dc_ownerToken d"

definition getClaim :: "claim_table \<Rightarrow> string \<Rightarrow> string \<Rightarrow> device_claim option" where
  "getClaim t platform device = get_row claim_key (platform, device) t"

text \<open>The conflict clause of the upsert: a later row is kept, the same owner keeps its claim time.\<close>

definition upsert_row :: "device_claim \<Rightarrow> device_claim \<Rightarrow> device_claim" where
  "upsert_row new old =
     (if dc_updatedAtMs old \<le> dc_updatedAtMs new
      then new\<lparr>dc_claimedAtMs := (if sameClaimOwner old new then dc_claimedAtMs old else dc_claimedAtMs new)\<rparr>
      else old)"

definition upsert :: "device_claim \<Rightarrow> claim_table \<Rightarrow> claim_table" where
  "upsert c t =
     (if get_row claim_key (claim_key c) t = None then t @ [c]
      else update_where (\<lambda>r. claim_key r = claim_key c) (upsert_row c) t)"

definition replaceIf :: "device_claim option \<Rightarrow> device_claim \<Rightarrow> claim_table \<Rightarrow> bool \<times> claim_table" where
  "replaceIf expected c t =
     (case expected of
        None \<Rightarrow> if get_row claim_key (claim_key c) t = None then (True, t @ [c]) else (False, t)
      | Some e \<Rightarrow>
          let hit = (\<lambda>r. claim_key r = claim_key c \<and> sameClaimOwner r e \<and>
                          dc_updatedAtMs r = dc_updatedAtMs e) in
          (list_ex hit t, update_where hit (\<lambda>_. c) t))"

definition release :: "string \<Rightarrow> string \<Rightarrow> int \<times> string \<Rightarrow> claim_table \<Rightarrow> claim_table" where
  "release platform device owner t =
     delete_where (\<lambda>r. dc_platform r = platform \<and> dc_deviceId r = device \<and>
       dc_pid r = fst owner \<and> dc_ownerToken r = snd owner) t"

definition releaseOwnedBy :: "int \<times> string \<Rightarrow> claim_table \<Rightarrow> claim_table" where
  "releaseOwnedBy owner t = delete_where (\<lambda>r. dc_pid r = fst owner \<and> dc_ownerToken r = snd owner) t"

definition listClaims :: "claim_table \<Rightarrow> device_claim list" where
  "listClaims t = sort_key claim_key t"

section \<open>Taking a claim\<close>

record mirror_owner =
  mo_pid :: int
  mo_ownerToken :: string
  mo_metadata :: "string option"

record mirror_options =
  op_platform :: string
  op_daemonSessionId :: "string option"
  op_generationOf :: "int \<Rightarrow> string option"
  op_different :: "int \<Rightarrow> string \<Rightarrow> bool"

datatype acquisition = Claimed | ClaimRefused int | ClaimUnavailable

definition claimRow :: "mirror_options \<Rightarrow> string \<Rightarrow> mirror_owner \<Rightarrow> int \<Rightarrow> int \<Rightarrow> device_claim" where
  "claimRow opts device owner claimedAt now =
     \<lparr>dc_platform = op_platform opts, dc_deviceId = device, dc_kind = Allocation,
      dc_daemonSessionId = op_daemonSessionId opts, dc_pid = mo_pid owner,
      dc_ownerToken = mo_ownerToken owner, dc_generationToken = op_generationOf opts (mo_pid owner),
      dc_sessionUuid = None, dc_metadata = mo_metadata owner, dc_claimedAtMs = claimedAt,
      dc_updatedAtMs = now\<rparr>"

definition isLiveOwner ::
  "mirror_options \<Rightarrow> (device_claim \<Rightarrow> bool res) \<Rightarrow> device_claim \<Rightarrow> bool res" where
  "isLiveOwner opts live row =
     (case dc_generationToken row of
        Some g \<Rightarrow> if op_different opts (dc_pid row) g then Inr False else live row
      | None \<Rightarrow> live row)"

definition ownedRow :: "mirror_owner \<Rightarrow> device_claim option \<Rightarrow> bool" where
  "ownedRow owner row =
     (case row of None \<Rightarrow> False
      | Some r \<Rightarrow> dc_pid r = mo_pid owner \<and> dc_ownerToken r = mo_ownerToken owner)"

text \<open>One judge-then-write; \<open>Inr None\<close> when the row changed meanwhile.\<close>

definition acquireOnce ::
  "mirror_options \<Rightarrow> (device_claim \<Rightarrow> bool res) \<Rightarrow> string \<Rightarrow> mirror_owner \<Rightarrow> int \<Rightarrow>
   (claim_table \<Rightarrow> claim_table) \<Rightarrow> claim_table \<Rightarrow> acquisition option res \<times> claim_table" where
  "acquireOnce opts live device owner now others t =
     (let row = getClaim t (op_platform opts) device;
          ours = ownedRow owner row in
      case (if row \<noteq> None \<and> \<not> ours then isLiveOwner opts live (the row) else Inr False) of
        Inl e \<Rightarrow> (Inl e, others t)
      | Inr True \<Rightarrow> (Inr (Some (ClaimRefused (dc_pid (the row)))), others t)
      | Inr False \<Rightarrow>
          let claimedAt = (if ours then dc_claimedAtMs (the row) else now);
              (written, t1) = replaceIf row (claimRow opts device owner claimedAt now) (others t) in
          (Inr (if written then Some Claimed else None), t1))"

definition ACQUIRE_ATTEMPTS :: nat where
  "ACQUIRE_ATTEMPTS = 3"

text \<open>The loop over attempts, numbered from \<open>n\<close>, and the answer when every attempt lost a race.\<close>

fun acquireLoop ::
  "mirror_options \<Rightarrow> (device_claim \<Rightarrow> bool res) \<Rightarrow> string \<Rightarrow> mirror_owner \<Rightarrow> (nat \<Rightarrow> int) \<Rightarrow>
   (nat \<Rightarrow> claim_table \<Rightarrow> claim_table) \<Rightarrow> nat \<Rightarrow> nat \<Rightarrow> claim_table \<Rightarrow> acquisition \<times> claim_table" where
  "acquireLoop opts live device owner clock others n 0 t =
     ((case getClaim t (op_platform opts) device of
         Some w \<Rightarrow> ClaimRefused (dc_pid w) | None \<Rightarrow> ClaimUnavailable), t)"
| "acquireLoop opts live device owner clock others n (Suc left) t =
     (case acquireOnce opts live device owner (clock n) (others n) t of
        (Inl e, t1) \<Rightarrow> (ClaimUnavailable, t1)
      | (Inr (Some decided), t1) \<Rightarrow> (decided, t1)
      | (Inr None, t1) \<Rightarrow> acquireLoop opts live device owner clock others (Suc n) left t1)"

text \<open>\<open>usable\<close>: a store is open and the mirror is neither skipped nor disposed.\<close>

definition acquire ::
  "bool \<Rightarrow> mirror_options \<Rightarrow> (device_claim \<Rightarrow> bool res) \<Rightarrow> string \<Rightarrow> mirror_owner \<Rightarrow> (nat \<Rightarrow> int) \<Rightarrow>
   (nat \<Rightarrow> claim_table \<Rightarrow> claim_table) \<Rightarrow> claim_table \<Rightarrow> acquisition \<times> claim_table" where
  "acquire usable opts live device owner clock others t =
     (if \<not> usable then (ClaimUnavailable, t)
      else acquireLoop opts live device owner clock others 0 ACQUIRE_ATTEMPTS t)"

section \<open>One claim per device\<close>

inductive claim_step :: "claim_table \<Rightarrow> claim_table \<Rightarrow> bool" where
  upsert: "claim_step t (upsert c t)"
| replaceIf: "claim_step t (snd (replaceIf e c t))"
| release: "claim_step t (release p d w t)"
| releaseOwnedBy: "claim_step t (releaseOwnedBy w t)"

definition one_claim :: "claim_table \<Rightarrow> bool" where
  "one_claim t \<longleftrightarrow> distinct (map claim_key t)"

lemma upsert_row_key: "claim_key old = claim_key new \<Longrightarrow> claim_key (upsert_row new old) = claim_key old"
  by (simp add: upsert_row_def claim_key_def)

lemma get_row_update_hit:
  assumes "get_row key k t = Some r" and "\<And>x. key x = k \<Longrightarrow> key (f x) = k"
  shows "get_row key k (update_where (\<lambda>x. key x = k) f t) = Some (f r)"
  using assms by (induction t) (auto simp: get_row_def update_where_def)

lemma map_key_update_hit:
  "(\<And>r. p r \<Longrightarrow> key (f r) = key r) \<Longrightarrow> map key (update_where p f t) = map key t"
  by (simp add: update_where_def)

lemma one_claim_step:
  assumes "one_claim t" and "claim_step t t'"
  shows "one_claim t'"
  using assms(2)
proof cases
  case (upsert c)
  have "map claim_key (update_where (\<lambda>r. claim_key r = claim_key c) (upsert_row c) t) = map claim_key t"
    by (rule map_key_update_hit) (rule upsert_row_key)
  then show ?thesis
    using assms(1) upsert by (auto simp: upsert_def one_claim_def get_row_None)
next
  case (replaceIf e c)
  have "map claim_key (update_where (\<lambda>r. claim_key r = claim_key c \<and> P r) (\<lambda>_. c) t) = map claim_key t" for P
    by (rule map_key_update_hit) simp
  then show ?thesis
    using assms(1) replaceIf
    by (auto simp: replaceIf_def one_claim_def get_row_None Let_def split: option.splits)
qed (use assms(1) in \<open>auto simp: one_claim_def release_def releaseOwnedBy_def intro: distinct_delete_where\<close>)

interpretation claim_runs: invariant_system "[]" claim_step one_claim
proof unfold_locales
  show "one_claim []" by (simp add: one_claim_def)
qed (rule one_claim_step)

section \<open>Compare and set\<close>

lemma getClaim_replaceIf:
  assumes one: "one_claim t" and run: "replaceIf expected c t = (True, t')"
  shows "getClaim t' (dc_platform c) (dc_deviceId c) = Some c"
    and "(p, d) \<noteq> claim_key c \<Longrightarrow> getClaim t' p d = getClaim t p d"
    and "case expected of None \<Rightarrow> getClaim t (dc_platform c) (dc_deviceId c) = None
      | Some e \<Rightarrow> \<exists>r. getClaim t (dc_platform c) (dc_deviceId c) = Some r \<and> sameClaimOwner r e \<and>
          dc_updatedAtMs r = dc_updatedAtMs e"
proof -
  have key: "(dc_platform c, dc_deviceId c) = claim_key c" by (simp add: claim_key_def)
  have goal: "getClaim t' (dc_platform c) (dc_deviceId c) = Some c \<and>
    (\<forall>p d. (p, d) \<noteq> claim_key c \<longrightarrow> getClaim t' p d = getClaim t p d) \<and>
    (case expected of None \<Rightarrow> getClaim t (dc_platform c) (dc_deviceId c) = None
      | Some e \<Rightarrow> \<exists>r. getClaim t (dc_platform c) (dc_deviceId c) = Some r \<and> sameClaimOwner r e \<and>
          dc_updatedAtMs r = dc_updatedAtMs e)"
  proof (cases expected)
    case None
    then have "get_row claim_key (claim_key c) t = None" "t' = t @ [c]"
      using run by (auto simp: replaceIf_def split: if_splits)
    then show ?thesis
      using None unfolding getClaim_def key by (auto simp: get_row_snoc split: option.splits)
  next
    case (Some e)
    then obtain r where r: "r \<in> set t" "claim_key r = claim_key c" "sameClaimOwner r e"
      "dc_updatedAtMs r = dc_updatedAtMs e"
      and t': "t' = update_where (\<lambda>r. claim_key r = claim_key c \<and> sameClaimOwner r e \<and>
        dc_updatedAtMs r = dc_updatedAtMs e) (\<lambda>_. c) t"
      using run by (auto simp: replaceIf_def Let_def list_ex_iff)
    have row: "get_row claim_key (claim_key c) t = Some r"
      using get_row_in_set [of claim_key t r] one r by (simp add: one_claim_def)
    have uniq: "x = r" if "x \<in> set t" "claim_key x = claim_key c" for x
    proof -
      have "get_row claim_key (claim_key x) t = Some x"
        using one that(1) unfolding one_claim_def by (rule get_row_in_set)
      then show ?thesis unfolding that(2) row by simp
    qed
    have "t' = update_where (\<lambda>x. claim_key x = claim_key c) (\<lambda>x. if claim_key x = claim_key c then c else x) t"
      unfolding t' update_where_def
    proof (rule map_cong [OF refl])
      fix x assume x: "x \<in> set t"
      show "(if claim_key x = claim_key c \<and> sameClaimOwner x e \<and> dc_updatedAtMs x = dc_updatedAtMs e then c else x) =
        (if claim_key x = claim_key c then if claim_key x = claim_key c then c else x else x)"
        using uniq [OF x] r(3,4) by (cases "claim_key x = claim_key c") simp_all
    qed
    then have upd: "get_row claim_key k t' = (if k = claim_key c then map_option (\<lambda>x. if claim_key x = claim_key c then c else x)
        (get_row claim_key k t) else get_row claim_key k t)" for k
      by (simp add: get_row_update_key)
    have "get_row claim_key (claim_key c) t' = Some c" using upd row r(2) by simp
    moreover have "get_row claim_key k t' = get_row claim_key k t" if "k \<noteq> claim_key c" for k
      using upd that by simp
    moreover have "\<exists>r. get_row claim_key (claim_key c) t = Some r \<and> sameClaimOwner r e \<and>
        dc_updatedAtMs r = dc_updatedAtMs e" using row r(3,4) by blast
    ultimately show ?thesis unfolding getClaim_def key Some option.case by blast
  qed
  then show "getClaim t' (dc_platform c) (dc_deviceId c) = Some c"
    "(p, d) \<noteq> claim_key c \<Longrightarrow> getClaim t' p d = getClaim t p d"
    "case expected of None \<Rightarrow> getClaim t (dc_platform c) (dc_deviceId c) = None
      | Some e \<Rightarrow> \<exists>r. getClaim t (dc_platform c) (dc_deviceId c) = Some r \<and> sameClaimOwner r e \<and>
          dc_updatedAtMs r = dc_updatedAtMs e" by blast+
qed

lemma replaceIf_False:
  "replaceIf expected c t = (False, t') \<Longrightarrow> t' = t"
  by (auto simp: replaceIf_def Let_def list_ex_iff update_where_def intro!: map_idI split: option.splits if_splits)

section \<open>The race for a claim\<close>

text \<open>The table as the other daemons alone make it, after \<open>m\<close> attempts that wrote nothing.\<close>

primrec raced :: "(nat \<Rightarrow> claim_table \<Rightarrow> claim_table) \<Rightarrow> nat \<Rightarrow> claim_table \<Rightarrow> claim_table" where
  "raced others 0 t = t"
| "raced others (Suc m) t = others m (raced others m t)"

text \<open>
  What a won attempt means: \<open>judged\<close> is the table it read, \<open>before\<close> the one it wrote to, \<open>after\<close> the
  result.
\<close>

definition won ::
  "mirror_options \<Rightarrow> (device_claim \<Rightarrow> bool res) \<Rightarrow> string \<Rightarrow> mirror_owner \<Rightarrow> claim_table \<Rightarrow>
   claim_table \<Rightarrow> claim_table \<Rightarrow> bool" where
  "won opts live device owner judged before after \<longleftrightarrow>
     ownedRow owner (getClaim after (op_platform opts) device) \<and>
     (\<forall>p d. (p, d) \<noteq> (op_platform opts, device) \<longrightarrow> getClaim after p d = getClaim before p d) \<and>
     (case getClaim judged (op_platform opts) device of
        None \<Rightarrow> getClaim before (op_platform opts) device = None
      | Some e \<Rightarrow>
          (ownedRow owner (Some e) \<or> isLiveOwner opts live e = Inr False) \<and>
          (\<exists>r. getClaim before (op_platform opts) device = Some r \<and> sameClaimOwner r e \<and>
             dc_updatedAtMs r = dc_updatedAtMs e))"

lemma acquireOnce_won:
  assumes "one_claim (others t)"
    and run: "acquireOnce opts live device owner now others t = (Inr (Some Claimed), t')"
  shows "won opts live device owner t (others t) t'"
proof -
  let ?row = "getClaim t (op_platform opts) device"
  obtain since where "replaceIf ?row (claimRow opts device owner since now) (others t) = (True, t')"
    and j: "?row = None \<or> ownedRow owner ?row \<or> isLiveOwner opts live (the ?row) = Inr False"
    using run by (auto simp: acquireOnce_def Let_def split: sum.splits bool.splits prod.splits if_splits)
  note c = getClaim_replaceIf [OF assms(1) this(1)]
  have k: "dc_platform (claimRow opts device owner since now) = op_platform opts"
    "dc_deviceId (claimRow opts device owner since now) = device"
    "claim_key (claimRow opts device owner since now) = (op_platform opts, device)"
    by (simp_all add: claimRow_def claim_key_def)
  show ?thesis
    using c j unfolding won_def k
    by (auto simp: ownedRow_def claimRow_def split: option.splits)
qed

lemma acquireOnce_lost:
  assumes "acquireOnce opts live device owner now others t = (r, t')" and "r \<noteq> Inr (Some Claimed)"
  shows "t' = others t \<and> (\<forall>p. r = Inr (Some (ClaimRefused p)) \<longrightarrow>
    (\<exists>e. getClaim t (op_platform opts) device = Some e \<and> dc_pid e = p \<and> \<not> ownedRow owner (Some e) \<and>
       isLiveOwner opts live e = Inr True)) \<and> r \<noteq> Inr (Some ClaimUnavailable)"
  using assms
  by (auto simp: acquireOnce_def Let_def dest: replaceIf_False split: sum.splits bool.splits prod.splits if_splits)

lemma acquireLoop_raced:
  assumes "\<And>n t. one_claim t \<Longrightarrow> one_claim (others n t)"
  shows "acquireLoop opts live device owner clock others n left (raced others n t) = (res, t') \<Longrightarrow> one_claim t \<Longrightarrow>
    (\<exists>m. m \<le> n + left \<and> (if res = Claimed
       then m < n + left \<and> won opts live device owner (raced others m t) (others m (raced others m t)) t'
       else t' = raced others m t))"
proof (induction left arbitrary: n)
  case 0
  then show ?case by (intro exI [of _ n]) (auto split: option.splits)
next
  case (Suc left)
  have one: "one_claim (raced others n t)" for n
    by (induction n) (simp_all add: Suc.prems(2) assms)
  obtain r t1 where a: "acquireOnce opts live device owner (clock n) (others n) (raced others n t) = (r, t1)"
    by (metis surj_pair)
  show ?case
  proof (cases "r = Inr (Some Claimed)")
    case True
    then have "res = Claimed" "t' = t1" using Suc.prems(1) a by auto
    then show ?thesis
      using acquireOnce_won [OF _ a [unfolded True]] assms one by (intro exI [of _ n]) auto
  next
    case False
    note lost = acquireOnce_lost [OF a False]
    show ?thesis
    proof (cases "r = Inr None")
      case True
      then have "acquireLoop opts live device owner clock others (Suc n) left (raced others (Suc n) t) = (res, t')"
        using Suc.prems(1) a lost by simp
      from Suc.IH [OF this Suc.prems(2)] show ?thesis by (simp only: add_Suc_right add_Suc)
    next
      case other: False
      then have "res \<noteq> Claimed" "t' = raced others (Suc n) t"
        using Suc.prems(1) a lost False by (auto split: sum.splits option.splits)
      then show ?thesis by (intro exI [of _ "Suc n"]) auto
    qed
  qed
qed

section \<open>Properties\<close>

text \<open>
  C33: A daemon that takes a device in the host-wide table has really taken it, whatever other daemons
  do between its read and its write in any of its three attempts: when acquire answers claimed, the
  table names this owner for the device, no other device's row was touched, and the row it replaced was
  absent, its own, or a row whose owner it had judged dead and that still had the process id, the token
  and the time stamp of the row it judged (two writes by one owner in the same millisecond are not told
  apart); when it answers anything else it wrote nothing at all. The table holds one row per device, and
  other daemons keep it so.
\<close>

theorem acquire_is_exclusive:
  assumes "\<And>n t. one_claim t \<Longrightarrow> one_claim (others n t)" and "one_claim t"
    and run: "acquire usable opts live device owner clock others t = (res, t')"
  shows "if res = Claimed
    then \<exists>m<ACQUIRE_ATTEMPTS.
      won opts live device owner (raced others m t) (others m (raced others m t)) t'
    else \<exists>m\<le>ACQUIRE_ATTEMPTS. t' = raced others m t"
proof (cases usable)
  case True
  then have "acquireLoop opts live device owner clock others 0 ACQUIRE_ATTEMPTS (raced others 0 t) = (res, t')"
    using run by (simp add: acquire_def)
  from acquireLoop_raced [OF assms(1) this assms(2)] show ?thesis by auto
next
  case False
  then show ?thesis using run by (auto simp: acquire_def intro!: exI [of _ 0])
qed

definition demo_options :: mirror_options where
  "demo_options = \<lparr>op_platform = ''android'', op_daemonSessionId = None, op_generationOf = (\<lambda>_. None),
     op_different = (\<lambda>_ _. False)\<rparr>"

definition demo_owner :: "int \<Rightarrow> mirror_owner" where
  "demo_owner p = \<lparr>mo_pid = p, mo_ownerToken = ''t'', mo_metadata = None\<rparr>"

text \<open>Another daemon takes the free device first; it dies before the second attempt judges it.\<close>

definition demo_others :: "nat \<Rightarrow> claim_table \<Rightarrow> claim_table" where
  "demo_others n t = (if n = 0 then upsert (claimRow demo_options ''e1'' (demo_owner 8) 5 5) t else t)"

theorem acquire_is_exclusive_witness:
  "fst (acquire True demo_options (\<lambda>_. Inr False) ''e1'' (demo_owner 7) (\<lambda>n. 10) demo_others []) = Claimed \<and>
   (\<exists>m<ACQUIRE_ATTEMPTS. won demo_options (\<lambda>_. Inr False) ''e1'' (demo_owner 7) (raced demo_others m [])
      (demo_others m (raced demo_others m []))
      (snd (acquire True demo_options (\<lambda>_. Inr False) ''e1'' (demo_owner 7) (\<lambda>n. 10) demo_others [])))"
proof -
  let ?a = "acquire True demo_options (\<lambda>_. Inr False) ''e1'' (demo_owner 7) (\<lambda>n. 10) demo_others []"
  have c: "fst ?a = Claimed" by code_simp
  have o: "one_claim (demo_others n t)" if "one_claim t" for n t
    using one_claim_step [OF that claim_step.upsert] that by (simp add: demo_others_def)
  have e: "one_claim []" by (simp add: one_claim_def)
  have "?a = (Claimed, snd ?a)" using c by (metis prod.collapse)
  from acquire_is_exclusive [OF o e this] c show ?thesis by simp
qed

text \<open>
  The host-wide table never holds two claims on one device, whatever sequence of writes, compare-and-set
  writes and releases the daemons run; and a delayed write never replaces a later one: after an upsert the
  device's row is the new one, or an old one with a strictly larger time stamp that is kept as it was.
\<close>

theorem one_claim_per_device:
  assumes "claim_step\<^sup>*\<^sup>* [] t"
  shows "(\<forall>c\<in>set t. \<forall>d\<in>set t. claim_key c = claim_key d \<longrightarrow> c = d) \<and>
    (\<exists>r. getClaim (upsert n t) (dc_platform n) (dc_deviceId n) = Some r \<and>
      dc_updatedAtMs n \<le> dc_updatedAtMs r \<and>
      (sameClaimOwner r n \<and> dc_updatedAtMs r = dc_updatedAtMs n \<or>
       dc_updatedAtMs n < dc_updatedAtMs r \<and> getClaim t (dc_platform n) (dc_deviceId n) = Some r))"
proof -
  have one: "distinct (map claim_key t)"
    using claim_runs.inv_reachable [OF assms] by (simp add: one_claim_def)
  then have uniq: "\<forall>c\<in>set t. \<forall>d\<in>set t. claim_key c = claim_key d \<longrightarrow> c = d"
    by (metis distinct_map inj_onD)
  have key: "(dc_platform n, dc_deviceId n) = claim_key n" by (simp add: claim_key_def)
  have "\<exists>r. getClaim (upsert n t) (dc_platform n) (dc_deviceId n) = Some r \<and>
      dc_updatedAtMs n \<le> dc_updatedAtMs r \<and>
      (sameClaimOwner r n \<and> dc_updatedAtMs r = dc_updatedAtMs n \<or>
       dc_updatedAtMs n < dc_updatedAtMs r \<and> getClaim t (dc_platform n) (dc_deviceId n) = Some r)"
  proof (cases "get_row claim_key (claim_key n) t")
    case None
    then show ?thesis
      unfolding getClaim_def key by (simp add: upsert_def get_row_snoc sameClaimOwner_def)
  next
    case (Some r)
    have "get_row claim_key (claim_key n) (upsert n t) = Some (upsert_row n r)"
      using get_row_update_hit [OF Some, of "upsert_row n"] upsert_row_key [of _ n] Some
      by (simp add: upsert_def)
    then show ?thesis
      unfolding getClaim_def key Some by (auto simp: upsert_row_def sameClaimOwner_def)
  qed
  then show ?thesis using uniq by blast
qed

theorem one_claim_per_device_witness:
  "\<exists>r. getClaim (upsert (claimRow demo_options ''e1'' (demo_owner 7) 4 4)
        (upsert (claimRow demo_options ''e1'' (demo_owner 8) 5 5) [])) ''android'' ''e1'' = Some r \<and>
     4 < dc_updatedAtMs r \<and> dc_pid r = 8"
proof -
  let ?n = "claimRow demo_options ''e1'' (demo_owner 7) 4 4"
  let ?t = "upsert (claimRow demo_options ''e1'' (demo_owner 8) 5 5) []"
  have "claim_step\<^sup>*\<^sup>* [] ?t" using claim_step.upsert by blast
  from one_claim_per_device [OF this, of ?n]
  obtain r where r: "getClaim (upsert ?n ?t) ''android'' ''e1'' = Some r" "4 \<le> dc_updatedAtMs r"
    by (auto simp: claimRow_def demo_options_def)
  have "map_option dc_pid (getClaim (upsert ?n ?t) ''android'' ''e1'') = Some 8"
    "map_option dc_updatedAtMs (getClaim (upsert ?n ?t) ''android'' ''e1'') = Some 5" by code_simp+
  then show ?thesis using r by auto
qed

end
