(* ===== verification/ResetBootQueue.thy ===== *)
theory ResetBootQueue
  imports Prelude
begin

text \<open>
  The gate on concurrent reset boots (src/src/daemon/sessionBroker/resetBootQueue.ts).

  A call of \<open>run\<close> is named by an identifier. The code between two awaits is atomic, so a call makes
  at most three steps: it enters (takes a slot or queues), a queued call may be cancelled by its abort
  signal, and a call that has a slot gives it back when its operation, the abort check or the
  \<open>onAdmitted\<close> callback ends. A queued call that was given a slot before its cancellation was noticed
  gives the slot back too. \<open>bq_holders\<close> records which calls the counter counts; the code keeps only
  the counter. \<open>None\<close> is the unlimited gate.
\<close>

record boot_queue =
  bq_active :: int
  bq_pending :: "nat list"
  bq_holders :: "nat list"

definition full :: "nat option \<Rightarrow> boot_queue \<Rightarrow> bool" where
  "full limit q = (case limit of None \<Rightarrow> False | Some n \<Rightarrow> int n \<le> bq_active q)"

text \<open>The closure \<open>start\<close> of a queued call, and the direct entry.\<close>

definition start :: "nat \<Rightarrow> boot_queue \<Rightarrow> boot_queue" where
  "start i q = q\<lparr>bq_active := bq_active q + 1, bq_holders := bq_holders q @ [i]\<rparr>"

definition enter :: "nat option \<Rightarrow> nat \<Rightarrow> boot_queue \<Rightarrow> boot_queue" where
  "enter limit i q = (if full limit q then q\<lparr>bq_pending := bq_pending q @ [i]\<rparr> else start i q)"

definition releaseSlot :: "nat \<Rightarrow> boot_queue \<Rightarrow> boot_queue" where
  "releaseSlot i q =
     (let q1 = q\<lparr>bq_active := bq_active q - 1, bq_holders := remove1 i (bq_holders q)\<rparr> in
      case bq_pending q1 of
        [] \<Rightarrow> q1
      | j # js \<Rightarrow> start j (q1\<lparr>bq_pending := js\<rparr>))"

definition cancelWait :: "nat \<Rightarrow> boot_queue \<Rightarrow> boot_queue" where
  "cancelWait i q =
     (if List.member (bq_pending q) i then q\<lparr>bq_pending := remove1 i (bq_pending q)\<rparr>
      else releaseSlot i q)"

inductive queue_step :: "nat option \<Rightarrow> boot_queue \<Rightarrow> boot_queue \<Rightarrow> bool" for limit where
  enter: "i \<notin> set (bq_pending q) \<Longrightarrow> i \<notin> set (bq_holders q) \<Longrightarrow> queue_step limit q (enter limit i q)"
| cancel: "i \<in> set (bq_pending q) \<or> i \<in> set (bq_holders q) \<Longrightarrow> queue_step limit q (cancelWait i q)"
| finish: "i \<in> set (bq_holders q) \<Longrightarrow> queue_step limit q (releaseSlot i q)"

definition empty_queue :: boot_queue where
  "empty_queue = \<lparr>bq_active = 0, bq_pending = [], bq_holders = []\<rparr>"

definition queue_inv :: "nat option \<Rightarrow> boot_queue \<Rightarrow> bool" where
  "queue_inv limit q \<longleftrightarrow> bq_active q = int (length (bq_holders q)) \<and>
     distinct (bq_pending q @ bq_holders q) \<and>
     (case limit of None \<Rightarrow> bq_pending q = []
      | Some n \<Rightarrow> length (bq_holders q) \<le> n \<and> (bq_pending q \<noteq> [] \<longrightarrow> length (bq_holders q) = n))"

lemma length_remove1_mem: "i \<in> set xs \<Longrightarrow> Suc (length (remove1 i xs)) = length xs"
  by (induction xs) auto

lemma releaseSlot_inv:
  assumes "queue_inv limit q" and "i \<in> set (bq_holders q)"
  shows "queue_inv limit (releaseSlot i q)"
  using assms length_remove1_mem [OF assms(2)] set_remove1_subset [of i "bq_holders q"]
  by (cases "bq_pending q"; cases limit) (auto simp: queue_inv_def releaseSlot_def start_def Let_def)

lemma queue_inv_step:
  assumes "queue_inv limit q" and "queue_step limit q q'"
  shows "queue_inv limit q'"
  using assms(2)
proof cases
  case (cancel i)
  show ?thesis
  proof (cases "i \<in> set (bq_pending q)")
    case True
    then have "queue_inv limit (q\<lparr>bq_pending := remove1 i (bq_pending q)\<rparr>)"
      using assms(1) set_remove1_subset [of i "bq_pending q"]
      by (cases limit) (auto simp: queue_inv_def)
    then show ?thesis using True cancel by (simp add: cancelWait_def)
  next
    case False
    then show ?thesis using cancel releaseSlot_inv [OF assms(1)] by (simp add: cancelWait_def)
  qed
next
  case (enter i)
  then show ?thesis
    using assms(1) by (cases limit) (auto simp: queue_inv_def enter_def full_def start_def)
qed (use releaseSlot_inv [OF assms(1)] in simp)

interpretation queue_runs: invariant_system empty_queue "queue_step limit" "queue_inv limit" for limit
proof unfold_locales
  show "queue_inv limit empty_queue" by (cases limit) (simp_all add: queue_inv_def empty_queue_def)
qed (rule queue_inv_step)

section \<open>Properties\<close>

text \<open>
  C34: At every moment the number of reset boots that run is the counter and never exceeds the limit; no
  call waits while a slot is free; and a slot given back while calls wait goes at once to the one that
  queued first, the others keeping their order.
\<close>

theorem boot_slots_bounded:
  assumes "(queue_step (Some n))\<^sup>*\<^sup>* empty_queue q"
  shows "bq_active q = int (length (bq_holders q)) \<and> length (bq_holders q) \<le> n \<and>
    (bq_pending q \<noteq> [] \<longrightarrow> length (bq_holders q) = n) \<and>
    (\<forall>i j js. i \<in> set (bq_holders q) \<and> bq_pending q = j # js \<longrightarrow>
       j \<in> set (bq_holders (releaseSlot i q)) \<and> bq_pending (releaseSlot i q) = js \<and>
       bq_active (releaseSlot i q) = bq_active q)"
  using queue_runs.inv_reachable [OF assms]
  by (auto simp: queue_inv_def releaseSlot_def start_def Let_def)

theorem boot_slots_bounded_witness:
  "bq_pending (enter (Some 1) 5 (enter (Some 1) 4 empty_queue)) = [5] \<and>
   bq_active (enter (Some 1) 5 (enter (Some 1) 4 empty_queue)) = 1 \<and>
   5 \<in> set (bq_holders (releaseSlot 4 (enter (Some 1) 5 (enter (Some 1) 4 empty_queue))))"
proof -
  let ?q1 = "enter (Some 1) 4 empty_queue" and ?q2 = "enter (Some 1) 5 (enter (Some 1) 4 empty_queue)"
  have h: "bq_holders ?q1 = [4]" "bq_pending ?q1 = []" "bq_holders ?q2 = [4]" "bq_pending ?q2 = [5]"
    by (simp_all add: enter_def full_def empty_queue_def start_def)
  have "queue_step (Some 1) empty_queue ?q1"
    by (rule queue_step.enter) (simp_all add: empty_queue_def)
  moreover have "queue_step (Some 1) ?q1 ?q2"
    by (rule queue_step.enter) (simp_all add: h [simplified])
  ultimately have "(queue_step (Some 1))\<^sup>*\<^sup>* empty_queue ?q2" by auto
  from boot_slots_bounded [OF this] h show ?thesis by simp
qed

end
