(* ===== verification/MutationJournal.thy ===== *)
theory MutationJournal
  imports Json
begin

text \<open>
  The journal of device mutations a session makes and its revert
  (src/src/daemon/sessionBroker/mutations: types.ts, sqliteJournal.ts, baseline.ts, revertPlanner.ts,
  reset.ts, recorder.ts, recordingGaps.ts).

  \<^item> A column of JSON text holds the value itself. \<open>isDeepStrictEqual\<close> compares values up to the
    order of object entries, which is equality of their sorted forms.
  \<^item> The two tables are lists in insertion order; the sequence column is AUTOINCREMENT. Conflicts and
    check constraints are checked where SQLite checks them.
  \<^item> The device is a parameter: \<open>capture\<close> reads an inventory, \<open>revert\<close> undoes one mutation, both may
    throw; \<open>owned\<close> is the ownership check (an abort, a timeout or a lost lease is its error).
\<close>

section \<open>Data\<close>

datatype mutation_value = VAbsent | VPresent json | VUnobservable

record incarnation_scope =
  ms_deviceId :: string
  ms_incarnation :: string

record mutation_scope = incarnation_scope +
  ms_sessionUuid :: string

record mutation_input =
  mi_kind :: string
  mi_key :: string
  mi_prior :: mutation_value
  mi_tool :: string

record mutation_entry = mutation_input +
  me_sequence :: int
  me_appliedAt :: int

record observation =
  ob_kind :: string
  ob_key :: string
  ob_value :: mutation_value

record baseline =
  bl_complete :: "string list"
  bl_observations :: "observation list"
  bl_unobservable :: "string list"
  bl_reasons :: "(string \<times> string) list option"

definition DEVICE_MUTATION_KINDS :: "string list" where
  "DEVICE_MUTATION_KINDS =
     [''installed-app'', ''app-group'', ''keychain'', ''permission'', ''device-setting'', ''keep-awake'',
      ''rotation'', ''screen-reader'', ''clipboard'', ''location'', ''status-bar'', ''notification'',
      ''media'', ''contact'', ''calendar'', ''keyboard'', ''clock'', ''network-condition'',
      ''biometric-enrollment'', ''profile'', ''certificate'', ''opened-url'', ''preference'',
      ''shared-file'', ''account'']"

definition deepEqual :: "mutation_value \<Rightarrow> mutation_value \<Rightarrow> bool" where
  "deepEqual v w =
     (case (v, w) of
        (VPresent a, VPresent b) \<Rightarrow> sortValue a = sortValue b
      | _ \<Rightarrow> v = w)"

definition assertDeviceMutationScope :: "('x) incarnation_scope_scheme \<Rightarrow> string option \<Rightarrow> unit res" where
  "assertDeviceMutationScope scope session =
     ensure (\<not> blank (ms_deviceId scope) \<and> \<not> blank (ms_incarnation scope) \<and>
             (case session of None \<Rightarrow> True | Some u \<Rightarrow> \<not> blank u))
       (ActionableError ''Device mutation journal requires a durable, non-empty identity'')"

definition FALLBACK_OPAQUE_KEY_PREFIX :: string where
  "FALLBACK_OPAQUE_KEY_PREFIX = ''fallback:''"

definition opaqueForcesFallback :: "('x) mutation_input_scheme \<Rightarrow> bool" where
  "opaqueForcesFallback e \<longleftrightarrow> mi_kind e = ''opaque'' \<and> startsWith (mi_key e) FALLBACK_OPAQUE_KEY_PREFIX"

section \<open>The journal's tables\<close>

record mutation_row =
  mr_sequence :: int
  mr_session :: string
  mr_device :: string
  mr_incarnation :: string
  mr_kind :: string
  mr_key :: string
  mr_prior :: mutation_value
  mr_appliedAt :: int
  mr_tool :: string

record baseline_row =
  br_device :: string
  br_incarnation :: string
  br_baseline :: baseline
  br_capturedAt :: int

record mutation_db =
  md_rows :: "mutation_row list"
  md_seq :: int
  md_baselines :: "baseline_row list"

definition row_identity :: "mutation_row \<Rightarrow> string \<times> string \<times> string \<times> string \<times> string" where
  "row_identity r = (mr_session r, mr_device r, mr_incarnation r, mr_kind r, mr_key r)"

definition sql_blank :: "string \<Rightarrow> bool" where
  "sql_blank s \<longleftrightarrow> list_all (\<lambda>c. c = CHR '' '') s"

definition recordMutation ::
  "int \<Rightarrow> mutation_scope \<Rightarrow> ('x) mutation_input_scheme \<Rightarrow> mutation_db \<Rightarrow> mutation_db res" where
  "recordMutation now scope m db =
     rbind (assertDeviceMutationScope scope (Some (ms_sessionUuid scope))) (\<lambda>_.
     let row = \<lparr>mr_sequence = md_seq db + 1, mr_session = ms_sessionUuid scope,
           mr_device = ms_deviceId scope, mr_incarnation = ms_incarnation scope, mr_kind = mi_kind m,
           mr_key = mi_key m, mr_prior = mi_prior m, mr_appliedAt = now, mr_tool = mi_tool m\<rparr> in
     if sql_blank (mi_kind m) \<or> sql_blank (mi_key m) \<or> sql_blank (mi_tool m)
     then Inl (ConstraintError ''device_mutation_scope_nonempty'')
     else if list_ex (\<lambda>r. row_identity r = row_identity row) (md_rows db) then Inr db
     else Inr (db\<lparr>md_rows := md_rows db @ [row], md_seq := md_seq db + 1\<rparr>))"

definition entryOfRow :: "mutation_row \<Rightarrow> mutation_entry" where
  "entryOfRow r = \<lparr>mi_kind = mr_kind r, mi_key = mr_key r, mi_prior = mr_prior r, mi_tool = mr_tool r,
     me_sequence = mr_sequence r, me_appliedAt = mr_appliedAt r\<rparr>"

definition listIncarnations :: "bool \<Rightarrow> mutation_scope \<Rightarrow> mutation_db \<Rightarrow> mutation_entry list res" where
  "listIncarnations same scope db =
     rbind (assertDeviceMutationScope scope (Some (ms_sessionUuid scope))) (\<lambda>_.
     Inr (map entryOfRow (sort_key mr_sequence
       (filter (\<lambda>r. mr_session r = ms_sessionUuid scope \<and> mr_device r = ms_deviceId scope \<and>
          (mr_incarnation r = ms_incarnation scope) = same) (md_rows db)))))"

definition listMutations :: "mutation_scope \<Rightarrow> mutation_db \<Rightarrow> mutation_entry list res" where
  "listMutations = listIncarnations True"

definition listStrayIncarnations :: "mutation_scope \<Rightarrow> mutation_db \<Rightarrow> mutation_entry list res" where
  "listStrayIncarnations = listIncarnations False"

definition deleteSession :: "mutation_scope \<Rightarrow> mutation_db \<Rightarrow> mutation_db res" where
  "deleteSession scope db =
     rbind (assertDeviceMutationScope scope (Some (ms_sessionUuid scope))) (\<lambda>_.
     Inr (db\<lparr>md_rows := delete_where (\<lambda>r. mr_session r = ms_sessionUuid scope \<and>
       mr_device r = ms_deviceId scope \<and> mr_incarnation r = ms_incarnation scope) (md_rows db)\<rparr>))"

definition baselineValid :: "baseline \<Rightarrow> bool" where
  "baselineValid b \<longleftrightarrow> [] \<notin> set (bl_complete b) \<and> [] \<notin> set (bl_unobservable b) \<and>
     list_all (\<lambda>o'. ob_kind o' \<noteq> [] \<and> ob_key o' \<noteq> []) (bl_observations b)"

definition captureBaseline ::
  "int \<Rightarrow> ('x) incarnation_scope_scheme \<Rightarrow> baseline \<Rightarrow> mutation_db \<Rightarrow> mutation_db res" where
  "captureBaseline now scope b db =
     rbind (assertDeviceMutationScope scope None) (\<lambda>_.
     rbind (ensure (baselineValid b) (TypeError ''deviceBaselineSchema'')) (\<lambda>_.
     Inr (if list_ex (\<lambda>r. br_device r = ms_deviceId scope \<and> br_incarnation r = ms_incarnation scope)
               (md_baselines db) then db
          else db\<lparr>md_baselines := md_baselines db @ [\<lparr>br_device = ms_deviceId scope,
                 br_incarnation = ms_incarnation scope, br_baseline = b, br_capturedAt = now\<rparr>]\<rparr>)))"

definition getBaseline :: "('x) incarnation_scope_scheme \<Rightarrow> mutation_db \<Rightarrow> baseline option res" where
  "getBaseline scope db =
     rbind (assertDeviceMutationScope scope None) (\<lambda>_.
     case List.find (\<lambda>r. br_device r = ms_deviceId scope \<and> br_incarnation r = ms_incarnation scope)
            (md_baselines db) of
       None \<Rightarrow> Inr None
     | Some r \<Rightarrow> if baselineValid (br_baseline r) then Inr (Some (br_baseline r))
                 else Inl (TypeError ''deviceBaselineSchema''))"

text \<open>\<open>first\<close> is \<open>json_extract(incarnation, '$[0]')\<close> on valid JSON text, \<open>None\<close> otherwise.\<close>

definition deleteResource ::
  "(string \<Rightarrow> string option) \<Rightarrow> string \<Rightarrow> mutation_db \<Rightarrow> mutation_db res" where
  "deleteResource first resourceId db =
     rbind (assertDeviceMutationScope \<lparr>ms_deviceId = resourceId, ms_incarnation = resourceId\<rparr> None) (\<lambda>_.
     let hit = (\<lambda>i. i = resourceId \<or> first i = Some resourceId) in
     Inr (db\<lparr>md_rows := delete_where (\<lambda>r. hit (mr_incarnation r)) (md_rows db),
             md_baselines := delete_where (\<lambda>r. hit (br_incarnation r)) (md_baselines db)\<rparr>))"

section \<open>Comparing a snapshot with the baseline\<close>

record baseline_change =
  ch_kind :: string
  ch_key :: string
  ch_prior :: mutation_value
  ch_current :: mutation_value
  ch_journaled :: bool

record baseline_diff =
  df_changes :: "baseline_change list"
  df_dirty :: "string list"

type_synonym observation_key = "string \<times> string"

definition observationKey :: "observation \<Rightarrow> observation_key" where
  "observationKey o' = (ob_kind o', ob_key o')"

definition valueOf :: "observation option \<Rightarrow> mutation_value" where
  "valueOf o' = (case o' of None \<Rightarrow> VAbsent | Some x \<Rightarrow> ob_value x)"

definition observationChange ::
  "observation option \<Rightarrow> observation option \<Rightarrow> bool \<Rightarrow> baseline_change option" where
  "observationChange before after journaled =
     (case (case before of None \<Rightarrow> after | Some b \<Rightarrow> Some b) of
        None \<Rightarrow> None
      | Some x \<Rightarrow>
          if deepEqual (valueOf before) (valueOf after) then None
          else Some \<lparr>ch_kind = ob_kind x, ch_key = ob_key x, ch_prior = valueOf before,
                     ch_current = valueOf after, ch_journaled = journaled\<rparr>)"

text \<open>\<open>new Map\<close> of keyed observations: the last observation of a key wins.\<close>

definition observationMap :: "baseline \<Rightarrow> observation_key \<Rightarrow> observation option" where
  "observationMap b k = map_of (rev (map (\<lambda>o'. (observationKey o', o')) (bl_observations b))) k"

definition snapshotProblems :: "baseline \<Rightarrow> string \<Rightarrow> string list \<Rightarrow> string list" where
  "snapshotProblems s label required =
     map (\<lambda>k. label @ '': incomplete '' @ k @ '' inventory'')
       (filter (\<lambda>k. \<not> List.member (bl_complete s) k) required) @
     map (\<lambda>k. label @ '': unobservable '' @ k) (bl_unobservable s) @
     map (\<lambda>o'. label @ '': unobservable '' @ ob_kind o' @ '':'' @ ob_key o')
       (filter (\<lambda>o'. ob_value o' = VUnobservable) (bl_observations s)) @
     map (\<lambda>k. label @ '': unknown inventory '' @ k)
       (filter (\<lambda>k. \<not> List.member DEVICE_MUTATION_KINDS k) (bl_complete s)) @
     map (\<lambda>o'. label @ '': incomplete '' @ ob_kind o' @ '' inventory'')
       (filter (\<lambda>o'. \<not> List.member (bl_complete s) (ob_kind o')) (bl_observations s)) @
     (if distinct (map observationKey (bl_observations s)) then []
      else [label @ '': duplicate observations''])"

definition diffDeviceBaseline :: "baseline \<Rightarrow> baseline \<Rightarrow> mutation_entry list \<Rightarrow> baseline_diff" where
  "diffDeviceBaseline b current entries =
     (let journaled = (\<lambda>k. List.member (map (\<lambda>e. (mi_kind e, mi_key e)) entries) k);
          required = remdups (DEVICE_MUTATION_KINDS @ bl_complete b @ bl_complete current @
                              map mi_kind entries);
          keys = remdups (map observationKey (bl_observations b) @ map observationKey (bl_observations current)) in
      \<lparr>df_changes = List.map_filter (\<lambda>k. observationChange (observationMap b k) (observationMap current k)
                      (journaled k)) keys,
       df_dirty = snapshotProblems b ''baseline'' required @ snapshotProblems current ''current'' required\<rparr>)"

definition genericBaselineRevert :: "baseline_change \<Rightarrow> mutation_input option" where
  "genericBaselineRevert c =
     (let addedApp = ch_kind c = ''installed-app'' \<and> ch_prior c = VAbsent;
          emptyClipboard = ch_kind c = ''clipboard'' \<and>
            (ch_prior c = VAbsent \<or> ch_prior c = VPresent (JStr []) \<or> ch_prior c = VPresent JNull) in
      if addedApp \<or> emptyClipboard
      then Some \<lparr>mi_kind = ch_kind c, mi_key = ch_key c, mi_prior = ch_prior c, mi_tool = ''baseline-diff''\<rparr>
      else None)"

section \<open>Planning the revert\<close>

datatype revert_source = FromJournal | FromBaseline

record revert_step =
  st_source :: revert_source
  st_mutation :: mutation_input

datatype revert_plan = Revertible "revert_step list" | NonRevertible "string list"

record revert_support =
  sp_canRevert :: "mutation_input \<Rightarrow> bool"
  sp_baselineRevert :: "baseline_change \<Rightarrow> baseline_change list \<Rightarrow> mutation_input option"

definition revertOf :: "revert_support \<Rightarrow> baseline_change list \<Rightarrow> baseline_change \<Rightarrow> mutation_input option" where
  "revertOf support changes c =
     (case sp_baselineRevert support c changes of Some m \<Rightarrow> Some m | None \<Rightarrow> genericBaselineRevert c)"

definition inputOf :: "mutation_entry \<Rightarrow> mutation_input" where
  "inputOf e = \<lparr>mi_kind = mi_kind e, mi_key = mi_key e, mi_prior = mi_prior e, mi_tool = mi_tool e\<rparr>"

definition covers :: "mutation_input \<Rightarrow> revert_step \<Rightarrow> bool" where
  "covers m s \<longleftrightarrow> mi_kind (st_mutation s) = mi_kind m \<and> mi_key (st_mutation s) = mi_key m"

definition addBaselineStep ::
  "revert_support \<Rightarrow> baseline_change list \<Rightarrow> baseline_change \<Rightarrow> revert_step list \<times> string list \<Rightarrow>
   revert_step list \<times> string list" where
  "addBaselineStep support changes c acc =
     (case revertOf support changes c of
        Some m \<Rightarrow> if list_ex (covers m) (fst acc) then acc
                  else (fst acc @ [\<lparr>st_source = FromBaseline, st_mutation = m\<rparr>], snd acc)
      | None \<Rightarrow> (fst acc, snd acc @ [''Unjournaled '' @ ch_kind c @ '':'' @ ch_key c]))"

definition stepProblems :: "revert_support \<Rightarrow> revert_step \<Rightarrow> string list" where
  "stepProblems support s =
     (let m = st_mutation s in
      if mi_prior m = VUnobservable
      then [''Unobservable prior value '' @ mi_kind m @ '':'' @ mi_key m]
      else if \<not> List.member DEVICE_MUTATION_KINDS (mi_kind m) \<or> \<not> sp_canRevert support m
      then [''Unsupported '' @ mi_kind m @ '':'' @ mi_key m]
      else [])"

definition journalSteps :: "mutation_entry list \<Rightarrow> revert_step list" where
  "journalSteps entries =
     map (\<lambda>e. \<lparr>st_source = FromJournal, st_mutation = inputOf e\<rparr>)
       (js_sort (key_cmp (\<lambda>e. - me_sequence e)) entries)"

definition planDeviceMutationRevert ::
  "mutation_entry list \<Rightarrow> baseline_diff \<Rightarrow> revert_support \<Rightarrow> revert_plan" where
  "planDeviceMutationRevert entries diff support =
     (let (steps, reasons) = fold (addBaselineStep support (df_changes diff))
            (filter (\<lambda>c. \<not> ch_journaled c) (df_changes diff)) (journalSteps entries, df_dirty diff);
          problems = reasons @ concat (map (stepProblems support) steps) in
      if problems \<noteq> [] then NonRevertible problems else Revertible steps)"

section \<open>Reverting and verifying\<close>

datatype non_clean_reason = BaselineMissing | NonRevertibleState | VerificationFailed | ResetFailed

datatype reset_verdict = VClean | VNonClean non_clean_reason "string list"

record 'd reset_port =
  rp_support :: revert_support
  rp_certifiable :: "string list option"
  rp_capture :: "'d \<Rightarrow> baseline res \<times> 'd"
  rp_revert :: "mutation_input \<Rightarrow> 'd \<Rightarrow> unit res \<times> 'd"
  rp_owned :: "'d \<Rightarrow> unit res \<times> 'd"
  rp_afterRevert :: "'d \<Rightarrow> unit res \<times> 'd"

type_synonym ('d, 'a) device_op = "'d \<Rightarrow> 'a res \<times> 'd"

definition andThen :: "('d, 'a) device_op \<Rightarrow> ('a \<Rightarrow> ('d, 'b) device_op) \<Rightarrow> ('d, 'b) device_op" where
  "andThen m f d = (case m d of (Inl e, d1) \<Rightarrow> (Inl e, d1) | (Inr x, d1) \<Rightarrow> f x d1)"

definition give :: "'a res \<Rightarrow> ('d, 'a) device_op" where
  "give r d = (r, d)"

fun revertSteps :: "'d reset_port \<Rightarrow> revert_step list \<Rightarrow> ('d, unit) device_op" where
  "revertSteps port [] = give (Inr ())"
| "revertSteps port (s # ss) =
     andThen (rp_owned port) (\<lambda>_.
     andThen (rp_revert port (st_mutation s)) (\<lambda>_. revertSteps port ss))"

definition verdictOf :: "baseline_diff \<Rightarrow> reset_verdict" where
  "verdictOf verified =
     (if df_dirty verified = [] \<and> df_changes verified = [] then VClean
      else VNonClean VerificationFailed (df_dirty verified @
             map (\<lambda>c. ch_kind c @ '':'' @ ch_key c) (df_changes verified)))"

definition incompleteKinds :: "'d reset_port \<Rightarrow> baseline \<Rightarrow> string list" where
  "incompleteKinds port b =
     filter (\<lambda>k. \<not> List.member (bl_complete b) k \<or>
       (case rp_certifiable port of None \<Rightarrow> False | Some ks \<Rightarrow> \<not> List.member ks k)) DEVICE_MUTATION_KINDS"

definition strayDetail :: "mutation_entry \<Rightarrow> string" where
  "strayDetail e = ''journaled mutation '' @ mi_kind e @ '':'' @ mi_key e @ '' ('' @ mi_tool e @
     '') recorded under a different incarnation''"

text \<open>The tail of \<open>runRevert\<close>: verify after the steps, carry out a plan, plan against a baseline.\<close>

definition verifyRevert :: "'d reset_port \<Rightarrow> baseline \<Rightarrow> ('d, reset_verdict) device_op" where
  "verifyRevert port b =
     andThen (rp_owned port) (\<lambda>_.
     andThen (rp_afterRevert port) (\<lambda>_.
     andThen (rp_owned port) (\<lambda>_.
     andThen (rp_capture port) (\<lambda>final.
     andThen (rp_owned port) (\<lambda>_.
     give (Inr (verdictOf (diffDeviceBaseline b final []))))))))"

definition executePlan :: "'d reset_port \<Rightarrow> baseline \<Rightarrow> revert_plan \<Rightarrow> ('d, reset_verdict) device_op" where
  "executePlan port b plan =
     (case plan of
        NonRevertible reasons \<Rightarrow> give (Inr (VNonClean NonRevertibleState reasons))
      | Revertible steps \<Rightarrow> andThen (revertSteps port steps) (\<lambda>_. verifyRevert port b))"

definition revertTo :: "'d reset_port \<Rightarrow> mutation_scope \<Rightarrow> mutation_db \<Rightarrow> baseline \<Rightarrow> ('d, reset_verdict) device_op" where
  "revertTo port scope db b =
     andThen (rp_owned port) (\<lambda>_.
     andThen (give (listMutations scope db)) (\<lambda>entries.
     andThen (rp_owned port) (\<lambda>_.
     andThen (rp_capture port) (\<lambda>current.
     executePlan port b
       (planDeviceMutationRevert entries (diffDeviceBaseline b current entries) (rp_support port))))))"

definition runRevert :: "'d reset_port \<Rightarrow> mutation_scope \<Rightarrow> mutation_db \<Rightarrow> ('d, reset_verdict) device_op" where
  "runRevert port scope db =
     andThen (give (getBaseline scope db)) (\<lambda>stored.
     case stored of
       None \<Rightarrow> give (Inr (VNonClean BaselineMissing []))
     | Some b \<Rightarrow>
         andThen (give (listStrayIncarnations scope db)) (\<lambda>strays.
         if strays \<noteq> [] then give (Inr (VNonClean NonRevertibleState (map strayDetail strays)))
         else if bl_unobservable b \<noteq> [] \<or> incompleteKinds port b \<noteq> []
         then give (Inr (VNonClean NonRevertibleState (bl_unobservable b @ incompleteKinds port b)))
         else revertTo port scope db b))"

text \<open>
  \<open>raced\<close> is the error with which the deadline or the caller's abort signal ended the race first, if it
  did; the budget must be a usable timer delay.
\<close>

definition MAX_SETTIMEOUT_DELAY_MS :: rat where
  "MAX_SETTIMEOUT_DELAY_MS = 2147483647"

definition revertDeviceMutations ::
  "'d reset_port \<Rightarrow> mutation_scope \<Rightarrow> rat option \<Rightarrow> bool \<Rightarrow> err option \<Rightarrow> mutation_db \<Rightarrow>
   ('d, reset_verdict) device_op" where
  "revertDeviceMutations port scope budget propagate raced db d =
     (if (case budget of None \<Rightarrow> True | Some b \<Rightarrow> b \<le> 0 \<or> MAX_SETTIMEOUT_DELAY_MS < b)
      then (Inl (ActionableError ''Device mutation reset requires a finite, positive total budget''), d)
      else
        let (r, d1) = runRevert port scope db d;
            outcome = (case raced of None \<Rightarrow> r | Some e \<Rightarrow> Inl e) in
        case outcome of
          Inr v \<Rightarrow> (Inr v, d1)
        | Inl e \<Rightarrow> (if propagate then Inl e else Inr (VNonClean ResetFailed [errorMessage e]), d1))"

definition captureFirstDeviceBaseline ::
  "int \<Rightarrow> 'd reset_port \<Rightarrow> ('x) incarnation_scope_scheme \<Rightarrow> mutation_db \<Rightarrow> ('d, mutation_db) device_op" where
  "captureFirstDeviceBaseline now port scope db =
     andThen (rp_owned port) (\<lambda>_.
     andThen (give (getBaseline scope db)) (\<lambda>stored.
     if stored \<noteq> None then give (Inr db)
     else andThen (rp_capture port) (\<lambda>b.
          andThen (rp_owned port) (\<lambda>_.
          if bl_complete b = [] \<and> bl_observations b = []
          then give (Inl (ActionableError ''Device baseline capture returned no observable inventory''))
          else give (captureBaseline now scope b db)))))"

section \<open>Recording from a session\<close>

text \<open>\<open>stringify\<close> is \<open>JSON.stringify\<close> of an array of strings.\<close>

definition opaqueIntentKey :: "(string list \<Rightarrow> string) \<Rightarrow> string list \<Rightarrow> string" where
  "opaqueIntentKey stringify parts = FALLBACK_OPAQUE_KEY_PREFIX @ stringify parts"

definition markUnrecorded ::
  "(string list \<Rightarrow> string) \<Rightarrow> int \<Rightarrow> mutation_scope \<Rightarrow> string \<Rightarrow> mutation_db \<Rightarrow> mutation_db" where
  "markUnrecorded stringify now scope tool db =
     (case recordMutation now scope \<lparr>mi_kind = ''opaque'',
             mi_key = opaqueIntentKey stringify [''recording-failed'', tool], mi_prior = VUnobservable,
             mi_tool = tool\<rparr> db of
        Inl _ \<Rightarrow> db | Inr db1 \<Rightarrow> db1)"

definition missingMutations ::
  "mutation_scope \<Rightarrow> observation_key list \<Rightarrow> mutation_db \<Rightarrow> observation_key list res" where
  "missingMutations scope ms db =
     rbind (listMutations scope db) (\<lambda>entries.
     Inr (filter (\<lambda>k. \<not> List.member (map (\<lambda>e. (mi_kind e, mi_key e)) entries) k) ms))"

definition baselinePrior :: "('x) incarnation_scope_scheme \<Rightarrow> string \<Rightarrow> string \<Rightarrow> mutation_db \<Rightarrow> mutation_value res" where
  "baselinePrior scope kind key db =
     rbind (getBaseline scope db) (\<lambda>stored.
     case stored of
       None \<Rightarrow> Inr VUnobservable
     | Some b \<Rightarrow>
         if \<not> List.member (bl_complete b) kind \<or> List.member (bl_unobservable b) kind then Inr VUnobservable
         else Inr (valueOf (List.find (\<lambda>o'. ob_kind o' = kind \<and> ob_key o' = key) (bl_observations b))))"

text \<open>The in-memory recording gaps: the first reason of a session stays.\<close>

type_synonym recording_gaps = "(string \<times> string) list"

definition markGap :: "string \<Rightarrow> string \<Rightarrow> recording_gaps \<Rightarrow> recording_gaps" where
  "markGap u reason g = (if map_of g u = None then g @ [(u, reason)] else g)"

definition reasonFor :: "string \<Rightarrow> recording_gaps \<Rightarrow> string option" where
  "reasonFor u g = map_of g u"

definition clearGap :: "string \<Rightarrow> recording_gaps \<Rightarrow> recording_gaps" where
  "clearGap u g = filter (\<lambda>e. fst e \<noteq> u) g"

text \<open>
  A session's mutation through the journal, on a device whose state is the value of every kind and key:
  the prior value is recorded first, then the mutation is applied (\<open>applyJournaledMutation\<close>).
\<close>

type_synonym device_state = "observation_key \<Rightarrow> mutation_value"

record journaled_act =
  ja_kind :: string
  ja_key :: string
  ja_new :: mutation_value
  ja_tool :: string
  ja_at :: int

definition applyJournaledMutation ::
  "mutation_scope \<Rightarrow> journaled_act \<Rightarrow> device_state \<times> mutation_db \<Rightarrow> (device_state \<times> mutation_db) res" where
  "applyJournaledMutation scope a sd =
     rbind (recordMutation (ja_at a) scope \<lparr>mi_kind = ja_kind a, mi_key = ja_key a,
         mi_prior = fst sd (ja_kind a, ja_key a), mi_tool = ja_tool a\<rparr> (snd sd)) (\<lambda>db1.
     Inr ((fst sd)((ja_kind a, ja_key a) := ja_new a), db1))"

fun journaledRun ::
  "mutation_scope \<Rightarrow> journaled_act list \<Rightarrow> device_state \<times> mutation_db \<Rightarrow> (device_state \<times> mutation_db) res" where
  "journaledRun scope [] sd = Inr sd"
| "journaledRun scope (a # as) sd = rbind (applyJournaledMutation scope a sd) (journaledRun scope as)"

section \<open>The journal keeps original values\<close>

definition in_scope :: "mutation_scope \<Rightarrow> mutation_row \<Rightarrow> bool" where
  "in_scope scope r \<longleftrightarrow> mr_session r = ms_sessionUuid scope \<and> mr_device r = ms_deviceId scope \<and>
     mr_incarnation r = ms_incarnation scope"

text \<open>Every row of the scope holds the original value; a key without a row has not been changed.\<close>

definition faithful :: "mutation_scope \<Rightarrow> device_state \<Rightarrow> device_state \<times> mutation_db \<Rightarrow> bool" where
  "faithful scope orig sd \<longleftrightarrow>
     (\<forall>r\<in>set (md_rows (snd sd)). in_scope scope r \<longrightarrow> mr_prior r = orig (mr_kind r, mr_key r)) \<and>
     (\<forall>k. (\<forall>r\<in>set (md_rows (snd sd)). in_scope scope r \<longrightarrow> (mr_kind r, mr_key r) \<noteq> k) \<longrightarrow> fst sd k = orig k)"

lemma applyJournaledMutation_faithful:
  assumes "faithful scope orig sd" and "applyJournaledMutation scope a sd = Inr sd'"
  shows "faithful scope orig sd'"
proof -
  obtain s db where sd: "sd = (s, db)" by (metis surj_pair)
  let ?k = "(ja_kind a, ja_key a)"
  obtain db1 where r: "recordMutation (ja_at a) scope \<lparr>mi_kind = ja_kind a, mi_key = ja_key a, mi_prior = s ?k,
      mi_tool = ja_tool a\<rparr> db = Inr db1" and sd': "sd' = (s(?k := ja_new a), db1)"
    using assms(2) by (auto simp: applyJournaledMutation_def sd)
  show ?thesis
  proof (cases "\<exists>x\<in>set (md_rows db). in_scope scope x \<and> (mr_kind x, mr_key x) = ?k")
    case True
    then have "db1 = db"
      using r by (auto simp: recordMutation_def Let_def list_ex_iff row_identity_def in_scope_def split: if_splits)
    then show ?thesis using assms(1) True unfolding sd sd' faithful_def by auto
  next
    case False
    then obtain row where row: "md_rows db1 = md_rows db @ [row]" "in_scope scope row" "mr_kind row = ja_kind a"
      "mr_key row = ja_key a" "mr_prior row = s ?k"
      using r by (auto simp: recordMutation_def Let_def list_ex_iff row_identity_def in_scope_def split: if_splits)
    have "s ?k = orig ?k" using assms(1) False unfolding sd faithful_def by auto
    then show ?thesis using assms(1) row unfolding sd sd' faithful_def by auto
  qed
qed

lemma journaledRun_faithful:
  "faithful scope orig sd \<Longrightarrow> journaledRun scope as sd = Inr sd' \<Longrightarrow> faithful scope orig sd'"
  by (induction as arbitrary: sd) (auto dest: applyJournaledMutation_faithful)

lemma listMutations_faithful:
  assumes "faithful scope orig sd" and "listMutations scope (snd sd) = Inr entries" and "e \<in> set entries"
  shows "mi_prior e = orig (mi_kind e, mi_key e)"
  using assms
  by (auto simp: listMutations_def listIncarnations_def faithful_def in_scope_def entryOfRow_def)

section \<open>What an accepted plan contains\<close>

definition stepKey :: "revert_step \<Rightarrow> observation_key" where
  "stepKey s = (mi_kind (st_mutation s), mi_key (st_mutation s))"

definition changeKey :: "baseline_change \<Rightarrow> observation_key" where
  "changeKey c = (ch_kind c, ch_key c)"

text \<open>The snapshot says what the device state is, absent keys included.\<close>

definition snapshotOf :: "baseline \<Rightarrow> device_state \<Rightarrow> bool" where
  "snapshotOf b s \<longleftrightarrow> (\<forall>k. valueOf (observationMap b k) = s k)"

text \<open>What the loop over unjournaled changes leaves: all old steps, one step per change, or a reason.\<close>

lemma addBaselineStep_fold:
  assumes "fold (addBaselineStep support cs) changes (steps, reasons) = (steps', [])"
  shows "reasons = [] \<and> set steps \<subseteq> set steps' \<and>
    (\<forall>x\<in>set steps'. x \<in> set steps \<or> (\<exists>c\<in>set changes. revertOf support cs c = Some (st_mutation x))) \<and>
    (\<forall>c\<in>set changes. \<exists>m. revertOf support cs c = Some m \<and> (mi_kind m, mi_key m) \<in> stepKey ` set steps')"
  using assms
proof (induction changes arbitrary: steps reasons)
  case (Cons c changes)
  obtain st1 re1 where one: "addBaselineStep support cs c (steps, reasons) = (st1, re1)" by (metis surj_pair)
  note ih = Cons.IH [of st1 re1]
  have rest: "fold (addBaselineStep support cs) changes (st1, re1) = (steps', [])" using Cons.prems one by simp
  note ih = Cons.IH [OF rest]
  have "re1 = []" using ih by simp
  then obtain m where m: "revertOf support cs c = Some m" "reasons = []"
    using one by (auto simp: addBaselineStep_def split: option.splits if_splits)
  have sub: "set steps \<subseteq> set st1" "set st1 \<subseteq> insert \<lparr>st_source = FromBaseline, st_mutation = m\<rparr> (set steps)"
    using one m(1) by (auto simp: addBaselineStep_def split: if_splits)
  have cov: "\<exists>x\<in>set st1. covers m x"
    using one m(1) by (auto simp: addBaselineStep_def list_ex_iff covers_def split: if_splits)
  then have key: "(mi_kind m, mi_key m) \<in> stepKey ` set st1"
    by (metis covers_def image_eqI stepKey_def)
  have "x \<in> set steps \<or> (\<exists>c\<in>set (c # changes). revertOf support cs c = Some (st_mutation x))" if "x \<in> set steps'" for x
    using ih that sub(2) m(1) by (metis (no_types, lifting) in_mono insertE list.set_intros(1,2) revert_step.select_convs(2))
  moreover have "(mi_kind m, mi_key m) \<in> stepKey ` set steps'" using key ih by blast
  ultimately show ?case using ih sub(1) m by auto
qed simp

lemma plan_Revertible:
  assumes "planDeviceMutationRevert entries diff support = Revertible steps"
  shows "df_dirty diff = []"
    and "\<And>e. e \<in> set entries \<Longrightarrow> (mi_kind e, mi_key e) \<in> stepKey ` set steps"
    and "\<And>x. x \<in> set steps \<Longrightarrow> (\<exists>e\<in>set entries. st_mutation x = inputOf e) \<or>
      (\<exists>c\<in>set (df_changes diff). revertOf support (df_changes diff) c = Some (st_mutation x))"
    and "\<And>c. c \<in> set (df_changes diff) \<Longrightarrow> \<not> ch_journaled c \<Longrightarrow>
      \<exists>m. revertOf support (df_changes diff) c = Some m \<and> (mi_kind m, mi_key m) \<in> stepKey ` set steps"
    and "\<And>x. x \<in> set steps \<Longrightarrow> sp_canRevert support (st_mutation x) \<and> mi_prior (st_mutation x) \<noteq> VUnobservable"
proof -
  let ?un = "filter (\<lambda>c. \<not> ch_journaled c) (df_changes diff)"
  obtain st re where f: "fold (addBaselineStep support (df_changes diff)) ?un (journalSteps entries, df_dirty diff) = (st, re)"
    by (metis surj_pair)
  have st: "st = steps" "re = []" and ok: "\<forall>x\<in>set steps. stepProblems support x = []"
    using assms f by (auto simp: planDeviceMutationRevert_def Let_def split: if_splits)
  note a = addBaselineStep_fold [OF f [unfolded st]]
  have js: "st_mutation ` set (journalSteps entries) = inputOf ` set entries"
    by (auto simp: journalSteps_def image_image)
  show "df_dirty diff = []" using a by blast
  show "(mi_kind e, mi_key e) \<in> stepKey ` set steps" if "e \<in> set entries" for e
  proof -
    have "inputOf e \<in> st_mutation ` set (journalSteps entries)" unfolding js using that by (rule imageI)
    then obtain x where x: "x \<in> set (journalSteps entries)" "st_mutation x = inputOf e" by (metis imageE)
    then have "x \<in> set steps" using a by blast
    moreover have "stepKey x = (mi_kind e, mi_key e)" using x(2) by (simp add: stepKey_def inputOf_def)
    ultimately show ?thesis by (metis image_eqI)
  qed
  show "(\<exists>e\<in>set entries. st_mutation x = inputOf e) \<or>
      (\<exists>c\<in>set (df_changes diff). revertOf support (df_changes diff) c = Some (st_mutation x))" if "x \<in> set steps" for x
    using a js that by (metis (no_types, lifting) filter_is_subset image_eqI image_iff subsetD)
  show "\<exists>m. revertOf support (df_changes diff) c = Some m \<and> (mi_kind m, mi_key m) \<in> stepKey ` set steps"
    if "c \<in> set (df_changes diff)" "\<not> ch_journaled c" for c
    using a that by auto
  show "sp_canRevert support (st_mutation x) \<and> mi_prior (st_mutation x) \<noteq> VUnobservable" if "x \<in> set steps" for x
    using ok that by (auto simp: stepProblems_def Let_def split: if_splits)
qed

lemma deepEqual_refl [simp]: "deepEqual v v"
  by (cases v) (simp_all add: deepEqual_def)

lemma deepEqual_sym: "deepEqual v w = deepEqual w v"
  by (cases v; cases w) (auto simp: deepEqual_def)

lemma observationMap_key: "observationMap b k = Some o' \<Longrightarrow> observationKey o' = k"
  by (auto simp: observationMap_def dest!: map_of_SomeD)

lemma observationMap_None: "k \<notin> set (map observationKey (bl_observations b)) \<Longrightarrow> observationMap b k = None"
  by (force simp: observationMap_def map_of_eq_None_iff)

lemma set_map_filter: "set (List.map_filter f xs) = {y. \<exists>x\<in>set xs. f x = Some y}"
  by (induction xs) (auto simp: List.map_filter_simps split: option.splits)

lemma member_keys:
  "List.member (map (\<lambda>e. (mi_kind e, mi_key e)) entries) k \<longleftrightarrow> k \<in> (\<lambda>e. (mi_kind e, mi_key e)) ` set entries"
  by auto

lemma observationChange_Some:
  assumes "observationChange before after j = Some c"
  shows "ch_prior c = valueOf before \<and> ch_journaled c = j \<and>
    ((\<exists>o'. before = Some o' \<and> changeKey c = observationKey o') \<or>
     (\<exists>o'. after = Some o' \<and> changeKey c = observationKey o'))"
  using assms
  by (auto simp: observationChange_def changeKey_def observationKey_def split: option.splits if_splits)

lemma observationChange_exists:
  "\<not> deepEqual (valueOf before) (valueOf after) \<Longrightarrow> \<exists>c. observationChange before after j = Some c"
  by (cases before; cases after) (simp_all add: observationChange_def valueOf_def)

lemma diff_changes:
  fixes b current entries
  defines "diff \<equiv> diffDeviceBaseline b current entries"
  shows "c \<in> set (df_changes diff) \<Longrightarrow> ch_prior c = valueOf (observationMap b (changeKey c)) \<and>
      (ch_journaled c \<longleftrightarrow> changeKey c \<in> (\<lambda>e. (mi_kind e, mi_key e)) ` set entries)"
    and "\<not> deepEqual (valueOf (observationMap b k)) (valueOf (observationMap current k)) \<Longrightarrow>
      \<exists>c\<in>set (df_changes diff). changeKey c = k"
proof -
  let ?keys = "map observationKey (bl_observations b) @ map observationKey (bl_observations current)"
  let ?j = "\<lambda>k. k \<in> (\<lambda>e. (mi_kind e, mi_key e)) ` set entries"
  have ch: "set (df_changes diff) = {c. \<exists>k\<in>set ?keys. observationChange (observationMap b k) (observationMap current k) (?j k) = Some c}"
    unfolding diff_def diffDeviceBaseline_def Let_def baseline_diff.select_convs set_map_filter set_remdups
    by (simp only: member_keys)
  have one: "ch_prior c = valueOf (observationMap b k) \<and> changeKey c = k \<and> (ch_journaled c \<longleftrightarrow> ?j k)"
    if "observationChange (observationMap b k) (observationMap current k) (?j k) = Some c" for c k
    using observationChange_Some [OF that] observationMap_key by metis
  show "ch_prior c = valueOf (observationMap b (changeKey c)) \<and>
      (ch_journaled c \<longleftrightarrow> changeKey c \<in> (\<lambda>e. (mi_kind e, mi_key e)) ` set entries)"
    if "c \<in> set (df_changes diff)"
    using that one unfolding ch by blast
  show "\<exists>c\<in>set (df_changes diff). changeKey c = k"
    if ne: "\<not> deepEqual (valueOf (observationMap b k)) (valueOf (observationMap current k))"
  proof -
    have "k \<in> set (map observationKey (bl_observations b)) \<or> k \<in> set (map observationKey (bl_observations current))"
      using observationMap_None ne deepEqual_refl by metis
    then have k: "k \<in> set ?keys" by (simp only: set_append Un_iff)
    then show ?thesis using one observationChange_exists [OF ne] k unfolding ch by blast
  qed
qed

lemma snapshot_clean:
  assumes "snapshotProblems b label required = []"
  shows "set required \<subseteq> set (bl_complete b) \<and> bl_unobservable b = [] \<and>
    (\<forall>o'\<in>set (bl_observations b). ob_value o' \<noteq> VUnobservable)"
  using assms by (auto simp: snapshotProblems_def filter_empty_conv)

lemma andThen_Inr:
  "andThen m f d = (Inr y, d') \<longleftrightarrow> (\<exists>x d1. m d = (Inr x, d1) \<and> f x d1 = (Inr y, d'))"
  by (auto simp: andThen_def split: prod.splits sum.splits)

lemma give_Inr [simp]: "give r d = (Inr y, d') \<longleftrightarrow> r = Inr y \<and> d' = d"
  by (auto simp: give_def)

end
