(* ===== verification/MutationRevert.thy ===== *)
theory MutationRevert
  imports MutationJournal
begin

text \<open>
  What the revert of a session's mutations guarantees: a plan the planner accepts restores the device,
  given a port that keeps its contract, and a clean verdict is given only after every step of the revert
  succeeded and was verified. The answers of the Android port to unjournaled changes
  (src/src/daemon/sessionBroker/androidDeviceMutationResetPort.ts) are modelled here; its commands are
  adb commands, and whether it has any for a mutation is the parameter \<open>canRevert\<close>.
\<close>

section \<open>The Android port's answers to unjournaled changes\<close>

definition endsWith :: "string \<Rightarrow> string \<Rightarrow> bool" where
  "endsWith s t \<longleftrightarrow> length t \<le> length s \<and> drop (length s - length t) s = t"

definition digits_of :: "string \<Rightarrow> string" where
  "digits_of s = takeWhile (List.member ''0123456789'') s"

text \<open>\<open>/^runtime(?:-flags)?:(\d+):([^:]+):/\<close>: the user and the package of a runtime permission.\<close>

definition permissionTarget :: "string \<Rightarrow> (string \<times> string) option" where
  "permissionTarget key =
     (case (if startsWith key ''runtime:'' then Some (drop 8 key)
            else if startsWith key ''runtime-flags:'' then Some (drop 14 key) else None) of
        None \<Rightarrow> None
      | Some rest \<Rightarrow>
          let user = digits_of rest;
              after = drop (length user) rest;
              name = takeWhile (\<lambda>c. c \<noteq> CHR '':'') (drop 1 after) in
          if user \<noteq> [] \<and> startsWith after '':'' \<and> name \<noteq> [] \<and> startsWith (drop (length name + 1) after) '':''
          then Some (user, name) else None)"

definition userScoped :: "string \<Rightarrow> bool" where
  "userScoped key \<longleftrightarrow> startsWith key ''user:'' \<and> digits_of (drop 5 key) \<noteq> [] \<and>
     startsWith (drop (5 + length (digits_of (drop 5 key))) key) '':''"

definition changedPackage :: "baseline_change \<Rightarrow> string option" where
  "changedPackage c =
     (if ch_kind c = ''installed-app'' \<and> startsWith (ch_key c) ''identity:'' then Some (drop 9 (ch_key c))
      else if ch_kind c = ''permission'' then map_option snd (permissionTarget (ch_key c)) else None)"

definition installOf :: "baseline_change \<Rightarrow> string \<Rightarrow> baseline_change \<Rightarrow> bool" where
  "installOf c package x \<longleftrightarrow> ch_kind x = ''installed-app'' \<and> ch_prior x = VAbsent \<and> userScoped (ch_key x) \<and>
     (case (if ch_kind c = ''permission'' then permissionTarget (ch_key c) else None) of
        None \<Rightarrow> True | Some (user, _) \<Rightarrow> startsWith (ch_key x) (''user:'' @ user @ '':'')) \<and>
     endsWith (ch_key x) ('':'' @ package)"

definition baselineInput :: "baseline_change \<Rightarrow> mutation_input" where
  "baselineInput c = \<lparr>mi_kind = ch_kind c, mi_key = ch_key c, mi_prior = ch_prior c, mi_tool = ''baseline-diff''\<rparr>"

text \<open>
  An identity or a permission that came with a package goes with it: the answer is to uninstall the
  package, if its install is among the changes.
\<close>

definition androidBaselineRevert ::
  "(mutation_input \<Rightarrow> bool) \<Rightarrow> baseline_change \<Rightarrow> baseline_change list \<Rightarrow> mutation_input option" where
  "androidBaselineRevert canRevert c changes =
     (case (case changedPackage c of
              None \<Rightarrow> None
            | Some package \<Rightarrow>
                if ch_prior c = VAbsent \<and> package \<noteq> [] then List.find (installOf c package) changes else None) of
        Some install \<Rightarrow> Some (baselineInput install)
      | None \<Rightarrow>
          if List.member [''installed-app'', ''permission'', ''device-setting'', ''shared-file''] (ch_kind c) \<and>
             canRevert (baselineInput c)
          then Some (baselineInput c) else genericBaselineRevert c)"

definition androidSupport :: "(mutation_input \<Rightarrow> bool) \<Rightarrow> revert_support" where
  "androidSupport canRevert = \<lparr>sp_canRevert = canRevert, sp_baselineRevert = androidBaselineRevert canRevert\<rparr>"

section \<open>What the port promises\<close>

text \<open>Carrying out the steps in order, on a device on which each revert has the effect \<open>eff\<close>.\<close>

definition applySteps ::
  "(mutation_input \<Rightarrow> device_state \<Rightarrow> device_state) \<Rightarrow> revert_step list \<Rightarrow> device_state \<Rightarrow> device_state" where
  "applySteps eff ss s = fold (\<lambda>x. eff (st_mutation x)) ss s"

definition undoes :: "baseline_change \<Rightarrow> mutation_input \<Rightarrow> bool" where
  "undoes c m \<longleftrightarrow> (mi_kind m, mi_key m) = changeKey c \<and> mi_prior m = ch_prior c"

text \<open>
  The contract of a port on a device whose states all satisfy \<open>ok\<close>, for the changes \<open>cs\<close> of a plan. A
  revert it supports gives its own key the prior value, and leaves every other key alone or gives it the
  baseline's value too. To an unjournaled change it answers a mutation that undoes the change itself, or
  one that undoes another of the changes; then the device couples the change to some changes \<open>ds\<close> that
  are undone by themselves: when they are at their prior values, so is the change (a package's identity
  goes when it is uninstalled for every user).
\<close>

definition restoring ::
  "(mutation_input \<Rightarrow> device_state \<Rightarrow> device_state) \<Rightarrow> (device_state \<Rightarrow> bool) \<Rightarrow> revert_support \<Rightarrow>
   baseline_change list \<Rightarrow> bool" where
  "restoring eff ok support cs \<longleftrightarrow>
     (\<forall>m st. ok st \<and> sp_canRevert support m \<longrightarrow> ok (eff m st) \<and>
        deepEqual (eff m st (mi_kind m, mi_key m)) (mi_prior m) \<and>
        (\<forall>k. k \<noteq> (mi_kind m, mi_key m) \<longrightarrow> eff m st k = st k \<or>
           (\<exists>c\<in>set cs. changeKey c = k \<and> deepEqual (eff m st k) (ch_prior c)))) \<and>
     (\<forall>c\<in>set cs. \<forall>m. sp_baselineRevert support c cs = Some m \<longrightarrow> undoes c m \<or>
        (\<exists>c'\<in>set cs. undoes c' m) \<and>
        (\<exists>ds. set ds \<subseteq> set cs \<and> (\<forall>d\<in>set ds. \<exists>m'. revertOf support cs d = Some m' \<and> undoes d m') \<and>
           (\<forall>st. ok st \<and> (\<forall>d\<in>set ds. deepEqual (st (changeKey d)) (ch_prior d)) \<longrightarrow>
              deepEqual (st (changeKey c)) (ch_prior c))))"

lemma deepEqual_trans: "deepEqual u v \<Longrightarrow> deepEqual v w \<Longrightarrow> deepEqual u w"
  by (cases u; cases v; cases w) (auto simp: deepEqual_def)

lemma generic_undoes: "genericBaselineRevert c = Some m \<Longrightarrow> undoes c m"
  by (auto simp: genericBaselineRevert_def undoes_def changeKey_def Let_def split: if_splits)

lemma revertOf_undoes:
  assumes "restoring eff ok support cs" and "c \<in> set cs" and "revertOf support cs c = Some m"
  shows "\<exists>c'\<in>set cs. undoes c' m"
proof (cases "sp_baselineRevert support c cs")
  case None
  then show ?thesis using assms(2,3) generic_undoes unfolding revertOf_def by auto
next
  case (Some m')
  then have "m' = m" using assms(3) by (simp add: revertOf_def)
  then show ?thesis using assms(1,2) Some unfolding restoring_def by blast
qed

lemma revertOf_coupled:
  assumes "restoring eff ok support cs" and "c \<in> set cs" and "revertOf support cs c = Some m" and "\<not> undoes c m"
  shows "\<exists>ds. set ds \<subseteq> set cs \<and> (\<forall>d\<in>set ds. \<exists>m'. revertOf support cs d = Some m' \<and> undoes d m') \<and>
     (\<forall>st. ok st \<and> (\<forall>d\<in>set ds. deepEqual (st (changeKey d)) (ch_prior d)) \<longrightarrow>
        deepEqual (st (changeKey c)) (ch_prior c))"
proof -
  have "sp_baselineRevert support c cs = Some m"
    using assms(3,4) generic_undoes by (auto simp: revertOf_def split: option.splits)
  then show ?thesis using assms(1,2,4) unfolding restoring_def by blast
qed

text \<open>A key that is restored stays so, and every step restores its own key.\<close>

lemma applySteps_restore:
  assumes port: "restoring eff ok support cs"
    and priors: "\<And>c. c \<in> set cs \<Longrightarrow> ch_prior c = orig (changeKey c)"
    and "\<And>x. x \<in> set ss \<Longrightarrow> sp_canRevert support (st_mutation x) \<and> mi_prior (st_mutation x) = orig (stepKey x)"
    and "ok st"
  shows "ok (applySteps eff ss st) \<and>
    (\<forall>k. k \<in> stepKey ` set ss \<or> deepEqual (st k) (orig k) \<longrightarrow> deepEqual (applySteps eff ss st k) (orig k))"
  using assms(3,4)
proof (induction ss arbitrary: st)
  case (Cons x ss)
  let ?st = "eff (st_mutation x) st"
  have x: "sp_canRevert support (st_mutation x)" "mi_prior (st_mutation x) = orig (stepKey x)"
    using Cons.prems(1) [of x] by auto
  have now: "ok ?st" "deepEqual (?st (stepKey x)) (orig (stepKey x))"
    using port Cons.prems(2) x unfolding restoring_def stepKey_def by (metis, metis)
  have "?st k = st k \<or> deepEqual (?st k) (orig k)" for k
  proof (cases "k = stepKey x")
    case False
    then have "?st k = st k \<or> (\<exists>c\<in>set cs. changeKey c = k \<and> deepEqual (?st k) (ch_prior c))"
      using port Cons.prems(2) x(1) unfolding restoring_def stepKey_def by blast
    then show ?thesis using priors by auto
  qed (use now(2) in simp)
  then have kept: "deepEqual (st k) (orig k) \<Longrightarrow> deepEqual (?st k) (orig k)" for k by metis
  have "ok (applySteps eff ss ?st) \<and>
    (\<forall>k. k \<in> stepKey ` set ss \<or> deepEqual (?st k) (orig k) \<longrightarrow> deepEqual (applySteps eff ss ?st k) (orig k))"
    using Cons.prems(1) by (intro Cons.IH [OF _ now(1)]) simp
  moreover have "applySteps eff (x # ss) st = applySteps eff ss ?st" by (simp add: applySteps_def)
  moreover have "k \<in> stepKey ` set ss \<or> deepEqual (?st k) (orig k)"
    if "k \<in> stepKey ` set (x # ss) \<or> deepEqual (st k) (orig k)" for k
    using that now(2) kept [of k] by (cases "k = stepKey x") auto
  ultimately show ?case by (metis (no_types, lifting))
qed (simp add: applySteps_def)

text \<open>An accepted plan restores the device, when the journal's priors and the differences are right.\<close>

lemma plan_restores:
  assumes plan: "planDeviceMutationRevert entries diff support = Revertible steps"
    and port: "restoring eff ok support (df_changes diff)" and "ok st"
    and prior: "\<And>e. e \<in> set entries \<Longrightarrow> mi_prior e = orig (mi_kind e, mi_key e)"
    and change: "\<And>c. c \<in> set (df_changes diff) \<Longrightarrow> ch_prior c = orig (changeKey c)"
    and entry: "\<And>c. c \<in> set (df_changes diff) \<Longrightarrow> ch_journaled c \<Longrightarrow>
      changeKey c \<in> (\<lambda>e. (mi_kind e, mi_key e)) ` set entries"
    and differs: "\<not> deepEqual (st k) (orig k) \<Longrightarrow> \<exists>c\<in>set (df_changes diff). changeKey c = k"
  shows "deepEqual (applySteps eff steps st k) (orig k)"
proof -
  let ?cs = "df_changes diff"
  let ?done = "applySteps eff steps st"
  have writes: "mi_prior (st_mutation x) = orig (stepKey x)" if "x \<in> set steps" for x
    using plan_Revertible(3) [OF plan that]
  proof
    assume "\<exists>e\<in>set entries. st_mutation x = inputOf e"
    then show ?thesis using prior by (auto simp: inputOf_def stepKey_def)
  next
    assume "\<exists>c\<in>set ?cs. revertOf support ?cs c = Some (st_mutation x)"
    then obtain c' where "c' \<in> set ?cs" "undoes c' (st_mutation x)" using revertOf_undoes [OF port] by blast
    then show ?thesis using change by (simp add: undoes_def stepKey_def)
  qed
  have restored: "ok ?done \<and> (\<forall>k. k \<in> stepKey ` set steps \<or> deepEqual (st k) (orig k) \<longrightarrow> deepEqual (?done k) (orig k))"
    using writes plan_Revertible(5) [OF plan] \<open>ok st\<close> by (intro applySteps_restore [OF port change]) auto
  have journaled: "changeKey c \<in> stepKey ` set steps" if c: "c \<in> set ?cs" "ch_journaled c" for c
    using entry [OF c] plan_Revertible(2) [OF plan] by (metis (no_types, lifting) imageE)
  have own: "changeKey c \<in> stepKey ` set steps"
    if "c \<in> set ?cs" "revertOf support ?cs c = Some m" "undoes c m" for c m
    using journaled [OF that(1)] plan_Revertible(4) [OF plan that(1)] that(2,3) by (fastforce simp: undoes_def)
  show ?thesis
  proof (cases "deepEqual (st k) (orig k)")
    case False
    then obtain c where c: "c \<in> set ?cs" "changeKey c = k" using differs by blast
    show ?thesis
    proof (cases "k \<in> stepKey ` set steps")
      case uncovered: False
      then have "\<not> ch_journaled c" using journaled [OF c(1)] c(2) by blast
      then obtain m where m: "revertOf support ?cs c = Some m" using plan_Revertible(4) [OF plan c(1)] by blast
      have "\<not> undoes c m" using own [OF c(1) m] c(2) uncovered by blast
      from revertOf_coupled [OF port c(1) m this] obtain ds where ds: "set ds \<subseteq> set ?cs"
        "\<forall>d\<in>set ds. \<exists>m'. revertOf support ?cs d = Some m' \<and> undoes d m'"
        "\<forall>st. ok st \<and> (\<forall>d\<in>set ds. deepEqual (st (changeKey d)) (ch_prior d)) \<longrightarrow> deepEqual (st (changeKey c)) (ch_prior c)"
        by blast
      have "deepEqual (?done (changeKey d)) (ch_prior d)" if "d \<in> set ds" for d
        using own ds(1,2) that restored change by (metis subsetD)
      then have "deepEqual (?done (changeKey c)) (ch_prior c)" using ds(3) restored by blast
      then show ?thesis using change [OF c(1)] c(2) by simp
    qed (use restored in blast)
  qed (use restored in blast)
qed

section \<open>Properties\<close>

text \<open>
  C35: A revert plan that is accepted restores the device: take any session that starts with nothing
  recorded and records each mutation before applying it (the first record of a key wins), and then any
  further drift of the device, which keeps the couplings between its keys (\<open>ok\<close>); if the baseline
  and the new snapshot describe the device before the session and now, the planner calls the difference
  revertible, and the reset port keeps its contract (\<open>restoring\<close>: a supported revert gives its key
  the prior value and otherwise only moves keys to the baseline, and the answer to an unjournaled change
  undoes it or another change the device couples it to), then carrying out the steps in order gives every
  setting, app and file its original value back, up to the order of JSON object entries. The contract
  is one the modelled Android port can keep: the witness is a plan in which it answers an app's identity
  with the uninstall of the app.
\<close>

theorem revert_restores_baseline:
  assumes fresh: "\<And>r. r \<in> set (md_rows db0) \<Longrightarrow> \<not> in_scope scope r"
    and run: "journaledRun scope acts (orig, db0) = Inr (s1, db1)"
    and entries: "listMutations scope db1 = Inr entries"
    and snaps: "snapshotOf b orig" "snapshotOf current now_state"
    and plan: "planDeviceMutationRevert entries (diffDeviceBaseline b current entries) support = Revertible steps"
    and port: "restoring eff ok support (df_changes (diffDeviceBaseline b current entries))" and "ok now_state"
  shows "deepEqual (applySteps eff steps now_state k) (orig k)"
proof (rule plan_restores [OF plan port \<open>ok now_state\<close>])
  let ?diff = "diffDeviceBaseline b current entries"
  have "faithful scope orig (orig, db0)" using fresh by (simp add: faithful_def)
  then have "faithful scope orig (s1, db1)" using run by (rule journaledRun_faithful)
  then show "mi_prior e = orig (mi_kind e, mi_key e)" if "e \<in> set entries" for e
    using listMutations_faithful [of scope orig "(s1, db1)"] entries that by simp
  show "ch_prior c = orig (changeKey c)" if "c \<in> set (df_changes ?diff)" for c
    using diff_changes(1) [OF that] snaps(1) unfolding snapshotOf_def by metis
  show "changeKey c \<in> (\<lambda>e. (mi_kind e, mi_key e)) ` set entries" if "c \<in> set (df_changes ?diff)" "ch_journaled c" for c
    using diff_changes(1) [OF that(1)] that(2) by blast
  show "\<exists>c\<in>set (df_changes ?diff). changeKey c = k" if "\<not> deepEqual (now_state k) (orig k)"
    using that diff_changes(2) [of b k current entries] snaps deepEqual_sym unfolding snapshotOf_def by metis
qed

text \<open>
  The witness: a session sets the clipboard through the journal; then someone installs an app without it.
  The app's identity is answered by uninstalling it, and the device drops the identity with the app.
\<close>

definition demo_scope_of :: mutation_scope where
  "demo_scope_of = \<lparr>ms_deviceId = ''d'', ms_incarnation = ''i'', ms_sessionUuid = ''s''\<rparr>"

definition demo_act :: journaled_act where
  "demo_act = \<lparr>ja_kind = ''clipboard'', ja_key = ''text'', ja_new = VPresent (JStr ''x''), ja_tool = ''t'', ja_at = 5\<rparr>"

definition demo_snapshot_of :: "observation list \<Rightarrow> baseline" where
  "demo_snapshot_of os = \<lparr>bl_complete = DEVICE_MUTATION_KINDS, bl_observations = os, bl_unobservable = [],
     bl_reasons = None\<rparr>"

definition demo_current :: baseline where
  "demo_current = demo_snapshot_of [\<lparr>ob_kind = ''clipboard'', ob_key = ''text'', ob_value = VPresent (JStr ''y'')\<rparr>,
     \<lparr>ob_kind = ''installed-app'', ob_key = ''identity:app'', ob_value = VPresent JNull\<rparr>,
     \<lparr>ob_kind = ''installed-app'', ob_key = ''user:0:app'', ob_value = VPresent JNull\<rparr>]"

definition demo_revertible :: "mutation_input \<Rightarrow> bool" where
  "demo_revertible m \<longleftrightarrow> mi_prior m = VAbsent \<and>
     List.member [(''clipboard'', ''text''), (''installed-app'', ''user:0:app'')] (mi_kind m, mi_key m)"

definition demo_effect :: "mutation_input \<Rightarrow> device_state \<Rightarrow> device_state" where
  "demo_effect m st =
     (let st1 = st((mi_kind m, mi_key m) := mi_prior m) in
      if (mi_kind m, mi_key m) = (''installed-app'', ''user:0:app'')
      then st1((''installed-app'', ''identity:app'') := VAbsent) else st1)"

definition demo_coupled :: "device_state \<Rightarrow> bool" where
  "demo_coupled st \<longleftrightarrow>
     (st (''installed-app'', ''user:0:app'') = VAbsent \<longrightarrow> st (''installed-app'', ''identity:app'') = VAbsent)"

definition demo_entries :: "mutation_entry list" where
  "demo_entries = [\<lparr>mi_kind = ''clipboard'', mi_key = ''text'', mi_prior = VAbsent, mi_tool = ''t'',
     me_sequence = 1, me_appliedAt = 5\<rparr>]"

definition demo_steps :: "revert_step list" where
  "demo_steps = [\<lparr>st_source = FromJournal, st_mutation = inputOf (hd demo_entries)\<rparr>,
     \<lparr>st_source = FromBaseline, st_mutation = \<lparr>mi_kind = ''installed-app'', mi_key = ''user:0:app'', mi_prior = VAbsent,
        mi_tool = ''baseline-diff''\<rparr>\<rparr>]"

definition demo_state :: device_state where
  "demo_state k = valueOf (observationMap demo_current k)"

definition demo_changes :: "baseline_change list" where
  "demo_changes =
     [\<lparr>ch_kind = ''clipboard'', ch_key = ''text'', ch_prior = VAbsent, ch_current = VPresent (JStr ''y''), ch_journaled = True\<rparr>,
      \<lparr>ch_kind = ''installed-app'', ch_key = ''identity:app'', ch_prior = VAbsent, ch_current = VPresent JNull, ch_journaled = False\<rparr>,
      \<lparr>ch_kind = ''installed-app'', ch_key = ''user:0:app'', ch_prior = VAbsent, ch_current = VPresent JNull, ch_journaled = False\<rparr>]"

lemma demo_answers:
  "androidBaselineRevert demo_revertible (demo_changes ! 0) demo_changes = Some (baselineInput (demo_changes ! 0))"
  "androidBaselineRevert demo_revertible (demo_changes ! 1) demo_changes = Some (baselineInput (demo_changes ! 2))"
  "androidBaselineRevert demo_revertible (demo_changes ! 2) demo_changes = Some (baselineInput (demo_changes ! 2))"
  "revertOf (androidSupport demo_revertible) demo_changes (demo_changes ! 2) = Some (baselineInput (demo_changes ! 2))"
  by code_simp+

lemma undoes_own: "undoes c (baselineInput c)"
  by (simp add: undoes_def baselineInput_def changeKey_def)

lemma demo_restoring: "restoring demo_effect demo_coupled (androidSupport demo_revertible) demo_changes"
proof -
  have frame: "demo_coupled (demo_effect m st) \<and> deepEqual (demo_effect m st (mi_kind m, mi_key m)) (mi_prior m) \<and>
      (\<forall>k. k \<noteq> (mi_kind m, mi_key m) \<longrightarrow> demo_effect m st k = st k \<or>
         (\<exists>c\<in>set demo_changes. changeKey c = k \<and> deepEqual (demo_effect m st k) (ch_prior c)))"
    if "demo_coupled st" "demo_revertible m" for m st
    using that by (auto simp: demo_effect_def demo_coupled_def demo_revertible_def demo_changes_def changeKey_def Let_def)
  let ?install = "demo_changes ! 2"
  have changes: "demo_changes = [demo_changes ! 0, demo_changes ! 1, ?install]" by (simp add: demo_changes_def)
  have coupled: "deepEqual (st (changeKey (demo_changes ! 1))) (ch_prior (demo_changes ! 1))"
    if "demo_coupled st" "deepEqual (st (changeKey ?install)) (ch_prior ?install)" for st
    using that by (cases "st (''installed-app'', ''user:0:app'')")
      (simp_all add: demo_coupled_def demo_changes_def changeKey_def deepEqual_def)
  have mem: "c = demo_changes ! 0 \<or> c = demo_changes ! 1 \<or> c = ?install" if "c \<in> set demo_changes" for c
    using that by (subst (asm) changes) auto
  have install: "?install \<in> set demo_changes" by (subst (2) changes) simp
  have support: "sp_canRevert (androidSupport demo_revertible) = demo_revertible"
    "sp_baselineRevert (androidSupport demo_revertible) = androidBaselineRevert demo_revertible"
    by (simp_all add: androidSupport_def)
  show ?thesis
    unfolding restoring_def support
  proof (intro conjI allI ballI impI)
    fix c m assume c: "c \<in> set demo_changes" and m: "androidBaselineRevert demo_revertible c demo_changes = Some m"
    show "undoes c m \<or> (\<exists>c'\<in>set demo_changes. undoes c' m) \<and>
        (\<exists>ds. set ds \<subseteq> set demo_changes \<and>
           (\<forall>d\<in>set ds. \<exists>m'. revertOf (androidSupport demo_revertible) demo_changes d = Some m' \<and> undoes d m') \<and>
           (\<forall>st. demo_coupled st \<and> (\<forall>d\<in>set ds. deepEqual (st (changeKey d)) (ch_prior d)) \<longrightarrow>
              deepEqual (st (changeKey c)) (ch_prior c)))"
    proof (cases "c = demo_changes ! 1")
      case True
      then have "m = baselineInput ?install" using m demo_answers by simp
      then show ?thesis
        using True undoes_own demo_answers(4) install coupled by (intro disjI2 conjI exI [of _ "[?install]"]) auto
    next
      case False
      then show ?thesis using mem [OF c] m demo_answers undoes_own by auto
    qed
  qed (use frame in blast)+
qed

theorem revert_restores_baseline_witness:
  "demo_state (''installed-app'', ''identity:app'') = VPresent JNull \<and>
   deepEqual (applySteps demo_effect demo_steps demo_state (''installed-app'', ''identity:app'')) VAbsent \<and>
   deepEqual (applySteps demo_effect demo_steps demo_state (''clipboard'', ''text'')) VAbsent"
proof -
  let ?db0 = "\<lparr>md_rows = [], md_seq = 0, md_baselines = []\<rparr>"
  define db1 where "db1 = \<lparr>md_rows = [\<lparr>mr_sequence = 1, mr_session = ''s'', mr_device = ''d'', mr_incarnation = ''i'',
    mr_kind = ''clipboard'', mr_key = ''text'', mr_prior = VAbsent, mr_appliedAt = 5, mr_tool = ''t''\<rparr>],
    md_seq = 1, md_baselines = []\<rparr>"
  have run: "journaledRun demo_scope_of [demo_act] (\<lambda>_. VAbsent, ?db0) =
      Inr ((\<lambda>_. VAbsent)((''clipboard'', ''text'') := VPresent (JStr ''x'')), db1)"
    by (simp add: applyJournaledMutation_def recordMutation_def demo_act_def demo_scope_of_def db1_def blank_def
        assertDeviceMutationScope_def sql_blank_def is_space_def Let_def)
  have entries: "listMutations demo_scope_of db1 = Inr demo_entries"
    by (simp add: listMutations_def listIncarnations_def demo_scope_of_def db1_def demo_entries_def entryOfRow_def
        assertDeviceMutationScope_def blank_def is_space_def)
  have snaps: "snapshotOf (demo_snapshot_of []) (\<lambda>_. VAbsent)" "snapshotOf demo_current demo_state"
    by (simp_all add: snapshotOf_def demo_snapshot_of_def observationMap_def valueOf_def demo_state_def)
  have plan: "planDeviceMutationRevert demo_entries (diffDeviceBaseline (demo_snapshot_of []) demo_current demo_entries)
      (androidSupport demo_revertible) = Revertible demo_steps" by code_simp
  have "df_changes (diffDeviceBaseline (demo_snapshot_of []) demo_current demo_entries) = demo_changes" by code_simp
  then have port: "restoring demo_effect demo_coupled (androidSupport demo_revertible)
      (df_changes (diffDeviceBaseline (demo_snapshot_of []) demo_current demo_entries))"
    using demo_restoring by simp
  have "demo_state (''installed-app'', ''user:0:app'') = VPresent JNull" by code_simp
  then have ok: "demo_coupled demo_state" by (simp add: demo_coupled_def)
  note r = revert_restores_baseline [OF _ run entries snaps plan port ok]
  have "demo_state (''installed-app'', ''identity:app'') = VPresent JNull" by code_simp
  then show ?thesis using r by simp
qed

section \<open>Clean verdicts\<close>

text \<open>Every step was carried out, with the device owned before it.\<close>

fun reverted :: "'d reset_port \<Rightarrow> revert_step list \<Rightarrow> 'd \<Rightarrow> 'd \<Rightarrow> bool" where
  "reverted port [] d d' \<longleftrightarrow> d' = d"
| "reverted port (s # ss) d d' \<longleftrightarrow> (\<exists>d1 d2. rp_owned port d = (Inr (), d1) \<and>
     rp_revert port (st_mutation s) d1 = (Inr (), d2) \<and> reverted port ss d2 d')"

lemma revertSteps_reverted: "revertSteps port ss d = (Inr (), d') \<Longrightarrow> reverted port ss d d'"
  by (induction ss arbitrary: d) (fastforce simp: andThen_Inr)+

text \<open>The verification at the end, call by call.\<close>

definition verified :: "'d reset_port \<Rightarrow> 'd \<Rightarrow> baseline \<Rightarrow> 'd \<Rightarrow> bool" where
  "verified port d final d' \<longleftrightarrow> (\<exists>d1 d2 d3 d4. rp_owned port d = (Inr (), d1) \<and>
     rp_afterRevert port d1 = (Inr (), d2) \<and> rp_owned port d2 = (Inr (), d3) \<and>
     rp_capture port d3 = (Inr final, d4) \<and> rp_owned port d4 = (Inr (), d'))"

lemma verifyRevert_Clean:
  assumes "verifyRevert port b d = (Inr VClean, d')"
  shows "\<exists>final. verified port d final d' \<and> verdictOf (diffDeviceBaseline b final []) = VClean"
proof -
  obtain final d1 d2 d3 d4 where "rp_owned port d = (Inr (), d1)" "rp_afterRevert port d1 = (Inr (), d2)"
    "rp_owned port d2 = (Inr (), d3)" "rp_capture port d3 = (Inr final, d4)" "rp_owned port d4 = (Inr (), d')"
    "verdictOf (diffDeviceBaseline b final []) = VClean"
    using assms by (simp add: verifyRevert_def andThen_Inr) blast
  then show ?thesis unfolding verified_def by blast
qed

lemma executePlan_Clean:
  assumes "executePlan port b plan d = (Inr VClean, d')"
  shows "\<exists>steps d1. plan = Revertible steps \<and> reverted port steps d d1 \<and> verifyRevert port b d1 = (Inr VClean, d')"
proof (cases plan)
  case (Revertible steps)
  then have "andThen (revertSteps port steps) (\<lambda>_. verifyRevert port b) d = (Inr VClean, d')"
    using assms unfolding executePlan_def Revertible by (simp only: revert_plan.case)
  then obtain d1 where d1: "revertSteps port steps d = (Inr (), d1)" "verifyRevert port b d1 = (Inr VClean, d')"
    by (simp add: andThen_Inr) blast
  show ?thesis
    unfolding Revertible by (intro exI conjI, rule refl, rule revertSteps_reverted [OF d1(1)], rule d1(2))
next
  case (NonRevertible reasons)
  then show ?thesis using assms unfolding executePlan_def NonRevertible revert_plan.case give_Inr by simp
qed

lemma revertTo_Clean:
  assumes "revertTo port scope db b d = (Inr VClean, d')"
  shows "\<exists>entries current d1 d2 d3. rp_owned port d = (Inr (), d1) \<and> listMutations scope db = Inr entries \<and>
     rp_owned port d1 = (Inr (), d2) \<and> rp_capture port d2 = (Inr current, d3) \<and>
     executePlan port b (planDeviceMutationRevert entries (diffDeviceBaseline b current entries) (rp_support port)) d3 =
       (Inr VClean, d')"
  using assms by (simp add: revertTo_def andThen_Inr) blast

lemma runRevert_Clean:
  assumes "runRevert port scope db d = (Inr VClean, d')"
  shows "\<exists>b. getBaseline scope db = Inr (Some b) \<and> listStrayIncarnations scope db = Inr [] \<and>
    incompleteKinds port b = [] \<and> revertTo port scope db b d = (Inr VClean, d')"
proof -
  obtain stored where g: "getBaseline scope db = Inr stored" using assms by (auto simp: runRevert_def andThen_Inr)
  show ?thesis
    using assms g by (cases stored) (auto simp: runRevert_def andThen_Inr split: if_splits)
qed

lemma verdict_clean:
  assumes "verdictOf (diffDeviceBaseline b final []) = VClean"
  shows "set DEVICE_MUTATION_KINDS \<subseteq> set (bl_complete b) \<and> set DEVICE_MUTATION_KINDS \<subseteq> set (bl_complete final) \<and>
    bl_unobservable b = [] \<and> bl_unobservable final = [] \<and>
    (\<forall>k. deepEqual (valueOf (observationMap b k)) (valueOf (observationMap final k)))"
proof -
  let ?diff = "diffDeviceBaseline b final []"
  have v: "df_dirty ?diff = []" "df_changes ?diff = []" using assms by (auto simp: verdictOf_def split: if_splits)
  let ?req = "remdups (DEVICE_MUTATION_KINDS @ bl_complete b @ bl_complete final)"
  have p: "snapshotProblems b ''baseline'' ?req = []" "snapshotProblems final ''current'' ?req = []"
    using v(1) by (simp_all add: diffDeviceBaseline_def Let_def)
  have "deepEqual (valueOf (observationMap b k)) (valueOf (observationMap final k))" for k
    using diff_changes(2) [of b k final "[]"] v(2) by auto
  then show ?thesis using snapshot_clean [OF p(1)] snapshot_clean [OF p(2)] by auto
qed

text \<open>
  C36: A clean verdict is only ever given on evidence, after everything succeeded: neither the deadline
  nor the caller's abort ended the race first; a baseline was stored, no mutation of the session was
  recorded under another incarnation, every certified kind was inventoried; the device was owned, the
  session's mutations were listed and the device's inventory taken; the planner accepted the difference,
  and every step of the plan was carried out without an error, the device owned before each; then the
  work after the revert succeeded, and the inventory taken last, with the device owned before and after
  it, has no gap and differs from the baseline in no key. So an error of any of these calls, a lost
  lease, a timeout or an abort never gives a clean verdict.
\<close>

theorem clean_verdict_verified:
  assumes "revertDeviceMutations port scope budget propagate raced db d = (Inr VClean, d')"
  shows "raced = None \<and> (\<exists>b entries current steps final d1 d2 d3 d4 d5 d6 d7 d8.
    getBaseline scope db = Inr (Some b) \<and> listStrayIncarnations scope db = Inr [] \<and> incompleteKinds port b = [] \<and>
    rp_owned port d = (Inr (), d1) \<and> listMutations scope db = Inr entries \<and> rp_owned port d1 = (Inr (), d2) \<and>
    rp_capture port d2 = (Inr current, d3) \<and>
    planDeviceMutationRevert entries (diffDeviceBaseline b current entries) (rp_support port) = Revertible steps \<and>
    reverted port steps d3 d4 \<and>
    rp_owned port d4 = (Inr (), d5) \<and> rp_afterRevert port d5 = (Inr (), d6) \<and> rp_owned port d6 = (Inr (), d7) \<and>
    rp_capture port d7 = (Inr final, d8) \<and> rp_owned port d8 = (Inr (), d') \<and>
    set DEVICE_MUTATION_KINDS \<subseteq> set (bl_complete b) \<and>
    set DEVICE_MUTATION_KINDS \<subseteq> set (bl_complete final) \<and> bl_unobservable b = [] \<and> bl_unobservable final = [] \<and>
    (\<forall>k. deepEqual (valueOf (observationMap b k)) (valueOf (observationMap final k))))"
proof -
  obtain r where run: "runRevert port scope db d = (r, d')" and rc: "raced = None" "r = Inr VClean"
    using assms
    by (auto simp: revertDeviceMutations_def Let_def split: if_splits prod.splits option.splits sum.splits)
  then obtain b where b: "getBaseline scope db = Inr (Some b)" "listStrayIncarnations scope db = Inr []"
    "incompleteKinds port b = []" "revertTo port scope db b d = (Inr VClean, d')"
    using runRevert_Clean [of port scope db d d'] by blast
  obtain entries current d1 d2 d3 where start: "rp_owned port d = (Inr (), d1)" "listMutations scope db = Inr entries"
    "rp_owned port d1 = (Inr (), d2)" "rp_capture port d2 = (Inr current, d3)"
    "executePlan port b (planDeviceMutationRevert entries (diffDeviceBaseline b current entries) (rp_support port)) d3 =
       (Inr VClean, d')"
    using revertTo_Clean [OF b(4)] by blast
  obtain steps d4 where steps:
    "planDeviceMutationRevert entries (diffDeviceBaseline b current entries) (rp_support port) = Revertible steps"
    "reverted port steps d3 d4" "verifyRevert port b d4 = (Inr VClean, d')"
    using executePlan_Clean [OF start(5)] by blast
  obtain final where final: "verified port d4 final d'" "verdictOf (diffDeviceBaseline b final []) = VClean"
    using verifyRevert_Clean [OF steps(3)] by blast
  obtain d5 d6 d7 d8 where last: "rp_owned port d4 = (Inr (), d5)" "rp_afterRevert port d5 = (Inr (), d6)"
    "rp_owned port d6 = (Inr (), d7)" "rp_capture port d7 = (Inr final, d8)" "rp_owned port d8 = (Inr (), d')"
    using final(1) unfolding verified_def by blast
  show ?thesis
    by (intro exI conjI, rule rc(1), rule b(1), rule b(2), rule b(3), rule start(1), rule start(2), rule start(3),
        rule start(4), rule steps(1), rule steps(2), rule last(1), rule last(2), rule last(3), rule last(4), rule last(5))
      (simp_all add: verdict_clean [OF final(2)])
qed

definition demo_support :: revert_support where
  "demo_support = \<lparr>sp_canRevert = (\<lambda>_. True), sp_baselineRevert = (\<lambda>_ _. None)\<rparr>"

definition demo_drifted :: baseline where
  "demo_drifted = demo_snapshot_of [\<lparr>ob_kind = ''installed-app'', ob_key = ''app'', ob_value = VPresent JNull\<rparr>]"

definition demo_reset_port :: "baseline reset_port" where
  "demo_reset_port = \<lparr>rp_support = demo_support, rp_certifiable = None, rp_capture = (\<lambda>d. (Inr d, d)),
     rp_revert = (\<lambda>m d. (Inr (), d\<lparr>bl_observations := filter (\<lambda>o'. observationKey o' \<noteq> (mi_kind m, mi_key m))
       (bl_observations d)\<rparr>)),
     rp_owned = (\<lambda>d. (Inr (), d)), rp_afterRevert = (\<lambda>d. (Inr (), d))\<rparr>"

definition demo_journal_db :: mutation_db where
  "demo_journal_db = \<lparr>md_rows = [], md_seq = 0, md_baselines = [\<lparr>br_device = ''d'', br_incarnation = ''i'',
     br_baseline = demo_snapshot_of [], br_capturedAt = 1\<rparr>]\<rparr>"

theorem clean_verdict_verified_witness:
  "\<exists>d' final. revertDeviceMutations demo_reset_port demo_scope_of (Some 1000) False None demo_journal_db demo_drifted =
      (Inr VClean, d') \<and> bl_unobservable final = [] \<and>
      (\<forall>k. deepEqual VAbsent (valueOf (observationMap final k)))"
proof -
  let ?r = "revertDeviceMutations demo_reset_port demo_scope_of (Some 1000) False None demo_journal_db demo_drifted"
  have "fst ?r = Inr VClean" by code_simp
  then have run: "?r = (Inr VClean, snd ?r)" by (metis prod.collapse)
  have b: "getBaseline demo_scope_of demo_journal_db = Inr (Some (demo_snapshot_of []))" by code_simp
  have "valueOf (observationMap (demo_snapshot_of []) k) = VAbsent" for k
    by (simp add: observationMap_def demo_snapshot_of_def valueOf_def)
  then show ?thesis using clean_verdict_verified [OF run] b run by auto
qed

end
