(* ===== verification/RequirementTypes.thy ===== *)
theory RequirementTypes
  imports Profile
begin

text \<open>
  The data of session device requirements (src/src/devices/sessionRequirements/types.ts, result.ts).

  \<^item> A string-literal union (an archetype, a model family, a precision) is a \<open>string\<close>: the code checks
    such values at run time, and the checks are branches of the model. What TypeScript promises of a
    value that is never checked is a predicate of \<open>RequirementTheorems\<close>.
  \<^item> An optional property is an \<open>option\<close>; \<open>maxOsVersion?: string | null\<close> is an \<open>option\<close> too, since every
    reader treats \<open>null\<close> and a missing property alike.
  \<^item> A \<open>RequirementResult\<close> is a sum: \<open>Inl\<close> the error.
\<close>

section \<open>Results\<close>

datatype requirement_code =
    InvalidRequest
  | InvalidConfig
  | UnsupportedHardware
  | UnsupportedVersionPrecision
  | MissingInstalledRuntime
  | RuntimeIncompatible
  | CatalogUnavailable
  | CatalogMetadataInvalid
  | AmbiguousModelAlias

record requirement_error =
  re_code :: requirement_code
  re_message :: string
  re_transient :: bool
  re_field :: "string option"

type_synonym 'a requirement_result = "requirement_error + 'a"

definition failure :: "requirement_code \<Rightarrow> string \<Rightarrow> bool \<Rightarrow> string option \<Rightarrow> 'a requirement_result" where
  "failure code message transient fld =
     Inl \<lparr>re_code = code, re_message = message, re_transient = transient, re_field = fld\<rparr>"

text \<open>\<open>failure(code, message, {field})\<close> and \<open>failure(code, message)\<close>.\<close>

abbreviation fail_at :: "requirement_code \<Rightarrow> string \<Rightarrow> string \<Rightarrow> 'a requirement_result" where
  "fail_at code message fld \<equiv> failure code message False (Some fld)"

abbreviation fail_with :: "requirement_code \<Rightarrow> string \<Rightarrow> 'a requirement_result" where
  "fail_with code message \<equiv> failure code message False None"

lemma failure_not_Inr [simp, res_simps]: "failure c m t f \<noteq> Inr x" "Inr x \<noteq> failure c m t f"
  by (simp_all add: failure_def)

lemma rbind_failure [simp, res_simps]: "rbind (failure c m t f) g = failure c m t f"
  by (simp add: failure_def)

section \<open>Requests\<close>

record ios_model_type =
  mt_family :: string
  mt_variant :: string
  mt_sizeInches :: "string option"

record ios_model_reference =
  mf_namespace :: string
  mf_value :: string

datatype ios_hardware =
    IosOmitted
  | IosExactModel ios_model_reference
  | IosModelType ios_model_type
  | IosArchetype string

datatype android_hardware =
    AndroidOmitted
  | AndroidArchetype string
  | AndroidExactProfile string

datatype effective_os = OsExact string | OsMajor int | OsMinimum string

datatype os_selector = OsOmitted | OsGiven effective_os

record device_profile_selector =
  ds_manufacturer :: string
  ds_requires :: "string list option"

record ios_requirement =
  ir_hardware :: ios_hardware
  ir_os :: os_selector

record android_requirement =
  ar_hardware :: android_hardware
  ar_os :: os_selector
  ar_deviceProfile :: "device_profile_selector option"

record watch_requirement =
  wr_runtime :: string
  wr_deviceType :: string

datatype session_requirement =
    RIos ios_requirement
  | RAndroid android_requirement
  | RWatch watch_requirement

section \<open>Catalogs and defaults\<close>

datatype catalog_state = CatalogReady | CatalogStateUnavailable | CatalogNotInstalled

record catalog_provenance =
  cp_source :: string
  cp_revision :: string
  cp_state :: catalog_state
  cp_message :: "string option"

record ios_catalog_model =
  cm_deviceType :: string
  cm_modelIdentifier :: "string option"
  cm_name :: string
  cm_productFamily :: string
  cm_aliases :: "string list option"
  cm_archetype :: "string option"
  cm_modelType :: "ios_model_type option"
  cm_current :: bool
  cm_minOsVersion :: "string option"
  cm_maxOsVersion :: "string option"

record ios_catalog_release =
  ci_runtimeId :: string
  ci_osVersion :: "string option"
  ci_installed :: bool
  ci_current :: bool

record android_catalog_release =
  ca_systemImage :: string
  ca_osVersion :: "string option"
  ca_precision :: string
  ca_apiLevel :: int
  ca_abi :: string
  ca_flavor :: string
  ca_installed :: bool
  ca_current :: bool

record android_catalog_profile =
  ct_profileId :: string
  ct_archetype :: "string option"
  ct_current :: bool

record ios_catalog =
  ic_provenance :: catalog_provenance
  ic_models :: "ios_catalog_model list"
  ic_releases :: "ios_catalog_release list"

record android_catalog =
  ac_provenance :: catalog_provenance
  ac_profiles :: "android_catalog_profile list"
  ac_releases :: "android_catalog_release list"
  ac_hostAbis :: "string list option"

record watch_catalog_runtime =
  wc_runtime :: string
  wc_osVersion :: "string option"
  wc_installed :: bool

record watch_catalog =
  wt_provenance :: catalog_provenance
  wt_runtimes :: "watch_catalog_runtime list"
  wt_deviceTypes :: "(string \<times> string) list"

datatype session_catalog =
    CatIos ios_catalog
  | CatAndroid android_catalog
  | CatWatch watch_catalog

record os_default_policy =
  op_selector :: effective_os
  op_preferredVersion :: string

record ios_defaults =
  id_policyVersion :: string
  id_omitted :: string
  id_archetypes :: "(string \<times> ios_model_type) list"
  id_modelTypes :: "(ios_model_type \<times> ios_model_reference) list"
  id_os :: os_default_policy

record android_profile_default =
  pd_memoryMb :: "int option"
  pd_archetype :: string
  pd_profileId :: string

record android_defaults =
  ad_policyVersion :: string
  ad_omitted :: string
  ad_profiles :: "android_profile_default list"
  ad_os :: os_default_policy

datatype session_defaults = DefIos ios_defaults | DefAndroid android_defaults

section \<open>Normalized requirements\<close>

record requirement_provenance =
  rp_policyVersion :: string
  rp_catalogSource :: string
  rp_catalogRevision :: string
  rp_defaultsApplied :: "string list"

text \<open>An effective hardware selector is a selector that is not \<open>omitted\<close>.\<close>

record normalized_ios =
  ni_original :: ios_requirement
  ni_hardware :: ios_hardware
  ni_os :: effective_os
  ni_exactModel :: "ios_catalog_model option"
  ni_provenance :: requirement_provenance

record normalized_android =
  na_original :: android_requirement
  na_hardware :: android_hardware
  na_os :: effective_os
  na_exactProfile :: "android_catalog_profile option"
  na_provenance :: requirement_provenance

datatype normalized_requirement = NIos normalized_ios | NAndroid normalized_android

record normalized_watch =
  nw_original :: watch_requirement
  nw_profile :: watch_profile
  nw_catalogSource :: string
  nw_catalogRevision :: string

section \<open>Candidates and resolutions\<close>

record ios_candidate =
  ik_current :: bool
  ik_deviceType :: "string option"
  ik_modelIdentifier :: "string option"
  ik_archetype :: "string option"
  ik_modelType :: "ios_model_type option"
  ik_runtimeId :: "string option"
  ik_osVersion :: "string option"

record android_candidate =
  ak_current :: bool
  ak_memoryMb :: "int option"
  ak_profileId :: "string option"
  ak_archetype :: "string option"
  ak_systemImage :: "string option"
  ak_osVersion :: "string option"
  ak_precision :: "string option"
  ak_apiLevel :: "int option"
  ak_abi :: "string option"
  ak_flavor :: "string option"

datatype session_device_profile =
    KIos ios_candidate
  | KAndroid android_candidate
  | KWatch watch_profile

datatype mismatch_reason =
    MPlatform | MStaleMetadata | MUnknownHardware | MUnknownOs | MHardware | MOs

datatype predicate_match = Match | Mismatch mismatch_reason

datatype hardware_by = ByExplicitModel | ByModelTypeDefault | ByArchetypeDefault

datatype os_by = ByExact | ByPreferredDefault | ByHighestSatisfying

datatype effective_requirement =
    EffIos ios_hardware effective_os
  | EffAndroid android_hardware effective_os

record resolution_provenance =
  rz_original :: session_requirement
  rz_effective :: effective_requirement
  rz_hardwareBy :: hardware_by
  rz_osBy :: os_by
  rz_hardwarePath :: "string list"
  rz_policyVersion :: string
  rz_catalogSource :: string
  rz_catalogRevision :: string

record resolved_profile =
  rd_requirement :: normalized_requirement
  rd_profile :: native_profile
  rd_provenance :: resolution_provenance

end
