(* ===== verification/Version.thy ===== *)
theory Version
  imports RequirementTypes
begin

text \<open>
  Dotted numeric releases (src/src/devices/sessionRequirements/version.ts and the comparison
  \<open>compareStrictNumericVersions\<close> of src/src/utils/deviceMatcher.ts).

  The code never converts a component to a number: it compares digit strings, so that a component of
  any length is ordered exactly. The reference order is \<open>versionKey\<close>: the list of the components'
  values without trailing zeros, compared lexicographically. \<open>NaN\<close>, the answer for anything that is
  not a dotted number, is \<open>None\<close>.
\<close>

section \<open>Definitions\<close>

text \<open>\<open>s.split(".")\<close>.\<close>

fun splitDot :: "string \<Rightarrow> string list" where
  "splitDot [] = [[]]"
| "splitDot (c # cs) =
     (if c = CHR ''.'' then [] # splitDot cs
      else (case splitDot cs of [] \<Rightarrow> [[c]] | p # ps \<Rightarrow> (c # p) # ps))"

text \<open>\<open>parts.join(".")\<close>.\<close>

fun joinDot :: "string list \<Rightarrow> string" where
  "joinDot [] = []"
| "joinDot [p] = p"
| "joinDot (p # q # ps) = p @ CHR ''.'' # joinDot (q # ps)"

text \<open>\<open>component.replace(/^0+(?=\d)/, "")\<close>.\<close>

fun normalizeComponent :: "string \<Rightarrow> string" where
  "normalizeComponent (a # c # cs) =
     (if a = CHR ''0'' \<and> is_digit c then normalizeComponent (c # cs) else a # c # cs)"
| "normalizeComponent s = s"

fun dropTrailingZeros :: "string list \<Rightarrow> string list" where
  "dropTrailingZeros ps =
     (if 1 < length ps \<and> last ps = ''0'' then dropTrailingZeros (butlast ps) else ps)"

declare dropTrailingZeros.simps [simp del]

record numeric_version =
  nv_value :: string
  nv_components :: "string list"
  nv_precision :: nat

definition parseNumericVersion :: "string \<Rightarrow> string \<Rightarrow> numeric_version requirement_result" where
  "parseNumericVersion s fld =
     (if \<not> versionFrom False s
      then fail_at InvalidRequest (fld @ '' must be a dotted numeric release.'') fld
      else let normalized = dropTrailingZeros (map normalizeComponent (splitDot s)) in
        if list_all (\<lambda>p. p = ''0'') normalized
        then fail_at InvalidRequest (fld @ '' must be greater than zero.'') fld
        else Inr \<lparr>nv_value = joinDot normalized, nv_components = normalized,
                  nv_precision = length normalized\<rparr>)"

definition compareNumericComponent :: "string \<Rightarrow> string \<Rightarrow> int" where
  "compareNumericComponent a b =
     (let x = normalizeComponent a; y = normalizeComponent b in
      if length x \<noteq> length y then (if length x < length y then - 1 else 1)
      else if x = y then 0 else if x < y then - 1 else 1)"

fun compareParsedVersions :: "string list \<Rightarrow> string list \<Rightarrow> int" where
  "compareParsedVersions [] [] = 0"
| "compareParsedVersions (a # as) [] =
     (let d = compareNumericComponent a ''0'' in
      if d \<noteq> 0 then d else compareParsedVersions as [])"
| "compareParsedVersions [] (b # bs) =
     (let d = compareNumericComponent ''0'' b in
      if d \<noteq> 0 then d else compareParsedVersions [] bs)"
| "compareParsedVersions (a # as) (b # bs) =
     (let d = compareNumericComponent a b in
      if d \<noteq> 0 then d else compareParsedVersions as bs)"

text \<open>\<open>/^\d+$/\<close>.\<close>

definition all_digits :: "string \<Rightarrow> bool" where
  "all_digits p \<longleftrightarrow> p \<noteq> [] \<and> list_all is_digit p"

definition compareStrictNumericVersions :: "string \<Rightarrow> string \<Rightarrow> int option" where
  "compareStrictNumericVersions a b =
     (if list_all all_digits (splitDot a) \<and> list_all all_digits (splitDot b)
      then Some (compareParsedVersions (splitDot a) (splitDot b)) else None)"

definition compareNumericVersions :: "string \<Rightarrow> string \<Rightarrow> int option" where
  "compareNumericVersions a b = compareStrictNumericVersions a b"

text \<open>\<open>Number.isSafeInteger\<close> on an integer, and \<open>String(n)\<close>.\<close>

definition isSafeInteger :: "int \<Rightarrow> bool" where
  "isSafeInteger n \<longleftrightarrow> \<bar>n\<bar> \<le> 2 ^ 53 - 1"

definition digit_char :: "nat \<Rightarrow> char" where
  "digit_char d = char_of (48 + d)"

fun nat_string :: "nat \<Rightarrow> string" where
  "nat_string n = (if n < 10 then [digit_char n] else nat_string (n div 10) @ [digit_char (n mod 10)])"

declare nat_string.simps [simp del]

definition int_string :: "int \<Rightarrow> string" where
  "int_string n = (if n < 0 then CHR ''-'' # nat_string (nat (- n)) else nat_string (nat n))"

definition normalizeOsSelector :: "effective_os \<Rightarrow> string \<Rightarrow> effective_os requirement_result" where
  "normalizeOsSelector sel fld =
     (case sel of
        OsMajor m \<Rightarrow>
          if \<not> isSafeInteger m \<or> m \<le> 0
          then fail_at InvalidRequest (fld @ ''.major must be a positive safe integer.'') (fld @ ''.major'')
          else Inr sel
      | OsExact v \<Rightarrow> rbind (parseNumericVersion v (fld @ ''.version'')) (\<lambda>p. Inr (OsExact (nv_value p)))
      | OsMinimum v \<Rightarrow> rbind (parseNumericVersion v (fld @ ''.version'')) (\<lambda>p. Inr (OsMinimum (nv_value p))))"

definition osSelectorMatchesVersion :: "effective_os \<Rightarrow> string \<Rightarrow> bool" where
  "osSelectorMatchesVersion sel version =
     (case parseNumericVersion version ''os.version'' of
        Inl _ \<Rightarrow> False
      | Inr p \<Rightarrow>
          (case sel of
             OsMajor m \<Rightarrow> hd (nv_components p) = int_string m
           | OsExact v \<Rightarrow> compareNumericVersions (nv_value p) v = Some 0
           | OsMinimum v \<Rightarrow>
               (case compareNumericVersions (nv_value p) v of None \<Rightarrow> False | Some d \<Rightarrow> 0 \<le> d)))"

definition androidPrecisionRank :: "string \<Rightarrow> nat" where
  "androidPrecisionRank p = (if p = ''major'' then 1 else if p = ''minor'' then 2 else 3)"

text \<open>A missing and an empty precision are both falsy.\<close>

definition androidOsEvidenceMatches :: "effective_os \<Rightarrow> string \<Rightarrow> string option \<Rightarrow> bool" where
  "androidOsEvidenceMatches sel version precision =
     (case precision of
        None \<Rightarrow> False
      | Some pr \<Rightarrow>
          if pr = [] then False
          else (case parseNumericVersion version ''os.version'' of
             Inl _ \<Rightarrow> False
           | Inr p \<Rightarrow>
               (let rank = androidPrecisionRank pr; known = joinDot (take rank (nv_components p)) in
                if (case sel of
                      OsExact v \<Rightarrow>
                        (case parseNumericVersion v ''os.version'' of
                           Inl _ \<Rightarrow> True
                         | Inr q \<Rightarrow> rank < nv_precision q \<or> rank < nv_precision p)
                    | _ \<Rightarrow> False)
                then False else osSelectorMatchesVersion sel known)))"

section \<open>Splitting and joining\<close>

lemma splitDot_ne [simp]: "splitDot s \<noteq> []"
  by (cases s) (auto split: list.splits)

lemma joinDot_splitDot: "joinDot (splitDot s) = s"
proof (induction s)
  case (Cons c cs)
  obtain p ps where ps: "splitDot cs = p # ps" by (metis splitDot_ne neq_Nil_conv)
  with Cons show ?case by (cases ps) auto
qed simp

lemma splitDot_no_dot: "CHR ''.'' \<notin> set p \<Longrightarrow> splitDot p = [p]"
  by (induction p) auto

lemma splitDot_append: "CHR ''.'' \<notin> set p \<Longrightarrow> splitDot (p @ CHR ''.'' # s) = p # splitDot s"
  by (induction p) auto

lemma splitDot_joinDot:
  "ps \<noteq> [] \<Longrightarrow> list_all (\<lambda>p. CHR ''.'' \<notin> set p) ps \<Longrightarrow> splitDot (joinDot ps) = ps"
  by (induction ps rule: joinDot.induct) (auto simp: splitDot_no_dot splitDot_append)

lemma dot_not_digit [simp]: "\<not> is_digit CHR ''.''"
  by (simp add: is_digit_def less_eq_char_def)

lemma digits_no_dot: "all_digits p \<Longrightarrow> CHR ''.'' \<notin> set p"
  by (auto simp: all_digits_def list_all_iff)

text \<open>The regular expression of \<open>parseNumericVersion\<close> accepts exactly what the comparison accepts.\<close>

lemma versionFrom_split:
  "versionFrom started s \<longleftrightarrow>
     (started \<or> hd (splitDot s) \<noteq> []) \<and> list_all is_digit (hd (splitDot s)) \<and>
     list_all all_digits (tl (splitDot s))"
proof (induction started s rule: versionFrom.induct)
  case (2 started c cs)
  obtain p ps where ps: "splitDot cs = p # ps" by (metis splitDot_ne neq_Nil_conv)
  with 2 show ?case by (auto simp: all_digits_def)
qed simp

lemma versionFrom_digits: "versionFrom False s \<longleftrightarrow> list_all all_digits (splitDot s)"
proof -
  obtain p ps where "splitDot s = p # ps" by (metis splitDot_ne neq_Nil_conv)
  then show ?thesis by (simp add: versionFrom_split all_digits_def)
qed

section \<open>The numeric order\<close>

definition digit_val :: "char \<Rightarrow> nat" where
  "digit_val c = of_char c - 48"

fun num_of :: "string \<Rightarrow> nat" where
  "num_of [] = 0"
| "num_of (c # cs) = digit_val c * 10 ^ length cs + num_of cs"

fun stripEnd :: "nat list \<Rightarrow> nat list" where
  "stripEnd [] = []"
| "stripEnd (x # xs) = (if x = 0 \<and> stripEnd xs = [] then [] else x # stripEnd xs)"

definition componentsKey :: "string list \<Rightarrow> nat list" where
  "componentsKey ps = stripEnd (map num_of ps)"

definition versionKey :: "string \<Rightarrow> nat list" where
  "versionKey s = componentsKey (splitDot s)"

lemma is_digit_code: "is_digit c \<longleftrightarrow> 48 \<le> (of_char c :: nat) \<and> (of_char c :: nat) \<le> 57"
  by (simp add: is_digit_def less_eq_char_def)

lemma digit_less: "is_digit c \<Longrightarrow> is_digit d \<Longrightarrow> c < d \<longleftrightarrow> digit_val c < digit_val d"
  unfolding less_char_def is_digit_code digit_val_def by auto

lemma digit_eq: "is_digit c \<Longrightarrow> is_digit d \<Longrightarrow> c = d \<longleftrightarrow> digit_val c = digit_val d"
proof -
  assume "is_digit c" "is_digit d"
  moreover have "c = d \<longleftrightarrow> (of_char c :: nat) = of_char d" by simp
  ultimately show ?thesis unfolding is_digit_code digit_val_def by linarith
qed

lemma digit_le_9: "is_digit c \<Longrightarrow> digit_val c \<le> 9"
  unfolding is_digit_code digit_val_def by linarith

lemma zero_val [simp]: "digit_val CHR ''0'' = 0"
  by (simp add: digit_val_def)

lemma num_of_bound: "list_all is_digit s \<Longrightarrow> num_of s < 10 ^ length s"
proof (induction s)
  case (Cons c cs)
  then have d: "digit_val c * 10 ^ length cs \<le> 9 * 10 ^ length cs"
    by (intro mult_right_mono) (auto simp: digit_le_9)
  have "num_of cs < 10 ^ length cs" using Cons by simp
  then show ?case using d by (simp only: num_of.simps length_Cons power_Suc)
qed simp

text \<open>Digit strings of one length are ordered as strings the way their values are.\<close>

lemma lead_less:
  fixes m :: nat
  assumes "m < k" "n < k"
  shows "x * k + m < y * k + n \<longleftrightarrow> x < y \<or> x = y \<and> m < n"
proof (cases x y rule: linorder_cases)
  case less
  then have "Suc x * k \<le> y * k" by (intro mult_right_mono) auto
  with less assms show ?thesis by simp
next
  case greater
  then have "Suc y * k \<le> x * k" by (intro mult_right_mono) auto
  with greater assms show ?thesis by simp
qed simp

lemma num_of_less:
  "length x = length y \<Longrightarrow> list_all is_digit x \<Longrightarrow> list_all is_digit y \<Longrightarrow>
     x < y \<longleftrightarrow> num_of x < num_of y"
proof (induction x y rule: list_induct2)
  case (Cons c cs d ds)
  then have "num_of cs < 10 ^ length ds" "num_of ds < 10 ^ length ds"
    using num_of_bound [of cs] num_of_bound [of ds] by simp_all
  from lead_less [OF this] Cons show ?case by (simp add: digit_less digit_eq)
qed simp

lemma num_of_inj:
  "length x = length y \<Longrightarrow> list_all is_digit x \<Longrightarrow> list_all is_digit y \<Longrightarrow>
     num_of x = num_of y \<Longrightarrow> x = y"
  using num_of_less [of x y] num_of_less [of y x] by (metis less_irrefl linorder_neqE)

text \<open>A normalized component: digits, no leading zero unless it is the only digit.\<close>

definition normal_component :: "string \<Rightarrow> bool" where
  "normal_component p \<longleftrightarrow> all_digits p \<and> (length p = 1 \<or> hd p \<noteq> CHR ''0'')"

lemma normalizeComponent_normal: "all_digits p \<Longrightarrow> normal_component (normalizeComponent p)"
  by (induction p rule: normalizeComponent.induct) (auto simp: normal_component_def all_digits_def)

lemma normalizeComponent_id: "normal_component p \<Longrightarrow> normalizeComponent p = p"
  by (cases p rule: normalizeComponent.cases) (auto simp: normal_component_def)

lemma num_of_normalize [simp]: "num_of (normalizeComponent p) = num_of p"
  by (induction p rule: normalizeComponent.induct) auto

lemma normal_lower:
  assumes "normal_component p" "1 < length p"
  shows "10 ^ (length p - 1) \<le> num_of p"
proof -
  obtain c cs where p: "p = c # cs" using assms(2) by (cases p) auto
  with assms have "is_digit c" "c \<noteq> CHR ''0''" by (auto simp: normal_component_def all_digits_def)
  then have "1 \<le> digit_val c" using digit_eq [of c "CHR ''0''"]
    by (cases "digit_val c") (simp_all add: is_digit_code)
  then have "1 * 10 ^ length cs \<le> digit_val c * 10 ^ length cs" by (intro mult_right_mono) auto
  then have "10 ^ length cs \<le> digit_val c * 10 ^ length cs + num_of cs" by linarith
  with p show ?thesis by simp
qed

lemma normal_length_less:
  assumes "normal_component p" "normal_component q" "length p < length q"
  shows "num_of p < num_of q"
proof -
  have "p \<noteq> []" using assms(1) by (simp add: normal_component_def all_digits_def)
  then have q: "1 < length q" using assms(3) by (cases p) auto
  have "num_of p < 10 ^ length p"
    using num_of_bound assms(1) by (simp add: normal_component_def all_digits_def)
  also have "(10::nat) ^ length p \<le> 10 ^ (length q - 1)"
    using assms(3) by (intro power_increasing) auto
  also have "\<dots> \<le> num_of q" using normal_lower [OF assms(2) q] .
  finally show ?thesis .
qed

lemma normal_digits: "normal_component p \<Longrightarrow> list_all is_digit p"
  by (simp add: normal_component_def all_digits_def)

lemma normal_inj: "normal_component p \<Longrightarrow> normal_component q \<Longrightarrow> num_of p = num_of q \<Longrightarrow> p = q"
  using normal_length_less [of p q] normal_length_less [of q p] num_of_inj normal_digits
  by (metis less_irrefl linorder_neqE)

lemma compareNumericComponent_key:
  assumes "all_digits a" "all_digits b"
  shows "compareNumericComponent a b = key_cmp num_of a b"
proof -
  let ?x = "normalizeComponent a" and ?y = "normalizeComponent b"
  have n: "normal_component ?x" "normal_component ?y"
    using assms by (simp_all add: normalizeComponent_normal)
  show ?thesis
  proof (cases "length ?x" "length ?y" rule: linorder_cases)
    case less
    with normal_length_less [OF n less] show ?thesis
      by (simp add: compareNumericComponent_def key_cmp_def)
  next
    case greater
    with normal_length_less [OF n(2,1) greater] show ?thesis
      by (simp add: compareNumericComponent_def key_cmp_def)
  next
    case equal
    then have "?x < ?y \<longleftrightarrow> num_of a < num_of b"
      using num_of_less [of ?x ?y] normal_digits n by simp
    moreover have "?x = ?y \<longleftrightarrow> num_of a = num_of b"
      using normal_inj [OF n] by (metis num_of_normalize)
    ultimately show ?thesis using equal
      by (simp add: compareNumericComponent_def key_cmp_def)
  qed
qed

lemma key_cmp_comp: "key_cmp (\<lambda>x. f (g x)) x y = key_cmp f (g x) (g y)"
  by (simp add: key_cmp_def)

lemma Nil_less_iff: "[] < xs \<longleftrightarrow> xs \<noteq> []"
  by (cases xs) auto

lemma compareParsedVersions_key:
  "list_all all_digits as \<Longrightarrow> list_all all_digits bs \<Longrightarrow>
     compareParsedVersions as bs = key_cmp componentsKey as bs"
proof (induction as bs rule: compareParsedVersions.induct)
  case 1
  show ?case by (simp add: key_cmp_def)
next
  have z: "all_digits ''0''" by (simp add: all_digits_def is_digit_code)
  {
    case (2 a as)
    then show ?case
      by (auto simp: Let_def compareNumericComponent_key z key_cmp_def componentsKey_def Nil_less_iff)
  next
    case (3 b bs)
    then show ?case
      by (auto simp: Let_def compareNumericComponent_key z key_cmp_def componentsKey_def Nil_less_iff)
  next
    case (4 a as b bs)
    then show ?case
      by (auto simp: Let_def compareNumericComponent_key z key_cmp_def componentsKey_def Nil_less_iff)
  }
qed

lemma compareNumericVersions_key:
  "versionFrom False a \<Longrightarrow> versionFrom False b \<Longrightarrow>
     compareNumericVersions a b = Some (key_cmp versionKey a b)"
  by (simp add: compareNumericVersions_def compareStrictNumericVersions_def versionFrom_digits
    compareParsedVersions_key versionKey_def [abs_def] key_cmp_comp)

lemma compareNumericVersions_None:
  "compareNumericVersions a b = None \<longleftrightarrow> \<not> (versionFrom False a \<and> versionFrom False b)"
  by (simp add: compareNumericVersions_def compareStrictNumericVersions_def versionFrom_digits)

section \<open>Parsed versions\<close>

lemma stripEnd_snoc_zero [simp]: "stripEnd (xs @ [0]) = stripEnd xs"
  by (induction xs) auto

lemma stripEnd_eq_Nil: "stripEnd xs = [] \<longleftrightarrow> list_all (\<lambda>x. x = 0) xs"
  by (induction xs) auto

lemma num_of_zero [simp]: "num_of ''0'' = 0"
  by simp

lemma dropTrailingZeros_shape:
  assumes "ps \<noteq> []"
  shows "dropTrailingZeros ps \<noteq> [] \<and> set (dropTrailingZeros ps) \<subseteq> set ps \<and>
    componentsKey (dropTrailingZeros ps) = componentsKey ps \<and>
    (length (dropTrailingZeros ps) = 1 \<or> last (dropTrailingZeros ps) \<noteq> ''0'')"
  using assms
proof (induction ps rule: dropTrailingZeros.induct)
  case (1 ps)
  show ?case
  proof (cases "1 < length ps \<and> last ps = ''0''")
    case True
    then have ne: "butlast ps \<noteq> []" by (cases ps rule: rev_cases) auto
    have ps: "ps = butlast ps @ [''0'']" using True 1(2) by (metis append_butlast_last_id)
    have "componentsKey ps = componentsKey (butlast ps)"
      by (subst ps) (simp add: componentsKey_def)
    moreover have "set (butlast ps) \<subseteq> set ps" by (auto dest: in_set_butlastD)
    moreover have "dropTrailingZeros ps = dropTrailingZeros (butlast ps)"
      using True by (subst dropTrailingZeros.simps) simp
    ultimately show ?thesis using 1(1) [OF True ne] by auto
  next
    case False
    then have "dropTrailingZeros ps = ps" by (subst dropTrailingZeros.simps) auto
    moreover have "length ps = 1 \<or> last ps \<noteq> ''0''" using False 1(2)
      by (cases ps) (auto simp: not_less)
    ultimately show ?thesis using 1(2) by simp
  qed
qed

lemma dropTrailingZeros_id: "length ps = 1 \<or> last ps \<noteq> ''0'' \<Longrightarrow> dropTrailingZeros ps = ps"
  by (subst dropTrailingZeros.simps) auto

text \<open>The canonical component lists: what a parsed version consists of.\<close>

definition canonical_components :: "string list \<Rightarrow> bool" where
  "canonical_components ps \<longleftrightarrow> ps \<noteq> [] \<and> list_all normal_component ps \<and>
     (length ps = 1 \<or> last ps \<noteq> ''0'') \<and> \<not> list_all (\<lambda>p. p = ''0'') ps"

lemma normal_no_dot: "normal_component p \<Longrightarrow> CHR ''.'' \<notin> set p"
  by (simp add: normal_component_def digits_no_dot)

lemma splitDot_canonical: "canonical_components ps \<Longrightarrow> splitDot (joinDot ps) = ps"
  by (rule splitDot_joinDot)
    (auto simp: canonical_components_def list_all_iff normal_no_dot)

lemma versionFrom_canonical: "canonical_components ps \<Longrightarrow> versionFrom False (joinDot ps)"
  by (auto simp: versionFrom_digits splitDot_canonical canonical_components_def list_all_iff
    normal_component_def)

lemma parseNumericVersion_Inr:
  assumes "parseNumericVersion s fld = Inr p"
  shows "versionFrom False s" "canonical_components (nv_components p)"
    "nv_value p = joinDot (nv_components p)" "nv_precision p = length (nv_components p)"
    "componentsKey (nv_components p) = versionKey s"
proof -
  let ?ms = "map normalizeComponent (splitDot s)"
  show v: "versionFrom False s"
    using assms by (auto simp: parseNumericVersion_def failure_def split: if_splits)
  have p: "nv_components p = dropTrailingZeros ?ms" "nv_value p = joinDot (nv_components p)"
    "nv_precision p = length (nv_components p)" "\<not> list_all (\<lambda>p. p = ''0'') (nv_components p)"
    using assms by (auto simp: parseNumericVersion_def failure_def Let_def split: if_splits)
  have "list_all normal_component ?ms"
    using v by (auto simp: versionFrom_digits list_all_iff normalizeComponent_normal)
  moreover have ne: "?ms \<noteq> []" by simp
  ultimately show "canonical_components (nv_components p)"
    using dropTrailingZeros_shape [OF ne] p by (auto simp: canonical_components_def list_all_iff)
  show "nv_value p = joinDot (nv_components p)" "nv_precision p = length (nv_components p)"
    using p by simp_all
  show "componentsKey (nv_components p) = versionKey s"
    using dropTrailingZeros_shape [OF ne] p
    by (simp add: versionKey_def componentsKey_def comp_def)
qed

lemma parseNumericVersion_canonical:
  assumes "canonical_components ps"
  shows "parseNumericVersion (joinDot ps) fld =
    Inr \<lparr>nv_value = joinDot ps, nv_components = ps, nv_precision = length ps\<rparr>"
proof -
  have "map normalizeComponent ps = ps"
    using assms by (auto simp: canonical_components_def list_all_iff normalizeComponent_id intro: map_idI)
  moreover have "dropTrailingZeros ps = ps"
    using assms by (auto simp: canonical_components_def dropTrailingZeros_id)
  ultimately show ?thesis using assms
    by (simp add: parseNumericVersion_def versionFrom_canonical splitDot_canonical
      canonical_components_def)
qed

text \<open>Which strings are releases: a dotted number with a component that is not zero.\<close>

lemma normal_zero: "normal_component p \<Longrightarrow> num_of p = 0 \<longleftrightarrow> p = ''0''"
  using normal_inj [of p "''0''"] by (auto simp: normal_component_def all_digits_def is_digit_code)

lemma parseNumericVersion_ok:
  "(\<exists>p. parseNumericVersion s fld = Inr p) \<longleftrightarrow> versionFrom False s \<and> versionKey s \<noteq> []"
proof (cases "versionFrom False s")
  case True
  let ?ms = "map normalizeComponent (splitDot s)" and ?ns = "dropTrailingZeros (map normalizeComponent (splitDot s))"
  have shape: "set ?ns \<subseteq> set ?ms" "componentsKey ?ns = componentsKey ?ms"
    using dropTrailingZeros_shape [of ?ms] by auto
  have "list_all normal_component ?ns"
    using True shape(1)
    by (fastforce simp: versionFrom_digits list_all_iff intro: normalizeComponent_normal)
  then have "list_all (\<lambda>p. p = ''0'') ?ns \<longleftrightarrow> list_all (\<lambda>p. num_of p = 0) ?ns"
    by (auto simp: list_all_iff normal_zero)
  also have "\<dots> \<longleftrightarrow> versionKey s = []"
  proof -
    have "list_all (\<lambda>p. num_of p = 0) ?ns \<longleftrightarrow> componentsKey ?ns = []"
      by (simp add: componentsKey_def stripEnd_eq_Nil list.pred_map comp_def)
    also have "\<dots> \<longleftrightarrow> componentsKey (splitDot s) = []"
      using shape(2) by (simp add: componentsKey_def comp_def)
    finally show ?thesis by (simp add: versionKey_def)
  qed
  finally show ?thesis using True by (simp add: parseNumericVersion_def Let_def)
qed (simp add: parseNumericVersion_def)

lemma parseNumericVersion_value:
  assumes "parseNumericVersion s fld = Inr p"
  shows "versionFrom False (nv_value p)" "versionKey (nv_value p) = versionKey s"
    "parseNumericVersion (nv_value p) fld' = Inr p"
proof -
  note c = parseNumericVersion_Inr [OF assms]
  show "versionFrom False (nv_value p)" "versionKey (nv_value p) = versionKey s"
    using c by (simp_all add: versionFrom_canonical versionKey_def splitDot_canonical)
  show "parseNumericVersion (nv_value p) fld' = Inr p"
    unfolding c(3) parseNumericVersion_canonical [OF c(2)] by (simp add: c(3,4))
qed

section \<open>What a selector accepts\<close>

lemma stripEnd_id: "xs = [] \<or> last xs \<noteq> 0 \<Longrightarrow> stripEnd xs = xs"
  by (induction xs) (auto split: if_splits)

lemma canonical_key: "canonical_components ps \<Longrightarrow> componentsKey ps = map num_of ps"
proof -
  assume c: "canonical_components ps"
  then obtain qs q where ps: "ps = qs @ [q]" by (metis canonical_components_def rev_exhaust)
  have "q \<noteq> ''0''" using c ps by (auto simp: canonical_components_def)
  moreover have "normal_component q" using c ps by (simp add: canonical_components_def)
  ultimately have "num_of q \<noteq> 0" by (simp add: normal_zero)
  then show ?thesis by (simp add: componentsKey_def ps stripEnd_id)
qed

lemma canonical_inj:
  assumes "canonical_components ps" "canonical_components qs" "componentsKey ps = componentsKey qs"
  shows "ps = qs"
proof -
  have "map num_of ps = map num_of qs" using assms by (simp add: canonical_key)
  moreover have "inj_on num_of (set ps \<union> set qs)"
    using assms(1,2) by (intro inj_onI) (auto simp: canonical_components_def list_all_iff intro: normal_inj)
  ultimately show ?thesis by (simp add: inj_on_map_eq_map)
qed

lemma nat_string_normal: "normal_component (nat_string n) \<and> num_of (nat_string n) = n \<and> (0 < n \<longrightarrow> hd (nat_string n) \<noteq> CHR ''0'')"
proof (induction n rule: nat_string.induct)
  case (1 n)
  have d: "is_digit (digit_char k)" "digit_val (digit_char k) = k" if "k < 10" for k
    using that by (simp_all add: is_digit_code digit_char_def digit_val_def of_char_of)
  have nz: "digit_char k \<noteq> CHR ''0''" if "k < 10" "0 < k" for k
    using d(2) [OF that(1)] that(2) by (metis zero_val less_irrefl)
  show ?case
  proof (cases "n < 10")
    case True
    then show ?thesis using d nz
      by (subst (1 2 3) nat_string.simps) (simp add: normal_component_def all_digits_def)
  next
    case False
    have app: "num_of (s @ [c]) = 10 * num_of s + digit_val c" for s c
      by (induction s) (auto simp: algebra_simps)
    have "normal_component (nat_string (n div 10))" "num_of (nat_string (n div 10)) = n div 10"
      "hd (nat_string (n div 10)) \<noteq> CHR ''0''" "nat_string (n div 10) \<noteq> []"
      using 1 [OF False] False by (auto simp: normal_component_def all_digits_def)
    then show ?thesis using False d
      by (subst (1 2 3) nat_string.simps)
        (simp add: app normal_component_def all_digits_def)
  qed
qed

lemma osSelectorMatchesVersion_key:
  "osSelectorMatchesVersion sel v \<longleftrightarrow>
     versionFrom False v \<and> versionKey v \<noteq> [] \<and>
     (case sel of
        OsMajor m \<Rightarrow> 0 \<le> m \<and> int (hd (versionKey v)) = m
      | OsExact w \<Rightarrow> versionFrom False w \<and> versionKey v = versionKey w
      | OsMinimum w \<Rightarrow> versionFrom False w \<and> versionKey w \<le> versionKey v)"
proof (cases "parseNumericVersion v ''os.version''")
  case (Inl e)
  then have "\<not> (versionFrom False v \<and> versionKey v \<noteq> [])"
    using parseNumericVersion_ok [of v "''os.version''"] by auto
  with Inl show ?thesis by (simp add: osSelectorMatchesVersion_def)
next
  case (Inr p)
  note c = parseNumericVersion_Inr [OF Inr] and k = parseNumericVersion_value [OF Inr]
  have v: "versionFrom False v" "versionKey v \<noteq> []"
    using parseNumericVersion_ok [of v "''os.version''"] Inr by auto
  have cmp: "compareNumericVersions (nv_value p) w =
      (if versionFrom False w then Some (key_cmp versionKey (nv_value p) w) else None)" for w
    using compareNumericVersions_key [OF k(1)] compareNumericVersions_None [of "nv_value p" w]
    by auto
  show ?thesis
  proof (cases sel)
    case (OsExact w)
    then show ?thesis using v k(2) Inr cmp
      by (auto simp: osSelectorMatchesVersion_def key_cmp_def)
  next
    case (OsMinimum w)
    then show ?thesis using v k(2) Inr cmp
      by (auto simp: osSelectorMatchesVersion_def key_cmp_def)
  next
    case (OsMajor m)
    obtain q qs where q: "nv_components p = q # qs" "normal_component q"
      using c(2) by (cases "nv_components p") (auto simp: canonical_components_def)
    have key: "versionKey v = num_of q # map num_of qs"
      using canonical_key [OF c(2)] c(5) q by simp
    have "q = int_string m \<longleftrightarrow> 0 \<le> m \<and> int (num_of q) = m"
    proof (cases "0 \<le> m")
      case True
      then have i: "int_string m = nat_string (nat m)" by (simp add: int_string_def)
      show ?thesis using nat_string_normal [of "nat m"] normal_inj [OF q(2)] True
        unfolding i by (metis int_nat_eq nat_int)
    next
      case False
      then have "hd (int_string m) = CHR ''-''" by (simp add: int_string_def)
      moreover have "is_digit (hd q)" using q(2) by (cases q) (auto simp: normal_component_def all_digits_def)
      ultimately have "q \<noteq> int_string m" by (auto simp: is_digit_code)
      with False show ?thesis by simp
    qed
    then show ?thesis using OsMajor v Inr q key by (simp add: osSelectorMatchesVersion_def)
  qed
qed

text \<open>The part of a reported Android release that its precision vouches for.\<close>

definition knownKey :: "string \<Rightarrow> string \<Rightarrow> nat list" where
  "knownKey pr v = stripEnd (take (androidPrecisionRank pr) (versionKey v))"

lemma rank_pos [simp]: "0 < androidPrecisionRank pr"
  by (simp add: androidPrecisionRank_def)

lemma stripEnd_idem [simp]: "stripEnd (stripEnd xs) = stripEnd xs"
  by (induction xs) auto

lemma stripEnd_versionKey [simp]: "stripEnd (versionKey v) = versionKey v"
  by (simp add: versionKey_def componentsKey_def)

lemma androidOsEvidenceMatches_key:
  "androidOsEvidenceMatches sel v precision \<longleftrightarrow>
     (\<exists>pr. precision = Some pr \<and> pr \<noteq> [] \<and> versionFrom False v \<and> knownKey pr v \<noteq> [] \<and>
      (case sel of
         OsMajor m \<Rightarrow> 0 \<le> m \<and> int (hd (knownKey pr v)) = m
       | OsExact w \<Rightarrow> versionFrom False w \<and> versionKey v = versionKey w \<and>
           length (versionKey v) \<le> androidPrecisionRank pr
       | OsMinimum w \<Rightarrow> versionFrom False w \<and> versionKey w \<le> knownKey pr v))"
proof (cases precision)
  case None
  then show ?thesis by (simp add: androidOsEvidenceMatches_def)
next
  case (Some pr)
  let ?r = "androidPrecisionRank pr"
  show ?thesis
  proof (cases "parseNumericVersion v ''os.version''")
    case (Inl e)
    then have "\<not> (versionFrom False v \<and> versionKey v \<noteq> [])"
      using parseNumericVersion_ok [of v "''os.version''"] by auto
    with Inl Some show ?thesis by (auto simp: androidOsEvidenceMatches_def knownKey_def)
  next
    case (Inr p)
    note c = parseNumericVersion_Inr [OF Inr]
    let ?cs = "take ?r (nv_components p)"
    have key: "versionKey v = map num_of (nv_components p)"
      using canonical_key [OF c(2)] c(5) by simp
    have cs: "?cs \<noteq> []" "list_all all_digits ?cs"
      using c(2) by (auto simp: canonical_components_def list_all_iff normal_component_def dest: in_set_takeD)
    then have split: "splitDot (joinDot ?cs) = ?cs"
      by (intro splitDot_joinDot) (auto simp: list_all_iff digits_no_dot)
    have known: "versionFrom False (joinDot ?cs)" "versionKey (joinDot ?cs) = knownKey pr v"
      using cs split by (simp_all add: versionFrom_digits versionKey_def [of "joinDot ?cs"]
        componentsKey_def knownKey_def key take_map)
    have len: "length (versionKey v) = nv_precision p" using key c(4) by simp
    have full: "knownKey pr v = versionKey v" if "length (versionKey v) \<le> ?r"
      using that by (simp add: knownKey_def)
    show ?thesis
    proof (cases sel)
      case (OsExact w)
      show ?thesis
      proof (cases "parseNumericVersion w ''os.version''")
        case (Inl e)
        then have "\<not> (versionFrom False w \<and> versionKey w \<noteq> [])"
          using parseNumericVersion_ok [of w "''os.version''"] by auto
        then show ?thesis using Some Inr Inl OsExact c(1) key c(2)
          by (auto simp: androidOsEvidenceMatches_def canonical_components_def)
      next
        case R: (Inr q)
        have lw: "length (versionKey w) = nv_precision q"
          using parseNumericVersion_Inr [OF R] canonical_key by (metis length_map)
        have w: "versionFrom False w" using parseNumericVersion_Inr [OF R] by simp
        show ?thesis using Some Inr R OsExact c(1) w full
          by (auto simp: androidOsEvidenceMatches_def osSelectorMatchesVersion_key known
            len [symmetric] lw [symmetric] not_less Let_def)
      qed
    next
      case (OsMajor m)
      then show ?thesis using Some Inr c(1)
        by (simp add: androidOsEvidenceMatches_def osSelectorMatchesVersion_key known)
    next
      case (OsMinimum w)
      then show ?thesis using Some Inr c(1)
        by (auto simp: androidOsEvidenceMatches_def osSelectorMatchesVersion_key known)
    qed
  qed
qed

text \<open>
  C39: The order of dotted releases is the numeric one at any length: on two strings the parser's
  regular expression accepts, the comparison answers the sign of the lexicographic order of their
  components' numbers without trailing zeros, so it never overflows and ignores leading and trailing
  zeros; on anything else it answers NaN. The parser accepts exactly the dotted numbers that are not
  all zero, its value orders like the input and parses to itself.
\<close>

theorem version_order_numeric:
  "compareNumericVersions a b =
     (if versionFrom False a \<and> versionFrom False b then Some (key_cmp versionKey a b) else None) \<and>
   (case parseNumericVersion a fld of
      Inl _ \<Rightarrow> \<not> (versionFrom False a \<and> versionKey a \<noteq> [])
    | Inr p \<Rightarrow> versionFrom False a \<and> versionKey a \<noteq> [] \<and> compareNumericVersions (nv_value p) a = Some 0 \<and>
        parseNumericVersion (nv_value p) fld = Inr p)"
proof -
  have "compareNumericVersions (nv_value p) a = Some 0" if "parseNumericVersion a fld = Inr p" for p
    using compareNumericVersions_key [of "nv_value p" a] parseNumericVersion_value [OF that]
      parseNumericVersion_Inr(1) [OF that] by simp
  then show ?thesis
    using compareNumericVersions_key [of a b] compareNumericVersions_None [of a b]
      parseNumericVersion_ok [of a fld] parseNumericVersion_value [of a fld]
    by (auto split: sum.splits)
qed

text \<open>
  Android evidence is sound: when a reported release with a precision is accepted for a major or
  a minimum selector, every release whose components agree with the reported one up to that precision
  is accepted by the plain selector too, whatever its finer components are; for an exact selector the
  reported release is the requested one and no component is beyond the precision.
\<close>

theorem android_evidence_sound:
  assumes "androidOsEvidenceMatches sel v (Some pr)"
    and "versionFrom False v'"
    and "take (androidPrecisionRank pr) (versionKey v') = take (androidPrecisionRank pr) (versionKey v)"
  shows "(case sel of
      OsExact w \<Rightarrow> versionKey v = versionKey w \<and> length (versionKey w) \<le> androidPrecisionRank pr
    | _ \<Rightarrow> osSelectorMatchesVersion sel v')"
proof -
  have known: "knownKey pr v = stripEnd (take (androidPrecisionRank pr) (versionKey v'))"
    using assms(3) by (simp add: knownKey_def)
  have le: "stripEnd xs \<le> xs" for xs :: "nat list"
    by (induction xs) auto
  have pre: "take n xs \<le> xs" for n and xs :: "nat list"
    by (induction xs arbitrary: n) (auto simp: take_Cons split: nat.splits)
  have below: "knownKey pr v \<le> versionKey v'"
    unfolding known using le pre by (rule order_trans)
  have hd_strip: "hd (stripEnd xs) = hd xs" if "stripEnd xs \<noteq> []" for xs
    using that by (cases xs) (auto split: if_splits)
  have hd: "hd (knownKey pr v) = hd (versionKey v')" and ne: "versionKey v' \<noteq> []"
    if "knownKey pr v \<noteq> []"
    using that hd_strip [of "take (androidPrecisionRank pr) (versionKey v')"]
    unfolding known by (auto simp: hd_take)
  show ?thesis
    using assms(1,2) below hd ne
    by (cases sel) (auto simp: androidOsEvidenceMatches_key osSelectorMatchesVersion_key)
qed

theorem android_evidence_sound_witness:
  "osSelectorMatchesVersion (OsMinimum ''15.1'') ''16.2.3''"
  using android_evidence_sound [of "OsMinimum ''15.1''" "''016.0''" "''major''" "''16.2.3''"]
  by (simp add: androidOsEvidenceMatches_key knownKey_def androidPrecisionRank_def versionKey_def
    componentsKey_def is_digit_code digit_val_def)

end
