(* ===== verification/RequirementParsing.thy ===== *)
theory RequirementParsing
  imports Version
begin

text \<open>
  Parsing a session device request (src/src/devices/sessionRequirements/parsing.ts, the watch branch of
  watch.ts and the ids of src/src/models/ManufacturerProfileIds.ts).

  A property read that may be \<open>undefined\<close> is a \<open>json option\<close>. \<open>pretty\<close> is \<open>z.prettifyError\<close> of the
  issues zod finds in a watch spec: only the text of a message depends on it. \<open>requirementJson\<close> is the
  object literal the parser builds, so parsing is idempotent exactly when it accepts its own output.
\<close>

section \<open>Fields\<close>

fun commaJoin :: "string list \<Rightarrow> string" where
  "commaJoin [] = []"
| "commaJoin [s] = s"
| "commaJoin (s # t # ss) = s @ '', '' @ commaJoin (t # ss)"

definition isRecord :: "json option \<Rightarrow> bool" where
  "isRecord v = (case v of Some (JObj _) \<Rightarrow> True | _ \<Rightarrow> False)"

definition hasOnlyKeys :: "json \<Rightarrow> string list \<Rightarrow> bool requirement_result" where
  "hasOnlyKeys v keys =
     (let unexpected = filter (\<lambda>k. \<not> List.member keys k) (map fst (objectEntries v)) in
      if unexpected = [] then Inr True
      else fail_with InvalidRequest (''Unexpected field(s): '' @ commaJoin unexpected @ ''.''))"

definition nonEmptyString :: "json option \<Rightarrow> string \<Rightarrow> string requirement_result" where
  "nonEmptyString v fld =
     (case v of
        Some (JStr s) \<Rightarrow> if s \<noteq> [] then Inr s
          else fail_at InvalidRequest (fld @ '' must be a non-empty string.'') fld
      | _ \<Rightarrow> fail_at InvalidRequest (fld @ '' must be a non-empty string.'') fld)"

text \<open>A property whose value is one of some string literals.\<close>

definition literalOf :: "string list \<Rightarrow> json option \<Rightarrow> string option" where
  "literalOf vs v = (case v of Some (JStr s) \<Rightarrow> if List.member vs s then Some s else None | _ \<Rightarrow> None)"

text \<open>\<open>isRecord(value) && typeof value.kind === "string"\<close>: the object and its kind.\<close>

definition kinded :: "json option \<Rightarrow> (json \<times> string) option" where
  "kinded v =
     (case v of
        Some (JObj kvs) \<Rightarrow> (case map_of kvs ''kind'' of Some (JStr k) \<Rightarrow> Some (JObj kvs, k) | _ \<Rightarrow> None)
      | _ \<Rightarrow> None)"

section \<open>iOS hardware\<close>

definition parseExactModel :: "json option \<Rightarrow> ios_model_reference requirement_result" where
  "parseExactModel v =
     (case v of
        Some (JObj kvs) \<Rightarrow>
          rbind (hasOnlyKeys (JObj kvs) [''namespace'', ''value'']) (\<lambda>_.
          case literalOf [''product-model'', ''simulator-device-type'', ''alias''] (map_of kvs ''namespace'') of
            None \<Rightarrow> fail_at InvalidRequest
              ''hardware.model.namespace must be product-model, simulator-device-type, or alias.''
              ''hardware.model.namespace''
          | Some ns \<Rightarrow>
              rbind (nonEmptyString (map_of kvs ''value'') ''hardware.model.value'') (\<lambda>s.
              Inr \<lparr>mf_namespace = ns, mf_value = s\<rparr>))
      | _ \<Rightarrow> fail_at InvalidRequest ''hardware.model must be an exact model reference.'' ''hardware.model'')"

definition parseIphoneModelType :: "json \<Rightarrow> ios_model_type requirement_result" where
  "parseIphoneModelType v =
     rbind (hasOnlyKeys v [''family'', ''variant'']) (\<lambda>_.
     case literalOf [''standard'', ''pro'', ''pro-max'', ''air''] (field v ''variant'') of
       Some variant \<Rightarrow> Inr \<lparr>mt_family = ''iphone'', mt_variant = variant, mt_sizeInches = None\<rparr>
     | None \<Rightarrow> fail_at InvalidRequest ''Unsupported iPhone model type.'' ''hardware.modelType.variant'')"

definition parseDuoModelType :: "json \<Rightarrow> ios_model_type requirement_result" where
  "parseDuoModelType v =
     rbind (hasOnlyKeys v [''family'', ''variant'']) (\<lambda>_.
     if field v ''variant'' = Some (JStr ''duo'')
     then Inr \<lparr>mt_family = ''duo'', mt_variant = ''duo'', mt_sizeInches = None\<rparr>
     else fail_at InvalidRequest ''Unsupported Duo model type.'' ''hardware.modelType.variant'')"

text \<open>\<open>/^\d+(?:\.\d+)?$/\<close>: at most one dot.\<close>

definition numericSize :: "string \<Rightarrow> bool" where
  "numericSize s \<longleftrightarrow> versionFrom False s \<and> length (splitDot s) \<le> 2"

definition parseIpadModelType :: "json \<Rightarrow> ios_model_type requirement_result" where
  "parseIpadModelType v =
     rbind (hasOnlyKeys v [''family'', ''variant'', ''sizeInches'']) (\<lambda>_.
     case literalOf [''standard'', ''mini'', ''air'', ''pro''] (field v ''variant'') of
       None \<Rightarrow> fail_at InvalidRequest ''Unsupported iPad model type.'' ''hardware.modelType.variant''
     | Some variant \<Rightarrow>
         (case field v ''sizeInches'' of
            None \<Rightarrow> Inr \<lparr>mt_family = ''ipad'', mt_variant = variant, mt_sizeInches = None\<rparr>
          | Some (JStr s) \<Rightarrow>
              if numericSize s
              then Inr \<lparr>mt_family = ''ipad'', mt_variant = variant, mt_sizeInches = Some s\<rparr>
              else fail_at InvalidRequest ''hardware.modelType.sizeInches must be numeric.''
                ''hardware.modelType.sizeInches''
          | _ \<Rightarrow> fail_at InvalidRequest ''hardware.modelType.sizeInches must be numeric.''
                ''hardware.modelType.sizeInches''))"

definition parseIosModelType :: "json option \<Rightarrow> ios_model_type requirement_result" where
  "parseIosModelType v =
     (case v of
        Some (JObj kvs) \<Rightarrow>
          if map_of kvs ''family'' = Some (JStr ''iphone'') then parseIphoneModelType (JObj kvs)
          else if map_of kvs ''family'' = Some (JStr ''ipad'') then parseIpadModelType (JObj kvs)
          else if map_of kvs ''family'' = Some (JStr ''duo'') then parseDuoModelType (JObj kvs)
          else fail_at InvalidRequest ''Unsupported iOS model family.'' ''hardware.modelType.family''
      | _ \<Rightarrow> fail_at InvalidRequest ''hardware.modelType must be an object.'' ''hardware.modelType'')"

definition parseIosArchetype :: "json \<Rightarrow> ios_hardware requirement_result" where
  "parseIosArchetype v =
     rbind (hasOnlyKeys v [''kind'', ''archetype'']) (\<lambda>_.
     case literalOf [''phone'', ''tablet'', ''duo''] (field v ''archetype'') of
       Some a \<Rightarrow> Inr (IosArchetype a)
     | None \<Rightarrow> fail_at InvalidRequest ''Unsupported iOS hardware archetype.'' ''hardware.archetype'')"

definition parseIosModelTypeSelector :: "json \<Rightarrow> ios_hardware requirement_result" where
  "parseIosModelTypeSelector v =
     rbind (hasOnlyKeys v [''kind'', ''modelType'']) (\<lambda>_.
     rbind (parseIosModelType (field v ''modelType'')) (\<lambda>t. Inr (IosModelType t)))"

definition parseIosExactModelSelector :: "json \<Rightarrow> ios_hardware requirement_result" where
  "parseIosExactModelSelector v =
     rbind (hasOnlyKeys v [''kind'', ''model'']) (\<lambda>_.
     rbind (parseExactModel (field v ''model'')) (\<lambda>m. Inr (IosExactModel m)))"

definition parseIosHardware :: "json option \<Rightarrow> ios_hardware requirement_result" where
  "parseIosHardware v =
     (case kinded v of
        None \<Rightarrow> fail_at InvalidRequest ''hardware must have an explicit selector kind.'' ''hardware''
      | Some (j, kind) \<Rightarrow>
          if kind = ''omitted'' then rbind (hasOnlyKeys j [''kind'']) (\<lambda>_. Inr IosOmitted)
          else if kind = ''archetype'' then parseIosArchetype j
          else if kind = ''model-type'' then parseIosModelTypeSelector j
          else if kind = ''exact-model'' then parseIosExactModelSelector j
          else fail_at InvalidRequest (''Unsupported iOS hardware selector '' @ CHR 0x27 # kind @ CHR 0x27 # ''.'')
            ''hardware.kind'')"

section \<open>Android hardware\<close>

definition parseAndroidArchetype :: "json \<Rightarrow> android_hardware requirement_result" where
  "parseAndroidArchetype v =
     rbind (hasOnlyKeys v [''kind'', ''archetype'']) (\<lambda>_.
     case literalOf [''phone'', ''tablet'', ''foldable''] (field v ''archetype'') of
       Some a \<Rightarrow> Inr (AndroidArchetype a)
     | None \<Rightarrow> fail_at InvalidRequest ''Android hardware supports only phone, tablet or foldable.''
         ''hardware.archetype'')"

definition parseAndroidExactProfile :: "json \<Rightarrow> android_hardware requirement_result" where
  "parseAndroidExactProfile v =
     rbind (hasOnlyKeys v [''kind'', ''profileId'']) (\<lambda>_.
     rbind (nonEmptyString (field v ''profileId'') ''hardware.profileId'') (\<lambda>p.
     Inr (AndroidExactProfile p)))"

definition parseAndroidHardware :: "json option \<Rightarrow> android_hardware requirement_result" where
  "parseAndroidHardware v =
     (case kinded v of
        None \<Rightarrow> fail_at InvalidRequest ''hardware must have an explicit selector kind.'' ''hardware''
      | Some (j, kind) \<Rightarrow>
          if kind = ''omitted'' then rbind (hasOnlyKeys j [''kind'']) (\<lambda>_. Inr AndroidOmitted)
          else if kind = ''archetype'' then parseAndroidArchetype j
          else if kind = ''exact-profile'' then parseAndroidExactProfile j
          else fail_at InvalidRequest
            (''Unsupported Android hardware selector '' @ CHR 0x27 # kind @ CHR 0x27 # ''.'') ''hardware.kind'')"

section \<open>OS\<close>

definition parseMajorOs :: "json \<Rightarrow> os_selector requirement_result" where
  "parseMajorOs v =
     rbind (hasOnlyKeys v [''kind'', ''major'']) (\<lambda>_.
     case field v ''major'' of
       Some (JNum m) \<Rightarrow> rbind (normalizeOsSelector (OsMajor m) ''os'') (\<lambda>_. Inr (OsGiven (OsMajor m)))
     | _ \<Rightarrow> fail_at InvalidRequest ''os.major must be a number.'' ''os.major'')"

definition parseVersionOs :: "json \<Rightarrow> (string \<Rightarrow> effective_os) \<Rightarrow> os_selector requirement_result" where
  "parseVersionOs v kind =
     rbind (hasOnlyKeys v [''kind'', ''version'']) (\<lambda>_.
     case field v ''version'' of
       Some (JStr s) \<Rightarrow> rbind (normalizeOsSelector (kind s) ''os'') (\<lambda>_. Inr (OsGiven (kind s)))
     | _ \<Rightarrow> fail_at InvalidRequest ''os.version must be a string.'' ''os.version'')"

definition parseOs :: "json option \<Rightarrow> os_selector requirement_result" where
  "parseOs v =
     (case kinded v of
        None \<Rightarrow> fail_at InvalidRequest ''os must have an explicit selector kind.'' ''os''
      | Some (j, kind) \<Rightarrow>
          if kind = ''omitted'' then rbind (hasOnlyKeys j [''kind'']) (\<lambda>_. Inr OsOmitted)
          else if kind = ''major'' then parseMajorOs j
          else if kind = ''exact'' then parseVersionOs j OsExact
          else if kind = ''minimum'' then parseVersionOs j OsMinimum
          else fail_at InvalidRequest (''Unsupported OS selector '' @ CHR 0x27 # kind @ CHR 0x27 # ''.'') ''os.kind'')"

section \<open>Requests\<close>

definition MANUFACTURER_PROFILE_IDS :: "string list" where
  "MANUFACTURER_PROFILE_IDS =
     [''pixel-baseline'', ''samsung-oneui'', ''xiaomi-hyperos'', ''oneplus-oxygenos'', ''oppo-coloros'',
      ''motorola'', ''huawei-emui'', ''vivo-funtouch'', ''realme-ui'', ''meizu-flyme'', ''asus-zenui'',
      ''sony-xperia'', ''tecno-hios'']"

definition NON_EMULATABLE_CAPABILITY_IDS :: "string list" where
  "NON_EMULATABLE_CAPABILITY_IDS =
     [''samsung-dex'', ''knox'', ''flip-cover-screen'', ''spen-air-actions'', ''oem-systemui'',
      ''oem-unused-app-triggers'', ''firmware-update-exemption-reset'', ''xiaomi-proprietary-appops'']"

definition isManufacturerProfileId :: "json option \<Rightarrow> string option" where
  "isManufacturerProfileId v = literalOf MANUFACTURER_PROFILE_IDS v"

definition isNonEmulatableCapability :: "json \<Rightarrow> string option" where
  "isNonEmulatableCapability v = literalOf NON_EMULATABLE_CAPABILITY_IDS (Some v)"

definition parseRequires :: "json option \<Rightarrow> string list option requirement_result" where
  "parseRequires v =
     (let bad = fail_at InvalidRequest (''deviceProfile.requires must list capabilities from: '' @
            commaJoin NON_EMULATABLE_CAPABILITY_IDS @ ''.'') ''deviceProfile.requires'' in
      case v of
        None \<Rightarrow> Inr None
      | Some (JArr vs) \<Rightarrow>
          if list_all (\<lambda>x. isNonEmulatableCapability x \<noteq> None) vs
          then Inr (Some (map (\<lambda>x. the (isNonEmulatableCapability x)) vs)) else bad
      | _ \<Rightarrow> bad)"

definition parseDeviceProfile :: "json option \<Rightarrow> device_profile_selector option requirement_result" where
  "parseDeviceProfile v =
     (case v of
        None \<Rightarrow> Inr None
      | Some (JObj kvs) \<Rightarrow>
          rbind (hasOnlyKeys (JObj kvs) [''manufacturerProfile'', ''requires'']) (\<lambda>_.
          case isManufacturerProfileId (map_of kvs ''manufacturerProfile'') of
            None \<Rightarrow> fail_at InvalidRequest (''deviceProfile.manufacturerProfile must be one of: '' @
              commaJoin MANUFACTURER_PROFILE_IDS @ ''.'') ''deviceProfile.manufacturerProfile''
          | Some m \<Rightarrow>
              rbind (parseRequires (map_of kvs ''requires'')) (\<lambda>rs.
              Inr (Some \<lparr>ds_manufacturer = m, ds_requires = rs\<rparr>)))
      | _ \<Rightarrow> fail_at InvalidRequest ''deviceProfile must be an object.'' ''deviceProfile'')"

definition parseIosRequest :: "json \<Rightarrow> ios_requirement requirement_result" where
  "parseIosRequest v =
     rbind (parseIosHardware (field v ''hardware'')) (\<lambda>h.
     rbind (parseOs (field v ''os'')) (\<lambda>ov.
     Inr \<lparr>ir_hardware = h, ir_os = ov\<rparr>))"

definition parseAndroidRequest :: "json \<Rightarrow> android_requirement requirement_result" where
  "parseAndroidRequest v =
     rbind (parseAndroidHardware (field v ''hardware'')) (\<lambda>h.
     rbind (parseOs (field v ''os'')) (\<lambda>ov.
     rbind (parseDeviceProfile (field v ''deviceProfile'')) (\<lambda>d.
     Inr \<lparr>ar_hardware = h, ar_os = ov, ar_deviceProfile = d\<rparr>)))"

text \<open>\<open>watchProvisionDeviceSpecSchema\<close>: a strict object of two non-empty strings.\<close>

definition watchProvisionDeviceSpec :: "json option \<Rightarrow> (string \<times> string) option" where
  "watchProvisionDeviceSpec v =
     (case v of
        Some (JObj kvs) \<Rightarrow>
          if list_all (\<lambda>k. k = ''runtime'' \<or> k = ''deviceType'') (map fst kvs)
          then Option.bind (requiredString (JObj kvs) ''runtime'') (\<lambda>r.
               Option.bind (requiredString (JObj kvs) ''deviceType'') (\<lambda>t. Some (r, t)))
          else None
      | _ \<Rightarrow> None)"

definition parseWatchSessionDeviceRequirement ::
  "(json option \<Rightarrow> string) \<Rightarrow> json \<Rightarrow> watch_requirement requirement_result" where
  "parseWatchSessionDeviceRequirement pretty v =
     (case watchProvisionDeviceSpec (field v ''spec'') of
        None \<Rightarrow> fail_at InvalidRequest
          (''spec must name exactly a watchOS runtime and an Apple Watch deviceType: '' @
           pretty (field v ''spec'')) ''spec''
      | Some (r, t) \<Rightarrow> Inr \<lparr>wr_runtime = r, wr_deviceType = t\<rparr>)"

definition parseSessionDeviceRequirement ::
  "(json option \<Rightarrow> string) \<Rightarrow> json \<Rightarrow> session_requirement requirement_result" where
  "parseSessionDeviceRequirement pretty v =
     (if \<not> isRecord (Some v)
      then fail_with InvalidRequest ''Session device requirement must be an object.''
      else
        let platform = field v ''platform'' in
        rbind (hasOnlyKeys v
          (if platform = Some (JStr ''android'')
           then [''schemaVersion'', ''platform'', ''hardware'', ''os'', ''deviceProfile'']
           else if platform = Some (JStr ''watchos'') then [''schemaVersion'', ''platform'', ''spec'']
           else [''schemaVersion'', ''platform'', ''hardware'', ''os''])) (\<lambda>_.
        if field v ''schemaVersion'' \<noteq> Some (JNum 1)
        then fail_at InvalidRequest ''schemaVersion must be 1.'' ''schemaVersion''
        else if platform = Some (JStr ''ios'') then rbind (parseIosRequest v) (\<lambda>r. Inr (RIos r))
        else if platform = Some (JStr ''android'') then rbind (parseAndroidRequest v) (\<lambda>r. Inr (RAndroid r))
        else if platform = Some (JStr ''watchos'')
        then rbind (parseWatchSessionDeviceRequirement pretty v) (\<lambda>r. Inr (RWatch r))
        else fail_at InvalidRequest ''platform must be ios, android or watchos.'' ''platform''))"

section \<open>Printing\<close>

definition modelReferenceJson :: "ios_model_reference \<Rightarrow> json" where
  "modelReferenceJson m = JObj [(''namespace'', JStr (mf_namespace m)), (''value'', JStr (mf_value m))]"

definition modelTypeJson :: "ios_model_type \<Rightarrow> json" where
  "modelTypeJson t = JObj ([(''family'', JStr (mt_family t)), (''variant'', JStr (mt_variant t))] @
     entryOf ''sizeInches'' JStr (mt_sizeInches t))"

definition iosHardwareJson :: "ios_hardware \<Rightarrow> json" where
  "iosHardwareJson h =
     (case h of
        IosOmitted \<Rightarrow> JObj [(''kind'', JStr ''omitted'')]
      | IosExactModel m \<Rightarrow> JObj [(''kind'', JStr ''exact-model''), (''model'', modelReferenceJson m)]
      | IosModelType t \<Rightarrow> JObj [(''kind'', JStr ''model-type''), (''modelType'', modelTypeJson t)]
      | IosArchetype a \<Rightarrow> JObj [(''kind'', JStr ''archetype''), (''archetype'', JStr a)])"

definition androidHardwareJson :: "android_hardware \<Rightarrow> json" where
  "androidHardwareJson h =
     (case h of
        AndroidOmitted \<Rightarrow> JObj [(''kind'', JStr ''omitted'')]
      | AndroidArchetype a \<Rightarrow> JObj [(''kind'', JStr ''archetype''), (''archetype'', JStr a)]
      | AndroidExactProfile p \<Rightarrow> JObj [(''kind'', JStr ''exact-profile''), (''profileId'', JStr p)])"

definition effectiveOsJson :: "effective_os \<Rightarrow> json" where
  "effectiveOsJson sel =
     (case sel of
        OsMajor m \<Rightarrow> JObj [(''kind'', JStr ''major''), (''major'', JNum m)]
      | OsExact v \<Rightarrow> JObj [(''kind'', JStr ''exact''), (''version'', JStr v)]
      | OsMinimum v \<Rightarrow> JObj [(''kind'', JStr ''minimum''), (''version'', JStr v)])"

definition osJson :: "os_selector \<Rightarrow> json" where
  "osJson s = (case s of OsOmitted \<Rightarrow> JObj [(''kind'', JStr ''omitted'')] | OsGiven e \<Rightarrow> effectiveOsJson e)"

definition deviceProfileJson :: "device_profile_selector \<Rightarrow> json" where
  "deviceProfileJson d = JObj ((''manufacturerProfile'', JStr (ds_manufacturer d)) #
     entryOf ''requires'' (\<lambda>rs. JArr (map JStr rs)) (ds_requires d))"

definition requirementJson :: "session_requirement \<Rightarrow> json" where
  "requirementJson r =
     (case r of
        RIos i \<Rightarrow> JObj [(''schemaVersion'', JNum 1), (''platform'', JStr ''ios''),
          (''hardware'', iosHardwareJson (ir_hardware i)), (''os'', osJson (ir_os i))]
      | RAndroid a \<Rightarrow> JObj ([(''schemaVersion'', JNum 1), (''platform'', JStr ''android''),
          (''hardware'', androidHardwareJson (ar_hardware a)), (''os'', osJson (ar_os a))] @
          entryOf ''deviceProfile'' deviceProfileJson (ar_deviceProfile a))
      | RWatch w \<Rightarrow> JObj [(''schemaVersion'', JNum 1), (''platform'', JStr ''watchos''),
          (''spec'', JObj [(''runtime'', JStr (wr_runtime w)), (''deviceType'', JStr (wr_deviceType w))])])"

section \<open>What the parser accepts\<close>

definition valid_model_type :: "ios_model_type \<Rightarrow> bool" where
  "valid_model_type t \<longleftrightarrow>
     List.member (variantsOf (mt_family t)) (mt_variant t) \<and>
     (case mt_sizeInches t of None \<Rightarrow> True | Some s \<Rightarrow> mt_family t = ''ipad'' \<and> numericSize s)"

definition valid_ios_hardware :: "ios_hardware \<Rightarrow> bool" where
  "valid_ios_hardware h =
     (case h of
        IosOmitted \<Rightarrow> True
      | IosExactModel m \<Rightarrow>
          List.member [''product-model'', ''simulator-device-type'', ''alias''] (mf_namespace m) \<and> mf_value m \<noteq> []
      | IosModelType t \<Rightarrow> valid_model_type t
      | IosArchetype a \<Rightarrow> List.member [''phone'', ''tablet'', ''duo''] a)"

definition valid_android_hardware :: "android_hardware \<Rightarrow> bool" where
  "valid_android_hardware h =
     (case h of
        AndroidOmitted \<Rightarrow> True
      | AndroidArchetype a \<Rightarrow> List.member [''phone'', ''tablet'', ''foldable''] a
      | AndroidExactProfile p \<Rightarrow> p \<noteq> [])"

definition valid_effective_os :: "effective_os \<Rightarrow> bool" where
  "valid_effective_os e =
     (case e of
        OsMajor m \<Rightarrow> isSafeInteger m \<and> 0 < m
      | OsExact v \<Rightarrow> versionFrom False v \<and> versionKey v \<noteq> []
      | OsMinimum v \<Rightarrow> versionFrom False v \<and> versionKey v \<noteq> [])"

definition valid_os :: "os_selector \<Rightarrow> bool" where
  "valid_os s = (case s of OsOmitted \<Rightarrow> True | OsGiven e \<Rightarrow> valid_effective_os e)"

definition valid_device_profile :: "device_profile_selector \<Rightarrow> bool" where
  "valid_device_profile d \<longleftrightarrow> List.member MANUFACTURER_PROFILE_IDS (ds_manufacturer d) \<and>
     (case ds_requires d of None \<Rightarrow> True | Some rs \<Rightarrow> list_all (List.member NON_EMULATABLE_CAPABILITY_IDS) rs)"

definition valid_requirement :: "session_requirement \<Rightarrow> bool" where
  "valid_requirement r =
     (case r of
        RIos i \<Rightarrow> valid_ios_hardware (ir_hardware i) \<and> valid_os (ir_os i)
      | RAndroid a \<Rightarrow> valid_android_hardware (ar_hardware a) \<and> valid_os (ar_os a) \<and>
          (case ar_deviceProfile a of None \<Rightarrow> True | Some d \<Rightarrow> valid_device_profile d)
      | RWatch w \<Rightarrow> wr_runtime w \<noteq> [] \<and> wr_deviceType w \<noteq> [])"

lemma literalOf_Some [simp]: "literalOf vs v = Some s \<longleftrightarrow> v = Some (JStr s) \<and> List.member vs s"
  by (auto simp: literalOf_def split: option.splits json.splits)

lemma literalOf_JStr: "literalOf vs (Some (JStr s)) = (if List.member vs s then Some s else None)"
  by (simp add: literalOf_def)

lemma nonEmptyString_Inr [simp]: "nonEmptyString v fld = Inr s \<longleftrightarrow> v = Some (JStr s) \<and> s \<noteq> []"
  by (auto simp: nonEmptyString_def split: option.splits json.splits)

lemma hasOnlyKeys_ok:
  "list_all (List.member ks) (map fst kvs) \<Longrightarrow> hasOnlyKeys (JObj kvs) ks = Inr True"
  by (auto simp: hasOnlyKeys_def objectEntries_def list_all_iff filter_empty_conv)

lemma normalizeOsSelector_ok:
  "(\<exists>e'. normalizeOsSelector e fld = Inr e') \<longleftrightarrow> valid_effective_os e"
  using parseNumericVersion_ok
  by (cases e) (auto simp: normalizeOsSelector_def valid_effective_os_def)

lemma normalizeOsSelector_valid: "normalizeOsSelector e fld = Inr e' \<Longrightarrow> valid_effective_os e"
  using normalizeOsSelector_ok by blast

subsection \<open>A parsed request is valid\<close>

lemma parseExactModel_valid:
  "parseExactModel v = Inr m \<Longrightarrow>
     List.member [''product-model'', ''simulator-device-type'', ''alias''] (mf_namespace m) \<and> mf_value m \<noteq> []"
  by (auto simp: parseExactModel_def split: option.splits json.splits)

lemma parseIosModelType_valid: "parseIosModelType v = Inr t \<Longrightarrow> valid_model_type t"
  by (auto simp: parseIosModelType_def parseIphoneModelType_def parseIpadModelType_def
    parseDuoModelType_def valid_model_type_def variantsOf_def split: option.splits json.splits if_splits)

lemma parseIosHardware_valid: "parseIosHardware v = Inr h \<Longrightarrow> valid_ios_hardware h"
  by (auto simp: parseIosHardware_def parseIosArchetype_def parseIosModelTypeSelector_def
    parseIosExactModelSelector_def valid_ios_hardware_def
    dest!: parseExactModel_valid parseIosModelType_valid split: option.splits if_splits)

lemma parseAndroidHardware_valid: "parseAndroidHardware v = Inr h \<Longrightarrow> valid_android_hardware h"
  by (auto simp: parseAndroidHardware_def parseAndroidArchetype_def parseAndroidExactProfile_def
    valid_android_hardware_def split: option.splits if_splits)

lemma parseOs_valid: "parseOs v = Inr s \<Longrightarrow> valid_os s"
  by (auto simp: parseOs_def parseMajorOs_def parseVersionOs_def valid_os_def
    dest!: normalizeOsSelector_valid split: option.splits json.splits if_splits)

lemma parseRequires_valid:
  "parseRequires v = Inr (Some rs) \<Longrightarrow> list_all (List.member NON_EMULATABLE_CAPABILITY_IDS) rs"
  by (fastforce simp: parseRequires_def isNonEmulatableCapability_def Let_def list_all_iff literalOf_JStr
    split: option.splits json.splits if_splits)

lemma parseDeviceProfile_valid: "parseDeviceProfile v = Inr (Some d) \<Longrightarrow> valid_device_profile d"
  by (auto simp: parseDeviceProfile_def valid_device_profile_def isManufacturerProfileId_def
    dest: parseRequires_valid split: option.splits json.splits)

lemma parseIosRequest_valid: "parseIosRequest v = Inr i \<Longrightarrow> valid_requirement (RIos i)"
  by (auto simp: parseIosRequest_def valid_requirement_def intro: parseIosHardware_valid parseOs_valid)

lemma parseAndroidRequest_valid: "parseAndroidRequest v = Inr a \<Longrightarrow> valid_requirement (RAndroid a)"
  by (auto simp: parseAndroidRequest_def valid_requirement_def
    intro: parseAndroidHardware_valid parseOs_valid dest: parseDeviceProfile_valid split: option.splits)

lemma watchSpec_valid: "watchProvisionDeviceSpec s = Some p \<Longrightarrow> fst p \<noteq> [] \<and> snd p \<noteq> []"
  by (auto simp: watchProvisionDeviceSpec_def requiredString_def bind_eq_Some_conv
    split: option.splits json.splits if_splits)

lemma parseWatch_valid:
  "parseWatchSessionDeviceRequirement pretty v = Inr w \<Longrightarrow> valid_requirement (RWatch w)"
  using watchSpec_valid [of "field v ''spec''"]
  by (auto simp: parseWatchSessionDeviceRequirement_def valid_requirement_def split: option.splits)

lemma parseSessionDeviceRequirement_cases:
  assumes "parseSessionDeviceRequirement pretty v = Inr r"
  obtains i where "r = RIos i" "parseIosRequest v = Inr i"
        | a where "r = RAndroid a" "parseAndroidRequest v = Inr a"
        | w where "r = RWatch w" "parseWatchSessionDeviceRequirement pretty v = Inr w"
proof -
  let ?p = "field v ''platform''"
  have "isRecord (Some v)"
    using assms by (cases "isRecord (Some v)") (simp_all add: parseSessionDeviceRequirement_def)
  with assms obtain ks where ks: "rbind (hasOnlyKeys v ks) (\<lambda>_.
      if field v ''schemaVersion'' \<noteq> Some (JNum 1)
      then fail_at InvalidRequest ''schemaVersion must be 1.'' ''schemaVersion''
      else if ?p = Some (JStr ''ios'') then rbind (parseIosRequest v) (\<lambda>r. Inr (RIos r))
      else if ?p = Some (JStr ''android'') then rbind (parseAndroidRequest v) (\<lambda>r. Inr (RAndroid r))
      else if ?p = Some (JStr ''watchos'')
      then rbind (parseWatchSessionDeviceRequirement pretty v) (\<lambda>r. Inr (RWatch r))
      else fail_at InvalidRequest ''platform must be ios, android or watchos.'' ''platform'') = Inr r"
    unfolding parseSessionDeviceRequirement_def Let_def by (simp only: not_True_eq_False if_False)
  consider "?p = Some (JStr ''ios'')" | "?p \<noteq> Some (JStr ''ios'')" "?p = Some (JStr ''android'')"
    | "?p \<noteq> Some (JStr ''ios'')" "?p \<noteq> Some (JStr ''android'')" by blast
  then show thesis
    using ks that by cases (auto split: if_split_asm)
qed

lemma parseSessionDeviceRequirement_valid:
  "parseSessionDeviceRequirement pretty v = Inr r \<Longrightarrow> valid_requirement r"
  by (elim parseSessionDeviceRequirement_cases)
    (auto intro: parseIosRequest_valid parseAndroidRequest_valid parseWatch_valid)

subsection \<open>A valid request parses to itself\<close>

lemma parseExactModel_print:
  "List.member [''product-model'', ''simulator-device-type'', ''alias''] (mf_namespace m) \<Longrightarrow>
     mf_value m \<noteq> [] \<Longrightarrow> parseExactModel (Some (modelReferenceJson m)) = Inr m"
  by (simp add: parseExactModel_def modelReferenceJson_def hasOnlyKeys_ok literalOf_JStr nonEmptyString_def)

lemma parseIosModelType_print:
  assumes "valid_model_type t"
  shows "parseIosModelType (Some (modelTypeJson t)) = Inr t"
proof -
  obtain f v s where t: "t = \<lparr>mt_family = f, mt_variant = v, mt_sizeInches = s\<rparr>" by (cases t)
  show ?thesis using assms unfolding t
    by (cases s)
      (auto simp: valid_model_type_def variantsOf_def parseIosModelType_def modelTypeJson_def entryOf_def
        parseIphoneModelType_def parseIpadModelType_def parseDuoModelType_def hasOnlyKeys_ok
        literalOf_JStr split: if_splits)
qed

lemma parseIosHardware_print: "valid_ios_hardware h \<Longrightarrow> parseIosHardware (Some (iosHardwareJson h)) = Inr h"
  by (cases h) (auto simp: valid_ios_hardware_def iosHardwareJson_def parseIosHardware_def kinded_def
    parseIosArchetype_def parseIosModelTypeSelector_def parseIosExactModelSelector_def hasOnlyKeys_ok
    literalOf_JStr parseExactModel_print parseIosModelType_print)

lemma parseAndroidHardware_print:
  "valid_android_hardware h \<Longrightarrow> parseAndroidHardware (Some (androidHardwareJson h)) = Inr h"
  by (cases h) (auto simp: valid_android_hardware_def androidHardwareJson_def parseAndroidHardware_def
    kinded_def parseAndroidArchetype_def parseAndroidExactProfile_def hasOnlyKeys_ok literalOf_JStr
    nonEmptyString_def)

lemma parseOs_print: "valid_os s \<Longrightarrow> parseOs (Some (osJson s)) = Inr s"
proof (cases s)
  case (OsGiven e)
  assume "valid_os s"
  then obtain e' where "normalizeOsSelector e ''os'' = Inr e'"
    using normalizeOsSelector_ok OsGiven by (auto simp: valid_os_def)
  then show ?thesis using OsGiven
    by (cases e) (simp_all add: osJson_def effectiveOsJson_def parseOs_def kinded_def parseMajorOs_def
      parseVersionOs_def hasOnlyKeys_ok)
qed (simp add: osJson_def parseOs_def kinded_def hasOnlyKeys_ok)

lemma parseDeviceProfile_print:
  "valid_device_profile d \<Longrightarrow> parseDeviceProfile (Some (deviceProfileJson d)) = Inr (Some d)"
proof (cases d)
  case (fields m rs)
  assume v: "valid_device_profile d"
  have "parseRequires (map_option (\<lambda>rs. JArr (map JStr rs)) rs) = Inr rs"
    using v fields
    by (cases rs) (auto simp: valid_device_profile_def parseRequires_def isNonEmulatableCapability_def
      literalOf_JStr list_all_iff intro!: map_idI)
  then show ?thesis using v fields
    by (cases rs) (simp_all add: valid_device_profile_def parseDeviceProfile_def deviceProfileJson_def
      entryOf_def hasOnlyKeys_ok isManufacturerProfileId_def literalOf_JStr)
qed

lemma parseSessionDeviceRequirement_print:
  assumes "valid_requirement r"
  shows "parseSessionDeviceRequirement pretty (requirementJson r) = Inr r"
proof (cases r)
  case (RIos i)
  then show ?thesis using assms
    by (simp add: valid_requirement_def requirementJson_def parseSessionDeviceRequirement_def isRecord_def
      hasOnlyKeys_ok parseIosRequest_def parseIosHardware_print parseOs_print Let_def)
next
  case (RAndroid a)
  then show ?thesis using assms
    by (cases "ar_deviceProfile a")
      (simp_all add: valid_requirement_def requirementJson_def parseSessionDeviceRequirement_def isRecord_def
        hasOnlyKeys_ok parseAndroidRequest_def parseAndroidHardware_print parseOs_print
        parseDeviceProfile_print entryOf_def parseDeviceProfile_def [of None] Let_def)
next
  case (RWatch w)
  then show ?thesis using assms
    by (simp add: valid_requirement_def requirementJson_def parseSessionDeviceRequirement_def isRecord_def
      hasOnlyKeys_ok parseWatchSessionDeviceRequirement_def watchProvisionDeviceSpec_def
      requiredString_def Let_def)
qed

text \<open>
  C40: Parsing a session request is stable: whatever value the parser accepts, the request it returns
  satisfies every rule of the schema, and the request's own JSON parses to that request again; and a
  request satisfies the rules exactly when its JSON parses to it.
\<close>

theorem request_roundtrip:
  "(case parseSessionDeviceRequirement pretty v of
      Inl _ \<Rightarrow> True
    | Inr q \<Rightarrow> valid_requirement q \<and> parseSessionDeviceRequirement pretty (requirementJson q) = Inr q) \<and>
   (valid_requirement r \<longleftrightarrow> parseSessionDeviceRequirement pretty (requirementJson r) = Inr r)"
proof (rule conjI)
  show "valid_requirement r \<longleftrightarrow> parseSessionDeviceRequirement pretty (requirementJson r) = Inr r"
    by (blast intro: parseSessionDeviceRequirement_valid parseSessionDeviceRequirement_print)
  show "case parseSessionDeviceRequirement pretty v of Inl _ \<Rightarrow> True
    | Inr q \<Rightarrow> valid_requirement q \<and> parseSessionDeviceRequirement pretty (requirementJson q) = Inr q"
    by (cases "parseSessionDeviceRequirement pretty v")
      (simp_all add: parseSessionDeviceRequirement_valid parseSessionDeviceRequirement_print)
qed

end
