(* ===== verification/RequirementCatalog.thy ===== *)
theory RequirementCatalog
  imports RequirementParsing
begin

text \<open>
  Reading a request against the installed catalog and the host defaults
  (src/src/devices/sessionRequirements/catalog.ts, normalization.ts, watch.ts) and the predicate a
  pooled device must satisfy (matching.ts).

  A missing and an empty string are both falsy; \<open>falsy\<close> says so where the code tests a property for
  truth. The message texts are the source's.
\<close>

definition falsy :: "string option \<Rightarrow> bool" where
  "falsy v \<longleftrightarrow> v = None \<or> v = Some []"

definition quoted :: "string \<Rightarrow> string" where
  "quoted s = CHR 0x27 # s @ [CHR 0x27]"

lemma falsy_simps [simp]: "falsy None" "falsy (Some s) \<longleftrightarrow> s = []"
  by (simp_all add: falsy_def)

lemma not_falsy: "\<not> falsy v \<longleftrightarrow> (\<exists>s. v = Some s \<and> s \<noteq> [])"
  by (cases v) simp_all

section \<open>Model types\<close>

definition iosModelTypeArchetype :: "ios_model_type \<Rightarrow> string" where
  "iosModelTypeArchetype t =
     (if mt_family t = ''duo'' then ''duo'' else if mt_family t = ''ipad'' then ''tablet'' else ''phone'')"

text \<open>\<open>fraction.replace(/0+$/, "")\<close>.\<close>

definition dropZerosRight :: "string \<Rightarrow> string" where
  "dropZerosRight s = rev (dropWhile (\<lambda>c. c = CHR ''0'') (rev s))"

definition normalizedSize :: "string option \<Rightarrow> string option" where
  "normalizedSize sz =
     (case sz of
        None \<Rightarrow> None
      | Some s \<Rightarrow>
          (case splitDot s of
             w # f # _ \<Rightarrow>
               (let nf = dropZerosRight f in
                if nf \<noteq> [] then Some (normalizeComponent w @ CHR ''.'' # nf) else Some (normalizeComponent w))
           | w # _ \<Rightarrow> Some (normalizeComponent w)
           | [] \<Rightarrow> None))"

definition iosModelTypesEqual :: "ios_model_type \<Rightarrow> ios_model_type \<Rightarrow> bool" where
  "iosModelTypesEqual a b =
     (if mt_family a \<noteq> mt_family b \<or> mt_variant a \<noteq> mt_variant b then False
      else if mt_family a \<noteq> ''ipad'' \<or> mt_family b \<noteq> ''ipad'' then True
      else normalizedSize (mt_sizeInches a) = normalizedSize (mt_sizeInches b))"

definition iosModelTypeMatches :: "ios_model_type \<Rightarrow> ios_model_type \<Rightarrow> bool" where
  "iosModelTypeMatches requested candidate =
     (if mt_family requested \<noteq> mt_family candidate \<or> mt_variant requested \<noteq> mt_variant candidate then False
      else if mt_family requested \<noteq> ''ipad'' \<or> mt_family candidate \<noteq> ''ipad'' then True
      else mt_sizeInches requested = None \<or>
           normalizedSize (mt_sizeInches requested) = normalizedSize (mt_sizeInches candidate))"

definition describeIosModelType :: "ios_model_type \<Rightarrow> string" where
  "describeIosModelType t =
     (if mt_family t = ''duo'' then ''Duo''
      else if mt_family t = ''iphone'' then ''iPhone '' @ mt_variant t
      else ''iPad '' @ mt_variant t @
        (case mt_sizeInches t of None \<Rightarrow> [] | Some s \<Rightarrow> '' '' @ s @ ''-inch''))"

section \<open>Catalog lookups\<close>

definition modelReferenceMatches :: "ios_catalog_model \<Rightarrow> ios_model_reference \<Rightarrow> bool" where
  "modelReferenceMatches m ref =
     (if mf_namespace ref = ''product-model'' then cm_modelIdentifier m = Some (mf_value ref)
      else if mf_namespace ref = ''simulator-device-type'' then cm_deviceType m = mf_value ref
      else (case cm_aliases m of None \<Rightarrow> False | Some as \<Rightarrow> List.member as (mf_value ref)))"

definition resolveIosModelReference ::
  "ios_model_reference \<Rightarrow> ios_catalog \<Rightarrow> string \<Rightarrow> ios_catalog_model requirement_result" where
  "resolveIosModelReference ref catalog fld =
     (let name = fld @ '' '' @ quoted (mf_value ref);
          invalid = (\<lambda>what. fail_at CatalogMetadataInvalid (name @ what) fld) in
      case filter (\<lambda>m. modelReferenceMatches m ref) (ic_models catalog) of
        _ # _ # _ \<Rightarrow>
          fail_at (if mf_namespace ref = ''alias'' then AmbiguousModelAlias else CatalogMetadataInvalid)
            (name @ '' resolves to more than one catalog model.'') fld
      | [] \<Rightarrow> fail_at UnsupportedHardware (name @ '' is not present in the installed iOS catalog.'') fld
      | [m] \<Rightarrow>
          if \<not> cm_current m then invalid '' has stale catalog metadata.''
          else if falsy (cm_archetype m) \<or> cm_modelType m = None
          then invalid '' lacks explicit archetype or model-type metadata.''
          else if map_option iosModelTypeArchetype (cm_modelType m) \<noteq> cm_archetype m
          then invalid '' has conflicting archetype and model-type metadata.''
          else Inr m)"

definition resolveAndroidExactProfile ::
  "string \<Rightarrow> android_catalog \<Rightarrow> android_catalog_profile requirement_result" where
  "resolveAndroidExactProfile profileId catalog =
     (let name = ''Android profile '' @ quoted profileId in
      case filter (\<lambda>p. ct_profileId p = profileId) (ac_profiles catalog) of
        [] \<Rightarrow>
          (let listed = commaJoin (map ct_profileId (ac_profiles catalog)) in
           fail_at UnsupportedHardware
             (name @ '' is not installed. Installed profiles: '' @
              (if listed \<noteq> [] then listed else ''none'') @ ''.'') ''hardware.profileId'')
      | _ # _ # _ \<Rightarrow> fail_with CatalogMetadataInvalid (name @ '' is duplicated in the catalog.'')
      | [p] \<Rightarrow>
          if \<not> ct_current p then fail_with CatalogMetadataInvalid (name @ '' lacks current catalog metadata.'')
          else if ct_archetype p = None
          then fail_at UnsupportedHardware
            (name @ '' has no archetype classification. Classify it as phone, tablet or foldable in androidProfileArchetypes.'')
            ''hardware.profileId''
          else Inr p)"

definition androidRequirementArchetype :: "normalized_android \<Rightarrow> string option" where
  "androidRequirementArchetype r =
     (case na_hardware r of
        AndroidArchetype a \<Rightarrow> Some a
      | _ \<Rightarrow> Option.bind (na_exactProfile r) ct_archetype)"

fun defaultsPlatform :: "session_defaults \<Rightarrow> string" where
  "defaultsPlatform (DefIos d) = ''ios''"
| "defaultsPlatform (DefAndroid d) = ''android''"

fun policyVersionOf :: "session_defaults \<Rightarrow> string" where
  "policyVersionOf (DefIos d) = id_policyVersion d"
| "policyVersionOf (DefAndroid d) = ad_policyVersion d"

fun catalogPlatform :: "session_catalog \<Rightarrow> string" where
  "catalogPlatform (CatIos c) = ''ios''"
| "catalogPlatform (CatAndroid c) = ''android''"
| "catalogPlatform (CatWatch c) = ''watchos''"

fun provenanceOf :: "session_catalog \<Rightarrow> catalog_provenance" where
  "provenanceOf (CatIos c) = ic_provenance c"
| "provenanceOf (CatAndroid c) = ac_provenance c"
| "provenanceOf (CatWatch c) = wt_provenance c"

definition validateContext ::
  "string \<Rightarrow> session_defaults \<Rightarrow> session_catalog \<Rightarrow> bool requirement_result" where
  "validateContext platform defaults catalog =
     (let pv = provenanceOf catalog in
      if defaultsPlatform defaults \<noteq> platform \<or> catalogPlatform catalog \<noteq> platform
      then fail_with InvalidConfig (''Requirement, defaults, and catalog must all target '' @ platform @ ''.'')
      else if policyVersionOf defaults = []
      then fail_at InvalidConfig ''Default policy version must be non-empty.'' ''policyVersion''
      else if cp_state pv \<noteq> CatalogReady
      then failure CatalogUnavailable
        (case cp_message pv of None \<Rightarrow> platform @ '' catalog is unavailable.'' | Some m \<Rightarrow> m) True None
      else if cp_source pv = [] \<or> cp_revision pv = []
      then fail_with CatalogMetadataInvalid ''Catalog provenance is incomplete.''
      else Inr True)"

section \<open>Normalization\<close>

definition invalidConfig :: "string \<Rightarrow> string option \<Rightarrow> 'a requirement_result" where
  "invalidConfig message fld = failure InvalidConfig message False fld"

lemma invalidConfig_not_Inr [simp, res_simps]: "invalidConfig m f \<noteq> Inr x"
  by (simp add: invalidConfig_def)

text \<open>An error of a nested check reported as a configuration error.\<close>

definition asInvalidConfig :: "'a requirement_result \<Rightarrow> 'a requirement_result" where
  "asInvalidConfig r = (case r of Inl e \<Rightarrow> invalidConfig (re_message e) (re_field e) | Inr x \<Rightarrow> Inr x)"

lemma asInvalidConfig_Inr [simp, res_simps]: "asInvalidConfig r = Inr x \<longleftrightarrow> r = Inr x"
  by (cases r) (simp_all add: asInvalidConfig_def)

definition normalizeDefaultOs :: "os_default_policy \<Rightarrow> effective_os requirement_result" where
  "normalizeDefaultOs policy =
     rbind (asInvalidConfig (normalizeOsSelector (op_selector policy) ''defaults.os.selector'')) (\<lambda>sel.
     rbind (asInvalidConfig (parseNumericVersion (op_preferredVersion policy) ''defaults.os.preferredVersion'')) (\<lambda>p.
     if \<not> osSelectorMatchesVersion sel (nv_value p)
     then invalidConfig (''Preferred OS release '' @ quoted (op_preferredVersion policy) @
       '' does not satisfy the configured default predicate.'') (Some ''defaults.os.preferredVersion'')
     else Inr sel))"

definition effectiveOs :: "os_selector \<Rightarrow> effective_os \<Rightarrow> effective_os requirement_result" where
  "effectiveOs requested configured =
     (case requested of OsOmitted \<Rightarrow> Inr configured | OsGiven e \<Rightarrow> normalizeOsSelector e ''os'')"

definition provenance :: "session_defaults \<Rightarrow> session_catalog \<Rightarrow> string list \<Rightarrow> requirement_provenance" where
  "provenance defaults catalog applied =
     \<lparr>rp_policyVersion = policyVersionOf defaults, rp_catalogSource = cp_source (provenanceOf catalog),
      rp_catalogRevision = cp_revision (provenanceOf catalog), rp_defaultsApplied = applied\<rparr>"

definition effectiveIosHardware :: "ios_requirement \<Rightarrow> ios_defaults \<Rightarrow> ios_hardware requirement_result" where
  "effectiveIosHardware request defaults =
     (if id_omitted defaults \<noteq> ''phone'' \<and> id_omitted defaults \<noteq> ''tablet'' \<and> id_omitted defaults \<noteq> ''duo''
      then invalidConfig ''The omitted iOS hardware default is invalid.'' (Some ''defaults.hardware.omitted'')
      else Inr (if ir_hardware request = IosOmitted then IosArchetype (id_omitted defaults)
                else ir_hardware request))"

definition optionalExactModel ::
  "ios_hardware \<Rightarrow> ios_catalog \<Rightarrow> ios_catalog_model option requirement_result" where
  "optionalExactModel hardware catalog =
     (case hardware of
        IosExactModel ref \<Rightarrow> rbind (resolveIosModelReference ref catalog ''hardware.model'') (\<lambda>m. Inr (Some m))
      | _ \<Rightarrow> Inr None)"

definition appliedDefaults :: "bool \<Rightarrow> os_selector \<Rightarrow> string list" where
  "appliedDefaults hardwareOmitted osel =
     (if hardwareOmitted then [''hardware-archetype''] else []) @
     (if osel = OsOmitted then [''os-predicate''] else [])"

definition normalizeIos ::
  "ios_requirement \<Rightarrow> ios_defaults \<Rightarrow> ios_catalog \<Rightarrow> normalized_ios requirement_result" where
  "normalizeIos original defaults catalog =
     rbind (effectiveIosHardware original defaults) (\<lambda>hardware.
     rbind (normalizeDefaultOs (id_os defaults)) (\<lambda>defaultOs.
     rbind (effectiveOs (ir_os original) defaultOs) (\<lambda>normalizedOs.
     rbind (optionalExactModel hardware catalog) (\<lambda>exactModel.
     Inr \<lparr>ni_original = original, ni_hardware = hardware, ni_os = normalizedOs, ni_exactModel = exactModel,
          ni_provenance = provenance (DefIos defaults) (CatIos catalog)
            (appliedDefaults (ir_hardware original = IosOmitted) (ir_os original))\<rparr>))))"

definition normalizeAndroid ::
  "android_requirement \<Rightarrow> android_defaults \<Rightarrow> android_catalog \<Rightarrow> normalized_android requirement_result" where
  "normalizeAndroid original defaults catalog =
     (if ad_omitted defaults \<noteq> ''phone'' \<and> ad_omitted defaults \<noteq> ''tablet'' \<and> ad_omitted defaults \<noteq> ''foldable''
      then invalidConfig ''The omitted Android hardware default must be phone, tablet or foldable.''
        (Some ''defaults.hardware.omitted'')
      else
        rbind (normalizeDefaultOs (ad_os defaults)) (\<lambda>defaultOs.
        let hardware = (if ar_hardware original = AndroidOmitted then AndroidArchetype (ad_omitted defaults)
                        else ar_hardware original) in
        rbind (effectiveOs (ar_os original) defaultOs) (\<lambda>normalizedOs.
        rbind (case hardware of
                 AndroidExactProfile p \<Rightarrow> rbind (resolveAndroidExactProfile p catalog) (\<lambda>x. Inr (Some x))
               | _ \<Rightarrow> Inr None) (\<lambda>exact.
        Inr \<lparr>na_original = original, na_hardware = hardware, na_os = normalizedOs, na_exactProfile = exact,
             na_provenance = provenance (DefAndroid defaults) (CatAndroid catalog)
               (appliedDefaults (ar_hardware original = AndroidOmitted) (ar_os original))\<rparr>))))"

definition normalizeSessionDeviceRequirement ::
  "(json option \<Rightarrow> string) \<Rightarrow> json \<Rightarrow> session_defaults \<Rightarrow> session_catalog \<Rightarrow> normalized_requirement requirement_result" where
  "normalizeSessionDeviceRequirement pretty request defaults catalog =
     rbind (parseSessionDeviceRequirement pretty request) (\<lambda>parsed.
     case parsed of
       RWatch w \<Rightarrow> invalidConfig ''A watchOS requirement is not resolved through host defaults.'' None
     | RIos i \<Rightarrow>
         rbind (validateContext ''ios'' defaults catalog) (\<lambda>_.
         case (defaults, catalog) of
           (DefIos d, CatIos c) \<Rightarrow> rbind (normalizeIos i d c) (\<lambda>n. Inr (NIos n))
         | _ \<Rightarrow> invalidConfig ''Requirement context could not be narrowed to one platform.'' None)
     | RAndroid a \<Rightarrow>
         rbind (validateContext ''android'' defaults catalog) (\<lambda>_.
         case (defaults, catalog) of
           (DefAndroid d, CatAndroid c) \<Rightarrow> rbind (normalizeAndroid a d c) (\<lambda>n. Inr (NAndroid n))
         | _ \<Rightarrow> invalidConfig ''Requirement context could not be narrowed to one platform.'' None))"

section \<open>Watches\<close>

definition listOrNone :: "string list \<Rightarrow> string" where
  "listOrNone vs = (if vs \<noteq> [] then commaJoin vs else ''none installed'')"

definition normalizeWatchSessionDeviceRequirement ::
  "watch_requirement \<Rightarrow> session_catalog \<Rightarrow> normalized_watch requirement_result" where
  "normalizeWatchSessionDeviceRequirement request catalog =
     (case catalog of
        CatWatch c \<Rightarrow>
          (let pv = wt_provenance c; r = wr_runtime request; t = wr_deviceType request;
               installed = filter wc_installed (wt_runtimes c) in
           if cp_state pv = CatalogNotInstalled
           then fail_at UnsupportedHardware
             (case cp_message pv of Some m \<Rightarrow> m
              | None \<Rightarrow> ''Apple Watch simulators exist only on macOS hosts with Xcode'' @ CHR 0x27 # ''s simctl.'') ''platform''
           else if cp_state pv \<noteq> CatalogReady
           then failure CatalogUnavailable
             (case cp_message pv of Some m \<Rightarrow> m
              | None \<Rightarrow> ''The Apple Watch simulator catalog is unavailable.'') True None
           else if \<not> list_ex (\<lambda>e. fst e = t) (wt_deviceTypes c)
           then fail_at UnsupportedHardware
             (''Unknown Apple Watch device type '' @ quoted t @ ''. Available: '' @
              listOrNone (map fst (wt_deviceTypes c))) ''spec.deviceType''
           else if \<not> list_ex (\<lambda>e. wc_runtime e = r) installed
           then fail_at MissingInstalledRuntime
             ((if list_ex (\<lambda>e. wc_runtime e = r) (wt_runtimes c) then ''Unavailable'' else ''Unknown'') @
              '' watchOS runtime '' @ quoted r @ ''. Available: '' @ listOrNone (map wc_runtime installed))
             ''spec.runtime''
           else Inr \<lparr>nw_original = request, nw_profile = \<lparr>wp_runtime = r, wp_deviceType = t\<rparr>,
                     nw_catalogSource = cp_source pv, nw_catalogRevision = cp_revision pv\<rparr>)
      | _ \<Rightarrow> fail_with InvalidConfig ''Requirement and catalog must both target watchos.'')"

text \<open>A watch profile is always current: its \<open>metadataState\<close> has one value.\<close>

definition matchWatchSessionDevice :: "normalized_watch \<Rightarrow> session_device_profile \<Rightarrow> predicate_match" where
  "matchWatchSessionDevice requirement candidate =
     (case candidate of
        KWatch w \<Rightarrow>
          if wp_deviceType w \<noteq> wp_deviceType (nw_profile requirement) then Mismatch MHardware
          else if wp_runtime w = wp_runtime (nw_profile requirement) then Match else Mismatch MOs
      | _ \<Rightarrow> Mismatch MPlatform)"

section \<open>Matching\<close>

definition matchIosHardware :: "normalized_ios \<Rightarrow> ios_candidate \<Rightarrow> predicate_match" where
  "matchIosHardware requirement candidate =
     (let byArchetype = (\<lambda>a. if falsy (ik_archetype candidate) then Mismatch MUnknownHardware
            else if ik_archetype candidate = a then Match else Mismatch MHardware) in
      case ni_hardware requirement of
        IosExactModel _ \<Rightarrow>
          (case ni_exactModel requirement of
             None \<Rightarrow> Mismatch MUnknownHardware
           | Some m \<Rightarrow>
               if falsy (ik_deviceType candidate) then Mismatch MUnknownHardware
               else if ik_deviceType candidate = Some (cm_deviceType m) then Match else Mismatch MHardware)
      | IosModelType t \<Rightarrow>
          (case ik_modelType candidate of
             None \<Rightarrow> Mismatch MUnknownHardware
           | Some u \<Rightarrow> if iosModelTypeMatches t u then Match else Mismatch MHardware)
      | IosArchetype a \<Rightarrow> byArchetype (Some a)
      | IosOmitted \<Rightarrow> byArchetype None)"

definition matchAndroidHardware :: "normalized_android \<Rightarrow> android_candidate \<Rightarrow> predicate_match" where
  "matchAndroidHardware requirement candidate =
     (case na_hardware requirement of
        AndroidExactProfile p \<Rightarrow>
          if falsy (ak_profileId candidate) then Mismatch MUnknownHardware
          else if ak_profileId candidate = Some p then Match else Mismatch MHardware
      | _ \<Rightarrow>
          if falsy (ak_archetype candidate) then Mismatch MUnknownHardware
          else if ak_archetype candidate = androidRequirementArchetype requirement then Match
          else Mismatch MHardware)"

definition releaseOf :: "string option \<Rightarrow> string option" where
  "releaseOf v =
     (case v of None \<Rightarrow> None
      | Some s \<Rightarrow> if s = [] then None
          else (case parseNumericVersion s ''os.version'' of Inl _ \<Rightarrow> None | Inr _ \<Rightarrow> Some s))"

definition matchIosOs :: "effective_os \<Rightarrow> ios_candidate \<Rightarrow> predicate_match" where
  "matchIosOs sel candidate =
     (case releaseOf (ik_osVersion candidate) of
        None \<Rightarrow> Mismatch MUnknownOs
      | Some v \<Rightarrow> if osSelectorMatchesVersion sel v then Match else Mismatch MOs)"

definition matchAndroidOs :: "effective_os \<Rightarrow> android_candidate \<Rightarrow> predicate_match" where
  "matchAndroidOs sel candidate =
     (case releaseOf (ak_osVersion candidate) of
        None \<Rightarrow> Mismatch MUnknownOs
      | Some v \<Rightarrow>
          if falsy (ak_precision candidate) then Mismatch MUnknownOs
          else if androidOsEvidenceMatches sel v (ak_precision candidate) then Match else Mismatch MOs)"

definition bothMatch :: "predicate_match \<Rightarrow> predicate_match \<Rightarrow> predicate_match" where
  "bothMatch a b = (if a = Match then b else a)"

definition matchSessionDevice :: "normalized_requirement \<Rightarrow> session_device_profile \<Rightarrow> predicate_match" where
  "matchSessionDevice requirement candidate =
     (case (requirement, candidate) of
        (NIos r, KIos c) \<Rightarrow>
          if \<not> ik_current c then Mismatch MStaleMetadata
          else bothMatch (matchIosHardware r c) (matchIosOs (ni_os r) c)
      | (NAndroid r, KAndroid c) \<Rightarrow>
          if \<not> ak_current c then Mismatch MStaleMetadata
          else bothMatch (matchAndroidHardware r c) (matchAndroidOs (na_os r) c)
      | _ \<Rightarrow> Mismatch MPlatform)"

lemma bothMatch_Match [simp]: "bothMatch a b = Match \<longleftrightarrow> a = Match \<and> b = Match"
  by (simp add: bothMatch_def)

end
