(* ===== verification/RequirementResolution.thy ===== *)
theory RequirementResolution
  imports RequirementCatalog
begin

text \<open>
  Resolving a normalized request to one exact profile to create
  (src/src/devices/sessionRequirements/resolution.ts) and the pool filter of an admission
  (src/src/daemon/sessionBroker/brokerPoolMatch.ts).

  \<open>lc\<close> is \<open>localeCompare\<close>. A comparison that answers NaN is falsy in \<open>a || b\<close>, so the sort falls
  through to the identity; the releases that are sorted are valid, so this never happens.
\<close>

section \<open>iOS hardware\<close>

definition findUnique :: "'a list \<Rightarrow> ('a \<Rightarrow> bool) \<Rightarrow> string \<Rightarrow> 'a requirement_result" where
  "findUnique vs matches description =
     (case filter matches vs of
        [] \<Rightarrow> invalidConfig (''Missing '' @ description @ ''.'') None
      | [v] \<Rightarrow> Inr v
      | _ \<Rightarrow> invalidConfig (''Conflicting '' @ description @ '' entries.'') None)"

definition modelFromDefault ::
  "ios_model_type \<Rightarrow> ios_defaults \<Rightarrow> ios_catalog \<Rightarrow> ios_catalog_model requirement_result" where
  "modelFromDefault t defaults catalog =
     rbind (findUnique (id_modelTypes defaults) (\<lambda>e. iosModelTypesEqual (fst e) t)
              (''exact-model default for '' @ describeIosModelType t)) (\<lambda>configured.
     rbind (asInvalidConfig (resolveIosModelReference (snd configured) catalog
              ''defaults.hardware.modelTypes.model'')) (\<lambda>m.
     if (case cm_modelType m of None \<Rightarrow> True | Some u \<Rightarrow> \<not> iosModelTypesEqual u t)
     then invalidConfig (''Configured model '' @ quoted (cm_name m) @ '' does not belong to '' @
       describeIosModelType t @ ''.'') (Some ''defaults.hardware.modelTypes'')
     else Inr m))"

record ios_hardware_resolution =
  ih_model :: ios_catalog_model
  ih_by :: hardware_by
  ih_path :: "string list"

text \<open>\<open>IosOmitted\<close> is not an effective selector; the code would read a missing archetype.\<close>

definition resolveIosHardware ::
  "normalized_ios \<Rightarrow> ios_defaults \<Rightarrow> ios_catalog \<Rightarrow> ios_hardware_resolution requirement_result" where
  "resolveIosHardware requirement defaults catalog =
     (case ni_hardware requirement of
        IosExactModel _ \<Rightarrow>
          (case ni_exactModel requirement of
             Some m \<Rightarrow> Inr \<lparr>ih_model = m, ih_by = ByExplicitModel, ih_path = []\<rparr>
           | None \<Rightarrow> fail_with CatalogMetadataInvalid ''Normalized exact iOS model is missing.'')
      | IosModelType t \<Rightarrow>
          rbind (modelFromDefault t defaults catalog) (\<lambda>m.
          Inr \<lparr>ih_model = m, ih_by = ByModelTypeDefault,
               ih_path = [describeIosModelType t, cm_deviceType m]\<rparr>)
      | IosArchetype a \<Rightarrow>
          rbind (findUnique (id_archetypes defaults) (\<lambda>e. fst e = a)
                   (''model-type default for iOS '' @ a)) (\<lambda>d.
          if iosModelTypeArchetype (snd d) \<noteq> a
          then invalidConfig (''The '' @ a @ '' default points to '' @ describeIosModelType (snd d) @ ''.'')
            (Some ''defaults.hardware.archetypes'')
          else
            rbind (modelFromDefault (snd d) defaults catalog) (\<lambda>m.
            Inr \<lparr>ih_model = m, ih_by = ByArchetypeDefault,
                 ih_path = [a, describeIosModelType (snd d), cm_deviceType m]\<rparr>))
      | IosOmitted \<Rightarrow> invalidConfig ''Missing model-type default for iOS undefined.'' None)"

section \<open>Android hardware\<close>

definition androidProfileDefault ::
  "normalized_android \<Rightarrow> android_defaults \<Rightarrow> android_profile_default requirement_result" where
  "androidProfileDefault requirement defaults =
     (case androidRequirementArchetype requirement of
        None \<Rightarrow> fail_with UnsupportedHardware ''The Android request has no classified archetype.''
      | Some a \<Rightarrow>
          if a = ''foldable'' \<and> \<not> list_ex (\<lambda>e. pd_archetype e = a) (ad_profiles defaults)
          then fail_with UnsupportedHardware
            ''This host has no foldable profile mapped. Configure defaults.android.hardware.profiles with a foldable profileId and classify it in androidProfileArchetypes.''
          else findUnique (ad_profiles defaults) (\<lambda>e. pd_archetype e = a)
            (''Android '' @ a @ '' profile default''))"

definition orEmpty :: "string option \<Rightarrow> string" where
  "orEmpty v = (case v of None \<Rightarrow> [] | Some s \<Rightarrow> s)"

definition androidExactProfileDefault ::
  "android_catalog_profile \<Rightarrow> android_defaults \<Rightarrow> android_profile_default option requirement_result" where
  "androidExactProfileDefault profile defaults =
     (let named = filter (\<lambda>e. pd_profileId e = ct_profileId profile) (ad_profiles defaults);
          candidates = (if named \<noteq> [] then named
            else filter (\<lambda>e. Some (pd_archetype e) = ct_archetype profile) (ad_profiles defaults)) in
      case candidates of
        [] \<Rightarrow> Inr None
      | [c] \<Rightarrow> Inr (Some c)
      | _ \<Rightarrow> invalidConfig (''Conflicting Android '' @ orEmpty (ct_archetype profile) @
          '' profile default entries.'') (Some ''defaults.hardware.profiles''))"

definition androidRequirementMemoryMb ::
  "normalized_android \<Rightarrow> android_defaults \<Rightarrow> int option requirement_result" where
  "androidRequirementMemoryMb requirement defaults =
     (case na_exactProfile requirement of
        Some p \<Rightarrow> rbind (androidExactProfileDefault p defaults) (\<lambda>d. Inr (Option.bind d pd_memoryMb))
      | None \<Rightarrow> rbind (androidProfileDefault requirement defaults) (\<lambda>d. Inr (pd_memoryMb d)))"

record android_hardware_resolution =
  ah_memoryMb :: "int option"
  ah_profileId :: string
  ah_archetype :: string
  ah_by :: hardware_by
  ah_path :: "string list"

definition resolveAndroidExactHardware ::
  "android_catalog_profile \<Rightarrow> android_defaults \<Rightarrow> android_catalog \<Rightarrow> android_hardware_resolution requirement_result" where
  "resolveAndroidExactHardware exact defaults catalog =
     rbind (resolveAndroidExactProfile (ct_profileId exact) catalog) (\<lambda>current.
     rbind (androidExactProfileDefault current defaults) (\<lambda>d.
     Inr \<lparr>ah_memoryMb = Option.bind d pd_memoryMb, ah_profileId = ct_profileId current,
          ah_archetype = orEmpty (ct_archetype current), ah_by = ByExplicitModel,
          ah_path = [''exact-profile'', ct_profileId current]\<rparr>))"

definition resolveAndroidHardware ::
  "normalized_android \<Rightarrow> android_defaults \<Rightarrow> android_catalog \<Rightarrow> android_hardware_resolution requirement_result" where
  "resolveAndroidHardware requirement defaults catalog =
     (case na_exactProfile requirement of
        Some exact \<Rightarrow> resolveAndroidExactHardware exact defaults catalog
      | None \<Rightarrow>
          rbind (androidProfileDefault requirement defaults) (\<lambda>configured.
          let a = pd_archetype configured; i = pd_profileId configured in
          case filter (\<lambda>p. ct_profileId p = i) (ac_profiles catalog) of
            [] \<Rightarrow> fail_at UnsupportedHardware
              (''Configured Android '' @ a @ '' profile '' @ quoted i @
               '' is not installed. Install it and configure defaults.android.hardware.profiles.'')
              ''defaults.hardware.profiles''
          | _ # _ # _ \<Rightarrow> fail_with CatalogMetadataInvalid
              (''Android profile '' @ quoted i @ '' is duplicated in the catalog.'')
          | [p] \<Rightarrow>
              if \<not> ct_current p \<or> falsy (ct_archetype p)
              then fail_with CatalogMetadataInvalid
                (''Android profile '' @ quoted (ct_profileId p) @ '' lacks current archetype metadata.'')
              else if ct_archetype p \<noteq> Some a
              then invalidConfig (''Configured Android profile '' @ quoted (ct_profileId p) @ '' is '' @
                orEmpty (ct_archetype p) @ '', not '' @ a @
                ''. Configure defaults.android.hardware.profiles with an installed '' @ a @
                '' profile and check androidProfileArchetypes.'') (Some ''defaults.hardware.profiles'')
              else Inr \<lparr>ah_memoryMb = pd_memoryMb configured, ah_profileId = ct_profileId p,
                        ah_archetype = a, ah_by = ByArchetypeDefault, ah_path = [a, ct_profileId p]\<rparr>))"

section \<open>Releases\<close>

definition is_release :: "string option \<Rightarrow> bool" where
  "is_release v =
     (case v of None \<Rightarrow> False
      | Some s \<Rightarrow> (case parseNumericVersion s ''os.version'' of Inl _ \<Rightarrow> False | Inr _ \<Rightarrow> True))"

definition validIosReleases :: "ios_catalog_release list \<Rightarrow> ios_catalog_release list" where
  "validIosReleases rs = filter (\<lambda>r. ci_installed r \<and> ci_current r \<and> is_release (ci_osVersion r)) rs"

definition validAndroidReleases :: "android_catalog_release list \<Rightarrow> android_catalog_release list" where
  "validAndroidReleases rs =
     filter (\<lambda>r. ca_installed r \<and> ca_current r \<and> ca_osVersion r \<noteq> None \<and> 0 < ca_apiLevel r \<and>
       0 < length (ca_abi r) \<and> 0 < length (ca_flavor r) \<and> is_release (ca_osVersion r)) rs"

definition releaseCompare ::
  "string cmp \<Rightarrow> ('r \<Rightarrow> string) \<Rightarrow> ('r \<Rightarrow> string) \<Rightarrow> 'r cmp" where
  "releaseCompare lc version identity a b =
     (case compareNumericVersions (version b) (version a) of
        Some d \<Rightarrow> if d \<noteq> 0 then d else lc (identity a) (identity b)
      | None \<Rightarrow> lc (identity a) (identity b))"

definition stableReleaseSort ::
  "string cmp \<Rightarrow> 'r list \<Rightarrow> ('r \<Rightarrow> string) \<Rightarrow> ('r \<Rightarrow> string) \<Rightarrow> 'r list" where
  "stableReleaseSort lc rs version identity = js_sort (releaseCompare lc version identity) rs"

definition describeOsSelector :: "effective_os \<Rightarrow> string" where
  "describeOsSelector sel =
     (case sel of OsMajor m \<Rightarrow> ''major '' @ int_string m
      | OsExact v \<Rightarrow> ''exact '' @ v | OsMinimum v \<Rightarrow> ''minimum '' @ v)"

text \<open>The three columns \<open>noRuntimeResult\<close> reads of a release: installed, current, version.\<close>

type_synonym release_view = "bool \<times> bool \<times> string option"

definition iosView :: "ios_catalog_release \<Rightarrow> release_view" where
  "iosView r = (ci_installed r, ci_current r, ci_osVersion r)"

definition androidView :: "android_catalog_release \<Rightarrow> release_view" where
  "androidView r = (ca_installed r, ca_current r, ca_osVersion r)"

definition unusableRelease :: "effective_os \<Rightarrow> bool \<Rightarrow> release_view \<Rightarrow> bool" where
  "unusableRelease sel ios r =
     (fst r \<and> (snd (snd r) \<noteq> None \<or> ios) \<and>
      (snd (snd r) = None \<or> \<not> is_release (snd (snd r)) \<or>
       \<not> fst (snd r) \<and> osSelectorMatchesVersion sel (orEmpty (snd (snd r)))))"

definition noRuntimeResult :: "effective_os \<Rightarrow> release_view list \<Rightarrow> bool \<Rightarrow> 'a requirement_result" where
  "noRuntimeResult sel rs ios =
     (let unrecognized = length (filter (\<lambda>r. \<not> ios \<and> fst r \<and> snd (snd r) = None) rs) in
      if list_ex (unusableRelease sel ios) rs
      then fail_with CatalogMetadataInvalid
        (''Installed release metadata is stale or incomplete for '' @ describeOsSelector sel @ ''.'')
      else fail_with MissingInstalledRuntime
        (''No installed runtime satisfies '' @ describeOsSelector sel @ ''.'' @
         (if 0 < unrecognized
          then '' '' @ nat_string unrecognized @
            '' installed system image(s) were skipped because their Android release is not recognized.''
          else [])))"

lemma noRuntimeResult_not_Inr [simp, res_simps]: "noRuntimeResult sel rs ios \<noteq> Inr x"
  by (simp add: noRuntimeResult_def Let_def)

subsection \<open>iOS\<close>

definition compatibilityBound ::
  "string option \<Rightarrow> ios_catalog_model \<Rightarrow> string \<Rightarrow> string option requirement_result" where
  "compatibilityBound v model label =
     (case v of
        None \<Rightarrow> Inr None
      | Some s \<Rightarrow>
          (case parseNumericVersion s ''os.version'' of
             Inl _ \<Rightarrow> fail_with CatalogMetadataInvalid
               (''Model '' @ quoted (cm_name model) @ '' has a malformed '' @ label @ '' runtime version.'')
           | Inr p \<Rightarrow> Inr (Some (nv_value p))))"

definition compares :: "string \<Rightarrow> string \<Rightarrow> (int \<Rightarrow> bool) \<Rightarrow> bool" where
  "compares a b p = (case compareNumericVersions a b of None \<Rightarrow> False | Some d \<Rightarrow> p d)"

definition outsideIosCompatibilityBounds :: "string \<Rightarrow> string option \<Rightarrow> string option \<Rightarrow> bool" where
  "outsideIosCompatibilityBounds v minimum maximum =
     (if (case minimum of None \<Rightarrow> False | Some lo \<Rightarrow> compares v lo (\<lambda>d. d < 0)) then True
      else (case maximum of None \<Rightarrow> False | Some hi \<Rightarrow> compares v hi (\<lambda>d. 0 < d)))"

definition iosCompatible ::
  "ios_catalog_model \<Rightarrow> ios_catalog_release list \<Rightarrow> ios_catalog_release list" where
  "iosCompatible model satisfying =
     (case (compatibilityBound (cm_minOsVersion model) model ''minimum'',
            compatibilityBound (cm_maxOsVersion model) model ''maximum'') of
        (Inr lo, Inr hi) \<Rightarrow>
          (let compatible = filter (\<lambda>r. \<not> outsideIosCompatibilityBounds (orEmpty (ci_osVersion r)) lo hi) satisfying in
           if compatible \<noteq> [] then compatible else satisfying)
      | _ \<Rightarrow> satisfying)"

definition isPreferred :: "string \<Rightarrow> string option \<Rightarrow> bool" where
  "isPreferred preferred v = compares (orEmpty v) preferred (\<lambda>d. d = 0)"

text \<open>The choice shared by both platforms: the preferred release if it is there, else the first.\<close>

definition pickRelease ::
  "effective_os \<Rightarrow> ('r \<Rightarrow> bool) \<Rightarrow> 'r list \<Rightarrow> 'r \<times> os_by" where
  "pickRelease sel preferred ordered =
     (case sel of
        OsExact _ \<Rightarrow> (hd ordered, ByExact)
      | _ \<Rightarrow>
          (case List.find preferred ordered of
             Some r \<Rightarrow> (r, ByPreferredDefault)
           | None \<Rightarrow> (hd ordered, ByHighestSatisfying)))"

definition chooseIosRelease ::
  "string cmp \<Rightarrow> effective_os \<Rightarrow> string \<Rightarrow> ios_catalog_release list \<Rightarrow> ios_catalog_model \<Rightarrow>
   (ios_catalog_release \<times> os_by) requirement_result" where
  "chooseIosRelease lc sel preferredVersion rs model =
     (let satisfying = filter (\<lambda>r. osSelectorMatchesVersion sel (orEmpty (ci_osVersion r))) (validIosReleases rs) in
      if satisfying = [] then noRuntimeResult sel (map iosView rs) True
      else
        let chosen = (case sel of OsExact _ \<Rightarrow> satisfying | _ \<Rightarrow> iosCompatible model satisfying);
            ordered = stableReleaseSort lc chosen (\<lambda>r. orEmpty (ci_osVersion r)) ci_runtimeId in
        Inr (pickRelease sel (\<lambda>r. isPreferred preferredVersion (ci_osVersion r)) ordered))"

definition evaluateIosCompatibility :: "ios_catalog_model \<Rightarrow> string \<Rightarrow> string requirement_result" where
  "evaluateIosCompatibility model v =
     rbind (compatibilityBound (cm_minOsVersion model) model ''minimum'') (\<lambda>minimum.
     rbind (compatibilityBound (cm_maxOsVersion model) model ''maximum'') (\<lambda>maximum.
     if outsideIosCompatibilityBounds v minimum maximum
     then fail_with RuntimeIncompatible (''Model '' @ quoted (cm_name model) @
       '' is incompatible with iOS '' @ v @ ''; the exact pair was preserved.'')
     else Inr (if minimum \<noteq> None \<or> maximum \<noteq> None then ''supported'' else ''unknown'')))"

subsection \<open>Android\<close>

definition insufficientAndroidExactPrecision :: "string \<Rightarrow> android_catalog_release list \<Rightarrow> bool" where
  "insufficientAndroidExactPrecision requestedVersion rs =
     (case parseNumericVersion requestedVersion ''os.version'' of
        Inl _ \<Rightarrow> False
      | Inr q \<Rightarrow>
          list_ex (\<lambda>r.
            (case parseNumericVersion (orEmpty (ca_osVersion r)) ''os.version'' of
               Inl _ \<Rightarrow> False
             | Inr p \<Rightarrow>
                 (let known = androidPrecisionRank (ca_precision r) in
                  if nv_precision q \<le> known then False
                  else list_all (\<lambda>i. nv_components q ! i =
                      (if i < length (nv_components p) then nv_components p ! i else ''0''))
                    [0..<min known (length (nv_components q))]))) rs)"

text \<open>\<open>hostAbis.indexOf\<close>, or the length when the ABI is not there.\<close>

fun abiRank :: "string list \<Rightarrow> string \<Rightarrow> nat" where
  "abiRank [] abi = 0"
| "abiRank (a # as) abi = (if a = abi then 0 else Suc (abiRank as abi))"

definition padStart :: "nat \<Rightarrow> string \<Rightarrow> string" where
  "padStart n s = replicate (n - length s) CHR ''0'' @ s"

definition androidTieBreakIdentity :: "string list \<Rightarrow> android_catalog_release \<Rightarrow> string" where
  "androidTieBreakIdentity hostAbis r =
     padStart 3 (nat_string (abiRank hostAbis (ca_abi r))) @ ''|'' @
     (if ca_flavor r = ''google_apis'' then ''0'' else ''1'') @ ''|'' @ ca_systemImage r"

text \<open>\<open>Number(s)\<close> of a string of digits.\<close>

definition digitsNumber :: "string \<Rightarrow> int" where
  "digitsNumber s = int (num_of s)"

definition requestedMajor :: "effective_os \<Rightarrow> int option" where
  "requestedMajor sel =
     (let ofVersion = (\<lambda>v. case parseNumericVersion v ''os.version'' of
            Inl _ \<Rightarrow> None | Inr p \<Rightarrow> Some (digitsNumber (hd (nv_components p)))) in
      case sel of OsMajor m \<Rightarrow> Some m | OsExact v \<Rightarrow> ofVersion v | OsMinimum v \<Rightarrow> ofVersion v)"

definition androidApiLevelHint ::
  "effective_os \<Rightarrow> android_catalog_release list \<Rightarrow> 'a requirement_result option" where
  "androidApiLevelHint sel rs =
     map_option (\<lambda>r. fail_at MissingInstalledRuntime
         (''No installed runtime satisfies '' @ describeOsSelector sel @
          ''. Android os selectors use the release version (for example 16), not the API level; API level '' @
          int_string (ca_apiLevel r) @ '' is Android '' @ orEmpty (ca_osVersion r) @ ''.'') ''os'')
       (List.find (\<lambda>r. Some (ca_apiLevel r) = requestedMajor sel \<and>
          Some (digitsNumber (hd (splitDot (orEmpty (ca_osVersion r))))) \<noteq> requestedMajor sel) rs)"

lemma androidApiLevelHint_not_Inr [simp]: "androidApiLevelHint sel rs \<noteq> Some (Inr x)"
  by (auto simp: androidApiLevelHint_def)

definition chooseAndroidRelease ::
  "string cmp \<Rightarrow> effective_os \<Rightarrow> string \<Rightarrow> android_catalog_release list \<Rightarrow> string list \<Rightarrow>
   (android_catalog_release \<times> os_by) requirement_result" where
  "chooseAndroidRelease lc sel preferredVersion rs hostAbis =
     (let valid = validAndroidReleases rs;
          satisfying = filter (\<lambda>r. androidOsEvidenceMatches sel (orEmpty (ca_osVersion r)) (Some (ca_precision r))) valid in
      if satisfying = [] then
        (if (case sel of OsExact v \<Rightarrow> insufficientAndroidExactPrecision v valid | _ \<Rightarrow> False)
         then fail_at UnsupportedVersionPrecision
           (''Installed Android metadata cannot prove exact release '' @
            (case sel of OsExact v \<Rightarrow> quoted v | _ \<Rightarrow> []) @ ''.'') ''os.version''
         else (case androidApiLevelHint sel valid of
             Some e \<Rightarrow> e | None \<Rightarrow> noRuntimeResult sel (map androidView rs) False))
      else
        let ordered = stableReleaseSort lc satisfying (\<lambda>r. orEmpty (ca_osVersion r))
              (androidTieBreakIdentity hostAbis) in
        Inr (pickRelease sel (\<lambda>r. isPreferred preferredVersion (ca_osVersion r)) ordered))"

section \<open>Profiles\<close>

definition resolutionProvenance ::
  "normalized_requirement \<Rightarrow> hardware_by \<Rightarrow> string list \<Rightarrow> os_by \<Rightarrow> resolution_provenance" where
  "resolutionProvenance requirement hardwareBy path osBy =
     (let (original, effective, pv) =
        (case requirement of
           NIos r \<Rightarrow> (RIos (ni_original r), EffIos (ni_hardware r) (ni_os r), ni_provenance r)
         | NAndroid r \<Rightarrow> (RAndroid (na_original r), EffAndroid (na_hardware r) (na_os r), na_provenance r)) in
      \<lparr>rz_original = original, rz_effective = effective, rz_hardwareBy = hardwareBy, rz_osBy = osBy,
       rz_hardwarePath = path, rz_policyVersion = rp_policyVersion pv,
       rz_catalogSource = rp_catalogSource pv, rz_catalogRevision = rp_catalogRevision pv\<rparr>)"

definition iosProfileOf ::
  "normalized_ios \<Rightarrow> ios_hardware_resolution \<Rightarrow> ios_catalog_release \<Rightarrow> os_by \<Rightarrow> string \<Rightarrow>
   resolved_profile requirement_result" where
  "iosProfileOf requirement hw release osBy compatibility =
     (let lost = fail_with CatalogMetadataInvalid
            (''Model '' @ quoted (cm_name (ih_model hw)) @ '' lost classification.'') in
      case (cm_archetype (ih_model hw), cm_modelType (ih_model hw)) of
        (Some a, Some t) \<Rightarrow>
          if a = [] then lost
          else Inr
            \<lparr>rd_requirement = NIos requirement,
             rd_profile = PIos
               \<lparr>ip_deviceType = cm_deviceType (ih_model hw), ip_model = cm_modelIdentifier (ih_model hw),
                ip_archetype = a, ip_family = mt_family t, ip_variant = mt_variant t,
                ip_sizeInches = mt_sizeInches t, ip_runtimeId = ci_runtimeId release,
                ip_osVersion = orEmpty (ci_osVersion release), ip_compatibility = compatibility\<rparr>,
             rd_provenance = resolutionProvenance (NIos requirement) (ih_by hw) (ih_path hw) osBy\<rparr>
      | _ \<Rightarrow> lost)"

definition resolveIos ::
  "string cmp \<Rightarrow> normalized_ios \<Rightarrow> ios_defaults \<Rightarrow> ios_catalog \<Rightarrow> resolved_profile requirement_result" where
  "resolveIos lc requirement defaults catalog =
     rbind (resolveIosHardware requirement defaults catalog) (\<lambda>hw.
     rbind (chooseIosRelease lc (ni_os requirement) (op_preferredVersion (id_os defaults))
              (ic_releases catalog) (ih_model hw)) (\<lambda>(release, osBy).
     rbind (evaluateIosCompatibility (ih_model hw) (orEmpty (ci_osVersion release))) (\<lambda>compatibility.
     iosProfileOf requirement hw release osBy compatibility)))"

definition resolveAndroid ::
  "string cmp \<Rightarrow> normalized_android \<Rightarrow> android_defaults \<Rightarrow> android_catalog \<Rightarrow> resolved_profile requirement_result" where
  "resolveAndroid lc requirement defaults catalog =
     rbind (resolveAndroidHardware requirement defaults catalog) (\<lambda>hw.
     rbind (chooseAndroidRelease lc (na_os requirement) (op_preferredVersion (ad_os defaults))
              (ac_releases catalog) (case ac_hostAbis catalog of None \<Rightarrow> [] | Some as \<Rightarrow> as)) (\<lambda>(release, osBy).
     Inr \<lparr>rd_requirement = NAndroid requirement,
          rd_profile = PAndroid
            \<lparr>ap_profileId = ah_profileId hw, ap_archetype = ah_archetype hw, ap_memoryMb = ah_memoryMb hw,
             ap_ram = None, ap_cores = None, ap_systemImage = ca_systemImage release,
             ap_osVersion = orEmpty (ca_osVersion release), ap_precision = ca_precision release,
             ap_apiLevel = ca_apiLevel release, ap_abi = ca_abi release, ap_flavor = ca_flavor release\<rparr>,
          rd_provenance = resolutionProvenance (NAndroid requirement) (ah_by hw) (ah_path hw) osBy\<rparr>))"

definition resolveSessionDeviceProfile ::
  "string cmp \<Rightarrow> normalized_requirement \<Rightarrow> session_defaults \<Rightarrow> session_catalog \<Rightarrow> resolved_profile requirement_result" where
  "resolveSessionDeviceProfile lc requirement defaults catalog =
     (case (requirement, defaults, catalog) of
        (NIos r, DefIos d, CatIos c) \<Rightarrow> resolveIos lc r d c
      | (NAndroid r, DefAndroid d, CatAndroid c) \<Rightarrow> resolveAndroid lc r d c
      | _ \<Rightarrow> invalidConfig ''Normalized requirement, defaults, and catalog platforms differ.'' None)"

section \<open>The pool filter\<close>

text \<open>A stored profile read as a candidate.\<close>

fun candidateOf :: "native_profile \<Rightarrow> session_device_profile" where
  "candidateOf (PIos p) = KIos
     \<lparr>ik_current = True, ik_deviceType = Some (ip_deviceType p), ik_modelIdentifier = ip_model p,
      ik_archetype = Some (ip_archetype p),
      ik_modelType = Some \<lparr>mt_family = ip_family p, mt_variant = ip_variant p, mt_sizeInches = ip_sizeInches p\<rparr>,
      ik_runtimeId = Some (ip_runtimeId p), ik_osVersion = Some (ip_osVersion p)\<rparr>"
| "candidateOf (PAndroid p) = KAndroid
     \<lparr>ak_current = True, ak_memoryMb = ap_memoryMb p, ak_profileId = Some (ap_profileId p),
      ak_archetype = Some (ap_archetype p), ak_systemImage = Some (ap_systemImage p),
      ak_osVersion = Some (ap_osVersion p), ak_precision = Some (ap_precision p),
      ak_apiLevel = Some (ap_apiLevel p), ak_abi = Some (ap_abi p), ak_flavor = Some (ap_flavor p)\<rparr>"
| "candidateOf (PWatch p) = KWatch p"

text \<open>\<open>unwrap\<close> of src/src/daemon/sessionBroker/devicePort.ts throws a failed result.\<close>

definition matchesPooled :: "normalized_requirement \<Rightarrow> json \<Rightarrow> bool res" where
  "matchesPooled requirement profile =
     rbind (poolProfile profile) (\<lambda>p. Inr (matchSessionDevice requirement (candidateOf p) = Match))"

definition poolMatcher ::
  "normalized_requirement \<Rightarrow> session_defaults \<Rightarrow> requirement_error + (json \<Rightarrow> bool res)" where
  "poolMatcher requirement defaults =
     (case (requirement, defaults) of
        (NAndroid r, DefAndroid d) \<Rightarrow>
          rbind (if na_hardware r = AndroidArchetype ''foldable''
                 then rbind (androidProfileDefault r d) (\<lambda>_. Inr ()) else Inr ()) (\<lambda>_.
          let memoryMb = (case androidRequirementMemoryMb r d of Inl _ \<Rightarrow> None | Inr m \<Rightarrow> m) in
          Inr (\<lambda>profile.
            rbind (poolProfile profile) (\<lambda>p.
            Inr (matchSessionDevice requirement (candidateOf p) = Match \<and>
                 (case p of PAndroid a \<Rightarrow> ap_memoryMb a = memoryMb | _ \<Rightarrow> False)))))
      | _ \<Rightarrow> Inr (matchesPooled requirement))"

end
