(* ===== verification/RequirementTheorems.thy ===== *)
theory RequirementTheorems
  imports RequirementResolution
begin

text \<open>
  What resolving a session requirement promises: the release it picks is the preferred one or a best
  one, and a device created for a request is a device the pool hands out for that request again.
\<close>

section \<open>Typed inputs\<close>

text \<open>
  What the TypeScript types and the readers of the native tools promise of a catalog and of the
  defaults: literal unions hold one of their literals and identifiers are not empty.
\<close>

definition typed_model :: "ios_catalog_model \<Rightarrow> bool" where
  "typed_model m \<longleftrightarrow> cm_deviceType m \<noteq> [] \<and> cm_modelIdentifier m \<noteq> Some [] \<and>
     (case cm_modelType m of None \<Rightarrow> True
      | Some t \<Rightarrow> List.member (variantsOf (mt_family t)) (mt_variant t) \<and>
          (mt_family t \<noteq> ''ipad'' \<longrightarrow> mt_sizeInches t = None))"

definition typed_android_release :: "android_catalog_release \<Rightarrow> bool" where
  "typed_android_release r \<longleftrightarrow> ca_systemImage r \<noteq> [] \<and>
     List.member [''major'', ''minor'', ''patch''] (ca_precision r)"

definition typed_android_profile :: "android_catalog_profile \<Rightarrow> bool" where
  "typed_android_profile p \<longleftrightarrow> ct_profileId p \<noteq> [] \<and>
     (case ct_archetype p of None \<Rightarrow> True
      | Some a \<Rightarrow> List.member [''phone'', ''tablet'', ''foldable''] a)"

definition typed_catalog :: "session_catalog \<Rightarrow> bool" where
  "typed_catalog c =
     (case c of
        CatIos i \<Rightarrow> list_all typed_model (ic_models i) \<and> list_all (\<lambda>r. ci_runtimeId r \<noteq> []) (ic_releases i)
      | CatAndroid a \<Rightarrow> list_all typed_android_release (ac_releases a) \<and>
          list_all typed_android_profile (ac_profiles a)
      | CatWatch w \<Rightarrow> True)"

definition typed_defaults :: "session_defaults \<Rightarrow> bool" where
  "typed_defaults d =
     (case d of
        DefIos i \<Rightarrow> True
      | DefAndroid a \<Rightarrow> list_all (\<lambda>e. case pd_memoryMb e of None \<Rightarrow> True | Some n \<Rightarrow> 0 < n) (ad_profiles a))"

section \<open>Lookups\<close>

lemma filter_singleD: "filter P xs = [x] \<Longrightarrow> x \<in> set xs \<and> P x"
proof -
  assume "filter P xs = [x]"
  then have "x \<in> set (filter P xs)" by simp
  then show ?thesis by simp
qed

lemma resolveIosModelReference_Inr:
  assumes "resolveIosModelReference ref c fld = Inr m"
  obtains t where "m \<in> set (ic_models c)" "modelReferenceMatches m ref" "cm_current m"
    "cm_modelType m = Some t" "cm_archetype m = Some (iosModelTypeArchetype t)"
proof -
  have f: "filter (\<lambda>m. modelReferenceMatches m ref) (ic_models c) = [m]" and cur: "cm_current m"
    and "cm_modelType m \<noteq> None" "map_option iosModelTypeArchetype (cm_modelType m) = cm_archetype m"
    using assms by (auto simp: resolveIosModelReference_def Let_def split: list.splits if_splits)
  then obtain t where "cm_modelType m = Some t" "cm_archetype m = Some (iosModelTypeArchetype t)"
    by auto
  with filter_singleD [OF f] cur that show thesis by blast
qed

lemma resolveAndroidExactProfile_Inr:
  assumes "resolveAndroidExactProfile i c = Inr p"
  shows "p \<in> set (ac_profiles c) \<and> ct_profileId p = i \<and> ct_archetype p \<noteq> None"
proof -
  have "filter (\<lambda>p. ct_profileId p = i) (ac_profiles c) = [p]" "ct_archetype p \<noteq> None"
    using assms by (auto simp: resolveAndroidExactProfile_def Let_def split: list.splits if_splits)
  with filter_singleD [OF this(1)] show ?thesis by simp
qed

lemma findUnique_Inr: "findUnique vs P d = Inr v \<Longrightarrow> v \<in> set vs \<and> P v"
  by (auto simp: findUnique_def split: list.splits dest!: filter_singleD)

lemma modelFromDefault_Inr:
  assumes "modelFromDefault t d c = Inr m"
  obtains u where "m \<in> set (ic_models c)" "cm_modelType m = Some u" "iosModelTypesEqual u t"
    "cm_archetype m = Some (iosModelTypeArchetype u)"
  using assms that
  by (auto simp: modelFromDefault_def elim!: resolveIosModelReference_Inr split: if_splits option.splits)

lemma typesEqual_matches: "iosModelTypesEqual u t \<Longrightarrow> iosModelTypeMatches t u"
  by (auto simp: iosModelTypesEqual_def iosModelTypeMatches_def split: if_splits)

lemma typesEqual_archetype: "iosModelTypesEqual u t \<Longrightarrow> iosModelTypeArchetype u = iosModelTypeArchetype t"
  by (auto simp: iosModelTypesEqual_def iosModelTypeArchetype_def split: if_splits)

section \<open>Releases\<close>

lemma release_parses: "is_release v \<Longrightarrow> \<exists>s. v = Some s \<and> versionFrom False s \<and> versionKey s \<noteq> [] \<and> releaseOf v = v"
  using parseNumericVersion_ok
  by (auto simp: is_release_def releaseOf_def split: option.splits sum.splits)

lemma pickRelease_mem:
  "ordered \<noteq> [] \<Longrightarrow> pickRelease sel P ordered = (r, osBy) \<Longrightarrow> r \<in> set ordered"
  by (auto simp: pickRelease_def find_Some_iff split: effective_os.splits option.splits)

lemma iosCompatible_sub: "set (iosCompatible m rs) \<subseteq> set rs" "rs \<noteq> [] \<Longrightarrow> iosCompatible m rs \<noteq> []"
  by (auto simp: iosCompatible_def Let_def split: sum.splits)

lemma set_stableReleaseSort [simp]: "set (stableReleaseSort lc rs v i) = set rs"
  by (simp add: stableReleaseSort_def)

lemma stableReleaseSort_Nil [simp]: "stableReleaseSort lc rs v i = [] \<longleftrightarrow> rs = []"
  by (simp add: stableReleaseSort_def)

definition iosCandidates ::
  "effective_os \<Rightarrow> ios_catalog_release list \<Rightarrow> ios_catalog_model \<Rightarrow> ios_catalog_release list" where
  "iosCandidates sel rs model =
     (let satisfying = filter (\<lambda>r. osSelectorMatchesVersion sel (orEmpty (ci_osVersion r))) (validIosReleases rs) in
      case sel of OsExact _ \<Rightarrow> satisfying | _ \<Rightarrow> iosCompatible model satisfying)"

definition androidCandidates ::
  "effective_os \<Rightarrow> android_catalog_release list \<Rightarrow> android_catalog_release list" where
  "androidCandidates sel rs =
     filter (\<lambda>r. androidOsEvidenceMatches sel (orEmpty (ca_osVersion r)) (Some (ca_precision r)))
       (validAndroidReleases rs)"

lemma chooseIosRelease_Inr:
  assumes "chooseIosRelease lc sel preferred rs model = Inr (r, osBy)"
  shows "pickRelease sel (\<lambda>r. isPreferred preferred (ci_osVersion r))
      (stableReleaseSort lc (iosCandidates sel rs model) (\<lambda>r. orEmpty (ci_osVersion r)) ci_runtimeId) = (r, osBy)"
    "iosCandidates sel rs model \<noteq> []"
  using assms iosCompatible_sub
  by (auto simp: chooseIosRelease_def iosCandidates_def Let_def split: if_splits effective_os.splits)

lemma chooseAndroidRelease_Inr:
  assumes "chooseAndroidRelease lc sel preferred rs abis = Inr (r, osBy)"
  shows "pickRelease sel (\<lambda>r. isPreferred preferred (ca_osVersion r))
      (stableReleaseSort lc (androidCandidates sel rs) (\<lambda>r. orEmpty (ca_osVersion r))
         (androidTieBreakIdentity abis)) = (r, osBy)"
    "androidCandidates sel rs \<noteq> []"
  using assms
  by (auto simp: chooseAndroidRelease_def androidCandidates_def Let_def split: if_splits option.splits)

lemma iosCandidates_ok:
  assumes "r \<in> set (iosCandidates sel rs model)"
  shows "r \<in> set rs \<and> ci_installed r \<and> ci_current r \<and> is_release (ci_osVersion r) \<and>
     osSelectorMatchesVersion sel (orEmpty (ci_osVersion r))"
  using assms iosCompatible_sub(1)
  by (fastforce simp: iosCandidates_def validIosReleases_def Let_def split: effective_os.splits)

lemma androidCandidates_ok:
  assumes "r \<in> set (androidCandidates sel rs)"
  shows "r \<in> set rs \<and> ca_installed r \<and> ca_current r \<and> is_release (ca_osVersion r) \<and> 0 < ca_apiLevel r \<and>
     ca_abi r \<noteq> [] \<and> ca_flavor r \<noteq> [] \<and>
     androidOsEvidenceMatches sel (orEmpty (ca_osVersion r)) (Some (ca_precision r))"
  using assms by (auto simp: androidCandidates_def validAndroidReleases_def)

text \<open>The first release of the sorted candidates is a highest one.\<close>

lemma releaseCompare_key:
  assumes "versionFrom False (version a)" "versionFrom False (version b)"
  shows "releaseCompare lc version identity a b =
    then_cmp (\<lambda>a b. key_cmp (\<lambda>r. versionKey (version r)) b a) (\<lambda>a b. lc (identity a) (identity b)) a b"
  using assms by (simp add: releaseCompare_def compareNumericVersions_key then_cmp_def key_cmp_def)

lemma js_insert_cong:
  "(\<And>y. y \<in> set ys \<Longrightarrow> c x y = d x y) \<Longrightarrow> js_insert c x ys = js_insert d x ys"
  by (induction ys) auto

lemma js_sort_cong:
  "(\<And>x y. x \<in> set xs \<Longrightarrow> y \<in> set xs \<Longrightarrow> c x y = d x y) \<Longrightarrow> js_sort c xs = js_sort d xs"
proof (induction xs)
  case (Cons x xs)
  then have "js_sort c xs = js_sort d xs" by simp
  then show ?case using Cons.prems by (auto intro: js_insert_cong)
qed simp

lemma comparator_newest:
  assumes "comparator lc"
  shows "comparator (then_cmp (\<lambda>a b. key_cmp f b a) (\<lambda>a b. lc (g a) (g b)))"
proof -
  have le: "then_cmp (\<lambda>a b. key_cmp f b a) (\<lambda>a b. lc (g a) (g b)) x y \<le> 0 \<longleftrightarrow>
      f y < f x \<or> f x = f y \<and> lc (g x) (g y) \<le> 0" for x y
    by (auto simp: then_cmp_def key_cmp_def)
  show ?thesis
    using assms unfolding comparator_def le by (metis less_trans linorder_neqE)
qed

lemma sorted_head_highest:
  assumes "comparator lc" and "rs \<noteq> []"
    and "\<And>r. r \<in> set rs \<Longrightarrow> versionFrom False (version r)"
  shows "\<forall>r\<in>set rs. versionKey (version r) \<le> versionKey (version (hd (stableReleaseSort lc rs version identity)))"
proof
  fix r assume r: "r \<in> set rs"
  let ?c = "then_cmp (\<lambda>a b. key_cmp (\<lambda>r. versionKey (version r)) b a) (\<lambda>a b. lc (identity a) (identity b))"
  have cmp: "comparator ?c" using assms(1) by (rule comparator_newest)
  have eq: "stableReleaseSort lc rs version identity = js_sort ?c rs"
    unfolding stableReleaseSort_def by (rule js_sort_cong) (simp add: releaseCompare_key assms(3))
  obtain h t where ht: "js_sort ?c rs = h # t" using assms(2) by (metis js_sort_eq_Nil list.exhaust)
  have "?c h r \<le> 0" using comparator.hd_js_sort_least [OF cmp ht r] .
  then have "versionKey (version r) \<le> versionKey (version h)"
    by (auto simp: then_cmp_def key_cmp_def split: if_splits)
  then show "versionKey (version r) \<le> versionKey (version (hd (stableReleaseSort lc rs version identity)))"
    by (simp add: eq ht)
qed

lemma pick_best:
  assumes lc: "comparator lc" and ne: "rs \<noteq> []"
    and ok: "\<And>r. r \<in> set rs \<Longrightarrow> is_release (version r)"
    and pick: "pickRelease sel (\<lambda>r. isPreferred preferred (version r))
      (stableReleaseSort lc rs (\<lambda>r. orEmpty (version r)) identity) = (r, osBy)"
  shows "r \<in> set rs \<and>
    (if osBy = ByPreferredDefault
     then versionFrom False preferred \<and> versionKey (orEmpty (version r)) = versionKey preferred
     else \<forall>r'\<in>set rs. versionKey (orEmpty (version r')) \<le> versionKey (orEmpty (version r))) \<and>
    (osBy = ByHighestSatisfying \<longrightarrow> versionFrom False preferred \<longrightarrow>
       (\<forall>r'\<in>set rs. versionKey (orEmpty (version r')) \<noteq> versionKey preferred))"
proof -
  let ?o = "stableReleaseSort lc rs (\<lambda>r. orEmpty (version r)) identity"
  have v: "versionFrom False (orEmpty (version r'))" if "r' \<in> set rs" for r'
    using release_parses [OF ok [OF that]] by (auto simp: orEmpty_def)
  have pref: "isPreferred preferred (version r') \<longleftrightarrow>
      versionFrom False preferred \<and> versionKey (orEmpty (version r')) = versionKey preferred"
    if "r' \<in> set rs" for r'
    using v [OF that] compareNumericVersions_None [of "orEmpty (version r')" preferred]
    by (cases "versionFrom False preferred")
      (auto simp: isPreferred_def compares_def compareNumericVersions_key split: option.splits)
  have best: "\<forall>r'\<in>set rs. versionKey (orEmpty (version r')) \<le> versionKey (orEmpty (version (hd ?o)))"
    using sorted_head_highest [OF lc ne v] .
  have mem: "r \<in> set rs" using pickRelease_mem [OF _ pick] ne by simp
  show ?thesis
  proof (cases "List.find (\<lambda>r. isPreferred preferred (version r)) ?o")
    case None
    then have "\<not> isPreferred preferred (version r')" if "r' \<in> set rs" for r'
      using that by (auto simp: find_None_iff)
    then show ?thesis using None pick mem best pref
      by (auto simp: pickRelease_def split: effective_os.splits)
  next
    case (Some q)
    then have "q \<in> set ?o" "isPreferred preferred (version q)"
      by (metis find_Some_iff nth_mem)+
    then have "q \<in> set rs" "isPreferred preferred (version q)" by simp_all
    then show ?thesis using Some pick mem best pref
      by (auto simp: pickRelease_def split: effective_os.splits)
  qed
qed

text \<open>
  C38: The release a request resolves to is installed, current and satisfies the request's selector,
  and it is the configured preferred release or a highest one among the candidates (for iOS those the
  model supports, when there are any); the answer says highest only when the preferred release is no
  candidate.
\<close>

theorem resolved_release_best:
  assumes "comparator lc"
  shows "(chooseIosRelease lc sel preferred irs model = Inr (i, osBy) \<longrightarrow>
      i \<in> set irs \<and> ci_installed i \<and> ci_current i \<and>
      osSelectorMatchesVersion sel (orEmpty (ci_osVersion i)) \<and>
      (if osBy = ByPreferredDefault then versionKey (orEmpty (ci_osVersion i)) = versionKey preferred
       else \<forall>r\<in>set (iosCandidates sel irs model).
              versionKey (orEmpty (ci_osVersion r)) \<le> versionKey (orEmpty (ci_osVersion i))) \<and>
      (osBy = ByHighestSatisfying \<longrightarrow> versionFrom False preferred \<longrightarrow>
         (\<forall>r\<in>set (iosCandidates sel irs model). versionKey (orEmpty (ci_osVersion r)) \<noteq> versionKey preferred))) \<and>
    (chooseAndroidRelease lc sel preferred ars abis = Inr (a, osBy) \<longrightarrow>
      a \<in> set ars \<and> ca_installed a \<and> ca_current a \<and>
      androidOsEvidenceMatches sel (orEmpty (ca_osVersion a)) (Some (ca_precision a)) \<and>
      (if osBy = ByPreferredDefault then versionKey (orEmpty (ca_osVersion a)) = versionKey preferred
       else \<forall>r\<in>set (androidCandidates sel ars).
              versionKey (orEmpty (ca_osVersion r)) \<le> versionKey (orEmpty (ca_osVersion a))) \<and>
      (osBy = ByHighestSatisfying \<longrightarrow> versionFrom False preferred \<longrightarrow>
         (\<forall>r\<in>set (androidCandidates sel ars). versionKey (orEmpty (ca_osVersion r)) \<noteq> versionKey preferred)))"
proof (rule conjI; intro impI)
  assume c: "chooseIosRelease lc sel preferred irs model = Inr (i, osBy)"
  note pick = pick_best [OF assms chooseIosRelease_Inr(2) [OF c] _ chooseIosRelease_Inr(1) [OF c]]
  from iosCandidates_ok pick have "i \<in> set (iosCandidates sel irs model)" by blast
  from iosCandidates_ok [OF this] pick iosCandidates_ok
  show "i \<in> set irs \<and> ci_installed i \<and> ci_current i \<and>
      osSelectorMatchesVersion sel (orEmpty (ci_osVersion i)) \<and>
      (if osBy = ByPreferredDefault then versionKey (orEmpty (ci_osVersion i)) = versionKey preferred
       else \<forall>r\<in>set (iosCandidates sel irs model).
              versionKey (orEmpty (ci_osVersion r)) \<le> versionKey (orEmpty (ci_osVersion i))) \<and>
      (osBy = ByHighestSatisfying \<longrightarrow> versionFrom False preferred \<longrightarrow>
         (\<forall>r\<in>set (iosCandidates sel irs model). versionKey (orEmpty (ci_osVersion r)) \<noteq> versionKey preferred))"
    by (auto split: if_splits)
next
  assume c: "chooseAndroidRelease lc sel preferred ars abis = Inr (a, osBy)"
  note pick = pick_best [OF assms chooseAndroidRelease_Inr(2) [OF c] _ chooseAndroidRelease_Inr(1) [OF c]]
  from androidCandidates_ok pick have "a \<in> set (androidCandidates sel ars)" by blast
  from androidCandidates_ok [OF this] pick androidCandidates_ok
  show "a \<in> set ars \<and> ca_installed a \<and> ca_current a \<and>
      androidOsEvidenceMatches sel (orEmpty (ca_osVersion a)) (Some (ca_precision a)) \<and>
      (if osBy = ByPreferredDefault then versionKey (orEmpty (ca_osVersion a)) = versionKey preferred
       else \<forall>r\<in>set (androidCandidates sel ars).
              versionKey (orEmpty (ca_osVersion r)) \<le> versionKey (orEmpty (ca_osVersion a))) \<and>
      (osBy = ByHighestSatisfying \<longrightarrow> versionFrom False preferred \<longrightarrow>
         (\<forall>r\<in>set (androidCandidates sel ars). versionKey (orEmpty (ca_osVersion r)) \<noteq> versionKey preferred))"
    by (auto split: if_splits)
qed

definition demo_ios_release :: "string \<Rightarrow> ios_catalog_release" where
  "demo_ios_release v = \<lparr>ci_runtimeId = ''iOS-'' @ v, ci_osVersion = Some v, ci_installed = True, ci_current = True\<rparr>"

definition demo_model :: ios_catalog_model where
  "demo_model = \<lparr>cm_deviceType = ''iPhone-17'', cm_modelIdentifier = None, cm_name = ''iPhone 17'',
     cm_productFamily = ''iPhone'', cm_aliases = None, cm_archetype = Some ''phone'',
     cm_modelType = Some \<lparr>mt_family = ''iphone'', mt_variant = ''standard'', mt_sizeInches = None\<rparr>,
     cm_current = True, cm_minOsVersion = Some ''17'', cm_maxOsVersion = None\<rparr>"

theorem resolved_release_best_witness:
  "\<exists>i osBy. chooseIosRelease (key_cmp (\<lambda>s. s)) (OsMinimum ''18'') ''26.1''
       (map demo_ios_release [''18.2'', ''26'', ''26.1'', ''9.3'']) demo_model = Inr (i, osBy) \<and>
     ci_installed i \<and> osSelectorMatchesVersion (OsMinimum ''18'') (orEmpty (ci_osVersion i))"
proof -
  let ?r = "chooseIosRelease (key_cmp (\<lambda>s. s)) (OsMinimum ''18'') ''26.1''
       (map demo_ios_release [''18.2'', ''26'', ''26.1'', ''9.3'']) demo_model"
  have "case ?r of Inl _ \<Rightarrow> False | Inr _ \<Rightarrow> True" by code_simp
  then obtain i osBy where "?r = Inr (i, osBy)" by (auto split: sum.split_asm)
  with resolved_release_best [OF key.comparator_axioms [of "\<lambda>s. s"], where sel = "OsMinimum ''18''"
      and preferred = "''26.1''" and irs = "map demo_ios_release [''18.2'', ''26'', ''26.1'', ''9.3'']"
      and model = demo_model and i = i and osBy = osBy]
  show ?thesis by blast
qed

section \<open>A created device serves its request\<close>

lemma iosProfileOf_Inr:
  assumes "iosProfileOf n hw r osBy support = Inr rp"
  obtains a t where "cm_archetype (ih_model hw) = Some a" "cm_modelType (ih_model hw) = Some t"
    "rd_profile rp = PIos
              \<lparr>ip_deviceType = cm_deviceType (ih_model hw), ip_model = cm_modelIdentifier (ih_model hw),
               ip_archetype = a, ip_family = mt_family t, ip_variant = mt_variant t,
               ip_sizeInches = mt_sizeInches t, ip_runtimeId = ci_runtimeId r,
               ip_osVersion = orEmpty (ci_osVersion r), ip_compatibility = support\<rparr>"
  using assms
  by (cases "cm_archetype (ih_model hw)"; cases "cm_modelType (ih_model hw)")
    (auto simp: iosProfileOf_def split: if_splits)

lemma normalizeIos_Inr:
  "normalizeIos q d c = Inr n \<Longrightarrow> optionalExactModel (ni_hardware n) c = Inr (ni_exactModel n)"
  by (auto simp: normalizeIos_def)

lemma resolveIosHardware_Inr:
  assumes norm: "normalizeIos q d0 c = Inr n" and res: "resolveIosHardware n d c = Inr hw"
  obtains t where "ih_model hw \<in> set (ic_models c)" "cm_modelType (ih_model hw) = Some t"
    "cm_archetype (ih_model hw) = Some (iosModelTypeArchetype t)"
    "case ni_hardware n of
       IosExactModel _ \<Rightarrow> ni_exactModel n = Some (ih_model hw)
     | IosModelType u \<Rightarrow> iosModelTypeMatches u t
     | IosArchetype a \<Rightarrow> iosModelTypeArchetype t = a
     | IosOmitted \<Rightarrow> False"
proof (cases "ni_hardware n")
  case IosOmitted
  with res show thesis by (simp add: resolveIosHardware_def)
next
  case (IosExactModel ref)
  then obtain m where m: "ni_exactModel n = Some m" "ih_model hw = m"
    using res by (auto simp: resolveIosHardware_def split: option.split_asm)
  have "resolveIosModelReference ref c ''hardware.model'' = Inr m"
    using normalizeIos_Inr [OF norm] IosExactModel m(1) by (simp add: optionalExactModel_def)
  then show thesis using m IosExactModel that by (auto elim!: resolveIosModelReference_Inr)
next
  case (IosModelType u)
  then have "modelFromDefault u d c = Inr (ih_model hw)"
    using res by (auto simp: resolveIosHardware_def)
  then show thesis using IosModelType that by (auto elim!: modelFromDefault_Inr intro: typesEqual_matches)
next
  case (IosArchetype a)
  then obtain e where "iosModelTypeArchetype (snd e) = a" "modelFromDefault (snd e) d c = Inr (ih_model hw)"
    using res by (auto simp: resolveIosHardware_def split: if_split_asm)
  then show thesis using IosArchetype that by (auto elim!: modelFromDefault_Inr dest: typesEqual_archetype)
qed

lemma resolveIos_profile:
  assumes norm: "normalizeIos q d0 c = Inr n" and res: "resolveIos lc n d c = Inr rp"
    and typed: "typed_catalog (CatIos c)"
  obtains p where "rd_profile rp = PIos p" "ios_ok p" "matchSessionDevice (NIos n) (candidateOf (PIos p)) = Match"
proof -
  obtain hw r osBy support a t where hw: "resolveIosHardware n d c = Inr hw"
    and rel: "chooseIosRelease lc (ni_os n) (op_preferredVersion (id_os d)) (ic_releases c) (ih_model hw) = Inr (r, osBy)"
    and support: "evaluateIosCompatibility (ih_model hw) (orEmpty (ci_osVersion r)) = Inr support"
    and at: "cm_archetype (ih_model hw) = Some a" "cm_modelType (ih_model hw) = Some t"
    and rp: "rd_profile rp = PIos
              \<lparr>ip_deviceType = cm_deviceType (ih_model hw), ip_model = cm_modelIdentifier (ih_model hw),
               ip_archetype = a, ip_family = mt_family t, ip_variant = mt_variant t,
               ip_sizeInches = mt_sizeInches t, ip_runtimeId = ci_runtimeId r,
               ip_osVersion = orEmpty (ci_osVersion r), ip_compatibility = support\<rparr>"
    using res by (auto simp: resolveIos_def elim!: iosProfileOf_Inr)
  let ?m = "ih_model hw"
  obtain t' where h: "?m \<in> set (ic_models c)" "cm_modelType ?m = Some t'" "cm_archetype ?m = Some (iosModelTypeArchetype t')"
    and sel: "case ni_hardware n of
       IosExactModel _ \<Rightarrow> ni_exactModel n = Some ?m
     | IosModelType u \<Rightarrow> iosModelTypeMatches u t'
     | IosArchetype a \<Rightarrow> iosModelTypeArchetype t' = a
     | IosOmitted \<Rightarrow> False"
    by (rule resolveIosHardware_Inr [OF norm hw])
  then have m: "?m \<in> set (ic_models c) \<and> a = iosModelTypeArchetype t" and "t' = t" using at by simp_all
  note sel = sel [unfolded \<open>t' = t\<close>]
  have "r \<in> set (iosCandidates (ni_os n) (ic_releases c) ?m)"
    using pickRelease_mem [OF _ chooseIosRelease_Inr(1) [OF rel]] chooseIosRelease_Inr(2) [OF rel] by simp
  from iosCandidates_ok [OF this] obtain v where r: "r \<in> set (ic_releases c)" "ci_osVersion r = Some v"
    "versionFrom False v" "releaseOf (Some v) = Some v" "osSelectorMatchesVersion (ni_os n) v"
    using release_parses [of "ci_osVersion r"] by (auto simp: orEmpty_def)
  have tm: "typed_model ?m" "ci_runtimeId r \<noteq> []"
    using typed m r(1) by (auto simp: typed_catalog_def list_all_iff)
  have "List.member [''supported'', ''unknown''] support"
    using support by (auto simp: evaluateIosCompatibility_def split: if_splits)
  moreover have "List.member [''iphone'', ''ipad'', ''duo''] (mt_family t)" "List.member [''phone'', ''tablet'', ''duo''] a"
    using tm(1) at m by (auto simp: typed_model_def variantsOf_def iosModelTypeArchetype_def split: if_splits)
  ultimately have ok: "ios_ok \<lparr>ip_deviceType = cm_deviceType ?m, ip_model = cm_modelIdentifier ?m,
               ip_archetype = a, ip_family = mt_family t, ip_variant = mt_variant t,
               ip_sizeInches = mt_sizeInches t, ip_runtimeId = ci_runtimeId r,
               ip_osVersion = orEmpty (ci_osVersion r), ip_compatibility = support\<rparr>"
    using tm at r by (simp add: ios_ok_def typed_model_def orEmpty_def)
  have arch: "a \<noteq> []" using m by (simp add: iosModelTypeArchetype_def split: if_splits)
  have "matchIosHardware n
     \<lparr>ik_current = True, ik_deviceType = Some (cm_deviceType ?m), ik_modelIdentifier = cm_modelIdentifier ?m,
      ik_archetype = Some a, ik_modelType = Some t, ik_runtimeId = Some (ci_runtimeId r), ik_osVersion = Some v\<rparr> = Match"
    using sel m tm(1) arch
    by (cases "ni_hardware n") (simp_all add: matchIosHardware_def typed_model_def)
  then have "matchSessionDevice (NIos n) (candidateOf (rd_profile rp)) = Match"
    using r by (cases t) (simp add: rp matchSessionDevice_def matchIosOs_def orEmpty_def)
  then show thesis using that rp ok by metis
qed

lemma normalizeAndroid_Inr:
  assumes "normalizeAndroid q d c = Inr n"
  shows "(case na_hardware n of
      AndroidExactProfile i \<Rightarrow> (\<exists>p. na_exactProfile n = Some p \<and> resolveAndroidExactProfile i c = Inr p)
    | AndroidArchetype a \<Rightarrow> na_exactProfile n = None
    | AndroidOmitted \<Rightarrow> na_exactProfile n = None)"
  using assms
  by (auto simp: normalizeAndroid_def Let_def split: if_split_asm android_hardware.split_asm
    split: android_hardware.split)

lemma resolveAndroidHardware_Inr:
  assumes norm: "normalizeAndroid q d0 c = Inr n" and res: "resolveAndroidHardware n d c = Inr hw"
    and typed: "typed_catalog (CatAndroid c)" "typed_defaults (DefAndroid d)"
  shows "ah_profileId hw \<noteq> [] \<and> List.member [''phone'', ''tablet'', ''foldable''] (ah_archetype hw) \<and>
    (case na_hardware n of AndroidExactProfile i \<Rightarrow> ah_profileId hw = i
      | _ \<Rightarrow> androidRequirementArchetype n = Some (ah_archetype hw)) \<and>
    androidRequirementMemoryMb n d = Inr (ah_memoryMb hw) \<and>
    (case ah_memoryMb hw of None \<Rightarrow> True | Some k \<Rightarrow> 0 < k) \<and>
    (na_hardware n = AndroidArchetype ''foldable'' \<longrightarrow> (\<exists>x. androidProfileDefault n d = Inr x))"
proof (cases "na_exactProfile n")
  case (Some e)
  then obtain i where i: "na_hardware n = AndroidExactProfile i" "resolveAndroidExactProfile i c = Inr e"
    using normalizeAndroid_Inr [OF norm] by (cases "na_hardware n") auto
  have e: "e \<in> set (ac_profiles c)" "ct_profileId e = i" "ct_archetype e \<noteq> None"
    using resolveAndroidExactProfile_Inr [OF i(2)] by auto
  obtain k where k: "androidExactProfileDefault e d = Inr k"
    and hw: "hw = \<lparr>ah_memoryMb = Option.bind k pd_memoryMb, ah_profileId = i,
          ah_archetype = orEmpty (ct_archetype e), ah_by = ByExplicitModel,
          ah_path = [''exact-profile'', i]\<rparr>"
    using res Some i e by (auto simp: resolveAndroidHardware_def resolveAndroidExactHardware_def)
  have "k = None \<or> (\<exists>x\<in>set (ad_profiles d). k = Some x)"
    using k by (auto simp: androidExactProfileDefault_def Let_def split: list.split_asm if_split_asm
      dest!: filter_singleD)
  then have mem: "case Option.bind k pd_memoryMb of None \<Rightarrow> True | Some x \<Rightarrow> 0 < x"
    using typed(2) by (auto simp: typed_defaults_def list_all_iff)
  have "typed_android_profile e" using typed(1) e by (simp add: typed_catalog_def list_all_iff)
  then show ?thesis using Some i e k mem
    by (auto simp: hw typed_android_profile_def orEmpty_def androidRequirementMemoryMb_def)
next
  case None
  then have no: "na_hardware n \<noteq> AndroidExactProfile i" for i
    using normalizeAndroid_Inr [OF norm] by auto
  obtain k where k: "androidProfileDefault n d = Inr k"
    using res None by (auto simp: resolveAndroidHardware_def)
  obtain a where a: "androidRequirementArchetype n = Some a"
    using k by (cases "androidRequirementArchetype n") (auto simp: androidProfileDefault_def)
  have kd: "k \<in> set (ad_profiles d)" "pd_archetype k = a"
    using k a findUnique_Inr [of "ad_profiles d"] by (auto simp: androidProfileDefault_def split: if_split_asm)
  obtain p where p: "filter (\<lambda>p. ct_profileId p = pd_profileId k) (ac_profiles c) = [p]"
    "ct_archetype p = Some a" "\<not> falsy (ct_archetype p)"
    and hw: "hw = \<lparr>ah_memoryMb = pd_memoryMb k, ah_profileId = ct_profileId p,
                        ah_archetype = a, ah_by = ByArchetypeDefault, ah_path = [a, ct_profileId p]\<rparr>"
    using res None k kd(2)
    by (auto simp: resolveAndroidHardware_def Let_def split: list.split_asm if_split_asm)
  have "typed_android_profile p"
    using typed(1) filter_singleD [OF p(1)] by (simp add: typed_catalog_def list_all_iff)
  moreover have "case pd_memoryMb k of None \<Rightarrow> True | Some x \<Rightarrow> 0 < x"
    using typed(2) kd(1) by (simp add: typed_defaults_def list_all_iff)
  ultimately show ?thesis using None k a p no
    by (auto simp: hw typed_android_profile_def androidRequirementMemoryMb_def split: android_hardware.split)
qed

lemma resolveAndroid_profile:
  assumes norm: "normalizeAndroid q d0 c = Inr n" and res: "resolveAndroid lc n d c = Inr rp"
    and typed: "typed_catalog (CatAndroid c)" "typed_defaults (DefAndroid d)"
  obtains p where "rd_profile rp = PAndroid p" "android_ok p"
    "matchSessionDevice (NAndroid n) (candidateOf (PAndroid p)) = Match"
    "androidRequirementMemoryMb n d = Inr (ap_memoryMb p)"
    "na_hardware n = AndroidArchetype ''foldable'' \<longrightarrow> (\<exists>x. androidProfileDefault n d = Inr x)"
proof -
  obtain hw r osBy abis where hw: "resolveAndroidHardware n d c = Inr hw"
    and rel: "chooseAndroidRelease lc (na_os n) (op_preferredVersion (ad_os d)) (ac_releases c) abis = Inr (r, osBy)"
    and rp: "rd_profile rp = PAndroid
            \<lparr>ap_profileId = ah_profileId hw, ap_archetype = ah_archetype hw, ap_memoryMb = ah_memoryMb hw,
             ap_ram = None, ap_cores = None, ap_systemImage = ca_systemImage r,
             ap_osVersion = orEmpty (ca_osVersion r), ap_precision = ca_precision r,
             ap_apiLevel = ca_apiLevel r, ap_abi = ca_abi r, ap_flavor = ca_flavor r\<rparr>"
    using res by (auto simp: resolveAndroid_def)
  note h = resolveAndroidHardware_Inr [OF norm hw typed]
  have "r \<in> set (androidCandidates (na_os n) (ac_releases c))"
    using pickRelease_mem [OF _ chooseAndroidRelease_Inr(1) [OF rel]] chooseAndroidRelease_Inr(2) [OF rel] by simp
  from androidCandidates_ok [OF this] obtain v where r: "r \<in> set (ac_releases c)" "ca_osVersion r = Some v"
    "versionFrom False v" "releaseOf (Some v) = Some v" "0 < ca_apiLevel r" "ca_abi r \<noteq> []" "ca_flavor r \<noteq> []"
    "androidOsEvidenceMatches (na_os n) v (Some (ca_precision r))"
    using release_parses [of "ca_osVersion r"] by (auto simp: orEmpty_def)
  have tr: "typed_android_release r" using typed(1) r(1) by (simp add: typed_catalog_def list_all_iff)
  let ?p = "\<lparr>ap_profileId = ah_profileId hw, ap_archetype = ah_archetype hw, ap_memoryMb = ah_memoryMb hw,
             ap_ram = None, ap_cores = None, ap_systemImage = ca_systemImage r,
             ap_osVersion = orEmpty (ca_osVersion r), ap_precision = ca_precision r,
             ap_apiLevel = ca_apiLevel r, ap_abi = ca_abi r, ap_flavor = ca_flavor r\<rparr>"
  have ok: "android_ok ?p"
    using h tr r by (auto simp: android_ok_def typed_android_release_def orEmpty_def split: option.split_asm)
  have "ah_archetype hw \<noteq> []" "ca_precision r \<noteq> []"
    using h tr by (auto simp: typed_android_release_def)
  then have "matchSessionDevice (NAndroid n) (candidateOf (PAndroid ?p)) = Match"
    using h r by (cases "na_hardware n")
      (simp_all add: matchSessionDevice_def matchAndroidHardware_def matchAndroidOs_def orEmpty_def)
  then show thesis using that [OF rp ok] h by simp
qed

text \<open>A recorded launch hardware is no part of the match.\<close>

lemma candidateOf_withHardware [simp]: "candidateOf (withHardware p hw) = candidateOf p"
  by (cases p) (simp_all add: withHardware_def)

lemma normalize_cases:
  assumes "normalizeSessionDeviceRequirement pretty v defaults catalog = Inr nr"
  obtains q d c n where "defaults = DefIos d" "catalog = CatIos c" "normalizeIos q d c = Inr n" "nr = NIos n"
        | q d c n where "defaults = DefAndroid d" "catalog = CatAndroid c" "normalizeAndroid q d c = Inr n"
            "nr = NAndroid n"
proof -
  obtain p where p: "parseSessionDeviceRequirement pretty v = Inr p"
    using assms by (cases "parseSessionDeviceRequirement pretty v")
      (simp_all add: normalizeSessionDeviceRequirement_def)
  note n = assms [unfolded normalizeSessionDeviceRequirement_def p rbind_simps]
  show thesis
  proof (cases p)
    case (RIos i)
    with n that(1) show thesis by (cases defaults; cases catalog) auto
  next
    case (RAndroid a)
    with n that(2) show thesis by (cases defaults; cases catalog) auto
  next
    case (RWatch w)
    with n show thesis by simp
  qed
qed

lemma resolved_profile_pooled:
  assumes norm: "normalizeSessionDeviceRequirement pretty v defaults catalog = Inr nr"
    and res: "resolveSessionDeviceProfile lc nr defaults catalog = Inr rp"
    and typed: "typed_catalog catalog" "typed_defaults defaults"
  obtains f where "poolMatcher nr defaults = Inr f" "profile_ok (rd_profile rp)"
    "\<forall>stored p. nativeProfile stored = Inr p \<longrightarrow> p = rd_profile rp \<or> (\<exists>hw. p = withHardware (rd_profile rp) hw) \<longrightarrow>
       f stored = Inr True"
  using norm
proof (cases rule: normalize_cases)
  case (1 q d c n)
  then have "resolveIos lc n d c = Inr rp" using res by (simp add: resolveSessionDeviceProfile_def)
  from resolveIos_profile [OF 1(3) this typed(1) [unfolded 1(2)]] obtain p where p:
    "rd_profile rp = PIos p" "ios_ok p" "matchSessionDevice (NIos n) (candidateOf (PIos p)) = Match" .
  show thesis
  proof (rule that)
    show "poolMatcher nr defaults = Inr (matchesPooled nr)" using 1 by (simp add: poolMatcher_def)
    show "profile_ok (rd_profile rp)" using p by (simp add: profile_ok_def)
    show "\<forall>stored p. nativeProfile stored = Inr p \<longrightarrow> p = rd_profile rp \<or> (\<exists>hw. p = withHardware (rd_profile rp) hw) \<longrightarrow>
       matchesPooled nr stored = Inr True"
      using p 1(4) by (auto simp: matchesPooled_def poolProfile_def simp del: candidateOf.simps)
  qed
next
  case (2 q d c n)
  then have "resolveAndroid lc n d c = Inr rp" using res by (simp add: resolveSessionDeviceProfile_def)
  from resolveAndroid_profile [OF 2(3) this typed(1) [unfolded 2(2)] typed(2) [unfolded 2(1)]] obtain p where p:
    "rd_profile rp = PAndroid p" "android_ok p"
    "matchSessionDevice (NAndroid n) (candidateOf (PAndroid p)) = Match"
    "androidRequirementMemoryMb n d = Inr (ap_memoryMb p)"
    and fold: "na_hardware n = AndroidArchetype ''foldable'' \<longrightarrow> (\<exists>x. androidProfileDefault n d = Inr x)" .
  let ?f = "\<lambda>profile. rbind (poolProfile profile) (\<lambda>q.
      Inr (matchSessionDevice nr (candidateOf q) = Match \<and>
        (case q of PAndroid a \<Rightarrow> ap_memoryMb a = ap_memoryMb p | _ \<Rightarrow> False)))"
  show thesis
  proof (rule that)
    show "poolMatcher nr defaults = Inr ?f" using 2 p(4) fold by (auto simp: poolMatcher_def)
    show "profile_ok (rd_profile rp)" using p by (simp add: profile_ok_def)
    have "?f stored = Inr True"
      if h: "nativeProfile stored = Inr p'" "p' = rd_profile rp \<or> (\<exists>hw. p' = withHardware (rd_profile rp) hw)" for stored p'
    proof -
      have "candidateOf p' = candidateOf (PAndroid p)"
        using h(2) p(1) by (auto simp del: candidateOf.simps)
      moreover have "case p' of PAndroid a \<Rightarrow> ap_memoryMb a = ap_memoryMb p | _ \<Rightarrow> False"
        using h(2) p(1) by (auto simp: withHardware_def)
      ultimately show ?thesis using h(1) p(3) 2(4) by (simp add: poolProfile_def del: candidateOf.simps)
    qed
    then show "\<forall>stored p. nativeProfile stored = Inr p \<longrightarrow> p = rd_profile rp \<or> (\<exists>hw. p = withHardware (rd_profile rp) hw) \<longrightarrow>
       ?f stored = Inr True" by blast
  qed
qed

text \<open>
  C37: A device created for a request is a device the pool hands out for it again: if a request
  normalizes and resolves against a typed catalog and defaults, the pool filter of the same request
  exists, the resolved profile survives storage, and the filter accepts it, both as it was created and
  after an activation has recorded the hardware it was launched with. So an admission that resets and
  pools its device never strands it.
\<close>

theorem created_device_serves_its_request:
  assumes "normalizeSessionDeviceRequirement pretty v defaults catalog = Inr nr"
    and "resolveSessionDeviceProfile lc nr defaults catalog = Inr rp"
    and "typed_catalog catalog" "typed_defaults defaults"
  shows "\<exists>f. poolMatcher nr defaults = Inr f \<and>
    f (JObj [(''profile'', profileJson (rd_profile rp))]) = Inr True \<and>
    (\<forall>stored hw. nativeProfile stored = Inr (rd_profile rp) \<longrightarrow> android_ok hw \<longrightarrow>
       (\<exists>j. activationHardware stored (Some (PAndroid hw)) = Inr (Some j) \<and> f j = Inr True))"
proof -
  obtain f where f: "poolMatcher nr defaults = Inr f" "profile_ok (rd_profile rp)"
    "\<forall>stored p. nativeProfile stored = Inr p \<longrightarrow> p = rd_profile rp \<or> (\<exists>hw. p = withHardware (rd_profile rp) hw) \<longrightarrow>
       f stored = Inr True" by (rule resolved_profile_pooled [OF assms])
  have "nativeProfile (JObj [(''profile'', profileJson (rd_profile rp))]) = Inr (rd_profile rp)"
    using exactProfile_print [OF f(2)] by (simp add: nativeProfile_def)
  then have "f (JObj [(''profile'', profileJson (rd_profile rp))]) = Inr True" using f(3) by blast
  moreover have "\<exists>j. activationHardware stored (Some (PAndroid hw)) = Inr (Some j) \<and> f j = Inr True"
    if "nativeProfile stored = Inr (rd_profile rp)" "android_ok hw" for stored hw
    using activationHardware_roundtrip [OF that] f(3) by blast
  ultimately show ?thesis using f(1) by blast
qed

definition demo_request :: json where
  "demo_request = JObj [(''schemaVersion'', JNum 1), (''platform'', JStr ''android''),
     (''hardware'', JObj [(''kind'', JStr ''omitted'')]),
     (''os'', JObj [(''kind'', JStr ''minimum''), (''version'', JStr ''15'')])]"

definition demo_android_catalog :: session_catalog where
  "demo_android_catalog = CatAndroid
     \<lparr>ac_provenance = \<lparr>cp_source = ''sdk'', cp_revision = ''r1'', cp_state = CatalogReady, cp_message = None\<rparr>,
      ac_profiles = [\<lparr>ct_profileId = ''pixel_9'', ct_archetype = Some ''phone'', ct_current = True\<rparr>],
      ac_releases = [\<lparr>ca_systemImage = ''img;16'', ca_osVersion = Some ''16'', ca_precision = ''major'',
         ca_apiLevel = 36, ca_abi = ''arm64-v8a'', ca_flavor = ''google_apis'', ca_installed = True,
         ca_current = True\<rparr>],
      ac_hostAbis = Some [''arm64-v8a'']\<rparr>"

definition demo_android_defaults :: session_defaults where
  "demo_android_defaults = DefAndroid
     \<lparr>ad_policyVersion = ''1'', ad_omitted = ''phone'',
      ad_profiles = [\<lparr>pd_memoryMb = Some 4096, pd_archetype = ''phone'', pd_profileId = ''pixel_9''\<rparr>],
      ad_os = \<lparr>op_selector = OsMinimum ''15'', op_preferredVersion = ''16''\<rparr>\<rparr>"

theorem created_device_serves_its_request_witness:
  "\<exists>nr rp f. normalizeSessionDeviceRequirement (\<lambda>_. []) demo_request demo_android_defaults demo_android_catalog = Inr nr \<and>
     resolveSessionDeviceProfile (key_cmp (\<lambda>s. s)) nr demo_android_defaults demo_android_catalog = Inr rp \<and>
     poolMatcher nr demo_android_defaults = Inr f \<and>
     f (JObj [(''profile'', profileJson (rd_profile rp))]) = Inr True"
proof -
  let ?n = "normalizeSessionDeviceRequirement (\<lambda>_. []) demo_request demo_android_defaults demo_android_catalog"
  have "case rbind ?n (\<lambda>nr. resolveSessionDeviceProfile (key_cmp (\<lambda>s. s)) nr demo_android_defaults
      demo_android_catalog) of Inl _ \<Rightarrow> False | Inr _ \<Rightarrow> True"
    by code_simp
  then obtain nr rp where r: "?n = Inr nr"
    "resolveSessionDeviceProfile (key_cmp (\<lambda>s. s)) nr demo_android_defaults demo_android_catalog = Inr rp"
    by (auto split: sum.split_asm)
  moreover have "typed_catalog demo_android_catalog" "typed_defaults demo_android_defaults"
    by code_simp+
  ultimately show ?thesis
    using created_device_serves_its_request [OF r] by blast
qed

end
