(* ===== verification/CleanReleaseFailure.thy ===== *)
theory CleanReleaseFailure
  imports Prelude
begin

text \<open>
  How a failed clean release is classified (src/src/daemon/sessionBroker/cleanReleaseFailure.ts, the
  code branch of src/src/db/databaseFailureClassification.ts, \<open>drainFailureOutcome\<close> of
  src/src/daemon/sessionBroker/brokerSupport.ts).

  A thrown value is a reference to an error object, \<open>undefined\<close> or another primitive. The objects live
  in a heap, since \<open>cause\<close> may lead back to an object already seen. An object records what the code
  asks of it: which classes it is an instance of, its name, its code and its cause. A \<open>cause\<close> that is
  not there and one that is \<open>undefined\<close> lead to the same next value.
\<close>

datatype thrown = TUndefined | TPrimitive nat | TRef nat

record error_object =
  eo_invariant :: bool
  eo_ownerMismatch :: bool
  eo_simctlTimeout :: bool
  eo_discovery :: "(string \<times> bool option) option"
  eo_resetCapacityWait :: bool
  eo_bootCapacity :: bool
  eo_name :: "string option"
  eo_code :: "string option"
  eo_cause :: thrown

type_synonym error_heap = "error_object list"

datatype failure_kind = KRetryable | KPermanent | KUnknown

definition object_at :: "error_heap \<Rightarrow> thrown \<Rightarrow> error_object option" where
  "object_at h v = (case v of TRef i \<Rightarrow> if i < length h then Some (h ! i) else None | _ \<Rightarrow> None)"

definition isRetryableNativeFailure :: "error_object \<Rightarrow> bool" where
  "isRetryableNativeFailure e \<longleftrightarrow>
     eo_simctlTimeout e \<or>
     (case eo_discovery e of None \<Rightarrow> False
      | Some (platform, retryable) \<Rightarrow> platform = ''ios'' \<and> retryable \<noteq> Some False) \<or>
     eo_name e = Some ''AbortError'' \<or> eo_name e = Some ''TimeoutError''"

datatype sqlite_action = SqliteRetryable | SqliteConstraint | SqliteFatal

text \<open>\<open>classifySqliteError({code})\<close>: only a code, so the fallback on the message is never taken.\<close>

definition classifySqliteError :: "string \<Rightarrow> sqlite_action" where
  "classifySqliteError code =
     (if list_ex (\<lambda>p. startsWith code p) [''SQLITE_BUSY'', ''SQLITE_LOCKED''] then SqliteRetryable
      else if startsWith code ''SQLITE_CONSTRAINT'' then SqliteConstraint else SqliteFatal)"

definition classifyCause :: "error_heap \<Rightarrow> thrown \<Rightarrow> failure_kind" where
  "classifyCause h v =
     (case object_at h v of
        None \<Rightarrow> KUnknown
      | Some e \<Rightarrow>
          if eo_invariant e \<or> eo_ownerMismatch e then KPermanent
          else if isRetryableNativeFailure e then KRetryable
          else (case eo_code e of
             Some code \<Rightarrow>
               if startsWith code ''SQLITE_''
               then (if classifySqliteError code = SqliteRetryable then KRetryable else KPermanent)
               else KUnknown
           | None \<Rightarrow> KUnknown))"

definition causeOf :: "error_heap \<Rightarrow> thrown \<Rightarrow> thrown" where
  "causeOf h v = (case object_at h v of None \<Rightarrow> TUndefined | Some e \<Rightarrow> eo_cause e)"

section \<open>Walking the causes\<close>

definition known_values :: "error_heap \<Rightarrow> thrown set" where
  "known_values h = insert TUndefined (TRef ` {..<length h})"

lemma finite_known [simp]: "finite (known_values h)"
  by (simp add: known_values_def)

lemma causeOf_other: "v \<notin> known_values h \<Longrightarrow> causeOf h v = TUndefined"
  by (auto simp: known_values_def causeOf_def object_at_def split: thrown.split)

function classifyFrom :: "error_heap \<Rightarrow> thrown list \<Rightarrow> failure_kind \<Rightarrow> thrown \<Rightarrow> failure_kind" where
  "classifyFrom h seen result v =
     (if List.member seen v then result
      else
        let kind = classifyCause h v in
        if kind = KPermanent then KPermanent
        else classifyFrom h (v # seen) (if kind = KRetryable then KRetryable else result) (causeOf h v))"
  by pat_completeness auto

text \<open>
  A value of the heap is seen once; a value outside it (a primitive) is followed by \<open>undefined\<close>.
\<close>

termination
proof (relation "measure (\<lambda>(h, seen, result, v).
    2 * card (known_values h - set seen) + (if v \<in> known_values h then 0 else 1))")
  fix h :: error_heap and seen :: "thrown list" and result kind :: failure_kind and v :: thrown
  assume new: "\<not> List.member seen v"
  let ?m = "\<lambda>s w. 2 * card (known_values h - set s) + (if w \<in> known_values h then 0 else 1 :: nat)"
  have "?m (v # seen) (causeOf h v) < ?m seen v"
  proof (cases "v \<in> known_values h")
    case True
    with new have "v \<in> known_values h - set seen" by simp
    moreover have "known_values h - set (v # seen) = (known_values h - set seen) - {v}" by auto
    ultimately have "card (known_values h - set (v # seen)) < card (known_values h - set seen)"
      by (simp only:) (intro card_Diff1_less, auto)
    with True show ?thesis by simp
  next
    case False
    then have "known_values h - set (v # seen) = known_values h - set seen" by auto
    with False causeOf_other [OF False] show ?thesis by (simp add: known_values_def)
  qed
  then show "((h, v # seen, if kind = KRetryable then KRetryable else result, causeOf h v), h, seen, result, v)
      \<in> measure (\<lambda>(h, seen, result, v).
        2 * card (known_values h - set seen) + (if v \<in> known_values h then 0 else 1))"
    by simp
qed simp

declare classifyFrom.simps [simp del]

definition classifyCleanReleaseError :: "error_heap \<Rightarrow> thrown \<Rightarrow> failure_kind" where
  "classifyCleanReleaseError h v = classifyFrom h [] KUnknown v"

datatype drain_failure = DrainDestroy | DrainPending

definition drainFailureOutcome :: "error_heap \<Rightarrow> thrown \<Rightarrow> bool \<Rightarrow> drain_failure" where
  "drainFailureOutcome h v resetClean =
     (if (case object_at h v of None \<Rightarrow> False | Some e \<Rightarrow> eo_resetCapacityWait e) then DrainDestroy
      else if (case object_at h v of None \<Rightarrow> False | Some e \<Rightarrow> eo_bootCapacity e) then DrainPending
      else
        let kind = classifyCleanReleaseError h v in
        if kind = KPermanent \<or> \<not> resetClean \<and> kind = KUnknown then DrainDestroy else DrainPending)"

section \<open>The kind is that of the whole chain\<close>

definition chain :: "error_heap \<Rightarrow> thrown \<Rightarrow> nat \<Rightarrow> thrown" where
  "chain h v n = (causeOf h ^^ n) v"

definition chain_kind :: "error_heap \<Rightarrow> thrown \<Rightarrow> failure_kind" where
  "chain_kind h v =
     (if \<exists>n. classifyCause h (chain h v n) = KPermanent then KPermanent
      else if \<exists>n. classifyCause h (chain h v n) = KRetryable then KRetryable else KUnknown)"

lemma chain_simps [simp]: "chain h v 0 = v" "chain h v (Suc n) = chain h (causeOf h v) n"
  by (simp_all add: chain_def funpow_swap1)

lemma chain_Suc_out: "chain h v (Suc n) = causeOf h (chain h v n)"
  by (simp add: chain_def)

text \<open>
  The values seen so far are the first values of one chain; the walk stops when it would repeat one,
  and from there on the chain repeats what was seen.
\<close>

lemma chain_repeats:
  assumes "chain h v n = chain h v m" and "m < n"
  shows "\<exists>k<n. chain h v j = chain h v k"
proof (induction j rule: less_induct)
  case (less j)
  show ?case
  proof (cases "j < n")
    case False
    let ?i = "m + (j - n)"
    have shift: "chain h v (n + d) = chain h v (m + d)" for d
      using assms(1) by (induction d) (simp_all add: chain_Suc_out del: chain_simps(2))
    have "chain h v j = chain h v ?i" using shift [of "j - n"] False by simp
    moreover have "?i < j" using assms(2) False by simp
    ultimately show ?thesis using less.IH [of ?i] by auto
  qed auto
qed

lemma classifyFrom_chain:
  assumes "seen = map (chain h v) (rev [0..<n])" and "w = chain h v n"
    and "\<forall>k<n. classifyCause h (chain h v k) \<noteq> KPermanent"
    and "result = (if \<exists>k<n. classifyCause h (chain h v k) = KRetryable then KRetryable else KUnknown)"
  shows "classifyFrom h seen result w = chain_kind h v"
  using assms
proof (induction h seen result w arbitrary: n rule: classifyFrom.induct)
  case (1 h seen result w)
  show ?case
  proof (cases "List.member seen w")
    case True
    then obtain m where m: "m < n" "chain h v n = chain h v m" using 1(2,3) by auto
    have all: "\<exists>k<n. chain h v j = chain h v k" for j using chain_repeats [OF m(2,1)] .
    have "(\<exists>j. classifyCause h (chain h v j) = c) \<longleftrightarrow> (\<exists>k<n. classifyCause h (chain h v k) = c)" for c
      using all by metis
    then have "chain_kind h v = result" using 1(4,5) by (auto simp: chain_kind_def)
    then show ?thesis using True by (subst classifyFrom.simps) simp
  next
    case False
    show ?thesis
    proof (cases "classifyCause h w = KPermanent")
      case True
      then have "chain_kind h v = KPermanent" using 1(3) by (auto simp: chain_kind_def)
      then show ?thesis using True False by (subst classifyFrom.simps) simp
    next
      case ok: False
      have "classifyFrom h (w # seen) (if classifyCause h w = KRetryable then KRetryable else result)
          (causeOf h w) = chain_kind h v"
      proof (rule 1(1) [OF False refl ok])
        show "w # seen = map (chain h v) (rev [0..<Suc n])" using 1(2,3) by simp
        show "causeOf h w = chain h v (Suc n)" using 1(3) by (simp add: chain_Suc_out del: chain_simps)
        show "\<forall>k<Suc n. classifyCause h (chain h v k) \<noteq> KPermanent"
          using 1(3,4) ok by (simp add: less_Suc_eq del: chain_simps)
        show "(if classifyCause h w = KRetryable then KRetryable else result) =
            (if \<exists>k<Suc n. classifyCause h (chain h v k) = KRetryable then KRetryable else KUnknown)"
          using 1(3,5) by (auto simp: less_Suc_eq simp del: chain_simps)
      qed
      then show ?thesis using False ok by (subst classifyFrom.simps) simp
    qed
  qed
qed

text \<open>
  C30: Classifying a failed clean release always ends, on any error graph, cyclic ones included, and
  answers for the whole chain of causes: permanent when any cause in it is a broken invariant, a foreign
  owner or a fatal SQLite code, otherwise retryable when any cause is known to be retryable, otherwise
  unknown. A release that failed before its device was clean is destroyed unless a cause is retryable and
  none permanent; once the device is clean it is destroyed only for a permanent cause (capacity waits
  apart, which have their own answer).
\<close>

theorem clean_release_failure_decided:
  "classifyCleanReleaseError h v = chain_kind h v \<and>
   drainFailureOutcome h v resetClean =
     (if (case object_at h v of None \<Rightarrow> False | Some e \<Rightarrow> eo_resetCapacityWait e) then DrainDestroy
      else if (case object_at h v of None \<Rightarrow> False | Some e \<Rightarrow> eo_bootCapacity e) then DrainPending
      else if chain_kind h v = KPermanent then DrainDestroy
      else if chain_kind h v = KRetryable \<or> resetClean then DrainPending else DrainDestroy)"
proof -
  have "classifyCleanReleaseError h v = chain_kind h v"
    unfolding classifyCleanReleaseError_def by (rule classifyFrom_chain [where n = 0]) simp_all
  then show ?thesis
    by (cases "chain_kind h v") (simp_all add: drainFailureOutcome_def Let_def)
qed

end
