(* ===== verification/DestructionQueue.thy ===== *)
theory DestructionQueue
  imports Scenario "HOL-Library.AList"
begin

text \<open>
  The data of native destruction behind the durable destroying rows
  (src/src/daemon/sessionBroker/destructionQueue.ts), and which pooled devices expire
  (src/src/daemon/sessionBroker/idlePoolExpiry.ts). The passes over tickets and the drains wait for
  native work and are flows: \<open>destroyF\<close>, \<open>tryCleanup\<close>, \<open>drainPool\<close>, \<open>drainIdlePoolF\<close> and
  \<open>expireIdlePoolF\<close>.
\<close>

section \<open>Draining\<close>

text \<open>What the device port answers to a destruction.\<close>

datatype native_outcome = Absent | NativePending

datatype drain_outcome = DrainDestroyed | DrainCleanupPending

record drain_entry =
  de_resource :: string
  de_outcome :: drain_outcome
  de_cleanupPending :: bool

definition confirmedGone :: "broker_db \<Rightarrow> string \<Rightarrow> bool" where
  "confirmedGone db k = (case getResource db k of None \<Rightarrow> True | Some r \<Rightarrow> rs_state r = Destroyed)"

section \<open>Idle expiry\<close>

record idle_ttl =
  ttl_ios :: "rat option"
  ttl_android :: "rat option"

type_synonym observations = "(string \<times> int \<times> int) list"

definition enabled :: "idle_ttl \<Rightarrow> bool" where
  "enabled t \<longleftrightarrow> ttl_ios t \<noteq> None \<or> ttl_android t \<noteq> None"

definition ttlFor :: "idle_ttl \<Rightarrow> resource_row \<Rightarrow> rat option" where
  "ttlFor t r =
     (case nativeProfile (rs_profile r) of
        Inl _ \<Rightarrow> None
      | Inr (PAndroid _) \<Rightarrow> ttl_android t
      | Inr _ \<Rightarrow> ttl_ios t)"

record sweep_state =
  sw_observed :: observations
  sw_seen :: "string list"
  sw_expired :: "ticket list"

definition observe :: "idle_ttl \<Rightarrow> int \<Rightarrow> resource_row \<Rightarrow> sweep_state \<Rightarrow> sweep_state" where
  "observe t now r s =
     (case ttlFor t r of
        None \<Rightarrow> s
      | Some ttl \<Rightarrow>
          let s1 = s\<lparr>sw_seen := sw_seen s @ [rs_id r]\<rparr>;
              start = s1\<lparr>sw_observed := AList.update (rs_id r) (rs_revision r, now) (sw_observed s)\<rparr> in
          (case map_of (sw_observed s) (rs_id r) of
             None \<Rightarrow> start
           | Some (revision, since) \<Rightarrow>
               if revision \<noteq> rs_revision r then start
               else if ttl \<le> ms (now - since)
               then s1\<lparr>sw_expired := sw_expired s @ [destructionTicket r]\<rparr>
               else s1))"

text \<open>The clock map after a pass: what was not seen, and what expires, is forgotten.\<close>

definition sweepObserve ::
  "idle_ttl \<Rightarrow> int \<Rightarrow> observations \<Rightarrow> broker_db \<Rightarrow> ticket list \<times> observations" where
  "sweepObserve t now observed db =
     (let idle = filter (\<lambda>r. rs_state r = Idle) (listLiveResources db);
          s = fold (observe t now) idle \<lparr>sw_observed = observed, sw_seen = [], sw_expired = []\<rparr>;
          retained = filter (\<lambda>e. List.member (sw_seen s) (fst e)) (sw_observed s) in
      (sw_expired s, filter (\<lambda>e. \<not> List.member (map fst (sw_expired s)) (fst e)) retained))"

lemma getResource_read [simp]: "getResource db k = readResource db k"
  by (simp add: getResource_def listResources_def head_def split: option.splits)

section \<open>What a sweep expires\<close>

text \<open>Since when a pass takes the resource to be idle: the recorded time of this revision, or now.\<close>

definition idleSince :: "int \<Rightarrow> observations \<Rightarrow> resource_row \<Rightarrow> int" where
  "idleSince now obs r =
     (case map_of obs (rs_id r) of
        Some (v, since) \<Rightarrow> if v = rs_revision r then since else now
      | None \<Rightarrow> now)"

definition expires :: "idle_ttl \<Rightarrow> int \<Rightarrow> observations \<Rightarrow> resource_row \<Rightarrow> bool" where
  "expires t now obs r \<longleftrightarrow> (\<exists>ttl since. ttlFor t r = Some ttl \<and>
     map_of obs (rs_id r) = Some (rs_revision r, since) \<and> ttl \<le> ms (now - since))"

lemma observe_fold:
  assumes "distinct (map rs_id rs)"
  shows "let s = fold (observe t now) rs \<lparr>sw_observed = obs, sw_seen = [], sw_expired = []\<rparr> in
    sw_seen s = map rs_id (filter (\<lambda>r. ttlFor t r \<noteq> None) rs) \<and>
    sw_expired s = map destructionTicket (filter (expires t now obs) rs) \<and>
    (\<forall>r\<in>set rs. ttlFor t r \<noteq> None \<longrightarrow>
       map_of (sw_observed s) (rs_id r) = Some (rs_revision r, idleSince now obs r)) \<and>
    (\<forall>k. k \<notin> rs_id ` set rs \<longrightarrow> map_of (sw_observed s) k = map_of obs k)"
  using assms
proof (induction rs rule: rev_induct)
  case (snoc r rs)
  define s where "s = fold (observe t now) rs \<lparr>sw_observed = obs, sw_seen = [], sw_expired = []\<rparr>"
  have new: "rs_id r \<notin> rs_id ` set rs" and d: "distinct (map rs_id rs)" using snoc.prems by auto
  have ih: "sw_seen s = map rs_id (filter (\<lambda>r. ttlFor t r \<noteq> None) rs)"
    "sw_expired s = map destructionTicket (filter (expires t now obs) rs)"
    "\<forall>r\<in>set rs. ttlFor t r \<noteq> None \<longrightarrow>
       map_of (sw_observed s) (rs_id r) = Some (rs_revision r, idleSince now obs r)"
    "\<forall>k. k \<notin> rs_id ` set rs \<longrightarrow> map_of (sw_observed s) k = map_of obs k"
    using snoc.IH [OF d] by (simp_all add: s_def Let_def)
  have at: "map_of (sw_observed s) (rs_id r) = map_of obs (rs_id r)" using ih(4) new by blast
  have step: "fold (observe t now) (rs @ [r]) \<lparr>sw_observed = obs, sw_seen = [], sw_expired = []\<rparr> =
    observe t now r s" by (simp add: s_def)
  have ne: "rs_id x \<noteq> rs_id r" if "x \<in> set rs" for x using new that by (metis image_eqI)
  show ?case
    unfolding step Let_def
    using ih(1,2)
    by (intro conjI ballI allI)
       (insert ih(3,4) ne at, auto simp: observe_def Let_def expires_def idleSince_def update_conv'
        split: option.splits prod.splits)
qed simp

lemma map_of_filter_key: "P k \<Longrightarrow> map_of (filter (\<lambda>e. P (fst e)) xs) k = map_of xs k"
  by (induction xs) auto

lemma sweepObserve_result:
  assumes inv: "broker_inv db" and run: "sweepObserve t now obs db = (expired, retained)"
  shows "expired = map destructionTicket (filter (\<lambda>r. rs_state r = Idle \<and> expires t now obs r) (readResources db True))"
    and "\<And>k v since. map_of retained k = Some (v, since) \<Longrightarrow>
       \<exists>r. readResource db k = Some r \<and> rs_state r = Idle \<and> rs_revision r = v \<and>
         since = idleSince now obs r \<and> \<not> expires t now obs r"
proof -
  let ?idle = "filter (\<lambda>r. rs_state r = Idle) (readResources db True)"
  define s where "s = fold (observe t now) ?idle \<lparr>sw_observed = obs, sw_seen = [], sw_expired = []\<rparr>"
  have d: "distinct (map rs_id ?idle)"
    using distinct_readResources [OF inv] by (simp add: distinct_map_filter)
  note f = observe_fold [OF d, of t now obs, folded s_def, unfolded Let_def]
  have e: "expired = sw_expired s" and
    retained: "retained = filter (\<lambda>e. \<not> List.member (map fst expired) (fst e)) (filter (\<lambda>e. List.member (sw_seen s) (fst e)) (sw_observed s))"
    using run by (auto simp: sweepObserve_def Let_def listLiveResources_def s_def)
  show x: "expired = map destructionTicket (filter (\<lambda>r. rs_state r = Idle \<and> expires t now obs r) (readResources db True))"
    unfolding e using f by (simp add: conj_commute)
  fix k v since assume m: "map_of retained k = Some (v, since)"
  then have in_kept: "(k, v, since) \<in> set retained" by (rule map_of_SomeD)
  then have seen: "k \<in> set (sw_seen s)" "k \<notin> set (map fst expired)" by (auto simp: retained)
  then obtain r where r: "r \<in> set (readResources db True)" "rs_state r = Idle" "rs_id r = k" "ttlFor t r \<noteq> None"
    using f by auto
  have "map_of retained k = map_of (sw_observed s) k"
    unfolding retained
    using map_of_filter_key [of "\<lambda>x. x \<in> set (sw_seen s) \<and> x \<notin> fst ` set expired" k "sw_observed s"] seen
    by simp
  then have "(v, since) = (rs_revision r, idleSince now obs r)"
    using m f r by auto
  moreover have "\<not> expires t now obs r"
  proof
    assume "expires t now obs r"
    then have "k \<in> set (map fst expired)" using r by (force simp: x destructionTicket_def)
    then show False using seen by blast
  qed
  ultimately show "\<exists>r. readResource db k = Some r \<and> rs_state r = Idle \<and> rs_revision r = v \<and>
         since = idleSince now obs r \<and> \<not> expires t now obs r"
    using readResources_row [OF inv r(1)] r by auto
qed

end
