(* ===== verification/JournalInFlight.thy ===== *)
theory JournalInFlight
  imports Registry
begin

text \<open>
  What this process has under way for the binding journal
  (src/src/daemon/sessionBroker/registry/BindingJournalInFlight.ts): the entries some code is driving,
  and the native deletes that were started and have not settled, per device.

  A removal is an object of the source; \<open>ro_id\<close> is its identity. A delete that outlived its deadline
  keeps its record, marked overdue; a pass of the journal later gives it up (\<open>abandoned\<close>), which lets a
  new delete of the same device start while the old one still runs.
\<close>

section \<open>State and operations\<close>

record removal_operation =
  ro_id :: nat
  ro_overdueAtMs :: "int option"
  ro_abandoned :: bool

record in_flight =
  jf_ids :: "int list"
  jf_removals :: "platform \<times> string \<Rightarrow> removal_operation list"
  jf_started :: nat

definition BINDING_JOURNAL_OVERDUE_DELETE_GRACE_MS :: int where
  "BINDING_JOURNAL_OVERDUE_DELETE_GRACE_MS = 1000"

definition BINDING_JOURNAL_MAX_ABANDONED_DELETES :: nat where
  "BINDING_JOURNAL_MAX_ABANDONED_DELETES = 3"

definition drives :: "in_flight \<Rightarrow> int \<Rightarrow> bool" where
  "drives f i \<longleftrightarrow> List.member (jf_ids f) i"

definition startDriving :: "int \<Rightarrow> in_flight \<Rightarrow> in_flight" where
  "startDriving i f = f\<lparr>jf_ids := List.insert i (jf_ids f)\<rparr>"

definition stopDriving :: "int \<Rightarrow> in_flight \<Rightarrow> in_flight" where
  "stopDriving i f = f\<lparr>jf_ids := filter (\<lambda>j. j \<noteq> i) (jf_ids f)\<rparr>"

definition hasRemoval :: "in_flight \<Rightarrow> platform \<Rightarrow> string \<Rightarrow> bool" where
  "hasRemoval f p d \<longleftrightarrow> jf_removals f (p, d) \<noteq> []"

definition removalBlocked :: "in_flight \<Rightarrow> platform \<Rightarrow> string \<Rightarrow> bool" where
  "removalBlocked f p d \<longleftrightarrow>
     (let records = jf_removals f (p, d) in
      if BINDING_JOURNAL_MAX_ABANDONED_DELETES \<le> length (filter ro_abandoned records) then True
      else list_ex (\<lambda>r. \<not> ro_abandoned r) records)"

definition giveUp :: "int \<Rightarrow> removal_operation \<Rightarrow> removal_operation" where
  "giveUp now r = (case ro_overdueAtMs r of
      None \<Rightarrow> r
    | Some t \<Rightarrow> if BINDING_JOURNAL_OVERDUE_DELETE_GRACE_MS \<le> now - t then r\<lparr>ro_abandoned := True\<rparr> else r)"

text \<open>\<open>hasRemovalForPass\<close> gives up overdue removals, then answers \<open>removalBlocked\<close>.\<close>

definition giveUpOverdue :: "platform \<Rightarrow> string \<Rightarrow> int \<Rightarrow> in_flight \<Rightarrow> in_flight" where
  "giveUpOverdue p d now f = f\<lparr>jf_removals := (jf_removals f)((p, d) := map (giveUp now) (jf_removals f (p, d)))\<rparr>"

definition hasRemovalForPass :: "platform \<Rightarrow> string \<Rightarrow> int \<Rightarrow> in_flight \<Rightarrow> bool \<times> in_flight" where
  "hasRemovalForPass p d now f = (let f1 = giveUpOverdue p d now f in (removalBlocked f1 p d, f1))"

text \<open>A started removal; its settling removes the record, and it alone.\<close>

definition trackRemoval :: "platform \<Rightarrow> string \<Rightarrow> in_flight \<Rightarrow> nat \<times> in_flight" where
  "trackRemoval p d f =
     (jf_started f,
      f\<lparr>jf_removals := (jf_removals f)((p, d) := jf_removals f (p, d) @
          [\<lparr>ro_id = jf_started f, ro_overdueAtMs = None, ro_abandoned = False\<rparr>]),
        jf_started := Suc (jf_started f)\<rparr>)"

definition settleRemoval :: "platform \<Rightarrow> string \<Rightarrow> nat \<Rightarrow> in_flight \<Rightarrow> in_flight" where
  "settleRemoval p d i f =
     f\<lparr>jf_removals := (jf_removals f)((p, d) := filter (\<lambda>r. ro_id r \<noteq> i) (jf_removals f (p, d)))\<rparr>"

definition markRemovalOverdue :: "platform \<Rightarrow> string \<Rightarrow> nat \<Rightarrow> int \<Rightarrow> in_flight \<Rightarrow> in_flight" where
  "markRemovalOverdue p d i now f =
     f\<lparr>jf_removals := (jf_removals f)((p, d) := map (\<lambda>r.
          if ro_id r = i \<and> ro_overdueAtMs r = None then r\<lparr>ro_overdueAtMs := Some now\<rparr> else r)
          (jf_removals f (p, d)))\<rparr>"

section \<open>How many deletes of one device run\<close>

text \<open>
  Everything this process does to the state. A delete starts only where the stage runner starts it,
  in the same turn in which it found \<open>removalBlocked\<close> false.
\<close>

inductive in_flight_step :: "in_flight \<Rightarrow> in_flight \<Rightarrow> bool" where
  drive: "in_flight_step f (startDriving i f)"
| leave: "in_flight_step f (stopDriving i f)"
| start: "\<not> removalBlocked f p d \<Longrightarrow> in_flight_step f (snd (trackRemoval p d f))"
| settle: "in_flight_step f (settleRemoval p d i f)"
| overdue: "in_flight_step f (markRemovalOverdue p d i now f)"
| pass: "in_flight_step f (snd (hasRemovalForPass p d now f))"

definition no_work :: in_flight where
  "no_work = \<lparr>jf_ids = [], jf_removals = (\<lambda>_. []), jf_started = 0\<rparr>"

definition removals_ok :: "removal_operation list \<Rightarrow> bool" where
  "removals_ok rs \<longleftrightarrow> length rs \<le> BINDING_JOURNAL_MAX_ABANDONED_DELETES \<and>
     length (filter (\<lambda>r. \<not> ro_abandoned r) rs) \<le> 1"

definition in_flight_inv :: "in_flight \<Rightarrow> bool" where
  "in_flight_inv f \<longleftrightarrow> (\<forall>k. removals_ok (jf_removals f k))"

lemma removals_okI: "in_flight_inv f \<Longrightarrow> removals_ok (jf_removals f k)"
  unfolding in_flight_inv_def by blast

lemma length_filter_filter: "length (filter P (filter Q xs)) \<le> length (filter P xs)"
  by (induction xs) auto

lemma giveUp_abandons: "ro_abandoned r \<Longrightarrow> ro_abandoned (giveUp now r)"
  by (auto simp: giveUp_def split: option.split)

lemma fewer_running: "length (filter (\<lambda>r. \<not> ro_abandoned (giveUp now r)) rs) \<le> length (filter (\<lambda>r. \<not> ro_abandoned r) rs)"
  by (induction rs) (auto dest: giveUp_abandons)

lemma removals_ok_filter: "removals_ok rs \<Longrightarrow> removals_ok (filter P rs)"
  unfolding removals_ok_def by (meson length_filter_filter length_filter_le order_trans)

lemma removals_ok_giveUp: "removals_ok rs \<Longrightarrow> removals_ok (map (giveUp now) rs)"
  unfolding removals_ok_def using fewer_running [of now rs] by (simp add: filter_map o_def)

lemma removals_ok_overdue:
  "removals_ok rs \<Longrightarrow> removals_ok (map (\<lambda>r. if ro_id r = i \<and> ro_overdueAtMs r = None then r\<lparr>ro_overdueAtMs := Some now\<rparr> else r) rs)"
proof -
  let ?g = "\<lambda>r. if ro_id r = i \<and> ro_overdueAtMs r = None then r\<lparr>ro_overdueAtMs := Some now\<rparr> else r"
  have "filter (\<lambda>r. \<not> ro_abandoned r) (map ?g rs) = map ?g (filter (\<lambda>r. \<not> ro_abandoned r) rs)"
    by (induction rs) auto
  then show "removals_ok rs \<Longrightarrow> removals_ok (map ?g rs)" by (simp add: removals_ok_def)
qed

text \<open>A delete may start: every record is given up, and there are fewer than three.\<close>

lemma unblocked_removals:
  assumes "\<not> removalBlocked f p d"
  shows "list_all ro_abandoned (jf_removals f (p, d))"
    and "length (jf_removals f (p, d)) < BINDING_JOURNAL_MAX_ABANDONED_DELETES"
proof -
  show all: "list_all ro_abandoned (jf_removals f (p, d))"
    using assms by (auto simp: removalBlocked_def Let_def list_ex_iff list_all_iff split: if_splits)
  then have "filter ro_abandoned (jf_removals f (p, d)) = jf_removals f (p, d)" by (simp add: list_all_iff)
  then show "length (jf_removals f (p, d)) < BINDING_JOURNAL_MAX_ABANDONED_DELETES"
    using assms by (auto simp: removalBlocked_def Let_def split: if_splits)
qed

lemma in_flight_step_inv: "in_flight_step f g \<Longrightarrow> in_flight_inv f \<Longrightarrow> in_flight_inv g"
proof (induction rule: in_flight_step.induct)
  case (start f p d)
  note free = unblocked_removals [OF start(1)]
  have "filter (\<lambda>r. \<not> ro_abandoned r) (jf_removals f (p, d)) = []"
    using free(1) by (simp add: list_all_iff filter_empty_conv)
  then have "removals_ok (jf_removals f (p, d) @ [\<lparr>ro_id = jf_started f, ro_overdueAtMs = None, ro_abandoned = False\<rparr>])"
    using free(2) by (simp add: removals_ok_def)
  then show ?case using start(2) by (simp add: in_flight_inv_def trackRemoval_def)
qed (auto simp: in_flight_inv_def startDriving_def stopDriving_def settleRemoval_def markRemovalOverdue_def
      hasRemovalForPass_def giveUpOverdue_def Let_def intro: removals_ok_filter removals_ok_giveUp removals_ok_overdue)

interpretation in_flight_runs: invariant_system no_work in_flight_step in_flight_inv
proof unfold_locales
  show "in_flight_inv no_work" by (simp add: in_flight_inv_def no_work_def removals_ok_def)
qed (rule in_flight_step_inv)

text \<open>
  C22: Native deletes of a device are bounded. Whatever drives, passes and settling deletes do, at most
  three deletes of one device run at any moment, and at most one of them has not been given up. A new
  one is refused exactly while one runs that is not given up, or three run. And the journal is not stuck
  behind a delete that hangs: once every running delete is overdue by the grace and fewer than three
  run, the next pass lets a new one start.
\<close>

theorem native_deletes_bounded:
  assumes "in_flight_step\<^sup>*\<^sup>* no_work f"
  shows "length (jf_removals f (p, d)) \<le> 3 \<and>
    length (filter (\<lambda>r. \<not> ro_abandoned r) (jf_removals f (p, d))) \<le> 1 \<and>
    (removalBlocked f p d \<longleftrightarrow>
       (\<exists>r \<in> set (jf_removals f (p, d)). \<not> ro_abandoned r) \<or> length (jf_removals f (p, d)) = 3) \<and>
    ((\<forall>r \<in> set (jf_removals f (p, d)). \<exists>t. ro_overdueAtMs r = Some t \<and> t + 1000 \<le> now) \<and>
       length (jf_removals f (p, d)) < 3 \<longrightarrow> \<not> fst (hasRemovalForPass p d now f))"
proof -
  let ?rs = "jf_removals f (p, d)"
  have inv: "removals_ok ?rs" using in_flight_runs.inv_reachable [OF assms] removals_okI by blast
  have blocked: "removalBlocked f p d \<longleftrightarrow> (\<exists>r \<in> set ?rs. \<not> ro_abandoned r) \<or> length ?rs = 3"
  proof (cases "\<exists>r \<in> set ?rs. \<not> ro_abandoned r")
    case True
    then show ?thesis by (auto simp: removalBlocked_def Let_def list_ex_iff)
  next
    case False
    then have "filter ro_abandoned ?rs = ?rs" by (auto simp: filter_id_conv)
    then show ?thesis
      using inv False by (auto simp: removalBlocked_def Let_def removals_ok_def list_ex_iff
          BINDING_JOURNAL_MAX_ABANDONED_DELETES_def)
  qed
  have pass: "\<not> fst (hasRemovalForPass p d now f)"
    if late: "\<forall>r \<in> set ?rs. \<exists>t. ro_overdueAtMs r = Some t \<and> t + 1000 \<le> now" and few: "length ?rs < 3"
  proof -
    have "ro_abandoned (giveUp now r)" if "r \<in> set ?rs" for r
      using late that by (force simp: giveUp_def BINDING_JOURNAL_OVERDUE_DELETE_GRACE_MS_def split: option.split)
    then have "\<not> list_ex (\<lambda>r. \<not> ro_abandoned r) (map (giveUp now) ?rs)" by (auto simp: list_ex_iff)
    moreover have "length (filter ro_abandoned (map (giveUp now) ?rs)) < 3"
      using few by (metis le_less_trans length_filter_le length_map)
    ultimately show ?thesis
      by (simp add: hasRemovalForPass_def giveUpOverdue_def removalBlocked_def Let_def
          BINDING_JOURNAL_MAX_ABANDONED_DELETES_def)
  qed
  show ?thesis
    using inv blocked pass by (simp add: removals_ok_def BINDING_JOURNAL_MAX_ABANDONED_DELETES_def)
qed

text \<open>A delete that hangs, is given up by a pass, and a second one beside it.\<close>

definition demo_hanging :: in_flight where
  "demo_hanging = markRemovalOverdue Android ''avd'' 0 5000 (snd (trackRemoval Android ''avd'' no_work))"

definition demo_second :: in_flight where
  "demo_second = snd (trackRemoval Android ''avd'' (snd (hasRemovalForPass Android ''avd'' 7000 demo_hanging)))"

lemmas in_flight_defs = trackRemoval_def no_work_def markRemovalOverdue_def hasRemovalForPass_def
  giveUpOverdue_def giveUp_def removalBlocked_def demo_hanging_def demo_second_def Let_def
  BINDING_JOURNAL_OVERDUE_DELETE_GRACE_MS_def BINDING_JOURNAL_MAX_ABANDONED_DELETES_def

lemma demo_second_reached: "in_flight_step\<^sup>*\<^sup>* no_work demo_second"
proof -
  let ?one = "snd (trackRemoval Android ''avd'' no_work)"
  let ?given = "snd (hasRemovalForPass Android ''avd'' 7000 demo_hanging)"
  have "in_flight_step no_work ?one" by (rule in_flight_step.start) (simp add: in_flight_defs)
  moreover have "in_flight_step ?one demo_hanging" unfolding demo_hanging_def by (rule in_flight_step.overdue)
  moreover have "in_flight_step demo_hanging ?given" by (rule in_flight_step.pass)
  moreover have "in_flight_step ?given demo_second"
    unfolding demo_second_def by (rule in_flight_step.start) (simp add: in_flight_defs)
  ultimately show ?thesis by (meson converse_rtranclp_into_rtranclp rtranclp.rtrancl_refl)
qed

theorem native_deletes_bounded_witness:
  "length (jf_removals demo_second (Android, ''avd'')) = 2 \<and> removalBlocked demo_second Android ''avd''"
proof -
  have "length (jf_removals demo_second (Android, ''avd'')) = 2 \<and>
     list_ex (\<lambda>r. \<not> ro_abandoned r) (jf_removals demo_second (Android, ''avd''))"
    by (simp add: in_flight_defs)
  then show ?thesis
    using native_deletes_bounded [OF demo_second_reached, of Android "''avd''"] by (simp add: list_ex_iff)
qed

end
