(* ===== verification/Flow.thy ===== *)
theory Flow
  imports ResetReadiness DestructionQueue CleanReleaseFailure JournalInFlight
begin

text \<open>
  The language the broker's asynchronous code is written in.

  An asynchronous function of the daemon runs until its next \<open>await\<close>; then everything else of the host
  may run: other requests of this daemon, other daemons on the same database, the clock, an abort of
  the caller, a stop of the broker. A \<open>flow\<close> is such a function: it takes the scene and the moves the
  rest of the world will make, one per suspension, and answers a result or a thrown error, the scene
  it leaves and the moves not yet made. A move may also make the awaited store call fail
  (\<open>mv_fault\<close>): a transaction that fails has rolled back.

  \<open>scene\<close> adds to the world of \<open>ResetReadiness\<close> (database, clock, readiness bookkeeping, the reason of
  the caller's aborted signal) what the daemon keeps in memory: of \<open>SessionBroker\<close> the stop flag, the
  number of preparations per request, the sessions with a tracked release, the requests whose release
  recovery has queued, whether snapshot maintenance runs; of the binding journal the entries and
  native deletes under way and the entries whose device is to be removed.
\<close>

section \<open>Thrown errors\<close>

record broker_failure =
  bf_code :: string
  bf_message :: string
  bf_retryable :: bool
  bf_remedy :: "string option"
  bf_writerVersions :: "(string \<times> string) list option"
  bf_retryAfterMs :: "int option"
  bf_newRequestId :: bool

text \<open>
  \<open>Plain\<close> is an error of the modelled store or of the device port. The others carry data the broker
  looks at. \<open>OutOfFuel\<close> is not an error of the code: it marks an eviction loop cut short, which
  \<open>evictions_end\<close> rules out.
\<close>

datatype thrown_error =
    Plain err
  | FailureThrown broker_failure
  | SchemaUnsupported string "(string \<times> string) list" string
  | CommittedReceiptRead string thrown_error
  | ResetFailure string reset_report thrown_error
  | DriveCancelled err
  | RegistryStageTimeout string
  | OutOfFuel

fun thrownMessage :: "thrown_error \<Rightarrow> string" where
  "thrownMessage (Plain e) = errorMessage e"
| "thrownMessage (FailureThrown f) = bf_message f"
| "thrownMessage (SchemaUnsupported m versions remedy) = m"
| "thrownMessage (CommittedReceiptRead k cause) =
     ''Session request '' @ k @ '' committed its session, but its receipt could not be read ('' @
     thrownMessage cause @ ''); replay the same request ID to recover it''"
| "thrownMessage (ResetFailure m report cause) = m"
| "thrownMessage (DriveCancelled reason) = ''Journal drive cancelled''"
| "thrownMessage (RegistryStageTimeout m) = m"
| "thrownMessage OutOfFuel = []"

section \<open>Flows\<close>

record scene = world +
  sc_stopping :: bool
  sc_preparations :: "string \<Rightarrow> nat"
  sc_releases :: "string list"
  sc_queued :: "string list"
  sc_maintenance :: bool
  sc_inFlight :: in_flight
  sc_intents :: "int list"

record move =
  mv_world :: "scene \<Rightarrow> scene"
  mv_fault :: "thrown_error option"

type_synonym ('e, 'a) flow = "scene \<Rightarrow> move list \<Rightarrow> ('e + 'a) \<times> scene \<times> move list"

definition answer :: "'a \<Rightarrow> ('e, 'a) flow" where
  "answer x s mv = (Inr x, s, mv)"

definition throw :: "'e \<Rightarrow> ('e, 'a) flow" where
  "throw e s mv = (Inl e, s, mv)"

definition andThenF :: "('e, 'a) flow \<Rightarrow> ('a \<Rightarrow> ('e, 'b) flow) \<Rightarrow> ('e, 'b) flow" where
  "andThenF m f s mv =
     (case m s mv of (Inl e, s1, mv1) \<Rightarrow> (Inl e, s1, mv1) | (Inr x, s1, mv1) \<Rightarrow> f x s1 mv1)"

definition catching :: "('e, 'a) flow \<Rightarrow> ('e \<Rightarrow> ('d, 'a) flow) \<Rightarrow> ('d, 'a) flow" where
  "catching m h s mv =
     (case m s mv of (Inl e, s1, mv1) \<Rightarrow> h e s1 mv1 | (Inr x, s1, mv1) \<Rightarrow> (Inr x, s1, mv1))"

text \<open>\<open>finally\<close> with a synchronous block: it runs on either way out.\<close>

definition lastly :: "('e, 'a) flow \<Rightarrow> (scene \<Rightarrow> scene) \<Rightarrow> ('e, 'a) flow" where
  "lastly m f s mv = (case m s mv of (r, s1, mv1) \<Rightarrow> (r, f s1, mv1))"

text \<open>Synchronous reads and writes of what the daemon holds in memory.\<close>

definition look :: "(scene \<Rightarrow> 'a) \<Rightarrow> ('e, 'a) flow" where
  "look f s mv = (Inr (f s), s, mv)"

definition change :: "(scene \<Rightarrow> scene) \<Rightarrow> ('e, unit) flow" where
  "change f s mv = (Inr (), f s, mv)"

definition lifted :: "'a res \<Rightarrow> (thrown_error, 'a) flow" where
  "lifted r s mv = ((case r of Inl e \<Rightarrow> Inl (Plain e) | Inr x \<Rightarrow> Inr x), s, mv)"

section \<open>Awaiting\<close>

definition turn :: "scene \<Rightarrow> move list \<Rightarrow> thrown_error option \<times> scene \<times> move list" where
  "turn s mv = (case mv of [] \<Rightarrow> (None, s, []) | m # rest \<Rightarrow> (mv_fault m, mv_world m s, rest))"

text \<open>The world moves before the awaited work takes effect and again before the caller continues.\<close>

definition awaiting ::
  "(scene \<Rightarrow> (thrown_error + 'a) \<times> scene) \<Rightarrow> (thrown_error, 'a) flow" where
  "awaiting act s mv =
     (let (fault, s1, mv1) = turn s mv;
          (r, s2) = (case fault of Some e \<Rightarrow> (Inl e, s1) | None \<Rightarrow> act s1);
          (_, s3, mv2) = turn s2 mv1 in
      (r, s3, mv2))"

definition transaction :: "(int \<Rightarrow> broker_db \<Rightarrow> ('a \<times> broker_db) res) \<Rightarrow> (thrown_error, 'a) flow" where
  "transaction tx = awaiting (\<lambda>s.
     case tx (wd_now s) (wd_db s) of
       Inl e \<Rightarrow> (Inl (Plain e), s)
     | Inr (x, db) \<Rightarrow> (Inr x, s\<lparr>wd_db := db\<rparr>))"

definition query :: "(broker_db \<Rightarrow> 'a) \<Rightarrow> (thrown_error, 'a) flow" where
  "query f = awaiting (\<lambda>s. (Inr (f (wd_db s)), s))"

text \<open>\<open>signal.throwIfAborted()\<close>; a call without a signal passes \<open>False\<close>.\<close>

definition throwIfAborted :: "bool \<Rightarrow> (thrown_error, unit) flow" where
  "throwIfAborted signal =
     andThenF (look wd_aborted) (\<lambda>reason.
     case reason of Some e \<Rightarrow> if signal then throw (Plain e) else answer () | None \<Rightarrow> answer ())"

text \<open>A loop over a list fixed beforehand.\<close>

fun forEach :: "'a list \<Rightarrow> ('a \<Rightarrow> ('e, unit) flow) \<Rightarrow> ('e, unit) flow" where
  "forEach [] f = answer ()"
| "forEach (x # xs) f = andThenF (f x) (\<lambda>_. forEach xs f)"

section \<open>A quiet world\<close>

text \<open>Without moves of the world an awaited step is the step.\<close>

lemma turn_quiet [simp]: "turn s [] = (None, s, [])"
  by (simp add: turn_def)

lemma awaiting_quiet: "awaiting act s [] = (case act s of (r, s1) \<Rightarrow> (r, s1, []))"
  by (simp add: awaiting_def split: prod.split)

lemma query_quiet: "query f s [] = (Inr (f (wd_db s)), s, [])"
  by (simp add: query_def awaiting_quiet)

lemma transaction_quiet:
  "transaction tx s [] =
     (case tx (wd_now s) (wd_db s) of
        Inl e \<Rightarrow> (Inl (Plain e), s, [])
      | Inr (x, db) \<Rightarrow> (Inr x, s\<lparr>wd_db := db\<rparr>, []))"
  by (simp add: transaction_def awaiting_quiet split: sum.split prod.split)

lemma throwIfAborted_run:
  "throwIfAborted b s mv = ((case wd_aborted s of None \<Rightarrow> Inr () | Some e \<Rightarrow> if b then Inl (Plain e) else Inr ()), s, mv)"
  by (simp add: throwIfAborted_def andThenF_def look_def throw_def answer_def split: option.split)

lemma flow_run:
  "answer x s mv = (Inr x, s, mv)" "throw e s mv = (Inl e, s, mv)" "look f s mv = (Inr (f s), s, mv)"
  "change f s mv = (Inr (), f s, mv)" "lifted (Inr x) s mv = (Inr x, s, mv)"
  "lifted (Inl e) s mv = (Inl (Plain e), s, mv)"
  by (simp_all add: answer_def throw_def look_def change_def lifted_def)

lemma andThenF_run:
  "m s mv = (Inr x, s1, mv1) \<Longrightarrow> andThenF m f s mv = f x s1 mv1"
  "m s mv = (Inl e, s1, mv1) \<Longrightarrow> andThenF m f s mv = (Inl e, s1, mv1)"
  by (simp_all add: andThenF_def)

lemma catching_run:
  "m s mv = (Inr x, s1, mv1) \<Longrightarrow> catching m h s mv = (Inr x, s1, mv1)"
  "m s mv = (Inl e, s1, mv1) \<Longrightarrow> catching m h s mv = h e s1 mv1"
  by (simp_all add: catching_def)

section \<open>Judgements about flows\<close>

text \<open>
  \<open>meets R m Q\<close>: whatever moves allowed by \<open>R\<close> the world makes, \<open>m\<close> takes the scene along \<open>R\<close>, and \<open>Q\<close>
  relates the scene it started in, its result and the scene it leaves.
\<close>

named_theorems flow_rules \<open>rules for the constructs of flows\<close>

definition fair :: "(scene \<Rightarrow> scene \<Rightarrow> bool) \<Rightarrow> move list \<Rightarrow> bool" where
  "fair R mv \<longleftrightarrow> list_all (\<lambda>m. \<forall>s. R s (mv_world m s)) mv"

definition meets ::
  "(scene \<Rightarrow> scene \<Rightarrow> bool) \<Rightarrow> ('e, 'a) flow \<Rightarrow> (scene \<Rightarrow> 'e + 'a \<Rightarrow> scene \<Rightarrow> bool) \<Rightarrow> bool" where
  "meets R m Q \<longleftrightarrow>
     (\<forall>s mv r s' mv'. fair R mv \<longrightarrow> m s mv = (r, s', mv') \<longrightarrow> fair R mv' \<and> R s s' \<and> Q s r s')"

abbreviation keeps :: "(scene \<Rightarrow> scene \<Rightarrow> bool) \<Rightarrow> ('e, 'a) flow \<Rightarrow> bool" where
  "keeps R m \<equiv> meets R m (\<lambda>_ _ _. True)"

lemma meetsI:
  "(\<And>s mv r s' mv'. fair R mv \<Longrightarrow> m s mv = (r, s', mv') \<Longrightarrow> fair R mv' \<and> R s s' \<and> Q s r s') \<Longrightarrow> meets R m Q"
  by (auto simp: meets_def)

lemma meetsD:
  "meets R m Q \<Longrightarrow> fair R mv \<Longrightarrow> m s mv = (r, s', mv') \<Longrightarrow> fair R mv' \<and> R s s' \<and> Q s r s'"
  by (auto simp: meets_def)

lemma meets_weaken:
  "meets R m P \<Longrightarrow> (\<And>s r s'. R s s' \<Longrightarrow> P s r s' \<Longrightarrow> Q s r s') \<Longrightarrow> meets R m Q"
  by (auto simp: meets_def)

lemma meets_keeps: "meets R m Q \<Longrightarrow> keeps R m"
  by (auto simp: meets_def)

locale scene_relation =
  fixes R :: "scene \<Rightarrow> scene \<Rightarrow> bool"
  assumes R_refl: "R s s"
    and R_trans: "R s t \<Longrightarrow> R t u \<Longrightarrow> R s u"
begin

lemma turn_meets: "fair R mv \<Longrightarrow> turn s mv = (e, s', mv') \<Longrightarrow> fair R mv' \<and> R s s'"
  by (auto simp: turn_def fair_def R_refl split: list.splits)

lemma meets_answer: "(\<And>s. Q s (Inr x) s) \<Longrightarrow> meets R (answer x) Q"
  by (auto simp: meets_def answer_def R_refl)

lemma meets_throw: "(\<And>s. Q s (Inl e) s) \<Longrightarrow> meets R (throw e) Q"
  by (auto simp: meets_def throw_def R_refl)

lemma meets_lifted:
  "(\<And>s e. r = Inl e \<Longrightarrow> Q s (Inl (Plain e)) s) \<Longrightarrow> (\<And>s x. r = Inr x \<Longrightarrow> Q s (Inr x) s) \<Longrightarrow>
   meets R (lifted r) Q"
  by (auto simp: meets_def lifted_def R_refl split: sum.splits)

lemma meets_look: "(\<And>s. Q s (Inr (f s)) s) \<Longrightarrow> meets R (look f) Q"
  by (auto simp: meets_def look_def R_refl)

lemma meets_change: "(\<And>s. R s (f s) \<and> Q s (Inr ()) (f s)) \<Longrightarrow> meets R (change f) Q"
  by (auto simp: meets_def change_def)

lemma meets_andThen:
  assumes "meets R m P" and "\<And>x. meets R (f x) (N x)"
    and "\<And>s e s'. P s (Inl e) s' \<Longrightarrow> R s s' \<Longrightarrow> Q s (Inl e) s'"
    and "\<And>s x s1 r s'. P s (Inr x) s1 \<Longrightarrow> R s s1 \<Longrightarrow> N x s1 r s' \<Longrightarrow> R s1 s' \<Longrightarrow> Q s r s'"
  shows "meets R (andThenF m f) Q"
proof (rule meetsI)
  fix s mv r s' mv'
  assume fair: "fair R mv" and run: "andThenF m f s mv = (r, s', mv')"
  obtain r1 s1 mv1 where one: "m s mv = (r1, s1, mv1)" by (metis surj_pair)
  note m = meetsD [OF assms(1) fair one]
  show "fair R mv' \<and> R s s' \<and> Q s r s'"
  proof (cases r1)
    case (Inl e)
    then show ?thesis using run one m assms(3) by (auto simp: andThenF_def)
  next
    case (Inr x)
    then have two: "f x s1 mv1 = (r, s', mv')" using run one by (simp add: andThenF_def)
    note n = meetsD [OF assms(2) _ two]
    show ?thesis using n m Inr assms(4) R_trans by blast
  qed
qed

lemma meets_catching:
  assumes "meets R m P" and "\<And>e. meets R (h e) (N e)"
    and "\<And>s x s'. P s (Inr x) s' \<Longrightarrow> R s s' \<Longrightarrow> Q s (Inr x) s'"
    and "\<And>s e s1 r s'. P s (Inl e) s1 \<Longrightarrow> R s s1 \<Longrightarrow> N e s1 r s' \<Longrightarrow> R s1 s' \<Longrightarrow> Q s r s'"
  shows "meets R (catching m h) Q"
proof (rule meetsI)
  fix s mv r s' mv'
  assume fair: "fair R mv" and run: "catching m h s mv = (r, s', mv')"
  obtain r1 s1 mv1 where one: "m s mv = (r1, s1, mv1)" by (metis surj_pair)
  note m = meetsD [OF assms(1) fair one]
  show "fair R mv' \<and> R s s' \<and> Q s r s'"
  proof (cases r1)
    case (Inr x)
    then show ?thesis using run one m assms(3) by (auto simp: catching_def)
  next
    case (Inl e)
    then have two: "h e s1 mv1 = (r, s', mv')" using run one by (simp add: catching_def)
    note n = meetsD [OF assms(2) _ two]
    show ?thesis using n m Inl assms(4) R_trans by blast
  qed
qed

lemma meets_lastly:
  assumes "meets R m P" and "\<And>s. R s (f s)"
    and "\<And>s r s'. P s r s' \<Longrightarrow> R s s' \<Longrightarrow> Q s r (f s')"
  shows "meets R (lastly m f) Q"
proof (rule meetsI)
  fix s mv r s' mv'
  assume fair: "fair R mv" and run: "lastly m f s mv = (r, s', mv')"
  obtain s1 where one: "m s mv = (r, s1, mv')" and s': "s' = f s1"
    using run by (auto simp: lastly_def split: prod.splits)
  show "fair R mv' \<and> R s s' \<and> Q s r s'"
    using meetsD [OF assms(1) fair one] assms(2,3) s' R_trans by blast
qed

lemma meets_awaiting:
  assumes "\<And>s r s'. act s = (r, s') \<Longrightarrow> R s s'"
    and "\<And>s s1 e s'. R s s1 \<Longrightarrow> R s1 s' \<Longrightarrow> Q s (Inl e) s'"
    and "\<And>s s1 r s2 s'. R s s1 \<Longrightarrow> act s1 = (r, s2) \<Longrightarrow> R s2 s' \<Longrightarrow> Q s r s'"
  shows "meets R (awaiting act) Q"
proof (rule meetsI)
  fix s mv r s' mv'
  assume fair: "fair R mv" and run: "awaiting act s mv = (r, s', mv')"
  obtain fault s1 mv1 where t1: "turn s mv = (fault, s1, mv1)" by (metis surj_pair)
  note one = turn_meets [OF fair t1]
  obtain s2 where mid: "(r, s2) = (case fault of Some e \<Rightarrow> (Inl e, s1) | None \<Rightarrow> act s1)"
    and t2: "\<exists>g. turn s2 mv1 = (g, s', mv')"
    using run t1 by (auto simp: awaiting_def Let_def split: prod.splits)
  then obtain g where t2: "turn s2 mv1 = (g, s', mv')" by blast
  note two = turn_meets [OF _ t2]
  show "fair R mv' \<and> R s s' \<and> Q s r s'"
  proof (cases fault)
    case None
    then have a: "act s1 = (r, s2)" using mid by simp
    then show ?thesis using one two assms(1) [OF a] assms(3) [OF _ a] R_trans by metis
  next
    case (Some e)
    then have "r = Inl e" "s2 = s1" using mid by simp_all
    then show ?thesis using one two assms(2) R_trans by metis
  qed
qed

lemma keeps_answer [flow_rules]: "keeps R (answer x)"
  by (rule meets_answer) simp

lemma keeps_throw [flow_rules]: "keeps R (throw e)"
  by (rule meets_throw) simp

lemma keeps_lifted [flow_rules]: "keeps R (lifted r)"
  by (rule meets_lifted) simp_all

lemma keeps_look [flow_rules]: "keeps R (look f)"
  by (rule meets_look) simp

lemma keeps_andThen [flow_rules]: "keeps R m \<Longrightarrow> (\<And>x. keeps R (f x)) \<Longrightarrow> keeps R (andThenF m f)"
  by (rule meets_andThen)

lemma keeps_catching [flow_rules]: "keeps R m \<Longrightarrow> (\<And>e. keeps R (h e)) \<Longrightarrow> keeps R (catching m h)"
  by (rule meets_catching)

lemma keeps_query [flow_rules]: "keeps R (query f)"
  unfolding query_def by (rule meets_awaiting) (auto simp: R_refl)

lemma keeps_throwIfAborted [flow_rules]: "keeps R (throwIfAborted b)"
  unfolding throwIfAborted_def
  by (intro flow_rules) (auto split: option.split intro: flow_rules)

lemma keeps_forEach [flow_rules]: "(\<And>x. keeps R (f x)) \<Longrightarrow> keeps R (forEach xs f)"
  by (induction xs) (auto intro: flow_rules)

subsection \<open>What was true at a moment of the run\<close>

text \<open>
  \<open>once P s s'\<close>: between \<open>s\<close> and \<open>s'\<close> there was a scene with \<open>P\<close>. \<open>vouches m F\<close>: the result of \<open>m\<close> is
  backed, either by itself (\<open>F\<close>, which may refer to what the caller read before) or by such a scene.
\<close>

definition once :: "(scene \<Rightarrow> bool) \<Rightarrow> scene \<Rightarrow> scene \<Rightarrow> bool" where
  "once P s s' \<longleftrightarrow> (\<exists>t. R s t \<and> P t \<and> R t s')"

definition vouches :: "('a \<Rightarrow> bool) \<Rightarrow> ('a \<Rightarrow> scene \<Rightarrow> bool) \<Rightarrow> ('e, 'a) flow \<Rightarrow> bool" where
  "vouches F P m \<longleftrightarrow> meets R m (\<lambda>s r s'. \<forall>x. r = Inr x \<longrightarrow> F x \<or> once (P x) s s')"

lemma once_now: "P s \<Longrightarrow> once P s s"
  unfolding once_def using R_refl by blast

lemma once_before: "R s t \<Longrightarrow> once P t s' \<Longrightarrow> once P s s'"
  unfolding once_def using R_trans by blast

lemma once_after: "once P s t \<Longrightarrow> R t s' \<Longrightarrow> once P s s'"
  unfolding once_def using R_trans by blast

lemma once_mono: "once P s s' \<Longrightarrow> (\<And>t. P t \<Longrightarrow> Q t) \<Longrightarrow> once Q s s'"
  unfolding once_def by blast

lemma vouches_keeps: "vouches F P m \<Longrightarrow> keeps R m"
  unfolding vouches_def by (rule meets_keeps)

lemma vouches_by: "keeps R m \<Longrightarrow> (\<And>x. F x) \<Longrightarrow> vouches F P m"
  unfolding vouches_def by (rule meets_weaken) auto

lemma vouches_answer: "F x \<Longrightarrow> vouches F P (answer x)"
  unfolding vouches_def by (rule meets_answer) simp

lemma vouches_throw: "vouches F P (throw e)"
  unfolding vouches_def by (rule meets_throw) simp

lemma vouches_lifted: "(\<And>x. r = Inr x \<Longrightarrow> F x) \<Longrightarrow> vouches F P (lifted r)"
  unfolding vouches_def by (rule meets_lifted) simp_all

lemma vouches_query: "vouches (\<lambda>_. False) (\<lambda>x t. x = f (wd_db t)) (query f)"
  unfolding vouches_def query_def by (rule meets_awaiting) (auto simp: R_refl once_def)

lemma vouches_andThen:
  assumes "vouches (\<lambda>_. False) Q m" and "\<And>x. vouches (\<lambda>y. F y \<or> G x y) P (f x)"
    and "\<And>x y t. Q x t \<Longrightarrow> G x y \<Longrightarrow> P y t"
  shows "vouches F P (andThenF m f)"
  unfolding vouches_def
proof (rule meets_andThen [OF assms(1) [unfolded vouches_def] assms(2) [unfolded vouches_def]])
  fix s x s1 r s'
  assume q: "\<forall>y. Inr x = Inr y \<longrightarrow> False \<or> once (Q y) s s1" and step: "R s s1" "R s1 s'"
    and n: "\<forall>y. r = Inr y \<longrightarrow> (F y \<or> G x y) \<or> once (P y) s1 s'"
  show "\<forall>y. r = Inr y \<longrightarrow> F y \<or> once (P y) s s'"
  proof (intro allI impI)
    fix y assume "r = Inr y"
    then consider "F y" | "G x y" | "once (P y) s1 s'" using n by blast
    then show "F y \<or> once (P y) s s'"
    proof cases
      case 2
      have "once (Q x) s s1" using q by simp
      then have "once (P y) s s1" by (rule once_mono) (rule assms(3) [OF _ 2])
      then show ?thesis using once_after step by blast
    next
      case 3
      then show ?thesis using once_before step by blast
    qed simp
  qed
qed simp

lemma vouches_later:
  assumes "keeps R m" and "\<And>x. vouches F P (f x)"
  shows "vouches F P (andThenF m f)"
  unfolding vouches_def
proof (rule meets_andThen [OF assms(1) assms(2) [unfolded vouches_def]])
  fix s x s1 r s'
  assume step: "R s s1" "R s1 s'" and n: "\<forall>y. r = Inr y \<longrightarrow> F y \<or> once (P y) s1 s'"
  show "\<forall>y. r = Inr y \<longrightarrow> F y \<or> once (P y) s s'" using n once_before step by blast
qed simp

text \<open>Only what is done with a result matters, not the result itself.\<close>

lemma vouches_mapped:
  assumes "vouches F P m" and "\<And>x. F x \<Longrightarrow> vouches G Q (f x)"
    and "\<And>x. vouches (\<lambda>y. G y \<or> (\<forall>t. P x t \<longrightarrow> Q y t)) Q (f x)"
  shows "vouches G Q (andThenF m f)"
  unfolding vouches_def
proof (rule meetsI)
  fix s mv r s' mv'
  assume fair: "fair R mv" and run: "andThenF m f s mv = (r, s', mv')"
  obtain r1 s1 mv1 where one: "m s mv = (r1, s1, mv1)" by (metis surj_pair)
  note first = meetsD [OF assms(1) [unfolded vouches_def] fair one]
  show "fair R mv' \<and> R s s' \<and> (\<forall>y. r = Inr y \<longrightarrow> G y \<or> once (Q y) s s')"
  proof (cases r1)
    case (Inl e)
    then show ?thesis using run one first by (auto simp: andThenF_def)
  next
    case (Inr x)
    then have two: "f x s1 mv1 = (r, s', mv')" using run one by (simp add: andThenF_def)
    have fx: "F x \<or> once (P x) s s1" using first Inr by simp
    note any = meetsD [OF assms(3) [unfolded vouches_def] _ two]
    have "G y \<or> once (Q y) s s'" if y: "r = Inr y" for y
    proof (cases "F x")
      case True
      have "G y \<or> once (Q y) s1 s'"
        using meetsD [OF assms(2) [OF True, unfolded vouches_def] _ two] first y by blast
      then show ?thesis using once_before first by blast
    next
      case False
      then have p: "once (P x) s s1" using fx by blast
      consider "G y" | "\<forall>t. P x t \<longrightarrow> Q y t" | "once (Q y) s1 s'" using any first y by blast
      then show ?thesis
      proof cases
        case 2
        then show ?thesis using p once_mono once_after any first by blast
      next
        case 3
        then show ?thesis using once_before first by blast
      qed simp
    qed
    then show ?thesis using first any R_trans by blast
  qed
qed

lemma vouches_weaken:
  assumes "vouches F P m" and "\<And>x. F x \<Longrightarrow> G x \<or> (\<forall>t. Q x t)" and "\<And>x t. P x t \<Longrightarrow> Q x t"
  shows "vouches G Q m"
  unfolding vouches_def
proof (rule meets_weaken [OF assms(1) [unfolded vouches_def]])
  fix s r s'
  assume step: "R s s'" and n: "\<forall>x. r = Inr x \<longrightarrow> F x \<or> once (P x) s s'"
  show "\<forall>x. r = Inr x \<longrightarrow> G x \<or> once (Q x) s s'"
  proof (intro allI impI)
    fix x assume "r = Inr x"
    then consider "F x" | "once (P x) s s'" using n by blast
    then show "G x \<or> once (Q x) s s'"
    proof cases
      case 1
      then show ?thesis using assms(2) step unfolding once_def using R_refl by blast
    next
      case 2
      then show ?thesis using once_mono assms(3) by blast
    qed
  qed
qed

lemma vouches_catching:
  assumes "vouches F P m" and "\<And>e. vouches F P (h e)"
  shows "vouches F P (catching m h)"
  unfolding vouches_def
  by (rule meets_catching [OF assms(1) [unfolded vouches_def] assms(2) [unfolded vouches_def]])
     (auto dest: once_before)

lemma vouches_lastly:
  assumes "vouches F P m" and "\<And>s. R s (f s)"
  shows "vouches F P (lastly m f)"
  unfolding vouches_def
proof (rule meets_lastly [OF assms(1) [unfolded vouches_def] assms(2)])
  fix s r s' assume n: "\<forall>x. r = Inr x \<longrightarrow> F x \<or> once (P x) s s'"
  show "\<forall>x. r = Inr x \<longrightarrow> F x \<or> once (P x) s (f s')" using n assms(2) once_after by blast
qed

text \<open>
  The same for a flow that answers a promise: \<open>A\<close> collects what the caller's earlier reads back.
\<close>

definition vouched ::
  "('a \<Rightarrow> scene \<Rightarrow> bool) \<Rightarrow> ('a \<Rightarrow> bool) \<Rightarrow> ('e, ('d, 'a) flow) flow \<Rightarrow> bool" where
  "vouched P A m \<longleftrightarrow> meets R m (\<lambda>s r s'. \<forall>p. r = Inr p \<longrightarrow>
     (\<exists>F. vouches F P p \<and> (\<forall>y. F y \<longrightarrow> A y \<or> once (P y) s s')))"

lemma vouched_answer: "vouches F P p \<Longrightarrow> (\<And>y. F y \<Longrightarrow> A y) \<Longrightarrow> vouched P A (answer p)"
  unfolding vouched_def by (rule meets_answer) auto

lemma vouched_throw: "vouched P A (throw e)"
  unfolding vouched_def by (rule meets_throw) simp

lemma vouched_later:
  assumes "keeps R m" and "\<And>x. vouched P A (f x)"
  shows "vouched P A (andThenF m f)"
  unfolding vouched_def
proof (rule meets_andThen [OF assms(1) assms(2) [unfolded vouched_def]])
  fix s x s1 r s'
  assume step: "R s s1" "R s1 s'" and n: "\<forall>p. r = Inr p \<longrightarrow>
     (\<exists>F. vouches F P p \<and> (\<forall>y. F y \<longrightarrow> A y \<or> once (P y) s1 s'))"
  show "\<forall>p. r = Inr p \<longrightarrow> (\<exists>F. vouches F P p \<and> (\<forall>y. F y \<longrightarrow> A y \<or> once (P y) s s'))"
    using n once_before [OF step(1)] by metis
qed simp

lemma vouched_andThen:
  assumes "vouches (\<lambda>_. False) Q m" and "\<And>x. vouched P (\<lambda>y. A y \<or> (\<forall>t. Q x t \<longrightarrow> P y t)) (f x)"
  shows "vouched P A (andThenF m f)"
  unfolding vouched_def
proof (rule meets_andThen [OF assms(1) [unfolded vouches_def] assms(2) [unfolded vouched_def]])
  fix s x s1 r s'
  assume q: "\<forall>y. Inr x = Inr y \<longrightarrow> False \<or> once (Q y) s s1" and step: "R s s1" "R s1 s'"
    and n: "\<forall>p. r = Inr p \<longrightarrow> (\<exists>F. vouches F P p \<and>
       (\<forall>y. F y \<longrightarrow> (A y \<or> (\<forall>t. Q x t \<longrightarrow> P y t)) \<or> once (P y) s1 s'))"
  have seen: "once (Q x) s s1" using q by simp
  have "A y \<or> once (P y) s s'" if "(A y \<or> (\<forall>t. Q x t \<longrightarrow> P y t)) \<or> once (P y) s1 s'" for y
    using that once_mono [OF seen, of "P y"] once_after [OF _ step(2)] once_before [OF step(1)] by blast
  then show "\<forall>p. r = Inr p \<longrightarrow> (\<exists>F. vouches F P p \<and> (\<forall>y. F y \<longrightarrow> A y \<or> once (P y) s s'))"
    using n by metis
qed simp

lemma vouched_known:
  assumes "vouches F (\<lambda>_ _. False) m" and "\<And>x. F x \<Longrightarrow> vouched P A (f x)"
  shows "vouched P A (andThenF m f)"
  unfolding vouched_def
proof (rule meetsI)
  fix s mv r s' mv'
  assume fair: "fair R mv" and run: "andThenF m f s mv = (r, s', mv')"
  obtain r1 s1 mv1 where one: "m s mv = (r1, s1, mv1)" by (metis surj_pair)
  note first = meetsD [OF assms(1) [unfolded vouches_def] fair one]
  show "fair R mv' \<and> R s s' \<and> (\<forall>p. r = Inr p \<longrightarrow>
     (\<exists>F. vouches F P p \<and> (\<forall>y. F y \<longrightarrow> A y \<or> once (P y) s s')))"
  proof (cases r1)
    case (Inl e)
    then show ?thesis using run one first by (auto simp: andThenF_def)
  next
    case (Inr x)
    then have two: "f x s1 mv1 = (r, s', mv')" using run one by (simp add: andThenF_def)
    have "F x" using first Inr by (auto simp: once_def)
    note second = meetsD [OF assms(2) [OF this, unfolded vouched_def] _ two]
    then show ?thesis using first R_trans once_before by metis
  qed
qed

lemma vouched_weaken: "vouched P A m \<Longrightarrow> (\<And>y. A y \<Longrightarrow> B y) \<Longrightarrow> vouched P B m"
  unfolding vouched_def by (erule meets_weaken) blast

lemma vouched_done:
  assumes "vouches F P m" and "\<And>y. F y \<Longrightarrow> A y"
  shows "vouched P A (andThenF m (\<lambda>y. answer (answer y)))"
  unfolding vouched_def
proof (rule meets_andThen [OF assms(1) [unfolded vouches_def]])
  show "meets R (answer (answer x)) (\<lambda>_ r _. r = Inr (answer x))" for x
    by (rule meets_answer) simp
  fix s x s1 r s'
  assume n: "\<forall>y. Inr x = Inr y \<longrightarrow> F y \<or> once (P y) s s1" and step: "R s1 s'" and r: "r = Inr (answer x)"
  have "vouches (\<lambda>y. y = x) P (answer x)" by (rule vouches_answer) simp
  moreover have "A x \<or> once (P x) s s'" using n assms(2) once_after [OF _ step] by blast
  ultimately show "\<forall>p. r = Inr p \<longrightarrow> (\<exists>F. vouches F P p \<and> (\<forall>y. F y \<longrightarrow> A y \<or> once (P y) s s'))"
    using r by auto
qed simp

lemma vouched_catching:
  assumes "vouched P A m" and "\<And>e. vouched P A (h e)"
  shows "vouched P A (catching m h)"
  unfolding vouched_def
proof (rule meets_catching [OF assms(1) [unfolded vouched_def] assms(2) [unfolded vouched_def]])
  fix s e s1 r s'
  assume step: "R s s1" and n: "\<forall>p. r = Inr p \<longrightarrow>
     (\<exists>F. vouches F P p \<and> (\<forall>y. F y \<longrightarrow> A y \<or> once (P y) s1 s'))"
  show "\<forall>p. r = Inr p \<longrightarrow> (\<exists>F. vouches F P p \<and> (\<forall>y. F y \<longrightarrow> A y \<or> once (P y) s s'))"
    using n once_before [OF step] by metis
qed auto

lemma vouched_lastly:
  assumes "vouched P A m" and "\<And>s. R s (f s)"
  shows "vouched P A (lastly m f)"
  unfolding vouched_def
proof (rule meets_lastly [OF assms(1) [unfolded vouched_def] assms(2)])
  fix s r s'
  assume n: "\<forall>p. r = Inr p \<longrightarrow> (\<exists>F. vouches F P p \<and> (\<forall>y. F y \<longrightarrow> A y \<or> once (P y) s s'))"
  show "\<forall>p. r = Inr p \<longrightarrow> (\<exists>F. vouches F P p \<and> (\<forall>y. F y \<longrightarrow> A y \<or> once (P y) s (f s')))"
    using n once_after [OF _ assms(2)] by metis
qed

lemma vouched_run:
  assumes "vouched P (\<lambda>_. False) m"
  shows "vouches (\<lambda>_. False) P (andThenF m (\<lambda>p. p))"
  unfolding vouches_def
proof (rule meetsI)
  fix s mv r s' mv'
  assume fair: "fair R mv" and run: "andThenF m (\<lambda>p. p) s mv = (r, s', mv')"
  obtain r1 s1 mv1 where one: "m s mv = (r1, s1, mv1)" by (metis surj_pair)
  note first = meetsD [OF assms [unfolded vouched_def] fair one]
  show "fair R mv' \<and> R s s' \<and> (\<forall>y. r = Inr y \<longrightarrow> False \<or> once (P y) s s')"
  proof (cases r1)
    case (Inl e)
    then show ?thesis using run one first by (auto simp: andThenF_def)
  next
    case (Inr p)
    then have two: "p s1 mv1 = (r, s', mv')" using run one by (simp add: andThenF_def)
    obtain F where F: "vouches F P p" "\<And>y. F y \<Longrightarrow> once (P y) s s1" using first Inr by auto
    note second = meetsD [OF F(1) [unfolded vouches_def] _ two]
    have "once (P y) s s'" if "r = Inr y" for y
      using second first F(2) that once_before once_after by blast
    then show ?thesis using first second R_trans by blast
  qed
qed

subsection \<open>Where a run leads\<close>

text \<open>A step whose result the next one continues from, with what each was backed by.\<close>

lemma traced:
  assumes "vouches (\<lambda>_. False) Q m" and "\<And>x. vouches (\<lambda>_. False) (P x) (f x)"
  shows "meets R (andThenF m f) (\<lambda>s r s'. \<forall>y. r = Inr y \<longrightarrow> (\<exists>x. once (\<lambda>t. Q x t \<and> once (P x y) t s') s s'))"
  unfolding vouches_def
proof (rule meets_andThen [OF assms(1) [unfolded vouches_def] assms(2) [unfolded vouches_def]])
  fix s x s1 r s'
  assume q: "\<forall>y. Inr x = Inr y \<longrightarrow> False \<or> once (Q y) s s1" and step: "R s s1" "R s1 s'"
    and n: "\<forall>y. r = Inr y \<longrightarrow> False \<or> once (P x y) s1 s'"
  have seen: "once (Q x) s s1" using q by simp
  show "\<forall>y. r = Inr y \<longrightarrow> (\<exists>x. once (\<lambda>t. Q x t \<and> once (P x y) t s') s s')"
  proof (intro allI impI)
    fix y assume "r = Inr y"
    then have later: "once (P x y) s1 s'" using n by simp
    obtain t where t: "R s t" "Q x t" "R t s1" using seen unfolding once_def by blast
    then have "once (P x y) t s'" using once_before later by blast
    then show "\<exists>x. once (\<lambda>t. Q x t \<and> once (P x y) t s') s s'"
      using t R_trans [OF t(3) step(2)] unfolding once_def by blast
  qed
qed simp

text \<open>\<open>leads A m\<close>: a run of \<open>m\<close> that answers \<open>x\<close> has gone from \<open>s\<close> to \<open>s'\<close> with \<open>A x s s'\<close>.\<close>

definition leads :: "('a \<Rightarrow> scene \<Rightarrow> scene \<Rightarrow> bool) \<Rightarrow> ('e, 'a) flow \<Rightarrow> bool" where
  "leads A m \<longleftrightarrow> meets R m (\<lambda>s r s'. \<forall>x. r = Inr x \<longrightarrow> A x s s')"

lemma leads_answer: "(\<And>s. A x s s) \<Longrightarrow> leads A (answer x)"
  unfolding leads_def by (rule meets_answer) simp

lemma leads_throw: "leads A (throw e)"
  unfolding leads_def by (rule meets_throw) simp

lemma leads_weaken: "leads A m \<Longrightarrow> (\<And>x s s'. A x s s' \<Longrightarrow> B x s s') \<Longrightarrow> leads B m"
  unfolding leads_def by (erule meets_weaken) simp

lemma leads_any: "keeps R m \<Longrightarrow> (\<And>x s s'. A x s s') \<Longrightarrow> leads A m"
  unfolding leads_def by (erule meets_weaken) simp

lemma leads_andThen:
  assumes "leads A m" and "\<And>x. leads (C x) (f x)" and "\<And>x y s t s'. A x s t \<Longrightarrow> R s t \<Longrightarrow> C x y t s' \<Longrightarrow> B y s s'"
  shows "leads B (andThenF m f)"
  unfolding leads_def
  by (rule meets_andThen [OF assms(1) [unfolded leads_def] assms(2) [unfolded leads_def]]) (auto intro: assms(3))

lemma leads_first:
  assumes "leads A m" and "\<And>x. keeps R (f x)" and "\<And>x y s t s'. A x s t \<Longrightarrow> R t s' \<Longrightarrow> B y s s'"
  shows "leads B (andThenF m f)"
  unfolding leads_def
  by (rule meets_andThen [OF assms(1) [unfolded leads_def] assms(2)]) (auto intro: assms(3))

lemma leads_later:
  assumes "keeps R m" and "\<And>x. leads B (f x)" and "\<And>y s t s'. R s t \<Longrightarrow> B y t s' \<Longrightarrow> B y s s'"
  shows "leads B (andThenF m f)"
  unfolding leads_def
  by (rule meets_andThen [OF assms(1) assms(2) [unfolded leads_def]]) (auto intro: assms(3))

lemma leads_catching:
  assumes "leads B m" and "\<And>e. leads B (h e)" and "\<And>y s t s'. R s t \<Longrightarrow> B y t s' \<Longrightarrow> B y s s'"
  shows "leads B (catching m h)"
  unfolding leads_def
  by (rule meets_catching [OF assms(1) [unfolded leads_def] assms(2) [unfolded leads_def]]) (auto intro: assms(3))

lemma leads_lastly:
  assumes "leads A m" and "\<And>s. R s (f s)" and "\<And>x s t. A x s t \<Longrightarrow> A x s (f t)"
  shows "leads A (lastly m f)"
  unfolding leads_def
  by (rule meets_lastly [OF assms(1) [unfolded leads_def] assms(2)]) (auto intro: assms(3))

lemma leads_if: "(b \<Longrightarrow> leads A m) \<Longrightarrow> (\<not> b \<Longrightarrow> leads A n) \<Longrightarrow> leads A (if b then m else n)"
  by simp

lemma leads_awaiting:
  assumes "\<And>t r t'. act t = (r, t') \<Longrightarrow> R t t'"
    and "\<And>s t x t' s'. R s t \<Longrightarrow> act t = (Inr x, t') \<Longrightarrow> R t' s' \<Longrightarrow> A x s s'"
  shows "leads A (awaiting act)"
  unfolding leads_def by (rule meets_awaiting [OF assms(1)]) (auto intro: assms(2))

end

end
