(* ===== verification/BrokerReplies.thy ===== *)
theory BrokerReplies
  imports Flow RequirementTheorems
begin

text \<open>
  What a broker is configured with, the admission input it makes of a session request, and the
  replies it gives (src/src/daemon/sessionBroker/brokerOptions.ts, devicePort.ts, brokerAdmission.ts,
  watchAdmission.ts, deviceProfile.ts, brokerSupport.ts; the persona table of
  src/src/features/utility/OemPersonas.ts).

  \<^item> \<open>device_port\<close> is the native side: what a call answers and what it does to the scene are
    parameters, and so is the reader of the platform catalogs.
  \<^item> \<open>broker_host\<close> collects what the host gives the process: string collation, SHA-256, the process
    probe, fresh ids, the pretty printer of a rejected watch spec, the error objects behind native errors.
\<close>

section \<open>Options\<close>

record preparation_options =
  po_livenessOwnerToken :: string
  po_preparationTimeoutMs :: "rat option"
  po_idleTimeoutMs :: "rat option"
  po_executionOwnerPid :: "int option"
  po_deviceProfile :: "device_profile_selector option"

record prepared_session =
  pp_sessionId :: string
  pp_profile :: native_profile
  pp_timing :: "preparation_timing option"

type_synonym 'a native = "scene \<Rightarrow> (thrown_error + 'a) \<times> scene"

text \<open>
  A reset also answers the waits for a boot slot it went through by itself, when it manages them
  (\<open>runResetBoot\<close> reports each); they count even when the reset throws.
\<close>

record device_port =
  dp_managesResetBootSlots :: bool
  dp_prepare :: "resource_row \<Rightarrow> preparation_options \<Rightarrow> prepared_session native"
  dp_release :: "string \<Rightarrow> bool native"
  dp_destroy :: "resource_row \<Rightarrow> native_outcome native"
  dp_reset :: "(resource_row \<Rightarrow> ((thrown_error + reset_result) \<times> rat list) native) option"

datatype session_liveness = LiveSession | RecoverableHandoff | GoneSession

record broker_options =
  bo_devices :: device_port
  bo_owner :: process_identity
  bo_limits :: broker_limits
  bo_catalog :: "string \<Rightarrow> session_catalog native"
  bo_defaults :: "string \<Rightarrow> session_defaults"
  bo_sessionDisposition :: "(string \<Rightarrow> session_liveness native) option"
  bo_reuseCleanDevices :: bool
  bo_reuseAndroidCleanDevices :: bool
  bo_receiptRetentionMs :: "int option"
  bo_exportRetentionMs :: "int option"
  bo_releaseReplyBudgetMs :: "rat option"

record broker_host =
  ho_localeCompare :: "string cmp"
  ho_sha :: "json \<Rightarrow> string"
  ho_live :: "process_identity \<Rightarrow> bool"
  ho_newId :: "int \<Rightarrow> string"
  ho_scope :: string
  ho_pretty :: "json option \<Rightarrow> string"
  ho_requirementJson :: "resolved_profile \<Rightarrow> json"
  ho_provenanceJson :: "resolved_profile \<Rightarrow> json"
  ho_watchRequirementJson :: "normalized_watch \<Rightarrow> json"
  ho_nativeError :: "string \<Rightarrow> error_heap \<times> thrown"
  ho_bootSlot :: "unit native"
  ho_pause :: pause

definition platformName :: "native_profile \<Rightarrow> string" where
  "platformName p = (case p of PIos _ \<Rightarrow> ''ios'' | PAndroid _ \<Rightarrow> ''android'' | PWatch _ \<Rightarrow> ''watchos'')"

definition cleanDeviceReuseEnabled :: "string \<Rightarrow> broker_options \<Rightarrow> bool" where
  "cleanDeviceReuseEnabled platform opts =
     (if platform = ''android'' then bo_reuseAndroidCleanDevices opts
      else (platform = ''ios'' \<or> platform = ''watchos'') \<and> bo_reuseCleanDevices opts)"

section \<open>The admission input of a request\<close>

record session_config =
  cf_requestId :: string
  cf_device :: session_requirement
  cf_preparationTimeoutMs :: "rat option"
  cf_idleTimeoutMs :: "rat option"
  cf_executionOwnerPid :: "int option"
  cf_json :: json

definition requestPlatform :: "session_requirement \<Rightarrow> string" where
  "requestPlatform d = (case d of RIos _ \<Rightarrow> ''ios'' | RAndroid _ \<Rightarrow> ''android'' | RWatch _ \<Rightarrow> ''watchos'')"

fun codeName :: "requirement_code \<Rightarrow> string" where
  "codeName InvalidRequest = ''invalid_request''"
| "codeName InvalidConfig = ''invalid_config''"
| "codeName UnsupportedHardware = ''unsupported_hardware''"
| "codeName UnsupportedVersionPrecision = ''unsupported_version_precision''"
| "codeName MissingInstalledRuntime = ''missing_installed_runtime''"
| "codeName RuntimeIncompatible = ''runtime_incompatible''"
| "codeName CatalogUnavailable = ''catalog_unavailable''"
| "codeName CatalogMetadataInvalid = ''catalog_metadata_invalid''"
| "codeName AmbiguousModelAlias = ''ambiguous_model_alias''"

definition unwrap :: "'a requirement_result \<Rightarrow> 'a res" where
  "unwrap r = (case r of Inl e \<Rightarrow> Inl (FailureError (codeName (re_code e)) (re_message e) (re_transient e))
     | Inr x \<Rightarrow> Inr x)"

definition requestedDeviceProfile :: "session_config \<Rightarrow> device_profile_selector option" where
  "requestedDeviceProfile config =
     (case cf_device config of RAndroid a \<Rightarrow> ar_deviceProfile a | _ \<Rightarrow> None)"

text \<open>Of a persona the admission reads its name and what it cannot emulate.\<close>

definition OEM_PERSONAS :: "(string \<times> string \<times> string list) list" where
  "OEM_PERSONAS =
     [(''pixel-baseline'', ''Pixel (stock baseline)'', []),
      (''samsung-oneui'', ''Samsung One UI'', [''samsung-dex'', ''knox'', ''flip-cover-screen'',
         ''spen-air-actions'', ''oem-systemui'', ''oem-unused-app-triggers'']),
      (''xiaomi-hyperos'', ''Xiaomi HyperOS'',
         [''xiaomi-proprietary-appops'', ''oem-systemui'', ''firmware-update-exemption-reset'']),
      (''oneplus-oxygenos'', ''OnePlus OxygenOS'', [''oem-systemui'']),
      (''oppo-coloros'', ''OPPO ColorOS'', [''oem-systemui'']),
      (''motorola'', ''Motorola'', []),
      (''huawei-emui'', ''Huawei EMUI'', [''oem-systemui'']),
      (''vivo-funtouch'', ''Vivo Funtouch OS'', [''oem-systemui'']),
      (''realme-ui'', ''realme UI'', [''oem-systemui'']),
      (''meizu-flyme'', ''Meizu Flyme'', [''oem-systemui'']),
      (''asus-zenui'', ''Asus ZenUI'', [''oem-systemui'']),
      (''sony-xperia'', ''Sony Xperia'', [''oem-systemui'']),
      (''tecno-hios'', ''Tecno HiOS'', [''oem-systemui''])]"

definition NON_EMULATABLE_CAPABILITIES :: "(string \<times> string) list" where
  "NON_EMULATABLE_CAPABILITIES =
     [(''samsung-dex'', ''Samsung DeX desktop mode.''),
      (''knox'', ''Samsung Knox attestation, containers and enterprise APIs.''),
      (''flip-cover-screen'', ''The Galaxy Z Flip cover screen and its launcher.''),
      (''spen-air-actions'', ''S Pen Air actions and the S Pen remote.''),
      (''oem-systemui'', ''The OEM's own SystemUI (status bar, quick settings, recents); runtime resource overlays cannot overlay code.''),
      (''oem-unused-app-triggers'', ''OEM triggers such as 'unused for 3 days' that move an app into a sleeping list.''),
      (''firmware-update-exemption-reset'', ''Battery-optimization exemptions that a firmware update resets.''),
      (''xiaomi-proprietary-appops'', ''Xiaomi proprietary AppOps 10008/10021 (autostart, background start); community-reported only.'')]"

definition joined :: "string \<Rightarrow> string list \<Rightarrow> string" where
  "joined sep xs = concat (case xs of [] \<Rightarrow> [] | y # ys \<Rightarrow> y # map ((@) sep) ys)"

text \<open>A manufacturer the table does not have would make \<open>persona\<close> undefined; parsing admits none.\<close>

definition assertDeviceProfileEmulatable :: "device_profile_selector option \<Rightarrow> unit res" where
  "assertDeviceProfileEmulatable profile =
     (case profile of
        None \<Rightarrow> Inr ()
      | Some p \<Rightarrow>
          (case ds_requires p of
             None \<Rightarrow> Inr ()
           | Some [] \<Rightarrow> Inr ()
           | Some requires \<Rightarrow>
               (case map_of OEM_PERSONAS (ds_manufacturer p) of
                  None \<Rightarrow> Inl (TypeError ''undefined is not an object'')
                | Some (displayName, nonEmulatable) \<Rightarrow>
                    let blocked = filter (List.member nonEmulatable) requires in
                    if blocked = [] then Inr ()
                    else Inl (FailureError ''requires_real_device''
                      (''Manufacturer profile '' @ ds_manufacturer p @ '' cannot emulate '' @
                       joined '', '' blocked @ '' ('' @
                       joined '' '' (map (\<lambda>i. case map_of NON_EMULATABLE_CAPABILITIES i of
                         None \<Rightarrow> ''undefined'' | Some note \<Rightarrow> note) blocked) @
                       ''); run this task on a real '' @ displayName @ '' device.'') False))))"

text \<open>What a new resource stores: the resolution with its exact profile under \<open>profile\<close>.\<close>

definition creationJson :: "broker_host \<Rightarrow> resolved_profile \<Rightarrow> json" where
  "creationJson host rp =
     JObj [(''platform'', JStr (platformName (rd_profile rp))),
           (''requirement'', ho_requirementJson host rp),
           (''profile'', profileJson (rd_profile rp)),
           (''provenance'', ho_provenanceJson host rp)]"

definition watchCreationJson :: "broker_host \<Rightarrow> normalized_watch \<Rightarrow> json" where
  "watchCreationJson host r =
     JObj [(''platform'', JStr ''watchos''),
           (''requirement'', ho_watchRequirementJson host r),
           (''profile'', profileJson (PWatch (nw_profile r)))]"

definition watchAdmissionInput ::
  "broker_options \<Rightarrow> broker_host \<Rightarrow> session_config \<Rightarrow> watch_requirement \<Rightarrow> string \<Rightarrow> export_identity option \<Rightarrow>
   (thrown_error, admission_input) flow" where
  "watchAdmissionInput opts host config w fingerprint exportIdentity =
     andThenF (awaiting (bo_catalog opts ''watchos'')) (\<lambda>catalog.
     if (case catalog of CatWatch _ \<Rightarrow> False | _ \<Rightarrow> True)
     then throw (Plain (ActionableError
            ''The session broker's watch catalog reader returned another platform''))
     else andThenF (lifted (unwrap (normalizeWatchSessionDeviceRequirement w catalog))) (\<lambda>requirement.
     answer \<lparr>ai_requestId = cf_requestId config, ai_fingerprint = fingerprint,
             ai_parameters = cf_json config, ai_owner = bo_owner opts, ai_export = exportIdentity,
             ai_limits = bo_limits opts, ai_startedAtMs = None, ai_readiness = None,
             ai_matches = (\<lambda>profile. rbind (poolProfile profile) (\<lambda>p.
                Inr (matchWatchSessionDevice requirement (candidateOf p) = Match))),
             ai_resolveCreation = Inr (watchCreationJson host requirement)\<rparr>))"

definition brokerAdmissionInput ::
  "broker_options \<Rightarrow> broker_host \<Rightarrow> session_config \<Rightarrow> string \<Rightarrow> export_identity option \<Rightarrow>
   (thrown_error, admission_input) flow" where
  "brokerAdmissionInput opts host config fingerprint exportIdentity =
     andThenF (throwIfAborted True) (\<lambda>_.
     case cf_device config of
       RWatch w \<Rightarrow> watchAdmissionInput opts host config w fingerprint exportIdentity
     | device \<Rightarrow>
         let platform = requestPlatform device; defaults = bo_defaults opts platform in
         andThenF (awaiting (bo_catalog opts platform)) (\<lambda>catalog.
         andThenF (lifted (unwrap (normalizeSessionDeviceRequirement (ho_pretty host)
                     (requirementJson device) defaults catalog))) (\<lambda>requirement.
         andThenF (lifted (assertDeviceProfileEmulatable (requestedDeviceProfile config))) (\<lambda>_.
         andThenF (lifted (unwrap (poolMatcher requirement defaults))) (\<lambda>matches.
         answer \<lparr>ai_requestId = cf_requestId config, ai_fingerprint = fingerprint,
                 ai_parameters = cf_json config, ai_owner = bo_owner opts,
                 ai_export = exportIdentity, ai_limits = bo_limits opts,
                 ai_startedAtMs = None, ai_readiness = None, ai_matches = matches,
                 ai_resolveCreation = rbind (unwrap (resolveSessionDeviceProfile
                   (ho_localeCompare host) requirement defaults catalog))
                   (\<lambda>rp. Inr (creationJson host rp))\<rparr>)))))"

section \<open>Failures\<close>

definition SESSION_BROKER_RETRY_AFTER_MS :: int where
  "SESSION_BROKER_RETRY_AFTER_MS = 5000"

definition plain_failure :: "string \<Rightarrow> string \<Rightarrow> bool \<Rightarrow> broker_failure" where
  "plain_failure code message retryable =
     \<lparr>bf_code = code, bf_message = message, bf_retryable = retryable, bf_remedy = None,
      bf_writerVersions = None, bf_retryAfterMs = None, bf_newRequestId = False\<rparr>"

definition storedBrokerFailure :: "request_row \<Rightarrow> bool \<Rightarrow> broker_failure" where
  "storedBrokerFailure q cleanupPending =
     (let code = (case rq_code q of Some c \<Rightarrow> c | None \<Rightarrow> ''session_preparation_failed'');
          retryable = rq_retryable q = Some True \<and>
            (List.member [''eviction_pending'', ''session_broker_stopping''] code \<or> \<not> cleanupPending) in
      \<lparr>bf_code = code,
       bf_message = (case rq_error q of Some m \<Rightarrow> m | None \<Rightarrow> []),
       bf_retryable = retryable, bf_remedy = None, bf_writerVersions = None,
       bf_retryAfterMs =
         (if retryable \<and> code = ''session_broker_stopping'' then Some SESSION_BROKER_RETRY_AFTER_MS
          else if retryable \<and> code = ''eviction_pending'' then Some 1000 else None),
       bf_newRequestId = (retryable \<and> List.member [''capacity_exhausted'', ''cancelled'',
         ''eviction_pending'', ''session_broker_stopping''] code)\<rparr>)"

definition failureFor :: "thrown_error \<Rightarrow> broker_failure" where
  "failureFor e =
     (case e of
        SchemaUnsupported m versions remedy \<Rightarrow>
          (plain_failure ''registry_schema_unsupported'' m False)
            \<lparr>bf_remedy := Some remedy, bf_writerVersions := Some versions\<rparr>
      | FailureThrown f \<Rightarrow> f
      | Plain (FailureError c m r) \<Rightarrow> plain_failure c m r
      | _ \<Rightarrow> plain_failure ''session_preparation_failed'' (thrownMessage e) False)"

definition abortedByBrokerStop :: "scene \<Rightarrow> bool" where
  "abortedByBrokerStop s \<longleftrightarrow> wd_aborted s = Some StoppingError"

definition isFailureError :: "thrown_error \<Rightarrow> bool" where
  "isFailureError e \<longleftrightarrow>
     (case e of FailureThrown _ \<Rightarrow> True | Plain (FailureError _ _ _) \<Rightarrow> True | _ \<Rightarrow> False)"

definition stoppingFailure :: broker_failure where
  "stoppingFailure = (plain_failure ''session_broker_stopping''
     ''Session preparation was interrupted because the session broker is stopping; retry with a new request ID against the restarted daemon.''
     True)\<lparr>bf_retryAfterMs := Some SESSION_BROKER_RETRY_AFTER_MS, bf_newRequestId := True\<rparr>"

definition preparationFailureError :: "thrown_error \<Rightarrow> scene \<Rightarrow> thrown_error" where
  "preparationFailureError e s =
     (if abortedByBrokerStop s then FailureThrown stoppingFailure
      else if isFailureError e then e
      else case wd_aborted s of
             None \<Rightarrow> e
           | Some reason \<Rightarrow> FailureThrown (plain_failure ''cancelled''
               (''Session preparation was cancelled: '' @ errorMessage reason) True))"

text \<open>The error object a native or a modelled error is, for the classification of its causes.\<close>

definition plainError :: "string \<Rightarrow> error_object" where
  "plainError name = \<lparr>eo_invariant = False, eo_ownerMismatch = False, eo_simctlTimeout = False,
     eo_discovery = None, eo_resetCapacityWait = False, eo_bootCapacity = False,
     eo_name = Some name, eo_code = None, eo_cause = TUndefined\<rparr>"

definition errorGraph :: "broker_host \<Rightarrow> thrown_error \<Rightarrow> error_heap \<times> thrown" where
  "errorGraph host e =
     (case e of
        Plain (DeviceError m) \<Rightarrow> ho_nativeError host m
      | Plain (InvariantError _) \<Rightarrow> ([(plainError ''Error'')\<lparr>eo_invariant := True\<rparr>], TRef 0)
      | Plain (OwnerMismatchError _) \<Rightarrow>
          ([(plainError ''SessionRequestOwnerMismatchError'')\<lparr>eo_ownerMismatch := True\<rparr>], TRef 0)
      | Plain (ConstraintError _) \<Rightarrow>
          ([(plainError ''SQLiteError'')\<lparr>eo_code := Some ''SQLITE_CONSTRAINT_UNIQUE''\<rparr>], TRef 0)
      | Plain (AbortError _) \<Rightarrow> ([plainError ''AbortError''], TRef 0)
      | _ \<Rightarrow> ([plainError ''Error''], TRef 0))"

section \<open>Replies\<close>

datatype reply_outcome = ReplyReady | ReplyPending | ReplyReleased | ReplyFailed

record broker_reply =
  ry_requestId :: string
  ry_outcome :: reply_outcome
  ry_sessionUuid :: "string option"
  ry_profile :: "native_profile option"
  ry_watchReady :: bool
  ry_cleanupPending :: bool
  ry_timing :: "session_timing option"
  ry_failure :: "broker_failure option"

definition failedResult :: "session_config \<Rightarrow> broker_failure \<Rightarrow> broker_reply" where
  "failedResult config f =
     \<lparr>ry_requestId = cf_requestId config, ry_outcome = ReplyFailed, ry_sessionUuid = None,
      ry_profile = None, ry_watchReady = False, ry_cleanupPending = False, ry_timing = None,
      ry_failure = Some f\<rparr>"

definition sessionReadiness :: "bool \<Rightarrow> native_profile option \<Rightarrow> bool" where
  "sessionReadiness active p \<longleftrightarrow>
     active \<and> (case p of Some n \<Rightarrow> platformName n = ''watchos'' | None \<Rightarrow> False)"

definition outcomeOf :: "request_state \<Rightarrow> reply_outcome" where
  "outcomeOf st = (case st of RActive \<Rightarrow> ReplyReady | Failed \<Rightarrow> ReplyFailed
     | Released \<Rightarrow> ReplyReleased | _ \<Rightarrow> ReplyPending)"

text \<open>\<open>timing\<close> is the parsed receipt timing of the record, which a caller may have replaced in memory.\<close>

definition brokerResult ::
  "request_row \<Rightarrow> session_timing option \<Rightarrow> resource_row option \<Rightarrow> bool \<Rightarrow> broker_reply res" where
  "brokerResult q timing resource hasPendingPreparation =
     (let durable = (case resource of None \<Rightarrow> False
            | Some r \<Rightarrow> rs_request r = Some (rq_id q) \<and>
                List.member [Destroying, Resetting, Unknown] (rs_state r));
          cleanupPending = (durable \<or>
            (rq_code q = Some SESSION_REQUEST_ABANDONED_CODE \<and> hasPendingPreparation)) in
      rbind (case resource of None \<Rightarrow> Inr None
             | Some r \<Rightarrow> rbind (nativeProfile (rs_profile r)) (\<lambda>p. Inr (Some p))) (\<lambda>profile.
      Inr \<lparr>ry_requestId = rq_id q, ry_outcome = outcomeOf (rq_state q),
           ry_sessionUuid = rq_session q, ry_profile = profile,
           ry_watchReady = sessionReadiness (rq_state q = RActive) profile,
           ry_cleanupPending = cleanupPending, ry_timing = timing,
           ry_failure = (if truthy (rq_error q) then Some (storedBrokerFailure q cleanupPending)
                         else None)\<rparr>))"

definition failedPreparationResult ::
  "request_row \<Rightarrow> broker_reply \<Rightarrow> broker_failure \<Rightarrow> broker_reply" where
  "failedPreparationResult q reply f =
     (if rq_code q = Some SESSION_REQUEST_ABANDONED_CODE then reply
      else reply\<lparr>ry_failure := Some (f\<lparr>
        bf_retryable := (case ry_failure reply of None \<Rightarrow> False | Some g \<Rightarrow> bf_retryable g),
        bf_retryAfterMs := overriding (Option.bind (ry_failure reply) bf_retryAfterMs) (bf_retryAfterMs f),
        bf_newRequestId := ((case ry_failure reply of None \<Rightarrow> False | Some g \<Rightarrow> bf_newRequestId g)
          \<or> bf_newRequestId f)\<rparr>)\<rparr>)"

end
