(* ===== verification/ResetRelease.thy ===== *)
theory ResetRelease
  imports BrokerReplies
begin

text \<open>
  Destroying a device behind its durable row, and releasing a session: drain, reset, return to the
  pool (src/src/daemon/sessionBroker/resetRelease.ts, the recorder of timingRecorder.ts, and the passes
  of destructionQueue.ts as flows).

  \<^item> A \<open>SessionBrokerResetTiming\<close> object is changed in place as a release goes on, and the handler of a
    failure writes what it holds then. So a step that may throw throws the timing reached, whether the
    reset was found clean, and the error; \<open>recordResetTiming\<close> answers the object as it leaves it.
  \<^item> Waiting for a boot slot is \<open>ho_bootSlot\<close>: \<open>ResetBootQueue\<close> models the queue itself.
\<close>

section \<open>Destruction passes\<close>

definition destroyF :: "broker_options \<Rightarrow> resource_row \<Rightarrow> bool \<Rightarrow> (thrown_error, bool) flow" where
  "destroyF opts r signal =
     andThenF (awaiting (dp_destroy (bo_devices opts) r)) (\<lambda>answered.
     case answered of
       NativePending \<Rightarrow> answer False
     | Absent \<Rightarrow> andThenF (throwIfAborted signal) (\<lambda>_.
         transaction (\<lambda>now db. confirmDestroyed now (destructionTicket r) db)))"

text \<open>A failed pass is logged; the destroying row and the journal keep ownership for another one.\<close>

definition tryCleanup :: "broker_options \<Rightarrow> ticket \<Rightarrow> bool \<Rightarrow> (thrown_error, unit) flow" where
  "tryCleanup opts t signal =
     andThenF (query (\<lambda>db. getResource db (fst t))) (\<lambda>found.
     case found of
       None \<Rightarrow> answer ()
     | Some r \<Rightarrow>
         if rs_state r = Destroying \<and> rs_revision r = snd t
         then catching (andThenF (throwIfAborted signal) (\<lambda>_.
                andThenF (destroyF opts r signal) (\<lambda>_. answer ()))) (\<lambda>_. answer ())
         else answer ())"

section \<open>Recording times\<close>

text \<open>
  \<open>recordFailedAcquisition\<close>: the timing the record has in memory afterwards.
\<close>

definition recordFailedAcquisition ::
  "request_row \<Rightarrow> session_timing option \<Rightarrow> ('e, session_timing option) flow" where
  "recordFailedAcquisition q timing =
     (case Option.bind timing ti_acquisition of
        None \<Rightarrow> answer timing
      | Some previous \<Rightarrow>
          if aq_outcome previous \<noteq> AqPending then answer timing
          else andThenF (look wd_now) (\<lambda>now.
            let acquisition = previous\<lparr>aq_outcome := AqFailed, aq_completedAtMs := Some now,
                  aq_totalMs := ms (now - aq_startedAtMs previous)\<rparr> in
            catching
              (andThenF (transaction (\<lambda>clock db. Inr ((), recordTiming clock (rq_id q)
                  \<lparr>ti_acquisition = Some acquisition, ti_reset = None\<rparr> None db))) (\<lambda>_.
               answer (Some ((the timing)\<lparr>ti_acquisition := Some acquisition\<rparr>))))
              (\<lambda>_. answer timing)))"

definition admissionRequest :: "broker_admission \<Rightarrow> request_row" where
  "admissionRequest a = (case a of BExisting q \<Rightarrow> q | BWait q k d \<Rightarrow> q | BCreate q r \<Rightarrow> q
     | BReuse q r \<Rightarrow> q | BEvict q r \<Rightarrow> q | BRefused q reason \<Rightarrow> q)"

definition recordRefusedAdmission :: "broker_admission \<Rightarrow> ('e, session_timing option) flow" where
  "recordRefusedAdmission admission =
     (let timing = receiptTiming (admissionRequest admission) in
      case admission of
        BRefused q reason \<Rightarrow> recordFailedAcquisition q timing
      | _ \<Rightarrow> answer timing)"

definition stampReset :: "int \<Rightarrow> reset_timing \<Rightarrow> reset_timing" where
  "stampReset now t =
     (let t1 = t\<lparr>rt_totalMs := ms (now - rt_startedAtMs t)\<rparr> in
      if rt_outcome t1 = OPending then t1 else t1\<lparr>rt_completedAtMs := Some now\<rparr>)"

definition recordResetTiming ::
  "request_row \<Rightarrow> resource_row \<Rightarrow> reset_timing \<Rightarrow> ('e, reset_timing) flow" where
  "recordResetTiming q r t =
     catching
       (andThenF (query (\<lambda>db. getResource db (rs_id r))) (\<lambda>current.
        andThenF (look wd_now) (\<lambda>now.
        let gone = (case current of None \<Rightarrow> False | Some c \<Rightarrow> rs_state c = Destroyed);
            written = stampReset now (if gone then destroyedResetTiming t now else t);
            kept = (if gone then t else written) in
        catching
          (andThenF (lifted (nativeProfile (rs_profile r))) (\<lambda>p.
           andThenF (transaction (\<lambda>clock db. Inr ((), recordTiming clock (rq_id q)
               \<lparr>ti_acquisition = None, ti_reset = Some written\<rparr> (Some p) db))) (\<lambda>_.
           answer kept)))
          (\<lambda>_. answer kept))))
       (\<lambda>_. answer t)"

definition setResetPhase :: "string \<Rightarrow> rat \<Rightarrow> reset_timing \<Rightarrow> reset_timing" where
  "setResetPhase k v t = t\<lparr>rt_phases := setPhase (k, v) (rt_phases t)\<rparr>"

definition recordBootQueueWait :: "rat \<Rightarrow> reset_timing \<Rightarrow> reset_timing" where
  "recordBootQueueWait waited t =
     setResetPhase ''bootQueue'' (orZero (map_of (rt_phases t) ''bootQueue'') + waited) t"

section \<open>What a release answers\<close>

datatype release_outcome = ReleaseDone | ReleaseCleanupPending | ReleaseUnknownSession

record release_reply =
  rl_sessionUuid :: string
  rl_outcome :: release_outcome
  rl_timing :: "session_timing option"

definition findResource :: "string option \<Rightarrow> (thrown_error, resource_row option) flow" where
  "findResource k = (if truthy k then query (\<lambda>db. getResource db (the k)) else answer None)"

definition releaseStatus :: "request_row \<Rightarrow> string \<Rightarrow> (thrown_error, release_reply) flow" where
  "releaseStatus q session =
     andThenF (findResource (rq_resource q)) (\<lambda>resource.
     andThenF (query (\<lambda>db. readRequest db (rq_id q))) (\<lambda>latest.
     answer \<lparr>rl_sessionUuid = session,
       rl_outcome = (case resource of
          None \<Rightarrow> ReleaseDone
        | Some r \<Rightarrow> if rs_request r = Some (rq_id q) \<and> rs_state r \<noteq> Idle \<and> rs_state r \<noteq> Destroyed
                    then ReleaseCleanupPending else ReleaseDone),
       rl_timing = Option.bind latest receiptTiming\<rparr>))"

section \<open>Draining and resetting\<close>

datatype disposition = ToIdle | ToDestroy | StillPending

type_synonym reset_error = "reset_timing \<times> bool \<times> thrown_error"

definition tagged :: "reset_timing \<Rightarrow> bool \<Rightarrow> (thrown_error, 'a) flow \<Rightarrow> (reset_error, 'a) flow" where
  "tagged t clean m = catching m (\<lambda>e. throw (t, clean, e))"

definition setActive :: "string \<Rightarrow> bool \<Rightarrow> scene \<Rightarrow> scene" where
  "setActive k active s = s\<lparr>wd_readiness := setResetActive k active (wd_readiness s)\<rparr>"

definition needsResetBootSlot :: "broker_options \<Rightarrow> native_profile \<Rightarrow> bool" where
  "needsResetBootSlot opts p \<longleftrightarrow>
     platformName p \<noteq> ''android'' \<and> \<not> dp_managesResetBootSlots (bo_devices opts)"

definition resetDevice ::
  "(resource_row \<Rightarrow> ((thrown_error + reset_result) \<times> rat list) native) \<Rightarrow> resource_row \<Rightarrow>
   (thrown_error, (thrown_error + reset_result) \<times> rat list) flow" where
  "resetDevice reset r =
     andThenF (change (setActive (rs_id r) True)) (\<lambda>_.
     lastly (awaiting (reset r)) (setActive (rs_id r) False))"

definition awaitBootSlot ::
  "broker_host \<Rightarrow> bool \<Rightarrow> reset_timing \<Rightarrow> (reset_error, reset_timing) flow" where
  "awaitBootSlot host signal t =
     andThenF (tagged t False (throwIfAborted signal)) (\<lambda>_.
     andThenF (look wd_now) (\<lambda>queuedAt.
     andThenF (tagged t False (awaiting (ho_bootSlot host))) (\<lambda>_.
     andThenF (tagged t False (throwIfAborted signal)) (\<lambda>_.
     andThenF (look wd_now) (\<lambda>now.
     answer (recordBootQueueWait (ms (now - queuedAt)) t))))))"

definition runReset ::
  "broker_options \<Rightarrow> broker_host \<Rightarrow>
   (resource_row \<Rightarrow> ((thrown_error + reset_result) \<times> rat list) native) \<Rightarrow> resource_row \<Rightarrow>
   native_profile \<Rightarrow> bool \<Rightarrow> reset_timing \<Rightarrow> (reset_error, reset_timing \<times> reset_result) flow" where
  "runReset opts host reset r p signal t =
     andThenF (if needsResetBootSlot opts p then awaitBootSlot host signal t else answer t) (\<lambda>t1.
     andThenF (tagged t1 False (resetDevice reset r)) (\<lambda>(reply, waits).
     let t2 = (if dp_managesResetBootSlots (bo_devices opts) then fold recordBootQueueWait waits t1
               else t1) in
     case reply of Inl e \<Rightarrow> throw (t2, False, e) | Inr result \<Rightarrow> answer (t2, result)))"

definition cleanOutcome :: "reset_outcome \<Rightarrow> bool" where
  "cleanOutcome outcome \<longleftrightarrow> List.member [OClean, OFallback KeepBooted, OFallback Erase,
     OFallback Snapshot, OFallback WipeData] outcome"

definition completeCleanReset ::
  "broker_options \<Rightarrow> broker_host \<Rightarrow> request_row \<Rightarrow> resource_row \<Rightarrow> reset_timing \<Rightarrow> bool \<Rightarrow>
   (reset_error, unit) flow" where
  "completeCleanReset opts host q r t signal =
     andThenF (tagged t True (transaction (\<lambda>now db.
       completeCleanRelease (ho_localeCompare host) now (rq_id q) (bo_owner opts) (bo_limits opts) db)))
       (\<lambda>tickets.
     andThenF (if list_ex (\<lambda>k. fst k = rs_id r) tickets
               then recordResetTiming q r (t\<lparr>rt_outcome := OPending, rt_retired := Some True\<rparr>)
               else answer t) (\<lambda>t1.
     andThenF (forEach tickets (\<lambda>k. tagged t1 True (andThenF (throwIfAborted signal) (\<lambda>_.
       tryCleanup opts k signal)))) (\<lambda>_.
     andThenF (tagged t1 True (query (\<lambda>db. getResource db (rs_id r)))) (\<lambda>current.
     andThenF (recordResetTiming q r
       (case current of None \<Rightarrow> t1
        | Some c \<Rightarrow> if rs_state c = Destroyed then t1\<lparr>rt_outcome := ODestroyed\<rparr> else t1)) (\<lambda>_.
     answer ())))))"

definition resetReportOf :: "thrown_error \<Rightarrow> reset_result option" where
  "resetReportOf e = (case e of ResetFailure m report cause \<Rightarrow> Some (ResetReport report) | _ \<Rightarrow> None)"

definition resetCause :: "thrown_error \<Rightarrow> thrown_error" where
  "resetCause e = (case e of ResetFailure m report cause \<Rightarrow> cause | _ \<Rightarrow> e)"

definition afterResetFailure ::
  "broker_host \<Rightarrow> request_row \<Rightarrow> resource_row \<Rightarrow> reset_error \<Rightarrow> (thrown_error, disposition) flow" where
  "afterResetFailure host q r thrown =
     (case thrown of (t, resetClean, e) \<Rightarrow>
        andThenF (recordResetTiming q r
          (if resetClean then t else failedResetTiming t (resetReportOf e) (thrownMessage e))) (\<lambda>_.
        let (heap, value) = errorGraph host (resetCause e) in
        answer (case drainFailureOutcome heap value resetClean of
                  DrainDestroy \<Rightarrow> ToDestroy | DrainPending \<Rightarrow> StillPending)))"

text \<open>The native reset and what follows it, once the session's work has settled.\<close>

definition resetAndReturn ::
  "broker_options \<Rightarrow> broker_host \<Rightarrow>
   (resource_row \<Rightarrow> ((thrown_error + reset_result) \<times> rat list) native) \<Rightarrow> request_row \<Rightarrow>
   resource_row \<Rightarrow> native_profile \<Rightarrow> bool \<Rightarrow> reset_timing \<Rightarrow> (reset_error, disposition) flow" where
  "resetAndReturn opts host reset q r p signal t =
     andThenF (look wd_now) (\<lambda>resetStarted.
     andThenF (runReset opts host reset r p signal t) (\<lambda>(t1, result).
     andThenF (look wd_now) (\<lambda>now.
     let t2 = mergeResetTiming (setResetPhase ''reset'' (ms (now - resetStarted)) t1) result in
     if \<not> cleanOutcome (rt_outcome t2)
     then andThenF (recordResetTiming q r (t2\<lparr>rt_outcome := OPending\<rparr>)) (\<lambda>_. answer ToDestroy)
     else andThenF (tagged t2 False (throwIfAborted signal)) (\<lambda>_.
          andThenF (completeCleanReset opts host q r t2 signal) (\<lambda>_. answer ToIdle)))))"

definition resetIfReusable ::
  "broker_options \<Rightarrow> broker_host \<Rightarrow> request_row \<Rightarrow> resource_row \<Rightarrow> bool \<Rightarrow> reset_timing \<Rightarrow>
   (reset_error, disposition) flow" where
  "resetIfReusable opts host q r signal t =
     andThenF (tagged t False (lifted (nativeProfile (rs_profile r)))) (\<lambda>p.
     case dp_reset (bo_devices opts) of
       None \<Rightarrow> andThenF (recordResetTiming q r t) (\<lambda>_. answer ToDestroy)
     | Some reset \<Rightarrow>
         if \<not> cleanDeviceReuseEnabled (platformName p) opts \<or> rs_state r \<noteq> Resetting
         then andThenF (recordResetTiming q r t) (\<lambda>_. answer ToDestroy)
         else resetAndReturn opts host reset q r p signal t)"

definition drainThenReset ::
  "broker_options \<Rightarrow> broker_host \<Rightarrow> request_row \<Rightarrow> resource_row \<Rightarrow> string \<Rightarrow> bool \<Rightarrow> reset_timing \<Rightarrow>
   (reset_error, disposition) flow" where
  "drainThenReset opts host q r session signal t0 =
     andThenF (recordResetTiming q r t0) (\<lambda>t1.
     andThenF (look wd_now) (\<lambda>drainStarted.
     andThenF (tagged t1 False (awaiting (dp_release (bo_devices opts) session))) (\<lambda>settled.
     andThenF (look wd_now) (\<lambda>now.
     let t2 = setResetPhase ''drain'' (ms (now - drainStarted)) t1 in
     if \<not> settled then andThenF (recordResetTiming q r t2) (\<lambda>_. answer StillPending)
     else andThenF (tagged t2 False (throwIfAborted signal)) (\<lambda>_.
          resetIfReusable opts host q r signal t2)))))"

definition drainAndReset ::
  "broker_options \<Rightarrow> broker_host \<Rightarrow> request_row \<Rightarrow> resource_row \<Rightarrow> string \<Rightarrow> bool \<Rightarrow>
   (thrown_error, disposition) flow" where
  "drainAndReset opts host q r session signal =
     andThenF (look (\<lambda>s. initialResetTiming (rs_reuse r) (wd_now s))) (\<lambda>t0.
     catching (drainThenReset opts host q r session signal t0) (afterResetFailure host q r))"

end
