(* ===== verification/BrokerFlow.thy ===== *)
theory BrokerFlow
  imports ResetRelease
begin

text \<open>
  The session broker (src/src/daemon/sessionBroker/broker.ts, releaseReply.ts): preparing, releasing,
  abandoning, recovering and handing over sessions, each an asynchronous function over the modelled
  store and the device port.

  \<^item> \<open>throwIfAborted True\<close> is the signal of the call the flow belongs to; \<open>False\<close> a call without one.
  \<^item> Aborting the preparations of other calls (abandon, a stop) is, for those calls, a move of the world
    that sets their signal. Joining them, and joining a release or a destruction pass that another call
    has under way, waits without effect; a call is modelled for the caller that starts the work.
  \<^item> A promise that is returned without being awaited runs outside the surrounding \<open>try\<close>: its errors are
    not handled there, and the \<open>finally\<close> block runs before it continues. The block therefore answers
    such a promise as a flow, which is run afterwards.
  \<^item> Eviction is the one loop with no bound fixed in advance; \<open>fuel\<close> bounds it.
\<close>

section \<open>Replies from the store\<close>

definition hasPendingPreparation :: "string \<Rightarrow> scene \<Rightarrow> bool" where
  "hasPendingPreparation k s \<longleftrightarrow> 0 < sc_preparations s k"

definition resultWith :: "request_row \<Rightarrow> session_timing option \<Rightarrow> (thrown_error, broker_reply) flow" where
  "resultWith q timing =
     andThenF (findResource (rq_resource q)) (\<lambda>resource.
     andThenF (look (hasPendingPreparation (rq_id q))) (\<lambda>preparing.
     lifted (brokerResult q timing resource preparing)))"

definition replyOf :: "request_row \<Rightarrow> (thrown_error, broker_reply) flow" where
  "replyOf q = resultWith q (receiptTiming q)"

definition resultUnlessAborted :: "request_row \<Rightarrow> (thrown_error, broker_reply) flow" where
  "resultUnlessAborted q =
     andThenF (replyOf q) (\<lambda>reply. andThenF (throwIfAborted True) (\<lambda>_. answer reply))"

definition consumerOwns :: "broker_host \<Rightarrow> request_row \<Rightarrow> string \<Rightarrow> bool" where
  "consumerOwns host q token \<longleftrightarrow>
     token \<noteq> [] \<and> rq_fingerprint q = sessionRequestFingerprint (ho_sha host) (rq_parameters q) token"

definition assertConsumerOwner :: "broker_host \<Rightarrow> request_row \<Rightarrow> string \<Rightarrow> unit res" where
  "assertConsumerOwner host q token = ensure (consumerOwns host q token)
     (ActionableError ''Session request belongs to another liveness owner'')"

definition linkIfAny :: "export_identity option \<Rightarrow> request_row \<Rightarrow> (thrown_error, unit) flow" where
  "linkIfAny exportIdentity q =
     (case exportIdentity of
        None \<Rightarrow> answer ()
      | Some i \<Rightarrow> transaction (\<lambda>now db. rbind (linkRequestExport (rq_id q) (rq_fingerprint q) i now db)
                    (\<lambda>db1. Inr ((), db1))))"

section \<open>Preparing a session\<close>

definition beginPreparation :: "string \<Rightarrow> scene \<Rightarrow> scene" where
  "beginPreparation k s = s\<lparr>sc_preparations := (sc_preparations s)(k := sc_preparations s k + 1)\<rparr>"

definition finishPreparation :: "string \<Rightarrow> scene \<Rightarrow> scene" where
  "finishPreparation k s =
     (if sc_preparations s k \<le> 1
      then s\<lparr>wd_readiness := releaseWait k (wd_readiness s),
             sc_preparations := (sc_preparations s)(k := 0)\<rparr>
      else s\<lparr>sc_preparations := (sc_preparations s)(k := sc_preparations s k - 1)\<rparr>)"

text \<open>Receipt replay.\<close>

definition replay ::
  "broker_host \<Rightarrow> session_config \<Rightarrow> string \<Rightarrow> string \<Rightarrow> export_identity option \<Rightarrow> request_row \<Rightarrow>
   (thrown_error, broker_reply) flow" where
  "replay host config fingerprint token exportIdentity previous =
     (let ownedAbandonment = (rq_code previous = Some SESSION_REQUEST_ABANDONED_CODE \<and>
            consumerOwns host previous token) in
      if rq_fingerprint previous \<noteq> fingerprint \<and> \<not> ownedAbandonment
      then answer (failedResult config (failureFor (Plain (ActionableError
             ''Session request identity was already used with different parameters''))))
      else andThenF (linkIfAny exportIdentity previous) (\<lambda>_. resultUnlessAborted previous))"

text \<open>
  The readiness an admission reads is that of its own transaction; a decision to wait reserves the wait
  inside it.
\<close>

definition liveInput :: "scene \<Rightarrow> admission_input \<Rightarrow> admission_input" where
  "liveInput s inp = inp\<lparr>ai_readiness :=
     map_option (\<lambda>i. i\<lparr>ri_canWait := canWait (wd_readiness s)\<rparr>) (ai_readiness inp)\<rparr>"

definition reserving :: "admission_input \<Rightarrow> broker_admission \<Rightarrow> scene \<Rightarrow> scene" where
  "reserving inp admission s =
     (case admission of
        BWait q k d \<Rightarrow> if ai_readiness inp = None then s
                      else s\<lparr>wd_readiness := reserveWait (rq_id q) k (wd_readiness s)\<rparr>
      | _ \<Rightarrow> s)"

definition admitting ::
  "(int \<Rightarrow> admission_input \<Rightarrow> broker_db \<Rightarrow> (broker_admission \<times> broker_db) res) \<Rightarrow> admission_input \<Rightarrow>
   (thrown_error, broker_admission) flow" where
  "admitting tx inp = awaiting (\<lambda>s.
     case tx (wd_now s) (liveInput s inp) (wd_db s) of
       Inl e \<Rightarrow> (Inl (Plain e), s)
     | Inr (a, db) \<Rightarrow> (Inr a, reserving inp a (s\<lparr>wd_db := db\<rparr>)))"

definition admitNew :: "broker_host \<Rightarrow> int \<Rightarrow> admission_input \<Rightarrow> broker_db \<Rightarrow> (broker_admission \<times> broker_db) res" where
  "admitNew host now = admit (ho_localeCompare host) now (ho_newId host now) (ho_scope host)"

definition admitAgain :: "broker_host \<Rightarrow> int \<Rightarrow> admission_input \<Rightarrow> broker_db \<Rightarrow> (broker_admission \<times> broker_db) res" where
  "admitAgain host now = continueAdmission (ho_localeCompare host) now (ho_newId host now) (ho_scope host)"

definition waitForReadiness ::
  "broker_host \<Rightarrow> broker_admission \<Rightarrow> admission_input \<Rightarrow> rat option \<Rightarrow>
   (thrown_error, broker_admission \<times> rat option) flow" where
  "waitForReadiness host admission inp timeout = awaiting (\<lambda>s.
     case continueAfterWait (ho_localeCompare host) (ho_newId host (wd_now s)) (ho_scope host)
            (ho_pause host) admission inp timeout (world.truncate s) of
       (r, w) \<Rightarrow> (map_sum Plain (\<lambda>x. x) r, world.extend w (world.more s)))"

definition evictionPending :: broker_failure where
  "evictionPending = (plain_failure ''eviction_pending''
     ''Device eviction remains unresolved; its capacity is still reserved'' True)\<lparr>bf_retryAfterMs := Some 1000\<rparr>"

definition isRetryable :: "broker_host \<Rightarrow> thrown_error \<Rightarrow> bool" where
  "isRetryable host e \<longleftrightarrow> (case errorGraph host e of (heap, value) \<Rightarrow>
     classifyCleanReleaseError heap value = KRetryable)"

fun evictions ::
  "broker_options \<Rightarrow> broker_host \<Rightarrow> admission_input \<Rightarrow> nat \<Rightarrow> broker_admission \<Rightarrow>
   (thrown_error, broker_admission) flow" where
  "evictions opts host inp fuel (BEvict q r) =
     (case fuel of
        0 \<Rightarrow> throw OutOfFuel
      | Suc n \<Rightarrow>
          andThenF (catching (destroyF opts r False)
                      (\<lambda>e. if isRetryable host e then answer False else throw e)) (\<lambda>destroyed.
          if \<not> destroyed then throw (FailureThrown evictionPending)
          else andThenF (throwIfAborted True) (\<lambda>_.
               andThenF (admitting (admitAgain host) inp) (evictions opts host inp n))))"
| "evictions opts host inp fuel admission = answer admission"

definition rereadIfSuperseded ::
  "broker_reply \<Rightarrow> string \<Rightarrow> (thrown_error, broker_reply) flow" where
  "rereadIfSuperseded reply k =
     andThenF (query (\<lambda>db. readRequest db k)) (\<lambda>latest.
     case latest of
       None \<Rightarrow> answer reply
     | Some q \<Rightarrow> if rq_state q \<noteq> RActive then replyOf q else answer reply)"

definition readGrant :: "request_row \<Rightarrow> string \<Rightarrow> (thrown_error, broker_reply) flow" where
  "readGrant q k =
     andThenF (look wd_aborted) (\<lambda>reason.
     andThenF (if reason = None then answer q
               else andThenF (query (\<lambda>db. readRequest db k)) (\<lambda>latest.
                    answer (case latest of None \<Rightarrow> q | Some l \<Rightarrow> l))) (\<lambda>current.
     andThenF (replyOf current) (\<lambda>reply.
     if ry_outcome reply = ReplyReady then rereadIfSuperseded reply k else answer reply)))"

text \<open>What is logged of a ready acquisition names the profile of the device it was granted on.\<close>

definition logReadyAcquisition :: "request_row \<Rightarrow> resource_row \<Rightarrow> (thrown_error, unit) flow" where
  "logReadyAcquisition q r =
     (case Option.bind (receiptTiming q) ti_acquisition of
        None \<Rightarrow> answer ()
      | Some acquisition \<Rightarrow> andThenF (lifted (nativeProfile (rs_profile r))) (\<lambda>_. answer ()))"

definition grantSession ::
  "broker_options \<Rightarrow> session_config \<Rightarrow> string \<Rightarrow> rat option \<Rightarrow> resource_row \<Rightarrow>
   (thrown_error, broker_reply) flow" where
  "grantSession opts config token timeout r =
     (let k = cf_requestId config in
      andThenF (throwIfAborted True) (\<lambda>_.
      andThenF (awaiting (dp_prepare (bo_devices opts) r
        \<lparr>po_livenessOwnerToken = token, po_preparationTimeoutMs = timeout,
         po_idleTimeoutMs = cf_idleTimeoutMs config, po_executionOwnerPid = cf_executionOwnerPid config,
         po_deviceProfile = requestedDeviceProfile config\<rparr>)) (\<lambda>prepared.
      andThenF (throwIfAborted True) (\<lambda>_.
      andThenF (transaction (\<lambda>now db. activate now k (bo_owner opts) (pp_sessionId prepared)
                  (pp_timing prepared) (Some (pp_profile prepared)) db)) (\<lambda>q.
      andThenF (look sc_stopping) (\<lambda>stopping.
      andThenF (if stopping
                then catching (andThenF (transaction (\<lambda>now db. relinquishForRestart now k (bo_owner opts) db))
                                 (\<lambda>_. answer ())) (\<lambda>_. answer ())
                else answer ()) (\<lambda>_.
      catching (andThenF (logReadyAcquisition q r) (\<lambda>_. readGrant q k))
        (\<lambda>e. throw (CommittedReceiptRead k e)))))))))"

definition prepareAdmission ::
  "broker_options \<Rightarrow> broker_host \<Rightarrow> nat \<Rightarrow> session_config \<Rightarrow> string \<Rightarrow> broker_admission \<Rightarrow>
   admission_input \<Rightarrow> (thrown_error, broker_reply) flow" where
  "prepareAdmission opts host fuel config token initial inp =
     andThenF (waitForReadiness host initial inp (cf_preparationTimeoutMs config)) (\<lambda>(waited, timeout).
     andThenF (evictions opts host inp fuel waited) (\<lambda>admission.
     andThenF (recordRefusedAdmission admission) (\<lambda>timing.
     case admission of
       BCreate q r \<Rightarrow> grantSession opts config token timeout r
     | BReuse q r \<Rightarrow> grantSession opts config token timeout r
     | _ \<Rightarrow> resultWith (admissionRequest admission) timing)))"

subsection \<open>When preparing fails\<close>

text \<open>What a refusal before admission stores; the callbacks of the input are not consulted.\<close>

definition identityInput ::
  "broker_options \<Rightarrow> session_config \<Rightarrow> string \<Rightarrow> export_identity option \<Rightarrow> admission_input" where
  "identityInput opts config fingerprint exportIdentity =
     \<lparr>ai_requestId = cf_requestId config, ai_fingerprint = fingerprint, ai_parameters = cf_json config,
      ai_owner = bo_owner opts, ai_export = exportIdentity, ai_limits = bo_limits opts,
      ai_startedAtMs = None, ai_readiness = None, ai_matches = (\<lambda>_. Inr False),
      ai_resolveCreation = Inr JNull\<rparr>"

definition cleanupIfAny :: "broker_options \<Rightarrow> ticket option \<Rightarrow> bool \<Rightarrow> (thrown_error, unit) flow" where
  "cleanupIfAny opts found signal =
     (case found of None \<Rightarrow> answer () | Some t \<Rightarrow> tryCleanup opts t signal)"

definition failAdmittedPreparation ::
  "broker_options \<Rightarrow> string \<Rightarrow> broker_failure \<Rightarrow> (thrown_error, broker_reply) flow" where
  "failAdmittedPreparation opts k f =
     andThenF (transaction (\<lambda>now db. fail now k (bo_owner opts) (bf_message f) (bf_code f) (bf_retryable f) db))
       (\<lambda>ticket.
     andThenF (cleanupIfAny opts ticket False) (\<lambda>_.
     andThenF (query (\<lambda>db. readRequest db k)) (\<lambda>found.
     case found of
       None \<Rightarrow> throw (Plain (ActionableError
         ''Admitted session request lost its durable receipt; cleanup cannot be acknowledged''))
     | Some q \<Rightarrow>
         andThenF (recordFailedAcquisition q (receiptTiming q)) (\<lambda>timing.
         andThenF (resultWith q timing) (\<lambda>reply.
         answer (failedPreparationResult q reply f))))))"

definition recordRefusal ::
  "broker_options \<Rightarrow> session_config \<Rightarrow> string \<Rightarrow> export_identity option \<Rightarrow> broker_failure \<Rightarrow>
   (thrown_error, broker_reply) flow" where
  "recordRefusal opts config fingerprint exportIdentity f =
     andThenF (catching
         (andThenF (transaction (\<lambda>now db. recordPreAdmissionFailure now
             (identityInput opts config fingerprint exportIdentity)
             (bf_code f, bf_message f, bf_retryable f) db)) (\<lambda>q. answer (Inr q)))
         (\<lambda>e. case e of SchemaUnsupported m versions remedy \<Rightarrow> answer (Inl e) | _ \<Rightarrow> throw e))
       (\<lambda>receipt. case receipt of
          Inl e \<Rightarrow> answer (failedResult config (failureFor e))
        | Inr q \<Rightarrow> replyOf q)"

definition handlePreparationFailure ::
  "broker_options \<Rightarrow> broker_host \<Rightarrow> session_config \<Rightarrow> string \<Rightarrow> string \<Rightarrow> export_identity option \<Rightarrow>
   bool \<Rightarrow> thrown_error \<Rightarrow> (thrown_error, broker_reply) flow" where
  "handlePreparationFailure opts host config token fingerprint exportIdentity admitted e =
     (let f = failureFor e in
      if admitted then failAdmittedPreparation opts (cf_requestId config) f
      else case e of
        SchemaUnsupported m versions remedy \<Rightarrow> answer (failedResult config f)
      | _ \<Rightarrow>
          andThenF (query (\<lambda>db. readRequest db (cf_requestId config))) (\<lambda>committed.
          case committed of
            None \<Rightarrow> recordRefusal opts config fingerprint exportIdentity f
          | Some q \<Rightarrow>
              if rq_code q = Some SESSION_REQUEST_ABANDONED_CODE \<and> consumerOwns host q token
              then andThenF (linkIfAny exportIdentity q) (\<lambda>_. replyOf q)
              else recordRefusal opts config fingerprint exportIdentity f))"

subsection \<open>One preparation\<close>

type_synonym reply_promise = "(thrown_error, broker_reply) flow"

definition marked :: "bool \<Rightarrow> (thrown_error, 'a) flow \<Rightarrow> (bool \<times> thrown_error, 'a) flow" where
  "marked admitted m = catching m (\<lambda>e. throw (admitted, e))"

definition estimateReadiness ::
  "admission_input \<Rightarrow> (thrown_error, admission_input) flow" where
  "estimateReadiness inp = catching
     (awaiting (\<lambda>s. (Inr (inp\<lparr>ai_readiness := snapshot (wd_db s) (wd_now s) (wd_readiness s) (ai_matches inp)\<rparr>), s)))
     (\<lambda>_. answer inp)"

definition attemptPreparation ::
  "broker_options \<Rightarrow> broker_host \<Rightarrow> nat \<Rightarrow> session_config \<Rightarrow> string \<Rightarrow> string \<Rightarrow> export_identity option \<Rightarrow>
   int \<Rightarrow> (bool \<times> thrown_error, reply_promise) flow" where
  "attemptPreparation opts host fuel config token fingerprint exportIdentity startedAtMs =
     andThenF (marked False (query (\<lambda>db. readRequest db (cf_requestId config)))) (\<lambda>previous.
     case previous of
       Some q \<Rightarrow> answer (replay host config fingerprint token exportIdentity q)
     | None \<Rightarrow>
         andThenF (marked False (brokerAdmissionInput opts host config fingerprint exportIdentity)) (\<lambda>input0.
         let input1 = input0\<lparr>ai_startedAtMs := Some startedAtMs\<rparr> in
         andThenF (marked False
           (if bo_reuseCleanDevices opts \<and> requestPlatform (cf_device config) \<noteq> ''android''
            then estimateReadiness input1 else answer input1)) (\<lambda>inp.
         andThenF (marked False (admitting (admitNew host) inp)) (\<lambda>admission.
         case admission of
           BExisting q \<Rightarrow> answer (resultUnlessAborted q)
         | BRefused q reason \<Rightarrow> answer (resultUnlessAborted q)
         | _ \<Rightarrow> andThenF (marked True (prepareAdmission opts host fuel config token admission inp))
                 (\<lambda>reply. answer (answer reply))))))"

definition onPreparationError ::
  "broker_options \<Rightarrow> broker_host \<Rightarrow> session_config \<Rightarrow> string \<Rightarrow> string \<Rightarrow> export_identity option \<Rightarrow>
   bool \<times> thrown_error \<Rightarrow> (thrown_error, reply_promise) flow" where
  "onPreparationError opts host config token fingerprint exportIdentity thrown =
     (case thrown of (admitted, e) \<Rightarrow>
       (case e of
          Plain ExportIdentityMismatchError \<Rightarrow> throw e
        | CommittedReceiptRead k cause \<Rightarrow> throw e
        | OutOfFuel \<Rightarrow> throw e
        | _ \<Rightarrow>
            andThenF (look (\<lambda>s. (abortedByBrokerStop s, preparationFailureError e s))) (\<lambda>(stopped, e1).
            if \<not> admitted \<and> stopped then throw (Plain StoppingError)
            else answer (handlePreparationFailure opts host config token fingerprint exportIdentity
                           admitted e1))))"

definition prepareOnce ::
  "broker_options \<Rightarrow> broker_host \<Rightarrow> nat \<Rightarrow> session_config \<Rightarrow> string \<Rightarrow> export_identity option \<Rightarrow>
   (thrown_error, broker_reply) flow" where
  "prepareOnce opts host fuel config token exportIdentity =
     (let fingerprint = sessionRequestFingerprint (ho_sha host) (cf_json config) token;
          k = cf_requestId config in
      andThenF (look wd_now) (\<lambda>startedAtMs.
      andThenF (change (beginPreparation k)) (\<lambda>_.
      andThenF (lastly
        (catching
          (attemptPreparation opts host fuel config token fingerprint exportIdentity startedAtMs)
          (onPreparationError opts host config token fingerprint exportIdentity))
        (finishPreparation k)) (\<lambda>promise. promise))))"

definition prepare ::
  "broker_options \<Rightarrow> broker_host \<Rightarrow> nat \<Rightarrow> session_config \<Rightarrow> string \<Rightarrow> export_identity option \<Rightarrow>
   (thrown_error, broker_reply) flow" where
  "prepare opts host fuel config token exportIdentity =
     andThenF (look (\<lambda>s. (sc_stopping s, sc_maintenance s))) (\<lambda>(stopping, maintenance).
     if stopping then throw (Plain StoppingError)
     else if maintenance then throw (Plain MaintenanceError)
     else prepareOnce opts host fuel config token exportIdentity)"

end
