(* ===== verification/BrokerLifecycle.thy ===== *)
theory BrokerLifecycle
  imports BrokerFlow
begin

text \<open>
  The rest of the session broker (src/src/daemon/sessionBroker/broker.ts, releaseReply.ts): status,
  abandonment, exports, release, the owner's exit, recovery after a restart and hand-over at a stop.
  Conventions as in \<open>BrokerFlow\<close>.
\<close>

section \<open>Questions\<close>

definition status :: "string \<Rightarrow> (thrown_error, broker_reply option) flow" where
  "status k =
     andThenF (query (\<lambda>db. readRequest db k)) (\<lambda>found.
     case found of None \<Rightarrow> answer None | Some q \<Rightarrow> andThenF (replyOf q) (\<lambda>reply. answer (Some reply)))"

definition ownedStatus :: "broker_host \<Rightarrow> string \<Rightarrow> string \<Rightarrow> (thrown_error, broker_reply option) flow" where
  "ownedStatus host k token =
     andThenF (query (\<lambda>db. readRequest db k)) (\<lambda>found.
     case found of
       None \<Rightarrow> answer None
     | Some q \<Rightarrow> andThenF (lifted (assertConsumerOwner host q token)) (\<lambda>_.
         andThenF (replyOf q) (\<lambda>reply. answer (Some reply))))"

definition ownedSessionRequest :: "broker_host \<Rightarrow> string \<Rightarrow> string \<Rightarrow> (thrown_error, request_row option) flow" where
  "ownedSessionRequest host session token =
     andThenF (query (\<lambda>db. getSession db session)) (\<lambda>found.
     case found of
       None \<Rightarrow> answer None
     | Some q \<Rightarrow> andThenF (lifted (assertConsumerOwner host q token)) (\<lambda>_. answer (Some q)))"

definition hasActiveSession :: "broker_options \<Rightarrow> string \<Rightarrow> (thrown_error, bool) flow" where
  "hasActiveSession opts session =
     andThenF (query (\<lambda>db. getSession db session)) (\<lambda>found.
     answer (case found of None \<Rightarrow> False
             | Some q \<Rightarrow> rq_state q = RActive \<and> sameProcess (rq_owner q) (bo_owner opts)))"

section \<open>Exports\<close>

definition authorizedExport ::
  "broker_host \<Rightarrow> string \<Rightarrow> string \<Rightarrow> string \<Rightarrow> (thrown_error, (export_row \<times> request_row) option) flow" where
  "authorizedExport host prepareId digest token =
     andThenF (query (\<lambda>db. readExport db prepareId)) (\<lambda>found.
     case found of
       None \<Rightarrow> answer None
     | Some e \<Rightarrow>
         andThenF (query (\<lambda>db. readRequest db (ex_request e))) (\<lambda>request.
         case request of
           None \<Rightarrow> throw (Plain ExportIdentityMismatchError)
         | Some q \<Rightarrow>
             if ex_digest e \<noteq> digest \<or> \<not> consumerOwns host q token
             then throw (Plain ExportIdentityMismatchError) else answer (Some (e, q))))"

definition getExport ::
  "broker_host \<Rightarrow> string \<Rightarrow> string \<Rightarrow> string \<Rightarrow> (thrown_error, (bool \<times> broker_reply) option) flow" where
  "getExport host prepareId digest token =
     andThenF (authorizedExport host prepareId digest token) (\<lambda>found.
     case found of
       None \<Rightarrow> answer None
     | Some (e, q) \<Rightarrow>
         andThenF (replyOf q) (\<lambda>reply. answer (Some (ex_acknowledged e \<noteq> None, reply))))"

text \<open>True for \<open>acknowledged\<close>, False for \<open>unknown_export\<close>.\<close>

definition acknowledgeExportF ::
  "broker_host \<Rightarrow> string \<Rightarrow> string \<Rightarrow> string \<Rightarrow> (thrown_error, bool) flow" where
  "acknowledgeExportF host prepareId digest token =
     andThenF (authorizedExport host prepareId digest token) (\<lambda>found.
     case found of
       None \<Rightarrow> answer False
     | Some _ \<Rightarrow> andThenF (transaction (\<lambda>now db. Inr (acknowledgeExport prepareId now db))) (\<lambda>record.
         answer (record \<noteq> None)))"

section \<open>Releasing\<close>

definition track :: "string \<Rightarrow> scene \<Rightarrow> scene" where
  "track session s = s\<lparr>sc_releases := session # sc_releases s\<rparr>"

definition untrack :: "string \<Rightarrow> scene \<Rightarrow> scene" where
  "untrack session s = s\<lparr>sc_releases := filter (\<lambda>k. k \<noteq> session) (sc_releases s)\<rparr>"

definition releaseOnce ::
  "broker_options \<Rightarrow> broker_host \<Rightarrow> string \<Rightarrow> bool \<Rightarrow> request_row option \<Rightarrow>
   (thrown_error, release_reply) flow" where
  "releaseOnce opts host session signal found =
     (case found of
        None \<Rightarrow> answer \<lparr>rl_sessionUuid = session, rl_outcome = ReleaseUnknownSession, rl_timing = None\<rparr>
      | Some q \<Rightarrow>
          if rq_state q = Released \<or> rq_state q = Failed then releaseStatus q session
          else andThenF (findResource (rq_resource q)) (\<lambda>resource.
            case resource of
              None \<Rightarrow> throw (Plain (ActionableError
                ''Session has no durable resource; cannot acknowledge cleanup''))
            | Some r \<Rightarrow>
                andThenF (throwIfAborted signal) (\<lambda>_.
                if rq_state q = Releasing \<and> rs_state r = Destroying
                then andThenF (tryCleanup opts (destructionTicket r) signal) (\<lambda>_. releaseStatus q session)
                else andThenF (drainAndReset opts host q r session signal) (\<lambda>result.
                  andThenF (throwIfAborted signal) (\<lambda>_.
                  case result of
                    StillPending \<Rightarrow> andThenF (releaseStatus q session) (\<lambda>reply.
                      answer (reply\<lparr>rl_outcome := ReleaseCleanupPending\<rparr>))
                  | ToIdle \<Rightarrow> releaseStatus q session
                  | ToDestroy \<Rightarrow>
                      andThenF (transaction (\<lambda>now db. releaseByDestruction (rq_id q) (bo_owner opts) db)) (\<lambda>ticket.
                      andThenF (cleanupIfAny opts ticket signal) (\<lambda>_. releaseStatus q session)))))))"

text \<open>The release a call starts; a later call for the same session joins it.\<close>

definition releaseTracked ::
  "broker_options \<Rightarrow> broker_host \<Rightarrow> string \<Rightarrow> bool \<Rightarrow> (thrown_error, release_reply) flow" where
  "releaseTracked opts host session signal =
     andThenF (change (track session)) (\<lambda>_.
     lastly (andThenF (transaction (\<lambda>now db. beginRelease now session (bo_owner opts) db))
               (releaseOnce opts host session signal))
       (untrack session))"

definition SESSION_BROKER_RELEASE_REPLY_BUDGET_MS :: rat where
  "SESSION_BROKER_RELEASE_REPLY_BUDGET_MS = 30000"

text \<open>\<open>None\<close> for an absent or a non-finite budget of the caller.\<close>

definition resolveReleaseReplyBudgetMs :: "rat option \<Rightarrow> rat option \<Rightarrow> rat" where
  "resolveReleaseReplyBudgetMs replyBudgetMs configured =
     (case replyBudgetMs of
        Some b \<Rightarrow> max 0 (min b SESSION_BROKER_RELEASE_REPLY_BUDGET_MS)
      | None \<Rightarrow> (case configured of Some c \<Rightarrow> c | None \<Rightarrow> SESSION_BROKER_RELEASE_REPLY_BUDGET_MS))"

text \<open>
  The reply to the caller once the release is committed. \<open>took\<close> is how long the native work needs: past
  the budget the caller is told that cleanup is pending, and the work goes on without it.
\<close>

definition boundedReleaseReply ::
  "broker_options \<Rightarrow> broker_host \<Rightarrow> string \<Rightarrow> rat option \<Rightarrow> rat \<Rightarrow> (thrown_error, release_reply) flow" where
  "boundedReleaseReply opts host session replyBudgetMs took =
     andThenF (change (track session)) (\<lambda>_.
     lastly (andThenF (transaction (\<lambda>now db. beginRelease now session (bo_owner opts) db)) (\<lambda>found.
       if resolveReleaseReplyBudgetMs replyBudgetMs (bo_releaseReplyBudgetMs opts) \<le> took
       then answer \<lparr>rl_sessionUuid = session, rl_outcome = ReleaseCleanupPending, rl_timing = None\<rparr>
       else releaseOnce opts host session False found))
       (untrack session))"

subsection \<open>A session whose owner died\<close>

definition commitOwnerExit ::
  "broker_options \<Rightarrow> string \<Rightarrow> (thrown_error, (request_row \<times> ticket option) option) flow" where
  "commitOwnerExit opts session =
     andThenF (query (\<lambda>db. getSession db session)) (\<lambda>found.
     case found of
       None \<Rightarrow> answer None
     | Some q \<Rightarrow>
         andThenF (transaction (\<lambda>now db. fail now (rq_id q) (bo_owner opts) SESSION_OWNER_EXITED_MESSAGE
                     SESSION_OWNER_EXITED_CODE False db)) (\<lambda>ticket.
         andThenF (query (\<lambda>db. readRequest db (rq_id q))) (\<lambda>latest.
         answer (Some (case latest of None \<Rightarrow> q | Some l \<Rightarrow> l, ticket)))))"

definition finishOwnerExit ::
  "broker_options \<Rightarrow> string \<Rightarrow> request_row \<times> ticket option \<Rightarrow> (thrown_error, release_reply) flow" where
  "finishOwnerExit opts session exit =
     lastly
       (andThenF (catching (andThenF (awaiting (dp_release (bo_devices opts) session)) (\<lambda>_. answer ()))
                   (\<lambda>_. answer ())) (\<lambda>_.
        andThenF (cleanupIfAny opts (snd exit) False) (\<lambda>_. releaseStatus (fst exit) session)))
       (untrack session)"

text \<open>
  What the caller hears as soon as the terminal receipt is committed. The release stays tracked, so a
  concurrent one joins it, until \<open>finishOwnerExit\<close> is through; with no session or no commit there is
  nothing to finish.
\<close>

definition releaseAfterOwnerExit ::
  "broker_options \<Rightarrow> string \<Rightarrow> (thrown_error, release_reply) flow" where
  "releaseAfterOwnerExit opts session =
     andThenF (change (track session)) (\<lambda>_.
     andThenF (catching (commitOwnerExit opts session)
                 (\<lambda>e. andThenF (change (untrack session)) (\<lambda>_. throw e))) (\<lambda>exit.
     case exit of
       None \<Rightarrow> andThenF (change (untrack session)) (\<lambda>_.
         answer \<lparr>rl_sessionUuid = session, rl_outcome = ReleaseUnknownSession, rl_timing = None\<rparr>)
     | Some (q, ticket) \<Rightarrow> releaseStatus q session))"

definition release ::
  "broker_options \<Rightarrow> broker_host \<Rightarrow> string \<Rightarrow> bool \<Rightarrow> rat option \<Rightarrow> rat \<Rightarrow>
   (thrown_error, release_reply) flow" where
  "release opts host session ownerExited replyBudgetMs took =
     andThenF (look sc_releases) (\<lambda>releases.
     if ownerExited \<and> \<not> List.member releases session then releaseAfterOwnerExit opts session
     else boundedReleaseReply opts host session replyBudgetMs took)"

section \<open>Abandoning\<close>

definition drainAbandonedSession :: "broker_options \<Rightarrow> string \<Rightarrow> (thrown_error, unit) flow" where
  "drainAbandonedSession opts session =
     andThenF (look sc_releases) (\<lambda>releases.
     catching
       (if List.member releases session then awaiting (\<lambda>s. (Inr (), s))
        else andThenF (awaiting (dp_release (bo_devices opts) session)) (\<lambda>_. answer ()))
       (\<lambda>_. answer ()))"

definition abandonRequest ::
  "broker_options \<Rightarrow> broker_host \<Rightarrow> string \<Rightarrow> string \<Rightarrow> (thrown_error, broker_reply) flow" where
  "abandonRequest opts host k token =
     andThenF (look sc_stopping) (\<lambda>stopping.
     if stopping then throw (Plain StoppingError)
     else
       andThenF (transaction (\<lambda>now db. abandon (ho_sha host) now k (bo_owner opts) token db)) (\<lambda>(q, ticket).
       andThenF (if truthy (rq_session q) then drainAbandonedSession opts (the (rq_session q)) else answer ()) (\<lambda>_.
       andThenF (look (hasPendingPreparation k)) (\<lambda>preparing.
       andThenF (if preparing then answer () else cleanupIfAny opts ticket False) (\<lambda>_.
       andThenF (query (\<lambda>db. readRequest db k)) (\<lambda>latest.
       replyOf (case latest of None \<Rightarrow> q | Some l \<Rightarrow> l)))))))"

section \<open>Recovery\<close>

datatype handoff_recovery = RecoveryAdopted | RecoveryPending | RecoveryTerminal

definition recoverRestartHandoff ::
  "broker_options \<Rightarrow> broker_host \<Rightarrow> request_row \<Rightarrow> (thrown_error, handoff_recovery) flow" where
  "recoverRestartHandoff opts host q =
     (if \<not> rq_handoff q \<or> rq_state q \<noteq> RActive \<or> \<not> truthy (rq_session q) then answer RecoveryTerminal
      else andThenF (case bo_sessionDisposition opts of
                       None \<Rightarrow> answer GoneSession
                     | Some ask \<Rightarrow> awaiting (ask (the (rq_session q)))) (\<lambda>liveness.
        if liveness = GoneSession then answer RecoveryTerminal
        else andThenF (transaction (\<lambda>now db. adoptRestartHandoff (ho_live host) now (rq_id q) (bo_owner opts) db))
               (\<lambda>adoption. answer (case adoption of NotHandoff \<Rightarrow> RecoveryTerminal
                  | Adopted \<Rightarrow> RecoveryAdopted | HandoffPending \<Rightarrow> RecoveryPending))))"

definition recoverOwnedRequest :: "broker_options \<Rightarrow> request_row \<Rightarrow> (thrown_error, unit) flow" where
  "recoverOwnedRequest opts q =
     andThenF
       (case (if rq_state q = RActive \<and> truthy (rq_session q) then bo_sessionDisposition opts else None) of
          None \<Rightarrow> answer ()
        | Some ask \<Rightarrow>
            andThenF (awaiting (ask (the (rq_session q)))) (\<lambda>liveness.
            andThenF (look sc_stopping) (\<lambda>stopping.
            if liveness = GoneSession \<and> \<not> stopping
            then andThenF (transaction (\<lambda>now db. beginRelease now (the (rq_session q)) (bo_owner opts) db))
                   (\<lambda>_. answer ())
            else answer ()))) (\<lambda>_.
     andThenF (look (hasPendingPreparation (rq_id q))) (\<lambda>preparing.
     if rq_state q = Acquiring \<and> \<not> preparing
     then andThenF (transaction (\<lambda>now db. failInterruptedAcquisition now (rq_id q) (bo_owner opts)
                      ''Acquisition ended without committing a session; cleanup is pending'' db)) (\<lambda>_.
          andThenF (recordFailedAcquisition q (receiptTiming q)) (\<lambda>_. answer ()))
     else answer ()))"

definition recoverOneRequest ::
  "broker_options \<Rightarrow> broker_host \<Rightarrow> request_row \<Rightarrow> (thrown_error, unit) flow" where
  "recoverOneRequest opts host q =
     (if sameProcess (rq_owner q) (bo_owner opts) then recoverOwnedRequest opts q
      else andThenF (recoverRestartHandoff opts host q) (\<lambda>handoff.
        if handoff \<noteq> RecoveryTerminal then answer ()
        else andThenF (transaction (\<lambda>now db. recoverRequest (ho_live host) now (rq_id q) (bo_owner opts) db)) (\<lambda>_.
          if rq_state q = Acquiring
          then andThenF (recordFailedAcquisition q (receiptTiming q)) (\<lambda>_. answer ())
          else answer ())))"

text \<open>A stop ends the pass before the next receipt; a broken receipt does not starve the later ones.\<close>

fun recoverEach ::
  "broker_options \<Rightarrow> broker_host \<Rightarrow> request_row list \<Rightarrow> (thrown_error, unit) flow" where
  "recoverEach opts host [] = answer ()"
| "recoverEach opts host (q # qs) =
     andThenF (look sc_stopping) (\<lambda>stopping.
     if stopping then answer ()
     else andThenF (catching (recoverOneRequest opts host q) (\<lambda>_. answer ())) (\<lambda>_.
          recoverEach opts host qs))"

definition recoverReceipts :: "broker_options \<Rightarrow> broker_host \<Rightarrow> (thrown_error, unit) flow" where
  "recoverReceipts opts host = andThenF (query listRecoverableRequests) (recoverEach opts host)"

definition recoverResource ::
  "broker_options \<Rightarrow> broker_host \<Rightarrow> resource_row \<Rightarrow> request_row option \<Rightarrow> (thrown_error, unit) flow" where
  "recoverResource opts host r found =
     (case (case found of Some q \<Rightarrow> if rq_state q = Releasing \<and> truthy (rq_session q) then rq_session q else None
            | None \<Rightarrow> None) of
        Some session \<Rightarrow> andThenF (releaseTracked opts host session True) (\<lambda>_. answer ())
      | None \<Rightarrow>
          andThenF (case found of
              Some q \<Rightarrow> if rq_state q = Failed \<and> rq_code q = Some SESSION_REQUEST_ABANDONED_CODE \<and>
                          truthy (rq_session q)
                       then drainAbandonedSession opts (the (rq_session q)) else answer ()
            | None \<Rightarrow> answer ()) (\<lambda>_.
          andThenF (throwIfAborted True) (\<lambda>_. tryCleanup opts (destructionTicket r) True)))"

text \<open>Which live resources a cleanup pass drives, each with the request this process owns for it.\<close>

definition cleanupItem ::
  "request_row list \<Rightarrow> scene \<Rightarrow> resource_row \<Rightarrow> (resource_row \<times> request_row option) option" where
  "cleanupItem mine s r =
     (let found = (if truthy (rs_request r) then List.find (\<lambda>q. Some (rq_id q) = rs_request r) mine else None) in
      if truthy (rs_request r) \<and> hasPendingPreparation (the (rs_request r)) s then None
      else if rs_state r \<noteq> Destroying \<and> (case found of None \<Rightarrow> True | Some q \<Rightarrow> rq_state q \<noteq> Releasing) then None
      else Some (r, found))"

definition queueReleases :: "(resource_row \<times> request_row option) list \<Rightarrow> scene \<Rightarrow> scene" where
  "queueReleases items s = s\<lparr>sc_queued := sc_queued s @
     List.map_filter (\<lambda>(r, found). case found of
        Some q \<Rightarrow> if rq_state q = Releasing then Some (rq_id q) else None | None \<Rightarrow> None) items\<rparr>"

text \<open>
  \<open>RecoveryCleanup\<close> runs the items with bounded concurrency and a bounded wait; one item at a time is one
  of its schedules, and what the others do meanwhile are moves of the world.
\<close>

definition recoverCleanup :: "broker_options \<Rightarrow> broker_host \<Rightarrow> (thrown_error, unit) flow" where
  "recoverCleanup opts host =
     andThenF (look sc_stopping) (\<lambda>stopping.
     if stopping then answer ()
     else
       andThenF (query (\<lambda>db. filter (\<lambda>q. sameProcess (rq_owner q) (bo_owner opts)) (listRecoverableRequests db))) (\<lambda>mine.
       andThenF (query listLiveResources) (\<lambda>rs.
       andThenF (look (\<lambda>s. List.map_filter (cleanupItem mine s) rs)) (\<lambda>items.
       andThenF (change (queueReleases items)) (\<lambda>_.
       forEach items (\<lambda>(r, found).
         catching (andThenF (throwIfAborted True) (\<lambda>_. recoverResource opts host r found)) (\<lambda>_. answer ())))))))"

definition recover :: "broker_options \<Rightarrow> broker_host \<Rightarrow> (thrown_error, unit) flow" where
  "recover opts host = andThenF (recoverReceipts opts host) (\<lambda>_. recoverCleanup opts host)"

definition RECEIPT_RETENTION_MS :: int where
  "RECEIPT_RETENTION_MS = 30 * 24 * 60 * 60 * 1000"

definition EXPORT_RETENTION_MS :: int where
  "EXPORT_RETENTION_MS = 180 * 24 * 60 * 60 * 1000"

definition RECEIPT_PRUNE_BATCH :: int where
  "RECEIPT_PRUNE_BATCH = 500"

definition pruneReceipts :: "broker_options \<Rightarrow> (thrown_error, int) flow" where
  "pruneReceipts opts = transaction (\<lambda>now db. pruneTerminalRequests now
     (case bo_receiptRetentionMs opts of None \<Rightarrow> RECEIPT_RETENTION_MS | Some v \<Rightarrow> v) RECEIPT_PRUNE_BATCH
     (case bo_exportRetentionMs opts of None \<Rightarrow> EXPORT_RETENTION_MS | Some v \<Rightarrow> v) db)"

section \<open>Stopping\<close>

definition relinquishing :: "broker_options \<Rightarrow> request_row \<Rightarrow> (thrown_error, unit) flow" where
  "relinquishing opts q =
     catching (andThenF (transaction (\<lambda>now db. relinquishForRestart now (rq_id q) (bo_owner opts) db))
                 (\<lambda>_. answer ())) (\<lambda>_. answer ())"

definition markRestartHandoff :: "broker_options \<Rightarrow> (thrown_error, unit) flow" where
  "markRestartHandoff opts =
     andThenF (change (\<lambda>s. s\<lparr>sc_stopping := True\<rparr>)) (\<lambda>_.
     andThenF (query listRecoverableRequests) (\<lambda>qs.
     forEach (filter (\<lambda>q. sameProcess (rq_owner q) (bo_owner opts) \<and> truthy (rq_session q) \<and>
                rq_state q = RActive) qs) (relinquishing opts)))"

text \<open>What a stop finishes: the releases a consumer began and recovery has not queued.\<close>

definition close :: "broker_options \<Rightarrow> broker_host \<Rightarrow> (thrown_error, unit) flow" where
  "close opts host =
     andThenF (catching (markRestartHandoff opts) (\<lambda>_. answer ())) (\<lambda>_.
     andThenF (awaiting (\<lambda>s. (Inr (), s))) (\<lambda>_.
     andThenF (markRestartHandoff opts) (\<lambda>_.
     andThenF (query listRecoverableRequests) (\<lambda>qs.
     andThenF (look sc_queued) (\<lambda>queued.
     forEach (filter (\<lambda>q. sameProcess (rq_owner q) (bo_owner opts) \<and> truthy (rq_session q) \<and>
                rq_state q = Releasing \<and> \<not> List.member queued (rq_id q)) qs) (\<lambda>q.
       catching (andThenF (releaseTracked opts host (the (rq_session q)) False) (\<lambda>_. answer ()))
         (\<lambda>_. answer ())))))))"

section \<open>The pool\<close>

fun drainEach :: "broker_options \<Rightarrow> ticket list \<Rightarrow> (thrown_error, drain_entry list) flow" where
  "drainEach opts [] = answer []"
| "drainEach opts (t # ts) =
     andThenF (tryCleanup opts t False) (\<lambda>_.
     andThenF (query (\<lambda>db. confirmedGone db (fst t))) (\<lambda>destroyed.
     andThenF (drainEach opts ts) (\<lambda>es.
     answer (\<lparr>de_resource = fst t, de_outcome = (if destroyed then DrainDestroyed else DrainCleanupPending),
              de_cleanupPending = \<not> destroyed\<rparr> # es))))"

definition drainPool :: "broker_options \<Rightarrow> ticket list option \<Rightarrow> (thrown_error, drain_entry list) flow" where
  "drainPool opts observed = andThenF (transaction (\<lambda>now db. drainIdle observed db)) (drainEach opts)"

definition drainIdlePoolF :: "broker_options \<Rightarrow> (thrown_error, drain_entry list) flow" where
  "drainIdlePoolF opts =
     andThenF (look (\<lambda>s. (sc_stopping s, sc_maintenance s))) (\<lambda>(stopping, maintenance).
     if stopping then throw (Plain StoppingError)
     else if maintenance then throw (Plain MaintenanceError)
     else drainPool opts None)"

text \<open>The expiry pass; the clocks of the idle devices are kept by the caller between passes.\<close>

definition sweepF ::
  "broker_options \<Rightarrow> idle_ttl \<Rightarrow> observations \<Rightarrow> (thrown_error, drain_entry list \<times> observations) flow" where
  "sweepF opts ttl observed =
     (if \<not> enabled ttl then answer ([], observed)
      else
        andThenF (look wd_now) (\<lambda>now.
        andThenF (query (sweepObserve ttl now observed)) (\<lambda>(expired, retained).
        if expired = [] then answer ([], retained)
        else andThenF (drainPool opts (Some expired)) (\<lambda>es. answer (es, retained)))))"

definition expireIdlePoolF ::
  "broker_options \<Rightarrow> idle_ttl \<Rightarrow> observations \<Rightarrow> (thrown_error, drain_entry list \<times> observations) flow" where
  "expireIdlePoolF opts ttl observed =
     andThenF (look (\<lambda>s. sc_stopping s \<or> sc_maintenance s)) (\<lambda>closed.
     if closed then answer ([], observed) else sweepF opts ttl observed)"

section \<open>Calls\<close>

text \<open>The entry points of the broker, as one function over the call that is made.\<close>

datatype broker_call =
    CallPrepare session_config string "export_identity option"
  | CallStatus string
  | CallRelease string bool "rat option" rat
  | CallOwnerExit string "request_row \<times> ticket option"
  | CallAbandon string string
  | CallAcknowledge string string string
  | CallDrain
  | CallExpire idle_ttl observations
  | CallRecover
  | CallPrune
  | CallHandoff
  | CallClose

definition ignoring :: "('e, 'a) flow \<Rightarrow> ('e, unit) flow" where
  "ignoring m = andThenF m (\<lambda>_. answer ())"

fun perform :: "broker_options \<Rightarrow> broker_host \<Rightarrow> nat \<Rightarrow> broker_call \<Rightarrow> (thrown_error, unit) flow" where
  "perform opts host n (CallPrepare config token i) = ignoring (prepare opts host n config token i)"
| "perform opts host n (CallStatus k) = ignoring (status k)"
| "perform opts host n (CallRelease u exited budget took) = ignoring (release opts host u exited budget took)"
| "perform opts host n (CallOwnerExit u exit) = ignoring (finishOwnerExit opts u exit)"
| "perform opts host n (CallAbandon k token) = ignoring (abandonRequest opts host k token)"
| "perform opts host n (CallAcknowledge p d token) = ignoring (acknowledgeExportF host p d token)"
| "perform opts host n CallDrain = ignoring (drainIdlePoolF opts)"
| "perform opts host n (CallExpire ttl observed) = ignoring (expireIdlePoolF opts ttl observed)"
| "perform opts host n CallRecover = recover opts host"
| "perform opts host n CallPrune = ignoring (pruneReceipts opts)"
| "perform opts host n CallHandoff = markRestartHandoff opts"
| "perform opts host n CallClose = close opts host"

end
