(* ===== verification/BrokerFlowTheorems.thy ===== *)
theory BrokerFlowTheorems
  imports BrokerLifecycle
begin

text \<open>
  What the broker's asynchronous functions guarantee while everything else of the host runs in between:
  they change the database only by the transactions of \<open>BrokerSystem\<close>, so its invariants survive every
  interleaving. The theories on replies, releases, evictions and the pool build on these rules.
\<close>

section \<open>Flows of a host\<close>

definition hosted :: "(scope_identity \<Rightarrow> string) \<Rightarrow> scene \<Rightarrow> scene \<Rightarrow> bool" where
  "hosted key_of s t \<longleftrightarrow> (broker_step key_of)\<^sup>*\<^sup>* (wd_db s) (wd_db t) \<and> (sc_stopping s \<longrightarrow> sc_stopping t)"

interpretation hosted: scene_relation "hosted key_of" for key_of
  by unfold_locales (auto simp: hosted_def)

lemma hosted_db [intro]:
  "(broker_step key_of)\<^sup>*\<^sup>* (wd_db s) (wd_db t) \<Longrightarrow> sc_stopping t = sc_stopping s \<Longrightarrow> hosted key_of s t"
  by (simp add: hosted_def)

text \<open>
  The contract of the native side: it works on assignments and journal through the registry's own
  transactions. A wait for readiness is a stretch of ordinary operation; an id generator answers an id.
\<close>

definition native_call :: "(scope_identity \<Rightarrow> string) \<Rightarrow> 'a native \<Rightarrow> bool" where
  "native_call key_of act \<longleftrightarrow>
     (\<forall>s. (registry_step key_of)\<^sup>*\<^sup>* (wd_db s) (wd_db (snd (act s))) \<and>
          sc_stopping (snd (act s)) = sc_stopping s)"

definition native_contract :: "(scope_identity \<Rightarrow> string) \<Rightarrow> broker_options \<Rightarrow> broker_host \<Rightarrow> bool" where
  "native_contract key_of opts host \<longleftrightarrow>
     (\<forall>r p. native_call key_of (dp_prepare (bo_devices opts) r p)) \<and>
     (\<forall>u. native_call key_of (dp_release (bo_devices opts) u)) \<and>
     (\<forall>r. native_call key_of (dp_destroy (bo_devices opts) r)) \<and>
     (\<forall>reset r. dp_reset (bo_devices opts) = Some reset \<longrightarrow> native_call key_of (reset r)) \<and>
     (\<forall>p. native_call key_of (bo_catalog opts p)) \<and>
     (\<forall>ask u. bo_sessionDisposition opts = Some ask \<longrightarrow> native_call key_of (ask u)) \<and>
     native_call key_of (ho_bootSlot host) \<and> (\<forall>now. ho_newId host now \<noteq> []) \<and>
     (\<forall>d w. (broker_step key_of)\<^sup>*\<^sup>* (wd_db w) (wd_db (snd (ho_pause host d w))))"

lemma registry_broker_steps:
  "(registry_step key_of)\<^sup>*\<^sup>* a b \<Longrightarrow> (broker_step key_of)\<^sup>*\<^sup>* a b"
proof (induction rule: rtranclp_induct)
  case (step b c)
  then show ?case by (simp add: broker_step_def rtranclp.rtrancl_into_rtrancl)
qed simp

lemma native_call_keeps:
  assumes "native_call key_of act"
  shows "keeps (hosted key_of) (awaiting act)"
proof (rule hosted.meets_awaiting)
  fix s r s' assume "act s = (r, s')"
  then have "snd (act s) = s'" by simp
  with assms have "(registry_step key_of)\<^sup>*\<^sup>* (wd_db s) (wd_db s')" "sc_stopping s' = sc_stopping s"
    by (auto simp: native_call_def)
  then show "hosted key_of s s'" using registry_broker_steps by (intro hosted_db)
qed simp_all

lemma keeps_change [flow_rules]: "(\<And>s. hosted key_of s (f s)) \<Longrightarrow> keeps (hosted key_of) (change f)"
  by (rule hosted.meets_change) simp

lemma keeps_lastly [flow_rules]:
  "keeps (hosted key_of) m \<Longrightarrow> (\<And>s. hosted key_of s (f s)) \<Longrightarrow> keeps (hosted key_of) (lastly m f)"
  by (rule hosted.meets_lastly)

lemma keeps_awaiting_memory [flow_rules]:
  "keeps (hosted key_of) (awaiting (\<lambda>s. (f s, s)))"
  by (rule hosted.meets_awaiting) (auto intro: hosted.R_refl)

lemma keeps_transaction [flow_rules]:
  "(\<And>now db x db'. tx now db = Inr (x, db') \<Longrightarrow> store_step db db') \<Longrightarrow> keeps (hosted key_of) (transaction tx)"
  unfolding transaction_def
  by (rule hosted.meets_awaiting)
     (auto simp: hosted_def broker_step_def split: sum.splits prod.splits)

lemma memory_hosted [simp]:
  "hosted key_of s (setActive k b s)" "hosted key_of s (beginPreparation k s)"
  "hosted key_of s (finishPreparation k s)" "hosted key_of s (track u s)"
  "hosted key_of s (untrack u s)" "hosted key_of s (queueReleases items s)"
  "hosted key_of s (s\<lparr>sc_stopping := True\<rparr>)"
  by (simp_all add: hosted_def setActive_def beginPreparation_def finishPreparation_def track_def
      untrack_def queueReleases_def)

text \<open>The case distinctions a flow makes.\<close>

lemma keeps_cases [flow_rules]:
  "(b \<Longrightarrow> keeps R m) \<Longrightarrow> (\<not> b \<Longrightarrow> keeps R n) \<Longrightarrow> keeps R (if b then m else n)"
  by simp

section \<open>Every function keeps to the transactions\<close>

lemmas flow_splits = option.split sum.split prod.split native_outcome.split disposition.split
  broker_admission.split thrown_error.split err.split session_requirement.split handoff_recovery.split

lemma keeps_findResource [flow_rules]: "keeps (hosted key_of) (findResource k)"
  by (auto simp: findResource_def intro: flow_rules)

lemma keeps_recordFailedAcquisition [flow_rules]: "keeps (hosted key_of) (recordFailedAcquisition q t)"
  unfolding recordFailedAcquisition_def Let_def
  by (auto split: option.split intro!: flow_rules intro: store_step.recordTiming)

lemma keeps_recordRefusedAdmission [flow_rules]: "keeps (hosted key_of) (recordRefusedAdmission a)"
  unfolding recordRefusedAdmission_def Let_def by (auto split: broker_admission.split intro!: flow_rules)

lemma keeps_recordResetTiming [flow_rules]: "keeps (hosted key_of) (recordResetTiming q r t)"
  unfolding recordResetTiming_def Let_def
  by (auto split: option.split intro!: flow_rules intro: store_step.recordTiming)

lemma keeps_releaseStatus [flow_rules]: "keeps (hosted key_of) (releaseStatus q u)"
  unfolding releaseStatus_def by (auto intro!: flow_rules)

lemma keeps_resultWith [flow_rules]: "keeps (hosted key_of) (resultWith q t)"
  unfolding resultWith_def by (auto intro!: flow_rules)

lemma keeps_replyOf [flow_rules]: "keeps (hosted key_of) (replyOf q)"
  unfolding replyOf_def by (rule flow_rules)

lemma keeps_resultUnlessAborted [flow_rules]: "keeps (hosted key_of) (resultUnlessAborted q)"
  unfolding resultUnlessAborted_def by (auto intro!: flow_rules)

lemma keeps_tagged [flow_rules]: "keeps (hosted key_of) m \<Longrightarrow> keeps (hosted key_of) (tagged t c m)"
  unfolding tagged_def by (auto intro!: flow_rules)

lemma keeps_marked [flow_rules]: "keeps (hosted key_of) m \<Longrightarrow> keeps (hosted key_of) (marked a m)"
  unfolding marked_def by (auto intro!: flow_rules)

lemma keeps_linkIfAny [flow_rules]: "keeps (hosted key_of) (linkIfAny i q)"
  unfolding linkIfAny_def by (auto split: option.split intro!: flow_rules intro: store_step.linkRequestExport)

lemma keeps_rereadIfSuperseded [flow_rules]: "keeps (hosted key_of) (rereadIfSuperseded reply k)"
  unfolding rereadIfSuperseded_def by (auto split: option.split intro!: flow_rules)

lemma keeps_readGrant [flow_rules]: "keeps (hosted key_of) (readGrant q k)"
  unfolding readGrant_def by (auto split: option.split intro!: flow_rules)

lemma keeps_logReadyAcquisition [flow_rules]: "keeps (hosted key_of) (logReadyAcquisition q r)"
  unfolding logReadyAcquisition_def by (auto split: option.split intro!: flow_rules)

text \<open>Those that call the native side, under its contract.\<close>

lemma native_contractD:
  assumes "native_contract key_of opts host"
  shows "keeps (hosted key_of) (awaiting (dp_prepare (bo_devices opts) r p))"
    and "keeps (hosted key_of) (awaiting (dp_release (bo_devices opts) u))"
    and "keeps (hosted key_of) (awaiting (dp_destroy (bo_devices opts) r))"
    and "dp_reset (bo_devices opts) = Some reset \<Longrightarrow> keeps (hosted key_of) (awaiting (reset r))"
    and "keeps (hosted key_of) (awaiting (bo_catalog opts platform))"
    and "bo_sessionDisposition opts = Some ask \<Longrightarrow> keeps (hosted key_of) (awaiting (ask u))"
    and "keeps (hosted key_of) (awaiting (ho_bootSlot host))"
  using assms by (auto simp: native_contract_def intro!: native_call_keeps)

lemma keeps_destroyF [flow_rules]:
  "native_contract key_of opts host \<Longrightarrow> keeps (hosted key_of) (destroyF opts r b)"
  unfolding destroyF_def
  by (auto split: native_outcome.split intro!: flow_rules intro: native_contractD(3) store_step.confirmDestroyed)

lemma keeps_tryCleanup [flow_rules]:
  "native_contract key_of opts host \<Longrightarrow> keeps (hosted key_of) (tryCleanup opts t b)"
  unfolding tryCleanup_def by (auto split: option.split intro!: flow_rules)

lemma keeps_cleanupIfAny [flow_rules]:
  "native_contract key_of opts host \<Longrightarrow> keeps (hosted key_of) (cleanupIfAny opts t b)"
  unfolding cleanupIfAny_def by (auto split: option.split intro!: flow_rules)

lemma keeps_resetDevice [flow_rules]:
  "keeps (hosted key_of) (awaiting (reset r)) \<Longrightarrow> keeps (hosted key_of) (resetDevice reset r)"
  unfolding resetDevice_def by (auto intro!: flow_rules)

lemma keeps_awaitBootSlot [flow_rules]:
  "native_contract key_of opts host \<Longrightarrow> keeps (hosted key_of) (awaitBootSlot host b t)"
  unfolding awaitBootSlot_def by (auto intro!: flow_rules intro: native_contractD(7))

lemma keeps_runReset:
  "native_contract key_of opts host \<Longrightarrow> dp_reset (bo_devices opts) = Some reset \<Longrightarrow>
   keeps (hosted key_of) (runReset opts host reset r p b t)"
  unfolding runReset_def Let_def
  by (auto split: sum.split prod.split intro!: flow_rules intro: native_contractD(4))

lemma keeps_completeCleanReset [flow_rules]:
  "native_contract key_of opts host \<Longrightarrow> keeps (hosted key_of) (completeCleanReset opts host q r t b)"
  unfolding completeCleanReset_def
  by (auto intro!: flow_rules intro: store_step.completeCleanRelease)

lemma keeps_resetAndReturn:
  "native_contract key_of opts host \<Longrightarrow> dp_reset (bo_devices opts) = Some reset \<Longrightarrow>
   keeps (hosted key_of) (resetAndReturn opts host reset q r p b t)"
  unfolding resetAndReturn_def Let_def
  by (auto split: prod.split intro!: flow_rules intro: keeps_runReset)

lemma keeps_drainAndReset [flow_rules]:
  "native_contract key_of opts host \<Longrightarrow> keeps (hosted key_of) (drainAndReset opts host q r u b)"
  unfolding drainAndReset_def drainThenReset_def resetIfReusable_def afterResetFailure_def Let_def
  by (auto split: option.split prod.split intro!: flow_rules intro: native_contractD(2) keeps_resetAndReturn)

lemma keeps_brokerAdmissionInput [flow_rules]:
  "native_contract key_of opts host \<Longrightarrow> keeps (hosted key_of) (brokerAdmissionInput opts host cf fp i)"
  unfolding brokerAdmissionInput_def watchAdmissionInput_def Let_def
  by (auto split: session_requirement.split intro!: flow_rules intro: native_contractD(5))

lemma reserving_frame [simp]:
  "wd_db (reserving inp a s) = wd_db s" "sc_stopping (reserving inp a s) = sc_stopping s"
  by (simp_all add: reserving_def split: broker_admission.split)

lemma keeps_admitting [flow_rules]:
  assumes "\<And>now i db a db'. tx now i db = Inr (a, db') \<Longrightarrow> store_step db db'"
  shows "keeps (hosted key_of) (admitting tx inp)"
  unfolding admitting_def
  by (rule hosted.meets_awaiting)
     (auto simp: hosted_def broker_step_def dest!: assms split: sum.splits prod.splits)

lemma admitNew_step: "ho_newId host now \<noteq> [] \<Longrightarrow> admitNew host now i db = Inr (a, db') \<Longrightarrow> store_step db db'"
  unfolding admitNew_def by (rule store_step.admit)

lemma admitAgain_step: "ho_newId host now \<noteq> [] \<Longrightarrow> admitAgain host now i db = Inr (a, db') \<Longrightarrow> store_step db db'"
  unfolding admitAgain_def by (rule store_step.continueAdmission)


lemma continueAfterWait_steps:
  assumes "\<And>d w. (broker_step key_of)\<^sup>*\<^sup>* (wd_db w) (wd_db (snd (pause d w)))" and "newId \<noteq> []"
    and "continueAfterWait lc newId scope pause a inp timeout w = (r, w')"
  shows "(broker_step key_of)\<^sup>*\<^sup>* (wd_db w) (wd_db w')"
proof -
  have wait: "(broker_step key_of)\<^sup>*\<^sup>* (wd_db v) (wd_db (snd (wait pause k d v)))" for k d v
    using assms(1) by (simp add: wait_def)
  have reset: "(broker_step key_of)\<^sup>*\<^sup>* (wd_db v) (wd_db (snd (waitForReset pause inp k d deadline v)))"
    for k d deadline v
  proof -
    obtain e1 v1 where v1: "wait pause k (cappedWait d deadline v) v = (e1, v1)" by (metis surj_pair)
    have "(broker_step key_of)\<^sup>*\<^sup>* (wd_db v) (wd_db v1)"
      using wait [of v k "cappedWait d deadline v"] by (simp add: v1)
    then show ?thesis using wait by (auto simp: waitForReset_def Let_def v1 intro: rtranclp_trans)
  qed
  show ?thesis
  proof (cases a)
    case (BWait q k d)
    obtain e w1 where w1: "waitForReset pause inp k d (deadlineOf inp timeout w) w = (e, w1)"
      by (metis surj_pair)
    have "(broker_step key_of)\<^sup>*\<^sup>* (wd_db w) (wd_db w1)"
      using reset [of w k d "deadlineOf inp timeout w"] by (simp add: w1)
    then show ?thesis
      using assms(3) BWait w1
      by (auto simp: continueAfterWait_def Let_def broker_step_def
          dest!: store_step.continueAdmission [OF assms(2)]
          intro: rtranclp.rtrancl_into_rtrancl split: if_splits sum.splits prod.splits)
  qed (use assms(3) in \<open>auto simp: continueAfterWait_def\<close>)
qed

lemma keeps_waitForReadiness [flow_rules]:
  assumes "native_contract key_of opts host"
  shows "keeps (hosted key_of) (waitForReadiness host a inp timeout)"
  unfolding waitForReadiness_def
proof (rule hosted.meets_awaiting)
  fix s :: scene and r s'
  assume run: "(case continueAfterWait (ho_localeCompare host) (ho_newId host (wd_now s)) (ho_scope host)
      (ho_pause host) a inp timeout (world.truncate s) of
    (r, w) \<Rightarrow> (map_sum Plain (\<lambda>x. x) r, world.extend w (world.more s))) = (r, s')"
  obtain r0 w where w: "continueAfterWait (ho_localeCompare host) (ho_newId host (wd_now s)) (ho_scope host)
      (ho_pause host) a inp timeout (world.truncate s) = (r0, w)" by (metis surj_pair)
  have "(broker_step key_of)\<^sup>*\<^sup>* (wd_db s) (wd_db w)"
    using continueAfterWait_steps [OF _ _ w, of key_of] assms
    by (simp add: native_contract_def world.truncate_def)
  moreover have "s' = world.extend w (world.more s)" using run w by simp
  ultimately show "hosted key_of s s'"
    by (cases s) (simp add: hosted_def world.defs scene.defs)
qed simp_all

lemma keeps_evictions [flow_rules]:
  "native_contract key_of opts host \<Longrightarrow> keeps (hosted key_of) (evictions opts host inp n a)"
proof (induction n arbitrary: a)
  case 0
  then show ?case by (cases a) (auto intro: flow_rules)
next
  case (Suc n)
  show ?case
  proof (cases a)
    case (BEvict q r)
    have "ho_newId host now \<noteq> []" for now using Suc.prems by (simp add: native_contract_def)
    then show ?thesis
      using Suc BEvict by (auto intro!: flow_rules intro: admitAgain_step)
  qed (auto intro: flow_rules)
qed

lemma keeps_grantSession [flow_rules]:
  "native_contract key_of opts host \<Longrightarrow> keeps (hosted key_of) (grantSession opts cf token timeout r)"
  unfolding grantSession_def Let_def
  by (auto intro!: flow_rules intro: native_contractD(1) store_step.activate store_step.relinquishForRestart)

lemma keeps_prepareAdmission [flow_rules]:
  "native_contract key_of opts host \<Longrightarrow> keeps (hosted key_of) (prepareAdmission opts host n cf token a inp)"
  unfolding prepareAdmission_def by (auto split: broker_admission.split prod.split intro!: flow_rules)

lemma keeps_failAdmittedPreparation [flow_rules]:
  "native_contract key_of opts host \<Longrightarrow> keeps (hosted key_of) (failAdmittedPreparation opts k f)"
  unfolding failAdmittedPreparation_def
  by (auto split: option.split intro!: flow_rules intro: store_step.fail)

lemma keeps_recordRefusal [flow_rules]: "keeps (hosted key_of) (recordRefusal opts cf fp i f)"
  unfolding recordRefusal_def
  by (auto split: sum.split thrown_error.split intro!: flow_rules intro: store_step.recordPreAdmissionFailure)

lemma keeps_handlePreparationFailure [flow_rules]:
  "native_contract key_of opts host \<Longrightarrow>
   keeps (hosted key_of) (handlePreparationFailure opts host cf token fp i admitted e)"
  unfolding handlePreparationFailure_def Let_def
  by (auto split: option.split thrown_error.split intro!: flow_rules)

lemma keeps_replay [flow_rules]: "keeps (hosted key_of) (replay host cf fp token i q)"
  unfolding replay_def Let_def by (auto intro!: flow_rules)

lemma keeps_estimateReadiness [flow_rules]: "keeps (hosted key_of) (estimateReadiness inp)"
  unfolding estimateReadiness_def
  by (intro flow_rules hosted.meets_awaiting) (auto intro: hosted.R_refl)

subsection \<open>Promises\<close>

text \<open>A flow that answers a promise: the promise keeps to the transactions as well.\<close>

abbreviation promising ::
  "(scope_identity \<Rightarrow> string) \<Rightarrow> ('e, ('d, 'a) flow) flow \<Rightarrow> bool" where
  "promising key_of m \<equiv>
     meets (hosted key_of) m (\<lambda>_ r _. \<forall>promise. r = Inr promise \<longrightarrow> keeps (hosted key_of) promise)"

lemma promising_answer [flow_rules]: "keeps (hosted key_of) m \<Longrightarrow> promising key_of (answer m)"
  by (rule hosted.meets_answer) simp

lemma promising_throw [flow_rules]: "promising key_of (throw e)"
  by (rule hosted.meets_throw) simp

lemma promising_andThen [flow_rules]:
  "keeps (hosted key_of) m \<Longrightarrow> (\<And>x. promising key_of (f x)) \<Longrightarrow> promising key_of (andThenF m f)"
  by (rule hosted.meets_andThen) auto

lemma promising_catching [flow_rules]:
  "promising key_of m \<Longrightarrow> (\<And>e. promising key_of (h e)) \<Longrightarrow> promising key_of (catching m h)"
  by (rule hosted.meets_catching [where P = "\<lambda>_ r _. \<forall>p. r = Inr p \<longrightarrow> keeps (hosted key_of) p"
        and N = "\<lambda>_ _ r _. \<forall>p. r = Inr p \<longrightarrow> keeps (hosted key_of) p"]) auto

lemma promising_lastly [flow_rules]:
  "promising key_of m \<Longrightarrow> (\<And>s. hosted key_of s (f s)) \<Longrightarrow> promising key_of (lastly m f)"
  by (rule hosted.meets_lastly) auto

lemma keeps_promise [flow_rules]: "promising key_of m \<Longrightarrow> keeps (hosted key_of) (andThenF m (\<lambda>p. p))"
proof (rule meetsI)
  fix s mv r s' mv'
  assume m: "promising key_of m" and fair: "fair (hosted key_of) mv"
    and run: "andThenF m (\<lambda>p. p) s mv = (r, s', mv')"
  obtain r1 s1 mv1 where one: "m s mv = (r1, s1, mv1)" by (metis surj_pair)
  note first = meetsD [OF m fair one]
  show "fair (hosted key_of) mv' \<and> hosted key_of s s' \<and> True"
  proof (cases r1)
    case (Inl e)
    then show ?thesis using run one first by (auto simp: andThenF_def)
  next
    case (Inr p)
    then have two: "p s1 mv1 = (r, s', mv')" using run one by (simp add: andThenF_def)
    have "keeps (hosted key_of) p" using first Inr by simp
    from meetsD [OF this _ two] first show ?thesis using hosted.R_trans by blast
  qed
qed

lemma promising_attemptPreparation:
  assumes "native_contract key_of opts host"
  shows "promising key_of (attemptPreparation opts host n cf token fp i startedAt)"
proof -
  have "ho_newId host now \<noteq> []" for now using assms by (simp add: native_contract_def)
  then show ?thesis
    unfolding attemptPreparation_def Let_def
    using assms by (auto split: option.split broker_admission.split intro!: flow_rules dest!: admitNew_step [rotated])
qed

lemma promising_onPreparationError:
  assumes "native_contract key_of opts host"
  shows "promising key_of (onPreparationError opts host cf token fp i thrown)"
  unfolding onPreparationError_def
  using assms by (auto split: prod.split thrown_error.split err.split intro!: flow_rules)

lemma keeps_prepare [flow_rules]:
  "native_contract key_of opts host \<Longrightarrow> keeps (hosted key_of) (prepare opts host n cf token i)"
  unfolding prepare_def prepareOnce_def Let_def
  by (auto split: prod.split intro!: flow_rules
      intro: promising_attemptPreparation promising_onPreparationError)

subsection \<open>Release, recovery, hand-over\<close>

lemma keeps_releaseOnce [flow_rules]:
  "native_contract key_of opts host \<Longrightarrow> keeps (hosted key_of) (releaseOnce opts host u b found)"
  unfolding releaseOnce_def
  by (auto split: option.split disposition.split intro!: flow_rules dest!: store_step.releaseByDestruction)

lemma keeps_releaseTracked [flow_rules]:
  "native_contract key_of opts host \<Longrightarrow> keeps (hosted key_of) (releaseTracked opts host u b)"
  unfolding releaseTracked_def by (auto intro!: flow_rules intro: store_step.beginRelease)

lemma keeps_boundedReleaseReply [flow_rules]:
  "native_contract key_of opts host \<Longrightarrow> keeps (hosted key_of) (boundedReleaseReply opts host u budget took)"
  unfolding boundedReleaseReply_def by (auto intro!: flow_rules intro: store_step.beginRelease)

lemma keeps_commitOwnerExit [flow_rules]: "keeps (hosted key_of) (commitOwnerExit opts u)"
  unfolding commitOwnerExit_def by (auto split: option.split intro!: flow_rules intro: store_step.fail)

lemma keeps_releaseAfterOwnerExit [flow_rules]: "keeps (hosted key_of) (releaseAfterOwnerExit opts u)"
  unfolding releaseAfterOwnerExit_def by (auto split: option.split prod.split intro!: flow_rules)

lemma keeps_finishOwnerExit [flow_rules]:
  "native_contract key_of opts host \<Longrightarrow> keeps (hosted key_of) (finishOwnerExit opts u exit)"
  unfolding finishOwnerExit_def by (auto intro!: flow_rules intro: native_contractD(2))

lemma keeps_release [flow_rules]:
  "native_contract key_of opts host \<Longrightarrow> keeps (hosted key_of) (release opts host u exited budget took)"
  unfolding release_def by (auto intro!: flow_rules)

lemma keeps_drainAbandonedSession [flow_rules]:
  "native_contract key_of opts host \<Longrightarrow> keeps (hosted key_of) (drainAbandonedSession opts u)"
  unfolding drainAbandonedSession_def by (auto intro!: flow_rules intro: native_contractD(2))

lemma keeps_abandonRequest [flow_rules]:
  "native_contract key_of opts host \<Longrightarrow> keeps (hosted key_of) (abandonRequest opts host k token)"
  unfolding abandonRequest_def by (auto split: prod.split intro!: flow_rules intro: store_step.abandon)

lemma keeps_recoverRestartHandoff [flow_rules]:
  "native_contract key_of opts host \<Longrightarrow> keeps (hosted key_of) (recoverRestartHandoff opts host q)"
  unfolding recoverRestartHandoff_def
  by (auto split: option.split intro!: flow_rules intro: native_contractD(6) store_step.adoptRestartHandoff)

lemma keeps_recoverOwnedRequest [flow_rules]:
  "native_contract key_of opts host \<Longrightarrow> keeps (hosted key_of) (recoverOwnedRequest opts q)"
  unfolding recoverOwnedRequest_def
  by (auto split: option.split intro!: flow_rules
      intro: native_contractD(6) store_step.beginRelease store_step.failInterruptedAcquisition)

lemma keeps_recoverOneRequest [flow_rules]:
  "native_contract key_of opts host \<Longrightarrow> keeps (hosted key_of) (recoverOneRequest opts host q)"
  unfolding recoverOneRequest_def by (auto intro!: flow_rules intro: store_step.recoverRequest)

lemma keeps_recoverEach [flow_rules]:
  "native_contract key_of opts host \<Longrightarrow> keeps (hosted key_of) (recoverEach opts host qs)"
  by (induction qs) (auto intro!: flow_rules)

lemma keeps_recoverResource [flow_rules]:
  "native_contract key_of opts host \<Longrightarrow> keeps (hosted key_of) (recoverResource opts host r found)"
  unfolding recoverResource_def by (auto split: option.split intro!: flow_rules)

lemma keeps_recover [flow_rules]:
  "native_contract key_of opts host \<Longrightarrow> keeps (hosted key_of) (recover opts host)"
  unfolding recover_def recoverReceipts_def recoverCleanup_def
  by (auto split: prod.split intro!: flow_rules)

lemma keeps_markRestartHandoff [flow_rules]: "keeps (hosted key_of) (markRestartHandoff opts)"
  unfolding markRestartHandoff_def relinquishing_def
  by (auto intro!: flow_rules intro: store_step.relinquishForRestart)

lemma keeps_close [flow_rules]:
  "native_contract key_of opts host \<Longrightarrow> keeps (hosted key_of) (close opts host)"
  unfolding close_def by (auto intro!: flow_rules)

lemma keeps_drainEach [flow_rules]:
  "native_contract key_of opts host \<Longrightarrow> keeps (hosted key_of) (drainEach opts ts)"
  by (induction ts) (auto intro!: flow_rules)

lemma keeps_drainPool [flow_rules]:
  "native_contract key_of opts host \<Longrightarrow> keeps (hosted key_of) (drainPool opts observed)"
  unfolding drainPool_def by (auto intro!: flow_rules intro: store_step.drainIdle)

lemma keeps_drainIdlePoolF [flow_rules]:
  "native_contract key_of opts host \<Longrightarrow> keeps (hosted key_of) (drainIdlePoolF opts)"
  unfolding drainIdlePoolF_def by (auto split: prod.split intro!: flow_rules)

lemma keeps_expireIdlePoolF [flow_rules]:
  "native_contract key_of opts host \<Longrightarrow> keeps (hosted key_of) (expireIdlePoolF opts ttl observed)"
  unfolding expireIdlePoolF_def sweepF_def by (auto split: prod.split intro!: flow_rules)

lemma keeps_authorizedExport [flow_rules]: "keeps (hosted key_of) (authorizedExport host p d token)"
  unfolding authorizedExport_def by (auto split: option.split intro!: flow_rules)

lemma keeps_acknowledgeExportF [flow_rules]: "keeps (hosted key_of) (acknowledgeExportF host p d token)"
  unfolding acknowledgeExportF_def
  by (auto split: option.split intro!: flow_rules intro: store_step.acknowledgeExport)

lemma keeps_pruneReceipts [flow_rules]: "keeps (hosted key_of) (pruneReceipts opts)"
  unfolding pruneReceipts_def by (auto intro!: flow_rules intro: store_step.pruneTerminalRequests)

lemma keeps_status [flow_rules]: "keeps (hosted key_of) (status k)"
  unfolding status_def by (auto split: option.split intro!: flow_rules)

lemma keeps_ignoring [flow_rules]: "keeps (hosted key_of) m \<Longrightarrow> keeps (hosted key_of) (ignoring m)"
  unfolding ignoring_def by (intro flow_rules)

lemma keeps_perform [flow_rules]:
  "native_contract key_of opts host \<Longrightarrow> keeps (hosted key_of) (perform opts host n c)"
  by (cases c) (auto intro!: flow_rules)

section \<open>A host for the witnesses\<close>

text \<open>
  A native side that binds, drains and resets through registry transactions, on a host that reuses
  clean devices.
\<close>

definition attempt :: "('r \<times> broker_db) res \<Rightarrow> broker_db \<Rightarrow> broker_db" where
  "attempt r db = (case r of Inr (_, db') \<Rightarrow> db' | Inl _ \<Rightarrow> db)"

definition demo_bind :: "resource_row \<Rightarrow> broker_db \<Rightarrow> broker_db" where
  "demo_bind r db =
     (let db1 = attempt (initBinding 102 (binding_of r) \<lparr>bi_role = ''r'', bi_platform = Ios, bi_requested = None\<rparr> db) db;
          db2 = attempt (commitBinding 103 (binding_of r) \<lparr>be_generation = 0, be_device = None\<rparr>
                  (demo_commit (Some ''watch-1'') Ready) db1) db1 in
      attempt (claimExecution (\<lambda>_. True) 104 (binding_of r)
        \<lparr>be_generation = 1, be_device = Some ''watch-1''\<rparr> demo_exec None db2) db2)"

definition demo_watch :: watch_profile where
  "demo_watch = \<lparr>wp_runtime = ''watchOS-11'', wp_deviceType = ''Series-10''\<rparr>"

definition demo_devices :: device_port where
  "demo_devices =
     \<lparr>dp_managesResetBootSlots = False,
      dp_prepare = (\<lambda>r _ s. (Inr \<lparr>pp_sessionId = ''s1'', pp_profile = PWatch demo_watch, pp_timing = None\<rparr>,
        s\<lparr>wd_db := demo_bind r (wd_db s)\<rparr>)),
      dp_release = (\<lambda>u s. (Inr True,
        s\<lparr>wd_db := attempt (releaseExecution 107 demo_binding u (wd_db s)) (wd_db s)\<rparr>)),
      dp_destroy = (\<lambda>_ s. (Inr NativePending, s)),
      dp_reset = Some (\<lambda>_ s. (Inr (Inr ResetClean, []), s))\<rparr>"

definition demo_options :: broker_options where
  "demo_options =
     \<lparr>bo_devices = demo_devices, bo_owner = demo_process, bo_limits = demo_limits,
      bo_catalog = (\<lambda>_ s. (Inr (CatWatch
        \<lparr>wt_provenance = \<lparr>cp_source = ''simctl'', cp_revision = ''1'', cp_state = CatalogReady, cp_message = None\<rparr>,
         wt_runtimes = [\<lparr>wc_runtime = ''watchOS-11'', wc_osVersion = Some ''11'', wc_installed = True\<rparr>],
         wt_deviceTypes = [(''Series-10'', ''Apple Watch Series 10'')]\<rparr>), s)),
      bo_defaults = (\<lambda>_. undefined), bo_sessionDisposition = None, bo_reuseCleanDevices = True,
      bo_reuseAndroidCleanDevices = True, bo_receiptRetentionMs = None, bo_exportRetentionMs = None,
      bo_releaseReplyBudgetMs = None\<rparr>"

definition demo_host :: broker_host where
  "demo_host =
     \<lparr>ho_localeCompare = plain_compare, ho_sha = (\<lambda>_. ''fq1''), ho_live = (\<lambda>_. True),
      ho_newId = (\<lambda>_. ''r1''), ho_scope = demo_scope, ho_pretty = (\<lambda>_. []),
      ho_requirementJson = (\<lambda>_. JNull), ho_provenanceJson = (\<lambda>_. JNull),
      ho_watchRequirementJson = (\<lambda>_. JNull), ho_nativeError = (\<lambda>_. ([], TUndefined)),
      ho_bootSlot = (\<lambda>s. (Inr (), s)), ho_pause = (\<lambda>_ w. (None, w))\<rparr>"

definition demo_config :: session_config where
  "demo_config = \<lparr>cf_requestId = ''q1'',
     cf_device = RWatch \<lparr>wr_runtime = ''watchOS-11'', wr_deviceType = ''Series-10''\<rparr>,
     cf_preparationTimeoutMs = None, cf_idleTimeoutMs = None, cf_executionOwnerPid = None, cf_json = JNull\<rparr>"

definition demo_scene :: "broker_db \<Rightarrow> scene" where
  "demo_scene db = \<lparr>wd_db = db, wd_now = 101, wd_readiness = \<lparr>rd_active = {}, rd_waiters = []\<rparr>,
     wd_aborted = None, sc_stopping = False, sc_preparations = (\<lambda>_. 0), sc_releases = [],
     sc_queued = [], sc_maintenance = False, sc_inFlight = no_work, sc_intents = []\<rparr>"

lemma attempt_step:
  "(\<And>x db'. r = Inr (x, db') \<Longrightarrow> registry_step key_of db db') \<Longrightarrow> (registry_step key_of)\<^sup>*\<^sup>* db (attempt r db)"
  by (auto simp: attempt_def split: sum.split)

lemma demo_bind_steps: "(registry_step key_of)\<^sup>*\<^sup>* db (demo_bind r db)"
proof -
  have init: "(registry_step key_of)\<^sup>*\<^sup>* d (attempt (initBinding now k i d) d)" for now k i and d :: broker_db
    by (rule attempt_step) (rule registry_step.initBinding)
  have commit: "(registry_step key_of)\<^sup>*\<^sup>* d (attempt (commitBinding now k e c d) d)" for now k e c and d :: broker_db
    by (rule attempt_step) (rule registry_step.commitBinding)
  have claim: "(registry_step key_of)\<^sup>*\<^sup>* d (attempt (claimExecution live now k e x w d) d)"
    for live now k e x w and d :: broker_db
    by (rule attempt_step) (rule registry_step.claimExecution)
  show ?thesis
    unfolding demo_bind_def Let_def
    by (rule rtranclp_trans [OF init rtranclp_trans [OF commit claim]])
qed

lemma demo_contract: "native_contract plain_scope_key demo_options demo_host"
proof -
  have "(registry_step plain_scope_key)\<^sup>*\<^sup>* db (attempt (releaseExecution now k u db) db)" for now k u and db :: broker_db
    by (rule attempt_step) (rule registry_step.releaseExecution)
  then show ?thesis
    using demo_bind_steps [of plain_scope_key]
    by (simp add: native_contract_def native_call_def demo_options_def demo_devices_def demo_host_def)
qed

end
