(* ===== verification/BrokerReplyTheorems.thy ===== *)
theory BrokerReplyTheorems
  imports BrokerFlowTheorems
begin

text \<open>
  A reply that says a session is ready tells the truth: at some moment of the call the receipt of the
  request was active with that session. Every path is covered: a replay, an admission that finds a
  receipt of its own, a grant, a grant read again after an abort, and the paths of a failure.
\<close>

section \<open>What backs a reply\<close>

definition active_receipt :: "string \<Rightarrow> string option \<Rightarrow> broker_db \<Rightarrow> bool" where
  "active_receipt k session db \<longleftrightarrow>
     (\<exists>q. readRequest db k = Some q \<and> rq_state q = RActive \<and> rq_session q = session)"

definition backed :: "string \<Rightarrow> broker_reply \<Rightarrow> scene \<Rightarrow> bool" where
  "backed k reply t \<longleftrightarrow>
     (ry_outcome reply = ReplyReady \<longrightarrow> active_receipt k (ry_sessionUuid reply) (wd_db t))"

text \<open>\<open>reply\<close> says of \<open>q\<close> what \<open>q\<close> is.\<close>

definition says :: "request_row \<Rightarrow> broker_reply \<Rightarrow> bool" where
  "says q reply \<longleftrightarrow> (ry_outcome reply = ReplyReady \<longrightarrow> rq_state q = RActive \<and> rq_session q = ry_sessionUuid reply)"

definition row_of :: "string \<Rightarrow> request_row \<Rightarrow> scene \<Rightarrow> bool" where
  "row_of k q t \<longleftrightarrow> readRequest (wd_db t) k = Some q"

lemma says_backed: "row_of k q t \<Longrightarrow> says q reply \<Longrightarrow> backed k reply t"
  by (auto simp: row_of_def says_def backed_def active_receipt_def)

lemma not_ready_backed: "ry_outcome reply \<noteq> ReplyReady \<Longrightarrow> backed k reply t"
  by (simp add: backed_def)

lemma brokerResult_says: "brokerResult q timing r b = Inr reply \<Longrightarrow> says q reply"
  by (auto simp: brokerResult_def Let_def says_def outcomeOf_def split: request_state.splits)

section \<open>Reading rows\<close>

lemma updateRequest_reads: "updateRequest now k st f db = Inr (q, db') \<Longrightarrow> readRequest db' k = Some q"
  by (auto simp: updateRequest_def Let_def orThrow_def split: option.splits)

lemma reserve_reads:
  assumes "reserve lc now newId scope q inp db = Inr (a, db')"
  shows "readRequest db' (rq_id q) = Some (admissionRequest a)"
proof -
  obtain d where d: "reserveDecision lc (rq_id q) inp db = Inr d" using assms by (auto simp: reserve_def)
  show ?thesis
    using assms d
    by (cases d) (auto simp: reserve_def finish_reserve_def admissionRequest_def dest: updateRequest_reads)
qed

lemma linkExport_reads: "linkExport k i now db = Inr db' \<Longrightarrow> readRequest db' l = readRequest db l"
  by (auto simp: readRequest_def dest: linkExport_keeps)

lemma admitNew_reads:
  assumes "admitNew host now inp db = Inr (a, db')"
  shows "readRequest db' (ai_requestId inp) = Some (admissionRequest a)"
proof (cases "readRequest db (ai_requestId inp)")
  case None
  then obtain db1 where "reserve (ho_localeCompare host) now (ho_newId host now) (ho_scope host)
      (fresh_request (ai_requestId inp) (ai_fingerprint inp) (ai_parameters inp) (ai_owner inp) Acquiring)
      inp db1 = Inr (a, db')"
    using assms by (auto simp: admitNew_def admit_def Let_def)
  from reserve_reads [OF this] show ?thesis by (simp add: fresh_request_def)
next
  case (Some q)
  then show ?thesis
    using assms by (auto simp: admitNew_def admit_def admissionRequest_def linkExport_reads split: if_splits)
qed

lemma continueAdmission_reads:
  assumes "continueAdmission lc now newId scope inp db = Inr (a, db')"
  shows "readRequest db' (ai_requestId inp) = Some (admissionRequest a)"
proof -
  obtain q where q: "readRequest db (ai_requestId inp) = Some q" "reserve lc now newId scope q inp db = Inr (a, db')"
    using assms by (auto simp: continueAdmission_def ownedRequest_def split: if_splits option.splits)
  have "rq_id q = ai_requestId inp" using request_table.get_key [OF q(1)] .
  then show ?thesis using reserve_reads [OF q(2)] by simp
qed

lemma activate_reads: "activate now k owner u ph pr db = Inr (q, db') \<Longrightarrow> readRequest db' k = Some q"
  by (auto simp: activate_def ownedRequest_def dest: updateRequest_reads split: if_splits option.splits)

lemma recordPreAdmissionFailure_reads:
  assumes "recordPreAdmissionFailure now inp f db = Inr (q, db')"
  shows "readRequest db' (ai_requestId inp) = Some q"
proof (cases "readRequest db (ai_requestId inp)")
  case None
  then show ?thesis
    using assms
    by (auto simp: recordPreAdmissionFailure_def Let_def failure_set_def fresh_request_def insertRequest_def
        linkExport_reads readRequest_def get_row_snoc dest!: linkExport_keeps split: prod.splits)
next
  case (Some p)
  then show ?thesis
    using assms by (auto simp: recordPreAdmissionFailure_def linkExport_reads split: if_splits)
qed

section \<open>Flows that vouch\<close>

abbreviation vouching ::
  "(scope_identity \<Rightarrow> string) \<Rightarrow> string \<Rightarrow> (thrown_error, broker_reply) flow \<Rightarrow> bool" where
  "vouching key_of k m \<equiv> hosted.vouches key_of (\<lambda>_. False) (backed k) m"

lemma vouches_transaction:
  assumes "\<And>now db x db'. tx now db = Inr (x, db') \<Longrightarrow> store_step db db' \<and> Q x db'"
  shows "hosted.vouches key_of (\<lambda>_. False) (\<lambda>x t. Q x (wd_db t)) (transaction tx)"
  unfolding hosted.vouches_def transaction_def
proof (rule hosted.meets_awaiting)
  have step: "hosted key_of s s'" "x = Inr y \<longrightarrow> Q y (wd_db s')"
    if "(case tx (wd_now s) (wd_db s) of Inl e \<Rightarrow> (Inl (Plain e), s)
        | Inr (x, db) \<Rightarrow> (Inr x, s\<lparr>wd_db := db\<rparr>)) = (x, s')" for s :: scene and x y s'
    using that assms by (auto simp: hosted_def broker_step_def split: sum.splits prod.splits)
  then show "hosted key_of s s'"
    if "(case tx (wd_now s) (wd_db s) of Inl e \<Rightarrow> (Inl (Plain e), s)
        | Inr (x, db) \<Rightarrow> (Inr x, s\<lparr>wd_db := db\<rparr>)) = (x, s')" for s :: scene and x s'
    using that by blast
  fix s s1 s2 s' :: scene and r
  assume before: "hosted key_of s s1" and after: "hosted key_of s2 s'"
    and run: "(case tx (wd_now s1) (wd_db s1) of Inl e \<Rightarrow> (Inl (Plain e), s1)
        | Inr (x, db) \<Rightarrow> (Inr x, s1\<lparr>wd_db := db\<rparr>)) = (r, s2)"
  show "\<forall>x. r = Inr x \<longrightarrow> False \<or> hosted.once key_of (\<lambda>t. Q x (wd_db t)) s s'"
    using step [OF run] before after hosted.R_trans unfolding hosted.once_def by blast
qed simp

lemma vouches_says:
  "hosted.vouches key_of (says q) P (resultWith q timing)"
  unfolding resultWith_def
  by (rule hosted.vouches_later, rule flow_rules, rule hosted.vouches_later, rule flow_rules,
      rule hosted.vouches_lifted, rule brokerResult_says)

lemma vouches_replyOf: "hosted.vouches key_of (says q) P (replyOf q)"
  unfolding replyOf_def by (rule vouches_says)

lemma vouches_then:
  assumes "hosted.vouches key_of F P m" and "\<And>x. keeps (hosted key_of) (f x)"
  shows "hosted.vouches key_of F P (andThenF m (\<lambda>x. andThenF (f x) (\<lambda>_. answer x)))"
proof (rule hosted.vouches_mapped [OF assms(1)])
  fix x
  show "hosted.vouches key_of F P (andThenF (f x) (\<lambda>_. answer x))" if "F x"
    by (rule hosted.vouches_later [OF assms(2)]) (rule hosted.vouches_answer, rule that)
  show "hosted.vouches key_of (\<lambda>y. F y \<or> (\<forall>t. P x t \<longrightarrow> P y t)) P (andThenF (f x) (\<lambda>_. answer x))"
    by (rule hosted.vouches_later [OF assms(2)]) (rule hosted.vouches_answer, simp)
qed

lemma vouches_resultUnlessAborted: "hosted.vouches key_of (says q) P (resultUnlessAborted q)"
  unfolding resultUnlessAborted_def by (rule vouches_then [OF vouches_replyOf]) (rule flow_rules)

lemma vouches_reread: "hosted.vouches key_of (\<lambda>y. y = reply) (backed k) (rereadIfSuperseded reply k)"
proof -
  have "hosted.vouches key_of (\<lambda>y. y = reply) (backed k)
    (case latest of None \<Rightarrow> answer reply | Some q \<Rightarrow> if rq_state q \<noteq> RActive then replyOf q else answer reply)"
    for latest
  proof (cases "\<exists>q. latest = Some q \<and> rq_state q \<noteq> RActive")
    case True
    then obtain q where q: "latest = Some q" "rq_state q \<noteq> RActive" by blast
    have "hosted.vouches key_of (\<lambda>y. y = reply) (backed k) (replyOf q)"
      using q(2) by (intro hosted.vouches_weaken [OF vouches_replyOf [where P = "\<lambda>_ _. False"]])
        (auto simp: says_def intro: not_ready_backed)
    then show ?thesis using q by simp
  next
    case False
    then show ?thesis by (auto split: option.split intro: hosted.vouches_answer)
  qed
  then show ?thesis
    unfolding rereadIfSuperseded_def by (intro hosted.vouches_later flow_rules)
qed

lemma vouches_readGrant: "hosted.vouches key_of (says q) (backed k) (readGrant q k)"
proof -
  have tail: "hosted.vouches key_of (says c) (backed k) (andThenF (replyOf c) (\<lambda>reply.
      if ry_outcome reply = ReplyReady then rereadIfSuperseded reply k else answer reply))" for c
  proof (rule hosted.vouches_mapped [OF vouches_replyOf [where P = "\<lambda>_ _. False"]])
    fix reply assume "says c reply"
    then show "hosted.vouches key_of (says c) (backed k)
      (if ry_outcome reply = ReplyReady then rereadIfSuperseded reply k else answer reply)"
      by (auto intro: hosted.vouches_answer hosted.vouches_weaken [OF vouches_reread])
  next
    fix reply
    show "hosted.vouches key_of (\<lambda>y. says c y \<or> (\<forall>t. False \<longrightarrow> backed k y t)) (backed k)
      (if ry_outcome reply = ReplyReady then rereadIfSuperseded reply k else answer reply)"
      by (rule hosted.vouches_by) (auto intro!: flow_rules)
  qed
  have current: "hosted.vouches key_of (\<lambda>c. c = q) (row_of k)
      (if reason = None then answer q
       else andThenF (query (\<lambda>db. readRequest db k)) (\<lambda>latest.
            answer (case latest of None \<Rightarrow> q | Some l \<Rightarrow> l)))" for reason :: "err option"
  proof (cases reason)
    case (Some e)
    have "hosted.vouches key_of (\<lambda>c. c = q) (row_of k)
      (andThenF (query (\<lambda>db. readRequest db k)) (\<lambda>latest. answer (case latest of None \<Rightarrow> q | Some l \<Rightarrow> l)))"
    proof (rule hosted.vouches_andThen [OF hosted.vouches_query])
      show "hosted.vouches key_of (\<lambda>y. y = q \<or> latest = Some y) (row_of k)
          (answer (case latest of None \<Rightarrow> q | Some l \<Rightarrow> l))" for latest
        by (rule hosted.vouches_answer) (auto split: option.split)
    qed (simp add: row_of_def)
    then show ?thesis using Some by simp
  qed (simp add: hosted.vouches_answer)
  show ?thesis
    unfolding readGrant_def
  proof (rule hosted.vouches_later [OF hosted.keeps_look], rule hosted.vouches_mapped [OF current])
    show "hosted.vouches key_of (says q) (backed k) (andThenF (replyOf c) (\<lambda>reply.
      if ry_outcome reply = ReplyReady then rereadIfSuperseded reply k else answer reply))"
      if "c = q" for c using tail that by simp
    show "hosted.vouches key_of (\<lambda>y. says q y \<or> (\<forall>t. row_of k c t \<longrightarrow> backed k y t)) (backed k)
      (andThenF (replyOf c) (\<lambda>reply.
        if ry_outcome reply = ReplyReady then rereadIfSuperseded reply k else answer reply))" for c
      by (rule hosted.vouches_weaken [OF tail]) (auto intro: says_backed)
  qed
qed

lemma vouching_grantSession:
  assumes "native_contract key_of opts host"
  shows "vouching key_of (cf_requestId cf) (grantSession opts cf token timeout r)"
proof -
  let ?k = "cf_requestId cf"
  have activated: "hosted.vouches key_of (\<lambda>_. False) (row_of ?k)
      (transaction (\<lambda>now db. activate now ?k (bo_owner opts) u ph pr db))" for u ph pr
    using vouches_transaction [where key_of = key_of and Q = "\<lambda>q db. readRequest db ?k = Some q"
        and tx = "\<lambda>now db. activate now ?k (bo_owner opts) u ph pr db"]
    by (auto simp: row_of_def [abs_def] intro: store_step.activate activate_reads)
  have rest: "hosted.vouches key_of (\<lambda>y. False \<or> says q y) (backed ?k)
      (andThenF (look sc_stopping) (\<lambda>stopping.
       andThenF (if stopping
          then catching (andThenF (transaction (\<lambda>now db. relinquishForRestart now ?k (bo_owner opts) db))
                           (\<lambda>_. answer ())) (\<lambda>_. answer ())
          else answer ()) (\<lambda>_.
       catching (andThenF (logReadyAcquisition q r) (\<lambda>_. readGrant q ?k))
         (\<lambda>e. throw (CommittedReceiptRead ?k e)))))" for q
  proof (rule hosted.vouches_later [OF hosted.keeps_look], rule hosted.vouches_later)
    show "keeps (hosted key_of) (if stopping
          then catching (andThenF (transaction (\<lambda>now db. relinquishForRestart now ?k (bo_owner opts) db))
                           (\<lambda>_. answer ())) (\<lambda>_. answer ())
          else answer ())" for stopping
      by (auto intro!: flow_rules intro: store_step.relinquishForRestart)
  next
    show "hosted.vouches key_of (\<lambda>y. False \<or> says q y) (backed ?k)
      (catching (andThenF (logReadyAcquisition q r) (\<lambda>_. readGrant q ?k)) (\<lambda>e. throw (CommittedReceiptRead ?k e)))"
      using hosted.vouches_catching [OF hosted.vouches_later [OF keeps_logReadyAcquisition vouches_readGrant]
        hosted.vouches_throw] by simp
  qed
  show ?thesis
    unfolding grantSession_def Let_def
    by (rule hosted.vouches_later [OF hosted.keeps_throwIfAborted],
        rule hosted.vouches_later [OF native_contractD(1) [OF assms]],
        rule hosted.vouches_later [OF hosted.keeps_throwIfAborted],
        rule hosted.vouches_andThen [OF activated rest], rule says_backed)
qed

lemma vouches_admitting:
  assumes "\<And>now i db a db'. tx now i db = Inr (a, db') \<Longrightarrow>
      store_step db db' \<and> readRequest db' (ai_requestId i) = Some (admissionRequest a)"
  shows "hosted.vouches key_of (\<lambda>_. False) (\<lambda>a. row_of (ai_requestId inp) (admissionRequest a)) (admitting tx inp)"
  unfolding hosted.vouches_def admitting_def
proof (rule hosted.meets_awaiting)
  let ?act = "\<lambda>s. case tx (wd_now s) (liveInput s inp) (wd_db s) of Inl e \<Rightarrow> (Inl (Plain e), s)
        | Inr (a, db) \<Rightarrow> (Inr a, reserving inp a (s\<lparr>wd_db := db\<rparr>))"
  have step: "hosted key_of s s'" "\<forall>a. x = Inr a \<longrightarrow> row_of (ai_requestId inp) (admissionRequest a) s'"
    if "?act s = (x, s')" for s :: scene and x s'
  proof -
    have id: "ai_requestId (liveInput s inp) = ai_requestId inp" by (simp add: liveInput_def)
    show "hosted key_of s s'" "\<forall>a. x = Inr a \<longrightarrow> row_of (ai_requestId inp) (admissionRequest a) s'"
      using that assms [of "wd_now s" "liveInput s inp" "wd_db s"] id
      by (auto simp: hosted_def broker_step_def row_of_def split: sum.splits prod.splits)
  qed
  then show "?act s = (x, s') \<Longrightarrow> hosted key_of s s'" for s x s' by blast
  fix s s1 s2 s' :: scene and r
  assume "hosted key_of s s1" "hosted key_of s2 s'" and run: "?act s1 = (r, s2)"
  then show "\<forall>a. r = Inr a \<longrightarrow> False \<or>
      hosted.once key_of (row_of (ai_requestId inp) (admissionRequest a)) s s'"
    using step [OF run] hosted.R_trans unfolding hosted.once_def by blast
qed simp

lemma vouches_waitForReadiness:
  assumes "native_contract key_of opts host"
  shows "hosted.vouches key_of (\<lambda>(a, t). a = initial)
    (\<lambda>(a, t). row_of (ai_requestId inp) (admissionRequest a)) (waitForReadiness host initial inp timeout)"
  unfolding hosted.vouches_def
proof (rule meetsI)
  fix s mv r s' mv'
  assume fair: "fair (hosted key_of) mv"
    and run: "waitForReadiness host initial inp timeout s mv = (r, s', mv')"
  note kept = meetsD [OF keeps_waitForReadiness [OF assms] fair run]
  obtain fault s1 mv1 where t1: "turn s mv = (fault, s1, mv1)" by (metis surj_pair)
  obtain r0 w where w: "continueAfterWait (ho_localeCompare host) (ho_newId host (wd_now s1)) (ho_scope host)
      (ho_pause host) initial inp timeout (world.truncate s1) = (r0, w)" by (metis surj_pair)
  have vouch: "a = initial \<or> hosted.once key_of (row_of (ai_requestId inp) (admissionRequest a)) s s'"
    if r: "r = Inr (a, t)" for a t
  proof (cases "a = initial")
    case False
    have fault: "fault = None"
      using run t1 r by (cases fault) (auto simp: waitForReadiness_def awaiting_def split: prod.splits)
    then have r0: "r0 = Inr (a, t)" and s2: "\<exists>g. turn (world.extend w (world.more s1)) mv1 = (g, s', mv')"
      using run t1 w r
      by (cases r0; auto simp: waitForReadiness_def awaiting_def split: prod.splits)+
    from s2 obtain g where g: "turn (world.extend w (world.more s1)) mv1 = (g, s', mv')" by blast
    have "readRequest (wd_db w) (ai_requestId inp) = Some (admissionRequest a)"
      using w r0 False
      by (auto simp: continueAfterWait_def Let_def dest!: continueAdmission_reads
          split: broker_admission.splits prod.splits if_splits sum.splits)
    then have row: "row_of (ai_requestId inp) (admissionRequest a) (world.extend w (world.more s1))"
      by (simp add: row_of_def world.defs)
    note one = hosted.turn_meets [OF fair t1]
    note two = hosted.turn_meets [OF _ g]
    have "(broker_step key_of)\<^sup>*\<^sup>* (wd_db s1) (wd_db w)"
      using continueAfterWait_steps [OF _ _ w, of key_of] assms
      by (simp add: native_contract_def world.truncate_def)
    then have "hosted key_of s1 (world.extend w (world.more s1))"
      by (cases s1) (simp add: hosted_def world.defs scene.defs)
    then show ?thesis using row one two hosted.R_trans unfolding hosted.once_def by blast
  qed simp
  show "fair (hosted key_of) mv' \<and> hosted key_of s s' \<and>
    (\<forall>x. r = Inr x \<longrightarrow> (case x of (a, t) \<Rightarrow> a = initial) \<or>
       hosted.once key_of ((case x of (a, t) \<Rightarrow> row_of (ai_requestId inp) (admissionRequest a))) s s')"
    using kept vouch by (auto split: prod.splits)
qed

lemma vouches_evictions:
  assumes "native_contract key_of opts host"
  shows "hosted.vouches key_of (\<lambda>a. a = initial) (\<lambda>a. row_of (ai_requestId inp) (admissionRequest a))
    (evictions opts host inp n initial)"
proof (induction n arbitrary: initial)
  case 0
  then show ?case by (cases initial) (auto intro: hosted.vouches_answer hosted.vouches_throw)
next
  case (Suc n)
  show ?case
  proof (cases initial)
    case (BEvict q r)
    have newId: "ho_newId host now \<noteq> []" for now using assms by (simp add: native_contract_def)
    have again: "hosted.vouches key_of (\<lambda>_. False) (\<lambda>a. row_of (ai_requestId inp) (admissionRequest a))
        (admitting (admitAgain host) inp)"
      by (rule vouches_admitting)
        (auto simp: admitAgain_def intro: store_step.continueAdmission [OF newId] continueAdmission_reads)
    have "hosted.vouches key_of (\<lambda>a. a = initial) (\<lambda>a. row_of (ai_requestId inp) (admissionRequest a))
        (andThenF (admitting (admitAgain host) inp) (evictions opts host inp n))"
    proof (rule hosted.vouches_andThen [OF again])
      show "hosted.vouches key_of (\<lambda>y. y = initial \<or> y = a)
          (\<lambda>a. row_of (ai_requestId inp) (admissionRequest a)) (evictions opts host inp n a)" for a
        by (rule hosted.vouches_weaken [OF Suc.IH]) auto
    qed simp
    then show ?thesis
      using BEvict assms
      by (auto intro!: hosted.vouches_later flow_rules intro: hosted.vouches_throw)
  qed (auto intro: hosted.vouches_answer)
qed

lemma vouches_prepareAdmission:
  assumes "native_contract key_of opts host" and k: "ai_requestId inp = cf_requestId cf"
  shows "hosted.vouches key_of (says (admissionRequest initial)) (backed (cf_requestId cf))
    (prepareAdmission opts host n cf token initial inp)"
proof -
  let ?k = "cf_requestId cf"
  let ?core = "\<lambda>timeout b. andThenF (recordRefusedAdmission b) (\<lambda>timing. case b of
       BCreate q r \<Rightarrow> grantSession opts cf token timeout r
     | BReuse q r \<Rightarrow> grantSession opts cf token timeout r
     | _ \<Rightarrow> resultWith (admissionRequest b) timing)"
  have core: "hosted.vouches key_of (says (admissionRequest b)) (backed ?k) (?core timeout b)" for timeout b
  proof (rule hosted.vouches_later [OF keeps_recordRefusedAdmission])
    show "hosted.vouches key_of (says (admissionRequest b)) (backed ?k) (case b of
       BCreate q r \<Rightarrow> grantSession opts cf token timeout r
     | BReuse q r \<Rightarrow> grantSession opts cf token timeout r
     | _ \<Rightarrow> resultWith (admissionRequest b) timing)" for timing
      by (cases b) (auto intro: vouches_says hosted.vouches_weaken [OF vouching_grantSession [OF assms(1)]])
  qed
  have tail: "hosted.vouches key_of (says (admissionRequest a)) (backed ?k)
      (andThenF (evictions opts host inp n a) (?core timeout))" for a timeout
  proof (rule hosted.vouches_mapped [OF vouches_evictions [OF assms(1)]])
    show "hosted.vouches key_of (says (admissionRequest a)) (backed ?k) (?core timeout b)" if "b = a" for b
      unfolding that by (rule core)
    show "hosted.vouches key_of (\<lambda>y. says (admissionRequest a) y \<or>
        (\<forall>t. row_of (ai_requestId inp) (admissionRequest b) t \<longrightarrow> backed ?k y t)) (backed ?k) (?core timeout b)" for b
      by (rule hosted.vouches_weaken [OF core]) (auto simp: k intro: says_backed)
  qed
  show ?thesis
    unfolding prepareAdmission_def
  proof (rule hosted.vouches_mapped [OF vouches_waitForReadiness [OF assms(1), where inp = inp]])
    fix x :: "broker_admission \<times> rat option" assume "case x of (a, t) \<Rightarrow> a = initial"
    then show "hosted.vouches key_of (says (admissionRequest initial)) (backed ?k)
        (case x of (waited, timeout) \<Rightarrow> andThenF (evictions opts host inp n waited) (?core timeout))"
      using tail by (auto split: prod.splits)
  next
    fix x
    show "hosted.vouches key_of (\<lambda>y. says (admissionRequest initial) y \<or>
        (\<forall>t. (case x of (a, t) \<Rightarrow> row_of (ai_requestId inp) (admissionRequest a)) t \<longrightarrow> backed ?k y t)) (backed ?k)
        (case x of (waited, timeout) \<Rightarrow> andThenF (evictions opts host inp n waited) (?core timeout))"
      by (cases x) (auto simp: k intro!: hosted.vouches_weaken [OF tail] intro: says_backed)
  qed
qed

subsection \<open>Failures\<close>

lemma says_failedPreparationResult: "says q reply \<Longrightarrow> says q (failedPreparationResult p reply f)"
  by (simp add: says_def failedPreparationResult_def)

lemma vouching_failAdmittedPreparation:
  assumes "native_contract key_of opts host"
  shows "vouching key_of k (failAdmittedPreparation opts k f)"
proof -
  have reply: "hosted.vouches key_of (\<lambda>y. False \<or> (case found of None \<Rightarrow> False | Some q \<Rightarrow> says q y)) (backed k)
     (case found of
       None \<Rightarrow> throw (Plain (ActionableError
         ''Admitted session request lost its durable receipt; cleanup cannot be acknowledged''))
     | Some q \<Rightarrow>
         andThenF (recordFailedAcquisition q (receiptTiming q)) (\<lambda>timing.
         andThenF (resultWith q timing) (\<lambda>reply.
         answer (failedPreparationResult q reply f))))" for found
  proof (cases found)
    case (Some q)
    have "hosted.vouches key_of (says q) (backed k)
       (andThenF (recordFailedAcquisition q (receiptTiming q)) (\<lambda>timing.
        andThenF (resultWith q timing) (\<lambda>reply. answer (failedPreparationResult q reply f))))"
    proof (rule hosted.vouches_later [OF keeps_recordFailedAcquisition],
        rule hosted.vouches_mapped [OF vouches_says [where P = "\<lambda>_ _. False"]])
      show "hosted.vouches key_of (says q) (backed k) (answer (failedPreparationResult q reply f))"
        if "says q reply" for reply
        by (rule hosted.vouches_answer) (rule says_failedPreparationResult [OF that])
    qed (rule hosted.vouches_by, rule hosted.keeps_answer, simp)
    then show ?thesis using Some by simp
  qed (simp add: hosted.vouches_throw)
  show ?thesis
    unfolding failAdmittedPreparation_def
  proof (rule hosted.vouches_later, goal_cases)
    case 1
    show ?case by (auto intro!: flow_rules intro: store_step.fail)
  next
    case (2 ticket)
    show ?case
    proof (rule hosted.vouches_later [OF keeps_cleanupIfAny [OF assms]],
        rule hosted.vouches_andThen [OF hosted.vouches_query reply])
      fix found y and t :: scene
      assume "found = readRequest (wd_db t) k" and "case found of None \<Rightarrow> False | Some q \<Rightarrow> says q y"
      then show "backed k y t" by (auto simp: row_of_def intro: says_backed split: option.splits)
    qed
  qed
qed

lemma vouching_recordRefusal: "vouching key_of (cf_requestId cf) (recordRefusal opts cf fp i f)"
proof -
  let ?receipt = "catching
     (andThenF (transaction (\<lambda>now db. recordPreAdmissionFailure now (identityInput opts cf fp i)
         (bf_code f, bf_message f, bf_retryable f) db)) (\<lambda>q. answer (Inr q)))
     (\<lambda>e. case e of SchemaUnsupported m versions remedy \<Rightarrow> answer (Inl e) | _ \<Rightarrow> throw e)"
  let ?row = "\<lambda>x t. case x of Inl e \<Rightarrow> False | Inr q \<Rightarrow> row_of (cf_requestId cf) q t"
  have tx: "hosted.vouches key_of (\<lambda>_. False) (row_of (cf_requestId cf))
      (transaction (\<lambda>now db. recordPreAdmissionFailure now (identityInput opts cf fp i)
         (bf_code f, bf_message f, bf_retryable f) db))"
    unfolding row_of_def [abs_def]
  proof (rule vouches_transaction [where Q = "\<lambda>q db. readRequest db (cf_requestId cf) = Some q"])
    fix now db x db'
    assume run: "recordPreAdmissionFailure now (identityInput opts cf fp i)
      (bf_code f, bf_message f, bf_retryable f) db = Inr (x, db')"
    have "ai_requestId (identityInput opts cf fp i) = cf_requestId cf" by (simp add: identityInput_def)
    then show "store_step db db' \<and> readRequest db' (cf_requestId cf) = Some x"
      using store_step.recordPreAdmissionFailure [OF run] recordPreAdmissionFailure_reads [OF run] by simp
  qed
  have receipt: "hosted.vouches key_of (\<lambda>x. \<exists>e. x = Inl e) ?row ?receipt"
  proof (rule hosted.vouches_catching)
    show "hosted.vouches key_of (\<lambda>x. \<exists>e. x = Inl e) ?row
      (andThenF (transaction (\<lambda>now db. recordPreAdmissionFailure now (identityInput opts cf fp i)
         (bf_code f, bf_message f, bf_retryable f) db)) (\<lambda>q. answer (Inr q)))"
      by (rule hosted.vouches_andThen [OF tx, where G = "\<lambda>q x. x = Inr q"])
        (auto intro: hosted.vouches_answer)
  next
    show "hosted.vouches key_of (\<lambda>x. \<exists>e. x = Inl e) ?row
      (case e of SchemaUnsupported m versions remedy \<Rightarrow> answer (Inl e) | _ \<Rightarrow> throw e)" for e
      by (auto split: thrown_error.split intro: hosted.vouches_answer hosted.vouches_throw)
  qed
  show ?thesis
    unfolding recordRefusal_def
  proof (rule hosted.vouches_mapped [OF receipt])
    fix x :: "thrown_error + request_row" assume "\<exists>e. x = Inl e"
    then show "vouching key_of (cf_requestId cf) (case x of Inl e \<Rightarrow> answer (failedResult cf (failureFor e)) | Inr q \<Rightarrow> replyOf q)"
      by (auto simp: hosted.vouches_def failedResult_def intro!: hosted.meets_answer hosted.once_now not_ready_backed)
  next
    fix x
    show "hosted.vouches key_of (\<lambda>y. False \<or> (\<forall>t. ?row x t \<longrightarrow> backed (cf_requestId cf) y t))
        (backed (cf_requestId cf)) (case x of Inl e \<Rightarrow> answer (failedResult cf (failureFor e)) | Inr q \<Rightarrow> replyOf q)"
      by (cases x) (auto intro: hosted.vouches_answer hosted.vouches_weaken [OF vouches_replyOf [where P = "\<lambda>_ _. False"]]
          says_backed)
  qed
qed

lemma vouching_failedResult: "vouching key_of k (answer (failedResult cf f))"
  by (auto simp: hosted.vouches_def failedResult_def intro!: hosted.meets_answer hosted.once_now not_ready_backed)

lemma vouching_handlePreparationFailure:
  assumes "native_contract key_of opts host"
  shows "vouching key_of (cf_requestId cf) (handlePreparationFailure opts host cf token fp i admitted e)"
proof -
  let ?k = "cf_requestId cf"
  have linked: "hosted.vouches key_of (says q) (backed ?k) (andThenF (linkIfAny i q) (\<lambda>_. replyOf q))" for q
    by (rule hosted.vouches_later [OF keeps_linkIfAny vouches_replyOf])
  have refused: "vouching key_of ?k
     (andThenF (query (\<lambda>db. readRequest db ?k)) (\<lambda>committed.
      case committed of
        None \<Rightarrow> recordRefusal opts cf fp i f
      | Some q \<Rightarrow>
          if rq_code q = Some SESSION_REQUEST_ABANDONED_CODE \<and> consumerOwns host q token
          then andThenF (linkIfAny i q) (\<lambda>_. replyOf q)
          else recordRefusal opts cf fp i f))" for f
  proof (rule hosted.vouches_andThen [OF hosted.vouches_query,
        where G = "\<lambda>committed y. case committed of None \<Rightarrow> False | Some q \<Rightarrow> says q y"])
    fix committed :: "request_row option" and y and t :: scene
    assume "committed = readRequest (wd_db t) ?k" "case committed of None \<Rightarrow> False | Some q \<Rightarrow> says q y"
    then show "backed ?k y t" by (auto simp: row_of_def intro: says_backed split: option.splits)
  next
    fix committed
    show "hosted.vouches key_of (\<lambda>y. False \<or> (case committed of None \<Rightarrow> False | Some q \<Rightarrow> says q y)) (backed ?k)
      (case committed of
        None \<Rightarrow> recordRefusal opts cf fp i f
      | Some q \<Rightarrow>
          if rq_code q = Some SESSION_REQUEST_ABANDONED_CODE \<and> consumerOwns host q token
          then andThenF (linkIfAny i q) (\<lambda>_. replyOf q)
          else recordRefusal opts cf fp i f)"
      by (cases committed) (auto intro: hosted.vouches_weaken [OF linked]
          hosted.vouches_weaken [OF vouching_recordRefusal])
  qed
  show ?thesis
    unfolding handlePreparationFailure_def Let_def
    using vouching_failAdmittedPreparation [OF assms] refused vouching_failedResult
    by (auto split: thrown_error.split)
qed

section \<open>Preparing\<close>

abbreviation vouched_for ::
  "(scope_identity \<Rightarrow> string) \<Rightarrow> string \<Rightarrow> ('e, reply_promise) flow \<Rightarrow> bool" where
  "vouched_for key_of k m \<equiv> hosted.vouched key_of (backed k) (\<lambda>_. False) m"

lemma input_requestId:
  assumes "native_contract key_of opts host"
  shows "hosted.vouches key_of (\<lambda>i. ai_requestId i = cf_requestId cf) (\<lambda>_ _. False)
    (brokerAdmissionInput opts host cf fp e)"
proof -
  have known: "hosted.vouches key_of (\<lambda>i. ai_requestId i = cf_requestId cf) (\<lambda>_ _. False) (answer i)"
    if "ai_requestId i = cf_requestId cf" for i :: admission_input
    using that by (rule hosted.vouches_answer)
  show ?thesis
    unfolding brokerAdmissionInput_def watchAdmissionInput_def Let_def
    using native_contractD(5) [OF assms]
    by (auto split: session_requirement.split intro!: hosted.vouches_later flow_rules known hosted.vouches_throw)
qed

lemma vouches_marked: "hosted.vouches key_of F P m \<Longrightarrow> hosted.vouches key_of F P (marked b m)"
  unfolding marked_def hosted.vouches_def
  by (rule hosted.meets_catching [where N = "\<lambda>e _ r _. r = Inl (b, e)" and
        P = "\<lambda>s r s'. \<forall>x. r = Inr x \<longrightarrow> F x \<or> hosted.once key_of (P x) s s'"])
     (auto intro: hosted.meets_throw)

lemma vouched_attempt:
  assumes "native_contract key_of opts host"
  shows "vouched_for key_of (cf_requestId cf) (attemptPreparation opts host n cf token fp i startedAt)"
proof -
  let ?k = "cf_requestId cf"
  have newId: "ho_newId host now \<noteq> []" for now using assms by (simp add: native_contract_def)
  have replay: "hosted.vouches key_of (\<lambda>y. says q y) (backed ?k) (replay host cf fp token i q)" for q
    unfolding replay_def Let_def
    by (auto intro: hosted.vouches_weaken [OF vouching_failedResult]
        hosted.vouches_later [OF keeps_linkIfAny vouches_resultUnlessAborted])
  have admitted: "hosted.vouches key_of (\<lambda>_. False) (\<lambda>a. row_of ?k (admissionRequest a))
      (marked False (admitting (admitNew host) inp))" if "ai_requestId inp = ?k" for inp
    using that vouches_marked [OF vouches_admitting [where inp = inp and tx = "admitNew host" and key_of = key_of]]
    by (auto intro: admitNew_reads admitNew_step [OF newId])
  have decided: "hosted.vouched key_of (backed ?k) (\<lambda>y. False \<or> (\<forall>t. row_of ?k (admissionRequest a) t \<longrightarrow> backed ?k y t))
     (case a of BExisting q \<Rightarrow> answer (resultUnlessAborted q)
      | BRefused q reason \<Rightarrow> answer (resultUnlessAborted q)
      | _ \<Rightarrow> andThenF (marked True (prepareAdmission opts host n cf token a inp)) (\<lambda>reply. answer (answer reply)))"
    if id: "ai_requestId inp = ?k" for a inp
  proof -
    have quick: "hosted.vouched key_of (backed ?k) (\<lambda>y. False \<or> (\<forall>t. row_of ?k q t \<longrightarrow> backed ?k y t))
        (answer (resultUnlessAborted q) :: (bool \<times> thrown_error, reply_promise) flow)" for q
      by (rule hosted.vouched_answer [OF vouches_resultUnlessAborted]) (auto intro: says_backed)
    have slow: "hosted.vouched key_of (backed ?k) (\<lambda>y. False \<or> (\<forall>t. row_of ?k (admissionRequest a) t \<longrightarrow> backed ?k y t))
        (andThenF (marked True (prepareAdmission opts host n cf token a inp)) (\<lambda>reply. answer (answer reply)))"
      by (rule hosted.vouched_done [OF vouches_marked [OF vouches_prepareAdmission [OF assms id]]])
        (auto intro: says_backed)
    show ?thesis using quick slow by (cases a) (auto simp: admissionRequest_def)
  qed
  have fresh: "vouched_for key_of ?k
     (andThenF (marked False (brokerAdmissionInput opts host cf fp i)) (\<lambda>input0.
      andThenF (marked False
        (if bo_reuseCleanDevices opts \<and> requestPlatform (cf_device cf) \<noteq> ''android''
         then estimateReadiness (input0\<lparr>ai_startedAtMs := Some startedAt\<rparr>)
         else answer (input0\<lparr>ai_startedAtMs := Some startedAt\<rparr>))) (\<lambda>inp.
      andThenF (marked False (admitting (admitNew host) inp)) (\<lambda>a.
      case a of BExisting q \<Rightarrow> answer (resultUnlessAborted q)
      | BRefused q reason \<Rightarrow> answer (resultUnlessAborted q)
      | _ \<Rightarrow> andThenF (marked True (prepareAdmission opts host n cf token a inp)) (\<lambda>reply. answer (answer reply))))))"
  proof (rule hosted.vouched_known [OF vouches_marked [OF input_requestId [OF assms]]])
    fix input0 :: admission_input assume "ai_requestId input0 = ?k"
    then have id: "hosted.vouches key_of (\<lambda>inp. ai_requestId inp = ?k) (\<lambda>_ _. False)
        (marked False (if b then estimateReadiness (input0\<lparr>ai_startedAtMs := Some startedAt\<rparr>)
          else answer (input0\<lparr>ai_startedAtMs := Some startedAt\<rparr>)))" for b
      by (auto simp: estimateReadiness_def intro!: vouches_marked hosted.vouches_answer hosted.vouches_catching)
         (auto simp: hosted.vouches_def intro!: hosted.meets_awaiting hosted.R_refl)
    show "vouched_for key_of ?k
     (andThenF (marked False
        (if bo_reuseCleanDevices opts \<and> requestPlatform (cf_device cf) \<noteq> ''android''
         then estimateReadiness (input0\<lparr>ai_startedAtMs := Some startedAt\<rparr>)
         else answer (input0\<lparr>ai_startedAtMs := Some startedAt\<rparr>))) (\<lambda>inp.
      andThenF (marked False (admitting (admitNew host) inp)) (\<lambda>a.
      case a of BExisting q \<Rightarrow> answer (resultUnlessAborted q)
      | BRefused q reason \<Rightarrow> answer (resultUnlessAborted q)
      | _ \<Rightarrow> andThenF (marked True (prepareAdmission opts host n cf token a inp)) (\<lambda>reply. answer (answer reply)))))"
      by (rule hosted.vouched_known [OF id], rule hosted.vouched_andThen [OF admitted decided])
  qed
  show ?thesis
    unfolding attemptPreparation_def Let_def
  proof (rule hosted.vouched_andThen [OF vouches_marked [OF hosted.vouches_query]])
    fix previous :: "request_row option"
    let ?A = "\<lambda>y. False \<or> (\<forall>t :: scene. previous = readRequest (wd_db t) ?k \<longrightarrow> backed ?k y t)"
    show "hosted.vouched key_of (backed ?k) ?A
      (case previous of Some q \<Rightarrow> answer (replay host cf fp token i q)
       | None \<Rightarrow>
     (andThenF (marked False (brokerAdmissionInput opts host cf fp i)) (\<lambda>input0.
      andThenF (marked False
        (if bo_reuseCleanDevices opts \<and> requestPlatform (cf_device cf) \<noteq> ''android''
         then estimateReadiness (input0\<lparr>ai_startedAtMs := Some startedAt\<rparr>)
         else answer (input0\<lparr>ai_startedAtMs := Some startedAt\<rparr>))) (\<lambda>inp.
      andThenF (marked False (admitting (admitNew host) inp)) (\<lambda>a.
      case a of BExisting q \<Rightarrow> answer (resultUnlessAborted q)
      | BRefused q reason \<Rightarrow> answer (resultUnlessAborted q)
      | _ \<Rightarrow> andThenF (marked True (prepareAdmission opts host n cf token a inp)) (\<lambda>reply. answer (answer reply)))))))"
    proof (cases previous)
      case None
      show ?thesis unfolding None option.case by (rule hosted.vouched_weaken [OF fresh]) simp
    next
      case (Some q)
      have "hosted.vouched key_of (backed ?k) ?A
          (answer (replay host cf fp token i q) :: (bool \<times> thrown_error, reply_promise) flow)"
        by (rule hosted.vouched_answer [OF replay]) (auto simp: Some row_of_def intro!: says_backed)
      then show ?thesis using Some by simp
    qed
  qed
qed

lemma vouching_prepare:
  assumes "native_contract key_of opts host"
  shows "vouching key_of (cf_requestId cf) (prepare opts host n cf token i)"
proof -
  let ?k = "cf_requestId cf"
  let ?fp = "sessionRequestFingerprint (ho_sha host) (cf_json cf) token"
  have handler: "vouched_for key_of ?k (onPreparationError opts host cf token ?fp i thrown)" for thrown
  proof -
    have handled: "vouched_for key_of ?k
       (answer (handlePreparationFailure opts host cf token ?fp i admitted e) :: (thrown_error, reply_promise) flow)"
      for admitted e
      by (rule hosted.vouched_answer [OF vouching_handlePreparationFailure [OF assms]])
    have look: "vouched_for key_of ?k
       (andThenF (look (\<lambda>s. (abortedByBrokerStop s, preparationFailureError e s))) (\<lambda>(stopping, e1).
          if \<not> admitted \<and> stopping then throw (Plain StoppingError)
          else answer (handlePreparationFailure opts host cf token ?fp i admitted e1)))" for admitted e
      by (rule hosted.vouched_later [OF hosted.keeps_look]) (auto intro: handled hosted.vouched_throw split: prod.split)
    show ?thesis
      unfolding onPreparationError_def
      using look by (auto split: prod.split thrown_error.split err.split intro: hosted.vouched_throw)
  qed
  have once: "vouching key_of ?k (prepareOnce opts host n cf token i)"
    unfolding prepareOnce_def Let_def
    by (rule hosted.vouches_later [OF hosted.keeps_look],
        rule hosted.vouches_later [OF keeps_change], simp,
        rule hosted.vouched_run [OF hosted.vouched_lastly
          [OF hosted.vouched_catching [OF vouched_attempt [OF assms] handler]]]) simp
  show ?thesis
    unfolding prepare_def
    by (rule hosted.vouches_later [OF hosted.keeps_look])
      (auto split: prod.split intro: once hosted.vouches_throw)
qed

end
