(* ===== verification/BrokerReleaseTheorems.thy ===== *)
theory BrokerReleaseTheorems
  imports BrokerReplyTheorems
begin

text \<open>
  What a release promises: the receipt has left \<open>active\<close> before the caller hears anything, a release
  reported done has left no live device with the request, and a device goes back to the pool only
  after the session's work settled, a native reset found the device clean and the store committed the
  clean release.
\<close>

lemma leads_tagged: "hosted.leads key_of A m \<Longrightarrow> hosted.leads key_of A (tagged t c m)"
  unfolding tagged_def hosted.leads_def
  by (rule hosted.meets_catching [where P = "\<lambda>s r s'. \<forall>x. r = Inr x \<longrightarrow> A x s s'" and N = "\<lambda>e _ r _. r = Inl (t, c, e)"])
    (auto intro: hosted.meets_throw)

section \<open>The device a request leaves behind\<close>

definition ended :: "string \<Rightarrow> request_row \<Rightarrow> broker_db \<Rightarrow> bool" where
  "ended session q db \<longleftrightarrow> readRequest db (rq_id q) = Some q \<and> rq_session q = Some session \<and>
     rq_state q \<noteq> RActive"

definition gone :: "request_row \<Rightarrow> scene \<Rightarrow> bool" where
  "gone q t \<longleftrightarrow> (\<forall>r x. rq_resource q = Some r \<and> r \<noteq> [] \<and> readResource (wd_db t) r = Some x \<and>
     rs_request x = Some (rq_id q) \<longrightarrow> rs_state x = Idle \<or> rs_state x = Destroyed)"

definition told :: "request_row \<Rightarrow> release_reply \<Rightarrow> scene \<Rightarrow> bool" where
  "told q reply t \<longleftrightarrow> rl_outcome reply \<noteq> ReleaseUnknownSession \<and> (rl_outcome reply = ReleaseDone \<longrightarrow> gone q t)"

abbreviation telling ::
  "(scope_identity \<Rightarrow> string) \<Rightarrow> request_row \<Rightarrow> (thrown_error, release_reply) flow \<Rightarrow> bool" where
  "telling key_of q m \<equiv> hosted.vouches key_of (\<lambda>_. False) (told q) m"

lemma vouches_findResource:
  "hosted.vouches key_of (\<lambda>_. False)
     (\<lambda>found t. found = (if truthy k then readResource (wd_db t) (the k) else None)) (findResource k)"
proof (cases "truthy k")
  case True
  then show ?thesis
    unfolding findResource_def
    using hosted.vouches_query [of key_of "\<lambda>db. getResource db (the k)"] by simp
next
  case False
  then show ?thesis
    unfolding findResource_def hosted.vouches_def
    by (auto intro!: hosted.meets_answer hosted.once_now)
qed

lemma telling_releaseStatus: "telling key_of q (releaseStatus q u)"
  unfolding releaseStatus_def
proof (rule hosted.vouches_andThen [OF vouches_findResource])
  fix found
  show "hosted.vouches key_of
     (\<lambda>reply. False \<or> rl_outcome reply \<noteq> ReleaseUnknownSession \<and> (rl_outcome reply = ReleaseDone \<longrightarrow>
        (case found of None \<Rightarrow> True | Some r \<Rightarrow>
           \<not> (rs_request r = Some (rq_id q) \<and> rs_state r \<noteq> Idle \<and> rs_state r \<noteq> Destroyed))))
     (told q)
     (andThenF (query (\<lambda>db. readRequest db (rq_id q))) (\<lambda>latest.
      answer \<lparr>rl_sessionUuid = u,
       rl_outcome = (case found of
          None \<Rightarrow> ReleaseDone
        | Some r \<Rightarrow> if rs_request r = Some (rq_id q) \<and> rs_state r \<noteq> Idle \<and> rs_state r \<noteq> Destroyed
                    then ReleaseCleanupPending else ReleaseDone),
       rl_timing = Option.bind latest receiptTiming\<rparr>))"
    by (rule hosted.vouches_later [OF hosted.keeps_query], rule hosted.vouches_answer)
      (auto split: option.split)
qed (auto simp: told_def gone_def truthy_def split: option.splits if_splits)

lemma telling_pending: "telling key_of q m \<Longrightarrow>
  telling key_of q (andThenF m (\<lambda>reply. answer (reply\<lparr>rl_outcome := ReleaseCleanupPending\<rparr>)))"
  by (rule hosted.vouches_andThen [where G = "\<lambda>_ y. rl_outcome y = ReleaseCleanupPending"])
    (auto simp: told_def intro: hosted.vouches_answer)

lemma telling_releaseOnce:
  assumes "native_contract key_of opts host"
  shows "telling key_of q (releaseOnce opts host u b (Some q))"
proof -
  note keep = keeps_findResource hosted.keeps_throwIfAborted keeps_tryCleanup [OF assms]
    keeps_drainAndReset [OF assms] keeps_cleanupIfAny [OF assms]
  have retire: "keeps (hosted key_of) (transaction (\<lambda>now db. releaseByDestruction (rq_id q) (bo_owner opts) db))"
    by (auto intro!: flow_rules dest!: store_step.releaseByDestruction)
  have byDisposition: "telling key_of q
     (case result of
        StillPending \<Rightarrow> andThenF (releaseStatus q u) (\<lambda>reply. answer (reply\<lparr>rl_outcome := ReleaseCleanupPending\<rparr>))
      | ToIdle \<Rightarrow> releaseStatus q u
      | ToDestroy \<Rightarrow>
          andThenF (transaction (\<lambda>now db. releaseByDestruction (rq_id q) (bo_owner opts) db)) (\<lambda>ticket.
          andThenF (cleanupIfAny opts ticket b) (\<lambda>_. releaseStatus q u)))" for result
    by (cases result) (auto intro!: telling_pending telling_releaseStatus hosted.vouches_later [OF retire]
        hosted.vouches_later [OF keep(5)])
  show ?thesis
    unfolding releaseOnce_def
    by (auto split: option.split intro!: telling_releaseStatus byDisposition hosted.vouches_throw
        hosted.vouches_later [OF keep(1)] hosted.vouches_later [OF keep(2)]
        hosted.vouches_later [OF keep(3)] hosted.vouches_later [OF keep(4)])
qed

lemma gone_destroyed:
  assumes inv: "broker_inv (wd_db t)" and "gone q t" and "rq_resource q = Some r"
    and x: "readResource (wd_db t) r = Some x" "rs_request x = Some (rq_id q)"
  shows "rs_state x = Destroyed"
proof -
  have "resource_ok (requests (wd_db t)) x \<and> rs_id x = r" by (rule broker_inv_resource [OF inv x(1)])
  then have "r \<noteq> []" "rs_state x \<noteq> Idle" using x(2) by (auto simp: resource_ok_def)
  then show ?thesis using assms(2,3) x unfolding gone_def by blast
qed

section \<open>The commit before the reply\<close>

lemma getSession_ids:
  assumes "distinct (map rq_id (requests db))" and "getSession db u = Some q"
  shows "readRequest db (rq_id q) = Some q \<and> rq_session q = Some u"
  using assms by (auto simp: getSession_def find_Some_iff intro!: request_table.get_in_rows)

lemma updateRequest_ids:
  "updateRequest now k st f db = Inr (q, db') \<Longrightarrow> (\<And>x. rq_id (f x) = rq_id x) \<Longrightarrow>
   map rq_id (requests db') = map rq_id (requests db)"
  by (auto simp: updateRequest_def Let_def orThrow_def put_request_def request_columns_def
      intro!: map_key_update split: option.splits)

lemma updateResource_requests: "updateResource r f db = Inr (r1, db') \<Longrightarrow> requests db' = requests db"
  by (auto simp: updateResource_def Let_def orThrow_def put_resource_def split: option.splits)

lemma beginRelease_ended:
  assumes "beginRelease now u owner db = Inr (Some q, db')" and ids: "distinct (map rq_id (requests db'))"
  shows "ended u q db'"
proof -
  obtain row where row: "getSession db u = Some row"
    using assms(1) by (auto simp: beginRelease_def split: option.splits)
  show ?thesis
  proof (cases "isTerminalState (rq_state row)")
    case True
    then have "row = q" "db' = db" using assms(1) row by (auto simp: beginRelease_def)
    then show ?thesis using getSession_ids [OF _ row] ids True by (auto simp: ended_def isTerminalState_def)
  next
    case False
    then obtain own where own: "readRequest db (rq_id row) = Some own"
      using assms(1) row
      by (auto simp: beginRelease_def ownedRequest_def requireValue_def split: option.splits)
    show ?thesis
    proof (cases "rq_state own = RActive")
      case False
      then have "own = q" "db' = db"
        using assms(1) row own \<open>\<not> isTerminalState (rq_state row)\<close>
        by (auto simp: beginRelease_def ownedRequest_def requireValue_def split: if_splits)
      then show ?thesis
        using getSession_ids [OF _ row] ids own False by (auto simp: ended_def)
    next
      case True
      then obtain r r1 db1 where steps: "updateResource r (rs_state_update (\<lambda>_. Resetting)) db = Inr (r1, db1)"
        "updateRequest now (rq_id own) (Some Releasing) (\<lambda>x. x) db1 = Inr (q, db')"
        using assms(1) row own \<open>\<not> isTerminalState (rq_state row)\<close>
        by (auto simp: beginRelease_def ownedRequest_def requireValue_def split: if_splits)
      have same: "requests db1 = requests db" using updateResource_requests [OF steps(1)] .
      then have "distinct (map rq_id (requests db))" using updateRequest_ids [OF steps(2)] ids by simp
      then have "own = row" "rq_session row = Some u" using getSession_ids [OF _ row] own by auto
      moreover have "readRequest db1 (rq_id own) = Some own"
        using own same request_table.get_key [OF own] by (simp add: readRequest_def)
      ultimately show ?thesis
        using steps(2) updateRequest_reads [OF steps(2)] request_table.get_key [OF own]
        by (auto simp: ended_def updateRequest_eq request_columns_def isTerminalState_def)
    qed
  qed
qed

section \<open>The reply to a release\<close>

definition committed :: "string \<Rightarrow> request_row option \<Rightarrow> broker_db \<Rightarrow> bool" where
  "committed u found db \<longleftrightarrow>
     (case found of None \<Rightarrow> getSession db u = None
      | Some q \<Rightarrow> distinct (map rq_id (requests db)) \<longrightarrow> ended u q db)"

definition answers :: "request_row option \<Rightarrow> release_reply \<Rightarrow> scene \<Rightarrow> bool" where
  "answers found reply t \<longleftrightarrow> (rl_outcome reply = ReleaseUnknownSession \<longrightarrow> found = None) \<and>
     (rl_outcome reply = ReleaseDone \<longrightarrow> (\<exists>q. found = Some q \<and> gone q t))"

definition traces :: "(scope_identity \<Rightarrow> string) \<Rightarrow> string \<Rightarrow> scene \<Rightarrow> release_reply \<Rightarrow> scene \<Rightarrow> bool" where
  "traces key_of u s reply s' \<longleftrightarrow> (\<exists>found.
     hosted.once key_of (\<lambda>t. committed u found (wd_db t) \<and> hosted.once key_of (answers found reply) t s') s s')"

lemma broker_inv_ids: "broker_inv db \<Longrightarrow> distinct (map rq_id (requests db))"
  by (simp add: broker_inv_def tables_inv_def)

lemma committed_inactive:
  assumes inv: "broker_inv db" and "committed u found db"
    and q: "readRequest db k = Some q" "rq_session q = Some u"
  shows "rq_state q \<noteq> RActive"
proof (cases found)
  case None
  then have none: "\<forall>p\<in>set (requests db). rq_session p \<noteq> Some u"
    using assms(2) by (auto simp: committed_def getSession_def find_None_iff)
  have "q \<in> set (requests db)" using request_table.get_SomeD [OF q(1)] by simp
  then show ?thesis using none q(2) by blast
next
  case (Some p)
  then have p: "readRequest db (rq_id p) = Some p" "rq_session p = Some u" "rq_state p \<noteq> RActive"
    using assms(2) broker_inv_ids [OF inv] by (auto simp: committed_def ended_def)
  have rows: "p \<in> set (requests db)" "q \<in> set (requests db)" "rq_id q = k"
    using request_table.get_SomeD [OF p(1)] request_table.get_SomeD [OF q(1)] by auto
  have "sessions_unique (requests db)" using inv by (simp add: broker_inv_def)
  from bspec [OF bspec [OF this [unfolded sessions_unique_def] rows(1)] rows(2)]
  have "rq_id p = k" using p(2) q(2) rows(3) by simp
  then have "p = q" using p(1) q(1) by simp
  then show ?thesis using p(3) by simp
qed

lemma vouches_beginRelease:
  "hosted.vouches key_of (\<lambda>_. False) (\<lambda>found t. committed u found (wd_db t))
     (transaction (\<lambda>now db. beginRelease now u owner db))"
proof (rule vouches_transaction)
  fix now db found db' assume run: "beginRelease now u owner db = Inr (found, db')"
  have "committed u found db'"
  proof (cases found)
    case None
    then have "db' = db \<and> getSession db u = None"
      using run by (auto simp: beginRelease_def ownedRequest_def requireValue_def
          split: option.splits if_splits)
    then show ?thesis using None by (simp add: committed_def)
  next
    case (Some q)
    then show ?thesis using beginRelease_ended run by (auto simp: committed_def)
  qed
  then show "store_step db db' \<and> committed u found db'" using store_step.beginRelease [OF run] by blast
qed

lemma answering_releaseOnce:
  assumes "native_contract key_of opts host"
  shows "hosted.vouches key_of (\<lambda>_. False) (answers found) (releaseOnce opts host u b found)"
proof (cases found)
  case None
  then show ?thesis
    by (auto simp: releaseOnce_def hosted.vouches_def answers_def intro!: hosted.meets_answer hosted.once_now)
next
  case (Some q)
  then show ?thesis
    by (auto simp: told_def answers_def intro!: hosted.vouches_weaken [OF telling_releaseOnce [OF assms, of q u b]])
qed

lemma tracing_begin:
  assumes "native_contract key_of opts host"
    and "\<And>found. hosted.vouches key_of (\<lambda>_. False) (answers found) (f found)"
  shows "meets (hosted key_of) (lastly (andThenF (transaction (\<lambda>now db. beginRelease now u (bo_owner opts) db)) f) (untrack u))
    (\<lambda>s r s'. \<forall>reply. r = Inr reply \<longrightarrow> traces key_of u s reply s')"
proof (rule hosted.meets_lastly [OF hosted.traced [OF vouches_beginRelease assms(2)]])
  fix s r s'
  assume step: "hosted key_of s s'"
    and run: "\<forall>reply. r = Inr reply \<longrightarrow> (\<exists>found. hosted.once key_of (\<lambda>t. committed u found (wd_db t) \<and>
      hosted.once key_of (answers found reply) t s') s s')"
  have last: "hosted key_of s' (untrack u s')" by simp
  show "\<forall>reply. r = Inr reply \<longrightarrow> traces key_of u s reply (untrack u s')"
  proof (intro allI impI)
    fix reply assume "r = Inr reply"
    then obtain found where f: "hosted.once key_of (\<lambda>t. committed u found (wd_db t) \<and>
        hosted.once key_of (answers found reply) t s') s s'" using run by blast
    have "hosted.once key_of (\<lambda>t. committed u found (wd_db t) \<and>
        hosted.once key_of (answers found reply) t (untrack u s')) s s'"
      by (rule hosted.once_mono [OF f]) (blast intro: hosted.once_after [OF _ last])
    from hosted.once_after [OF this last] show "traces key_of u s reply (untrack u s')"
      unfolding traces_def by blast
  qed
qed simp

lemma tracing_release:
  assumes "native_contract key_of opts host"
  shows "meets (hosted key_of) (release opts host u False budget took)
    (\<lambda>s r s'. \<forall>reply. r = Inr reply \<longrightarrow> traces key_of u s reply s')"
proof -
  let ?R = "\<lambda>s r s'. \<forall>reply. r = Inr reply \<longrightarrow> traces key_of u s reply s'"
  have late: "hosted.vouches key_of (\<lambda>_. False) (answers found)
     (answer \<lparr>rl_sessionUuid = u, rl_outcome = ReleaseCleanupPending, rl_timing = None\<rparr>)" for found
    by (auto simp: hosted.vouches_def answers_def intro!: hosted.meets_answer hosted.once_now)
  have before: "traces key_of u s reply s'" if "hosted key_of s t" "traces key_of u t reply s'" for s t s' reply
    using that hosted.once_before unfolding traces_def by blast
  have inner: "meets (hosted key_of) (lastly (andThenF (transaction (\<lambda>now db. beginRelease now u (bo_owner opts) db)) (\<lambda>found.
       if resolveReleaseReplyBudgetMs budget (bo_releaseReplyBudgetMs opts) \<le> took
       then answer \<lparr>rl_sessionUuid = u, rl_outcome = ReleaseCleanupPending, rl_timing = None\<rparr>
       else releaseOnce opts host u False found)) (untrack u)) ?R"
    by (rule tracing_begin [OF assms]) (simp add: late answering_releaseOnce [OF assms])
  have bounded: "meets (hosted key_of) (boundedReleaseReply opts host u budget took) ?R"
    unfolding boundedReleaseReply_def
    by (rule hosted.meets_andThen [OF keeps_change inner]) (auto intro: before)
  show ?thesis
    unfolding release_def
    by (rule hosted.meets_andThen [OF hosted.keeps_look, where N = "\<lambda>_. ?R"]) (auto intro: bounded before)
qed

text \<open>
  C4: What \<open>SessionBroker.release\<close> answers to a release that a client asks for is true (the path taken
  when the owner of the session exited, \<open>releaseAfterOwnerExit\<close>, is left out: it fails the request and
  reports a status instead). Before the call answers anything, the receipt of the session has left
  \<open>active\<close> in a committed transaction, so no active receipt names the session at that moment, even when
  the caller's reply budget elapses first. It answers \<open>unknown_session\<close> only when then no receipt had
  that session; it answers \<open>released\<close> only when, after that commit, the device of the session was gone,
  destroyed or no longer charged to the request. Other requests, other daemons and failing store calls
  may run at each suspension; the native port keeps its contract (\<open>native_contract\<close>).
\<close>

theorem release_reply_true:
  assumes "inj key_of" and "native_contract key_of opts host"
    and "(broker_step key_of)\<^sup>*\<^sup>* empty_db (wd_db s)" and "fair (hosted key_of) mv"
    and "release opts host u False budget took s mv = (Inr reply, s', mv')"
  shows "\<exists>db. (broker_step key_of)\<^sup>*\<^sup>* (wd_db s) db \<and> (broker_step key_of)\<^sup>*\<^sup>* db (wd_db s') \<and>
     (\<forall>k q. readRequest db k = Some q \<and> rq_session q = Some u \<longrightarrow> rq_state q \<noteq> RActive) \<and>
     (rl_outcome reply = ReleaseUnknownSession \<longrightarrow> getSession db u = None) \<and>
     (rl_outcome reply = ReleaseDone \<longrightarrow> (\<exists>q db'. readRequest db (rq_id q) = Some q \<and> rq_session q = Some u \<and>
        (broker_step key_of)\<^sup>*\<^sup>* db db' \<and> (broker_step key_of)\<^sup>*\<^sup>* db' (wd_db s') \<and>
        (\<forall>r x. rq_resource q = Some r \<and> readResource db' r = Some x \<and> rs_request x = Some (rq_id q) \<longrightarrow>
           rs_state x = Destroyed)))"
proof -
  have "traces key_of u s reply s'"
    using meetsD [OF tracing_release [OF assms(2)] assms(4,5)] by simp
  then obtain found t t' where t: "hosted key_of s t" "committed u found (wd_db t)" "hosted key_of t t'"
    "answers found reply t'" "hosted key_of t' s'"
    by (auto simp: traces_def hosted.once_def)
  have reached: "(broker_step key_of)\<^sup>*\<^sup>* empty_db (wd_db t)" "(broker_step key_of)\<^sup>*\<^sup>* empty_db (wd_db t')"
    using assms(3) t(1,3) by (auto simp: hosted_def)
  have inv: "broker_inv (wd_db t)" "broker_inv (wd_db t')"
    using reached_broker_inv [OF assms(1)] reached by blast+
  have inactive: "rq_state q \<noteq> RActive" if q: "readRequest (wd_db t) k = Some q" "rq_session q = Some u" for k q
    by (rule committed_inactive [OF inv(1) t(2) q])
  have finished: "\<exists>q db'. readRequest (wd_db t) (rq_id q) = Some q \<and> rq_session q = Some u \<and>
        (broker_step key_of)\<^sup>*\<^sup>* (wd_db t) db' \<and> (broker_step key_of)\<^sup>*\<^sup>* db' (wd_db s') \<and>
        (\<forall>r x. rq_resource q = Some r \<and> readResource db' r = Some x \<and> rs_request x = Some (rq_id q) \<longrightarrow>
           rs_state x = Destroyed)" if finish: "rl_outcome reply = ReleaseDone"
  proof -
    obtain q where q: "found = Some q" "gone q t'" using t(4) finish by (auto simp: answers_def)
    then have "ended u q (wd_db t)" using t(2) broker_inv_ids [OF inv(1)] by (simp add: committed_def)
    then show ?thesis using gone_destroyed [OF inv(2) q(2)] t(3,5) unfolding ended_def hosted_def by blast
  qed
  have "getSession (wd_db t) u = None" if "rl_outcome reply = ReleaseUnknownSession"
    using t(2,4) that by (simp add: answers_def committed_def)
  then show ?thesis using inactive finished t(1,3,5) hosted.R_trans [OF t(3,5)] unfolding hosted_def by blast
qed

lemma answered_run:
  "(case m of (Inr y, s', mv') \<Rightarrow> P y | (Inl e, s', mv') \<Rightarrow> False) \<Longrightarrow> \<exists>y s' mv'. m = (Inr y, s', mv') \<and> P y"
  by (auto split: prod.splits sum.splits)

theorem release_reply_true_witness:
  "\<exists>reply s' mv' db q db'. release demo_options demo_host ''s1'' False None 0 (demo_scene demo6) [] = (Inr reply, s', mv') \<and>
     rl_outcome reply = ReleaseDone \<and> readRequest db (rq_id q) = Some q \<and> rq_session q = Some ''s1'' \<and>
     rq_state q \<noteq> RActive \<and> (broker_step plain_scope_key)\<^sup>*\<^sup>* db db'"
proof -
  have "case release demo_options demo_host ''s1'' False None 0 (demo_scene demo6) [] of
     (Inr reply, s', mv') \<Rightarrow> rl_outcome reply = ReleaseDone | (Inl e, s', mv') \<Rightarrow> False"
    by code_simp
  from answered_run [OF this] obtain reply s' mv' where run:
    "release demo_options demo_host ''s1'' False None 0 (demo_scene demo6) [] = (Inr reply, s', mv')"
    "rl_outcome reply = ReleaseDone"
    by blast
  have "(broker_step plain_scope_key)\<^sup>*\<^sup>* empty_db (wd_db (demo_scene demo6))"
    using demo_reach6 by (simp add: demo_scene_def)
  from release_reply_true [OF inj_plain_scope_key demo_contract this _ run(1)] run show ?thesis
    by (simp add: fair_def) blast
qed

section \<open>Back to the pool\<close>

lemma native_hosted:
  assumes "native_call key_of act" and "act t = (r, t')"
  shows "hosted key_of t t'"
proof -
  have "snd (act t) = t'" using assms(2) by simp
  with assms(1) have "(registry_step key_of)\<^sup>*\<^sup>* (wd_db t) (wd_db t')" "sc_stopping t' = sc_stopping t"
    by (auto simp: native_call_def)
  then show ?thesis using registry_broker_steps by (intro hosted_db)
qed

text \<open>The end of a clean release: the store took the device back in a transaction of its own.\<close>

definition pooled ::
  "(scope_identity \<Rightarrow> string) \<Rightarrow> broker_options \<Rightarrow> broker_host \<Rightarrow> request_row \<Rightarrow> scene \<Rightarrow> scene \<Rightarrow> bool" where
  "pooled key_of opts host q s s' \<longleftrightarrow> (\<exists>t tickets db. hosted key_of s t \<and>
     completeCleanRelease (ho_localeCompare host) (wd_now t) (rq_id q) (bo_owner opts) (bo_limits opts) (wd_db t) =
       Inr (tickets, db) \<and> hosted key_of (t\<lparr>wd_db := db\<rparr>) s')"

lemma pooled_before: "hosted key_of s t \<Longrightarrow> pooled key_of opts host q t s' \<Longrightarrow> pooled key_of opts host q s s'"
  unfolding pooled_def using hosted.R_trans by blast

lemma pooled_after: "pooled key_of opts host q s t \<Longrightarrow> hosted key_of t s' \<Longrightarrow> pooled key_of opts host q s s'"
  unfolding pooled_def using hosted.R_trans by blast

lemma leads_completeCleanRelease:
  "hosted.leads key_of (\<lambda>_. pooled key_of opts host q)
     (transaction (\<lambda>now db. completeCleanRelease (ho_localeCompare host) now (rq_id q) (bo_owner opts) (bo_limits opts) db))"
  unfolding transaction_def
proof (rule hosted.leads_awaiting)
  let ?act = "\<lambda>t :: scene. case completeCleanRelease (ho_localeCompare host) (wd_now t) (rq_id q) (bo_owner opts)
      (bo_limits opts) (wd_db t) of Inl e \<Rightarrow> (Inl (Plain e), t) | Inr (x, db) \<Rightarrow> (Inr x, t\<lparr>wd_db := db\<rparr>)"
  show "?act t = (x, t') \<Longrightarrow> hosted key_of t t'" for t t' x
    by (auto simp: hosted_def broker_step_def split: sum.splits prod.splits dest!: store_step.completeCleanRelease)
  fix s t tickets t' s'
  assume "hosted key_of s t" "hosted key_of t' s'" and run: "?act t = (Inr tickets, t')"
  then obtain db where "completeCleanRelease (ho_localeCompare host) (wd_now t) (rq_id q) (bo_owner opts)
      (bo_limits opts) (wd_db t) = Inr (tickets, db)" "t' = t\<lparr>wd_db := db\<rparr>"
    by (auto split: sum.splits prod.splits)
  then show "pooled key_of opts host q s s'"
    using \<open>hosted key_of s t\<close> \<open>hosted key_of t' s'\<close> unfolding pooled_def by blast
qed

lemma leads_completeCleanReset:
  assumes "native_contract key_of opts host"
  shows "hosted.leads key_of (\<lambda>_. pooled key_of opts host q) (completeCleanReset opts host q r t b)"
  unfolding completeCleanReset_def
  by (rule hosted.leads_first [OF leads_tagged [OF leads_completeCleanRelease] _ pooled_after])
    (auto intro!: flow_rules assms)

text \<open>The native reset of a device, and what it found.\<close>

definition wasReset ::
  "(scope_identity \<Rightarrow> string) \<Rightarrow> (resource_row \<Rightarrow> ((thrown_error + reset_result) \<times> rat list) native) \<Rightarrow>
   resource_row \<Rightarrow> reset_result \<Rightarrow> scene \<Rightarrow> scene \<Rightarrow> bool" where
  "wasReset key_of reset r result s s' \<longleftrightarrow> (\<exists>t waits t'. hosted key_of s t \<and>
     reset r t = (Inr (Inr result, waits), t') \<and> hosted key_of t' s')"

definition foundClean :: "reset_result \<Rightarrow> bool" where
  "foundClean result \<longleftrightarrow> (case result of ResetClean \<Rightarrow> True | ResetPending \<Rightarrow> False
     | ResetReport report \<Rightarrow> List.member [OClean, OFallback KeepBooted, OFallback Erase, OFallback Snapshot,
         OFallback WipeData] (rr_outcome report))"

lemma foundClean_iff: "cleanOutcome (rt_outcome (mergeResetTiming t result)) \<longleftrightarrow> foundClean result"
  by (cases result) (simp_all add: cleanOutcome_def foundClean_def mergeResetTiming_def)

lemma leads_resetDevice:
  assumes "\<And>r. native_call key_of (reset r)"
  shows "hosted.leads key_of (\<lambda>(reply, _) s s'. \<forall>result. reply = Inr result \<longrightarrow> wasReset key_of reset r result s s')
     (resetDevice reset r)"
proof -
  have later: "wasReset key_of reset r result s s'" if "hosted key_of s t" "wasReset key_of reset r result t s'"
    for result s t s'
    using that hosted.R_trans unfolding wasReset_def by blast
  have after: "wasReset key_of reset r result s s'" if "wasReset key_of reset r result s t" "hosted key_of t s'"
    for result s t s'
    using that hosted.R_trans unfolding wasReset_def by blast
  have call: "hosted.leads key_of (\<lambda>(reply, _) s s'. \<forall>result. reply = Inr result \<longrightarrow> wasReset key_of reset r result s s')
     (awaiting (reset r))"
    by (rule hosted.leads_awaiting) (auto simp: wasReset_def intro: native_hosted [OF assms])
  show ?thesis
    unfolding resetDevice_def
    by (rule hosted.leads_later [OF keeps_change hosted.leads_lastly [OF call]])
      (auto intro: later after [where t = t and s' = "setActive k b t" for t k b])
qed

lemma wasReset_before:
  "hosted key_of s t \<Longrightarrow> wasReset key_of reset r result t s' \<Longrightarrow> wasReset key_of reset r result s s'"
  unfolding wasReset_def using hosted.R_trans by blast

lemma leads_runReset:
  assumes "native_contract key_of opts host" and "\<And>r. native_call key_of (reset r)"
  shows "hosted.leads key_of (\<lambda>(_, result). wasReset key_of reset r result) (runReset opts host reset r p b t)"
proof -
  let ?A = "\<lambda>(_ :: reset_timing, result). wasReset key_of reset r result"
  have slot: "keeps (hosted key_of) (if needsResetBootSlot opts p then awaitBootSlot host b t else answer t)"
    using assms(1) by (auto intro!: flow_rules)
  have after: "hosted.leads key_of ?A
     (andThenF (tagged t1 False (resetDevice reset r)) (\<lambda>(reply, waits).
      let t2 = (if dp_managesResetBootSlots (bo_devices opts) then fold recordBootQueueWait waits t1 else t1) in
      case reply of Inl e \<Rightarrow> throw (t2, False, e) | Inr result \<Rightarrow> answer (t2, result)))" for t1
    by (rule hosted.leads_andThen [OF leads_tagged [OF leads_resetDevice [OF assms(2)]],
          where C = "\<lambda>(reply, _) y s s'. s = s' \<and> reply = Inr (snd y)"])
      (auto simp: Let_def split: sum.splits intro!: hosted.leads_throw hosted.leads_answer)
  show ?thesis
    unfolding runReset_def
    by (rule hosted.leads_later [OF slot after]) (auto intro: wasReset_before)
qed

text \<open>What has happened when a release hands a device to the pool.\<close>

definition returned ::
  "(scope_identity \<Rightarrow> string) \<Rightarrow> broker_options \<Rightarrow> broker_host \<Rightarrow> request_row \<Rightarrow> resource_row \<Rightarrow>
   scene \<Rightarrow> scene \<Rightarrow> bool" where
  "returned key_of opts host q r s s' \<longleftrightarrow> (\<exists>reset result t. dp_reset (bo_devices opts) = Some reset \<and>
     wasReset key_of reset r result s t \<and> foundClean result \<and> pooled key_of opts host q t s')"

lemma returned_before: "hosted key_of s t \<Longrightarrow> returned key_of opts host q r t s' \<Longrightarrow> returned key_of opts host q r s s'"
  unfolding returned_def using wasReset_before by blast

lemma leads_resetAndReturn:
  assumes c: "native_contract key_of opts host" and reset: "dp_reset (bo_devices opts) = Some reset"
  shows "hosted.leads key_of (\<lambda>result s s'. result = ToIdle \<longrightarrow> returned key_of opts host q r s s')
     (resetAndReturn opts host reset q r p b t)"
proof -
  let ?B = "\<lambda>result s s'. result = ToIdle \<longrightarrow> returned key_of opts host q r s s'"
  let ?C = "\<lambda>result y s s'. y = ToIdle \<longrightarrow> foundClean result \<and> pooled key_of opts host q s s'"
  have native: "native_call key_of (reset r)" for r
    using c reset by (auto simp: native_contract_def)
  have destroyed: "hosted.leads key_of (?C result) (andThenF (recordResetTiming q r t2) (\<lambda>_. answer ToDestroy))" for result t2
    by (rule hosted.leads_later [OF keeps_recordResetTiming hosted.leads_answer]) (auto intro: pooled_before)
  have kept: "hosted.leads key_of (?C result)
     (andThenF (tagged t2 False (throwIfAborted b)) (\<lambda>_. andThenF (completeCleanReset opts host q r t2 b) (\<lambda>_. answer ToIdle)))"
    if "foundClean result" for result t2
    by (rule hosted.leads_later [OF keeps_tagged [OF hosted.keeps_throwIfAborted]
          hosted.leads_first [OF leads_completeCleanReset [OF c]]])
      (auto intro: pooled_before pooled_after that flow_rules)
  have after: "hosted.leads key_of (?C result)
     (andThenF (look wd_now) (\<lambda>now.
        let t2 = mergeResetTiming (setResetPhase ''reset'' (ms (now - started)) t1) result in
        if \<not> cleanOutcome (rt_outcome t2)
        then andThenF (recordResetTiming q r (t2\<lparr>rt_outcome := OPending\<rparr>)) (\<lambda>_. answer ToDestroy)
        else andThenF (tagged t2 False (throwIfAborted b)) (\<lambda>_.
             andThenF (completeCleanReset opts host q r t2 b) (\<lambda>_. answer ToIdle))))" for started t1 result
  proof (rule hosted.leads_later [OF hosted.keeps_look])
    fix now
    show "hosted.leads key_of (?C result)
       (let t2 = mergeResetTiming (setResetPhase ''reset'' (ms (now - started)) t1) result in
        if \<not> cleanOutcome (rt_outcome t2)
        then andThenF (recordResetTiming q r (t2\<lparr>rt_outcome := OPending\<rparr>)) (\<lambda>_. answer ToDestroy)
        else andThenF (tagged t2 False (throwIfAborted b)) (\<lambda>_.
             andThenF (completeCleanReset opts host q r t2 b) (\<lambda>_. answer ToIdle)))"
      unfolding Let_def foundClean_iff
      by (rule hosted.leads_if [OF destroyed kept]) blast
  qed (auto intro: pooled_before)
  show ?thesis
    unfolding resetAndReturn_def
  proof (rule hosted.leads_later [OF hosted.keeps_look])
    fix started
    show "hosted.leads key_of ?B
      (andThenF (runReset opts host reset r p b t) (\<lambda>(t1, result).
        andThenF (look wd_now) (\<lambda>now.
        let t2 = mergeResetTiming (setResetPhase ''reset'' (ms (now - started)) t1) result in
        if \<not> cleanOutcome (rt_outcome t2)
        then andThenF (recordResetTiming q r (t2\<lparr>rt_outcome := OPending\<rparr>)) (\<lambda>_. answer ToDestroy)
        else andThenF (tagged t2 False (throwIfAborted b)) (\<lambda>_.
             andThenF (completeCleanReset opts host q r t2 b) (\<lambda>_. answer ToIdle)))))"
      by (rule hosted.leads_andThen [OF leads_runReset [OF c native], where C = "\<lambda>(t1, result). ?C result"])
        (auto simp: returned_def reset intro: after split: prod.splits)
  qed (auto intro: returned_before)
qed

text \<open>The session's work ended by the native release.\<close>

definition settledWork ::
  "(scope_identity \<Rightarrow> string) \<Rightarrow> broker_options \<Rightarrow> string \<Rightarrow> scene \<Rightarrow> scene \<Rightarrow> bool" where
  "settledWork key_of opts u s s' \<longleftrightarrow> (\<exists>t t'. hosted key_of s t \<and>
     dp_release (bo_devices opts) u t = (Inr True, t') \<and> hosted key_of t' s')"

definition recycled ::
  "(scope_identity \<Rightarrow> string) \<Rightarrow> broker_options \<Rightarrow> broker_host \<Rightarrow> request_row \<Rightarrow> resource_row \<Rightarrow> string \<Rightarrow>
   scene \<Rightarrow> scene \<Rightarrow> bool" where
  "recycled key_of opts host q r u s s' \<longleftrightarrow> rs_state r = Resetting \<and>
     (\<exists>p. nativeProfile (rs_profile r) = Inr p \<and> cleanDeviceReuseEnabled (platformName p) opts) \<and>
     (\<exists>t. settledWork key_of opts u s t \<and> returned key_of opts host q r t s')"

lemma settledWork_before: "hosted key_of s t \<Longrightarrow> settledWork key_of opts u t s' \<Longrightarrow> settledWork key_of opts u s s'"
  unfolding settledWork_def using hosted.R_trans by blast

lemma recycled_before: "hosted key_of s t \<Longrightarrow> recycled key_of opts host q r u t s' \<Longrightarrow> recycled key_of opts host q r u s s'"
  unfolding recycled_def using settledWork_before by blast

lemma leads_resetIfReusable:
  assumes c: "native_contract key_of opts host"
  shows "hosted.leads key_of (\<lambda>y s s'. y = ToIdle \<longrightarrow> rs_state r = Resetting \<and>
     (\<exists>p. nativeProfile (rs_profile r) = Inr p \<and> cleanDeviceReuseEnabled (platformName p) opts) \<and>
     returned key_of opts host q r s s') (resetIfReusable opts host q r b t)"
proof -
  let ?E = "\<lambda>p y s s'. y = ToIdle \<longrightarrow> cleanDeviceReuseEnabled (platformName p) opts \<and> rs_state r = Resetting \<and>
      returned key_of opts host q r s s'"
  have profile: "hosted.leads key_of (\<lambda>p s s'. nativeProfile (rs_profile r) = Inr p)
     (tagged t False (lifted (nativeProfile (rs_profile r))))"
    by (rule leads_tagged) (simp add: hosted.leads_def hosted.meets_lifted)
  have destroyed: "hosted.leads key_of (?E p) (andThenF (recordResetTiming q r t) (\<lambda>_. answer ToDestroy))" for p
    by (rule hosted.leads_later [OF keeps_recordResetTiming hosted.leads_answer]) (auto intro: returned_before)
  have byReset: "hosted.leads key_of (?E p) (case dp_reset (bo_devices opts) of
       None \<Rightarrow> andThenF (recordResetTiming q r t) (\<lambda>_. answer ToDestroy)
     | Some reset \<Rightarrow>
         if \<not> cleanDeviceReuseEnabled (platformName p) opts \<or> rs_state r \<noteq> Resetting
         then andThenF (recordResetTiming q r t) (\<lambda>_. answer ToDestroy)
         else resetAndReturn opts host reset q r p b t)" for p
  proof (cases "dp_reset (bo_devices opts)")
    case (Some reset)
    have kept: "hosted.leads key_of (?E p) (resetAndReturn opts host reset q r p b t)"
      if "\<not> (\<not> cleanDeviceReuseEnabled (platformName p) opts \<or> rs_state r \<noteq> Resetting)"
      using that by (intro hosted.leads_weaken [OF leads_resetAndReturn [OF c Some]]) simp
    show ?thesis unfolding Some option.case by (rule hosted.leads_if [OF destroyed kept])
  qed (simp only: option.case destroyed)
  show ?thesis
    unfolding resetIfReusable_def
    by (rule hosted.leads_andThen [OF profile byReset]) (auto intro: returned_before)
qed

lemma leads_drainThenReset:
  assumes c: "native_contract key_of opts host"
  shows "hosted.leads key_of (\<lambda>y s s'. y = ToIdle \<longrightarrow> recycled key_of opts host q r u s s')
     (drainThenReset opts host q r u b t0)"
proof -
  let ?B = "\<lambda>y s s'. y = ToIdle \<longrightarrow> recycled key_of opts host q r u s s'"
  let ?D = "\<lambda>settled y s s'. y = ToIdle \<longrightarrow> settled \<and> rs_state r = Resetting \<and>
     (\<exists>p. nativeProfile (rs_profile r) = Inr p \<and> cleanDeviceReuseEnabled (platformName p) opts) \<and>
     returned key_of opts host q r s s'"
  let ?next = "\<lambda>settled t2. if \<not> settled then andThenF (recordResetTiming q r t2) (\<lambda>_. answer StillPending)
     else andThenF (tagged t2 False (throwIfAborted b)) (\<lambda>_. resetIfReusable opts host q r b t2)"
  have drain: "hosted.leads key_of (\<lambda>settled s s'. settled \<longrightarrow> settledWork key_of opts u s s')
     (tagged t1 False (awaiting (dp_release (bo_devices opts) u)))" for t1
  proof (rule leads_tagged [OF hosted.leads_awaiting])
    have "native_call key_of (dp_release (bo_devices opts) u)" using c by (simp add: native_contract_def)
    then show "dp_release (bo_devices opts) u t = (x, t') \<Longrightarrow> hosted key_of t t'" for t x t'
      by (rule native_hosted)
  qed (auto simp: settledWork_def)
  have unsettled: "hosted.leads key_of (?D settled) (andThenF (recordResetTiming q r t2) (\<lambda>_. answer StillPending))"
    for settled t2
    by (rule hosted.leads_later [OF keeps_recordResetTiming hosted.leads_answer]) (auto intro: returned_before)
  have reset: "hosted.leads key_of (?D settled)
      (andThenF (tagged t2 False (throwIfAborted b)) (\<lambda>_. resetIfReusable opts host q r b t2))"
    if "\<not> \<not> settled" for settled t2
    using that
    by (intro hosted.leads_later [OF keeps_tagged [OF hosted.keeps_throwIfAborted]
          hosted.leads_weaken [OF leads_resetIfReusable [OF c]]]) (auto intro: returned_before)
  have byDrain: "hosted.leads key_of (?D settled)
      (andThenF (look wd_now) (\<lambda>now. ?next settled (setResetPhase ''drain'' (ms (now - started)) t1)))"
    for settled started t1
    by (rule hosted.leads_later [OF hosted.keeps_look hosted.leads_if [OF unsettled reset]])
      (auto intro: returned_before)
  have drained: "hosted.leads key_of ?B (andThenF (tagged t1 False (awaiting (dp_release (bo_devices opts) u)))
      (\<lambda>settled. andThenF (look wd_now) (\<lambda>now. ?next settled (setResetPhase ''drain'' (ms (now - started)) t1))))"
    for started t1
    by (rule hosted.leads_andThen [OF drain byDrain]) (auto simp: recycled_def)
  show ?thesis
    unfolding drainThenReset_def Let_def
    by (rule hosted.leads_later [OF keeps_recordResetTiming hosted.leads_later [OF hosted.keeps_look drained]])
      (auto intro: recycled_before)
qed

text \<open>
  C5: A device goes back to the idle pool only clean. When \<open>drainAndReset\<close> answers \<open>idle\<close>, then in this
  order and during this call: the native side answered that the session's work had settled; the
  platform is one whose clean devices are reused and the device was held for this reset; the native
  reset of this very device answered that it is clean; and the store committed the clean release of the
  request. Whatever else runs at the suspensions, an unsettled drain, a failed or unclean reset or a
  failed commit never gives that answer.
\<close>

theorem pooled_only_after_clean_reset:
  assumes "native_contract key_of opts host" and "fair (hosted key_of) mv"
    and "drainAndReset opts host q r u b s mv = (Inr ToIdle, s', mv')"
  shows "rs_state r = Resetting \<and>
    (\<exists>p. nativeProfile (rs_profile r) = Inr p \<and> cleanDeviceReuseEnabled (platformName p) opts) \<and>
    (\<exists>s0 s1 reset s2 result waits s3 s4 tickets db.
       hosted key_of s s0 \<and> dp_release (bo_devices opts) u s0 = (Inr True, s1) \<and> hosted key_of s1 s2 \<and>
       dp_reset (bo_devices opts) = Some reset \<and> reset r s2 = (Inr (Inr result, waits), s3) \<and>
       foundClean result \<and> hosted key_of s3 s4 \<and>
       completeCleanRelease (ho_localeCompare host) (wd_now s4) (rq_id q) (bo_owner opts) (bo_limits opts)
         (wd_db s4) = Inr (tickets, db) \<and> hosted key_of (s4\<lparr>wd_db := db\<rparr>) s')"
proof -
  let ?B = "\<lambda>y s s'. y = ToIdle \<longrightarrow> recycled key_of opts host q r u s s'"
  have failed: "hosted.leads key_of ?B (afterResetFailure host q r thrown)" for thrown
  proof -
    obtain t clean e where thrown: "thrown = (t, clean, e)" by (metis prod.exhaust)
    obtain heap v where g: "errorGraph host (resetCause e) = (heap, v)" by (metis surj_pair)
    show ?thesis
      unfolding afterResetFailure_def thrown Let_def g prod.case
      by (rule hosted.leads_later [OF keeps_recordResetTiming hosted.leads_answer])
        (auto split: drain_failure.splits intro: recycled_before)
  qed
  have "hosted.leads key_of ?B (drainAndReset opts host q r u b)"
    unfolding drainAndReset_def
    by (rule hosted.leads_later [OF hosted.keeps_look
          hosted.leads_catching [OF leads_drainThenReset [OF assms(1)] failed]])
      (auto intro: recycled_before)
  from meetsD [OF this [unfolded hosted.leads_def] assms(2,3)]
  have "recycled key_of opts host q r u s s'" by blast
  then show ?thesis
    unfolding recycled_def settledWork_def returned_def wasReset_def pooled_def
    using hosted.R_trans by blast
qed

theorem pooled_only_after_clean_reset_witness:
  "\<exists>q r s' mv' s2 s3 waits reset result. readRequest demo7 ''q1'' = Some q \<and> readResource demo7 ''r1'' = Some r \<and>
     drainAndReset demo_options demo_host q r ''s1'' False (demo_scene demo7) [] = (Inr ToIdle, s', mv') \<and>
     dp_reset (bo_devices demo_options) = Some reset \<and> reset r s2 = (Inr (Inr result, waits), s3) \<and> foundClean result"
proof -
  have "case (readRequest demo7 ''q1'', readResource demo7 ''r1'') of (Some q, Some r) \<Rightarrow>
     (case drainAndReset demo_options demo_host q r ''s1'' False (demo_scene demo7) [] of
        (Inr d, s', mv') \<Rightarrow> d = ToIdle | (Inl e, s', mv') \<Rightarrow> False) | _ \<Rightarrow> False"
    by code_simp
  then obtain q r where rows: "readRequest demo7 ''q1'' = Some q" "readResource demo7 ''r1'' = Some r"
    "case drainAndReset demo_options demo_host q r ''s1'' False (demo_scene demo7) [] of
        (Inr d, s', mv') \<Rightarrow> d = ToIdle | (Inl e, s', mv') \<Rightarrow> False"
    by (auto split: option.splits)
  from answered_run [OF rows(3)] obtain s' mv' where run:
    "drainAndReset demo_options demo_host q r ''s1'' False (demo_scene demo7) [] = (Inr ToIdle, s', mv')" by blast
  from pooled_only_after_clean_reset [OF demo_contract _ run] run rows show ?thesis
    by (simp add: fair_def) blast
qed

end
