(* ===== verification/BrokerCallTheorems.thy ===== *)
theory BrokerCallTheorems
  imports BrokerReleaseTheorems
begin

text \<open>
  What the broker's preparation promises: a ready reply names a session that was active.
\<close>

lemma active_session_held:
  assumes "inj key_of" and "(broker_step key_of)\<^sup>*\<^sup>* empty_db db" and "active_receipt k session db"
  shows "\<exists>q u r x. readRequest db k = Some q \<and> rq_state q = RActive \<and> session = Some u \<and> rq_session q = Some u \<and>
     rq_resource q = Some r \<and> readResource db r = Some x \<and> rs_state x = Active \<and> rs_request x = Some k"
proof -
  obtain q where q: "readRequest db k = Some q" "rq_state q = RActive" "rq_session q = session"
    using assms(3) by (auto simp: active_receipt_def)
  have inv: "broker_inv db" by (rule reached_broker_inv [OF assms(1,2)])
  have "request_ok (resources db) q" using broker_inv_request [OF inv q(1)] by simp
  then obtain u r where u: "rq_session q = Some u" "rq_resource q = Some r"
    using q(2) by (auto simp: request_ok_def holds_resource_def split: option.splits)
  from unfinished_holds [OF inv q(1) _ u(2)] q(2) obtain x where x: "readResource db r = Some x"
    "rs_request x = Some k" "pair_ok RActive (rs_state x)" by auto
  moreover have "rs_state x = Active" using x(3) by (cases "rs_state x") auto
  ultimately show ?thesis using q u by auto
qed

text \<open>
  C3: When \<open>SessionBroker.prepare\<close> answers \<open>ready\<close>, at some moment between its call and its answer the
  receipt of the request was active with exactly the session the answer names, and a device resource
  was active for this request alone. This covers every path: a replayed receipt, a reused, a created or
  an evicted-for device, a wait for a reset, an abort or a broker stop in between, and whatever other
  requests, other daemons and failing store calls do at each suspension.
\<close>

theorem ready_reply_true:
  assumes "inj key_of" and "native_contract key_of opts host"
    and "(broker_step key_of)\<^sup>*\<^sup>* empty_db (wd_db s)" and "fair (hosted key_of) mv"
    and "prepare opts host n config token i s mv = (Inr reply, s', mv')" and "ry_outcome reply = ReplyReady"
  shows "\<exists>db q u r x. (broker_step key_of)\<^sup>*\<^sup>* (wd_db s) db \<and> (broker_step key_of)\<^sup>*\<^sup>* db (wd_db s') \<and>
     ry_sessionUuid reply = Some u \<and>
     readRequest db (cf_requestId config) = Some q \<and> rq_state q = RActive \<and> rq_session q = Some u \<and>
     rq_resource q = Some r \<and> readResource db r = Some x \<and> rs_state x = Active \<and>
     rs_request x = Some (cf_requestId config)"
proof -
  have "hosted.once key_of (backed (cf_requestId config) reply) s s'"
    using meetsD [OF vouching_prepare [OF assms(2), unfolded hosted.vouches_def] assms(4,5)] by simp
  then obtain t where t: "hosted key_of s t" "backed (cf_requestId config) reply t" "hosted key_of t s'"
    by (auto simp: hosted.once_def)
  then have active: "active_receipt (cf_requestId config) (ry_sessionUuid reply) (wd_db t)"
    using assms(6) by (simp add: backed_def)
  have "(broker_step key_of)\<^sup>*\<^sup>* empty_db (wd_db t)" using assms(3) t(1) by (auto simp: hosted_def)
  from active_session_held [OF assms(1) this active] t(1,3) show ?thesis unfolding hosted_def by blast
qed

theorem ready_reply_true_witness:
  "\<exists>reply s' mv' db q. prepare demo_options demo_host 0 demo_config ''t'' None (demo_scene demo6) [] = (Inr reply, s', mv') \<and>
     ry_sessionUuid reply = Some ''s1'' \<and> (broker_step plain_scope_key)\<^sup>*\<^sup>* demo6 db \<and>
     readRequest db ''q1'' = Some q \<and> rq_state q = RActive \<and> rq_session q = Some ''s1''"
proof -
  have "case prepare demo_options demo_host 0 demo_config ''t'' None (demo_scene demo6) [] of
     (Inr reply, s', mv') \<Rightarrow> ry_outcome reply = ReplyReady \<and> ry_sessionUuid reply = Some ''s1'' | (Inl e, s', mv') \<Rightarrow> False"
    by code_simp
  from answered_run [OF this] obtain reply s' mv' where run:
    "prepare demo_options demo_host 0 demo_config ''t'' None (demo_scene demo6) [] = (Inr reply, s', mv')"
    "ry_outcome reply = ReplyReady" "ry_sessionUuid reply = Some ''s1''"
    by blast
  have db: "wd_db (demo_scene demo6) = demo6" by (simp add: demo_scene_def)
  then have "(broker_step plain_scope_key)\<^sup>*\<^sup>* empty_db (wd_db (demo_scene demo6))" using demo_reach6 by simp
  from ready_reply_true [OF inj_plain_scope_key demo_contract this _ run(1,2)] run db show ?thesis
    by (auto simp: fair_def demo_config_def)
qed

end
