(* ===== verification/BrokerEvictions.thy ===== *)
theory BrokerEvictions
  imports BrokerFlowTheorems
begin

text \<open>
  The eviction loop of a preparation ends. While the rest of the host moves it may go on: every round
  waits, so a finite sequence of moves is used up. Once the host is quiet, every round that asks for
  another eviction has taken one more device out of the idle pool.
\<close>

section \<open>The idle pool shrinks\<close>

definition idleIds :: "broker_db \<Rightarrow> string set" where
  "idleIds db = rs_id ` {x \<in> set (resources db). rs_state x = Idle}"

lemma finite_idleIds [simp]: "finite (idleIds db)"
  by (simp add: idleIds_def)

lemma idleIds_resources: "resources db' = resources db \<Longrightarrow> idleIds db' = idleIds db"
  by (simp add: idleIds_def)

text \<open>Retiring the rows of one id takes exactly that id out.\<close>

lemma idleIds_put:
  assumes "\<And>x. rs_id (f x) = rs_id x" and "\<And>x. rs_state (f x) \<noteq> Idle"
  shows "idleIds (put_resource k f db) = idleIds db - {k}"
  using assms by (auto simp: idleIds_def put_resource_def update_where_def image_iff split: if_splits)

lemma resources_timingDestroyed [simp]: "resources (timingDestroyed now k db) = resources db"
  by (auto simp: timingDestroyed_def put_request_def split: option.splits)

lemma idleIds_tombstones: "idleIds (deleteUnreferencedTombstones k db) \<subseteq> idleIds db"
  by (auto simp: idleIds_def deleteUnreferencedTombstones_def delete_where_def)

lemma updateRequest_resources: "updateRequest now k st f db = Inr (q, db') \<Longrightarrow> resources db' = resources db"
  by (auto simp: updateRequest_def Let_def orThrow_def put_request_def split: option.splits)

lemma settle_resources: "settleRequestAfterDestruction now r db = Inr db' \<Longrightarrow> resources db' = resources db"
  by (auto simp: settleRequestAfterDestruction_def requireValue_def put_request_def
      dest: updateRequest_resources split: option.splits if_splits)

lemma confirmDestroyed_idle:
  assumes "confirmDestroyed now t db = Inr (b, db')"
  shows "idleIds db' \<subseteq> idleIds db"
proof -
  let ?gone = "\<lambda>r. put_resource (rs_id r) (rs_state_update (\<lambda>_. Destroyed)) db"
  have gone: "idleIds (?gone r) \<subseteq> idleIds db" for r by (simp add: idleIds_put)
  show ?thesis
  proof (cases "readResource db (fst t)")
    case (Some r)
    show ?thesis
    proof (cases "truthy (rs_request r)")
      case True
      then have "db' = db \<or> (\<exists>db2. settleRequestAfterDestruction now r (?gone r) = Inr db2 \<and>
          db' = timingDestroyed now (rs_request r) db2)"
        using assms Some by (auto simp: confirmDestroyed_def Let_def split: if_splits)
      then have "db' = db \<or> idleIds db' = idleIds (?gone r)"
        using settle_resources idleIds_resources by (metis resources_timingDestroyed)
      then show ?thesis using gone [of r] by blast
    next
      case False
      then have "db' = db \<or> db' = timingDestroyed now (rs_request r)
          (deleteUnreferencedTombstones (Some (rs_id r)) (?gone r))"
        using assms Some by (auto simp: confirmDestroyed_def Let_def split: if_splits)
      then have "db' = db \<or> idleIds db' = idleIds (deleteUnreferencedTombstones (Some (rs_id r)) (?gone r))"
        using idleIds_resources by (metis resources_timingDestroyed)
      then show ?thesis using gone [of r] idleIds_tombstones [of "Some (rs_id r)" "?gone r"] by blast
    qed
  qed (use assms in \<open>simp add: confirmDestroyed_def\<close>)
qed

lemma reserve_evicts:
  assumes inv: "broker_inv db" and run: "reserve lc now newId scope q inp db = Inr (BEvict q1 r, db')"
  shows "idleIds db' \<subset> idleIds db"
  using run
proof (cases rule: reserve_cases)
  case (evict c i x r1 db1 q2)
  have row: "readResource db i = Some x" "rs_id x = i" "rs_state x = Idle"
    using chosen_row_idle [OF inv evict(1) _ evict(2)] by auto
  have "resources db' = resources db1"
    using evict(4) by (auto simp: finish_reserve_def dest: updateRequest_resources)
  moreover have "db1 = put_resource i (\<lambda>y. y\<lparr>rs_state := Destroying, rs_request := Some (rq_id q),
      rs_reuse := rs_reuse x, rs_revision := rs_revision x + 1\<rparr>) db"
    using evict(3) row(2) by (auto simp: updateResource_def Let_def)
  ultimately have "idleIds db' = idleIds db - {i}" using idleIds_resources [of db' db1] by (simp add: idleIds_put)
  moreover have "i \<in> idleIds db"
    using row resource_table.get_SomeD [OF row(1)] by (auto simp: idleIds_def)
  ultimately show ?thesis by blast
qed simp_all

lemma admitAgain_evicts:
  assumes "broker_inv db" and "admitAgain host now inp db = Inr (BEvict q r, db')"
  shows "idleIds db' \<subset> idleIds db"
proof -
  obtain p where "reserve (ho_localeCompare host) now (ho_newId host now) (ho_scope host) p inp db =
      Inr (BEvict q r, db')"
    using assms(2) by (auto simp: admitAgain_def continueAdmission_def ownedRequest_def split: if_splits option.splits)
  then show ?thesis by (rule reserve_evicts [OF assms(1)])
qed

lemma registry_steps_idle:
  assumes "(registry_step key_of)\<^sup>*\<^sup>* db db'" and "safe_system key_of db" and "inj key_of"
  shows "idleIds db' = idleIds db"
proof -
  have "safe_system key_of db' \<and> idleIds db' = idleIds db"
    using assms(1)
  proof (induction rule: rtranclp_induct)
    case (step b c)
    have "registry_inv key_of b" using step.IH assms(3) by (simp add: safe_system_def system_inv_def)
    then have "resources c = resources b" using registry_step_store [OF step.hyps(2)] by (simp add: same_store_def)
    from idleIds_resources [OF this] have "idleIds c = idleIds db" using step.IH by simp
    moreover have "broker_step key_of b c" using step.hyps(2) by (simp add: broker_step_def)
    then have "safe_system key_of c" using step.IH broker_runs.inv_step by blast
    ultimately show ?case by simp
  qed (simp add: assms(2))
  then show ?thesis by simp
qed

section \<open>Runs that are not cut short\<close>

text \<open>
  \<open>OutOfFuel\<close> marks a loop cut short; no error of the host is that mark. \<open>bounded fuel m\<close>: under such
  moves \<open>m\<close> neither answers the mark nor makes moves of its own.
\<close>

definition unmarked :: "move list \<Rightarrow> bool" where
  "unmarked mv \<longleftrightarrow> list_all (\<lambda>m. mv_fault m \<noteq> Some OutOfFuel) mv"

definition bounded :: "('e \<Rightarrow> bool) \<Rightarrow> ('e, 'a) flow \<Rightarrow> bool" where
  "bounded mark m \<longleftrightarrow> (\<forall>s mv r s' mv'. unmarked mv \<longrightarrow> m s mv = (r, s', mv') \<longrightarrow>
     unmarked mv' \<and> length mv' \<le> length mv \<and> (\<forall>e. r = Inl e \<longrightarrow> \<not> mark e))"

abbreviation plainly :: "(thrown_error, 'a) flow \<Rightarrow> bool" where
  "plainly m \<equiv> bounded (\<lambda>e. e = OutOfFuel) m"

named_theorems bounds \<open>flows that are not cut short\<close>

lemma boundedD:
  "bounded mark m \<Longrightarrow> unmarked mv \<Longrightarrow> m s mv = (r, s', mv') \<Longrightarrow>
   unmarked mv' \<and> length mv' \<le> length mv \<and> (\<forall>e. r = Inl e \<longrightarrow> \<not> mark e)"
  by (auto simp: bounded_def)

lemma bounded_answer [bounds]: "bounded mark (answer x)"
  by (simp add: bounded_def answer_def)

lemma bounded_throw [bounds]: "\<not> mark e \<Longrightarrow> bounded mark (throw e)"
  by (simp add: bounded_def throw_def)

lemma bounded_look [bounds]: "bounded mark (look f)"
  by (simp add: bounded_def look_def)

lemma bounded_change [bounds]: "bounded mark (change f)"
  by (simp add: bounded_def change_def)

lemma bounded_andThen [bounds]:
  assumes "bounded mark m" and "\<And>x. bounded mark (f x)"
  shows "bounded mark (andThenF m f)"
  unfolding bounded_def
proof (intro allI impI)
  fix s mv r s' mv'
  assume mv: "unmarked mv" and run: "andThenF m f s mv = (r, s', mv')"
  obtain r1 s1 mv1 where one: "m s mv = (r1, s1, mv1)" by (metis surj_pair)
  note first = boundedD [OF assms(1) mv one]
  show "unmarked mv' \<and> length mv' \<le> length mv \<and> (\<forall>e. r = Inl e \<longrightarrow> \<not> mark e)"
  proof (cases r1)
    case (Inl e)
    then show ?thesis using run one first by (simp add: andThenF_def) blast
  next
    case (Inr x)
    then have "f x s1 mv1 = (r, s', mv')" using run one by (simp add: andThenF_def)
    from boundedD [OF assms(2) _ this] first show ?thesis by auto
  qed
qed

lemma bounded_catching [bounds]:
  assumes "bounded mark m" and "\<And>e. \<not> mark e \<Longrightarrow> bounded mark' (h e)"
  shows "bounded mark' (catching m h)"
  unfolding bounded_def
proof (intro allI impI)
  fix s mv r s' mv'
  assume mv: "unmarked mv" and run: "catching m h s mv = (r, s', mv')"
  obtain r1 s1 mv1 where one: "m s mv = (r1, s1, mv1)" by (metis surj_pair)
  note first = boundedD [OF assms(1) mv one]
  show "unmarked mv' \<and> length mv' \<le> length mv \<and> (\<forall>e. r = Inl e \<longrightarrow> \<not> mark' e)"
  proof (cases r1)
    case (Inr x)
    then show ?thesis using run one first by (auto simp: catching_def)
  next
    case (Inl e)
    then have "h e s1 mv1 = (r, s', mv')" "\<not> mark e" using run one first by (simp_all add: catching_def)
    from boundedD [OF assms(2) [OF this(2)] _ this(1)] first show ?thesis by auto
  qed
qed

lemma turn_unmarked:
  "unmarked mv \<Longrightarrow> turn s mv = (fault, s', mv') \<Longrightarrow>
   unmarked mv' \<and> fault \<noteq> Some OutOfFuel \<and> length mv' \<le> length mv \<and> (mv \<noteq> [] \<longrightarrow> length mv' < length mv)"
  by (cases mv) (auto simp: unmarked_def turn_def)

lemma awaiting_unmarked:
  assumes "unmarked mv" and "awaiting act s mv = (r, s', mv')" and "\<And>t. fst (act t) \<noteq> Inl OutOfFuel"
  shows "unmarked mv' \<and> length mv' \<le> length mv \<and> (mv \<noteq> [] \<longrightarrow> length mv' < length mv) \<and> r \<noteq> Inl OutOfFuel"
proof -
  obtain fault s1 mv1 where t1: "turn s mv = (fault, s1, mv1)" by (metis surj_pair)
  obtain r2 s2 where mid: "(case fault of Some e \<Rightarrow> (Inl e, s1) | None \<Rightarrow> act s1) = (r2, s2)" by (metis surj_pair)
  obtain g s3 mv3 where t2: "turn s2 mv1 = (g, s3, mv3)" by (metis surj_pair)
  note one = turn_unmarked [OF assms(1) t1]
  note two = turn_unmarked [OF _ t2]
  have "r = r2" "mv' = mv3" using assms(2) t1 mid t2 by (auto simp: awaiting_def)
  moreover have "r2 \<noteq> Inl OutOfFuel" using mid one assms(3) [of s1] by (auto split: option.splits)
  ultimately show ?thesis using one two by fastforce
qed

lemma bounded_awaiting [bounds]: "(\<And>t. fst (act t) \<noteq> Inl OutOfFuel) \<Longrightarrow> plainly (awaiting act)"
  using awaiting_unmarked unfolding bounded_def by blast

lemma bounded_transaction [bounds]: "plainly (transaction tx)"
  unfolding transaction_def by (rule bounded_awaiting) (auto split: sum.split prod.split)

lemma bounded_throwIfAborted [bounds]: "plainly (throwIfAborted b)"
  unfolding throwIfAborted_def by (auto intro!: bounds split: option.split)

lemma bounded_admitting [bounds]: "plainly (admitting tx inp)"
  unfolding admitting_def by (rule bounded_awaiting) (auto split: sum.split prod.split)

lemma bounded_destroyF [bounds]:
  "(\<And>r t. fst (dp_destroy (bo_devices opts) r t) \<noteq> Inl OutOfFuel) \<Longrightarrow> plainly (destroyF opts r b)"
  unfolding destroyF_def by (auto intro!: bounds split: native_outcome.split)

section \<open>The loop ends\<close>

text \<open>One round: destroy the chosen device and ask again. It lasts at least one move, if there is one.\<close>

definition evictionRound ::
  "broker_options \<Rightarrow> broker_host \<Rightarrow> admission_input \<Rightarrow> resource_row \<Rightarrow> (thrown_error, broker_admission) flow" where
  "evictionRound opts host inp r =
     andThenF (catching (destroyF opts r False)
                 (\<lambda>e. if isRetryable host e then answer False else throw e)) (\<lambda>destroyed.
     if \<not> destroyed then throw (FailureThrown evictionPending)
     else andThenF (throwIfAborted True) (\<lambda>_. admitting (admitAgain host) inp))"

lemma andThenF_assoc: "andThenF (andThenF m f) g = andThenF m (\<lambda>x. andThenF (f x) g)"
  by (intro ext) (simp add: andThenF_def split: prod.split sum.split)

lemma andThenF_throw: "andThenF (throw e) f = throw e"
  by (intro ext) (simp add: andThenF_def throw_def)

lemma evictions_round:
  "evictions opts host inp (Suc n) (BEvict q r) =
     andThenF (evictionRound opts host inp r) (evictions opts host inp n)"
  unfolding evictionRound_def andThenF_assoc
  by (simp add: andThenF_assoc andThenF_throw if_distrib [where f = "\<lambda>m. andThenF m (evictions opts host inp n)"] cong: if_cong)

definition nativeUnmarked :: "broker_options \<Rightarrow> bool" where
  "nativeUnmarked opts \<longleftrightarrow> (\<forall>r t. fst (dp_destroy (bo_devices opts) r t) \<noteq> Inl OutOfFuel)"

lemma evictionRound_bounded: "nativeUnmarked opts \<Longrightarrow> plainly (evictionRound opts host inp r)"
  unfolding evictionRound_def nativeUnmarked_def
  by (intro bounds) (auto intro!: bounds)

lemma evictionRound_keeps:
  assumes "native_contract key_of opts host"
  shows "keeps (hosted key_of) (evictionRound opts host inp r)"
proof -
  have "ho_newId host now \<noteq> []" for now using assms by (simp add: native_contract_def)
  then show ?thesis
    unfolding evictionRound_def using assms by (auto intro!: flow_rules intro: admitAgain_step)
qed

lemma hosted_safe: "safe_system key_of (wd_db s) \<Longrightarrow> hosted key_of s t \<Longrightarrow> safe_system key_of (wd_db t)"
  using broker_runs.inv_steps unfolding hosted_def by blast

text \<open>With moves left, a round uses at least one.\<close>

lemma evictionRound_shortens:
  assumes native: "nativeUnmarked opts" and mv: "unmarked mv" "mv \<noteq> []"
    and run: "evictionRound opts host inp r s mv = (x, s', mv')"
  shows "length mv' < length mv"
proof -
  let ?retry = "\<lambda>e. if isRetryable host e then answer False else throw e"
  obtain r1 s1 mv1 where one: "awaiting (dp_destroy (bo_devices opts) r) s mv = (r1, s1, mv1)" by (metis surj_pair)
  have first: "unmarked mv1 \<and> length mv1 < length mv \<and> r1 \<noteq> Inl OutOfFuel"
    using awaiting_unmarked [OF mv(1) one] native mv(2) by (simp add: nativeUnmarked_def)
  obtain r2 s2 mv2 where two: "catching (destroyF opts r False) ?retry s mv = (r2, s2, mv2)"
    by (rule prod_cases3)
  have second: "unmarked mv2 \<and> length mv2 \<le> length mv1"
  proof (cases r1)
    case (Inl e)
    then have "destroyF opts r False s mv = (Inl e, s1, mv1)" using one by (simp add: destroyF_def andThenF_def)
    then have "?retry e s1 mv1 = (r2, s2, mv2)" using two by (simp add: catching_def)
    then show ?thesis using first by (auto simp: answer_def throw_def split: if_splits)
  next
    case (Inr answered)
    let ?rest = "case answered of NativePending \<Rightarrow> answer False
     | Absent \<Rightarrow> andThenF (throwIfAborted False) (\<lambda>_.
         transaction (\<lambda>now db. confirmDestroyed now (destructionTicket r) db))"
    have "destroyF opts r False s mv = ?rest s1 mv1" using one Inr by (simp add: destroyF_def andThenF_def)
    then have "catching ?rest ?retry s1 mv1 = (r2, s2, mv2)" using two by (simp add: catching_def)
    moreover have "plainly (catching ?rest ?retry)" by (cases answered) (auto intro!: bounds)
    ultimately show ?thesis using boundedD first by blast
  qed
  show ?thesis
  proof (cases r2)
    case (Inl e)
    then show ?thesis using run two first second by (simp add: evictionRound_def andThenF_def)
  next
    case (Inr destroyed)
    have "(if \<not> destroyed then throw (FailureThrown evictionPending)
       else andThenF (throwIfAborted True) (\<lambda>_. admitting (admitAgain host) inp)) s2 mv2 = (x, s', mv')"
      using run two Inr by (simp add: evictionRound_def andThenF_def)
    moreover have "plainly (if \<not> destroyed then throw (FailureThrown evictionPending)
       else andThenF (throwIfAborted True) (\<lambda>_. admitting (admitAgain host) inp))"
      by (auto intro!: bounds)
    ultimately show ?thesis using boundedD first second by (meson le_less_trans order_trans)
  qed
qed

text \<open>In a quiet world, a round that asks for another eviction has emptied one more place of the pool.\<close>

lemma destroyF_quiet:
  assumes c: "native_contract key_of opts host" and inj: "inj key_of" and safe: "safe_system key_of (wd_db s)"
    and run: "destroyF opts r b s [] = (x, s', mv')"
  shows "idleIds (wd_db s') \<subseteq> idleIds (wd_db s) \<and> mv' = []"
proof -
  obtain r1 s1 where one: "dp_destroy (bo_devices opts) r s = (r1, s1)" by (metis surj_pair)
  have "snd (dp_destroy (bo_devices opts) r s) = s1" using one by simp
  then have "(registry_step key_of)\<^sup>*\<^sup>* (wd_db s) (wd_db s1)"
    using c by (auto simp: native_contract_def native_call_def)
  from registry_steps_idle [OF this safe inj] have idle: "idleIds (wd_db s1) = idleIds (wd_db s)" .
  show ?thesis
  proof (cases "r1 = Inr Absent")
    case True
    let ?tx = "transaction (\<lambda>now db. confirmDestroyed now (destructionTicket r) db)"
    have "andThenF (throwIfAborted b) (\<lambda>_. ?tx) s1 [] = (x, s', mv')"
      using run one True by (simp add: destroyF_def andThenF_def awaiting_quiet)
    then have "?tx s1 [] = (x, s', mv') \<or> s' = s1 \<and> mv' = []"
      by (cases "wd_aborted s1") (simp_all add: andThenF_def throwIfAborted_run split: if_splits)
    then have "s' = s1 \<and> mv' = [] \<or> (\<exists>a db. confirmDestroyed (wd_now s1) (destructionTicket r) (wd_db s1) = Inr (a, db) \<and>
        wd_db s' = db \<and> mv' = [])"
      by (cases "confirmDestroyed (wd_now s1) (destructionTicket r) (wd_db s1)") (auto simp: transaction_quiet split: prod.splits)
    then show ?thesis using idle confirmDestroyed_idle by (metis order_refl)
  next
    case False
    then show ?thesis
      using run one idle
      by (cases r1; cases "projr r1") (auto simp: destroyF_def andThenF_def awaiting_quiet answer_def)
  qed
qed

lemma evictionRound_quiet:
  assumes c: "native_contract key_of opts host" and inj: "inj key_of" and safe: "safe_system key_of (wd_db s)"
    and run: "evictionRound opts host inp r s [] = (Inr (BEvict q1 r1), s', mv')"
  shows "idleIds (wd_db s') \<subset> idleIds (wd_db s) \<and> mv' = []"
proof -
  obtain r0 s0 mv0 where one: "destroyF opts r False s [] = (r0, s0, mv0)" by (metis surj_pair)
  have r0: "r0 = Inr True"
    using run one by (cases r0) (auto simp: evictionRound_def andThenF_def catching_def answer_def throw_def split: if_splits)
  note gone = destroyF_quiet [OF c inj safe one]
  have "safe_system key_of (wd_db s0)"
    using meetsD [OF keeps_destroyF [OF c] _ one] hosted_safe [OF safe] by (simp add: fair_def)
  then have inv: "broker_inv (wd_db s0)" using inj by (simp add: safe_system_def system_inv_def)
  have rest: "(case throwIfAborted True s0 mv0 of (Inl e, s1, mv1) \<Rightarrow> (Inl e, s1, mv1)
     | (Inr u, s1, mv1) \<Rightarrow> admitting (admitAgain host) inp s1 mv1) = (Inr (BEvict q1 r1), s', mv')"
    using run one r0 by (simp add: evictionRound_def andThenF_def catching_def)
  then have "admitting (admitAgain host) inp s0 [] = (Inr (BEvict q1 r1), s', mv')"
    using gone by (auto simp: throwIfAborted_run split: option.splits)
  then obtain db where "admitAgain host (wd_now s0) (liveInput s0 inp) (wd_db s0) = Inr (BEvict q1 r1, db)"
    "wd_db s' = db" "mv' = []"
    by (auto simp: admitting_def awaiting_quiet split: sum.splits prod.splits)
  then show ?thesis using admitAgain_evicts [OF inv] gone by blast
qed

text \<open>How many rounds a run needs at most.\<close>

definition ends ::
  "broker_options \<Rightarrow> broker_host \<Rightarrow> admission_input \<Rightarrow> broker_admission \<Rightarrow> scene \<Rightarrow> move list \<Rightarrow> nat \<Rightarrow> bool" where
  "ends opts host inp a s mv N \<longleftrightarrow> (\<forall>n\<ge>N.
     evictions opts host inp n a s mv = evictions opts host inp N a s mv \<and>
     fst (evictions opts host inp n a s mv) \<noteq> Inl OutOfFuel)"

lemma ends_answered: "(\<And>q r. a \<noteq> BEvict q r) \<Longrightarrow> ends opts host inp a s mv 0"
  by (cases a) (auto simp: ends_def answer_def)

lemma ends_after_round:
  assumes "nativeUnmarked opts" and "unmarked mv" and round: "evictionRound opts host inp r s mv = (x, s1, mv1)"
    and "\<And>b. x = Inr b \<Longrightarrow> \<exists>N. ends opts host inp b s1 mv1 N"
  shows "\<exists>N. ends opts host inp (BEvict q r) s mv N"
proof -
  have step: "evictions opts host inp (Suc n) (BEvict q r) s mv =
      (case x of Inl e \<Rightarrow> (Inl e, s1, mv1) | Inr b \<Rightarrow> evictions opts host inp n b s1 mv1)" for n
    unfolding evictions_round by (simp add: andThenF_def round split: sum.split)
  have "x \<noteq> Inl OutOfFuel"
    using boundedD [OF evictionRound_bounded [OF assms(1)] assms(2) round] by blast
  then obtain N where N: "\<forall>n\<ge>N. evictions opts host inp (Suc n) (BEvict q r) s mv = evictions opts host inp (Suc N) (BEvict q r) s mv \<and>
     fst (evictions opts host inp (Suc n) (BEvict q r) s mv) \<noteq> Inl OutOfFuel"
    using assms(4) step by (cases x) (auto simp: ends_def)
  have "ends opts host inp (BEvict q r) s mv (Suc N)"
    unfolding ends_def
  proof (intro allI impI)
    fix n assume "Suc N \<le> n"
    then obtain m where "n = Suc m" "N \<le> m" by (cases n) auto
    then show "evictions opts host inp n (BEvict q r) s mv = evictions opts host inp (Suc N) (BEvict q r) s mv \<and>
      fst (evictions opts host inp n (BEvict q r) s mv) \<noteq> Inl OutOfFuel" using N by blast
  qed
  then show ?thesis by blast
qed

lemma evictions_settle:
  assumes inj: "inj key_of" and c: "native_contract key_of opts host" and native: "nativeUnmarked opts"
    and "safe_system key_of (wd_db s)" and "fair (hosted key_of) mv" and "unmarked mv"
  shows "\<exists>N. ends opts host inp a s mv N"
  using assms(4-6)
proof (induction "(length mv, card (idleIds (wd_db s)))" arbitrary: a s mv
    rule: wf_induct_rule [OF wf_lex_prod [OF wf_less wf_less]])
  case 1
  show ?case
  proof (cases "\<exists>q r. a = BEvict q r")
    case True
    then obtain q r where a: "a = BEvict q r" by blast
    obtain x s1 mv1 where round: "evictionRound opts host inp r s mv = (x, s1, mv1)" by (metis surj_pair)
    have "\<exists>N. ends opts host inp b s1 mv1 N" if x: "x = Inr b" for b
    proof (cases "\<exists>q r. b = BEvict q r")
      case True
      have "length mv1 < length mv \<or> length mv1 = length mv \<and> card (idleIds (wd_db s1)) < card (idleIds (wd_db s))"
      proof (cases "mv = []")
        case True
        then have "idleIds (wd_db s1) \<subset> idleIds (wd_db s) \<and> mv1 = []"
          using evictionRound_quiet [OF c inj 1(2)] round x \<open>\<exists>q r. b = BEvict q r\<close> by blast
        then show ?thesis using True psubset_card_mono [OF finite_idleIds] by simp
      qed (use evictionRound_shortens [OF native 1(4) _ round] in simp)
      moreover have "fair (hosted key_of) mv1" "safe_system key_of (wd_db s1)" "unmarked mv1"
        using meetsD [OF evictionRound_keeps [OF c] 1(3) round] hosted_safe [OF 1(2)]
          boundedD [OF evictionRound_bounded [OF native] 1(4) round] by blast+
      ultimately show ?thesis by (intro 1(1)) auto
    qed (use ends_answered in blast)
    from ends_after_round [OF native 1(4) round this] show ?thesis unfolding a by blast
  qed (use ends_answered in blast)
qed

text \<open>
  C29: The eviction loop of a preparation ends: whatever finite sequence of moves other requests, other
  daemons and the clock make at its suspensions, and whatever the native side answers, there is a
  number of rounds after which the loop has answered or thrown, and more rounds change nothing. The loop
  is a sequence of rounds, and on a quiet host each round that asks for yet another eviction has taken
  a device out of the idle pool and put none into it.
\<close>

theorem evictions_end:
  assumes inj: "inj key_of" and c: "native_contract key_of opts host" and native: "nativeUnmarked opts"
    and "(broker_step key_of)\<^sup>*\<^sup>* empty_db (wd_db s)" and "fair (hosted key_of) mv" and "unmarked mv"
  shows "(\<exists>N. \<forall>n\<ge>N. evictions opts host inp n a s mv = evictions opts host inp N a s mv \<and>
       fst (evictions opts host inp n a s mv) \<noteq> Inl OutOfFuel) \<and>
     (\<forall>n q r. evictions opts host inp (Suc n) (BEvict q r) =
       andThenF (evictionRound opts host inp r) (evictions opts host inp n)) \<and>
     (\<forall>r q1 r1 s1 mv1. evictionRound opts host inp r s [] = (Inr (BEvict q1 r1), s1, mv1) \<longrightarrow>
       idleIds (wd_db s1) \<subset> idleIds (wd_db s))"
proof -
  have safe: "safe_system key_of (wd_db s)" using broker_runs.inv_reachable assms(4) by blast
  then have "\<exists>N. ends opts host inp a s mv N" by (rule evictions_settle [OF inj c native _ assms(5,6)])
  then show ?thesis
    using evictions_round evictionRound_quiet [OF c inj safe] unfolding ends_def by blast
qed

theorem evictions_end_witness:
  "\<exists>q r N. readRequest demo6 ''q1'' = Some q \<and> readResource demo6 ''r1'' = Some r \<and>
     fst (evictions demo_options demo_host (demo_input ''q1'') N (BEvict q r) (demo_scene demo6) []) \<noteq> Inl OutOfFuel"
proof -
  have "(broker_step plain_scope_key)\<^sup>*\<^sup>* empty_db (wd_db (demo_scene demo6))"
    using demo_reach6 by (simp add: demo_scene_def)
  moreover have "nativeUnmarked demo_options"
    by (simp add: nativeUnmarked_def demo_options_def demo_devices_def)
  moreover have "fair (hosted plain_scope_key) []" "unmarked []" by (simp_all add: fair_def unmarked_def)
  moreover have "readRequest demo6 ''q1'' \<noteq> None" "readResource demo6 ''r1'' \<noteq> None" by code_simp+
  ultimately show ?thesis using evictions_end [OF inj_plain_scope_key demo_contract] by blast
qed

end
