(* ===== verification/JournalStages.thy ===== *)
theory JournalStages
  imports BrokerReplies
begin

text \<open>
  What a drive of the binding journal is made of
  (src/src/daemon/sessionBroker/registry/BindingJournalStageRunner.ts, BindingJournalDeviceLocator.ts,
  BindingJournalRemovalFlags.ts, bindingJournalSupport.ts, bindingJournalQuarantine.ts,
  bindingJournalRecords.ts, bindingJournalTypes.ts): stages on devices that may fail or time out, finding
  the device an entry acts on, and the durable mark that a device is to be removed.

  \<^item> \<open>journal_deps\<close> is what the journal is built from: the inventory, claims, matcher and deleter of
    devices (native calls, parameters), the identity of this process, who is alive, the backoff policy,
    the verdict of the spec schemas, whether an error of the registry is retryable.
  \<^item> The signal of a drive is the scene's; \<open>True\<close> says that a call is given it. Losing a race against a
    deadline or an abort is a fault of the awaited call (\<open>mv_fault\<close>); what the losing call still does
    later is a move of the world. The numbers of the stage budgets only say when that may happen.
  \<^item> Evidence that deleters pass through, and \<open>nativeDeleteFailed\<close>, are read outside the journal only.
\<close>

section \<open>Types\<close>

record device_info =
  di_name :: string
  di_platform :: string
  di_deviceId :: "string option"

record inventory_snapshot =
  iv_complete :: bool
  iv_devices :: "device_info list"

datatype device_claim = ClaimFree | ClaimHeld string | ClaimUnknown string

datatype spec_match = SpecMatches | SpecMismatches | SpecUnknown

record deletion_target =
  dt_platform :: platform
  dt_stableId :: string
  dt_name :: "string option"
  dt_deadlineMs :: int

text \<open>\<open>DeletionFailed message escalationExhausted\<close>.\<close>

datatype deletion_result = DeviceAbsent | DeletionFailed string bool

record journal_deps =
  jd_list :: "platform \<Rightarrow> inventory_snapshot native"
  jd_describe :: "device_info \<Rightarrow> device_claim native"
  jd_matches :: "device_info \<Rightarrow> json \<Rightarrow> spec_match native"
  jd_delete :: "deletion_target \<Rightarrow> deletion_result native"
  jd_owner :: process_identity
  jd_ownerLive :: "process_identity \<Rightarrow> bool"
  jd_execLive :: "exec_owner \<Rightarrow> bool"
  jd_registryLive :: "process_identity \<Rightarrow> bool"
  jd_backoff :: "int \<Rightarrow> int"
  jd_spec :: "platform \<Rightarrow> json \<Rightarrow> json option"
  jd_retryable :: "thrown_error \<Rightarrow> bool"

datatype block_reason =
    DiscoveryIncomplete | DeviceBusy | CleanupStillPending | CleanupQuarantined
  | BindingStillSettling | BindingHeld | ReconcileInProgress | ScopeRefused

datatype journal_step =
    StepNext journal_row
  | StepSettled journal_row
  | StepBlocked journal_row block_reason string

definition bindingPlatformName :: "platform \<Rightarrow> string" where
  "bindingPlatformName p = (case p of Android \<Rightarrow> ''android'' | Ios \<Rightarrow> ''ios'' | Watchos \<Rightarrow> ''watchos'')"

definition deviceStableId :: "device_info \<Rightarrow> string option" where
  "deviceStableId d = (if di_platform d = ''android'' then Some (di_name d) else di_deviceId d)"

section \<open>Cancellation and stages\<close>

definition checkCancellation :: "bool \<Rightarrow> (thrown_error, unit) flow" where
  "checkCancellation signal =
     andThenF (look wd_aborted) (\<lambda>reason.
     case reason of Some e \<Rightarrow> if signal then throw (DriveCancelled e) else answer () | None \<Rightarrow> answer ())"

text \<open>\<open>raceWithDeadline\<close>: refused at once when the signal is already aborted.\<close>

definition racing :: "bool \<Rightarrow> (thrown_error, 'a) flow \<Rightarrow> (thrown_error, 'a) flow" where
  "racing signal m = andThenF (throwIfAborted signal) (\<lambda>_. m)"

definition stageCancelled :: "string \<Rightarrow> thrown_error \<Rightarrow> thrown_error" where
  "stageCancelled label e = Plain (DeviceError (label @ '' cancelled: '' @ thrownMessage e))"

text \<open>Only a drive of the journal unwinds on a cancellation; a public step records it as a failure.\<close>

definition boundedStage ::
  "string \<Rightarrow> bool \<Rightarrow> bool \<Rightarrow> (thrown_error, 'a) flow \<Rightarrow> (thrown_error \<Rightarrow> 'a) \<Rightarrow> (thrown_error, 'a) flow" where
  "boundedStage label signal cancel operation failedWith =
     andThenF (checkCancellation cancel) (\<lambda>_.
     catching
       (andThenF (racing signal operation) (\<lambda>result.
        andThenF (checkCancellation cancel) (\<lambda>_. answer result)))
       (\<lambda>e. andThenF (look wd_aborted) (\<lambda>reason.
          case reason of
            None \<Rightarrow> answer (failedWith e)
          | Some a \<Rightarrow> if cancel then throw (DriveCancelled a)
                      else answer (failedWith (if signal then stageCancelled label e else e)))))"

definition forEntry :: "string \<Rightarrow> journal_row \<Rightarrow> string" where
  "forEntry stage e = stage @ '' for entry '' @ int_string (jr_id e)"

definition listInventory ::
  "journal_deps \<Rightarrow> journal_row \<Rightarrow> platform \<Rightarrow> bool \<Rightarrow> (thrown_error, inventory_snapshot option) flow" where
  "listInventory deps e p signal =
     boundedStage (forEntry ''discovery'' e) signal signal
       (andThenF (awaiting (jd_list deps p)) (\<lambda>inventory. answer (Some inventory))) (\<lambda>_. None)"

definition describeClaim ::
  "journal_deps \<Rightarrow> journal_row \<Rightarrow> device_info \<Rightarrow> bool \<Rightarrow> (thrown_error, device_claim) flow" where
  "describeClaim deps e d signal =
     boundedStage (forEntry ''claim'' e) signal signal (awaiting (jd_describe deps d))
       (\<lambda>x. ClaimUnknown (thrownMessage x))"

definition claimReason :: "device_claim \<Rightarrow> string" where
  "claimReason c = (case c of ClaimHeld m \<Rightarrow> m | ClaimUnknown m \<Rightarrow> m | ClaimFree \<Rightarrow> [])"

subsection \<open>Deleting a device\<close>

definition onInFlight :: "(in_flight \<Rightarrow> in_flight) \<Rightarrow> scene \<Rightarrow> scene" where
  "onInFlight f s = s\<lparr>sc_inFlight := f (sc_inFlight s)\<rparr>"

text \<open>
  The native delete with its record. A delete that answers or fails by itself settles the record first;
  one that lost its race keeps it, and the caller marks it overdue.
\<close>

definition nativeDelete :: "journal_deps \<Rightarrow> deletion_target \<Rightarrow> (thrown_error, deletion_result) flow" where
  "nativeDelete deps t =
     andThenF (look (\<lambda>s. fst (trackRemoval (dt_platform t) (dt_stableId t) (sc_inFlight s)))) (\<lambda>i.
     andThenF (change (onInFlight (\<lambda>f. snd (trackRemoval (dt_platform t) (dt_stableId t) f)))) (\<lambda>_.
     andThenF (awaiting (\<lambda>s. case jd_delete deps t s of
        (result, s1) \<Rightarrow> (Inr result, onInFlight (settleRemoval (dt_platform t) (dt_stableId t) i) s1))) (\<lambda>result.
     case result of Inl e \<Rightarrow> throw e | Inr x \<Rightarrow> answer x)))"

definition stillInFlight :: "string \<Rightarrow> string" where
  "stillInFlight d = ''Removal of device '' @ quoted d @ '' is still in flight.''"

definition deleteDevice ::
  "journal_deps \<Rightarrow> deletion_target \<Rightarrow> bool \<Rightarrow> bool \<Rightarrow> (thrown_error, deletion_result) flow" where
  "deleteDevice deps t signal cancel =
     andThenF (look (\<lambda>s. removalBlocked (sc_inFlight s) (dt_platform t) (dt_stableId t))) (\<lambda>blocked.
     if blocked then answer (DeletionFailed (stillInFlight (dt_stableId t)) False)
     else
       andThenF (look (\<lambda>s. jf_started (sc_inFlight s))) (\<lambda>i.
       lastly
         (boundedStage (''deleting '' @ quoted (dt_stableId t)) signal cancel (nativeDelete deps t)
            (\<lambda>e. DeletionFailed (thrownMessage e) False))
         (\<lambda>s. onInFlight (markRemovalOverdue (dt_platform t) (dt_stableId t) i (wd_now s)) s)))"

section \<open>Finding the device of an entry\<close>

definition findByStableId :: "inventory_snapshot \<Rightarrow> platform \<Rightarrow> string \<Rightarrow> device_info option" where
  "findByStableId inventory p d =
     List.find (\<lambda>x. di_platform x = bindingPlatformName p \<and> deviceStableId x = Some d) (iv_devices inventory)"

datatype located =
    LocatedDevice device_info string
  | LocatedNowhere
  | LocatedBlocked block_reason string

definition discoveryFailed :: located where
  "discoveryFailed = LocatedBlocked DiscoveryIncomplete ''Device discovery failed.''"

definition notListed :: "string \<Rightarrow> string" where
  "notListed d = ''Device '' @ quoted d @ '' was not listed and discovery was incomplete.''"

definition claimBlocks :: "device_claim \<Rightarrow> block_reason" where
  "claimBlocks c = (case c of ClaimHeld _ \<Rightarrow> DeviceBusy | _ \<Rightarrow> DiscoveryIncomplete)"

text \<open>\<open>None\<close>: the released device is listed and unclaimed, or proven absent.\<close>

definition checkDeviceFree ::
  "journal_deps \<Rightarrow> journal_row \<Rightarrow> string \<Rightarrow> bool \<Rightarrow> (thrown_error, (block_reason \<times> string) option) flow" where
  "checkDeviceFree deps e d signal =
     andThenF (listInventory deps e (jr_platform e) signal) (\<lambda>listed.
     case listed of
       None \<Rightarrow> answer (Some (DiscoveryIncomplete, ''Device discovery failed.''))
     | Some inventory \<Rightarrow>
         (case findByStableId inventory (jr_platform e) d of
            None \<Rightarrow> answer (if iv_complete inventory then None else Some (DiscoveryIncomplete, notListed d))
          | Some device \<Rightarrow>
              andThenF (describeClaim deps e device signal) (\<lambda>claim.
              answer (if claim = ClaimFree then None
                else Some (claimBlocks claim, ''Device '' @ quoted d @ '' is not free: '' @ claimReason claim)))))"

text \<open>The registry still lets this binding hold the device.\<close>

definition confirmHolder ::
  "journal_row \<Rightarrow> string \<Rightarrow> bool \<Rightarrow> device_info \<Rightarrow> (thrown_error, located) flow" where
  "confirmHolder e d signal device =
     andThenF (query (\<lambda>db. findDeviceHolder db (jr_platform e) d)) (\<lambda>holder.
     andThenF (checkCancellation signal) (\<lambda>_.
     answer
       (if (case holder of None \<Rightarrow> True | Some (scope, a) \<Rightarrow> as_key a \<noteq> jr_key e \<or> \<not> bindingMatches a (jr_binding e))
        then LocatedBlocked ReconcileInProgress (''Device '' @ quoted d @ '' is no longer this binding's device.'')
        else LocatedDevice device d)))"

definition confirmUnclaimed ::
  "journal_deps \<Rightarrow> journal_row \<Rightarrow> string \<Rightarrow> bool \<Rightarrow> device_info \<Rightarrow> (thrown_error, located) flow" where
  "confirmUnclaimed deps e d signal device =
     andThenF (describeClaim deps e device signal) (\<lambda>claim.
     if claim \<noteq> ClaimFree
     then answer (LocatedBlocked (claimBlocks claim)
            (''Device '' @ quoted d @ '' cannot be deleted: '' @ claimReason claim))
     else confirmHolder e d signal device)"

text \<open>\<open>known\<close>: the caller already proved the device listed and unclaimed.\<close>

definition locateForDeletion ::
  "journal_deps \<Rightarrow> journal_row \<Rightarrow> string \<Rightarrow> bool \<Rightarrow> device_info option \<Rightarrow> (thrown_error, located) flow" where
  "locateForDeletion deps e d signal known =
     (case known of
        Some device \<Rightarrow> answer (LocatedDevice device d)
      | None \<Rightarrow>
          andThenF (listInventory deps e (jr_platform e) signal) (\<lambda>listed.
          case listed of
            None \<Rightarrow> answer discoveryFailed
          | Some inventory \<Rightarrow>
              (case findByStableId inventory (jr_platform e) d of
                 None \<Rightarrow> answer (if iv_complete inventory then LocatedNowhere
                                else LocatedBlocked DiscoveryIncomplete (notListed d))
               | Some device \<Rightarrow> confirmUnclaimed deps e d signal device)))"

definition createdName :: "journal_target \<Rightarrow> string" where
  "createdName t = (case jt_newStableId t of Some d \<Rightarrow> d
     | None \<Rightarrow> (case jt_newName t of Some n \<Rightarrow> n | None \<Rightarrow> ''null''))"

definition createdCandidates :: "platform \<Rightarrow> journal_target \<Rightarrow> inventory_snapshot \<Rightarrow> device_info list" where
  "createdCandidates p t inventory = filter (\<lambda>x. di_platform x = bindingPlatformName p \<and>
     (if truthy (jt_newStableId t) then deviceStableId x = jt_newStableId t
      else Some (di_name x) = jt_newName t)) (iv_devices inventory)"

definition locateCreated ::
  "journal_deps \<Rightarrow> journal_row \<Rightarrow> bool \<Rightarrow> (thrown_error, located) flow" where
  "locateCreated deps e signal =
     (let t = jr_target e; p = journalCreationPlatform e in
      if \<not> truthy (jt_newStableId t) \<and> \<not> truthy (jt_newName t) then answer LocatedNowhere
      else
        andThenF (listInventory deps e p signal) (\<lambda>listed.
        case listed of
          None \<Rightarrow> answer discoveryFailed
        | Some inventory \<Rightarrow>
            let candidates = createdCandidates p t inventory in
            answer (case candidates of
                [] \<Rightarrow> if iv_complete inventory then LocatedNowhere
                      else LocatedBlocked DiscoveryIncomplete (''Created device '' @ quoted (createdName t) @
                        '' was not listed and discovery was incomplete.'')
              | device # others \<Rightarrow>
                  let stableId = (if others = [] then deviceStableId device else None) in
                  if truthy stableId then LocatedDevice device (the stableId)
                  else LocatedBlocked DiscoveryIncomplete (''Created device '' @
                    quoted (case jt_newName t of Some n \<Rightarrow> n | None \<Rightarrow> ''null'') @ '' is ambiguous ('' @
                    int_string (int (length candidates)) @ '' listed).''))))"

section \<open>Records of the journal\<close>

definition noPatch :: target_patch where
  "noPatch = \<lparr>tp_removalRequested = None, tp_quarantinedAtMs = None, tp_newPlatform = None,
     tp_oldStableId = None, tp_oldName = None, tp_newName = None, tp_newStableId = None,
     tp_requestedSpec = None, tp_resolvedSpec = None, tp_specFingerprint = None\<rparr>"

definition skippedReason :: "journal_row \<Rightarrow> block_reason" where
  "skippedReason e =
     (if jr_kind e = JRelease then BindingStillSettling
      else if jr_phase e \<noteq> Deleting then ReconcileInProgress
      else if jt_quarantinedAtMs (jr_target e) = None then CleanupStillPending else CleanupQuarantined)"

definition emptyBindingCommit :: "json \<Rightarrow> binding_commit" where
  "emptyBindingCommit spec = \<lparr>bc_platform = None, bc_device = None, bc_device_name = None,
     bc_requested = Some spec, bc_resolved = Some JNull, bc_fingerprint = None, bc_state = Provisioning\<rparr>"

record redrive_record =
  jv_entryId :: int
  jv_kind :: journal_kind
  jv_phase :: journal_phase
  jv_blocked :: bool
  jv_reason :: "block_reason option"

definition BINDING_JOURNAL_QUARANTINE_PROBE_MS :: int where
  "BINDING_JOURNAL_QUARANTINE_PROBE_MS = 600000"

definition quarantineFailure :: "int \<Rightarrow> string \<Rightarrow> target_patch \<times> (string \<times> int)" where
  "quarantineFailure now m =
     (noPatch\<lparr>tp_quarantinedAtMs := Some (Some now)\<rparr>, (m, now + BINDING_JOURNAL_QUARANTINE_PROBE_MS))"

definition quarantineError :: "journal_row \<Rightarrow> string" where
  "quarantineError e = (case jr_last_error e of None \<Rightarrow> ''its emulator would not stop'' | Some m \<Rightarrow> m)"

definition quarantineProbe :: "int \<Rightarrow> journal_row \<Rightarrow> string \<Rightarrow> (string \<times> int) \<times> string" where
  "quarantineProbe now e d =
     ((quarantineError e, now + BINDING_JOURNAL_QUARANTINE_PROBE_MS),
      ''Device '' @ quoted d @ '' is quarantined: '' @ quarantineError e)"

end
