(* ===== verification/JournalDriver.thy ===== *)
theory JournalDriver
  imports JournalStages
begin

text \<open>
  The redrive of the binding journal (src/src/daemon/sessionBroker/registry/bindingJournal.ts): adopting
  an entry whose owner is dead, driving it step by step to a terminal phase, and the passes over all
  open entries. Every step is a flow over the modelled registry and the native side.

  Phases move strictly forward, so a drive takes few steps; \<open>MAX_STEPS_PER_DRIVE\<close> bounds them in the
  source. Deadlines of callers only say when a registry stage may lose its race, which throws
  \<open>RegistryStageTimeout\<close>; the deadline handed to a delete is kept.
\<close>

definition MAX_STEPS_PER_DRIVE :: nat where
  "MAX_STEPS_PER_DRIVE = 6"

definition BINDING_JOURNAL_STEP_BUDGET_MS :: int where
  "BINDING_JOURNAL_STEP_BUDGET_MS = 120000"

section \<open>Backoff\<close>

text \<open>\<open>exponentialBackoff\<close> of src/src/utils/Backoff.ts for whole numbers; an attempt counts from 1.\<close>

definition exponentialBackoff :: "int \<Rightarrow> int \<Rightarrow> int \<Rightarrow> int \<Rightarrow> int" where
  "exponentialBackoff initialDelayMs multiplier maxDelayMs attempt =
     max 0 (min (initialDelayMs * multiplier ^ nat (attempt - 1)) maxDelayMs)"

definition DEFAULT_BINDING_JOURNAL_BACKOFF :: "int \<Rightarrow> int" where
  "DEFAULT_BINDING_JOURNAL_BACKOFF = exponentialBackoff 1000 2 60000"

section \<open>Writing the journal\<close>

definition advancing ::
  "journal_deps \<Rightarrow> journal_phase \<Rightarrow> journal_phase \<Rightarrow> target_patch \<Rightarrow> assignment_change option \<Rightarrow>
   (string \<times> int) option \<Rightarrow> advance_journal_input" where
  "advancing deps expected phase patch assigned attempt =
     \<lparr>aj_owner = jd_owner deps, aj_expectedPhase = expected, aj_phase = phase, aj_target = patch,
      aj_assignment = assigned, aj_attempt = attempt\<rparr>"

definition advanceStep ::
  "journal_deps \<Rightarrow> journal_row \<Rightarrow> advance_journal_input \<Rightarrow> bool \<Rightarrow> (thrown_error, advance_journal_result) flow" where
  "advanceStep deps e inp signal =
     andThenF (checkCancellation signal) (\<lambda>_.
     andThenF (transaction (\<lambda>now db. advanceBindingJournal (jd_registryLive deps) now (jr_id e) inp db)) (\<lambda>result.
     andThenF (checkCancellation signal) (\<lambda>_.
     answer result)))"

definition casKind :: "cas_failure \<Rightarrow> string" where
  "casKind f = (case f of ScopeNotValid _ \<Rightarrow> ''scope_not_valid'' | BindingMissing \<Rightarrow> ''binding_missing''
     | StaleBinding _ \<Rightarrow> ''stale_binding'' | DeviceAssignedElsewhere _ \<Rightarrow> ''device_assigned_elsewhere''
     | BindingInUse _ _ \<Rightarrow> ''binding_in_use'' | BindingNotReady _ \<Rightarrow> ''binding_not_ready'')"

definition advanceKind :: "advance_journal_result \<Rightarrow> string" where
  "advanceKind r = (case r of JournalAdvanced _ _ \<Rightarrow> ''advanced'' | JournalConflict _ \<Rightarrow> ''journal_conflict''
     | AdvanceRefused f \<Rightarrow> casKind f)"

definition entryAfter :: "advance_journal_result \<Rightarrow> journal_row \<Rightarrow> journal_row" where
  "entryAfter r e = (case r of JournalAdvanced e1 _ \<Rightarrow> e1 | _ \<Rightarrow> e)"

definition getAssignmentF :: "binding_key \<Rightarrow> (thrown_error, assignment_row option) flow" where
  "getAssignmentF k = transaction (\<lambda>_ db. rbind (getAssignment db k) (\<lambda>a. Inr (a, db)))"

subsection \<open>The mark that a device is to be removed\<close>

definition clearIntent :: "int \<Rightarrow> scene \<Rightarrow> scene" where
  "clearIntent i s = s\<lparr>sc_intents := filter (\<lambda>j. j \<noteq> i) (sc_intents s)\<rparr>"

definition removalIntended :: "journal_row \<Rightarrow> scene \<Rightarrow> bool" where
  "removalIntended e s \<longleftrightarrow> jt_removalRequested (jr_target e) \<or> List.member (sc_intents s) (jr_id e)"

definition markRemovalIntended :: "journal_row \<Rightarrow> scene \<Rightarrow> scene" where
  "markRemovalIntended e s =
     (if jt_removalRequested (jr_target e) then s else s\<lparr>sc_intents := List.insert (jr_id e) (sc_intents s)\<rparr>)"

definition clearUnlessRefused :: "advance_journal_result \<Rightarrow> journal_row \<Rightarrow> (thrown_error, unit) flow" where
  "clearUnlessRefused r e =
     (case r of AdvanceRefused _ \<Rightarrow> answer () | _ \<Rightarrow> change (clearIntent (jr_id e)))"

datatype flag_result = FlagRecorded advance_journal_result | FlagTimedOut | FlagDeferred

definition removalFlag :: "journal_deps \<Rightarrow> journal_row \<Rightarrow> advance_journal_input" where
  "removalFlag deps e = advancing deps (jr_phase e) (jr_phase e)
     (noPatch\<lparr>tp_removalRequested := Some True,
        tp_newStableId := (if truthy (jt_newStableId (jr_target e)) then Some (jt_newStableId (jr_target e)) else None)\<rparr>)
     None None"

text \<open>
  One attempt to record the flag. The first races its own budget and is not cancelled; a retry waits for
  its turn on the pacing shared with the other retries of the registry.
\<close>

definition tryRemovalFlag ::
  "journal_deps \<Rightarrow> journal_row \<Rightarrow> bool \<Rightarrow> bool \<Rightarrow> (thrown_error, flag_result) flow" where
  "tryRemovalFlag deps e signal immediate =
     catching
       (andThenF (if immediate then answer () else andThenF (racing signal (awaiting (\<lambda>s. (Inr (), s)))) answer) (\<lambda>_.
        andThenF (racing signal (advanceStep deps e (removalFlag deps e) signal)) (\<lambda>recorded.
        andThenF (clearUnlessRefused recorded e) (\<lambda>_.
        answer (FlagRecorded recorded)))))
       (\<lambda>x. case x of
          RegistryStageTimeout m \<Rightarrow> if immediate then answer FlagTimedOut else throw x
        | _ \<Rightarrow> if jd_retryable deps x then answer FlagDeferred else throw x)"

definition BINDING_JOURNAL_REMOVAL_FLAG_MAX_ATTEMPTS :: nat where
  "BINDING_JOURNAL_REMOVAL_FLAG_MAX_ATTEMPTS = 6"

text \<open>\<open>n\<close> attempts are left.\<close>

fun retryRemovalFlag :: "journal_deps \<Rightarrow> journal_row \<Rightarrow> bool \<Rightarrow> nat \<Rightarrow> (thrown_error, journal_row) flow" where
  "retryRemovalFlag deps e signal 0 = answer e"
| "retryRemovalFlag deps e signal (Suc n) =
     andThenF (throwIfAborted signal) (\<lambda>_.
     andThenF (racing signal (awaiting (\<lambda>s. (Inr (), s)))) (\<lambda>_.
     andThenF (tryRemovalFlag deps e signal False) (\<lambda>recorded.
     case recorded of
       FlagRecorded r \<Rightarrow> answer (entryAfter r e)
     | FlagTimedOut \<Rightarrow> answer e
     | FlagDeferred \<Rightarrow> retryRemovalFlag deps e signal n)))"

definition requestRemoval ::
  "journal_deps \<Rightarrow> journal_row \<Rightarrow> int option \<Rightarrow> bool \<Rightarrow> (thrown_error, journal_row) flow" where
  "requestRemoval deps e deadlineMs signal =
     (if jt_removalRequested (jr_target e) then answer e
      else
        andThenF (change (markRemovalIntended e)) (\<lambda>_.
        andThenF (tryRemovalFlag deps e False True) (\<lambda>recorded.
        case recorded of
          FlagRecorded r \<Rightarrow> answer (entryAfter r e)
        | FlagTimedOut \<Rightarrow> answer e
        | FlagDeferred \<Rightarrow>
            andThenF (look wd_now) (\<lambda>now.
            if (case deadlineMs of None \<Rightarrow> False | Some d \<Rightarrow> d \<le> now) then answer e
            else
              catching
                (racing signal (retryRemovalFlag deps e signal (BINDING_JOURNAL_REMOVAL_FLAG_MAX_ATTEMPTS - 1)))
                (\<lambda>x. andThenF (look wd_aborted) (\<lambda>reason.
                   case x of
                     RegistryStageTimeout _ \<Rightarrow> answer e
                   | _ \<Rightarrow> if signal \<and> reason \<noteq> None then answer e else throw x))))))"

subsection \<open>Closing and blocking\<close>

definition closeStep :: "journal_deps \<Rightarrow> journal_row \<Rightarrow> journal_phase \<Rightarrow> bool \<Rightarrow> (thrown_error, journal_step) flow" where
  "closeStep deps e phase signal =
     andThenF (advanceStep deps e (advancing deps (jr_phase e) phase noPatch None None) signal) (\<lambda>closed.
     andThenF (change (clearIntent (jr_id e))) (\<lambda>_.
     answer (StepSettled (entryAfter closed e))))"

text \<open>Registry work of a cleanup races a fixed budget and the caller's deadline.\<close>

definition removalRegistryStage :: "(thrown_error, 'a) flow \<Rightarrow> (thrown_error, 'a) flow" where
  "removalRegistryStage = racing False"

definition entryRemovalInFlight :: "journal_row \<Rightarrow> scene \<Rightarrow> bool" where
  "entryRemovalInFlight e s \<longleftrightarrow>
     hasRemoval (sc_inFlight s) (jr_platform e) (case jt_oldStableId (jr_target e) of None \<Rightarrow> [] | Some d \<Rightarrow> d) \<or>
     hasRemoval (sc_inFlight s) (journalCreationPlatform e)
       (case jt_newStableId (jr_target e) of None \<Rightarrow> [] | Some d \<Rightarrow> d)"

definition attemptAfter :: "journal_deps \<Rightarrow> journal_row \<Rightarrow> string \<Rightarrow> scene \<Rightarrow> string \<times> int" where
  "attemptAfter deps e m s =
     (m, wd_now s + (if entryRemovalInFlight e s then 0 else jd_backoff deps (jr_attempts e + 1)))"

definition recordBlocked ::
  "journal_deps \<Rightarrow> journal_row \<Rightarrow> block_reason \<Rightarrow> string \<Rightarrow> target_patch \<Rightarrow> bool \<Rightarrow> (thrown_error, journal_step) flow" where
  "recordBlocked deps e reason m patch signal =
     andThenF (look (attemptAfter deps e m)) (\<lambda>attempt.
     andThenF (advanceStep deps e (advancing deps (jr_phase e)
         (if jr_phase e = Creating \<and> (case tp_newStableId patch of Some d \<Rightarrow> truthy d | None \<Rightarrow> False)
          then Created else jr_phase e)
         patch None (Some attempt)) signal) (\<lambda>recorded.
     answer (StepBlocked (entryAfter recorded e) reason m)))"

subsection \<open>Deletes under way\<close>

datatype removal_gate = CallerGate | PassGate | StepGate

definition pendingRemoval ::
  "journal_row \<Rightarrow> platform \<Rightarrow> string \<Rightarrow> removal_gate \<Rightarrow> (thrown_error, journal_step option) flow" where
  "pendingRemoval e p d gate =
     andThenF (case gate of
         StepGate \<Rightarrow> look (\<lambda>s. removalBlocked (sc_inFlight s) p d)
       | CallerGate \<Rightarrow> look (\<lambda>s. hasRemoval (sc_inFlight s) p d)
       | PassGate \<Rightarrow>
           andThenF (look wd_now) (\<lambda>now.
           andThenF (look (\<lambda>s. fst (hasRemovalForPass p d now (sc_inFlight s)))) (\<lambda>blocked.
           andThenF (change (onInFlight (\<lambda>f. snd (hasRemovalForPass p d now f)))) (\<lambda>_.
           answer blocked)))) (\<lambda>pending.
     answer (if pending then Some (StepBlocked e CleanupStillPending (stillInFlight d)) else None))"

definition pendingEntryRemoval :: "journal_row \<Rightarrow> bool \<Rightarrow> (thrown_error, journal_step option) flow" where
  "pendingEntryRemoval e fromPass =
     (let deleting = (jr_phase e = Deleting);
          stableId = (if deleting then jt_oldStableId (jr_target e) else jt_newStableId (jr_target e)) in
      if truthy stableId
      then pendingRemoval e (if deleting then jr_platform e else journalCreationPlatform e) (the stableId)
             (if fromPass then PassGate else CallerGate)
      else answer None)"

text \<open>What follows a check that may already have answered.\<close>

definition unlessPending ::
  "(thrown_error, journal_step option) flow \<Rightarrow> (journal_step \<Rightarrow> 'a) \<Rightarrow> (thrown_error, 'a) flow \<Rightarrow> (thrown_error, 'a) flow" where
  "unlessPending check f m =
     andThenF check (\<lambda>pending. case pending of Some st \<Rightarrow> answer (f st) | None \<Rightarrow> m)"

section \<open>Deleting the old device\<close>

datatype deletion_step = OldDeviceDeleted journal_row assignment_row | DeletionStopped journal_step

definition probeQuarantine ::
  "journal_deps \<Rightarrow> journal_row \<Rightarrow> string \<Rightarrow> bool \<Rightarrow> (thrown_error, deletion_step) flow" where
  "probeQuarantine deps e d signal =
     andThenF (look (\<lambda>s. quarantineProbe (wd_now s) e d)) (\<lambda>(attempt, m).
     andThenF (advanceStep deps e (advancing deps Deleting Deleting noPatch None (Some attempt)) signal) (\<lambda>probed.
     answer (DeletionStopped (StepBlocked (entryAfter probed e) CleanupQuarantined m))))"

definition recordFailedDeletion ::
  "journal_deps \<Rightarrow> journal_row \<Rightarrow> string \<Rightarrow> string \<Rightarrow> bool \<Rightarrow> bool \<Rightarrow> (thrown_error, deletion_step) flow" where
  "recordFailedDeletion deps e d m exhausted signal =
     andThenF (look (\<lambda>s. if exhausted then quarantineFailure (wd_now s) m else (noPatch, attemptAfter deps e m s)))
       (\<lambda>(patch, attempt).
     andThenF (advanceStep deps e (advancing deps Deleting Deleting patch
         (Some (ChangeState (jr_binding e) CleanupPending None)) (Some attempt)) signal) (\<lambda>pending.
     answer (DeletionStopped (StepBlocked (entryAfter pending e)
       (if exhausted then CleanupQuarantined else CleanupStillPending)
       (''Deleting device '' @ quoted d @ '' failed: '' @ m)))))"

definition recordAbsence :: "journal_deps \<Rightarrow> journal_row \<Rightarrow> bool \<Rightarrow> (thrown_error, deletion_step) flow" where
  "recordAbsence deps e signal =
     andThenF (advanceStep deps e (advancing deps Deleting Deleted noPatch
         (Some (ChangeCommit (jr_binding e)
            ((emptyBindingCommit (jt_requestedSpec (jr_target e)))\<lparr>bc_platform := Some (journalCreationPlatform e)\<rparr>)))
         None) signal) (\<lambda>emptied.
     answer (case emptied of
        JournalAdvanced e1 (Some a) \<Rightarrow> OldDeviceDeleted e1 a
      | _ \<Rightarrow> DeletionStopped (StepBlocked e ReconcileInProgress
               (''Recording the deletion failed: '' @ advanceKind emptied @ ''.''))))"

definition recordDeletion ::
  "journal_deps \<Rightarrow> journal_row \<Rightarrow> string \<Rightarrow> deletion_result \<Rightarrow> bool \<Rightarrow> (thrown_error, deletion_step) flow" where
  "recordDeletion deps e d deletion signal =
     (case deletion of
        DeletionFailed m exhausted \<Rightarrow> recordFailedDeletion deps e d m exhausted signal
      | DeviceAbsent \<Rightarrow> recordAbsence deps e signal)"

definition boundElsewhere :: "journal_row \<Rightarrow> assignment_row option \<Rightarrow> bool" where
  "boundElsewhere e a \<longleftrightarrow> (case a of None \<Rightarrow> True | Some b \<Rightarrow> \<not> bindingMatches b (jr_binding e))"

definition liveExecution :: "journal_deps \<Rightarrow> assignment_row \<Rightarrow> exec_owner option" where
  "liveExecution deps a =
     (case toExecOwner a of None \<Rightarrow> None | Some w \<Rightarrow> if jd_execLive deps w then Some w else None)"

definition heldBy :: "journal_row \<Rightarrow> exec_owner \<Rightarrow> journal_step" where
  "heldBy e w = StepBlocked e BindingHeld (''Binding is held by '' @ eo_sessionUuid w @ ''.'')"

text \<open>
  Deletes the located device, or takes its proven absence. \<open>signal\<close> is the signal of the delete stage,
  \<open>cancel\<close> that of the drive.
\<close>

definition deleteLocated ::
  "journal_deps \<Rightarrow> journal_row \<Rightarrow> string \<Rightarrow> int option \<Rightarrow> bool \<Rightarrow> bool \<Rightarrow> located \<Rightarrow>
   (thrown_error, deletion_step) flow" where
  "deleteLocated deps e d deadlineMs signal cancel place =
     (case place of
        LocatedBlocked reason m \<Rightarrow>
          andThenF (recordBlocked deps e reason m noPatch cancel) (\<lambda>st. answer (DeletionStopped st))
      | LocatedNowhere \<Rightarrow>
          andThenF (checkCancellation cancel) (\<lambda>_. recordDeletion deps e d DeviceAbsent cancel)
      | LocatedDevice device _ \<Rightarrow>
          if jt_quarantinedAtMs (jr_target e) \<noteq> None then probeQuarantine deps e d cancel
          else
            andThenF (look wd_now) (\<lambda>now.
            andThenF (deleteDevice deps \<lparr>dt_platform = jr_platform e, dt_stableId = d,
                dt_name = jt_oldName (jr_target e),
                dt_deadlineMs = (case deadlineMs of Some t \<Rightarrow> t | None \<Rightarrow> now + BINDING_JOURNAL_STEP_BUDGET_MS)\<rparr>
                signal cancel) (\<lambda>deletion.
            andThenF (checkCancellation cancel) (\<lambda>_.
            recordDeletion deps e d deletion cancel))))"

definition deletionStep ::
  "journal_deps \<Rightarrow> journal_row \<Rightarrow> device_info option \<Rightarrow> int option \<Rightarrow> bool \<Rightarrow> bool \<Rightarrow>
   (thrown_error, deletion_step) flow" where
  "deletionStep deps e known deadlineMs signal cancel =
     andThenF (checkCancellation cancel) (\<lambda>_.
     andThenF (getAssignmentF (jr_key e)) (\<lambda>assignment.
     andThenF (checkCancellation cancel) (\<lambda>_.
     if \<not> truthy (jt_oldStableId (jr_target e)) \<or> boundElsewhere e assignment
     then andThenF (closeStep deps e RolledBack cancel) (\<lambda>st. answer (DeletionStopped st))
     else
       let d = the (jt_oldStableId (jr_target e)) in
       case liveExecution deps (the assignment) of
         Some w \<Rightarrow> answer (DeletionStopped (heldBy e w))
       | None \<Rightarrow>
           unlessPending (pendingRemoval e (jr_platform e) d StepGate) DeletionStopped
             (andThenF (locateForDeletion deps e d cancel known)
               (deleteLocated deps e d deadlineMs signal cancel)))))"

definition driveDeletion ::
  "journal_deps \<Rightarrow> journal_row \<Rightarrow> device_info option \<Rightarrow> int option \<Rightarrow> bool \<Rightarrow> (thrown_error, deletion_step) flow" where
  "driveDeletion deps e known deadlineMs signal =
     (let m = deletionStep deps e known deadlineMs signal False in
      if truthy (jt_oldStableId (jr_target e))
      then unlessPending (pendingRemoval e (jr_platform e) (the (jt_oldStableId (jr_target e))) CallerGate) DeletionStopped m
      else m)"

section \<open>Settling a creation\<close>

definition removalStopped ::
  "journal_deps \<Rightarrow> journal_row \<Rightarrow> block_reason \<Rightarrow> string \<Rightarrow> target_patch \<Rightarrow> bool \<Rightarrow> (thrown_error, journal_step) flow" where
  "removalStopped deps e reason m patch signal = removalRegistryStage (recordBlocked deps e reason m patch signal)"

definition createdPatch :: "string \<Rightarrow> target_patch" where
  "createdPatch d = noPatch\<lparr>tp_newStableId := Some (Some d)\<rparr>"

text \<open>The durable mark comes first: the entry that carries it, or why it could not be set.\<close>

definition ensureRemovalRecorded ::
  "journal_deps \<Rightarrow> journal_row \<Rightarrow> string \<Rightarrow> bool \<Rightarrow> (thrown_error, journal_step + journal_row) flow" where
  "ensureRemovalRecorded deps e d signal =
     (if jt_removalRequested (jr_target e) then answer (Inr e)
      else
        andThenF (change (markRemovalIntended e)) (\<lambda>_.
        andThenF (removalRegistryStage (advanceStep deps e (advancing deps (jr_phase e) (jr_phase e)
            ((createdPatch d)\<lparr>tp_removalRequested := Some True\<rparr>) None None) signal)) (\<lambda>recorded.
        andThenF (clearUnlessRefused recorded e) (\<lambda>_.
        answer (case recorded of
           JournalAdvanced e1 _ \<Rightarrow> Inr e1
         | _ \<Rightarrow> Inl (StepBlocked e ReconcileInProgress
                 (''Recording removal of '' @ quoted d @ '' failed: '' @ advanceKind recorded @ ''.'')))))))"

definition removeMarked ::
  "journal_deps \<Rightarrow> journal_row \<Rightarrow> device_info \<Rightarrow> string \<Rightarrow> int option \<Rightarrow> bool \<Rightarrow> (thrown_error, journal_step) flow" where
  "removeMarked deps e device d deadlineMs signal =
     andThenF (describeClaim deps e device signal) (\<lambda>claim.
     if claim \<noteq> ClaimFree
     then removalStopped deps e (claimBlocks claim)
            (''Uncommitted device '' @ quoted d @ '' cannot be removed: '' @ claimReason claim) (createdPatch d) signal
     else
       andThenF (look wd_now) (\<lambda>now.
       andThenF (deleteDevice deps \<lparr>dt_platform = journalCreationPlatform e, dt_stableId = d,
           dt_name = Some (di_name device),
           dt_deadlineMs = (case deadlineMs of Some t \<Rightarrow> t | None \<Rightarrow> now + BINDING_JOURNAL_STEP_BUDGET_MS)\<rparr>
           signal signal) (\<lambda>deletion.
       case deletion of
         DeletionFailed m _ \<Rightarrow>
           removalStopped deps e CleanupStillPending
             (''Removing uncommitted device '' @ quoted d @ '' failed: '' @ m) (createdPatch d) signal
       | DeviceAbsent \<Rightarrow>
           andThenF (removalRegistryStage (advanceStep deps e
               (advancing deps (jr_phase e) RolledBack (createdPatch d) None None) signal)) (\<lambda>closed.
           andThenF (change (clearIntent (jr_id e))) (\<lambda>_.
           answer (StepSettled (entryAfter closed e)))))))"

definition removeCreated ::
  "journal_deps \<Rightarrow> journal_row \<Rightarrow> device_info \<Rightarrow> string \<Rightarrow> int option \<Rightarrow> bool \<Rightarrow> (thrown_error, journal_step) flow" where
  "removeCreated deps e device d deadlineMs signal =
     andThenF (ensureRemovalRecorded deps e d signal) (\<lambda>recorded.
     case recorded of Inl st \<Rightarrow> answer st | Inr e1 \<Rightarrow> removeMarked deps e1 device d deadlineMs signal)"

definition adoptedCommit :: "journal_row \<Rightarrow> device_info \<Rightarrow> string \<Rightarrow> binding_commit" where
  "adoptedCommit e device d = \<lparr>bc_platform = None, bc_device = Some d, bc_device_name = Some (di_name device),
     bc_requested = Some (jt_requestedSpec (jr_target e)), bc_resolved = Some (jt_resolvedSpec (jr_target e)),
     bc_fingerprint = jt_specFingerprint (jr_target e), bc_state = Provisioning\<rparr>"

definition adoptCreated ::
  "journal_deps \<Rightarrow> journal_row \<Rightarrow> device_info \<Rightarrow> string \<Rightarrow> bool \<Rightarrow> (thrown_error, journal_step) flow" where
  "adoptCreated deps e device d signal =
     andThenF (look (removalIntended e)) (\<lambda>intended.
     if intended then removeCreated deps e device d None signal
     else
       andThenF (advanceStep deps e (advancing deps (jr_phase e) Committed
           ((createdPatch d)\<lparr>tp_newName := Some (Some (di_name device))\<rparr>)
           (Some (ChangeCommit (jr_binding e) (adoptedCommit e device d))) None) signal) (\<lambda>adopted.
       case adopted of
         JournalAdvanced e1 _ \<Rightarrow> answer (StepSettled e1)
       | JournalConflict _ \<Rightarrow>
           answer (StepBlocked e ReconcileInProgress ''The journal entry changed during adoption.'')
       | AdvanceRefused _ \<Rightarrow> removeCreated deps e device d None signal))"

definition matchDevice ::
  "journal_deps \<Rightarrow> journal_row \<Rightarrow> device_info \<Rightarrow> json \<Rightarrow> bool \<Rightarrow> (thrown_error, spec_match) flow" where
  "matchDevice deps e device spec signal =
     boundedStage (forEntry ''configuration'' e) signal signal (awaiting (jd_matches deps device spec))
       (\<lambda>_. SpecUnknown)"

text \<open>A device no binding holds: adopted when the binding still waits for it and it fits, else removed.\<close>

definition settleUnheld ::
  "journal_deps \<Rightarrow> journal_row \<Rightarrow> bool \<Rightarrow> int option \<Rightarrow> bool \<Rightarrow> device_info \<Rightarrow> string \<Rightarrow>
   (thrown_error, journal_step) flow" where
  "settleUnheld deps e adopt deadlineMs signal device d =
     andThenF (removalRegistryStage (getAssignmentF (jr_key e))) (\<lambda>assignment.
     andThenF (checkCancellation signal) (\<lambda>_.
     andThenF (look (removalIntended e)) (\<lambda>intended.
     case (if adopt \<and> \<not> intended \<and> \<not> boundElsewhere e assignment
           then jd_spec deps (journalCreationPlatform e) (jt_requestedSpec (jr_target e)) else None) of
       None \<Rightarrow> removeCreated deps e device d deadlineMs signal
     | Some spec \<Rightarrow>
         andThenF (matchDevice deps e device spec signal) (\<lambda>found.
         case found of
           SpecUnknown \<Rightarrow> recordBlocked deps e DiscoveryIncomplete
             (''Configuration of '' @ quoted d @ '' is unreadable.'') noPatch signal
         | SpecMatches \<Rightarrow> adoptCreated deps e device d signal
         | SpecMismatches \<Rightarrow> removeCreated deps e device d deadlineMs signal))))"

definition creationRegistryStep ::
  "journal_deps \<Rightarrow> journal_row \<Rightarrow> bool \<Rightarrow> int option \<Rightarrow> bool \<Rightarrow> (thrown_error, journal_step) flow" where
  "creationRegistryStep deps e adopt deadlineMs signal =
     andThenF (checkCancellation signal) (\<lambda>_.
     andThenF (locateCreated deps e signal) (\<lambda>place.
     case place of
       LocatedNowhere \<Rightarrow> removalRegistryStage (closeStep deps e RolledBack signal)
     | LocatedBlocked reason m \<Rightarrow> removalStopped deps e reason m noPatch signal
     | LocatedDevice device d \<Rightarrow>
         unlessPending (pendingRemoval e (journalCreationPlatform e) d StepGate) (\<lambda>st. st)
           (andThenF (removalRegistryStage (query (\<lambda>db. findDeviceHolder db (journalCreationPlatform e) d))) (\<lambda>holder.
            andThenF (checkCancellation signal) (\<lambda>_.
            if holder \<noteq> None then removalRegistryStage (closeStep deps e RolledBack signal)
            else settleUnheld deps e adopt deadlineMs signal device d)))))"

definition creationStep ::
  "journal_deps \<Rightarrow> journal_row \<Rightarrow> bool \<Rightarrow> int option \<Rightarrow> bool \<Rightarrow> (thrown_error, journal_step) flow" where
  "creationStep deps e adopt deadlineMs signal =
     catching (creationRegistryStep deps e adopt deadlineMs signal)
       (\<lambda>x. case x of
          RegistryStageTimeout _ \<Rightarrow> answer (StepBlocked e ReconcileInProgress
            (if adopt then ''Settling created entry '' @ int_string (jr_id e) @
                           '' deferred to the next redrive: registry stage timed out''
             else ''Creation cleanup deferred to journal redrive: registry stage timed out''))
        | _ \<Rightarrow> throw x)"

definition settleCreation ::
  "journal_deps \<Rightarrow> journal_row \<Rightarrow> bool \<Rightarrow> int option \<Rightarrow> (thrown_error, journal_step) flow" where
  "settleCreation deps e adopt deadlineMs =
     (let m = creationStep deps e adopt deadlineMs False in
      if truthy (jt_newStableId (jr_target e))
      then unlessPending (pendingRemoval e (journalCreationPlatform e) (the (jt_newStableId (jr_target e))) CallerGate)
             (\<lambda>st. st) m
      else m)"

section \<open>Settling a release\<close>

definition settleRelease :: "journal_deps \<Rightarrow> journal_row \<Rightarrow> bool \<Rightarrow> (thrown_error, journal_step) flow" where
  "settleRelease deps e signal =
     andThenF (getAssignmentF (jr_key e)) (\<lambda>assignment.
     andThenF (checkCancellation signal) (\<lambda>_.
     if boundElsewhere e assignment then closeStep deps e RolledBack signal
     else
       let a = the assignment in
       if as_state a \<noteq> Settling then closeStep deps e Committed signal
       else if (case toSettler a of None \<Rightarrow> False | Some p \<Rightarrow> jd_ownerLive deps p)
       then answer (StepBlocked e BindingStillSettling ''The binding's settler is still watching its work.'')
       else
         case liveExecution deps a of
           Some w \<Rightarrow> answer (heldBy e w)
         | None \<Rightarrow>
             andThenF (if truthy (as_device a) then checkDeviceFree deps e (the (as_device a)) signal else answer None) (\<lambda>held.
             case held of
               Some (reason, m) \<Rightarrow> recordBlocked deps e reason m noPatch signal
             | None \<Rightarrow>
                 andThenF (advanceStep deps e (advancing deps (jr_phase e) Committed noPatch
                     (Some (ChangeState (jr_binding e) Ready None)) None) signal) (\<lambda>restored.
                 answer (case restored of
                    JournalAdvanced e1 _ \<Rightarrow> StepSettled e1
                  | _ \<Rightarrow> StepBlocked e ReconcileInProgress
                          (''Restoring the binding failed: '' @ advanceKind restored @ ''.''))))))"

section \<open>Driving an entry\<close>

definition step :: "journal_deps \<Rightarrow> journal_row \<Rightarrow> bool \<Rightarrow> (thrown_error, journal_step) flow" where
  "step deps e signal =
     (if jr_kind e = JRelease then settleRelease deps e signal
      else case jr_phase e of
        Deleting \<Rightarrow>
          andThenF (deletionStep deps e None None signal signal) (\<lambda>result.
          answer (case result of OldDeviceDeleted e1 _ \<Rightarrow> StepNext e1 | DeletionStopped st \<Rightarrow> st))
      | Deleted \<Rightarrow> closeStep deps e Committed signal
      | Intent \<Rightarrow> creationStep deps e True None signal
      | Creating \<Rightarrow> creationStep deps e True None signal
      | Created \<Rightarrow> creationStep deps e True None signal
      | Committed \<Rightarrow> answer (StepSettled e)
      | RolledBack \<Rightarrow> answer (StepSettled e))"

datatype drive_result =
    DriveSettled journal_row
  | DriveBlocked journal_row block_reason string
  | DriveSkipped journal_row string

definition didNotSettle :: string where
  "didNotSettle = ''Journal entry did not settle.''"

fun driveSteps :: "journal_deps \<Rightarrow> bool \<Rightarrow> nat \<Rightarrow> journal_row \<Rightarrow> (thrown_error, drive_result) flow" where
  "driveSteps deps signal 0 e = answer (DriveBlocked e ReconcileInProgress didNotSettle)"
| "driveSteps deps signal (Suc n) e =
     andThenF (checkCancellation signal) (\<lambda>_.
     andThenF (step deps e signal) (\<lambda>result.
     case result of
       StepNext e1 \<Rightarrow> driveSteps deps signal n e1
     | StepSettled e1 \<Rightarrow> answer (DriveSettled e1)
     | StepBlocked e1 reason m \<Rightarrow> answer (DriveBlocked e1 reason m)))"

definition takeOwnership ::
  "journal_deps \<Rightarrow> journal_row \<Rightarrow> bool \<Rightarrow> (thrown_error, (journal_row \<times> string) + journal_row) flow" where
  "takeOwnership deps e signal =
     (if journalOwnersEqual (jr_owner e) (jd_owner deps) then answer (Inr e)
      else if jd_ownerLive deps (jr_owner e)
      then answer (Inl (e, ''owned by live daemon '' @ pi_daemonId (jr_owner e)))
      else
        andThenF (transaction (\<lambda>now db. claimBindingJournal now (jr_id e) (jr_owner e) (jd_owner deps) db)) (\<lambda>claimed.
        andThenF (checkCancellation signal) (\<lambda>_.
        answer (case claimed of
           Inl found \<Rightarrow> Inl (case found of None \<Rightarrow> e | Some e1 \<Rightarrow> e1, ''claimed by another redrive'')
         | Inr e1 \<Rightarrow> Inr e1))))"

definition blockedDrive :: "journal_step \<Rightarrow> drive_result" where
  "blockedDrive st = (case st of StepBlocked e reason m \<Rightarrow> DriveBlocked e reason m
     | StepSettled e \<Rightarrow> DriveSettled e | StepNext e \<Rightarrow> DriveSettled e)"

text \<open>The entry is this process's: it waits out its backoff, then takes its steps.\<close>

definition driveOwned :: "journal_deps \<Rightarrow> bool \<Rightarrow> bool \<Rightarrow> journal_row \<Rightarrow> (thrown_error, drive_result) flow" where
  "driveOwned deps signal fromPass e =
     unlessPending (pendingEntryRemoval e fromPass) blockedDrive
       (andThenF (look wd_now) (\<lambda>now.
        if 0 < jr_attempts e \<and> now < jr_next_attempt e
        then answer (DriveSkipped e (''retry due in '' @ int_string (jr_next_attempt e - now) @ ''ms''))
        else
          andThenF (change (onInFlight (startDriving (jr_id e)))) (\<lambda>_.
          lastly (driveSteps deps signal MAX_STEPS_PER_DRIVE e) (onInFlight (stopDriving (jr_id e))))))"

definition driveEntry :: "journal_deps \<Rightarrow> journal_row \<Rightarrow> bool \<Rightarrow> bool \<Rightarrow> (thrown_error, drive_result) flow" where
  "driveEntry deps initial signal fromPass =
     andThenF (checkCancellation signal) (\<lambda>_.
     andThenF (look (\<lambda>s. drives (sc_inFlight s) (jr_id initial))) (\<lambda>driven.
     if driven
     then unlessPending (if fromPass then answer None else pendingEntryRemoval initial False) blockedDrive
            (answer (DriveSkipped initial ''in progress in this process''))
     else
       andThenF (takeOwnership deps initial signal) (\<lambda>owned.
       case owned of
         Inl (e, why) \<Rightarrow> answer (DriveSkipped e why)
       | Inr e \<Rightarrow> driveOwned deps signal fromPass e)))"

section \<open>Redriving a binding\<close>

text \<open>A binding left mid-replacement with no open entry gets one, as if its deletion had been journalled.\<close>

definition unjournaledEntry :: "journal_deps \<Rightarrow> assignment_row \<Rightarrow> open_journal_input" where
  "unjournaledEntry deps a =
     \<lparr>oj_kind = JReplace, oj_phase = Deleting,
      oj_target = \<lparr>jt_removalRequested = False, jt_quarantinedAtMs = None, jt_newPlatform = None,
        jt_oldStableId = as_device a, jt_oldName = as_device_name a, jt_newName = None, jt_newStableId = None,
        jt_requestedSpec = as_requested a,
        jt_resolvedSpec = (case as_resolved a of None \<Rightarrow> JNull | Some spec \<Rightarrow> spec),
        jt_specFingerprint = as_fingerprint a\<rparr>,
      oj_owner = jd_owner deps,
      oj_assignment = ChangeState \<lparr>be_generation = as_generation a, be_device = as_device a\<rparr> (as_state a) None\<rparr>"

definition leftMidReplacement :: "journal_deps \<Rightarrow> assignment_row \<Rightarrow> bool" where
  "leftMidReplacement deps a \<longleftrightarrow> truthy (as_device a) \<and> List.member [Replacing, CleanupPending] (as_state a) \<and>
     liveExecution deps a = None"

definition adoptUnjournaledWork ::
  "journal_deps \<Rightarrow> binding_key \<Rightarrow> bool \<Rightarrow> (thrown_error, journal_row option) flow" where
  "adoptUnjournaledWork deps k signal =
     andThenF (getAssignmentF k) (\<lambda>assignment.
     andThenF (checkCancellation signal) (\<lambda>_.
     case assignment of
       None \<Rightarrow> answer None
     | Some a \<Rightarrow>
         if \<not> leftMidReplacement deps a then answer None
         else
           andThenF (transaction (\<lambda>now db. openBindingJournal (jd_registryLive deps) now k (unjournaledEntry deps a) db)) (\<lambda>opened.
           andThenF (checkCancellation signal) (\<lambda>_.
           answer (case opened of
              JournalOpened e _ \<Rightarrow> Some e | JournalAlreadyOpen e \<Rightarrow> Some e | OpenRefused _ \<Rightarrow> None)))))"

definition recordOf :: "journal_row \<Rightarrow> bool \<Rightarrow> block_reason option \<Rightarrow> redrive_record" where
  "recordOf e stuck reason = \<lparr>jv_entryId = jr_id e, jv_kind = jr_kind e, jv_phase = jr_phase e,
     jv_blocked = stuck, jv_reason = reason\<rparr>"

datatype redrive_result =
    RedriveClear "redrive_record list"
  | RedriveBlocked block_reason string journal_row "redrive_record list"

definition kindName :: "journal_kind \<Rightarrow> string" where
  "kindName k = (case k of JCreate \<Rightarrow> ''create'' | JReplace \<Rightarrow> ''replace'' | JRelease \<Rightarrow> ''release'')"

fun redriveOpen ::
  "journal_deps \<Rightarrow> binding_key \<Rightarrow> bool \<Rightarrow> redrive_record list \<Rightarrow> journal_row list \<Rightarrow>
   (thrown_error, redrive_result) flow" where
  "redriveOpen deps k signal redriven [] = answer (RedriveClear redriven)"
| "redriveOpen deps k signal redriven (e # es) =
     andThenF (driveEntry deps e signal False) (\<lambda>result.
     case result of
       DriveSkipped e1 why \<Rightarrow> answer (RedriveBlocked (skippedReason e1)
         (''Binding '' @ int_string (snd k) @ '' has unfinished '' @ kindName (jr_kind e1) @ '' work ('' @ why @ '').'')
         e1 redriven)
     | DriveBlocked e1 reason m \<Rightarrow>
         answer (RedriveBlocked reason m e1 (redriven @ [recordOf e1 True (Some reason)]))
     | DriveSettled e1 \<Rightarrow> redriveOpen deps k signal (redriven @ [recordOf e1 False None]) es)"

definition redriveBindingEntries ::
  "journal_deps \<Rightarrow> binding_key \<Rightarrow> bool \<Rightarrow> (thrown_error, redrive_result) flow" where
  "redriveBindingEntries deps k signal =
     andThenF (checkCancellation signal) (\<lambda>_.
     andThenF (query (\<lambda>db. listOpenBindingJournal db (Some k))) (\<lambda>listed.
     andThenF (checkCancellation signal) (\<lambda>_.
     andThenF (if listed = []
               then andThenF (adoptUnjournaledWork deps k signal) (\<lambda>found.
                    answer (case found of None \<Rightarrow> [] | Some e \<Rightarrow> [e]))
               else answer listed) (\<lambda>es.
     redriveOpen deps k signal [] es))))"

definition redriveBinding :: "journal_deps \<Rightarrow> binding_key \<Rightarrow> bool \<Rightarrow> (thrown_error, redrive_result) flow" where
  "redriveBinding deps k signal =
     catching (redriveBindingEntries deps k signal)
       (\<lambda>x. case x of DriveCancelled reason \<Rightarrow> throw (Plain reason) | _ \<Rightarrow> throw x)"

section \<open>Passes\<close>

record pass_result =
  ps_settled :: "redrive_record list"
  ps_blocked :: "redrive_record list"
  ps_skipped :: nat

definition counted :: "pass_result \<Rightarrow> drive_result \<Rightarrow> pass_result" where
  "counted p result =
     (case result of
        DriveSkipped _ _ \<Rightarrow> p\<lparr>ps_skipped := ps_skipped p + 1\<rparr>
      | DriveSettled e \<Rightarrow> p\<lparr>ps_settled := ps_settled p @ [recordOf e False None]\<rparr>
      | DriveBlocked e reason _ \<Rightarrow> p\<lparr>ps_blocked := ps_blocked p @ [recordOf e True (Some reason)]\<rparr>)"

text \<open>A failing entry does not starve the others; a cancellation ends the pass.\<close>

fun passOver ::
  "journal_deps \<Rightarrow> bool \<Rightarrow> pass_result \<Rightarrow> journal_row list \<Rightarrow> (thrown_error, pass_result) flow" where
  "passOver deps signal p [] = answer p"
| "passOver deps signal p (e # es) =
     andThenF (look (\<lambda>s. signal \<and> wd_aborted s \<noteq> None)) (\<lambda>aborted.
     if aborted then answer p
     else
       andThenF (catching (andThenF (driveEntry deps e signal True) (\<lambda>result. answer (Some (counted p result))))
           (\<lambda>x. case x of
              DriveCancelled _ \<Rightarrow> answer None
            | _ \<Rightarrow> answer (Some (p\<lparr>ps_blocked := ps_blocked p @ [recordOf e True None]\<rparr>)))) (\<lambda>after.
       case after of None \<Rightarrow> answer p | Some p1 \<Rightarrow> passOver deps signal p1 es))"

definition runPass :: "journal_deps \<Rightarrow> bool \<Rightarrow> (thrown_error, pass_result) flow" where
  "runPass deps signal =
     (let p = \<lparr>ps_settled = [], ps_blocked = [], ps_skipped = 0\<rparr> in
      andThenF (look (\<lambda>s. signal \<and> wd_aborted s \<noteq> None)) (\<lambda>aborted.
      if aborted then answer p
      else andThenF (query (\<lambda>db. listOpenBindingJournal db None)) (passOver deps signal p)))"

section \<open>The other calls\<close>

definition close_entry ::
  "journal_deps \<Rightarrow> journal_row \<Rightarrow> journal_phase \<Rightarrow> (thrown_error, journal_step) flow" where
  "close_entry deps e phase = closeStep deps e phase False"

definition advance ::
  "journal_deps \<Rightarrow> journal_row \<Rightarrow> advance_journal_input \<Rightarrow> (thrown_error, advance_journal_result) flow" where
  "advance deps e inp =
     andThenF (advanceStep deps e (inp\<lparr>aj_owner := jd_owner deps\<rparr>) False) (\<lambda>result.
     andThenF (change (\<lambda>s. case result of
         JournalConflict _ \<Rightarrow> clearIntent (jr_id e) s
       | JournalAdvanced e1 _ \<Rightarrow> if jt_removalRequested (jr_target e1) then clearIntent (jr_id e) s else s
       | AdvanceRefused _ \<Rightarrow> s)) (\<lambda>_.
     answer result))"

text \<open>The entry points of the journal, as one function over the call that is made.\<close>

datatype journal_call =
    RedriveCall binding_key bool
  | PassCall bool
  | DeletionCall journal_row "device_info option" "int option" bool
  | CreationCall journal_row bool "int option"
  | RemovalCall journal_row "int option" bool
  | CloseCall journal_row journal_phase
  | AdvanceCall journal_row advance_journal_input

fun performJournal :: "journal_deps \<Rightarrow> journal_call \<Rightarrow> (thrown_error, unit) flow" where
  "performJournal deps (RedriveCall k signal) = andThenF (redriveBinding deps k signal) (\<lambda>_. answer ())"
| "performJournal deps (PassCall signal) = andThenF (runPass deps signal) (\<lambda>_. answer ())"
| "performJournal deps (DeletionCall e known dl signal) = andThenF (driveDeletion deps e known dl signal) (\<lambda>_. answer ())"
| "performJournal deps (CreationCall e adopt dl) = andThenF (settleCreation deps e adopt dl) (\<lambda>_. answer ())"
| "performJournal deps (RemovalCall e dl signal) = andThenF (requestRemoval deps e dl signal) (\<lambda>_. answer ())"
| "performJournal deps (CloseCall e phase) = andThenF (close_entry deps e phase) (\<lambda>_. answer ())"
| "performJournal deps (AdvanceCall e inp) = andThenF (advance deps e inp) (\<lambda>_. answer ())"

end
