(* ===== verification/JournalDrives.thy ===== *)
theory JournalDrives
  imports JournalDriver
begin

text \<open>
  What a drive of a journal entry answers, whatever happens meanwhile: every answer is about the entry
  it was given, and the only step that goes on leads from \<open>deleting\<close> to \<open>deleted\<close>.
\<close>

section \<open>What a drive answers\<close>

text \<open>\<open>returns P m\<close>: whatever \<open>m\<close> answers, in any scene and with any moves, satisfies \<open>P\<close>.\<close>

definition returns :: "('a \<Rightarrow> bool) \<Rightarrow> ('e, 'a) flow \<Rightarrow> bool" where
  "returns P m \<longleftrightarrow> (\<forall>s mv x s' mv'. m s mv = (Inr x, s', mv') \<longrightarrow> P x)"

named_theorems returns_rules \<open>rules for what flows answer\<close>

lemma returnsD: "returns P m \<Longrightarrow> m s mv = (Inr x, s', mv') \<Longrightarrow> P x"
  unfolding returns_def by blast

lemma returns_answer [returns_rules]: "P x \<Longrightarrow> returns P (answer x)"
  by (simp add: returns_def answer_def)

lemma returns_throw [returns_rules]: "returns P (throw e)"
  by (simp add: returns_def throw_def)

lemma returns_weaken: "returns P m \<Longrightarrow> (\<And>x. P x \<Longrightarrow> Q x) \<Longrightarrow> returns Q m"
  unfolding returns_def by blast

lemma returns_bind: "returns Q m \<Longrightarrow> (\<And>x. Q x \<Longrightarrow> returns P (f x)) \<Longrightarrow> returns P (andThenF m f)"
  unfolding returns_def andThenF_def by (auto split: prod.splits sum.splits) blast

lemma returns_andThen [returns_rules]: "(\<And>x. returns P (f x)) \<Longrightarrow> returns P (andThenF m f)"
  by (rule returns_bind [where Q = "\<lambda>_. True"]) (simp_all add: returns_def)

lemma returns_catching [returns_rules]: "returns P m \<Longrightarrow> (\<And>e. returns P (h e)) \<Longrightarrow> returns P (catching m h)"
  unfolding returns_def catching_def by (fastforce split: prod.splits sum.splits)

lemma returns_lastly [returns_rules]: "returns P m \<Longrightarrow> returns P (lastly m f)"
  unfolding returns_def lastly_def by (fastforce split: prod.splits)

lemma returns_if [returns_rules]: "(b \<Longrightarrow> returns P m) \<Longrightarrow> (\<not> b \<Longrightarrow> returns P n) \<Longrightarrow> returns P (if b then m else n)"
  by simp

lemma returns_racing [returns_rules]: "returns P m \<Longrightarrow> returns P (racing b m)"
  unfolding racing_def by (intro returns_rules)

lemma returns_stage [returns_rules]: "returns P m \<Longrightarrow> returns P (removalRegistryStage m)"
  unfolding removalRegistryStage_def by (rule returns_rules)

lemma returns_unlessPending [returns_rules]:
  "returns (\<lambda>p. \<forall>st. p = Some st \<longrightarrow> P (f st)) check \<Longrightarrow> returns P m \<Longrightarrow> returns P (unlessPending check f m)"
  unfolding unlessPending_def by (erule returns_bind) (auto split: option.split intro: returns_rules)

lemma returns_transaction:
  "(\<And>now db x db'. tx now db = Inr (x, db') \<Longrightarrow> P x) \<Longrightarrow> returns P (transaction tx)"
  unfolding transaction_def returns_def awaiting_def
  by (auto simp: Let_def split: prod.splits sum.splits option.splits)

section \<open>Phases move forward\<close>

lemma put_journal_found:
  assumes "getBindingJournal (put_journal i f db) i = Some j"
  shows "\<exists>j0. j = f j0 \<and> jr_id j0 = i"
  using assms
  by (auto simp: getBindingJournal_def put_journal_def get_row_def update_where_def find_Some_iff split: if_splits)

lemma put_assignment_found:
  "readAssignment (put_assignment k f db) k = Some c \<Longrightarrow> \<exists>a. c = f a"
  by (auto simp: readAssignment_def put_assignment_def get_row_def update_where_def find_Some_iff split: if_splits)

lemma finish_advance_result:
  assumes "finish_advance now e inp a db = Inr (r, db')"
  shows "\<exists>e1. r = JournalAdvanced e1 a \<and> jr_phase e1 = aj_phase inp \<and> jr_id e1 = jr_id e \<and>
     getBindingJournal db' (jr_id e) = Some e1"
  using assms put_journal_found [of "jr_id e" "journalAdvanceColumns e inp a now" db]
  by (auto simp: finish_advance_def orThrow_def Let_def rbind_def journalAdvanceColumns_def split: option.splits sum.splits)

lemma advance_result:
  assumes "advanceBindingJournal live now i inp db = Inr (JournalAdvanced e1 a, db')"
  shows "jr_phase e1 = aj_phase inp \<and> jr_id e1 = i \<and> getBindingJournal db' i = Some e1"
proof -
  obtain e where e: "getBindingJournal db i = Some e" and "jr_id e = i"
    using assms by (auto simp: advanceBindingJournal_def getBindingJournal_def get_row_def find_Some_iff split: option.splits)
  then show ?thesis
    using assms
    by (auto simp: advanceBindingJournal_def rbind_def split: option.splits if_splits sum.splits dest!: finish_advance_result)
qed

definition advanced_to :: "journal_row \<Rightarrow> journal_phase \<Rightarrow> advance_journal_result \<Rightarrow> bool" where
  "advanced_to e phase r \<longleftrightarrow>
     (case r of JournalAdvanced e1 a \<Rightarrow> jr_phase e1 = phase \<and> jr_id e1 = jr_id e | _ \<Rightarrow> True)"

lemma returns_advanceStep: "returns (advanced_to e (aj_phase inp)) (advanceStep deps e inp b)"
proof -
  have tx: "returns (advanced_to e (aj_phase inp))
      (transaction (\<lambda>now db. advanceBindingJournal (jd_registryLive deps) now (jr_id e) inp db))"
    by (rule returns_transaction) (auto simp: advanced_to_def dest: advance_result split: advance_journal_result.split)
  show ?thesis
    unfolding advanceStep_def by (intro returns_andThen returns_bind [OF tx] returns_answer)
qed

subsection \<open>Steps\<close>

fun row_of_step :: "journal_step \<Rightarrow> journal_row" where
  "row_of_step (StepNext e) = e"
| "row_of_step (StepSettled e) = e"
| "row_of_step (StepBlocked e reason m) = e"

text \<open>A step that ends the drive, on the same entry.\<close>

definition ends_drive :: "journal_row \<Rightarrow> journal_step \<Rightarrow> bool" where
  "ends_drive e st \<longleftrightarrow> jr_id (row_of_step st) = jr_id e \<and> (\<forall>e1. st \<noteq> StepNext e1)"

lemma ends_drive_simps [simp]:
  "ends_drive e (StepSettled e1) \<longleftrightarrow> jr_id e1 = jr_id e" "ends_drive e (StepBlocked e1 reason m) \<longleftrightarrow> jr_id e1 = jr_id e"
  "ends_drive e (StepNext e1) \<longleftrightarrow> False"
  by (simp_all add: ends_drive_def)

lemma ends_drive_row: "jr_id e1 = jr_id e \<Longrightarrow> ends_drive e1 st \<longleftrightarrow> ends_drive e st"
  by (simp add: ends_drive_def)

lemma entryAfter_id [simp]: "advanced_to e phase r \<Longrightarrow> jr_id (entryAfter r e) = jr_id e"
  by (simp add: advanced_to_def entryAfter_def split: advance_journal_result.splits)

lemma returns_closeStep [returns_rules]: "returns (ends_drive e) (closeStep deps e phase b)"
  unfolding closeStep_def
  by (rule returns_bind [OF returns_advanceStep]) (simp add: returns_rules)

lemma returns_recordBlocked [returns_rules]: "returns (ends_drive e) (recordBlocked deps e reason m patch b)"
  unfolding recordBlocked_def
  by (rule returns_andThen, rule returns_bind [OF returns_advanceStep]) (simp add: returns_rules)

lemma returns_removalStopped [returns_rules]: "returns (ends_drive e) (removalStopped deps e reason m patch b)"
  unfolding removalStopped_def by (intro returns_rules)

lemma returns_pendingRemoval [returns_rules]:
  "returns (\<lambda>p. \<forall>st. p = Some st \<longrightarrow> ends_drive e st) (pendingRemoval e p d gate)"
  unfolding pendingRemoval_def by (rule returns_andThen) (auto intro!: returns_rules split: if_splits)

lemma returns_ensureRemovalRecorded:
  "returns (\<lambda>r. case r of Inl st \<Rightarrow> ends_drive e st | Inr e1 \<Rightarrow> jr_id e1 = jr_id e) (ensureRemovalRecorded deps e d b)"
  unfolding ensureRemovalRecorded_def
  by (intro returns_if returns_andThen returns_bind [OF returns_stage [OF returns_advanceStep]])
     (auto simp: advanced_to_def split: advance_journal_result.splits intro!: returns_answer)

lemma returns_removeMarked [returns_rules]: "returns (ends_drive e) (removeMarked deps e x d dl b)"
proof -
  have closed: "returns (ends_drive e) (andThenF (removalRegistryStage (advanceStep deps e inp b)) (\<lambda>closed.
      andThenF (change f) (\<lambda>_. answer (StepSettled (entryAfter closed e)))))" for inp f
    by (rule returns_bind [OF returns_stage [OF returns_advanceStep]]) (simp add: returns_rules)
  show ?thesis
    unfolding removeMarked_def
    by (intro returns_andThen returns_if) (auto split: deletion_result.split intro!: returns_removalStopped returns_andThen closed)
qed

lemma returns_removeCreated [returns_rules]: "returns (ends_drive e) (removeCreated deps e x d dl b)"
proof -
  have "returns (ends_drive e) (removeMarked deps e1 x d dl b)" if "jr_id e1 = jr_id e" for e1
    by (rule returns_weaken [OF returns_removeMarked]) (use ends_drive_row [OF that] in blast)
  then show ?thesis
    unfolding removeCreated_def
    by (intro returns_bind [OF returns_ensureRemovalRecorded]) (auto split: sum.splits intro: returns_answer)
qed

lemma returns_adoptCreated [returns_rules]: "returns (ends_drive e) (adoptCreated deps e x d b)"
proof -
  have adopted: "returns (ends_drive e) (andThenF (advanceStep deps e inp b) (\<lambda>adopted. case adopted of
         JournalAdvanced e1 _ \<Rightarrow> answer (StepSettled e1)
       | JournalConflict _ \<Rightarrow> answer (StepBlocked e reason m)
       | AdvanceRefused _ \<Rightarrow> removeCreated deps e x d None b))" for inp reason m
    by (rule returns_bind [OF returns_advanceStep])
       (auto simp: advanced_to_def split: advance_journal_result.splits intro!: returns_answer returns_removeCreated)
  show ?thesis
    unfolding adoptCreated_def by (intro returns_andThen returns_if returns_removeCreated adopted)
qed

lemma returns_settleUnheld [returns_rules]: "returns (ends_drive e) (settleUnheld deps e ad dl b x d)"
  unfolding settleUnheld_def
  by (intro returns_andThen) (auto split: option.split spec_match.split
      intro!: returns_andThen returns_removeCreated returns_adoptCreated returns_recordBlocked)

lemma returns_creationStep [returns_rules]: "returns (ends_drive e) (creationStep deps e ad dl b)"
proof -
  have "returns (ends_drive e) (creationRegistryStep deps e ad dl b)"
    unfolding creationRegistryStep_def
    by (intro returns_andThen) (auto split: located.split
        intro!: returns_stage returns_closeStep returns_removalStopped returns_unlessPending returns_pendingRemoval
          returns_andThen returns_settleUnheld)
  then show ?thesis
    unfolding creationStep_def
    by (intro returns_catching) (auto split: thrown_error.split intro!: returns_answer returns_throw)
qed

lemma returns_settleRelease [returns_rules]: "returns (ends_drive e) (settleRelease deps e b)"
proof -
  have restored: "returns (ends_drive e) (andThenF (advanceStep deps e inp b) (\<lambda>restored. answer (case restored of
      JournalAdvanced e1 _ \<Rightarrow> StepSettled e1 | _ \<Rightarrow> StepBlocked e reason (m restored))))" for inp reason m
    by (rule returns_bind [OF returns_advanceStep])
       (auto simp: advanced_to_def split: advance_journal_result.splits intro!: returns_answer)
  show ?thesis
    unfolding settleRelease_def Let_def
    by (intro returns_andThen) (auto simp: heldBy_def split: option.split
        intro!: returns_closeStep returns_answer returns_andThen returns_recordBlocked restored)
qed

text \<open>The one step that goes on leads to \<open>deleted\<close>.\<close>

definition deletion_answer :: "journal_row \<Rightarrow> deletion_step \<Rightarrow> bool" where
  "deletion_answer e r \<longleftrightarrow> (case r of
      OldDeviceDeleted e1 a \<Rightarrow> jr_phase e1 = Deleted \<and> jr_id e1 = jr_id e
    | DeletionStopped st \<Rightarrow> ends_drive e st)"

lemma deletion_answer_simps [simp]:
  "deletion_answer e (OldDeviceDeleted e1 a) \<longleftrightarrow> jr_phase e1 = Deleted \<and> jr_id e1 = jr_id e"
  "deletion_answer e (DeletionStopped st) \<longleftrightarrow> ends_drive e st"
  by (simp_all add: deletion_answer_def)

lemma returns_recordDeletion: "returns (deletion_answer e) (recordDeletion deps e d r b)"
proof (cases r)
  case DeviceAbsent
  show ?thesis
    unfolding DeviceAbsent recordDeletion_def recordAbsence_def deletion_result.case
    by (rule returns_bind [OF returns_advanceStep])
       (auto simp: advanced_to_def advancing_def split: advance_journal_result.splits option.splits intro!: returns_answer)
next
  case (DeletionFailed m x)
  have "returns (deletion_answer e) (andThenF (advanceStep deps e inp b) (\<lambda>pending.
     answer (DeletionStopped (StepBlocked (entryAfter pending e) reason m))))" for inp reason m
    by (rule returns_bind [OF returns_advanceStep]) (simp add: returns_rules)
  then show ?thesis
    unfolding DeletionFailed recordDeletion_def recordFailedDeletion_def deletion_result.case
    by (intro returns_andThen) (simp split: prod.split)
qed

lemma returns_probeQuarantine: "returns (deletion_answer e) (probeQuarantine deps e d b)"
proof -
  have "returns (deletion_answer e) (andThenF (advanceStep deps e inp b) (\<lambda>probed.
     answer (DeletionStopped (StepBlocked (entryAfter probed e) reason m))))" for inp reason m
    by (rule returns_bind [OF returns_advanceStep]) (simp add: returns_rules)
  then show ?thesis unfolding probeQuarantine_def by (intro returns_andThen) (simp split: prod.split)
qed

lemma returns_stopped: "returns (ends_drive e) m \<Longrightarrow> returns (deletion_answer e) (andThenF m (\<lambda>st. answer (DeletionStopped st)))"
  by (erule returns_bind) (simp add: returns_rules)

lemma returns_deletionStep: "returns (deletion_answer e) (deletionStep deps e known dl b c)"
proof -
  have "returns (deletion_answer e) (deleteLocated deps e d dl b c place)" for d place
  proof (cases place)
    case (LocatedBlocked reason m)
    then show ?thesis by (simp add: deleteLocated_def returns_stopped returns_recordBlocked)
  qed (auto simp: deleteLocated_def intro!: returns_andThen returns_recordDeletion returns_probeQuarantine)
  then have deleting: "returns (deletion_answer e) (unlessPending (pendingRemoval e p d StepGate) DeletionStopped
      (andThenF (locateForDeletion deps e d c known) (deleteLocated deps e d dl b c)))" for p d
    by (intro returns_unlessPending returns_andThen returns_weaken [OF returns_pendingRemoval]) auto
  have closing: "returns (deletion_answer e) (andThenF (closeStep deps e RolledBack c) (\<lambda>st. answer (DeletionStopped st)))"
    by (rule returns_stopped [OF returns_closeStep])
  show ?thesis
    unfolding deletionStep_def Let_def
    by (rule returns_andThen, rule returns_andThen, rule returns_andThen, rule returns_if)
       (auto simp: heldBy_def split: option.split intro!: closing deleting returns_answer)
qed

definition step_answer :: "journal_row \<Rightarrow> journal_step \<Rightarrow> bool" where
  "step_answer e st \<longleftrightarrow> jr_id (row_of_step st) = jr_id e \<and>
     (\<forall>e1. st = StepNext e1 \<longrightarrow> jr_phase e = Deleting \<and> jr_phase e1 = Deleted)"

lemma ends_drive_answer: "ends_drive e st \<Longrightarrow> step_answer e st"
  by (simp add: ends_drive_def step_answer_def)

lemma returns_ended: "returns (ends_drive e) m \<Longrightarrow> returns (step_answer e) m"
  by (erule returns_weaken) (rule ends_drive_answer)

lemma returns_step: "returns (step_answer e) (step deps e b)"
proof -
  have deleting: "returns (step_answer e) (andThenF (deletionStep deps e None None b b) (\<lambda>result.
      answer (case result of OldDeviceDeleted e1 _ \<Rightarrow> StepNext e1 | DeletionStopped st \<Rightarrow> st)))"
    if "jr_phase e = Deleting"
    by (rule returns_bind [OF returns_deletionStep])
       (use that in \<open>auto simp: deletion_answer_def step_answer_def split: deletion_step.splits intro!: returns_answer
          dest: ends_drive_answer [unfolded step_answer_def]\<close>)
  show ?thesis
    unfolding step_def
    by (cases "jr_phase e") (auto intro!: returns_if returns_ended [OF returns_settleRelease] deleting
        returns_ended [OF returns_closeStep] returns_ended [OF returns_creationStep] returns_ended [OF returns_answer])
qed

subsection \<open>Drives\<close>

lemma driveSteps_ended:
  assumes "jr_phase e \<noteq> Deleting"
  shows "driveSteps deps b (Suc n) e s mv = driveSteps deps b 1 e s mv"
proof -
  obtain r1 s1 mv1 where one: "checkCancellation b s mv = (r1, s1, mv1)" by (rule prod_cases3)
  obtain r2 s2 mv2 where two: "step deps e b s1 mv1 = (r2, s2, mv2)" by (rule prod_cases3)
  have "r2 \<noteq> Inr (StepNext e1)" for e1
    using returnsD [OF returns_step] two assms by (force simp: step_answer_def)
  then show ?thesis
    using one two by (cases r1; cases r2) (auto simp: andThenF_def split: journal_step.split)
qed

fun row_of_drive :: "drive_result \<Rightarrow> journal_row" where
  "row_of_drive (DriveSettled e) = e"
| "row_of_drive (DriveBlocked e reason m) = e"
| "row_of_drive (DriveSkipped e why) = e"

definition drives_row :: "journal_row \<Rightarrow> drive_result \<Rightarrow> bool" where
  "drives_row e r \<longleftrightarrow> jr_id (row_of_drive r) = jr_id e"

lemma drives_row_simps [simp]:
  "drives_row e (DriveSettled e1) \<longleftrightarrow> jr_id e1 = jr_id e" "drives_row e (DriveBlocked e1 reason m) \<longleftrightarrow> jr_id e1 = jr_id e"
  "drives_row e (DriveSkipped e1 why) \<longleftrightarrow> jr_id e1 = jr_id e"
  by (simp_all add: drives_row_def)

lemma drives_row_blocked: "ends_drive e st \<Longrightarrow> drives_row e (blockedDrive st)"
  by (cases st) (simp_all add: blockedDrive_def)

lemma returns_driveSteps: "returns (drives_row e) (driveSteps deps b n e)"
proof (induction n arbitrary: e)
  case (Suc n)
  have "returns (drives_row e) (case st of StepNext e1 \<Rightarrow> driveSteps deps b n e1
      | StepSettled e1 \<Rightarrow> answer (DriveSettled e1) | StepBlocked e1 reason m \<Rightarrow> answer (DriveBlocked e1 reason m))"
    if "step_answer e st" for st
  proof (cases st)
    case (StepNext e1)
    then have "jr_id e1 = jr_id e" using that by (simp add: step_answer_def)
    then have "returns (drives_row e) (driveSteps deps b n e1)"
      using returns_weaken [OF Suc [of e1]] by (simp add: drives_row_def)
    then show ?thesis using StepNext by simp
  qed (use that in \<open>auto simp: step_answer_def intro!: returns_answer\<close>)
  then show ?case by (auto intro!: returns_andThen returns_bind [OF returns_step])
qed (simp add: returns_answer)

lemma returns_pendingEntryRemoval:
  "returns (\<lambda>p. \<forall>st. p = Some st \<longrightarrow> drives_row e (blockedDrive st)) (pendingEntryRemoval e b)"
  unfolding pendingEntryRemoval_def Let_def
  by (auto intro!: returns_if returns_answer returns_weaken [OF returns_pendingRemoval] drives_row_blocked)

lemma returns_driveOwned: "returns (drives_row e) (driveOwned deps b c e)"
  unfolding driveOwned_def
  by (intro returns_unlessPending returns_pendingEntryRemoval returns_andThen returns_if returns_answer returns_lastly
      returns_driveSteps) simp

lemma claim_result:
  assumes "claimBindingJournal now i x y db = Inr (r, db')"
  shows "case r of Inl None \<Rightarrow> True | Inl (Some e) \<Rightarrow> jr_id e = i | Inr e \<Rightarrow> jr_id e = i"
  using assms
  by (auto simp: claimBindingJournal_def orThrow_def Let_def rbind_def getBindingJournal_def get_row_def find_Some_iff
      split: option.splits if_splits)

lemma returns_takeOwnership:
  "returns (\<lambda>r. case r of Inl (e1, why) \<Rightarrow> jr_id e1 = jr_id e | Inr e1 \<Rightarrow> jr_id e1 = jr_id e) (takeOwnership deps e b)"
proof -
  have tx: "returns (\<lambda>r. case r of Inl None \<Rightarrow> True | Inl (Some e1) \<Rightarrow> jr_id e1 = jr_id e | Inr e1 \<Rightarrow> jr_id e1 = jr_id e)
      (transaction (\<lambda>now db. claimBindingJournal now (jr_id e) (jr_owner e) (jd_owner deps) db))"
    by (rule returns_transaction) (rule claim_result)
  have claimed: "returns (\<lambda>r. case r of Inl (e1, why) \<Rightarrow> jr_id e1 = jr_id e | Inr e1 \<Rightarrow> jr_id e1 = jr_id e)
      (andThenF (checkCancellation b) (\<lambda>_. answer (case r of
         Inl found \<Rightarrow> Inl (case found of None \<Rightarrow> e | Some e1 \<Rightarrow> e1, why) | Inr e1 \<Rightarrow> Inr e1)))"
    if "case r of Inl None \<Rightarrow> True | Inl (Some e1) \<Rightarrow> jr_id e1 = jr_id e | Inr e1 \<Rightarrow> jr_id e1 = jr_id e" for r why
    using that by (intro returns_andThen returns_answer) (auto split: sum.splits option.splits)
  show ?thesis
    unfolding takeOwnership_def by (intro returns_if returns_bind [OF tx claimed] returns_answer) simp_all
qed

lemma returns_driveEntry: "returns (drives_row e) (driveEntry deps e b c)"
proof -
  have owned: "returns (drives_row e) (driveOwned deps b c e1)" if "jr_id e1 = jr_id e" for e1
    using returns_driveOwned [of e1 deps b c] that by (auto elim!: returns_weaken simp: drives_row_def)
  have "returns (drives_row e) (case r of Inl (e1, why) \<Rightarrow> answer (DriveSkipped e1 why) | Inr e1 \<Rightarrow> driveOwned deps b c e1)"
    if "case r of Inl (e1, why) \<Rightarrow> jr_id e1 = jr_id e | Inr e1 \<Rightarrow> jr_id e1 = jr_id e" for r
    using that owned by (auto split: sum.splits intro!: returns_answer)
  then show ?thesis
    unfolding driveEntry_def
    by (intro returns_andThen returns_if returns_unlessPending returns_bind [OF returns_takeOwnership] returns_pendingEntryRemoval
        returns_answer) auto
qed

text \<open>
  C21: A drive of a journal entry never runs into its bound: one step may go on, from \<open>deleting\<close> to
  \<open>deleted\<close>, and the step after it always settles the entry or says what blocks it. So the loop of
  \<open>BindingJournal.driveSteps\<close> gives the same answer for every bound from two on, and with the
  source's six its fallback "did not settle" is never reached, whatever the registry, the native calls
  and the rest of the host do.
\<close>

theorem drives_take_two_steps:
  "driveSteps deps signal (Suc (Suc n)) e s mv = driveSteps deps signal 2 e s mv \<and>
   driveSteps deps signal MAX_STEPS_PER_DRIVE e s mv = driveSteps deps signal 2 e s mv"
proof -
  have two: "driveSteps deps signal (Suc (Suc m)) e s mv = driveSteps deps signal (Suc (Suc 0)) e s mv" for m
  proof -
    obtain r1 s1 mv1 where one: "checkCancellation signal s mv = (r1, s1, mv1)" by (rule prod_cases3)
    obtain r2 s2 mv2 where two: "step deps e signal s1 mv1 = (r2, s2, mv2)" by (rule prod_cases3)
    have next_step: "driveSteps deps signal (Suc m) e1 s2 mv2 = driveSteps deps signal (Suc 0) e1 s2 mv2"
      if "r2 = Inr (StepNext e1)" for e1
    proof -
      have "jr_phase e1 \<noteq> Deleting" using returnsD [OF returns_step] two that by (force simp: step_answer_def)
      then show ?thesis using driveSteps_ended by (metis One_nat_def)
    qed
    show ?thesis
      unfolding driveSteps.simps(2) [of _ _ "Suc _"] andThenF_def one
      using two next_step by (cases r1; cases r2) (auto simp: andThenF_def split: journal_step.split)
  qed
  have "MAX_STEPS_PER_DRIVE = Suc (Suc 4)" by (simp add: MAX_STEPS_PER_DRIVE_def)
  then show ?thesis using two [of n] two [of 4] by (simp add: numeral_2_eq_2)
qed

subsection \<open>Passes\<close>

definition accounted :: "pass_result \<Rightarrow> nat" where
  "accounted p = length (ps_settled p) + length (ps_blocked p) + ps_skipped p"

definition pass_ids :: "pass_result \<Rightarrow> int set" where
  "pass_ids p = jv_entryId ` set (ps_settled p @ ps_blocked p)"

lemma accounted_counted [simp]: "accounted (counted p r) = Suc (accounted p)"
  by (cases r) (simp_all add: counted_def accounted_def)

lemma pass_ids_counted: "drives_row e r \<Longrightarrow> pass_ids (counted p r) \<subseteq> insert (jr_id e) (pass_ids p)"
  by (cases r) (auto simp: counted_def pass_ids_def recordOf_def)

lemma passOver_step:
  assumes "\<not> (signal \<and> wd_aborted s \<noteq> None)" and "driveEntry deps e signal True s mv = (r, s1, mv1)"
  shows "passOver deps signal p (e # es) s mv =
    (case r of
       Inr result \<Rightarrow> passOver deps signal (counted p result) es s1 mv1
     | Inl x \<Rightarrow> if (\<exists>reason. x = DriveCancelled reason) then (Inr p, s1, mv1)
               else passOver deps signal (p\<lparr>ps_blocked := ps_blocked p @ [recordOf e True None]\<rparr>) es s1 mv1)"
proof -
  have go: "(signal \<and> wd_aborted s \<noteq> None) = False" using assms(1) by blast
  show ?thesis
    unfolding passOver.simps andThenF_def [of "look _"] look_def go
    using assms(2) by (auto simp: andThenF_def catching_def answer_def split: sum.split thrown_error.split)
qed

end
