(* ===== verification/JournalKeeps.thy ===== *)
theory JournalKeeps
  imports JournalDriver BrokerReleaseTheorems
begin

text \<open>
  A redrive of the binding journal changes the database by committed transactions only, and the order
  in which its reads, native calls and writes happen in a run.
\<close>

section \<open>Drives keep to the transactions\<close>

definition journal_contract :: "(scope_identity \<Rightarrow> string) \<Rightarrow> journal_deps \<Rightarrow> bool" where
  "journal_contract key_of deps \<longleftrightarrow>
     (\<forall>p. native_call key_of (jd_list deps p)) \<and> (\<forall>d. native_call key_of (jd_describe deps d)) \<and>
     (\<forall>d spec. native_call key_of (jd_matches deps d spec)) \<and> (\<forall>t. native_call key_of (jd_delete deps t))"

lemmas drive_splits = option.split sum.split prod.split located.split cas_failure.split
  advance_journal_result.split deletion_result.split deletion_step.split spec_match.split journal_step.split
  drive_result.split flag_result.split journal_phase.split thrown_error.split open_journal_result.split

lemma keeps_registry_transaction [flow_rules]:
  assumes "\<And>now db x db'. tx now db = Inr (x, db') \<Longrightarrow> registry_step key_of db db' \<or> db' = db"
  shows "keeps (hosted key_of) (transaction tx)"
  unfolding transaction_def
  by (rule hosted.meets_awaiting)
     (auto simp: hosted_def broker_step_def split: sum.splits prod.splits dest!: assms)

lemma inFlight_hosted [simp]:
  "hosted key_of s (onInFlight f s)" "hosted key_of s (clearIntent i s)" "hosted key_of s (markRemovalIntended e s)"
  by (simp_all add: hosted_def onInFlight_def clearIntent_def markRemovalIntended_def)

lemma keeps_checkCancellation [flow_rules]: "keeps (hosted key_of) (checkCancellation b)"
  unfolding checkCancellation_def by (auto split: option.split intro!: flow_rules)

lemma keeps_racing [flow_rules]: "keeps (hosted key_of) m \<Longrightarrow> keeps (hosted key_of) (racing b m)"
  unfolding racing_def by (intro flow_rules)

lemma keeps_boundedStage [flow_rules]:
  "keeps (hosted key_of) m \<Longrightarrow> keeps (hosted key_of) (boundedStage label signal cancel m f)"
  unfolding boundedStage_def by (auto split: option.split intro!: flow_rules)

lemma contract_calls:
  assumes "journal_contract key_of deps"
  shows "keeps (hosted key_of) (awaiting (jd_list deps p))" "keeps (hosted key_of) (awaiting (jd_describe deps d))"
    "keeps (hosted key_of) (awaiting (jd_matches deps d spec))"
  using assms by (auto simp: journal_contract_def intro: native_call_keeps)

lemma keeps_nativeDelete:
  assumes "journal_contract key_of deps"
  shows "keeps (hosted key_of) (nativeDelete deps t)"
proof -
  have "keeps (hosted key_of) (awaiting (\<lambda>s. case jd_delete deps t s of (r, s1) \<Rightarrow> (Inr r, onInFlight f s1)))" for f
  proof (rule hosted.meets_awaiting)
    fix s r s' assume "(case jd_delete deps t s of (r, s1) \<Rightarrow> (Inr r, onInFlight f s1)) = (r, s')"
    then have s': "s' = onInFlight f (snd (jd_delete deps t s))" by (auto split: prod.splits)
    have "native_call key_of (jd_delete deps t)" using assms by (simp add: journal_contract_def)
    then have "(registry_step key_of)\<^sup>*\<^sup>* (wd_db s) (wd_db s')" "sc_stopping s' = sc_stopping s"
      by (simp_all add: s' native_call_def onInFlight_def)
    then show "hosted key_of s s'" using registry_broker_steps by (intro hosted_db)
  qed simp_all
  then show ?thesis unfolding nativeDelete_def by (auto split: sum.split intro!: flow_rules)
qed

lemma keeps_advanceStep [flow_rules]: "keeps (hosted key_of) (advanceStep deps e inp b)"
  unfolding advanceStep_def by (auto intro!: flow_rules intro: registry_step.advanceBindingJournal)

lemma keeps_getAssignmentF [flow_rules]: "keeps (hosted key_of) (getAssignmentF k)"
  unfolding getAssignmentF_def by (auto intro!: flow_rules simp: rbind_def split: sum.splits)

lemma keeps_closeStep [flow_rules]: "keeps (hosted key_of) (closeStep deps e phase b)"
  unfolding closeStep_def by (auto intro!: flow_rules)

lemma keeps_removalRegistryStage [flow_rules]:
  "keeps (hosted key_of) m \<Longrightarrow> keeps (hosted key_of) (removalRegistryStage m)"
  unfolding removalRegistryStage_def by (rule flow_rules)

lemma keeps_recordBlocked [flow_rules]: "keeps (hosted key_of) (recordBlocked deps e reason m patch b)"
  unfolding recordBlocked_def by (auto intro!: flow_rules)

lemma keeps_removalStopped [flow_rules]: "keeps (hosted key_of) (removalStopped deps e reason m patch b)"
  unfolding removalStopped_def by (intro flow_rules)

lemma keeps_pendingRemoval [flow_rules]: "keeps (hosted key_of) (pendingRemoval e p d gate)"
  unfolding pendingRemoval_def by (cases gate) (auto intro!: flow_rules)

lemma keeps_pendingEntryRemoval [flow_rules]: "keeps (hosted key_of) (pendingEntryRemoval e b)"
  unfolding pendingEntryRemoval_def Let_def by (auto intro!: flow_rules)

lemma keeps_unlessPending [flow_rules]:
  "keeps (hosted key_of) check \<Longrightarrow> keeps (hosted key_of) m \<Longrightarrow> keeps (hosted key_of) (unlessPending check f m)"
  unfolding unlessPending_def by (auto split: option.split intro!: flow_rules)

lemma keeps_clearUnlessRefused [flow_rules]: "keeps (hosted key_of) (clearUnlessRefused r e)"
  unfolding clearUnlessRefused_def by (auto split: advance_journal_result.split intro!: flow_rules)

lemma keeps_listInventory [flow_rules]:
  "journal_contract key_of deps \<Longrightarrow> keeps (hosted key_of) (listInventory deps e p b)"
  unfolding listInventory_def Let_def by (auto intro!: flow_rules contract_calls)

lemma keeps_describeClaim [flow_rules]:
  "journal_contract key_of deps \<Longrightarrow> keeps (hosted key_of) (describeClaim deps e d b)"
  unfolding describeClaim_def Let_def by (auto intro!: flow_rules contract_calls)

lemma keeps_matchDevice [flow_rules]:
  "journal_contract key_of deps \<Longrightarrow> keeps (hosted key_of) (matchDevice deps e d spec b)"
  unfolding matchDevice_def Let_def by (auto intro!: flow_rules contract_calls)

lemma keeps_deleteDevice [flow_rules]:
  "journal_contract key_of deps \<Longrightarrow> keeps (hosted key_of) (deleteDevice deps t b c)"
  unfolding deleteDevice_def Let_def by (auto intro!: flow_rules keeps_nativeDelete)

lemma keeps_checkDeviceFree [flow_rules]:
  "journal_contract key_of deps \<Longrightarrow> keeps (hosted key_of) (checkDeviceFree deps e d b)"
  unfolding checkDeviceFree_def Let_def by (auto split: drive_splits intro!: flow_rules)

lemma keeps_confirmUnclaimed [flow_rules]:
  "journal_contract key_of deps \<Longrightarrow> keeps (hosted key_of) (confirmUnclaimed deps e d b device)"
  unfolding confirmUnclaimed_def confirmHolder_def by (auto intro!: flow_rules)

lemma keeps_locateForDeletion [flow_rules]:
  "journal_contract key_of deps \<Longrightarrow> keeps (hosted key_of) (locateForDeletion deps e d b known)"
  unfolding locateForDeletion_def Let_def by (auto split: drive_splits intro!: flow_rules)

lemma keeps_locateCreated [flow_rules]:
  "journal_contract key_of deps \<Longrightarrow> keeps (hosted key_of) (locateCreated deps e b)"
  unfolding locateCreated_def Let_def by (auto split: drive_splits intro!: flow_rules)

lemma keeps_probeQuarantine [flow_rules]:
  "journal_contract key_of deps \<Longrightarrow> keeps (hosted key_of) (probeQuarantine deps e d b)"
  unfolding probeQuarantine_def Let_def by (auto split: drive_splits intro!: flow_rules)

lemma keeps_recordFailedDeletion [flow_rules]:
  "journal_contract key_of deps \<Longrightarrow> keeps (hosted key_of) (recordFailedDeletion deps e d m x b)"
  unfolding recordFailedDeletion_def Let_def by (auto split: drive_splits intro!: flow_rules)

lemma keeps_recordAbsence [flow_rules]:
  "journal_contract key_of deps \<Longrightarrow> keeps (hosted key_of) (recordAbsence deps e b)"
  unfolding recordAbsence_def Let_def by (auto split: drive_splits intro!: flow_rules)

lemma keeps_recordDeletion [flow_rules]:
  "journal_contract key_of deps \<Longrightarrow> keeps (hosted key_of) (recordDeletion deps e d x b)"
  unfolding recordDeletion_def Let_def by (auto split: drive_splits intro!: flow_rules)

lemma keeps_deleteLocated [flow_rules]:
  "journal_contract key_of deps \<Longrightarrow> keeps (hosted key_of) (deleteLocated deps e d dl b c place)"
  unfolding deleteLocated_def Let_def by (auto split: drive_splits intro!: flow_rules)

lemma keeps_deletionStep [flow_rules]:
  "journal_contract key_of deps \<Longrightarrow> keeps (hosted key_of) (deletionStep deps e known dl b c)"
  unfolding deletionStep_def Let_def by (intro flow_rules) (auto split: drive_splits intro!: flow_rules)

lemma keeps_driveDeletion [flow_rules]:
  "journal_contract key_of deps \<Longrightarrow> keeps (hosted key_of) (driveDeletion deps e known dl b)"
  unfolding driveDeletion_def Let_def by (auto split: drive_splits intro!: flow_rules)

lemma keeps_ensureRemovalRecorded [flow_rules]:
  "journal_contract key_of deps \<Longrightarrow> keeps (hosted key_of) (ensureRemovalRecorded deps e d b)"
  unfolding ensureRemovalRecorded_def Let_def by (auto split: drive_splits intro!: flow_rules)

lemma keeps_removeMarked [flow_rules]:
  "journal_contract key_of deps \<Longrightarrow> keeps (hosted key_of) (removeMarked deps e x d dl b)"
  unfolding removeMarked_def Let_def by (auto split: drive_splits intro!: flow_rules)

lemma keeps_removeCreated [flow_rules]:
  "journal_contract key_of deps \<Longrightarrow> keeps (hosted key_of) (removeCreated deps e x d dl b)"
  unfolding removeCreated_def Let_def by (auto split: drive_splits intro!: flow_rules)

lemma keeps_adoptCreated [flow_rules]:
  "journal_contract key_of deps \<Longrightarrow> keeps (hosted key_of) (adoptCreated deps e x d b)"
  unfolding adoptCreated_def Let_def by (auto split: drive_splits intro!: flow_rules)

lemma keeps_settleUnheld [flow_rules]:
  "journal_contract key_of deps \<Longrightarrow> keeps (hosted key_of) (settleUnheld deps e ad dl b x d)"
  unfolding settleUnheld_def Let_def by (auto split: drive_splits intro!: flow_rules)

lemma keeps_creationRegistryStep [flow_rules]:
  "journal_contract key_of deps \<Longrightarrow> keeps (hosted key_of) (creationRegistryStep deps e ad dl b)"
  unfolding creationRegistryStep_def Let_def by (auto split: drive_splits intro!: flow_rules)

lemma keeps_creationStep [flow_rules]:
  "journal_contract key_of deps \<Longrightarrow> keeps (hosted key_of) (creationStep deps e ad dl b)"
  unfolding creationStep_def Let_def by (auto split: drive_splits intro!: flow_rules)

lemma keeps_settleCreation [flow_rules]:
  "journal_contract key_of deps \<Longrightarrow> keeps (hosted key_of) (settleCreation deps e ad dl)"
  unfolding settleCreation_def Let_def by (auto split: drive_splits intro!: flow_rules)

lemma keeps_settleRelease [flow_rules]:
  "journal_contract key_of deps \<Longrightarrow> keeps (hosted key_of) (settleRelease deps e b)"
  unfolding settleRelease_def Let_def by (auto split: drive_splits intro!: flow_rules)

lemma keeps_step [flow_rules]:
  "journal_contract key_of deps \<Longrightarrow> keeps (hosted key_of) (step deps e b)"
  unfolding step_def Let_def by (auto split: drive_splits intro!: flow_rules)

lemma keeps_driveSteps [flow_rules]:
  "journal_contract key_of deps \<Longrightarrow> keeps (hosted key_of) (driveSteps deps b n e)"
  by (induction n arbitrary: e) (auto split: drive_splits intro!: flow_rules)

lemma keeps_takeOwnership [flow_rules]:
  "keeps (hosted key_of) (takeOwnership deps e b)"
  unfolding takeOwnership_def Let_def by (auto split: drive_splits intro!: flow_rules intro: registry_step.claimBindingJournal)

lemma keeps_driveOwned [flow_rules]:
  "journal_contract key_of deps \<Longrightarrow> keeps (hosted key_of) (driveOwned deps b c e)"
  unfolding driveOwned_def Let_def by (auto split: drive_splits intro!: flow_rules)

lemma keeps_driveEntry [flow_rules]:
  "journal_contract key_of deps \<Longrightarrow> keeps (hosted key_of) (driveEntry deps e b c)"
  unfolding driveEntry_def Let_def by (auto split: drive_splits intro!: flow_rules)

lemma keeps_adoptUnjournaledWork [flow_rules]:
  "keeps (hosted key_of) (adoptUnjournaledWork deps k b)"
  unfolding adoptUnjournaledWork_def Let_def by (auto split: drive_splits intro!: flow_rules intro: registry_step.openBindingJournal)

lemma keeps_redriveOpen [flow_rules]:
  "journal_contract key_of deps \<Longrightarrow> keeps (hosted key_of) (redriveOpen deps k b acc es)"
  by (induction es arbitrary: acc) (auto split: drive_splits intro!: flow_rules)

lemma keeps_redriveBindingEntries [flow_rules]:
  "journal_contract key_of deps \<Longrightarrow> keeps (hosted key_of) (redriveBindingEntries deps k b)"
  unfolding redriveBindingEntries_def Let_def by (auto split: drive_splits intro!: flow_rules)

lemma keeps_redriveBinding [flow_rules]:
  "journal_contract key_of deps \<Longrightarrow> keeps (hosted key_of) (redriveBinding deps k b)"
  unfolding redriveBinding_def Let_def by (auto split: drive_splits intro!: flow_rules)

lemma keeps_passOver [flow_rules]:
  "journal_contract key_of deps \<Longrightarrow> keeps (hosted key_of) (passOver deps b p es)"
  by (induction es arbitrary: p) (auto split: drive_splits intro!: flow_rules)

lemma keeps_runPass [flow_rules]:
  "journal_contract key_of deps \<Longrightarrow> keeps (hosted key_of) (runPass deps b)"
  unfolding runPass_def Let_def by (auto split: drive_splits intro!: flow_rules)

lemma keeps_tryRemovalFlag [flow_rules]:
  "keeps (hosted key_of) (tryRemovalFlag deps e b c)"
  unfolding tryRemovalFlag_def Let_def by (auto split: drive_splits intro!: flow_rules)

lemma keeps_retryRemovalFlag [flow_rules]:
  "keeps (hosted key_of) (retryRemovalFlag deps e b n)"
  by (induction n arbitrary: e) (auto split: drive_splits intro!: flow_rules)

lemma keeps_requestRemoval [flow_rules]:
  "keeps (hosted key_of) (requestRemoval deps e dl b)"
  unfolding requestRemoval_def Let_def by (auto split: drive_splits intro!: flow_rules)

lemma keeps_close_entry [flow_rules]:
  "keeps (hosted key_of) (close_entry deps e phase)"
  unfolding close_entry_def Let_def by (auto split: drive_splits intro!: flow_rules)

lemma keeps_advance [flow_rules]:
  "keeps (hosted key_of) (advance deps e inp)"
  unfolding advance_def Let_def by (auto split: drive_splits intro!: flow_rules)

lemma keeps_performJournal:
  "journal_contract key_of deps \<Longrightarrow> keeps (hosted key_of) (performJournal deps c)"
  by (cases c) (auto intro!: flow_rules)

section \<open>What happened in a run\<close>

text \<open>The events of a list happened in this order, with anything of the host around them.\<close>

fun in_order :: "(scope_identity \<Rightarrow> string) \<Rightarrow> (scene \<Rightarrow> scene \<Rightarrow> bool) list \<Rightarrow> scene \<Rightarrow> scene \<Rightarrow> bool" where
  "in_order key_of [] s s' \<longleftrightarrow> hosted key_of s s'"
| "in_order key_of (A # As) s s' \<longleftrightarrow> (\<exists>t t'. hosted key_of s t \<and> A t t' \<and> in_order key_of As t' s')"

lemma in_order_before: "hosted key_of s t \<Longrightarrow> in_order key_of As t s' \<Longrightarrow> in_order key_of As s s'"
  by (cases As) (auto intro: hosted.R_trans)

lemma in_order_after: "in_order key_of As s t \<Longrightarrow> hosted key_of t s' \<Longrightarrow> in_order key_of As s s'"
proof (induction As arbitrary: s)
  case Nil
  then show ?case using hosted.R_trans by auto
next
  case (Cons A As)
  then show ?case by auto
qed

lemma in_order_append: "in_order key_of As s t \<Longrightarrow> in_order key_of Bs t s' \<Longrightarrow> in_order key_of (As @ Bs) s s'"
  by (induction As arbitrary: s) (auto intro: in_order_before)

lemma leads_native:
  assumes "native_call key_of act"
  shows "hosted.leads key_of (\<lambda>x. in_order key_of [\<lambda>t t'. act t = (Inr x, t')]) (awaiting act)"
  by (rule hosted.leads_awaiting) (auto intro: native_hosted [OF assms])

definition wrote :: "(int \<Rightarrow> broker_db \<Rightarrow> ('a \<times> broker_db) res) \<Rightarrow> 'a \<Rightarrow> scene \<Rightarrow> scene \<Rightarrow> bool" where
  "wrote tx x t t' \<longleftrightarrow> (\<exists>db. tx (wd_now t) (wd_db t) = Inr (x, db) \<and> t' = t\<lparr>wd_db := db\<rparr>)"

lemma leads_tx:
  assumes "\<And>now db x db'. tx now db = Inr (x, db') \<Longrightarrow> registry_step key_of db db' \<or> db' = db"
  shows "hosted.leads key_of (\<lambda>x. in_order key_of [wrote tx x]) (transaction tx)"
  unfolding transaction_def
proof (rule hosted.leads_awaiting)
  let ?act = "\<lambda>s. case tx (wd_now s) (wd_db s) of Inl e \<Rightarrow> (Inl (Plain e), s) | Inr (x, db) \<Rightarrow> (Inr x, s\<lparr>wd_db := db\<rparr>)"
  show "?act t = (r, t') \<Longrightarrow> hosted key_of t t'" for t r t'
    by (auto simp: hosted_def broker_step_def split: sum.splits prod.splits dest!: assms)
  fix s t x t' s'
  assume "hosted key_of s t" "?act t = (Inr x, t')" "hosted key_of t' s'"
  then show "in_order key_of [wrote tx x] s s'"
    by (auto simp: wrote_def split: sum.splits prod.splits)
qed

lemma leads_checked:
  assumes "hosted.leads key_of A m" and "\<And>x s t s'. A x s t \<Longrightarrow> hosted key_of t s' \<Longrightarrow> A x s s'"
  shows "hosted.leads key_of A (andThenF m (\<lambda>x. andThenF (checkCancellation b) (\<lambda>_. answer x)))"
proof (rule hosted.leads_andThen [OF assms(1)])
  show "hosted.leads key_of (\<lambda>y s s'. y = x \<and> hosted key_of s s') (andThenF (checkCancellation b) (\<lambda>_. answer x))" for x
    unfolding hosted.leads_def
    by (rule hosted.meets_andThen [OF keeps_checkCancellation hosted.meets_answer [where Q = "\<lambda>s r s'. r = Inr x"]])
       (auto intro: hosted.R_trans)
qed (auto intro: assms(2))

text \<open>A stage answers what its operation answered, or its fallback.\<close>

lemma leads_stage:
  assumes "hosted.leads key_of (\<lambda>x s s'. P x \<longrightarrow> in_order key_of (As x) s s') m" and "\<And>e. \<not> P (f e)"
  shows "hosted.leads key_of (\<lambda>x s s'. P x \<longrightarrow> in_order key_of (As x) s s') (boundedStage label b c m f)"
proof -
  let ?A = "\<lambda>x s s'. P x \<longrightarrow> in_order key_of (As x) s s'"
  have recovered: "hosted.leads key_of ?A (andThenF (look wd_aborted) (\<lambda>reason. case reason of
            None \<Rightarrow> answer (f e) | Some a \<Rightarrow> if c then throw (DriveCancelled a)
                      else answer (f (if b then stageCancelled label e else e))))" for e
    by (rule hosted.leads_later [OF hosted.keeps_look])
       (auto simp: assms(2) split: option.split intro!: hosted.leads_if hosted.leads_answer hosted.leads_throw intro: in_order_before)
  have "hosted.leads key_of ?A (racing b m)"
    unfolding racing_def by (rule hosted.leads_later [OF hosted.keeps_throwIfAborted assms(1)]) (auto intro: in_order_before)
  then have inner: "hosted.leads key_of ?A (andThenF (racing b m) (\<lambda>result. andThenF (checkCancellation c) (\<lambda>_. answer result)))"
    by (rule leads_checked) (auto intro: in_order_after)
  show ?thesis
    unfolding boundedStage_def
    by (rule hosted.leads_later [OF keeps_checkCancellation hosted.leads_catching [OF inner recovered]]) (use in_order_before in fast)+
qed

end
