(* ===== verification/JournalOrder.thy ===== *)
theory JournalOrder
  imports JournalKeeps
begin

text \<open>
  The order of what a deletion drive does: what it read, which native calls it made, what it committed.
\<close>

section \<open>Events\<close>

definition saw :: "(broker_db \<Rightarrow> bool) \<Rightarrow> scene \<Rightarrow> scene \<Rightarrow> bool" where
  "saw P t t' \<longleftrightarrow> t' = t \<and> P (wd_db t)"

definition called :: "'a native \<Rightarrow> 'a \<Rightarrow> scene \<Rightarrow> scene \<Rightarrow> bool" where
  "called act x t t' \<longleftrightarrow> act t = (Inr x, t')"

text \<open>The binding still stands as the entry names it, and no live session executes on it.\<close>

definition bound_idle :: "journal_deps \<Rightarrow> journal_row \<Rightarrow> broker_db \<Rightarrow> bool" where
  "bound_idle deps e db \<longleftrightarrow> (\<exists>b. readAssignment db (jr_key e) = Some b \<and> bindingMatches b (jr_binding e) \<and>
     liveExecution deps b = None)"

text \<open>The registry lets this binding, as the entry names it, hold the device.\<close>

definition held_by_entry :: "journal_row \<Rightarrow> string \<Rightarrow> broker_db \<Rightarrow> bool" where
  "held_by_entry e d db \<longleftrightarrow> (\<exists>scope b. findDeviceHolder db (jr_platform e) d = Some (scope, b) \<and>
     as_key b = jr_key e \<and> bindingMatches b (jr_binding e))"

definition deletedNatively :: "journal_deps \<Rightarrow> journal_row \<Rightarrow> string \<Rightarrow> scene \<Rightarrow> scene \<Rightarrow> bool" where
  "deletedNatively deps e d t t' \<longleftrightarrow> (\<exists>target f t1. dt_platform target = jr_platform e \<and> dt_stableId target = d \<and>
     jd_delete deps target t = (Inr DeviceAbsent, t1) \<and> t' = onInFlight f t1)"

definition emptying :: "journal_deps \<Rightarrow> journal_row \<Rightarrow> advance_journal_input" where
  "emptying deps e = advancing deps Deleting Deleted noPatch
     (Some (ChangeCommit (jr_binding e)
        ((emptyBindingCommit (jt_requestedSpec (jr_target e)))\<lparr>bc_platform := Some (journalCreationPlatform e)\<rparr>))) None"

definition emptied :: "journal_deps \<Rightarrow> journal_row \<Rightarrow> journal_row \<Rightarrow> assignment_row \<Rightarrow> scene \<Rightarrow> scene \<Rightarrow> bool" where
  "emptied deps e e1 a = wrote (\<lambda>now db. advanceBindingJournal (jd_registryLive deps) now (jr_id e) (emptying deps e) db)
     (JournalAdvanced e1 (Some a))"

section \<open>Reads and stages\<close>

lemma in_order_saw: "in_order key_of [saw P] s s' \<Longrightarrow> (\<And>db. P db \<Longrightarrow> Q db) \<Longrightarrow> in_order key_of [saw Q] s s'"
  by (auto simp: saw_def)

lemma in_order_last:
  "in_order key_of (As @ [B]) s s' \<Longrightarrow> (\<And>t t'. B t t' \<Longrightarrow> C t t') \<Longrightarrow> in_order key_of (As @ [C]) s s'"
  by (induction As arbitrary: s) (simp, blast)+

lemma leads_query: "hosted.leads key_of (\<lambda>x. in_order key_of [saw (\<lambda>db. f db = x)]) (query f)"
  unfolding query_def by (rule hosted.leads_awaiting) (auto simp: saw_def)

lemma leads_getAssignment:
  "hosted.leads key_of (\<lambda>x. in_order key_of [saw (\<lambda>db. readAssignment db k = x)]) (getAssignmentF k)"
  unfolding getAssignmentF_def transaction_def
  by (rule hosted.leads_awaiting)
    (auto simp: saw_def rbind_def getAssignment_def split: sum.splits prod.splits)

lemma leads_listInventory:
  assumes "journal_contract key_of deps"
  shows "hosted.leads key_of (\<lambda>x s s'. x \<noteq> None \<longrightarrow> in_order key_of [called (jd_list deps p) (the x)] s s')
     (listInventory deps e p b)"
  unfolding listInventory_def
proof (rule leads_stage)
  have "native_call key_of (jd_list deps p)" using assms by (simp add: journal_contract_def)
  note listed = leads_native [OF this, folded called_def]
  show "hosted.leads key_of (\<lambda>x s s'. x \<noteq> None \<longrightarrow> in_order key_of [called (jd_list deps p) (the x)] s s')
     (andThenF (awaiting (jd_list deps p)) (\<lambda>inventory. answer (Some inventory)))"
    by (rule hosted.leads_andThen [OF listed hosted.leads_answer [where A = "\<lambda>y s s'. y = Some _ \<and> s = s'"]])
      (auto simp del: in_order.simps)
qed simp

lemma leads_describeClaim:
  assumes "journal_contract key_of deps"
  shows "hosted.leads key_of (\<lambda>x s s'. x = ClaimFree \<longrightarrow> in_order key_of [called (jd_describe deps d) x] s s')
     (describeClaim deps e d b)"
  unfolding describeClaim_def
proof (rule leads_stage)
  have "native_call key_of (jd_describe deps d)" using assms by (simp add: journal_contract_def)
  from leads_native [OF this, folded called_def]
  show "hosted.leads key_of (\<lambda>x s s'. x = ClaimFree \<longrightarrow> in_order key_of [called (jd_describe deps d) x] s s')
     (awaiting (jd_describe deps d))"
    by (rule hosted.leads_weaken) blast
qed simp

section \<open>Finding the device to delete\<close>

definition sought :: "(scope_identity \<Rightarrow> string) \<Rightarrow> journal_deps \<Rightarrow> journal_row \<Rightarrow> string \<Rightarrow> located \<Rightarrow> scene \<Rightarrow> scene \<Rightarrow> bool" where
  "sought key_of deps e d place s s' \<longleftrightarrow> (case place of
      LocatedNowhere \<Rightarrow> \<exists>listing. iv_complete listing \<and> findByStableId listing (jr_platform e) d = None \<and>
        in_order key_of [called (jd_list deps (jr_platform e)) listing] s s'
    | LocatedDevice dev _ \<Rightarrow> \<exists>listing. findByStableId listing (jr_platform e) d = Some dev \<and>
        in_order key_of [called (jd_list deps (jr_platform e)) listing, called (jd_describe deps dev) ClaimFree,
          saw (held_by_entry e d)] s s'
    | LocatedBlocked _ _ \<Rightarrow> True)"

lemma sought_blocked [simp]: "sought key_of deps e d (LocatedBlocked reason m) s s'"
  by (simp add: sought_def)

lemma leads_confirmHolder:
  "hosted.leads key_of (\<lambda>place s s'. (\<exists>reason m. place = LocatedBlocked reason m) \<or>
       place = LocatedDevice device d \<and> in_order key_of [saw (held_by_entry e d)] s s')
     (confirmHolder e d b device)"
  unfolding confirmHolder_def
proof (rule hosted.leads_andThen [OF leads_query])
  fix holder :: "(scope_row \<times> assignment_row) option"
  let ?place = "if (case holder of None \<Rightarrow> True | Some (scope, a) \<Rightarrow> as_key a \<noteq> jr_key e \<or> \<not> bindingMatches a (jr_binding e))
        then LocatedBlocked ReconcileInProgress (''Device '' @ quoted d @ '' is no longer this binding's device.'')
        else LocatedDevice device d"
  show "hosted.leads key_of (\<lambda>place s s'. hosted key_of s s' \<and> place = ?place)
     (andThenF (checkCancellation b) (\<lambda>_. answer ?place))"
    by (rule hosted.leads_later [OF keeps_checkCancellation hosted.leads_answer]) (auto intro: hosted.R_trans hosted.R_refl)
  fix place s t s'
  assume read: "in_order key_of [saw (\<lambda>db. findDeviceHolder db (jr_platform e) d = holder)] s t"
    and then_: "hosted key_of t s' \<and> place = ?place"
  have "held_by_entry e d db" if "findDeviceHolder db (jr_platform e) d = holder" "place = LocatedDevice device d" for db
    using that then_ unfolding held_by_entry_def by (auto split: if_splits option.splits)
  then have "place = LocatedDevice device d \<Longrightarrow> in_order key_of [saw (held_by_entry e d)] s t"
    using in_order_saw [OF read] by blast
  then show "(\<exists>reason m. place = LocatedBlocked reason m) \<or>
       place = LocatedDevice device d \<and> in_order key_of [saw (held_by_entry e d)] s s'"
    using then_ in_order_after by (metis (no_types, lifting))
qed

lemma leads_confirmUnclaimed:
  assumes "journal_contract key_of deps"
  shows "hosted.leads key_of (\<lambda>place s s'. (\<exists>reason m. place = LocatedBlocked reason m) \<or>
       place = LocatedDevice device d \<and>
       in_order key_of [called (jd_describe deps device) ClaimFree, saw (held_by_entry e d)] s s')
     (confirmUnclaimed deps e d b device)"
  unfolding confirmUnclaimed_def
proof (rule hosted.leads_andThen [OF leads_describeClaim [OF assms]])
  show "hosted.leads key_of (\<lambda>place s s'. (\<exists>reason m. place = LocatedBlocked reason m) \<or>
       claim = ClaimFree \<and> place = LocatedDevice device d \<and> in_order key_of [saw (held_by_entry e d)] s s')
     (if claim \<noteq> ClaimFree then answer (LocatedBlocked (claimBlocks claim) m) else confirmHolder e d b device)" for claim m
    by (auto intro: hosted.leads_answer hosted.leads_weaken [OF leads_confirmHolder])
  fix claim place s t s'
  assume "claim = ClaimFree \<longrightarrow> in_order key_of [called (jd_describe deps device) claim] s t"
    and "(\<exists>reason m. place = LocatedBlocked reason m) \<or>
       claim = ClaimFree \<and> place = LocatedDevice device d \<and> in_order key_of [saw (held_by_entry e d)] t s'"
  then show "(\<exists>reason m. place = LocatedBlocked reason m) \<or> place = LocatedDevice device d \<and>
       in_order key_of [called (jd_describe deps device) ClaimFree, saw (held_by_entry e d)] s s'"
    using in_order_append [of key_of "[called (jd_describe deps device) ClaimFree]" s t] by fastforce
qed

lemma leads_locateForDeletion:
  assumes "journal_contract key_of deps"
  shows "hosted.leads key_of (sought key_of deps e d) (locateForDeletion deps e d b None)"
  unfolding locateForDeletion_def option.case
proof (rule hosted.leads_andThen [OF leads_listInventory [OF assms]])
  fix listed :: "inventory_snapshot option"
  show "hosted.leads key_of (\<lambda>place s s'. (\<exists>reason m. place = LocatedBlocked reason m) \<or>
        (\<exists>listing. listed = Some listing \<and> (case findByStableId listing (jr_platform e) d of
           None \<Rightarrow> iv_complete listing \<and> place = LocatedNowhere \<and> s' = s
         | Some dev \<Rightarrow> place = LocatedDevice dev d \<and>
             in_order key_of [called (jd_describe deps dev) ClaimFree, saw (held_by_entry e d)] s s')))
      (case listed of
            None \<Rightarrow> answer discoveryFailed
          | Some inventory \<Rightarrow>
              (case findByStableId inventory (jr_platform e) d of
                 None \<Rightarrow> answer (if iv_complete inventory then LocatedNowhere
                                else LocatedBlocked DiscoveryIncomplete (notListed d))
               | Some device \<Rightarrow> confirmUnclaimed deps e d b device))"
    by (auto simp: discoveryFailed_def simp del: in_order.simps split: option.split
          intro!: hosted.leads_answer hosted.leads_weaken [OF leads_confirmUnclaimed [OF assms]])
  fix place s t s'
  assume first: "listed \<noteq> None \<longrightarrow> in_order key_of [called (jd_list deps (jr_platform e)) (the listed)] s t"
    and second: "(\<exists>reason m. place = LocatedBlocked reason m) \<or>
        (\<exists>listing. listed = Some listing \<and> (case findByStableId listing (jr_platform e) d of
           None \<Rightarrow> iv_complete listing \<and> place = LocatedNowhere \<and> s' = t
         | Some dev \<Rightarrow> place = LocatedDevice dev d \<and>
             in_order key_of [called (jd_describe deps dev) ClaimFree, saw (held_by_entry e d)] t s'))"
  show "sought key_of deps e d place s s'"
  proof (cases "\<exists>reason m. place = LocatedBlocked reason m")
    case False
    then obtain listing where listing: "listed = Some listing" and
      rest: "case findByStableId listing (jr_platform e) d of
           None \<Rightarrow> iv_complete listing \<and> place = LocatedNowhere \<and> s' = t
         | Some dev \<Rightarrow> place = LocatedDevice dev d \<and>
             in_order key_of [called (jd_describe deps dev) ClaimFree, saw (held_by_entry e d)] t s'" using second by blast
    have listed_then: "in_order key_of [called (jd_list deps (jr_platform e)) listing] s t" using first listing by simp
    note later = in_order_append [OF listed_then, unfolded append_Cons append_Nil]
    show ?thesis
    proof (cases "findByStableId listing (jr_platform e) d")
      case None
      then show ?thesis using rest listed_then unfolding sought_def by auto
    next
      case (Some dev)
      then show ?thesis using rest later unfolding sought_def by (simp del: in_order.simps) blast
    qed
  qed auto
qed

section \<open>Deleting and recording\<close>

lemma leads_nativeDelete:
  assumes "journal_contract key_of deps" and "dt_platform target = jr_platform e" and "dt_stableId target = d"
  shows "hosted.leads key_of (\<lambda>x s s'. x = DeviceAbsent \<longrightarrow> in_order key_of [deletedNatively deps e d] s s')
     (nativeDelete deps target)"
proof -
  have native: "native_call key_of (jd_delete deps target)" using assms(1) by (simp add: journal_contract_def)
  have awaited: "hosted.leads key_of (\<lambda>x s s'. x = Inr DeviceAbsent \<longrightarrow> in_order key_of [deletedNatively deps e d] s s')
     (awaiting (\<lambda>s. case jd_delete deps target s of (r, s1) \<Rightarrow> (Inr r, onInFlight f s1)))" for f
  proof (rule hosted.leads_awaiting)
    fix t r t' assume "(case jd_delete deps target t of (r, s1) \<Rightarrow> (Inr r, onInFlight f s1)) = (r, t')"
    then show "hosted key_of t t'"
      using native_hosted [OF native] inFlight_hosted(1) hosted.R_trans by (fastforce split: prod.splits)
  next
    fix s t x t' s'
    assume "hosted key_of s t" "hosted key_of t' s'"
      "(case jd_delete deps target t of (r, s1) \<Rightarrow> (Inr r, onInFlight f s1)) = (Inr x, t')"
    moreover from this have "x = Inr DeviceAbsent \<longrightarrow> deletedNatively deps e d t t'"
      using assms(2,3) unfolding deletedNatively_def by (cases "jd_delete deps target t") auto
    ultimately show "x = Inr DeviceAbsent \<longrightarrow> in_order key_of [deletedNatively deps e d] s s'"
      by auto
  qed
  have inner: "hosted.leads key_of (\<lambda>x s s'. x = DeviceAbsent \<longrightarrow> in_order key_of [deletedNatively deps e d] s s')
     (andThenF (awaiting (\<lambda>s. case jd_delete deps target s of (r, s1) \<Rightarrow> (Inr r, onInFlight f s1)))
       (\<lambda>result. case result of Inl e \<Rightarrow> throw e | Inr x \<Rightarrow> answer x))" for f
  proof (rule hosted.leads_andThen [OF awaited])
    show "hosted.leads key_of (\<lambda>y s s'. r = Inr y \<and> s' = s) (case r of Inl e \<Rightarrow> throw e | Inr x \<Rightarrow> answer x)" for r
      by (auto split: sum.split intro: hosted.leads_throw hosted.leads_answer)
  qed (simp del: in_order.simps)
  show ?thesis
    unfolding nativeDelete_def
    by (rule hosted.leads_later [OF hosted.keeps_look hosted.leads_later [OF keeps_change inner]])
      (use in_order_before in \<open>auto simp del: in_order.simps\<close>)
qed

lemma leads_deleteDevice:
  assumes "journal_contract key_of deps" and "dt_platform target = jr_platform e" and "dt_stableId target = d"
  shows "hosted.leads key_of (\<lambda>x s s'. x = DeviceAbsent \<longrightarrow> in_order key_of [deletedNatively deps e d] s s')
     (deleteDevice deps target b c)"
proof -
  let ?A = "\<lambda>x s s'. x = DeviceAbsent \<longrightarrow> in_order key_of [deletedNatively deps e d] s s'"
  have stage: "hosted.leads key_of ?A
     (boundedStage label b c (nativeDelete deps target) (\<lambda>e. DeletionFailed (thrownMessage e) False))" for label
    by (rule leads_stage [OF leads_nativeDelete [OF assms]]) simp
  have stay: "hosted key_of s t \<Longrightarrow> ?A y t s' \<Longrightarrow> ?A y s s'" for y s t s'
    using in_order_before by blast
  have "hosted.leads key_of ?A (lastly (boundedStage label b c (nativeDelete deps target)
      (\<lambda>e. DeletionFailed (thrownMessage e) False)) (\<lambda>s. onInFlight (f s) s))" for label f
    by (rule hosted.leads_lastly [OF stage]) (use in_order_after inFlight_hosted(1) in blast)+
  then have go: "hosted.leads key_of ?A (andThenF (look g) (\<lambda>i. lastly (boundedStage label b c (nativeDelete deps target)
      (\<lambda>e. DeletionFailed (thrownMessage e) False)) (\<lambda>s. onInFlight (f i s) s)))" for label f and g :: "scene \<Rightarrow> nat"
    by (intro hosted.leads_later [OF hosted.keeps_look]) (use stay in blast)+
  show ?thesis
    unfolding deleteDevice_def
    by (rule hosted.leads_later [OF hosted.keeps_look])
      (use stay go in \<open>auto simp del: in_order.simps intro!: hosted.leads_answer\<close>)
qed

lemma leads_advanceStep:
  "hosted.leads key_of (\<lambda>r. in_order key_of [wrote (\<lambda>now db. advanceBindingJournal (jd_registryLive deps) now (jr_id e) inp db) r])
     (advanceStep deps e inp b)"
  unfolding advanceStep_def
  by (rule hosted.leads_later [OF keeps_checkCancellation leads_checked [OF leads_tx]])
    (auto simp del: in_order.simps intro: registry_step.advanceBindingJournal in_order_after in_order_before)

text \<open>What it takes to answer that the old device is gone.\<close>

definition deletes :: "(journal_row \<Rightarrow> assignment_row \<Rightarrow> scene \<Rightarrow> scene \<Rightarrow> bool) \<Rightarrow> deletion_step \<Rightarrow> scene \<Rightarrow> scene \<Rightarrow> bool" where
  "deletes A r s s' \<longleftrightarrow> (case r of OldDeviceDeleted e1 a \<Rightarrow> A e1 a s s' | DeletionStopped _ \<Rightarrow> True)"

lemma deletes_simps [simp]:
  "deletes A (OldDeviceDeleted e1 a) s s' \<longleftrightarrow> A e1 a s s'" "deletes A (DeletionStopped st) s s'"
  by (simp_all add: deletes_def)

lemma deletes_mono: "deletes A r s t \<Longrightarrow> (\<And>e1 a. A e1 a s t \<Longrightarrow> B e1 a s' t') \<Longrightarrow> deletes B r s' t'"
  by (auto simp: deletes_def split: deletion_step.splits)

lemma leads_recordAbsence:
  "hosted.leads key_of (deletes (\<lambda>e1 a. in_order key_of [emptied deps e e1 a])) (recordAbsence deps e b)"
  unfolding recordAbsence_def emptying_def [symmetric]
  by (rule hosted.leads_andThen [OF leads_advanceStep hosted.leads_answer [where A = "\<lambda>y s s'. y = _ \<and> s' = s"]])
    (auto simp: emptied_def deletes_def simp del: in_order.simps split: advance_journal_result.splits option.splits)

lemma leads_stopped:
  assumes "keeps (hosted key_of) m"
  shows "hosted.leads key_of (deletes A) (andThenF m (\<lambda>st. answer (DeletionStopped (f st))))"
proof -
  have "hosted.leads key_of (\<lambda>y s s'. \<exists>st. y = DeletionStopped st) (andThenF m (\<lambda>st. answer (DeletionStopped (f st))))"
    by (rule hosted.leads_later [OF assms hosted.leads_answer]) auto
  then show ?thesis by (rule hosted.leads_weaken) auto
qed

lemma leads_later_deletes:
  assumes "keeps (hosted key_of) m" and "\<And>x. hosted.leads key_of (deletes (\<lambda>e1 a. in_order key_of (As e1 a))) (f x)"
  shows "hosted.leads key_of (deletes (\<lambda>e1 a. in_order key_of (As e1 a))) (andThenF m f)"
  by (rule hosted.leads_later [OF assms]) (auto elim!: deletes_mono intro: in_order_before)

lemma leads_recordFailedDeletion:
  "hosted.leads key_of (deletes A) (recordFailedDeletion deps e d m x b)"
proof -
  have "hosted.leads key_of (\<lambda>y s s'. \<exists>st. y = DeletionStopped st) (recordFailedDeletion deps e d m x b)"
    unfolding recordFailedDeletion_def
    by (rule hosted.leads_later [OF hosted.keeps_look])
      (auto split: prod.split intro!: hosted.leads_later [OF keeps_advanceStep] hosted.leads_answer)
  then show ?thesis by (rule hosted.leads_weaken) auto
qed

lemma leads_probeQuarantine: "hosted.leads key_of (deletes A) (probeQuarantine deps e d b)"
proof -
  have "hosted.leads key_of (\<lambda>y s s'. \<exists>st. y = DeletionStopped st) (probeQuarantine deps e d b)"
    unfolding probeQuarantine_def
    by (rule hosted.leads_later [OF hosted.keeps_look])
      (auto split: prod.split intro!: hosted.leads_later [OF keeps_advanceStep] hosted.leads_answer)
  then show ?thesis by (rule hosted.leads_weaken) auto
qed

lemma leads_recordDeletion:
  "hosted.leads key_of (deletes (\<lambda>e1 a s s'. x = DeviceAbsent \<and> in_order key_of [emptied deps e e1 a] s s'))
     (recordDeletion deps e d x b)"
proof (cases x)
  case DeviceAbsent
  then show ?thesis unfolding recordDeletion_def by (simp del: in_order.simps add: leads_recordAbsence)
qed (simp add: recordDeletion_def leads_recordFailedDeletion)

section \<open>The deletion step\<close>

text \<open>What deleting at a place takes.\<close>

definition removed_at :: "journal_deps \<Rightarrow> journal_row \<Rightarrow> string \<Rightarrow> located \<Rightarrow> (scene \<Rightarrow> scene \<Rightarrow> bool) list" where
  "removed_at deps e d place = (case place of
     LocatedDevice _ _ \<Rightarrow> [deletedNatively deps e d] | _ \<Rightarrow> [])"

lemma leads_deleteLocated:
  assumes "journal_contract key_of deps"
  shows "hosted.leads key_of (deletes (\<lambda>e1 a s s'. (\<forall>reason m. place \<noteq> LocatedBlocked reason m) \<and>
       in_order key_of (removed_at deps e d place @ [emptied deps e e1 a]) s s'))
     (deleteLocated deps e d dl b c place)"
proof (cases place)
  case (LocatedBlocked reason m)
  then show ?thesis by (simp add: deleteLocated_def leads_stopped [OF keeps_recordBlocked])
next
  case LocatedNowhere
  have "hosted.leads key_of (deletes (\<lambda>e1 a. in_order key_of [emptied deps e e1 a]))
     (andThenF (checkCancellation c) (\<lambda>_. recordDeletion deps e d DeviceAbsent c))"
    using leads_recordDeletion [where x = DeviceAbsent]
    by (intro leads_later_deletes [OF keeps_checkCancellation]) (simp del: in_order.simps)
  then show ?thesis unfolding LocatedNowhere deleteLocated_def by (simp add: removed_at_def del: in_order.simps)
next
  case (LocatedDevice device d')
  have recording: "hosted.leads key_of (deletes (\<lambda>e1 a s s'. x = DeviceAbsent \<and> in_order key_of [emptied deps e e1 a] s s'))
     (andThenF (checkCancellation c) (\<lambda>_. recordDeletion deps e d x c))" for x
    by (rule hosted.leads_later [OF keeps_checkCancellation leads_recordDeletion])
      (auto elim!: deletes_mono intro: in_order_before simp del: in_order.simps)
  have deleting: "hosted.leads key_of (deletes (\<lambda>e1 a. in_order key_of [deletedNatively deps e d, emptied deps e e1 a]))
     (andThenF (deleteDevice deps target b c) (\<lambda>x. andThenF (checkCancellation c) (\<lambda>_. recordDeletion deps e d x c)))"
    if "dt_platform target = jr_platform e" "dt_stableId target = d" for target
  proof (rule hosted.leads_andThen [OF leads_deleteDevice [OF assms that] recording])
    fix x y s t s'
    assume del: "x = DeviceAbsent \<longrightarrow> in_order key_of [deletedNatively deps e d] s t"
      and rec: "deletes (\<lambda>e1 a s s'. x = DeviceAbsent \<and> in_order key_of [emptied deps e e1 a] s s') y t s'"
    from rec show "deletes (\<lambda>e1 a. in_order key_of [deletedNatively deps e d, emptied deps e e1 a]) y s s'"
    proof (rule deletes_mono)
      fix e1 a assume "x = DeviceAbsent \<and> in_order key_of [emptied deps e e1 a] t s'"
      then show "in_order key_of [deletedNatively deps e d, emptied deps e e1 a] s s'"
        using in_order_append [of key_of "[deletedNatively deps e d]" s t "[emptied deps e e1 a]" s'] del by simp
    qed
  qed
  then show ?thesis
    unfolding LocatedDevice deleteLocated_def located.case
    by (intro hosted.leads_if leads_probeQuarantine)
      (auto simp: removed_at_def simp del: in_order.simps intro!: leads_later_deletes [OF hosted.keeps_look])
qed

text \<open>
  What the step saw and did before it committed the empty binding. A caller that names the device
  (\<open>known\<close>) has found it already: the step goes straight to the native delete.
\<close>

definition deletion_events ::
  "journal_deps \<Rightarrow> journal_row \<Rightarrow> string \<Rightarrow> device_info option \<Rightarrow> inventory_snapshot \<Rightarrow>
   (scene \<Rightarrow> scene \<Rightarrow> bool) list" where
  "deletion_events deps e d known listing =
     [saw (bound_idle deps e)] @
     (case known of
        Some _ \<Rightarrow> [deletedNatively deps e d]
      | None \<Rightarrow>
          called (jd_list deps (jr_platform e)) listing #
          (case findByStableId listing (jr_platform e) d of
             None \<Rightarrow> []
           | Some dev \<Rightarrow> [called (jd_describe deps dev) ClaimFree, saw (held_by_entry e d), deletedNatively deps e d]))"

text \<open>Only a complete listing says by its silence that a device is gone.\<close>

definition listing_decides :: "journal_row \<Rightarrow> string \<Rightarrow> device_info option \<Rightarrow> inventory_snapshot \<Rightarrow> bool" where
  "listing_decides e d known listing \<longleftrightarrow>
     (known = None \<and> findByStableId listing (jr_platform e) d = None \<longrightarrow> iv_complete listing)"

text \<open>The device was found gone or was deleted, and then the empty binding was committed.\<close>

definition proved_gone ::
  "(scope_identity \<Rightarrow> string) \<Rightarrow> journal_deps \<Rightarrow> journal_row \<Rightarrow> string \<Rightarrow> device_info option \<Rightarrow> journal_row \<Rightarrow> assignment_row \<Rightarrow> scene \<Rightarrow> scene \<Rightarrow> bool" where
  "proved_gone key_of deps e d known e1 a s s' \<longleftrightarrow>
     (\<exists>listing. listing_decides e d known listing \<and>
        in_order key_of (tl (deletion_events deps e d known listing) @ [emptied deps e e1 a]) s s')"

lemma proved_gone_before: "hosted key_of s t \<Longrightarrow> proved_gone key_of deps e d known e1 a t s' \<Longrightarrow> proved_gone key_of deps e d known e1 a s s'"
  unfolding proved_gone_def by (elim exE conjE, intro exI conjI) (auto intro: in_order_before simp del: in_order.simps)

lemma sought_removed:
  assumes "sought key_of deps e d place s t" and "\<forall>reason m. place \<noteq> LocatedBlocked reason m"
    and "in_order key_of (removed_at deps e d place @ [emptied deps e e1 a]) t s'"
  shows "proved_gone key_of deps e d None e1 a s s'"
proof (cases place)
  case LocatedNowhere
  then obtain listing where l: "iv_complete listing" "findByStableId listing (jr_platform e) d = None"
    "in_order key_of [called (jd_list deps (jr_platform e)) listing] s t" using assms(1) by (auto simp: sought_def)
  have "tl (deletion_events deps e d None listing) = [called (jd_list deps (jr_platform e)) listing]"
    using l(2) by (simp add: deletion_events_def)
  then show ?thesis
    using in_order_append [OF l(3) assms(3)] l LocatedNowhere unfolding proved_gone_def removed_at_def listing_decides_def
    by (intro exI [of _ listing]) (simp del: in_order.simps)
next
  case (LocatedDevice dev d')
  let ?found = "\<lambda>listing. [called (jd_list deps (jr_platform e)) listing, called (jd_describe deps dev) ClaimFree,
          saw (held_by_entry e d)]"
  obtain listing where l: "findByStableId listing (jr_platform e) d = Some dev" "in_order key_of (?found listing) s t"
    using assms(1) unfolding LocatedDevice sought_def located.case by (elim exE conjE)
  have "tl (deletion_events deps e d None listing) = ?found listing @ [deletedNatively deps e d]"
    using l(1) by (simp add: deletion_events_def)
  moreover have "in_order key_of (?found listing @ [deletedNatively deps e d] @ [emptied deps e e1 a]) s s'"
    using in_order_append [OF l(2) assms(3)] LocatedDevice by (simp add: removed_at_def)
  ultimately show ?thesis
    unfolding proved_gone_def listing_decides_def using l(1) by (metis append_assoc option.distinct(1))
qed (use assms(2) in simp)

lemma leads_located:
  assumes "journal_contract key_of deps"
  shows "hosted.leads key_of (deletes (proved_gone key_of deps e d known))
     (andThenF (locateForDeletion deps e d c known) (deleteLocated deps e d dl b c))"
proof (cases known)
  case None
  show ?thesis
    unfolding None
    by (rule hosted.leads_andThen [OF leads_locateForDeletion [OF assms] leads_deleteLocated [OF assms]])
      (auto simp del: in_order.simps elim!: deletes_mono intro: sought_removed)
next
  case (Some dev)
  have "andThenF (locateForDeletion deps e d c known) (deleteLocated deps e d dl b c) =
      deleteLocated deps e d dl b c (LocatedDevice dev d)"
    by (intro ext) (simp add: Some locateForDeletion_def andThenF_def answer_def)
  moreover have "hosted.leads key_of (deletes (proved_gone key_of deps e d known))
      (deleteLocated deps e d dl b c (LocatedDevice dev d))"
    by (rule hosted.leads_weaken [OF leads_deleteLocated [OF assms]])
      (auto simp: Some proved_gone_def deletion_events_def listing_decides_def removed_at_def
        simp del: in_order.simps elim!: deletes_mono)
  ultimately show ?thesis by simp
qed

lemma leads_deletionStep:
  assumes "journal_contract key_of deps"
  shows "hosted.leads key_of (deletes (\<lambda>e1 a s s'. \<exists>d listing. jt_oldStableId (jr_target e) = Some d \<and> d \<noteq> [] \<and>
       listing_decides e d known listing \<and>
       in_order key_of (deletion_events deps e d known listing @ [emptied deps e e1 a]) s s'))
     (deletionStep deps e known dl b c)"
proof -
  let ?d = "the (jt_oldStableId (jr_target e))"
  let ?body = "andThenF (locateForDeletion deps e ?d c known) (deleteLocated deps e ?d dl b c)"
  let ?tail = "proved_gone key_of deps e ?d known"
  have body: "hosted.leads key_of (deletes ?tail) ?body"
    by (rule leads_located [OF assms])
  have "hosted.leads key_of (deletes ?tail) (case pending of Some st \<Rightarrow> answer (DeletionStopped st) | None \<Rightarrow> ?body)" for pending
    using body by (auto split: option.split intro: hosted.leads_answer)
  then have gated: "hosted.leads key_of (deletes ?tail) (unlessPending (pendingRemoval e p ?d gate) DeletionStopped ?body)" for p gate
    unfolding unlessPending_def
    by (intro hosted.leads_later [OF keeps_pendingRemoval])
      (auto elim!: deletes_mono intro: proved_gone_before)
  let ?idle = "\<lambda>assignment. truthy (jt_oldStableId (jr_target e)) \<and> \<not> boundElsewhere e assignment \<and>
     liveExecution deps (the assignment) = None"
  have checked: "hosted.leads key_of (deletes (\<lambda>e1 a s s'. ?idle assignment \<and> ?tail e1 a s s'))
     (if \<not> truthy (jt_oldStableId (jr_target e)) \<or> boundElsewhere e assignment
      then andThenF (closeStep deps e RolledBack c) (\<lambda>st. answer (DeletionStopped st))
      else case liveExecution deps (the assignment) of
             Some w \<Rightarrow> answer (DeletionStopped (heldBy e w))
           | None \<Rightarrow> unlessPending (pendingRemoval e (jr_platform e) ?d StepGate) DeletionStopped ?body)" for assignment
    by (intro hosted.leads_if leads_stopped keeps_closeStep)
      (auto simp del: in_order.simps split: option.split intro: hosted.leads_answer hosted.leads_weaken [OF gated] elim!: deletes_mono)
  have later: "hosted.leads key_of (deletes (\<lambda>e1 a s s'. ?idle assignment \<and> ?tail e1 a s s'))
     (andThenF (checkCancellation c) (\<lambda>_. if \<not> truthy (jt_oldStableId (jr_target e)) \<or> boundElsewhere e assignment
      then andThenF (closeStep deps e RolledBack c) (\<lambda>st. answer (DeletionStopped st))
      else case liveExecution deps (the assignment) of
             Some w \<Rightarrow> answer (DeletionStopped (heldBy e w))
           | None \<Rightarrow> unlessPending (pendingRemoval e (jr_platform e) ?d StepGate) DeletionStopped ?body))" for assignment
    by (rule hosted.leads_later [OF keeps_checkCancellation checked])
      (auto elim!: deletes_mono intro: proved_gone_before)
  have read: "hosted.leads key_of (deletes (\<lambda>e1 a s s'. \<exists>d listing. jt_oldStableId (jr_target e) = Some d \<and> d \<noteq> [] \<and>
       listing_decides e d known listing \<and>
       in_order key_of (deletion_events deps e d known listing @ [emptied deps e e1 a]) s s'))
     (andThenF (getAssignmentF (jr_key e)) (\<lambda>assignment.
      andThenF (checkCancellation c) (\<lambda>_. if \<not> truthy (jt_oldStableId (jr_target e)) \<or> boundElsewhere e assignment
      then andThenF (closeStep deps e RolledBack c) (\<lambda>st. answer (DeletionStopped st))
      else case liveExecution deps (the assignment) of
             Some w \<Rightarrow> answer (DeletionStopped (heldBy e w))
           | None \<Rightarrow> unlessPending (pendingRemoval e (jr_platform e) ?d StepGate) DeletionStopped ?body)))"
  proof (rule hosted.leads_andThen [OF leads_getAssignment later])
    fix assignment y s t s'
    assume saw_row: "in_order key_of [saw (\<lambda>db. readAssignment db (jr_key e) = assignment)] s t"
      and rest: "deletes (\<lambda>e1 a s s'. ?idle assignment \<and> ?tail e1 a s s') y t s'"
    from rest show "deletes (\<lambda>e1 a s s'. \<exists>d listing. jt_oldStableId (jr_target e) = Some d \<and> d \<noteq> [] \<and>
       listing_decides e d known listing \<and>
       in_order key_of (deletion_events deps e d known listing @ [emptied deps e e1 a]) s s') y s s'"
    proof (rule deletes_mono)
      fix e1 a assume r: "?idle assignment \<and> ?tail e1 a t s'"
      then obtain listing where listing: "listing_decides e ?d known listing"
        "in_order key_of (tl (deletion_events deps e ?d known listing) @ [emptied deps e e1 a]) t s'"
        unfolding proved_gone_def by (elim conjE exE)
      have "in_order key_of [saw (bound_idle deps e)] s t"
        by (rule in_order_saw [OF saw_row]) (use r in \<open>auto simp: bound_idle_def boundElsewhere_def split: option.splits\<close>)
      from in_order_append [OF this listing(2)]
      have "in_order key_of (deletion_events deps e ?d known listing @ [emptied deps e e1 a]) s s'"
        by (simp add: deletion_events_def del: in_order.simps)
      moreover have "jt_oldStableId (jr_target e) = Some ?d" "?d \<noteq> []"
        using r by (auto simp: truthy_def split: option.splits)
      ultimately show "\<exists>d listing. jt_oldStableId (jr_target e) = Some d \<and> d \<noteq> [] \<and>
       listing_decides e d known listing \<and>
       in_order key_of (deletion_events deps e d known listing @ [emptied deps e e1 a]) s s'"
        using listing(1) by (intro exI [of _ ?d] exI [of _ listing]) (simp del: in_order.simps)
    qed
  qed
  show ?thesis
    unfolding deletionStep_def Let_def
    by (rule hosted.leads_later [OF keeps_checkCancellation read], erule deletes_mono, elim exE conjE, intro exI conjI)
      (auto simp del: in_order.simps intro: in_order_before)
qed

end
