(* ===== verification/JournalCancel.thy ===== *)
theory JournalCancel
  imports JournalKeeps
begin

text \<open>
  A drive of the binding journal is cancelled by its own signal only: it unwinds with
  \<open>DriveCancelled\<close> when the signal it was given is aborted, and never because a stage failed.
\<close>

section \<open>The judgement\<close>

text \<open>\<open>DriveCancelled\<close> is thrown by the journal itself; no failing store or native call throws it.\<close>

definition sincere :: "move list \<Rightarrow> bool" where
  "sincere mv \<longleftrightarrow> (\<forall>m\<in>set mv. \<forall>reason. mv_fault m \<noteq> Some (DriveCancelled reason))"

definition earnest :: "('e, 'a) flow \<Rightarrow> bool" where
  "earnest m \<longleftrightarrow> (\<forall>s mv. sincere mv \<longrightarrow> sincere (snd (snd (m s mv))))"

definition cancels :: "bool \<Rightarrow> (thrown_error, 'a) flow \<Rightarrow> bool" where
  "cancels b m \<longleftrightarrow> (\<forall>s mv r s' mv'. sincere mv \<longrightarrow> m s mv = (r, s', mv') \<longrightarrow> sincere mv' \<and>
     (\<forall>reason. r = Inl (DriveCancelled reason) \<longrightarrow> b \<and> wd_aborted s' \<noteq> None))"

named_theorems cancel_rules \<open>rules for the cancellation of drives\<close>

lemma cancelsD:
  "cancels b m \<Longrightarrow> sincere mv \<Longrightarrow> m s mv = (r, s', mv') \<Longrightarrow>
   sincere mv' \<and> (\<forall>reason. r = Inl (DriveCancelled reason) \<longrightarrow> b \<and> wd_aborted s' \<noteq> None)"
  unfolding cancels_def by blast

lemma cancels_earnest: "cancels b m \<Longrightarrow> earnest m"
  unfolding cancels_def earnest_def by (metis prod.collapse)

lemma earnestD: "earnest m \<Longrightarrow> sincere mv \<Longrightarrow> m s mv = (r, s', mv') \<Longrightarrow> sincere mv'"
  unfolding earnest_def by (metis snd_conv)

lemma turn_sincere: "sincere mv \<Longrightarrow> turn s mv = (fault, s', mv') \<Longrightarrow>
  sincere mv' \<and> (\<forall>reason. fault \<noteq> Some (DriveCancelled reason))"
  by (auto simp: turn_def sincere_def split: list.splits)

section \<open>The constructs\<close>

lemma cancels_answer [cancel_rules]: "cancels b (answer x)"
  by (simp add: cancels_def answer_def)

lemma cancels_throw: "(\<And>reason. e \<noteq> DriveCancelled reason) \<Longrightarrow> cancels b (throw e)"
  by (simp add: cancels_def throw_def)

lemma cancels_look [cancel_rules]: "cancels b (look f)"
  by (simp add: cancels_def look_def)

lemma cancels_change [cancel_rules]: "cancels b (change f)"
  by (simp add: cancels_def change_def)

lemma cancels_andThen [cancel_rules]:
  assumes "cancels b m" and "\<And>x. cancels b (f x)"
  shows "cancels b (andThenF m f)"
  unfolding cancels_def
proof (intro allI impI)
  fix s mv r s' mv' assume sincere: "sincere mv" and run: "andThenF m f s mv = (r, s', mv')"
  obtain r1 s1 mv1 where one: "m s mv = (r1, s1, mv1)" by (rule prod_cases3)
  note first = cancelsD [OF assms(1) sincere one]
  show "sincere mv' \<and> (\<forall>reason. r = Inl (DriveCancelled reason) \<longrightarrow> b \<and> wd_aborted s' \<noteq> None)"
  proof (cases r1)
    case (Inl e)
    then show ?thesis using run one first by (auto simp: andThenF_def)
  next
    case (Inr x)
    then have "f x s1 mv1 = (r, s', mv')" using run one by (simp add: andThenF_def)
    then show ?thesis using cancelsD [OF assms(2)] first by blast
  qed
qed

text \<open>A handler that meets a cancellation ends at once.\<close>

definition at_once :: "('e, 'a) flow \<Rightarrow> bool" where
  "at_once m \<longleftrightarrow> (\<forall>s mv. fst (snd (m s mv)) = s \<and> snd (snd (m s mv)) = mv)"

lemma at_once_simps [simp]: "at_once (answer x)" "at_once (throw e)"
  by (simp_all add: at_once_def answer_def throw_def)

lemma cancels_catching:
  assumes "cancels b m" and "\<And>e. (\<And>reason. e \<noteq> DriveCancelled reason) \<Longrightarrow> cancels b (h e)"
    and "\<And>reason. at_once (h (DriveCancelled reason))"
  shows "cancels b (catching m h)"
  unfolding cancels_def
proof (intro allI impI)
  fix s mv r s' mv' assume sincere: "sincere mv" and run: "catching m h s mv = (r, s', mv')"
  obtain r1 s1 mv1 where one: "m s mv = (r1, s1, mv1)" by (rule prod_cases3)
  note first = cancelsD [OF assms(1) sincere one]
  show "sincere mv' \<and> (\<forall>reason. r = Inl (DriveCancelled reason) \<longrightarrow> b \<and> wd_aborted s' \<noteq> None)"
  proof (cases r1)
    case (Inr x)
    then show ?thesis using run one first by (auto simp: catching_def)
  next
    case (Inl e)
    then have two: "h e s1 mv1 = (r, s', mv')" using run one by (simp add: catching_def)
    show ?thesis
    proof (cases "\<exists>reason. e = DriveCancelled reason")
      case True
      then obtain reason where e: "e = DriveCancelled reason" by blast
      have "s' = s1" "mv' = mv1"
        using assms(3) [of reason] two e unfolding at_once_def by (metis fst_conv snd_conv)+
      then show ?thesis using first Inl e by auto
    next
      case False
      then show ?thesis using cancelsD [OF assms(2) _ two] first by blast
    qed
  qed
qed

lemma cancels_lastly:
  assumes "cancels b m" and "\<And>s. wd_aborted (f s) = wd_aborted s"
  shows "cancels b (lastly m f)"
  unfolding cancels_def
proof (intro allI impI)
  fix s mv r s' mv' assume sincere: "sincere mv" and run: "lastly m f s mv = (r, s', mv')"
  obtain s1 where "m s mv = (r, s1, mv')" "s' = f s1"
    using run by (auto simp: lastly_def split: prod.splits)
  then show "sincere mv' \<and> (\<forall>reason. r = Inl (DriveCancelled reason) \<longrightarrow> b \<and> wd_aborted s' \<noteq> None)"
    using cancelsD [OF assms(1) sincere] assms(2) by auto
qed

lemma cancels_awaiting:
  assumes "\<And>s reason. fst (act s) \<noteq> Inl (DriveCancelled reason)"
  shows "cancels b (awaiting act)"
  unfolding cancels_def
proof (intro allI impI)
  fix s mv r s' mv' assume sincere: "sincere mv" and run: "awaiting act s mv = (r, s', mv')"
  obtain fault s1 mv1 where t1: "turn s mv = (fault, s1, mv1)" by (rule prod_cases3)
  note one = turn_sincere [OF sincere t1]
  let ?mid = "case fault of Some e \<Rightarrow> (Inl e, s1) | None \<Rightarrow> act s1"
  obtain g s3 mv2 where t2: "turn (snd ?mid) mv1 = (g, s3, mv2)" by (rule prod_cases3)
  have "r = fst ?mid \<and> mv' = mv2"
    using run t1 t2 by (auto simp: awaiting_def Let_def split: prod.splits)
  then show "sincere mv' \<and> (\<forall>reason. r = Inl (DriveCancelled reason) \<longrightarrow> b \<and> wd_aborted s' \<noteq> None)"
    using one turn_sincere [OF _ t2] assms by (auto split: option.splits)
qed

lemma earnest_awaiting: "earnest (awaiting act)"
  unfolding earnest_def awaiting_def by (fastforce simp: Let_def split: prod.split dest: turn_sincere)

lemma earnest_andThen: "earnest m \<Longrightarrow> (\<And>x. earnest (f x)) \<Longrightarrow> earnest (andThenF m f)"
  unfolding earnest_def andThenF_def by (auto split: prod.split sum.split) (metis snd_conv)+

lemma earnest_catching: "earnest m \<Longrightarrow> (\<And>e. earnest (h e)) \<Longrightarrow> earnest (catching m h)"
  unfolding earnest_def catching_def by (auto split: prod.split sum.split) (metis snd_conv)+

lemma cancels_transaction [cancel_rules]: "cancels b (transaction tx)"
  unfolding transaction_def by (rule cancels_awaiting) (auto split: sum.split)

lemma cancels_query [cancel_rules]: "cancels b (query f)"
  unfolding query_def by (rule cancels_awaiting) simp

lemma cancels_checkCancellation [cancel_rules]: "cancels b (checkCancellation b)"
  by (auto simp: cancels_def checkCancellation_def andThenF_def look_def answer_def throw_def split: option.splits)

lemma earnest_checkCancellation: "earnest (checkCancellation b)"
  by (rule cancels_earnest [OF cancels_checkCancellation])

lemma cancels_racing [cancel_rules]: "cancels b m \<Longrightarrow> cancels b (racing c m)"
  unfolding racing_def throwIfAborted_def
  by (auto split: option.split intro!: cancel_rules cancels_throw)

lemma earnest_racing: "earnest m \<Longrightarrow> earnest (racing c m)"
  unfolding racing_def throwIfAborted_def
  by (intro earnest_andThen) (auto split: option.split intro!: cancels_earnest [OF cancels_look] cancels_earnest [OF cancels_answer]
    cancels_earnest [OF cancels_throw])

text \<open>A stage unwinds on its signal only, whatever its operation throws.\<close>

lemma cancels_boundedStage:
  assumes "earnest m"
  shows "cancels b (boundedStage label c b m f)"
proof -
  let ?m = "andThenF (racing c m) (\<lambda>result. andThenF (checkCancellation b) (\<lambda>_. answer result))"
  let ?h = "\<lambda>e. andThenF (look wd_aborted) (\<lambda>reason. case reason of
            None \<Rightarrow> answer (f e) | Some a \<Rightarrow> if b then throw (DriveCancelled a)
                      else answer (f (if c then stageCancelled label e else e)))"
  have m: "earnest ?m"
    by (intro earnest_andThen earnest_racing assms earnest_checkCancellation cancels_earnest [OF cancels_answer])
  have "cancels b (catching ?m ?h)"
    unfolding cancels_def
  proof (intro allI impI)
    fix s mv r s' mv' assume sincere: "sincere mv" and run: "catching ?m ?h s mv = (r, s', mv')"
    obtain r1 s1 mv1 where one: "?m s mv = (r1, s1, mv1)" by (rule prod_cases3)
    show "sincere mv' \<and> (\<forall>reason. r = Inl (DriveCancelled reason) \<longrightarrow> b \<and> wd_aborted s' \<noteq> None)"
    proof (cases r1)
      case (Inr x)
      then show ?thesis using run one earnestD [OF m sincere one] by (auto simp: catching_def)
    next
      case (Inl e)
      then have "?h e s1 mv1 = (r, s', mv')" using run one by (simp add: catching_def)
      then show ?thesis using earnestD [OF m sincere one]
        by (auto simp: andThenF_def look_def answer_def throw_def split: option.splits if_splits)
    qed
  qed
  then show ?thesis
    unfolding boundedStage_def by (intro cancels_andThen cancels_checkCancellation)
qed

section \<open>The flows of a drive\<close>

lemma cancels_cases [cancel_rules]:
  "cancels b m \<Longrightarrow> cancels b n \<Longrightarrow> cancels b (if c then m else n)"
  by simp

lemma earnest_native: "earnest (nativeDelete deps t)"
  unfolding nativeDelete_def
  by (intro earnest_andThen earnest_awaiting) (auto simp: earnest_def look_def change_def throw_def answer_def split: sum.split)

lemma cancels_stages [cancel_rules]:
  "cancels b (listInventory deps e p b)" "cancels b (describeClaim deps e d b)" "cancels b (matchDevice deps e d spec b)"
  unfolding listInventory_def describeClaim_def matchDevice_def
  by (intro cancels_boundedStage earnest_awaiting earnest_andThen cancels_earnest [OF cancels_answer])+

lemma aborted_in_flight [simp]: "wd_aborted (onInFlight f s) = wd_aborted s"
  by (simp add: onInFlight_def)

lemma cancels_deleteDevice [cancel_rules]: "cancels b (deleteDevice deps t c b)"
  unfolding deleteDevice_def
  by (intro cancel_rules cancels_lastly cancels_boundedStage earnest_native) simp

lemma cancels_unlessPending [cancel_rules]:
  "cancels b check \<Longrightarrow> cancels b m \<Longrightarrow> cancels b (unlessPending check f m)"
  unfolding unlessPending_def by (auto split: option.split intro!: cancel_rules)

lemma cancels_pendingRemoval [cancel_rules]: "cancels b (pendingRemoval e p d gate)"
  unfolding pendingRemoval_def by (cases gate) (auto intro!: cancel_rules)

lemma cancels_pendingEntryRemoval [cancel_rules]: "cancels b (pendingEntryRemoval e c)"
  unfolding pendingEntryRemoval_def Let_def by (auto intro!: cancel_rules)

lemma cancels_advanceStep [cancel_rules]: "cancels b (advanceStep deps e inp b)"
  unfolding advanceStep_def Let_def by (auto split: drive_splits intro!: cancel_rules)

lemma cancels_getAssignmentF [cancel_rules]: "cancels b (getAssignmentF k)"
  unfolding getAssignmentF_def Let_def by (auto split: drive_splits intro!: cancel_rules)

lemma cancels_closeStep [cancel_rules]: "cancels b (closeStep deps e phase b)"
  unfolding closeStep_def Let_def by (auto split: drive_splits intro!: cancel_rules)

lemma cancels_clearUnlessRefused [cancel_rules]: "cancels b (clearUnlessRefused r e)"
  unfolding clearUnlessRefused_def Let_def by (auto split: drive_splits intro!: cancel_rules)

lemma cancels_recordBlocked [cancel_rules]: "cancels b (recordBlocked deps e reason m patch b)"
  unfolding recordBlocked_def Let_def by (auto split: drive_splits intro!: cancel_rules)

lemma cancels_removalRegistryStage [cancel_rules]: "cancels b m \<Longrightarrow> cancels b (removalRegistryStage m)"
  unfolding removalRegistryStage_def by (rule cancels_racing)

lemma cancels_removalStopped [cancel_rules]: "cancels b (removalStopped deps e reason m patch b)"
  unfolding removalStopped_def Let_def by (auto split: drive_splits intro!: cancel_rules)

lemma cancels_checkDeviceFree [cancel_rules]: "cancels b (checkDeviceFree deps e d b)"
  unfolding checkDeviceFree_def Let_def by (auto split: drive_splits intro!: cancel_rules)

lemma cancels_confirmHolder [cancel_rules]: "cancels b (confirmHolder e d b device)"
  unfolding confirmHolder_def Let_def by (auto split: drive_splits intro!: cancel_rules)

lemma cancels_confirmUnclaimed [cancel_rules]: "cancels b (confirmUnclaimed deps e d b device)"
  unfolding confirmUnclaimed_def Let_def by (auto split: drive_splits intro!: cancel_rules)

lemma cancels_locateForDeletion [cancel_rules]: "cancels b (locateForDeletion deps e d b known)"
  unfolding locateForDeletion_def Let_def by (auto split: drive_splits intro!: cancel_rules)

lemma cancels_locateCreated [cancel_rules]: "cancels b (locateCreated deps e b)"
  unfolding locateCreated_def Let_def by (auto split: drive_splits intro!: cancel_rules)

lemma cancels_probeQuarantine [cancel_rules]: "cancels b (probeQuarantine deps e d b)"
  unfolding probeQuarantine_def Let_def by (auto split: drive_splits intro!: cancel_rules)

lemma cancels_recordFailedDeletion [cancel_rules]: "cancels b (recordFailedDeletion deps e d m x b)"
  unfolding recordFailedDeletion_def Let_def by (auto split: drive_splits intro!: cancel_rules)

lemma cancels_recordAbsence [cancel_rules]: "cancels b (recordAbsence deps e b)"
  unfolding recordAbsence_def Let_def by (auto split: drive_splits intro!: cancel_rules)

lemma cancels_recordDeletion [cancel_rules]: "cancels b (recordDeletion deps e d x b)"
  unfolding recordDeletion_def Let_def by (auto split: drive_splits intro!: cancel_rules)

lemma cancels_deleteLocated [cancel_rules]: "cancels b (deleteLocated deps e d dl c b place)"
  unfolding deleteLocated_def Let_def by (auto split: drive_splits intro!: cancel_rules)

lemma cancels_deletionStep [cancel_rules]: "cancels b (deletionStep deps e known dl c b)"
  unfolding deletionStep_def Let_def by (auto split: drive_splits intro!: cancel_rules)

lemma cancels_ensureRemovalRecorded [cancel_rules]: "cancels b (ensureRemovalRecorded deps e d b)"
  unfolding ensureRemovalRecorded_def Let_def by (auto split: drive_splits intro!: cancel_rules)

lemma cancels_removeMarked [cancel_rules]: "cancels b (removeMarked deps e x d dl b)"
  unfolding removeMarked_def Let_def by (auto split: drive_splits intro!: cancel_rules)

lemma cancels_removeCreated [cancel_rules]: "cancels b (removeCreated deps e x d dl b)"
  unfolding removeCreated_def Let_def by (auto split: drive_splits intro!: cancel_rules)

lemma cancels_adoptCreated [cancel_rules]: "cancels b (adoptCreated deps e x d b)"
  unfolding adoptCreated_def Let_def by (auto split: drive_splits intro!: cancel_rules)

lemma cancels_settleUnheld [cancel_rules]: "cancels b (settleUnheld deps e ad dl b x d)"
  unfolding settleUnheld_def Let_def by (auto split: drive_splits intro!: cancel_rules)

lemma cancels_creationRegistryStep [cancel_rules]: "cancels b (creationRegistryStep deps e ad dl b)"
  unfolding creationRegistryStep_def Let_def by (auto split: drive_splits intro!: cancel_rules)

lemma cancels_creationStep [cancel_rules]: "cancels b (creationStep deps e ad dl b)"
  unfolding creationStep_def
  by (rule cancels_catching [OF cancels_creationRegistryStep])
    (auto split: thrown_error.split intro: cancels_answer cancels_throw)

lemma cancels_settleRelease [cancel_rules]: "cancels b (settleRelease deps e b)"
  unfolding settleRelease_def Let_def by (auto split: drive_splits intro!: cancel_rules)

lemma cancels_step [cancel_rules]: "cancels b (step deps e b)"
  unfolding step_def Let_def by (auto split: drive_splits intro!: cancel_rules)

lemma cancels_driveSteps [cancel_rules]: "cancels b (driveSteps deps b n e)"
  by (induction n arbitrary: e) (auto split: journal_step.split intro!: cancel_rules)

lemma cancels_takeOwnership [cancel_rules]: "cancels b (takeOwnership deps e b)"
  unfolding takeOwnership_def Let_def by (auto split: drive_splits intro!: cancel_rules)

lemma cancels_driveOwned [cancel_rules]: "cancels b (driveOwned deps b c e)"
  unfolding driveOwned_def by (intro cancel_rules cancels_lastly) simp

lemma cancels_driveEntry [cancel_rules]: "cancels b (driveEntry deps e b c)"
  unfolding driveEntry_def Let_def by (auto split: drive_splits intro!: cancel_rules)

end
