(* ===== verification/JournalTheorems.thy ===== *)
theory JournalTheorems
  imports JournalDrives JournalOrder JournalCancel BrokerCallTheorems RegistryTheorems
begin

text \<open>
  What the redrive of the binding journal guarantees while everything else of the host runs in between.
\<close>

section \<open>A journal for the witnesses\<close>

text \<open>A host with one listed, unclaimed device that a delete removes at once.\<close>

definition demo_device :: device_info where
  "demo_device = \<lparr>di_name = ''emulator-5554'', di_platform = ''android'', di_deviceId = None\<rparr>"

definition demo_deps :: journal_deps where
  "demo_deps =
     \<lparr>jd_list = (\<lambda>_ s. (Inr \<lparr>iv_complete = True, iv_devices = [demo_device]\<rparr>, s)),
      jd_describe = (\<lambda>_ s. (Inr ClaimFree, s)), jd_matches = (\<lambda>_ _ s. (Inr SpecMatches, s)),
      jd_delete = (\<lambda>_ s. (Inr DeviceAbsent, s)), jd_owner = demo_process, jd_ownerLive = (\<lambda>_. True),
      jd_execLive = (\<lambda>_. True), jd_registryLive = (\<lambda>_. True), jd_backoff = DEFAULT_BINDING_JOURNAL_BACKOFF,
      jd_spec = (\<lambda>_ _. None), jd_retryable = (\<lambda>_. False)\<rparr>"

lemma demo_journal_contract: "journal_contract plain_scope_key demo_deps"
  by (simp add: journal_contract_def native_call_def demo_deps_def)

text \<open>The bound device of \<open>demo4\<close> is to be replaced, and its deletion is journalled.\<close>

definition demo_deleting :: broker_db where
  "demo_deleting = db_of (openBindingJournal (\<lambda>_. True) 104 demo_binding (demo_open\<lparr>oj_phase := Deleting\<rparr>) demo4)"

definition demo_entry :: journal_row where
  "demo_entry = hd (listOpenBindingJournal demo_deleting None)"

lemma demo_deleting_ok: "ok (openBindingJournal (\<lambda>_. True) 104 demo_binding (demo_open\<lparr>oj_phase := Deleting\<rparr>) demo4)"
  by code_simp

lemma demo_deleting_reach: "(broker_step plain_scope_key)\<^sup>*\<^sup>* empty_db demo_deleting"
proof -
  have "broker_step plain_scope_key demo4 demo_deleting"
    unfolding demo_deleting_def by (rule run_step [OF demo_deleting_ok])
      (auto simp: broker_step_def intro: registry_step.openBindingJournal)
  with demo_reach4 show ?thesis by (rule rtranclp.rtrancl_into_rtrancl)
qed

lemma demo_deleting_scene: "(broker_step plain_scope_key)\<^sup>*\<^sup>* empty_db (wd_db (demo_scene demo_deleting))"
  using demo_deleting_reach by (simp add: demo_scene_def)

section \<open>A binding is emptied only when its device is gone\<close>

lemma emptied_binding:
  assumes "emptied deps e e1 a t t'"
  shows "as_device a = None \<and> as_state a = Provisioning \<and> jr_phase e1 = Deleted"
proof -
  obtain db where run: "advanceBindingJournal (jd_registryLive deps) (wd_now t) (jr_id e) (emptying deps e) (wd_db t) =
      Inr (JournalAdvanced e1 (Some a), db)" using assms by (auto simp: emptied_def wrote_def)
  then have "jr_phase e1 = Deleted" using advance_result by (force simp: emptying_def advancing_def)
  let ?nxt = "(emptyBindingCommit (jt_requestedSpec (jr_target e)))\<lparr>bc_platform := Some (journalCreationPlatform e)\<rparr>"
  obtain entry db1 where "applyJournalAssignmentChange (jd_registryLive deps) (wd_now t) (jr_key entry)
      (ChangeCommit (jr_binding e) ?nxt) (wd_db t) = Inr (Inr a, db1)"
    using run by (auto simp: advanceBindingJournal_def emptying_def advancing_def rbind_def split: option.splits if_splits sum.splits
        dest!: finish_advance_result)
  then have "commitBindingIn (wd_now t) (jr_key entry) (jr_binding e) ?nxt True (wd_db t) = Inr (Inr a, db1)"
    by (simp add: applyJournalAssignmentChange_def)
  then obtain p b where "readAssignment (put_assignment (jr_key entry) (commit_columns p ?nxt b (wd_now t)) (wd_db t)) (jr_key entry) = Some a"
    by (elim commitBindingIn_success) simp
  then obtain b0 where "a = commit_columns p ?nxt b (wd_now t) b0"
    using put_assignment_found by blast
  then show ?thesis
    using \<open>jr_phase e1 = Deleted\<close> by (simp add: commit_columns_def emptyBindingCommit_def Let_def)
qed

text \<open>
  C6: The journal empties a binding after a deletion only when the device is gone. When
  \<open>BindingJournal.deletionStep\<close> answers that the old device was deleted, then in this order, with
  anything of the host in between: the registry still had the binding as the entry names it with no live
  session on it; then the device was proved gone; and only then the commit emptied the binding and moved
  the entry to \<open>deleted\<close>. How it is proved gone depends on the caller. Without a known device (every
  redrive) discovery answered a listing, and either the listing was complete and did not hold the device,
  or it held it, its claim was read as free, the registry still named this binding as its holder and the
  native delete of exactly this device answered that it is absent. With a device the caller has already
  found itself (\<open>BindingDeviceCreation\<close>) the step makes no discovery, claim or holder check of its own:
  there the native delete of the entry's device answered that it is absent. A failed or timed out
  listing, claim or delete never counts as absence.
\<close>

theorem journal_empties_only_absent_devices:
  assumes "journal_contract key_of deps" and "fair (hosted key_of) mv"
    and "deletionStep deps e known deadlineMs signal cancel s mv = (Inr (OldDeviceDeleted e1 a), s', mv')"
  shows "\<exists>d listing. jt_oldStableId (jr_target e) = Some d \<and> d \<noteq> [] \<and>
    in_order key_of
     ([saw (bound_idle deps e)] @
      (case known of
         Some _ \<Rightarrow> [deletedNatively deps e d]
       | None \<Rightarrow>
           called (jd_list deps (jr_platform e)) listing #
           (case findByStableId listing (jr_platform e) d of
              None \<Rightarrow> []
            | Some dev \<Rightarrow> [called (jd_describe deps dev) ClaimFree, saw (held_by_entry e d), deletedNatively deps e d])) @
      [\<lambda>t t'. emptied deps e e1 a t t' \<and> as_device a = None \<and> as_state a = Provisioning \<and> jr_phase e1 = Deleted]) s s' \<and>
    (known = None \<and> findByStableId listing (jr_platform e) d = None \<longrightarrow> iv_complete listing)"
proof -
  obtain d listing where l: "jt_oldStableId (jr_target e) = Some d" "d \<noteq> []" "listing_decides e d known listing"
    "in_order key_of (deletion_events deps e d known listing @ [emptied deps e e1 a]) s s'"
    using meetsD [OF leads_deletionStep [OF assms(1), unfolded hosted.leads_def] assms(2,3)]
    by (simp del: in_order.simps) metis
  have "in_order key_of (deletion_events deps e d known listing @
      [\<lambda>t t'. emptied deps e e1 a t t' \<and> as_device a = None \<and> as_state a = Provisioning \<and> jr_phase e1 = Deleted]) s s'"
    by (rule in_order_last [OF l(4)]) (use emptied_binding in blast)
  then show ?thesis
    using l(1-3) unfolding deletion_events_def append_assoc listing_decides_def by (intro exI conjI)
qed

theorem journal_empties_only_absent_devices_witness:
  "\<exists>e1 a s' mv'. deletionStep demo_deps demo_entry None None False False (demo_scene demo_deleting) [] =
       (Inr (OldDeviceDeleted e1 a), s', mv') \<and>
     (\<exists>t t'. hosted plain_scope_key (demo_scene demo_deleting) t \<and> bound_idle demo_deps demo_entry (wd_db t)) \<and>
     as_device a = None"
proof -
  have "case deletionStep demo_deps demo_entry None None False False (demo_scene demo_deleting) [] of
     (Inr r, s', mv') \<Rightarrow> (case r of OldDeviceDeleted e1 a \<Rightarrow> True | _ \<Rightarrow> False) | (Inl x, s', mv') \<Rightarrow> False"
    by code_simp
  from answered_run [OF this] obtain e1 a s' mv' where run:
    "deletionStep demo_deps demo_entry None None False False (demo_scene demo_deleting) [] =
       (Inr (OldDeviceDeleted e1 a), s', mv')" by (metis deletion_step.exhaust deletion_step.simps(6))
  have "fair (hosted plain_scope_key) []" by (simp add: fair_def)
  from journal_empties_only_absent_devices [OF demo_journal_contract this run] run show ?thesis
    by (auto simp: saw_def split: option.splits)
qed

section \<open>Passes reach every entry\<close>

text \<open>The drives of a list of entries, one after the other, each from where the one before it left off.\<close>

fun driveAll ::
  "journal_deps \<Rightarrow> bool \<Rightarrow> journal_row list \<Rightarrow> scene \<Rightarrow> move list \<Rightarrow>
   (thrown_error + drive_result) list \<times> scene \<times> move list" where
  "driveAll deps signal [] s mv = ([], s, mv)"
| "driveAll deps signal (e # es) s mv =
     (case driveEntry deps e signal True s mv of (r, s1, mv1) \<Rightarrow>
      case driveAll deps signal es s1 mv1 of (rs, s2, mv2) \<Rightarrow> (r # rs, s2, mv2))"

text \<open>What a pass reports of one entry: the result of its drive, or that its drive threw.\<close>

definition reported :: "pass_result \<Rightarrow> journal_row \<times> (thrown_error + drive_result) \<Rightarrow> pass_result" where
  "reported p outcome = (case outcome of
      (e, Inr result) \<Rightarrow> counted p result
    | (e, Inl x) \<Rightarrow> p\<lparr>ps_blocked := ps_blocked p @ [recordOf e True None]\<rparr>)"

definition nothing_yet :: pass_result where
  "nothing_yet = \<lparr>ps_settled = [], ps_blocked = [], ps_skipped = 0\<rparr>"

text \<open>\<open>rs\<close> are the outcomes of the entries \<open>es\<close>, each about its own entry and none a cancellation.\<close>

definition outcomes_of :: "journal_row list \<Rightarrow> (thrown_error + drive_result) list \<Rightarrow> bool" where
  "outcomes_of es rs \<longleftrightarrow> list_all2 (\<lambda>e r. case r of
      Inr result \<Rightarrow> jr_id (row_of_drive result) = jr_id e
    | Inl x \<Rightarrow> \<forall>reason. x \<noteq> DriveCancelled reason) es rs"

lemma reported_accounted: "accounted (reported p (e, r)) = Suc (accounted p)"
  by (cases r) (auto simp: reported_def accounted_counted, simp add: accounted_def)

lemma reported_all: "length rs = length es \<Longrightarrow> accounted (foldl reported p (zip es rs)) = accounted p + length es"
  by (induction rs es arbitrary: p rule: list_induct2) (simp_all add: reported_accounted)

text \<open>The pass from entry \<open>es\<close> on: \<open>k\<close> entries are driven, and only the aborted signal leaves some out.\<close>

definition drives_all ::
  "journal_deps \<Rightarrow> bool \<Rightarrow> journal_row list \<Rightarrow> pass_result \<Rightarrow> pass_result \<Rightarrow> scene \<Rightarrow> move list \<Rightarrow> scene \<Rightarrow> bool" where
  "drives_all deps signal es p p' s mv s' \<longleftrightarrow> (\<exists>k rs s1 mv1. k \<le> length es \<and>
     driveAll deps signal (take k es) s mv = (rs, s1, mv1) \<and> outcomes_of (take k es) rs \<and>
     p' = foldl reported p (zip es rs) \<and>
     (k < length es \<longrightarrow> signal \<and> wd_aborted s' \<noteq> None) \<and> (k = length es \<longrightarrow> s' = s1))"

lemma drives_all_cut:
  "signal \<Longrightarrow> wd_aborted s' \<noteq> None \<Longrightarrow> drives_all deps signal (e # es) p p s mv s'"
  unfolding drives_all_def by (intro exI [of _ 0]) (simp add: outcomes_of_def)

lemma drives_all_one_more:
  assumes "driveEntry deps e signal True s mv = (r, s1, mv1)" and "outcomes_of [e] [r]"
    and "drives_all deps signal es (reported p (e, r)) p' s1 mv1 s'"
  shows "drives_all deps signal (e # es) p p' s mv s'"
proof -
  obtain k rs s2 mv2 where k: "k \<le> length es" "driveAll deps signal (take k es) s1 mv1 = (rs, s2, mv2)"
    "outcomes_of (take k es) rs" "p' = foldl reported (reported p (e, r)) (zip es rs)"
    "k < length es \<longrightarrow> signal \<and> wd_aborted s' \<noteq> None" "k = length es \<longrightarrow> s' = s2"
    using assms(3) unfolding drives_all_def by blast
  then show ?thesis
    using assms(1,2) unfolding drives_all_def
    by (intro exI [of _ "Suc k"] exI [of _ "r # rs"] exI [of _ s2] exI [of _ mv2]) (auto simp: outcomes_of_def)
qed

lemma passOver_drives_all:
  assumes "sincere mv" and "passOver deps signal p es s mv = (Inr p', s', mv')"
  shows "drives_all deps signal es p p' s mv s'"
  using assms
proof (induction es arbitrary: p s mv)
  case Nil
  then show ?case by (simp add: answer_def drives_all_def outcomes_of_def)
next
  case (Cons e es)
  show ?case
  proof (cases "signal \<and> wd_aborted s \<noteq> None")
    case True
    then have "p' = p" "s' = s" using Cons.prems(2) by (auto simp: andThenF_def look_def answer_def)
    then show ?thesis using drives_all_cut True by blast
  next
    case False
    obtain r s1 mv1 where one: "driveEntry deps e signal True s mv = (r, s1, mv1)" by (rule prod_cases3)
    note cancelled = cancelsD [OF cancels_driveEntry Cons.prems(1) one]
    note go = Cons.prems(2) [unfolded passOver_step [OF False one]]
    show ?thesis
    proof (cases "\<exists>reason. r = Inl (DriveCancelled reason)")
      case True
      then have "p' = p" "s' = s1" using go by auto
      then show ?thesis using drives_all_cut cancelled True by blast
    next
      case other: False
      have "passOver deps signal (reported p (e, r)) es s1 mv1 = (Inr p', s', mv')"
        using go other by (cases r) (auto simp: reported_def)
      moreover have "outcomes_of [e] [r]"
        using other returnsD [OF returns_driveEntry] one by (cases r) (auto simp: outcomes_of_def drives_row_def)
      ultimately show ?thesis
        using Cons.IH cancelled drives_all_one_more [OF one] by blast
    qed
  qed
qed

text \<open>
  C20: A pass over the journal starves no entry. \<open>BindingJournal.runPass\<close> reads the registry's list of
  open entries once and drives its entries in that order, each from where the drive before it left the
  host, with anything of the host in between. What it answers is exactly the outcomes of these drives,
  each of its own entry: a settled entry is reported settled, a blocked one blocked with its reason, a
  skipped one is counted, and an entry whose drive throws is reported blocked and the pass goes on. The
  only thing that makes it leave entries out, from some entry to the end of the list, is the pass's own
  signal, which then is aborted when the pass answers; a failure of the registry or of a native call
  never does (\<open>sincere\<close>: none of them throws the journal's own \<open>DriveCancelled\<close>).
\<close>

theorem pass_drives_every_entry:
  assumes "sincere mv" and "fair (hosted key_of) mv"
    and "runPass deps signal s mv = (Inr p, s', mv')" and "\<not> (signal \<and> wd_aborted s \<noteq> None)"
  shows "\<exists>t es s0 mv0 k rs s1 mv1. hosted key_of s t \<and> es = listOpenBindingJournal (wd_db t) None \<and>
    query (\<lambda>db. listOpenBindingJournal db None) s mv = (Inr es, s0, mv0) \<and> k \<le> length es \<and>
    driveAll deps signal (take k es) s0 mv0 = (rs, s1, mv1) \<and>
    list_all2 (\<lambda>e r. case r of
       Inr result \<Rightarrow> jr_id (row_of_drive result) = jr_id e
     | Inl x \<Rightarrow> \<forall>reason. x \<noteq> DriveCancelled reason) (take k es) rs \<and>
    p = foldl reported \<lparr>ps_settled = [], ps_blocked = [], ps_skipped = 0\<rparr> (zip es rs) \<and>
    length (ps_settled p) + length (ps_blocked p) + ps_skipped p = k \<and>
    (k < length es \<longrightarrow> signal \<and> wd_aborted s' \<noteq> None) \<and> (k = length es \<longrightarrow> s' = s1)"
proof -
  obtain r0 s0 mv0 where read: "query (\<lambda>db. listOpenBindingJournal db None) s mv = (r0, s0, mv0)" by (rule prod_cases3)
  have over: "(case r0 of Inl e \<Rightarrow> (Inl e, s0, mv0) | Inr es \<Rightarrow> passOver deps signal nothing_yet es s0 mv0) = (Inr p, s', mv')"
    using assms(3,4) read unfolding runPass_def Let_def nothing_yet_def
    by (cases r0; cases signal) (simp_all add: andThenF_def look_def)
  then obtain es where es: "r0 = Inr es" "passOver deps signal nothing_yet es s0 mv0 = (Inr p, s', mv')" by (cases r0) auto
  have "in_order key_of [saw (\<lambda>db. listOpenBindingJournal db None = es)] s s0"
    using meetsD [OF leads_query [unfolded hosted.leads_def] assms(2) read] es(1) by auto
  then obtain t where t: "hosted key_of s t" "es = listOpenBindingJournal (wd_db t) None" by (auto simp: saw_def)
  have "sincere mv0" using cancelsD [OF cancels_query assms(1) read] by blast
  from passOver_drives_all [OF this es(2)] obtain k rs s1 mv1 where k: "k \<le> length es"
    "driveAll deps signal (take k es) s0 mv0 = (rs, s1, mv1)" "outcomes_of (take k es) rs"
    "p = foldl reported nothing_yet (zip es rs)" "k < length es \<longrightarrow> signal \<and> wd_aborted s' \<noteq> None"
    "k = length es \<longrightarrow> s' = s1" unfolding drives_all_def by blast
  have len: "length rs = k" using k(1,3) by (auto simp: outcomes_of_def dest!: list_all2_lengthD)
  then have "zip (take k es) rs = zip es rs" using take_zip [of k es rs] by simp
  with len have "accounted p = k"
    using k(1,4) reported_all [of rs "take k es" nothing_yet] by (simp add: accounted_def nothing_yet_def)
  then show ?thesis
    using t read es(1) k unfolding accounted_def outcomes_of_def nothing_yet_def by blast
qed

theorem pass_drives_every_entry_witness:
  "\<exists>p s' mv' t k. runPass demo_deps False (demo_scene demo_deleting) [] = (Inr p, s', mv') \<and>
     hosted plain_scope_key (demo_scene demo_deleting) t \<and> k = length (listOpenBindingJournal (wd_db t) None) \<and>
     length (ps_settled p) + length (ps_blocked p) + ps_skipped p = k \<and> k = 1"
proof -
  have "case runPass demo_deps False (demo_scene demo_deleting) [] of
     (Inr p, s', mv') \<Rightarrow> length (ps_settled p) + length (ps_blocked p) + ps_skipped p = 1 | (Inl e, s', mv') \<Rightarrow> False"
    by code_simp
  from answered_run [OF this] obtain p s' mv' where run:
    "runPass demo_deps False (demo_scene demo_deleting) [] = (Inr p, s', mv')"
    "length (ps_settled p) + length (ps_blocked p) + ps_skipped p = 1" by blast
  have "sincere []" "fair (hosted plain_scope_key) []" "\<not> (False \<and> wd_aborted (demo_scene demo_deleting) \<noteq> None)"
    by (simp_all add: fair_def sincere_def)
  from pass_drives_every_entry [OF this(1,2) run(1) this(3)] obtain t es k where
    "hosted plain_scope_key (demo_scene demo_deleting) t" "es = listOpenBindingJournal (wd_db t) None" "k \<le> length es"
    "length (ps_settled p) + length (ps_blocked p) + ps_skipped p = k" "k < length es \<longrightarrow> False" by blast
  then show ?thesis using run by (metis le_neq_implies_less)
qed

end
