(* ===== verification/PoolTheorems.thy ===== *)
theory PoolTheorems
  imports JournalOrder
begin

text \<open>
  What an operator drain and an idle expiry pass of the pool promise while everything else of the host
  runs at their suspensions.
\<close>

section \<open>What a drain does\<close>

text \<open>A drain says destroyed exactly when the store has just confirmed the device gone.\<close>

definition truthful :: "drain_entry \<Rightarrow> scene \<Rightarrow> scene \<Rightarrow> bool" where
  "truthful e = saw (\<lambda>db. de_outcome e = DrainDestroyed \<longleftrightarrow> confirmedGone db (de_resource e))"

definition drained :: "ticket list \<Rightarrow> drain_entry list \<Rightarrow> bool" where
  "drained ts es \<longleftrightarrow> map de_resource es = map fst ts \<and>
     list_all (\<lambda>e. de_cleanupPending e \<longleftrightarrow> de_outcome e = DrainCleanupPending) es"

lemma leads_drainEach:
  assumes "native_contract key_of opts host"
  shows "hosted.leads key_of (\<lambda>es s s'. drained ts es \<and> in_order key_of (map truthful es) s s') (drainEach opts ts)"
proof (induction ts)
  case Nil
  show ?case unfolding drainEach.simps by (rule hosted.leads_answer) (simp add: drained_def hosted.R_refl)
next
  case (Cons t ts)
  let ?e = "\<lambda>gone. \<lparr>de_resource = fst t, de_outcome = (if gone then DrainDestroyed else DrainCleanupPending),
     de_cleanupPending = \<not> gone\<rparr>"
  let ?A = "\<lambda>es s s'. drained (t # ts) es \<and> in_order key_of (map truthful es) s s'"
  have rest: "hosted.leads key_of (\<lambda>es s s'. \<exists>es1. es = ?e gone # es1 \<and> drained ts es1 \<and>
       in_order key_of (map truthful es1) s s') (andThenF (drainEach opts ts) (\<lambda>es. answer (?e gone # es)))" for gone
    by (rule hosted.leads_andThen [OF Cons hosted.leads_answer [where A = "\<lambda>y s s'. y = ?e gone # _ \<and> s' = s"]])
      (auto simp del: in_order.simps)
  have asked: "hosted.leads key_of ?A (andThenF (query (\<lambda>db. confirmedGone db (fst t))) (\<lambda>gone.
      andThenF (drainEach opts ts) (\<lambda>es. answer (?e gone # es))))"
  proof (rule hosted.leads_andThen [OF leads_query rest])
    fix gone es s u s'
    assume first: "in_order key_of [saw (\<lambda>db. confirmedGone db (fst t) = gone)] s u"
      and "\<exists>es1. es = ?e gone # es1 \<and> drained ts es1 \<and> in_order key_of (map truthful es1) u s'"
    then obtain es1 where es: "es = ?e gone # es1" "drained ts es1" "in_order key_of (map truthful es1) u s'" by blast
    have "in_order key_of [truthful (?e gone)] s u"
      unfolding truthful_def by (rule in_order_saw [OF first]) auto
    from in_order_append [OF this es(3)] show "?A es s s'"
      using es(1,2) by (auto simp: drained_def simp del: in_order.simps)
  qed
  show ?case
    unfolding drainEach.simps
    by (rule hosted.leads_later [OF keeps_tryCleanup [OF assms] asked]) (use in_order_before in blast)
qed

text \<open>The drain took its tickets in one transaction, then reported on each in turn.\<close>

definition drain_run ::
  "(scope_identity \<Rightarrow> string) \<Rightarrow> ticket list option \<Rightarrow> drain_entry list \<Rightarrow> scene \<Rightarrow> scene \<Rightarrow> bool" where
  "drain_run key_of observed es s s' \<longleftrightarrow> (\<exists>ts t t'. hosted key_of s t \<and> wrote (\<lambda>_. drainIdle observed) ts t t' \<and>
     drained ts es \<and> in_order key_of (map truthful es) t' s')"

lemma drain_run_before: "hosted key_of s t \<Longrightarrow> drain_run key_of observed es t s' \<Longrightarrow> drain_run key_of observed es s s'"
  unfolding drain_run_def using hosted.R_trans by blast

lemma leads_drainIdle:
  "hosted.leads key_of (\<lambda>ts. in_order key_of [wrote (\<lambda>_. drainIdle observed) ts])
     (transaction (\<lambda>now db. drainIdle observed db))"
  unfolding transaction_def
proof (rule hosted.leads_awaiting)
  let ?act = "\<lambda>s :: scene. case drainIdle observed (wd_db s) of Inl e \<Rightarrow> (Inl (Plain e), s) | Inr (x, db) \<Rightarrow> (Inr x, s\<lparr>wd_db := db\<rparr>)"
  show "?act t = (r, t') \<Longrightarrow> hosted key_of t t'" for t t' r
    by (auto simp: hosted_def broker_step_def split: sum.splits prod.splits dest!: store_step.drainIdle)
  fix s t x t' s'
  assume "hosted key_of s t" "?act t = (Inr x, t')" "hosted key_of t' s'"
  then show "in_order key_of [wrote (\<lambda>_. drainIdle observed) x] s s'"
    by (auto simp: wrote_def split: sum.splits prod.splits)
qed

lemma leads_drainPool:
  assumes "native_contract key_of opts host"
  shows "hosted.leads key_of (drain_run key_of observed) (drainPool opts observed)"
  unfolding drainPool_def
proof (rule hosted.leads_andThen [OF leads_drainIdle leads_drainEach [OF assms]])
  fix ts es s u s'
  assume "in_order key_of [wrote (\<lambda>_. drainIdle observed) ts] s u"
    and rest: "drained ts es \<and> in_order key_of (map truthful es) u s'"
  then obtain t t' where t: "hosted key_of s t" "wrote (\<lambda>_. drainIdle observed) ts t t'" "hosted key_of t' u"
    by auto
  then show "drain_run key_of observed es s s'"
    unfolding drain_run_def using rest in_order_before by blast
qed

text \<open>Which rows a drain retires, in a database that was reached.\<close>

lemma drain_selects:
  assumes inv: "broker_inv (wd_db t)" and "wrote (\<lambda>_. drainIdle observed) ts t t'"
  shows "map fst ts = map rs_id (filter (\<lambda>r. drainableIdle r observed) (readResources (wd_db t) True)) \<and>
    (\<forall>k r. readResource (wd_db t) k = Some r \<longrightarrow> readResource (wd_db t') k =
       Some (if drainableIdle r observed then r\<lparr>rs_state := Destroying, rs_revision := rs_revision r + 1\<rparr> else r))"
proof -
  let ?rows = "filter (\<lambda>r. drainableIdle r observed) (readResources (wd_db t) True)"
  obtain db where d: "drainIdle observed (wd_db t) = Inr (map (\<lambda>r. (rs_id r, rs_revision r + 1)) ?rows, db)"
    "\<forall>k. k \<notin> rs_id ` set ?rows \<longrightarrow> readResource db k = readResource (wd_db t) k"
    "\<forall>r\<in>set ?rows. readResource db (rs_id r) = Some (r\<lparr>rs_state := Destroying, rs_revision := rs_revision r + 1\<rparr>)"
    using drainIdle_total [OF inv, of observed] by blast
  have t': "wd_db t' = db" "ts = map (\<lambda>r. (rs_id r, rs_revision r + 1)) ?rows"
    using assms(2) d(1) by (auto simp: wrote_def)
  have "readResource db k = Some (if drainableIdle r observed then r\<lparr>rs_state := Destroying, rs_revision := rs_revision r + 1\<rparr> else r)"
    if r: "readResource (wd_db t) k = Some r" for k r
  proof (cases "drainableIdle r observed")
    case True
    then have "r \<in> set ?rows"
      using resource_table.get_SomeD [OF r] by (auto simp: set_readResources drainableIdle_def)
    then show ?thesis using d(3) True resource_table.get_key [OF r] by auto
  next
    case False
    have "k \<notin> rs_id ` set ?rows"
    proof
      assume "k \<in> rs_id ` set ?rows"
      then obtain x where "x \<in> set ?rows" "rs_id x = k" by blast
      then show False using readResources_row [OF inv] r False by auto
    qed
    then show ?thesis using d(2) r False by simp
  qed
  then show ?thesis using t' by (simp add: comp_def)
qed

lemma reached_store: "inj key_of \<Longrightarrow> (broker_step key_of)\<^sup>*\<^sup>* empty_db (wd_db s) \<Longrightarrow> hosted key_of s t \<Longrightarrow> broker_inv (wd_db t)"
  using reached_broker_inv rtranclp_trans [of "broker_step key_of"] unfolding hosted_def by metis

section \<open>The operator drain\<close>

text \<open>
  C31: An operator drain tells the truth, whatever other requests, other daemons and native calls do at
  each of its suspensions. When \<open>SessionBroker.drainIdlePool\<close> answers, one transaction has retired
  exactly the resources idle at that moment, to \<open>destroying\<close> at the next revision, and left every other
  row as it was; the answer lists exactly these resources, in index order; and about each of them in
  turn, after that transaction, the store was asked, and the entry says destroyed exactly when the store
  had confirmed the device gone then, and cleanup pending otherwise. A broker that was stopping or under
  maintenance does not answer a drain. (Each drain runs its own cleanup pass here; the code shares a
  pass that is already under way for the same device.)
\<close>

theorem drain_reports_truth:
  assumes "inj key_of" and "native_contract key_of opts host"
    and "(broker_step key_of)\<^sup>*\<^sup>* empty_db (wd_db s)" and "fair (hosted key_of) mv"
    and "drainIdlePoolF opts s mv = (Inr es, s', mv')"
  shows "\<exists>t t' ts. hosted key_of s t \<and> wrote (\<lambda>_. drainIdle None) ts t t' \<and>
    map de_resource es = map rs_id (filter (\<lambda>r. rs_state r = Idle) (readResources (wd_db t) True)) \<and>
    (\<forall>k r. readResource (wd_db t) k = Some r \<longrightarrow> readResource (wd_db t') k =
       Some (if rs_state r = Idle then r\<lparr>rs_state := Destroying, rs_revision := rs_revision r + 1\<rparr> else r)) \<and>
    in_order key_of
      (map (\<lambda>e. saw (\<lambda>db. de_outcome e = DrainDestroyed \<longleftrightarrow> confirmedGone db (de_resource e))) es) t' s' \<and>
    list_all (\<lambda>e. de_cleanupPending e \<longleftrightarrow> de_outcome e = DrainCleanupPending) es \<and>
    \<not> sc_stopping s \<and> \<not> sc_maintenance s"
proof -
  have open_: "\<not> sc_stopping s" "\<not> sc_maintenance s" and run: "drainPool opts None s mv = (Inr es, s', mv')"
    using assms(5) by (auto simp: drainIdlePoolF_def andThenF_def look_def throw_def split: if_splits)
  have "drain_run key_of None es s s'"
    using meetsD [OF leads_drainPool [OF assms(2), unfolded hosted.leads_def] assms(4) run] by simp
  then obtain ts t t' where t: "hosted key_of s t" "wrote (\<lambda>_. drainIdle None) ts t t'" "drained ts es"
    "in_order key_of (map truthful es) t' s'" unfolding drain_run_def by blast
  note sel = drain_selects [OF reached_store [OF assms(1,3) t(1)] t(2), unfolded drainableIdle_def]
  show ?thesis
    by (intro exI conjI, rule t(1), rule t(2))
      (use t(3,4) sel open_ in \<open>simp_all add: drained_def truthful_def [abs_def]\<close>)
qed

definition demo_absent :: broker_options where
  "demo_absent = demo_options\<lparr>bo_devices := demo_devices\<lparr>dp_destroy := (\<lambda>r s. (Inr Absent,
     s\<lparr>wd_db := attempt (commitBinding 109 demo_binding \<lparr>be_generation = 1, be_device = Some ''emulator-5554''\<rparr>
         (demo_commit None Provisioning) (wd_db s)) (wd_db s)\<rparr>))\<rparr>\<rparr>"

lemma demo_absent_contract: "native_contract plain_scope_key demo_absent demo_host"
proof -
  have "(registry_step plain_scope_key)\<^sup>*\<^sup>* db (attempt (commitBinding now k e c db) db)" for now k e c and db :: broker_db
    by (rule attempt_step) (rule registry_step.commitBinding)
  then show ?thesis
    using demo_contract by (simp add: native_contract_def native_call_def demo_absent_def demo_options_def demo_devices_def)
qed

theorem drain_reports_truth_witness:
  "\<exists>es s' mv' t. drainIdlePoolF demo_absent (demo_scene demo9) [] = (Inr es, s', mv') \<and>
     map (\<lambda>e. (de_resource e, de_outcome e)) es = [(''r1'', DrainDestroyed)] \<and>
     hosted plain_scope_key (demo_scene demo9) t \<and>
     map de_resource es = map rs_id (filter (\<lambda>r. rs_state r = Idle) (readResources (wd_db t) True))"
proof -
  have "case drainIdlePoolF demo_absent (demo_scene demo9) [] of
     (Inr es, s', mv') \<Rightarrow> map (\<lambda>e. (de_resource e, de_outcome e)) es = [(''r1'', DrainDestroyed)] | (Inl e, s', mv') \<Rightarrow> False"
    by code_simp
  from answered_run [OF this] obtain es s' mv' where run:
    "drainIdlePoolF demo_absent (demo_scene demo9) [] = (Inr es, s', mv')"
    "map (\<lambda>e. (de_resource e, de_outcome e)) es = [(''r1'', DrainDestroyed)]" by (elim exE conjE)
  have "(broker_step plain_scope_key)\<^sup>*\<^sup>* empty_db (wd_db (demo_scene demo9))" "fair (hosted plain_scope_key) []"
    using demo_reach9 by (simp_all add: demo_scene_def fair_def)
  from drain_reports_truth [OF inj_plain_scope_key demo_absent_contract this run(1)] obtain t where
    "hosted plain_scope_key (demo_scene demo9) t"
    "map de_resource es = map rs_id (filter (\<lambda>r. rs_state r = Idle) (readResources (wd_db t) True))"
    by (elim exE conjE)
  with run show ?thesis by (intro exI conjI)
qed

section \<open>The expiry pass\<close>





end
