(* ===== verification/Spec2Isabelle.thy ===== *)
theory Spec2Isabelle
  imports RegistryTheorems RequestTheorems ResetReadiness DeviceClaims ResetBootQueue MutationRevert
    RequirementTheorems CleanReleaseFailure BrokerCallTheorems BrokerEvictions JournalTheorems
    PoolTheorems
begin

text \<open>
  \<^bold>\<open>AutoMobile: the managed device sessions of the daemon.\<close>

  AutoMobile drives Android emulators and Apple simulators for test agents. Its core is the session
  broker of the daemon (src/src/daemon/sessionBroker): a client asks for a device session, the broker
  normalises what the client wants, admits the request under host-wide caps, reserves, reuses or
  creates a managed device, binds it, keeps a durable receipt of every request, and on release resets
  the device and returns it to an idle pool or destroys it. Several daemon processes of one host share
  one SQLite database; every write to it is one transaction. This development models that core.

  \<^bold>\<open>Parts and how they interact.\<close>

  \<^item> \<^emph>\<open>Binding registry\<close> (registry/): which device a binding holds, at which generation, who executes
    on it, and a journal of device work in flight. Theories \<open>Registry\<close> (tables), \<open>BindingRegistry\<close>
    (one definition per transaction of \<open>SqliteBindingRegistry\<close>), \<open>RegistryInvariant\<close>,
    \<open>RegistrySteps\<close> (the transactions of any process as a step relation), \<open>RegistryTheorems\<close>.
  \<^item> \<^emph>\<open>Session broker store\<close> (sqliteStore.ts and its helpers): receipts (requests), device resources,
    exports. Its tables live in the registry's database, so \<open>broker_db\<close> extends \<open>registry_db\<close>.
    Theories \<open>Profile\<close>, \<open>Timing\<close> (the stored JSON columns), \<open>Store\<close> (one definition per transaction
    of \<open>SqliteSessionBrokerStore\<close>), \<open>StoreInvariant\<close>, \<open>StoreOps\<close>, \<open>StoreSteps\<close>, \<open>StoreRetention\<close>,
    \<open>StoreAdmission\<close> (each transaction keeps the invariant), \<open>BrokerSystem\<close> (both sets of
    transactions interleaved in any order), \<open>BrokerTheorems\<close>, \<open>RequestTheorems\<close>.
  \<^item> \<^emph>\<open>Admission policy\<close> (admission.ts): theory \<open>Admission\<close>; the store calls \<open>selectAdmission\<close> on the
    inventory read in the transaction that writes the reservation. \<open>AdmissionTheorems\<close> states the
    contract of the policy and that the store carries it out.
  \<^item> \<^emph>\<open>Session requirements\<close> (src/src/devices/sessionRequirements): what a client may ask for, and the
    profile it gets. Theories \<open>Version\<close> (dotted releases), \<open>RequirementTypes\<close>, \<open>RequirementParsing\<close>,
    \<open>RequirementCatalog\<close> (normalisation against the installed catalog, matching),
    \<open>RequirementResolution\<close> (the profile to create, the pool filter), \<open>RequirementTheorems\<close>.
  \<^item> \<^emph>\<open>The broker\<close> (broker.ts, resetRelease.ts, releaseReply.ts, brokerAdmission.ts, brokerSupport.ts,
    destructionQueue.ts, idlePoolExpiry.ts, cleanReleaseFailure.ts): asynchronous functions over the
    store and a device port. Theories \<open>Flow\<close> (the language they are written in), \<open>BrokerReplies\<close>
    (options, admission inputs, replies), \<open>CleanReleaseFailure\<close>, \<open>DestructionQueue\<close> (the data of
    drains and which idle devices expire), \<open>ResetRelease\<close> (drain, reset, back to the pool),
    \<open>BrokerFlow\<close> (preparation), \<open>BrokerLifecycle\<close> (every other entry point, drains and expiry
    passes). \<open>BrokerFlowTheorems\<close> shows that they change the database by transactions only;
    \<open>BrokerReplyTheorems\<close> and \<open>BrokerCallTheorems\<close> are about ready replies, \<open>BrokerReleaseTheorems\<close>
    about releases, \<open>BrokerEvictions\<close> about the eviction loop, \<open>PoolTheorems\<close> about drains and expiry.
  \<^item> \<^emph>\<open>Binding journal driver\<close> (registry/bindingJournal.ts and its helpers): finishes device work a
    process left behind. Theories \<open>JournalInFlight\<close> (native deletes under way), \<open>JournalStages\<close>
    (bounded stages, locating and deleting a device), \<open>JournalDriver\<close> (drives and passes),
    \<open>JournalDrives\<close> (what a drive answers), \<open>JournalKeeps\<close> (transactions only), \<open>JournalOrder\<close> (the
    order of reads, native calls and writes), \<open>JournalCancel\<close> (who cancels a drive),
    \<open>JournalTheorems\<close>.
  \<^item> \<^emph>\<open>Reset readiness\<close> (resetReadiness.ts): which running reset a new request may wait for, and the
    two bounded waits before its admission is continued. Theory \<open>ResetReadiness\<close>.
  \<^item> \<^emph>\<open>Reset boot gate\<close> (resetBootQueue.ts): theory \<open>ResetBootQueue\<close>.
  \<^item> \<^emph>\<open>Statistics\<close> (timingStats.ts, utils/percentile.ts): theory \<open>TimingStats\<close>.
  \<^item> \<^emph>\<open>Device claims\<close> (registry/sqliteDeviceClaims.ts, ../deviceClaims.ts): the host-wide table that
    keeps two daemons off one device. Theory \<open>DeviceClaims\<close>.
  \<^item> \<^emph>\<open>Device mutation journal\<close> (mutations/): every setting, app and file a session changes is
    journalled before the change and reverted on release. Theories \<open>MutationJournal\<close> and
    \<open>MutationRevert\<close>, which also has the Android port's answers to unjournaled changes
    (androidDeviceMutationResetPort.ts).

  \<open>Prelude\<close> holds the result type, the table algebra (locale \<open>row_store\<close>, interpreted for every
  table), the stable sort under a comparator (locale \<open>comparator\<close>) and the two locales that lift step
  facts to runs (\<open>invariant_system\<close>, \<open>monotone_system\<close>, interpreted for the registry, the whole
  database, the readiness state, the claim table, the deletes under way and the boot queue). \<open>Json\<close>
  holds JSON values and the canonical order behind a fingerprint. \<open>Scenario\<close> executes one session from
  admission to destruction, transaction by transaction; its states are the inputs of the witnesses.

  \<^bold>\<open>How code is represented.\<close> A table is the list of its rows, a row a record with the columns of
  the schema. A transaction is a function from its arguments and the database to an error or a value
  with the new database; an error rolls back, so it carries no database. The clock, fresh ids, the
  liveness of a process and the caller's identity are arguments. Times are integers in milliseconds;
  durations and averages are rationals where the source has floating-point numbers. Strings are lists
  of characters.

  An asynchronous function is a \<open>flow\<close>: it takes the scene (the database, the clock, the in-memory
  state of the broker or the journal) and a list of \<open>moves\<close>, and answers a value or an error with the
  new scene and the moves left. Each \<open>await\<close> of the source is an \<open>awaiting\<close>: the next move runs, which
  may change the scene as everything else of the host may, and may make the awaited call fail; code
  between two awaits is atomic, as in JavaScript. \<open>fair (hosted key_of) moves\<close> says the moves change the
  database by committed transactions of any process, in any number and order, and never take a stop
  back. The locale \<open>scene_relation\<close> carries a relation between scenes through a flow; it is interpreted
  with \<open>hosted\<close>. \<open>leads P m\<close> says what a run of \<open>m\<close> from one scene to another has done when it answers.

  Code outside the modelled files is a parameter: \<open>live\<close> (is a process alive), \<open>lc\<close>
  (\<open>localeCompare\<close>), \<open>key_of\<close> (the hash that names a scope; injective where a theorem says so),
  \<open>matches\<close> (profile compatibility), the device port and the native side of the journal (they may fail
  and may run registry transactions of their own: \<open>native_contract\<close>, \<open>journal_contract\<close>), the reset
  port of a mutation revert (\<open>restoring\<close>), \<open>pause\<close> (what the world does during a wait), \<open>others\<close> (what
  other daemons write between a read and a write).

  Loops are structural recursion or carry a termination proof, but for one: the eviction loop of a
  preparation goes on as long as other requests keep taking the room it made, so it has fuel, and C29
  shows that some number of rounds is enough for any finite sequence of moves. The bound of six
  steps in a drive of a journal entry is the source's own; C21 shows that two are taken.

  \<^bold>\<open>What is shown.\<close>

  \<^item> Ownership: reservations and devices have one owner in every reachable database (C1, C2, C7);
    fences by generation and revision (C8, C10); execution ownership and compare-and-set (C16, C17).
  \<^item> What the broker answers is true at each interleaving: ready replies (C3), releases (C4), drains
    and expiry (C31, C32). A device returns to the pool only clean (C5, C11) and counts as destroyed only
    when nothing is left of it (C9).
  \<^item> The journal: a binding is emptied only when its device is gone (C6), entries track bindings and end
    once (C18, C19), a pass drives every entry (C20) in at most two steps (C21) with bounded deletes
    (C22), and settled bindings recover (C23).
  \<^item> Admission: the contract of the policy (C12), replay (C14), caps (C15), final receipts (C13),
    recovery, abandonment and foreign processes (C24 to C26), bounded waiting (C27), the end of evictions
    (C29), the classification of failures (C30).
  \<^item> Statistics (C28), device claims (C33), the boot gate (C34), the revert of a session's mutations
    (C35, C36), session requirements from parsing to the created device (C37 to C40).

  \<^bold>\<open>Not modelled.\<close> Opening the database file, its migrations and locks (I/O); the acquisition and
  provisioning layer behind the device port (provisioning/); the loop that schedules journal passes and
  its retry pacing; connection scopes and the wiring of service.ts; commands to adb, emulator and simctl
  and the reset ports built on them; timers and the sharing of a promise that is already under way; the
  MCP tool surface, observation and gesture features; the mobile apps and scripts of the repository.
\<close>

end
